(* ===== verification/Prelude.thy ===== *)
theory Prelude
  imports Main "HOL-Library.Word"
begin

text \<open>
  Shared vocabulary of the development: Rust strings and their byte length, the saturating
  integer operations the sources use, operations that thread a state and may fail or panic
  (with total-correctness triples over them), list helpers with the panics of Rust's indexing
  written out, and the two generic contracts (\<open>idempotent_filter\<close>, \<open>invariant_machine\<close>) that several
  components instantiate.
\<close>

section \<open>Strings\<close>

text \<open>
  A Rust \<open>String\<close> is a sequence of Unicode scalar values; \<open>chars()\<close> iterates over them and
  \<open>len()\<close> counts the bytes of their UTF-8 encoding. A string is the list of its scalar values.
\<close>

type_synonym ustring = "nat list"

text \<open>An ASCII literal of the source, as scalar values.\<close>

definition ustr :: "string \<Rightarrow> ustring" where
  "ustr s = map of_char s"

lemma ustr_simps [simp]:
  "ustr [] = []" "ustr (c # cs) = of_char c # ustr cs"
  by (simp_all add: ustr_def)

lemma length_ustr [simp]: "length (ustr s) = length s"
  by (simp add: ustr_def)

definition char_len :: "nat \<Rightarrow> nat" where
  "char_len c = (if c < 0x80 then 1 else if c < 0x800 then 2 else if c < 0x10000 then 3 else 4)"

definition utf8_len :: "ustring \<Rightarrow> nat" where
  "utf8_len s = sum_list (map char_len s)"

lemma char_len_bounds: "1 \<le> char_len c" "char_len c \<le> 4"
  by (simp_all add: char_len_def)

lemma utf8_len_simps [simp]:
  "utf8_len [] = 0"
  "utf8_len (c # s) = char_len c + utf8_len s"
  "utf8_len (s @ t) = utf8_len s + utf8_len t"
  by (simp_all add: utf8_len_def)

lemma length_le_utf8_len: "length s \<le> utf8_len s"
  by (induction s) (auto simp: char_len_def)

definition is_ascii_digit :: "nat \<Rightarrow> bool" where
  "is_ascii_digit c \<longleftrightarrow> 0x30 \<le> c \<and> c \<le> 0x39"

text \<open>Rust's \<open>str::strip_prefix\<close> and \<open>str::strip_suffix\<close>.\<close>

definition strip_prefix :: "'a list \<Rightarrow> 'a list \<Rightarrow> 'a list option" where
  "strip_prefix p s = (if take (length p) s = p then Some (drop (length p) s) else None)"

definition strip_suffix :: "'a list \<Rightarrow> 'a list \<Rightarrow> 'a list option" where
  "strip_suffix p s = map_option rev (strip_prefix (rev p) (rev s))"

lemma strip_prefix_Some: "strip_prefix p s = Some t \<longleftrightarrow> s = p @ t"
  by (auto simp: strip_prefix_def) (metis append_take_drop_id)

lemma strip_suffix_Some: "strip_suffix p s = Some t \<longleftrightarrow> s = t @ p"
proof -
  have "strip_suffix p s = Some t \<longleftrightarrow> strip_prefix (rev p) (rev s) = Some (rev t)"
    by (auto simp: strip_suffix_def)
  also have "\<dots> \<longleftrightarrow> s = t @ p"
    by (simp add: strip_prefix_Some flip: rev_append)
  finally show ?thesis .
qed

section \<open>Machine integers\<close>

text \<open>
  Sizes, coordinates and durations are natural numbers. Where the source saturates, so does the
  model, at the bound of the Rust type; counters that the source lets wrap are 64-bit words.
\<close>

definition sat_add :: "nat \<Rightarrow> nat \<Rightarrow> nat \<Rightarrow> nat" where
  "sat_add bound a b = min (a + b) bound"

definition sat_mul :: "nat \<Rightarrow> nat \<Rightarrow> nat \<Rightarrow> nat" where
  "sat_mul bound a b = min (a * b) bound"

abbreviation u16_max :: nat where "u16_max \<equiv> 65535"
abbreviation u32_max :: nat where "u32_max \<equiv> 4294967295"
abbreviation u64_max :: nat where "u64_max \<equiv> 18446744073709551615"

lemma sat_add_le_bound: "sat_add b x y \<le> b" "sat_add b x y \<le> x + y"
  by (simp_all add: sat_add_def)

lemma sat_add_pos: "0 < b \<Longrightarrow> 0 < y \<Longrightarrow> 0 < sat_add b x y"
  by (simp add: sat_add_def)

type_synonym counter = "64 word"

section \<open>Operations on a state that may fail or panic\<close>

datatype 'e fault = Panic | Fail 'e

text \<open>
  An operation takes a state and returns its result (or the fault) together with the state it
  left behind: a Rust method with a \<open>&mut self\<close> argument keeps the changes it made before an
  early \<open>return Err(..)\<close>.
\<close>

type_synonym ('s, 'e, 'a) op = "'s \<Rightarrow> ('e fault + 'a) \<times> 's"

definition ret :: "'a \<Rightarrow> ('s, 'e, 'a) op" where
  "ret a s = (Inr a, s)"

definition raise :: "'e \<Rightarrow> ('s, 'e, 'a) op" where
  "raise e s = (Inl (Fail e), s)"

definition panic :: "('s, 'e, 'a) op" where
  "panic s = (Inl Panic, s)"

definition modify :: "('s \<Rightarrow> 's) \<Rightarrow> ('s, 'e, unit) op" where
  "modify f s = (Inr (), f s)"

definition bind_op :: "('s, 'e, 'a) op \<Rightarrow> ('a \<Rightarrow> ('s, 'e, 'b) op) \<Rightarrow> ('s, 'e, 'b) op" where
  "bind_op m f s = (case m s of (Inl e, s') \<Rightarrow> (Inl e, s') | (Inr a, s') \<Rightarrow> f a s')"

definition then_op :: "('s, 'e, unit) op \<Rightarrow> ('s, 'e, 'b) op \<Rightarrow> ('s, 'e, 'b) op" where
  "then_op m n = bind_op m (\<lambda>_. n)"

definition with_state :: "('s \<Rightarrow> ('s, 'e, 'a) op) \<Rightarrow> ('s, 'e, 'a) op" where
  "with_state f s = f s s"

named_theorems op_defs "the definitions of the operation combinators"

lemmas [op_defs] = ret_def raise_def panic_def modify_def with_state_def

text \<open>
  \<open>triple P m Q E\<close>: from every state with \<open>P\<close> the operation does not panic, its result and final
  state satisfy \<open>Q\<close> when it succeeds, and the error and the state left behind satisfy \<open>E\<close>.
\<close>

definition triple ::
  "('s \<Rightarrow> bool) \<Rightarrow> ('s, 'e, 'a) op \<Rightarrow> ('a \<Rightarrow> 's \<Rightarrow> bool) \<Rightarrow> ('e \<Rightarrow> 's \<Rightarrow> bool) \<Rightarrow> bool" where
  "triple P m Q E \<longleftrightarrow> (\<forall>s. P s \<longrightarrow>
     (case m s of (Inl Panic, _) \<Rightarrow> False | (Inl (Fail e), s') \<Rightarrow> E e s' | (Inr a, s') \<Rightarrow> Q a s'))"

lemma tripleD:
  "triple P m Q E \<Longrightarrow> P s \<Longrightarrow> case m s of (Inl Panic, _) \<Rightarrow> False | (Inl (Fail e), s') \<Rightarrow> E e s' | (Inr a, s') \<Rightarrow> Q a s'"
  by (simp add: triple_def)

abbreviation total_op :: "('s \<Rightarrow> bool) \<Rightarrow> ('s, 'e, 'a) op \<Rightarrow> ('a \<Rightarrow> 's \<Rightarrow> bool) \<Rightarrow> bool" where
  "total_op P m Q \<equiv> triple P m Q (\<lambda>_ _. False)"

lemma triple_bind:
  assumes "triple P m R E" and "\<And>a. triple (R a) (f a) Q E"
  shows "triple P (bind_op m f) Q E"
  using assms by (fastforce simp: triple_def bind_op_def split: prod.splits sum.splits fault.splits)

lemma triple_then:
  assumes "triple P m (\<lambda>_. R) E" and "triple R n Q E"
  shows "triple P (then_op m n) Q E"
  using assms by (auto simp: then_op_def intro: triple_bind)

lemma triple_conseq:
  assumes "triple P' m Q' E'" and "\<And>s. P s \<Longrightarrow> P' s"
    and "\<And>a s. Q' a s \<Longrightarrow> Q a s" and "\<And>e s. E' e s \<Longrightarrow> E e s"
  shows "triple P m Q E"
  using assms by (fastforce simp: triple_def split: prod.splits sum.splits fault.splits)

lemma triple_ret: "(\<And>s. P s \<Longrightarrow> Q a s) \<Longrightarrow> triple P (ret a) Q E"
  by (simp add: triple_def ret_def)

lemma triple_raise: "(\<And>s. P s \<Longrightarrow> E e s) \<Longrightarrow> triple P (raise e) Q E"
  by (simp add: triple_def raise_def)

lemma triple_modify: "(\<And>s. P s \<Longrightarrow> Q () (f s)) \<Longrightarrow> triple P (modify f) Q E"
  by (simp add: triple_def modify_def)

lemma triple_with_state:
  "(\<And>s0. P s0 \<Longrightarrow> triple (\<lambda>s. s = s0) (f s0) Q E) \<Longrightarrow> triple P (with_state f) Q E"
  by (auto simp: triple_def with_state_def)

lemma total_opD:
  assumes "total_op P m Q" and "P s"
  obtains a s' where "m s = (Inr a, s')" "Q a s'"
proof -
  obtain r s' where m: "m s = (r, s')" by (cases "m s")
  from assms have "case m s of (Inl Panic, _) \<Rightarrow> False | (Inl (Fail e), s') \<Rightarrow> False | (Inr a, s') \<Rightarrow> Q a s'"
    by (simp add: triple_def)
  with m obtain a where "r = Inr a" "Q a s'" by (auto split: sum.splits fault.splits)
  with m that show thesis by simp
qed

lemma bind_op_Inr: "m s = (Inr a, s') \<Longrightarrow> bind_op m f s = f a s'"
  by (simp add: bind_op_def)

lemma bind_op_Inl: "m s = (Inl e, s') \<Longrightarrow> bind_op m f s = (Inl e, s')"
  by (simp add: bind_op_def)

section \<open>Lists\<close>

text \<open>
  \<open>iter().position(p)\<close> followed by \<open>remove(index)\<close>: the first element satisfying the test and
  the list without it. The test indexes a map and panics (\<open>None\<close>) on a missing key.
\<close>

fun take_first :: "('a \<Rightarrow> bool option) \<Rightarrow> 'a list \<Rightarrow> ('a \<times> 'a list) option option" where
  "take_first p [] = Some None"
| "take_first p (x # xs) =
     (case p x of
        None \<Rightarrow> None
      | Some True \<Rightarrow> Some (Some (x, xs))
      | Some False \<Rightarrow> map_option (map_option (\<lambda>(y, ys). (y, x # ys))) (take_first p xs))"

text \<open>The same from the right: \<open>iter().rposition(p)\<close>.\<close>

definition take_last :: "('a \<Rightarrow> bool option) \<Rightarrow> 'a list \<Rightarrow> ('a \<times> 'a list) option option" where
  "take_last p xs = map_option (map_option (\<lambda>(y, ys). (y, rev ys))) (take_first p (rev xs))"

lemma take_first_defined:
  assumes "\<forall>x \<in> set xs. p x \<noteq> None"
  shows "(take_first p xs = Some None \<and> (\<forall>x \<in> set xs. p x = Some False))
    \<or> (\<exists>us y vs. xs = us @ y # vs \<and> p y = Some True \<and> (\<forall>x \<in> set us. p x = Some False)
          \<and> take_first p xs = Some (Some (y, us @ vs)))"
  using assms
proof (induction xs)
  case Nil
  then show ?case by simp
next
  case (Cons a xs)
  from Cons.prems obtain b where b: "p a = Some b" by fastforce
  show ?case
  proof (cases b)
    case True
    with b have "a # xs = [] @ a # xs \<and> p a = Some True \<and> (\<forall>x \<in> set []. p x = Some False)
      \<and> take_first p (a # xs) = Some (Some (a, [] @ xs))" by simp
    then show ?thesis by blast
  next
    case False
    from Cons.IH Cons.prems consider
        "take_first p xs = Some None" "\<forall>x \<in> set xs. p x = Some False"
      | us y vs where "xs = us @ y # vs" "p y = Some True" "\<forall>x \<in> set us. p x = Some False"
          "take_first p xs = Some (Some (y, us @ vs))"
      by (metis list.set_intros(2))
    then show ?thesis
    proof cases
      case 1
      with b False show ?thesis by simp
    next
      case 2
      with b False have "a # xs = (a # us) @ y # vs \<and> p y = Some True
        \<and> (\<forall>x \<in> set (a # us). p x = Some False)
        \<and> take_first p (a # xs) = Some (Some (y, (a # us) @ vs))" by simp
      then show ?thesis by blast
    qed
  qed
qed

lemma take_last_defined:
  assumes "\<forall>x \<in> set xs. p x \<noteq> None"
  shows "(take_last p xs = Some None \<and> (\<forall>x \<in> set xs. p x = Some False))
    \<or> (\<exists>us y vs. xs = us @ y # vs \<and> p y = Some True \<and> (\<forall>x \<in> set vs. p x = Some False)
          \<and> take_last p xs = Some (Some (y, us @ vs)))"
proof -
  from assms have "\<forall>x \<in> set (rev xs). p x \<noteq> None" by simp
  from take_first_defined [of "rev xs" p, OF this] show ?thesis
  proof (elim disjE exE conjE)
    fix us y vs
    assume "rev xs = us @ y # vs" "p y = Some True" "\<forall>x \<in> set us. p x = Some False"
      "take_first p (rev xs) = Some (Some (y, us @ vs))"
    moreover from this(1) have "xs = rev vs @ y # rev us"
      by (metis append.assoc append_Cons append_Nil rev.simps(2) rev_append rev_rev_ident)
    ultimately have "xs = rev vs @ y # rev us \<and> p y = Some True
        \<and> (\<forall>x \<in> set (rev us). p x = Some False) \<and> take_last p xs = Some (Some (y, rev vs @ rev us))"
      by (simp add: take_last_def)
    then show ?thesis by blast
  qed (simp add: take_last_def)
qed

section \<open>Generic contracts\<close>

text \<open>
  A sanitiser: whatever goes in, the result is acceptable, and an acceptable text goes through
  unchanged.
\<close>

locale idempotent_filter =
  fixes sanitise :: "'a \<Rightarrow> 'a"
    and acceptable :: "'a \<Rightarrow> bool"
  assumes sanitise_acceptable: "acceptable (sanitise x)"
    and acceptable_fixed: "acceptable x \<Longrightarrow> sanitise x = x"
begin

lemma idem: "sanitise (sanitise x) = sanitise x"
  by (rule acceptable_fixed) (rule sanitise_acceptable)

lemma fixed_iff: "sanitise x = x \<longleftrightarrow> acceptable x"
  using sanitise_acceptable [of x] acceptable_fixed [of x] by auto

end

text \<open>
  A component driven by a sequence of inputs: an invariant that holds at the start and that
  every enabled input keeps, holds after any run whose inputs are enabled when they arrive.
\<close>

fun run_machine :: "('s \<Rightarrow> 'i \<Rightarrow> 's) \<Rightarrow> 's \<Rightarrow> 'i list \<Rightarrow> 's" where
  "run_machine step s [] = s"
| "run_machine step s (i # is) = run_machine step (step s i) is"

fun enabled_run :: "('s \<Rightarrow> 'i \<Rightarrow> 's) \<Rightarrow> ('s \<Rightarrow> 'i \<Rightarrow> bool) \<Rightarrow> 's \<Rightarrow> 'i list \<Rightarrow> bool" where
  "enabled_run step guard s [] \<longleftrightarrow> True"
| "enabled_run step guard s (i # is) \<longleftrightarrow> guard s i \<and> enabled_run step guard (step s i) is"

locale invariant_machine =
  fixes step :: "'s \<Rightarrow> 'i \<Rightarrow> 's"
    and guard :: "'s \<Rightarrow> 'i \<Rightarrow> bool"
    and inv :: "'s \<Rightarrow> bool"
  assumes step_inv: "inv s \<Longrightarrow> guard s i \<Longrightarrow> inv (step s i)"
begin

lemma run_inv: "inv s \<Longrightarrow> enabled_run step guard s is \<Longrightarrow> inv (run_machine step s is)"
  by (induction "is" arbitrary: s) (auto intro: step_inv)

lemma run_prefix_inv:
  "inv s \<Longrightarrow> enabled_run step guard s (is @ js) \<Longrightarrow> inv (run_machine step s is)"
  by (induction "is" arbitrary: s) (auto intro: step_inv)

end

lemma run_machine_append: "run_machine step s (is @ js) = run_machine step (run_machine step s is) js"
  by (induction "is" arbitrary: s) auto

lemma enabled_run_append:
  "enabled_run step guard s (is @ js)
     \<longleftrightarrow> enabled_run step guard s is \<and> enabled_run step guard (run_machine step s is) js"
  by (induction "is" arbitrary: s) auto

end
