(* ===== verification/Text_Ingress.thy ===== *)
theory Text_Ingress
  imports Prelude
begin

text \<open>
  The ingress filter of \<open>src/notification.rs\<close>: conversion of untrusted text into terminal-safe
  plain text (\<open>normalize_plain_text\<close> and the escape-sequence consumers it calls), the size bounds
  that every externally supplied field passes (\<open>normalize_bounded\<close>, \<open>normalize_required\<close>) and the
  recogniser of stable tmux identifiers (\<open>stable_tmux_id\<close>).
  The lemmas show that the filter always returns text without display controls, that such text
  passes unchanged, and what each bound accepts.
\<close>

section \<open>Limits and errors\<close>

definition MAX_IPC_REQUEST_BYTES :: nat where "MAX_IPC_REQUEST_BYTES = 64 * 1024"
definition MAX_TITLE_BYTES :: nat where "MAX_TITLE_BYTES = 1024"
definition MAX_BODY_BYTES :: nat where "MAX_BODY_BYTES = 48 * 1024"
definition MAX_KEY_BYTES :: nat where "MAX_KEY_BYTES = 1024"
definition MAX_SOURCE_ID_BYTES :: nat where "MAX_SOURCE_ID_BYTES = 256"
definition MAX_SOURCE_VALUE_BYTES :: nat where "MAX_SOURCE_VALUE_BYTES = 1024"
definition MAX_CWD_BYTES :: nat where "MAX_CWD_BYTES = 4096"
definition MAX_METADATA_VALUE_BYTES :: nat where "MAX_METADATA_VALUE_BYTES = 1024"
definition TAB_WIDTH :: nat where "TAB_WIDTH = 4"

lemmas limit_defs = MAX_IPC_REQUEST_BYTES_def MAX_TITLE_BYTES_def MAX_BODY_BYTES_def
  MAX_KEY_BYTES_def MAX_SOURCE_ID_BYTES_def MAX_SOURCE_VALUE_BYTES_def MAX_CWD_BYTES_def
  MAX_METADATA_VALUE_BYTES_def TAB_WIDTH_def

datatype ingress_error =
    RequestTooLarge nat nat        \<comment> \<open>actual, maximum\<close>
  | ValueTooLarge string nat nat   \<comment> \<open>field, actual, maximum\<close>
  | EmptyValue string
  | InvalidTmuxId string
  | AttentionRequiresSource
  | InvalidNotificationId

definition validate_ipc_request_size :: "8 word list \<Rightarrow> ingress_error + unit" where
  "validate_ipc_request_size bytes =
     (if length bytes > MAX_IPC_REQUEST_BYTES
      then Inl (RequestTooLarge (length bytes) MAX_IPC_REQUEST_BYTES)
      else Inr ())"

section \<open>Terminal-safe plain text\<close>

text \<open>\<open>char::is_control\<close>: the general category Cc.\<close>

definition is_control :: "nat \<Rightarrow> bool" where
  "is_control c \<longleftrightarrow> c < 0x20 \<or> 0x7f \<le> c \<and> c \<le> 0x9f"

definition is_display_control :: "nat \<Rightarrow> bool" where
  "is_display_control c \<longleftrightarrow> is_control c
     \<or> c = 0x061c
     \<or> c = 0x00ad
     \<or> c = 0x200b
     \<or> 0x200e \<le> c \<and> c \<le> 0x200f
     \<or> 0x202a \<le> c \<and> c \<le> 0x202e
     \<or> 0x2060 \<le> c \<and> c \<le> 0x2064
     \<or> 0x2066 \<le> c \<and> c \<le> 0x206f
     \<or> c = 0xfeff
     \<or> 0xfff9 \<le> c \<and> c \<le> 0xfffb"

text \<open>
  The consumers work on the peekable character iterator; here they take the characters not yet
  consumed and return the ones that remain.
\<close>

fun consume_csi :: "ustring \<Rightarrow> ustring" where
  "consume_csi [] = []"
| "consume_csi (c # cs) = (if 0x40 \<le> c \<and> c \<le> 0x7e then cs else consume_csi cs)"

fun consume_osc :: "ustring \<Rightarrow> ustring" where
  "consume_osc [] = []"
| "consume_osc (c # cs) =
     (if c = 0x07 then cs
      else if c = 0x1b \<and> cs \<noteq> [] \<and> hd cs = 0x5c then tl cs
      else consume_osc cs)"

definition consume_ansi_after_escape :: "ustring \<Rightarrow> bool \<times> ustring" where
  "consume_ansi_after_escape cs =
     (case cs of
        [] \<Rightarrow> (False, cs)
      | c # cs' \<Rightarrow>
          if c = 0x5b then (True, consume_csi cs')
          else if c = 0x5d then (True, consume_osc cs')
          else if 0x20 \<le> c \<and> c \<le> 0x2f then
            (let rest = dropWhile (\<lambda>v. 0x20 \<le> v \<and> v \<le> 0x2f) cs'
             in (True, case rest of
                         v # rest' \<Rightarrow> if 0x30 \<le> v \<and> v \<le> 0x7e then rest' else rest
                       | [] \<Rightarrow> rest))
          else (False, cs))"

lemma length_consume_csi: "length (consume_csi cs) \<le> length cs"
  by (induction cs rule: consume_csi.induct) auto

lemma length_consume_osc: "length (consume_osc cs) \<le> length cs"
  by (induction cs rule: consume_osc.induct) auto

lemma length_consume_ansi: "length (snd (consume_ansi_after_escape cs)) \<le> length cs"
proof (cases cs)
  case (Cons c cs')
  have "length (dropWhile P cs') \<le> length cs'" for P by (rule length_dropWhile_le)
  then show ?thesis
    using Cons length_consume_csi [of cs'] length_consume_osc [of cs']
    by (auto simp: consume_ansi_after_escape_def Let_def le_Suc_eq split: list.splits)
      (metis le_Suc_eq length_Cons Suc_leD)+
qed (simp add: consume_ansi_after_escape_def)

text \<open>
  One iteration of the loop, on the character just taken and the ones that follow: what it pushes
  onto the result and the characters that remain.
\<close>

definition normalize_step :: "nat \<Rightarrow> ustring \<Rightarrow> ustring \<times> ustring" where
  "normalize_step c cs =
     (if c = 0x0d then ([0x0a], if cs \<noteq> [] \<and> hd cs = 0x0a then tl cs else cs)
      else if c = 0x0a then ([0x0a], cs)
      else if c = 0x09 then (replicate TAB_WIDTH 0x20, cs)
      else if c = 0x1b then
        (case consume_ansi_after_escape cs of (known, rest) \<Rightarrow> (if known then [] else [0xfffd], rest))
      else if c = 0x9b then ([], consume_csi cs)
      else if c = 0x9d then ([], consume_osc cs)
      else if is_display_control c then ([0xfffd], cs)
      else ([c], cs))"

lemma length_normalize_step: "length (snd (normalize_step c cs)) \<le> length cs"
  using length_consume_ansi [of cs] length_consume_csi [of cs] length_consume_osc [of cs]
  by (cases cs) (simp_all add: normalize_step_def split_beta)

text \<open>Every iteration takes a character, so the number of characters left is the measure.\<close>

function normalize_plain_text :: "ustring \<Rightarrow> ustring" where
  "normalize_plain_text [] = []"
| "normalize_plain_text (c # cs) =
     fst (normalize_step c cs) @ normalize_plain_text (snd (normalize_step c cs))"
  by pat_completeness auto
termination
  by (relation "measure length") (auto simp: less_Suc_eq_le length_normalize_step)

section \<open>What the filter guarantees\<close>

text \<open>A character that a terminal shows as itself or as a line break.\<close>

definition terminal_safe :: "nat \<Rightarrow> bool" where
  "terminal_safe c \<longleftrightarrow> c = 0x0a \<or> \<not> is_display_control c"

definition plain_text :: "ustring \<Rightarrow> bool" where
  "plain_text s \<longleftrightarrow> (\<forall>c \<in> set s. terminal_safe c)"

lemma plain_text_simps [simp]:
  "plain_text []"
  "plain_text (c # s) \<longleftrightarrow> terminal_safe c \<and> plain_text s"
  "plain_text (s @ t) \<longleftrightarrow> plain_text s \<and> plain_text t"
  by (auto simp: plain_text_def)

lemma terminal_safe_constants [simp]:
  "terminal_safe 0x0a" "terminal_safe 0x20" "terminal_safe 0xfffd"
  by (simp_all add: terminal_safe_def is_display_control_def is_control_def)

lemma terminal_safeI: "\<not> is_display_control c \<Longrightarrow> terminal_safe c"
  by (simp add: terminal_safe_def)

lemma plain_text_replicate_space [simp]: "plain_text (replicate n 0x20)"
  by (induction n) auto

lemma normalize_step_plain: "plain_text (fst (normalize_step c cs))"
  by (simp add: normalize_step_def split_beta terminal_safeI)

lemma normalize_plain: "plain_text (normalize_plain_text s)"
  by (induction s rule: normalize_plain_text.induct) (auto simp: normalize_step_plain)

lemma terminal_safe_cases:
  "terminal_safe c \<Longrightarrow> c \<noteq> 0x0d \<and> c \<noteq> 0x09 \<and> c \<noteq> 0x1b \<and> c \<noteq> 0x9b \<and> c \<noteq> 0x9d"
  by (auto simp: terminal_safe_def is_display_control_def is_control_def)

lemma normalize_fixed: "plain_text s \<Longrightarrow> normalize_plain_text s = s"
proof (induction s)
  case Nil
  then show ?case by simp
next
  case (Cons c s)
  then have "terminal_safe c" and IH: "normalize_plain_text s = s" by simp_all
  then show ?case
    using terminal_safe_cases [of c] by (auto simp: normalize_step_def terminal_safe_def)
qed

interpretation ingress: idempotent_filter normalize_plain_text plain_text
  by unfold_locales (auto simp: normalize_plain normalize_fixed)

text \<open>
  The output is at most four times as long as the input: a tab (one byte) becomes four spaces, a
  one-byte control becomes the three-byte replacement character, and everything else shrinks or
  stays.
\<close>

lemma utf8_len_tl: "utf8_len (tl s) \<le> utf8_len s"
  by (cases s) auto

lemma utf8_len_consume_csi: "utf8_len (consume_csi s) \<le> utf8_len s"
  by (induction s rule: consume_csi.induct) auto

lemma utf8_len_consume_osc: "utf8_len (consume_osc s) \<le> utf8_len s"
proof (induction s rule: consume_osc.induct)
  case (2 c cs)
  then show ?case using utf8_len_tl [of cs] by auto
qed simp

lemma utf8_len_dropWhile: "utf8_len (dropWhile P s) \<le> utf8_len s"
  by (induction s) auto

lemma utf8_len_consume_ansi: "utf8_len (snd (consume_ansi_after_escape s)) \<le> utf8_len s"
proof (cases s)
  case (Cons c cs)
  obtain d where d: "dropWhile (\<lambda>v. 0x20 \<le> v \<and> v \<le> 0x2f) cs = d" by blast
  with utf8_len_dropWhile have "utf8_len d \<le> utf8_len cs" by metis
  moreover have "utf8_len (case d of v # r \<Rightarrow> if 0x30 \<le> v \<and> v \<le> 0x7e then r else d | [] \<Rightarrow> d)
      \<le> utf8_len d"
    by (cases d) simp_all
  ultimately show ?thesis
    using Cons d utf8_len_consume_csi [of cs] utf8_len_consume_osc [of cs]
    by (simp add: consume_ansi_after_escape_def Let_def)
qed (simp add: consume_ansi_after_escape_def)

lemma utf8_len_replicate_space [simp]: "utf8_len (replicate n 0x20) = n"
  by (induction n) (auto simp: char_len_def)

lemma consume_ansi_Nil [simp]: "consume_ansi_after_escape [] = (False, [])"
  by (simp add: consume_ansi_after_escape_def)

lemma normalize_step_rest: "utf8_len (snd (normalize_step c cs)) \<le> utf8_len cs"
  by (auto simp: normalize_step_def split_beta utf8_len_consume_ansi utf8_len_consume_csi
      utf8_len_consume_osc utf8_len_tl)

lemma normalize_step_out: "utf8_len (fst (normalize_step c cs)) \<le> 4 * char_len c"
  by (auto simp: normalize_step_def split_beta TAB_WIDTH_def char_len_def)

lemma normalize_len: "utf8_len (normalize_plain_text s) \<le> 4 * utf8_len s"
proof (induction s rule: normalize_plain_text.induct)
  case (2 c cs)
  then show ?case
    using normalize_step_rest [of c cs] normalize_step_out [of c cs] by simp
qed simp

section \<open>Bounded and required fields\<close>

definition normalize_bounded :: "string \<Rightarrow> ustring \<Rightarrow> nat \<Rightarrow> ingress_error + ustring" where
  "normalize_bounded field value maximum =
     (let normalized = normalize_plain_text value
      in if utf8_len normalized > maximum
         then Inl (ValueTooLarge field (utf8_len normalized) maximum)
         else Inr normalized)"

definition normalize_required :: "string \<Rightarrow> ustring \<Rightarrow> nat \<Rightarrow> ingress_error + ustring" where
  "normalize_required field value maximum =
     (case normalize_bounded field value maximum of
        Inl e \<Rightarrow> Inl e
      | Inr normalized \<Rightarrow> if normalized = [] then Inl (EmptyValue field) else Inr normalized)"

definition stable_tmux_id :: "string \<Rightarrow> ustring \<Rightarrow> nat \<Rightarrow> ingress_error + ustring" where
  "stable_tmux_id field value prefix =
     (if utf8_len value > MAX_SOURCE_ID_BYTES
      then Inl (ValueTooLarge field (utf8_len value) MAX_SOURCE_ID_BYTES)
      else case strip_prefix [prefix] value of
        None \<Rightarrow> Inl (InvalidTmuxId field)
      | Some suffix \<Rightarrow>
          if suffix = [] \<or> \<not> list_all is_ascii_digit suffix then Inl (InvalidTmuxId field)
          else Inr value)"

text \<open>A field as it is stored after ingress: plain text within its bound.\<close>

definition bounded_text :: "nat \<Rightarrow> ustring \<Rightarrow> bool" where
  "bounded_text maximum s \<longleftrightarrow> plain_text s \<and> utf8_len s \<le> maximum"

lemma normalize_bounded_Inr:
  "normalize_bounded field value maximum = Inr s
     \<longleftrightarrow> s = normalize_plain_text value \<and> utf8_len s \<le> maximum"
  by (auto simp: normalize_bounded_def Let_def)

lemma normalize_required_Inr:
  "normalize_required field value maximum = Inr s
     \<longleftrightarrow> s = normalize_plain_text value \<and> utf8_len s \<le> maximum \<and> s \<noteq> []"
  by (auto simp: normalize_required_def normalize_bounded_Inr split: sum.splits)
    (auto simp: normalize_bounded_def Let_def split: if_splits)

lemma normalize_bounded_ok: "normalize_bounded field value maximum = Inr s \<Longrightarrow> bounded_text maximum s"
  by (auto simp: normalize_bounded_Inr bounded_text_def ingress.sanitise_acceptable)

lemma normalize_required_ok:
  "normalize_required field value maximum = Inr s \<Longrightarrow> bounded_text maximum s \<and> s \<noteq> []"
  by (auto simp: normalize_required_Inr bounded_text_def ingress.sanitise_acceptable)

text \<open>Stored fields pass ingress again unchanged: what a round trip over the wire relies on.\<close>

lemma normalize_bounded_stored: "bounded_text maximum s \<Longrightarrow> normalize_bounded field s maximum = Inr s"
  by (simp add: normalize_bounded_Inr bounded_text_def normalize_fixed)

lemma normalize_required_stored:
  "bounded_text maximum s \<Longrightarrow> s \<noteq> [] \<Longrightarrow> normalize_required field s maximum = Inr s"
  by (simp add: normalize_required_Inr bounded_text_def normalize_fixed)

definition is_stable_id :: "nat \<Rightarrow> ustring \<Rightarrow> bool" where
  "is_stable_id prefix s \<longleftrightarrow>
     (\<exists>ds. s = prefix # ds \<and> ds \<noteq> [] \<and> list_all is_ascii_digit ds) \<and> utf8_len s \<le> MAX_SOURCE_ID_BYTES"

lemma is_stable_id_code [code]:
  "is_stable_id prefix s \<longleftrightarrow>
     (case s of [] \<Rightarrow> False
      | c # ds \<Rightarrow> c = prefix \<and> ds \<noteq> [] \<and> list_all is_ascii_digit ds \<and> utf8_len s \<le> MAX_SOURCE_ID_BYTES)"
  by (cases s) (auto simp: is_stable_id_def)

lemma stable_tmux_id_Inr:
  "stable_tmux_id field value prefix = Inr s \<longleftrightarrow> s = value \<and> is_stable_id prefix value"
  by (auto simp: stable_tmux_id_def is_stable_id_def strip_prefix_Some split: option.splits)
    (auto simp: strip_prefix_def)

end
