(* ===== verification/Notification.thy ===== *)
theory Notification
  imports Text_Ingress
begin

text \<open>
  The normalized Notification model of \<open>src/notification.rs\<close>: identifiers, enumerations, the
  Source Context, the draft and update builders and the Notification with its lifecycle
  operations. The lemmas state the well-formedness that the constructors establish (bounded plain
  text, an Attention Gate has a Source Pane and no timeout) and that every operation keeps.
\<close>

section \<open>Identifiers and enumerations\<close>

text \<open>
  A Notification ID wraps a UUID, a 128-bit value. Parsing and the version number are the uuid
  crate's: they are parameters of \<open>notification_id_from_str\<close>, and a new ID (\<open>Uuid::now_v7\<close>) is an
  argument of the operations that create one.
\<close>

type_synonym notification_id = "128 word"

definition notification_id_from_str ::
  "(ustring \<Rightarrow> notification_id option) \<Rightarrow> (notification_id \<Rightarrow> nat) \<Rightarrow> ustring
     \<Rightarrow> ingress_error + notification_id" where
  "notification_id_from_str parse_uuid version_num value =
     (case parse_uuid value of
        None \<Rightarrow> Inl InvalidNotificationId
      | Some uid \<Rightarrow> if version_num uid \<noteq> 7 then Inl InvalidNotificationId else Inr uid)"

datatype notification_key = NotificationKey (key_str: ustring)

definition notification_key_new :: "ustring \<Rightarrow> ingress_error + notification_key" where
  "notification_key_new value =
     (case normalize_required ''Notification Key'' value MAX_KEY_BYTES of
        Inl e \<Rightarrow> Inl e | Inr s \<Rightarrow> Inr (NotificationKey s))"

datatype presentation = Toast | Attention

datatype level = Info | Success | Warning | Error

datatype priority = Low | Normal | High | Critical

text \<open>The derived \<open>Ord\<close> of the enumeration: declaration order.\<close>

instantiation priority :: linorder
begin

fun priority_rank :: "priority \<Rightarrow> nat" where
  "priority_rank Low = 0"
| "priority_rank Normal = 1"
| "priority_rank High = 2"
| "priority_rank Critical = 3"

definition less_eq_priority :: "priority \<Rightarrow> priority \<Rightarrow> bool" where
  "less_eq_priority p q \<longleftrightarrow> priority_rank p \<le> priority_rank q"

definition less_priority :: "priority \<Rightarrow> priority \<Rightarrow> bool" where
  "less_priority p q \<longleftrightarrow> priority_rank p < priority_rank q"

instance
proof
  fix p q :: priority
  assume "p \<le> q" "q \<le> p"
  then show "p = q" by (cases p; cases q) (auto simp: less_eq_priority_def)
qed (auto simp: less_eq_priority_def less_priority_def)

end

text \<open>Durations are nanoseconds; wall-clock timestamps are opaque ordered values.\<close>

type_synonym duration = nat
type_synonym wall_time = int

definition from_secs :: "nat \<Rightarrow> duration" where "from_secs n = n * 1000000000"
definition from_millis :: "nat \<Rightarrow> duration" where "from_millis n = n * 1000000"
definition as_millis :: "duration \<Rightarrow> nat" where "as_millis d = d div 1000000"

lemma as_millis_from_millis [simp]: "as_millis (from_millis n) = n"
  by (simp add: as_millis_def from_millis_def)

datatype timeout = After duration | Never

datatype delivery_state = Pending | Visible | Closed

datatype close_reason = TimedOut | Dismissed | Jumped | RenderSuppressed | RenderFailed
  | DaemonInterrupted | DaemonStopped | ServerEnded

datatype provider = Claude | Codex

datatype agent_event_kind = NeedsAttention | Completed | Failed | Started | Interrupted
  | SubagentCompleted | ToolStarted | ToolCompleted

datatype tmux_server_id = TmuxServerId (server_id_str: ustring)

definition tmux_server_id_new :: "ustring \<Rightarrow> ingress_error + tmux_server_id" where
  "tmux_server_id_new value =
     (case normalize_required ''tmux server ID'' value MAX_SOURCE_ID_BYTES of
        Inl e \<Rightarrow> Inl e | Inr s \<Rightarrow> Inr (TmuxServerId s))"

section \<open>Source Context and metadata\<close>

record source_context =
  src_provider :: "provider option"
  src_provider_session_id :: "ustring option"
  src_tmux_server_id :: tmux_server_id
  src_session_id :: ustring
  src_window_id :: ustring
  src_pane_id :: ustring
  src_cwd :: "ustring option"
  src_command :: "ustring option"
  src_pane_title :: "ustring option"

abbreviation (input) bind_sum :: "'e + 'a \<Rightarrow> ('a \<Rightarrow> 'e + 'b) \<Rightarrow> 'e + 'b" where
  "bind_sum m f \<equiv> (case m of Inl e \<Rightarrow> Inl e | Inr a \<Rightarrow> f a)"

definition source_context_new ::
  "tmux_server_id \<Rightarrow> ustring \<Rightarrow> ustring \<Rightarrow> ustring \<Rightarrow> ingress_error + source_context" where
  "source_context_new server session window pane =
     bind_sum (stable_tmux_id ''session ID'' session (of_char CHR ''$'')) (\<lambda>s.
     bind_sum (stable_tmux_id ''window ID'' window (of_char CHR ''@'')) (\<lambda>w.
     bind_sum (stable_tmux_id ''pane ID'' pane (of_char CHR ''%'')) (\<lambda>p.
       Inr \<lparr>src_provider = None, src_provider_session_id = None, src_tmux_server_id = server,
            src_session_id = s, src_window_id = w, src_pane_id = p,
            src_cwd = None, src_command = None, src_pane_title = None\<rparr>)))"

definition with_provider_session ::
  "provider \<Rightarrow> ustring \<Rightarrow> source_context \<Rightarrow> ingress_error + source_context" where
  "with_provider_session p session_id c =
     bind_sum (normalize_required ''provider session ID'' session_id MAX_SOURCE_VALUE_BYTES) (\<lambda>s.
       Inr (c\<lparr>src_provider := Some p, src_provider_session_id := Some s\<rparr>))"

definition with_cwd :: "ustring \<Rightarrow> source_context \<Rightarrow> ingress_error + source_context" where
  "with_cwd cwd c =
     bind_sum (normalize_required ''source cwd'' cwd MAX_CWD_BYTES) (\<lambda>s. Inr (c\<lparr>src_cwd := Some s\<rparr>))"

definition with_command :: "ustring \<Rightarrow> source_context \<Rightarrow> ingress_error + source_context" where
  "with_command command c =
     bind_sum (normalize_required ''source command'' command MAX_SOURCE_VALUE_BYTES) (\<lambda>s.
       Inr (c\<lparr>src_command := Some s\<rparr>))"

definition with_pane_title :: "ustring \<Rightarrow> source_context \<Rightarrow> ingress_error + source_context" where
  "with_pane_title title c =
     bind_sum (normalize_bounded ''source pane title'' title MAX_SOURCE_VALUE_BYTES) (\<lambda>s.
       Inr (c\<lparr>src_pane_title := Some s\<rparr>))"

record normalized_metadata =
  md_agent_event_kind :: "agent_event_kind option"
  md_agent_name :: "ustring option"
  md_tool_name :: "ustring option"

definition metadata_new :: "agent_event_kind option \<Rightarrow> normalized_metadata" where
  "metadata_new kind = \<lparr>md_agent_event_kind = kind, md_agent_name = None, md_tool_name = None\<rparr>"

definition with_agent_name :: "ustring \<Rightarrow> normalized_metadata \<Rightarrow> ingress_error + normalized_metadata" where
  "with_agent_name value m =
     bind_sum (normalize_required ''agent name'' value MAX_METADATA_VALUE_BYTES) (\<lambda>s.
       Inr (m\<lparr>md_agent_name := Some s\<rparr>))"

definition with_tool_name :: "ustring \<Rightarrow> normalized_metadata \<Rightarrow> ingress_error + normalized_metadata" where
  "with_tool_name value m =
     bind_sum (normalize_required ''tool name'' value MAX_METADATA_VALUE_BYTES) (\<lambda>s.
       Inr (m\<lparr>md_tool_name := Some s\<rparr>))"

datatype placement = TopLeft | TopCenter | TopRight | BottomLeft | BottomCenter | BottomRight

record presentation_overrides =
  ov_position :: "placement option"

definition overrides_default :: presentation_overrides where
  "overrides_default = \<lparr>ov_position = None\<rparr>"

definition with_position :: "placement \<Rightarrow> presentation_overrides \<Rightarrow> presentation_overrides" where
  "with_position p ov = ov\<lparr>ov_position := Some p\<rparr>"

section \<open>Drafts\<close>

record notification_draft =
  d_key :: "notification_key option"
  d_level :: level
  d_priority :: priority
  d_presentation :: presentation
  d_title :: ustring
  d_body :: ustring
  d_timeout :: timeout
  d_source :: "source_context option"
  d_overrides :: presentation_overrides
  d_metadata :: normalized_metadata

definition notification_draft_new ::
  "presentation \<Rightarrow> ustring \<Rightarrow> ustring \<Rightarrow> source_context option \<Rightarrow> ingress_error + notification_draft" where
  "notification_draft_new presentation title body source =
     (if presentation = Attention \<and> source = None then Inl AttentionRequiresSource
      else
        bind_sum (normalize_bounded ''Notification title'' title MAX_TITLE_BYTES) (\<lambda>title'.
        bind_sum (normalize_bounded ''Notification body'' body MAX_BODY_BYTES) (\<lambda>body'.
          Inr \<lparr>d_key = None, d_level = Info, d_priority = Normal, d_presentation = presentation,
               d_title = title', d_body = body',
               d_timeout = (if presentation = Attention then Never else After (from_secs 3)),
               d_source = source, d_overrides = overrides_default, d_metadata = metadata_new None\<rparr>)))"

definition draft_with_key :: "notification_key \<Rightarrow> notification_draft \<Rightarrow> notification_draft" where
  "draft_with_key key d = d\<lparr>d_key := Some key\<rparr>"

definition draft_with_level :: "level \<Rightarrow> notification_draft \<Rightarrow> notification_draft" where
  "draft_with_level level d = d\<lparr>d_level := level\<rparr>"

definition draft_with_priority :: "priority \<Rightarrow> notification_draft \<Rightarrow> notification_draft" where
  "draft_with_priority priority d = d\<lparr>d_priority := priority\<rparr>"

definition draft_with_timeout :: "timeout \<Rightarrow> notification_draft \<Rightarrow> notification_draft" where
  "draft_with_timeout timeout d =
     d\<lparr>d_timeout := (if d_presentation d = Attention then Never else timeout)\<rparr>"

definition draft_with_overrides :: "presentation_overrides \<Rightarrow> notification_draft \<Rightarrow> notification_draft" where
  "draft_with_overrides overrides d = d\<lparr>d_overrides := overrides\<rparr>"

definition draft_with_metadata :: "normalized_metadata \<Rightarrow> notification_draft \<Rightarrow> notification_draft" where
  "draft_with_metadata metadata d = d\<lparr>d_metadata := metadata\<rparr>"

section \<open>Partial updates\<close>

record notification_update =
  u_title :: "ustring option"
  u_body :: "ustring option"
  u_level :: "level option"
  u_priority :: "priority option"
  u_timeout :: "timeout option"
  u_overrides :: "presentation_overrides option"

definition notification_update_new :: notification_update where
  "notification_update_new = \<lparr>u_title = None, u_body = None, u_level = None, u_priority = None,
     u_timeout = None, u_overrides = None\<rparr>"

definition update_with_title :: "ustring \<Rightarrow> notification_update \<Rightarrow> ingress_error + notification_update" where
  "update_with_title value u =
     bind_sum (normalize_bounded ''Notification title'' value MAX_TITLE_BYTES) (\<lambda>s.
       Inr (u\<lparr>u_title := Some s\<rparr>))"

definition update_with_body :: "ustring \<Rightarrow> notification_update \<Rightarrow> ingress_error + notification_update" where
  "update_with_body value u =
     bind_sum (normalize_bounded ''Notification body'' value MAX_BODY_BYTES) (\<lambda>s.
       Inr (u\<lparr>u_body := Some s\<rparr>))"

definition update_with_level :: "level \<Rightarrow> notification_update \<Rightarrow> notification_update" where
  "update_with_level value u = u\<lparr>u_level := Some value\<rparr>"

definition update_with_priority :: "priority \<Rightarrow> notification_update \<Rightarrow> notification_update" where
  "update_with_priority value u = u\<lparr>u_priority := Some value\<rparr>"

definition update_with_timeout :: "timeout \<Rightarrow> notification_update \<Rightarrow> notification_update" where
  "update_with_timeout value u = u\<lparr>u_timeout := Some value\<rparr>"

definition update_with_overrides ::
  "presentation_overrides \<Rightarrow> notification_update \<Rightarrow> notification_update" where
  "update_with_overrides value u = u\<lparr>u_overrides := Some value\<rparr>"

definition update_is_empty :: "notification_update \<Rightarrow> bool" where
  "update_is_empty u \<longleftrightarrow> u_title u = None \<and> u_body u = None \<and> u_level u = None
     \<and> u_priority u = None \<and> u_timeout u = None \<and> u_overrides u = None"

section \<open>Notifications\<close>

record notification =
  n_id :: notification_id
  n_key :: "notification_key option"
  n_created_at :: wall_time
  n_updated_at :: wall_time
  n_level :: level
  n_priority :: priority
  n_presentation :: presentation
  n_title :: ustring
  n_body :: ustring
  n_timeout :: timeout
  n_source :: "source_context option"
  n_overrides :: presentation_overrides
  n_delivery :: delivery_state
  n_close_reason :: "close_reason option"
  n_hidden_at :: "wall_time option"
  n_last_jumped_at :: "wall_time option"
  n_metadata :: normalized_metadata

definition from_draft :: "notification_id \<Rightarrow> notification_draft \<Rightarrow> wall_time \<Rightarrow> notification" where
  "from_draft new_id d now =
     \<lparr>n_id = new_id, n_key = d_key d, n_created_at = now, n_updated_at = now,
      n_level = d_level d, n_priority = d_priority d, n_presentation = d_presentation d,
      n_title = d_title d, n_body = d_body d, n_timeout = d_timeout d, n_source = d_source d,
      n_overrides = d_overrides d, n_delivery = Pending, n_close_reason = None,
      n_hidden_at = None, n_last_jumped_at = None, n_metadata = d_metadata d\<rparr>"

definition has_same_content :: "notification \<Rightarrow> notification_draft \<Rightarrow> bool" where
  "has_same_content n d \<longleftrightarrow>
     n_key n = d_key d
     \<and> n_level n = d_level d
     \<and> n_priority n = d_priority d
     \<and> n_presentation n = d_presentation d
     \<and> n_title n = d_title d
     \<and> n_body n = d_body d
     \<and> n_timeout n = d_timeout d
     \<and> n_source n = d_source d
     \<and> n_overrides n = d_overrides d
     \<and> n_metadata n = d_metadata d"

definition replace_content :: "notification_draft \<Rightarrow> wall_time \<Rightarrow> notification \<Rightarrow> notification" where
  "replace_content d now n =
     n\<lparr>n_key := d_key d, n_level := d_level d, n_priority := d_priority d,
       n_presentation := d_presentation d, n_title := d_title d, n_body := d_body d,
       n_timeout := d_timeout d, n_source := d_source d, n_overrides := d_overrides d,
       n_metadata := d_metadata d, n_updated_at := now\<rparr>"

text \<open>
  The macro \<open>replace_if_changed!\<close>: the new field value, and whether it differs from the old one.
\<close>

definition replace_if_changed :: "'a option \<Rightarrow> 'a \<Rightarrow> 'a \<times> bool" where
  "replace_if_changed new old =
     (case new of Some value \<Rightarrow> if old \<noteq> value then (value, True) else (old, False) | None \<Rightarrow> (old, False))"

definition apply_update :: "notification_update \<Rightarrow> wall_time \<Rightarrow> notification \<Rightarrow> bool \<times> notification" where
  "apply_update u now n =
     (let (title, c1) = replace_if_changed (u_title u) (n_title n);
          (body, c2) = replace_if_changed (u_body u) (n_body n);
          (level, c3) = replace_if_changed (u_level u) (n_level n);
          (priority, c4) = replace_if_changed (u_priority u) (n_priority n);
          (overrides, c5) = replace_if_changed (u_overrides u) (n_overrides n);
          (timeout, c6) = (if n_presentation n = Toast
                           then replace_if_changed (u_timeout u) (n_timeout n)
                           else (n_timeout n, False));
          changed = (c1 \<or> c2 \<or> c3 \<or> c4 \<or> c5 \<or> c6);
          n' = n\<lparr>n_title := title, n_body := body, n_level := level, n_priority := priority,
                 n_overrides := overrides, n_timeout := timeout\<rparr>
      in (changed, if changed then n'\<lparr>n_updated_at := now\<rparr> else n'))"

definition mark_visible :: "wall_time \<Rightarrow> notification \<Rightarrow> notification" where
  "mark_visible now n =
     (if n_delivery n = Pending then n\<lparr>n_delivery := Visible, n_updated_at := now\<rparr> else n)"

definition close_notification :: "close_reason \<Rightarrow> wall_time \<Rightarrow> notification \<Rightarrow> notification" where
  "close_notification reason now n =
     (let n' = n\<lparr>n_delivery := Closed, n_close_reason := Some reason, n_updated_at := now\<rparr>
      in if reason = Jumped then n'\<lparr>n_last_jumped_at := Some now\<rparr> else n')"

section \<open>Well-formedness\<close>

definition wf_source :: "source_context \<Rightarrow> bool" where
  "wf_source c \<longleftrightarrow>
     is_stable_id (of_char CHR ''$'') (src_session_id c)
     \<and> is_stable_id (of_char CHR ''@'') (src_window_id c)
     \<and> is_stable_id (of_char CHR ''%'') (src_pane_id c)
     \<and> (src_provider c = None \<longleftrightarrow> src_provider_session_id c = None)
     \<and> pred_option (\<lambda>s. bounded_text MAX_SOURCE_VALUE_BYTES s \<and> s \<noteq> []) (src_provider_session_id c)
     \<and> pred_option (\<lambda>s. bounded_text MAX_CWD_BYTES s \<and> s \<noteq> []) (src_cwd c)
     \<and> pred_option (\<lambda>s. bounded_text MAX_SOURCE_VALUE_BYTES s \<and> s \<noteq> []) (src_command c)
     \<and> pred_option (bounded_text MAX_SOURCE_VALUE_BYTES) (src_pane_title c)
     \<and> bounded_text MAX_SOURCE_ID_BYTES (server_id_str (src_tmux_server_id c))
     \<and> server_id_str (src_tmux_server_id c) \<noteq> []"

definition wf_key :: "notification_key \<Rightarrow> bool" where
  "wf_key k \<longleftrightarrow> bounded_text MAX_KEY_BYTES (key_str k) \<and> key_str k \<noteq> []"

definition wf_metadata :: "normalized_metadata \<Rightarrow> bool" where
  "wf_metadata m \<longleftrightarrow>
     pred_option (\<lambda>s. bounded_text MAX_METADATA_VALUE_BYTES s \<and> s \<noteq> []) (md_agent_name m)
     \<and> pred_option (\<lambda>s. bounded_text MAX_METADATA_VALUE_BYTES s \<and> s \<noteq> []) (md_tool_name m)"

text \<open>
  What presentation, source and timeout owe each other: an Attention Gate has a Source Pane to
  jump to and never times out.
\<close>

definition gate_ok :: "presentation \<Rightarrow> source_context option \<Rightarrow> timeout \<Rightarrow> bool" where
  "gate_ok p source timeout \<longleftrightarrow> (p = Attention \<longrightarrow> source \<noteq> None \<and> timeout = Never)"

definition wf_draft :: "notification_draft \<Rightarrow> bool" where
  "wf_draft d \<longleftrightarrow>
     gate_ok (d_presentation d) (d_source d) (d_timeout d)
     \<and> bounded_text MAX_TITLE_BYTES (d_title d) \<and> bounded_text MAX_BODY_BYTES (d_body d)
     \<and> pred_option wf_key (d_key d) \<and> pred_option wf_source (d_source d) \<and> wf_metadata (d_metadata d)"

definition wf_update :: "notification_update \<Rightarrow> bool" where
  "wf_update u \<longleftrightarrow> pred_option (bounded_text MAX_TITLE_BYTES) (u_title u)
     \<and> pred_option (bounded_text MAX_BODY_BYTES) (u_body u)"

definition wf_notification :: "notification \<Rightarrow> bool" where
  "wf_notification n \<longleftrightarrow>
     gate_ok (n_presentation n) (n_source n) (n_timeout n)
     \<and> bounded_text MAX_TITLE_BYTES (n_title n) \<and> bounded_text MAX_BODY_BYTES (n_body n)
     \<and> pred_option wf_key (n_key n) \<and> pred_option wf_source (n_source n) \<and> wf_metadata (n_metadata n)
     \<and> (n_delivery n = Closed \<longleftrightarrow> n_close_reason n \<noteq> None)"

named_theorems wf_defs "well-formedness predicates of the Notification model"
declare wf_draft_def [wf_defs] wf_update_def [wf_defs] wf_notification_def [wf_defs]
  gate_ok_def [wf_defs]

section \<open>Constructors establish well-formedness\<close>

lemma notification_key_new_wf: "notification_key_new v = Inr k \<Longrightarrow> wf_key k"
  by (auto simp: notification_key_new_def wf_key_def dest: normalize_required_ok split: sum.splits)

lemma notification_key_new_stored: "wf_key k \<Longrightarrow> notification_key_new (key_str k) = Inr k"
  by (cases k) (simp add: notification_key_new_def wf_key_def normalize_required_stored)

lemma tmux_server_id_new_wf:
  "tmux_server_id_new v = Inr i \<Longrightarrow> bounded_text MAX_SOURCE_ID_BYTES (server_id_str i) \<and> server_id_str i \<noteq> []"
  by (auto simp: tmux_server_id_new_def dest: normalize_required_ok split: sum.splits)

lemma tmux_server_id_new_stored:
  "bounded_text MAX_SOURCE_ID_BYTES (server_id_str i) \<Longrightarrow> server_id_str i \<noteq> []
     \<Longrightarrow> tmux_server_id_new (server_id_str i) = Inr i"
  by (cases i) (simp add: tmux_server_id_new_def normalize_required_stored)

lemma source_context_new_wf:
  assumes "source_context_new i s w p = Inr c"
    and "bounded_text MAX_SOURCE_ID_BYTES (server_id_str i)" "server_id_str i \<noteq> []"
  shows "wf_source c"
  using assms by (auto simp: source_context_new_def wf_source_def stable_tmux_id_Inr split: sum.splits)

lemma with_provider_session_wf: "with_provider_session p s c = Inr c' \<Longrightarrow> wf_source c \<Longrightarrow> wf_source c'"
  by (auto simp: with_provider_session_def wf_source_def dest: normalize_required_ok split: sum.splits)

lemma with_cwd_wf: "with_cwd s c = Inr c' \<Longrightarrow> wf_source c \<Longrightarrow> wf_source c'"
  by (auto simp: with_cwd_def wf_source_def dest: normalize_required_ok split: sum.splits)

lemma with_command_wf: "with_command s c = Inr c' \<Longrightarrow> wf_source c \<Longrightarrow> wf_source c'"
  by (auto simp: with_command_def wf_source_def dest: normalize_required_ok split: sum.splits)

lemma with_pane_title_wf: "with_pane_title s c = Inr c' \<Longrightarrow> wf_source c \<Longrightarrow> wf_source c'"
  by (auto simp: with_pane_title_def wf_source_def dest: normalize_bounded_ok split: sum.splits)

lemma metadata_new_wf [simp]: "wf_metadata (metadata_new k)"
  by (simp add: metadata_new_def wf_metadata_def)

lemma with_agent_name_wf: "with_agent_name s m = Inr m' \<Longrightarrow> wf_metadata m \<Longrightarrow> wf_metadata m'"
  by (auto simp: with_agent_name_def wf_metadata_def dest: normalize_required_ok split: sum.splits)

lemma with_tool_name_wf: "with_tool_name s m = Inr m' \<Longrightarrow> wf_metadata m \<Longrightarrow> wf_metadata m'"
  by (auto simp: with_tool_name_def wf_metadata_def dest: normalize_required_ok split: sum.splits)

lemma notification_draft_new_wf:
  "notification_draft_new p t b src = Inr d \<Longrightarrow> pred_option wf_source src \<Longrightarrow> wf_draft d"
  by (auto simp: notification_draft_new_def wf_defs dest!: normalize_bounded_ok
      split: sum.splits if_splits)

lemma draft_with_wf:
  "wf_draft d \<Longrightarrow> wf_key k \<Longrightarrow> wf_draft (draft_with_key k d)"
  "wf_draft d \<Longrightarrow> wf_draft (draft_with_level l d)"
  "wf_draft d \<Longrightarrow> wf_draft (draft_with_priority pr d)"
  "wf_draft d \<Longrightarrow> wf_draft (draft_with_timeout t d)"
  "wf_draft d \<Longrightarrow> wf_draft (draft_with_overrides ov d)"
  "wf_draft d \<Longrightarrow> wf_metadata m \<Longrightarrow> wf_draft (draft_with_metadata m d)"
  by (auto simp: wf_defs draft_with_key_def draft_with_level_def draft_with_priority_def
      draft_with_timeout_def draft_with_overrides_def draft_with_metadata_def)

lemma update_with_wf:
  "wf_update notification_update_new"
  "wf_update u \<Longrightarrow> update_with_title v u = Inr u' \<Longrightarrow> wf_update u'"
  "wf_update u \<Longrightarrow> update_with_body v u = Inr u' \<Longrightarrow> wf_update u'"
  "wf_update u \<Longrightarrow> wf_update (update_with_level l u)"
  "wf_update u \<Longrightarrow> wf_update (update_with_priority pr u)"
  "wf_update u \<Longrightarrow> wf_update (update_with_timeout t u)"
  "wf_update u \<Longrightarrow> wf_update (update_with_overrides ov u)"
  by (auto simp: wf_defs notification_update_new_def update_with_title_def update_with_body_def
      update_with_level_def update_with_priority_def update_with_timeout_def
      update_with_overrides_def dest!: normalize_bounded_ok split: sum.splits)

section \<open>Lifecycle operations\<close>

lemma from_draft_wf: "wf_draft d \<Longrightarrow> wf_notification (from_draft i d now)"
  by (simp add: from_draft_def wf_defs)

lemma replace_content_wf: "wf_draft d \<Longrightarrow> wf_notification n \<Longrightarrow> wf_notification (replace_content d now n)"
  by (simp add: replace_content_def wf_defs)

lemma replace_if_changed_fst:
  "fst (replace_if_changed new old) = (case new of Some v \<Rightarrow> v | None \<Rightarrow> old)"
  by (auto simp: replace_if_changed_def split: option.splits)

lemma replace_if_changed_snd:
  "snd (replace_if_changed new old) \<longleftrightarrow> fst (replace_if_changed new old) \<noteq> old"
  by (auto simp: replace_if_changed_def split: option.splits)

lemma notification_content_eq:
  "n\<lparr>n_title := a, n_body := b, n_level := c, n_priority := d, n_overrides := e, n_timeout := f\<rparr> = n
     \<longleftrightarrow> a = n_title n \<and> b = n_body n \<and> c = n_level n \<and> d = n_priority n
       \<and> e = n_overrides n \<and> f = n_timeout n"
  by (cases n) auto

lemma apply_update_wf:
  "wf_update u \<Longrightarrow> wf_notification n \<Longrightarrow> wf_notification (snd (apply_update u now n))"
  by (cases "n_presentation n")
    (auto simp: apply_update_def wf_defs Let_def split_beta replace_if_changed_fst split: option.splits)

lemma apply_update_frame [simp]:
  "n_id (snd (apply_update u now n)) = n_id n"
  "n_key (snd (apply_update u now n)) = n_key n"
  "n_presentation (snd (apply_update u now n)) = n_presentation n"
  "n_source (snd (apply_update u now n)) = n_source n"
  "n_delivery (snd (apply_update u now n)) = n_delivery n"
  "n_created_at (snd (apply_update u now n)) = n_created_at n"
  by (simp_all add: apply_update_def Let_def split_beta)

lemma mark_visible_frame [simp]:
  "n_id (mark_visible now n) = n_id n"
  "n_key (mark_visible now n) = n_key n"
  "n_presentation (mark_visible now n) = n_presentation n"
  "n_priority (mark_visible now n) = n_priority n"
  "n_source (mark_visible now n) = n_source n"
  "n_timeout (mark_visible now n) = n_timeout n"
  "n_delivery (mark_visible now n) = Closed \<longleftrightarrow> n_delivery n = Closed"
  by (simp_all add: mark_visible_def)

lemma close_notification_frame [simp]:
  "n_id (close_notification r now n) = n_id n"
  "n_key (close_notification r now n) = n_key n"
  "n_presentation (close_notification r now n) = n_presentation n"
  "n_delivery (close_notification r now n) = Closed"
  "n_close_reason (close_notification r now n) = Some r"
  by (simp_all add: close_notification_def Let_def)

lemma replace_content_frame [simp]:
  "n_id (replace_content d now n) = n_id n"
  "n_key (replace_content d now n) = d_key d"
  "n_presentation (replace_content d now n) = d_presentation d"
  "n_priority (replace_content d now n) = d_priority d"
  "n_timeout (replace_content d now n) = d_timeout d"
  "n_delivery (replace_content d now n) = n_delivery n"
  by (simp_all add: replace_content_def)

lemma from_draft_frame [simp]:
  "n_id (from_draft i d now) = i"
  "n_key (from_draft i d now) = d_key d"
  "n_presentation (from_draft i d now) = d_presentation d"
  "n_priority (from_draft i d now) = d_priority d"
  "n_timeout (from_draft i d now) = d_timeout d"
  "n_delivery (from_draft i d now) = Pending"
  by (simp_all add: from_draft_def)

lemma mark_visible_wf: "wf_notification n \<Longrightarrow> wf_notification (mark_visible now n)"
  by (auto simp: mark_visible_def wf_defs)

lemma close_notification_wf: "wf_notification n \<Longrightarrow> wf_notification (close_notification r now n)"
  by (auto simp: close_notification_def wf_defs Let_def)

text \<open>A Notification lives through a sequence of these operations.\<close>

datatype lifecycle_event =
    Replaced notification_draft wall_time
  | Patched notification_update wall_time
  | Shown wall_time
  | Ended close_reason wall_time

fun lifecycle_step :: "notification \<Rightarrow> lifecycle_event \<Rightarrow> notification" where
  "lifecycle_step n (Replaced d now) = replace_content d now n"
| "lifecycle_step n (Patched u now) = snd (apply_update u now n)"
| "lifecycle_step n (Shown now) = mark_visible now n"
| "lifecycle_step n (Ended r now) = close_notification r now n"

fun lifecycle_guard :: "notification \<Rightarrow> lifecycle_event \<Rightarrow> bool" where
  "lifecycle_guard n (Replaced d now) \<longleftrightarrow> wf_draft d"
| "lifecycle_guard n (Patched u now) \<longleftrightarrow> wf_update u"
| "lifecycle_guard n _ \<longleftrightarrow> True"

interpretation lifecycle: invariant_machine lifecycle_step lifecycle_guard wf_notification
proof
  fix n e
  assume "wf_notification n" "lifecycle_guard n e"
  then show "wf_notification (lifecycle_step n e)"
    by (cases e) (simp_all add: replace_content_wf apply_update_wf mark_visible_wf close_notification_wf)
qed

section \<open>Properties\<close>

text \<open>
  Text ingress: whatever external text comes in, the normalized text contains no
  terminal control except line breaks, text is left unchanged exactly when it already is such
  plain text (so normalizing twice is normalizing once), and it grows at most fourfold in bytes.
\<close>

theorem normalize_plain_text_correct:
  "plain_text (normalize_plain_text s)
   \<and> (normalize_plain_text s = s \<longleftrightarrow> plain_text s)
   \<and> normalize_plain_text (normalize_plain_text s) = normalize_plain_text s
   \<and> utf8_len (normalize_plain_text s) \<le> 4 * utf8_len s"
  by (simp add: ingress.sanitise_acceptable ingress.fixed_iff ingress.idem normalize_len)

text \<open>
  A new draft is refused exactly for an Attention Gate without a Source Pane, a title or
  a body that is too long after normalization, checked in this order; otherwise it carries the
  normalized texts, and an Attention Gate never gets a timeout.
\<close>

theorem notification_draft_new_correct:
  "notification_draft_new p title body source =
     (if p = Attention \<and> source = None then Inl AttentionRequiresSource
      else if utf8_len (normalize_plain_text title) > 1024
        then Inl (ValueTooLarge ''Notification title'' (utf8_len (normalize_plain_text title)) 1024)
      else if utf8_len (normalize_plain_text body) > 49152
        then Inl (ValueTooLarge ''Notification body'' (utf8_len (normalize_plain_text body)) 49152)
      else Inr \<lparr>d_key = None, d_level = Info, d_priority = Normal, d_presentation = p,
               d_title = normalize_plain_text title, d_body = normalize_plain_text body,
               d_timeout = (case p of Attention \<Rightarrow> Never | Toast \<Rightarrow> After 3000000000),
               d_source = source, d_overrides = \<lparr>ov_position = None\<rparr>,
               d_metadata = \<lparr>md_agent_event_kind = None, md_agent_name = None, md_tool_name = None\<rparr>\<rparr>)"
  by (cases p) (simp_all add: notification_draft_new_def normalize_bounded_def Let_def limit_defs
      from_secs_def overrides_default_def metadata_new_def)

text \<open>
  Through any life of a Notification created from a well-formed draft (keyed
  replacements, partial updates, being shown, being closed, in any order), its texts stay plain
  and bounded, an Attention Gate keeps a Source Pane and never acquires a timeout, and it has a
  close reason exactly when it is closed.
\<close>

theorem lifecycle_wf:
  assumes "wf_draft d" and "enabled_run lifecycle_step lifecycle_guard (from_draft i d now) es"
  shows "wf_notification (run_machine lifecycle_step (from_draft i d now) es)"
  using lifecycle.run_inv [OF from_draft_wf [OF assms(1)] assms(2)] .

lemma lifecycle_wf_witness:
  "wf_notification (run_machine lifecycle_step
     (from_draft 1 \<lparr>d_key = None, d_level = Info, d_priority = Normal, d_presentation = Toast,
        d_title = ustr ''t'', d_body = ustr ''b'', d_timeout = After 3, d_source = None,
        d_overrides = overrides_default, d_metadata = metadata_new None\<rparr> 5)
     [Shown 6, Patched (update_with_timeout Never notification_update_new) 7, Ended Dismissed 8])"
  by (rule lifecycle_wf)
    (simp_all add: wf_draft_def gate_ok_def bounded_text_def limit_defs terminal_safe_def is_display_control_def
      is_control_def char_len_def wf_metadata_def metadata_new_def wf_update_def update_with_timeout_def
      notification_update_new_def)

text \<open>
  A partial update reports a change exactly when some field it names differs from the
  stored one; an unchanged Notification keeps its update time, a changed one gets the new time;
  identity, key, presentation, source and delivery are never touched, and the timeout of an
  Attention Gate is left alone.
\<close>

theorem apply_update_correct:
  "let (changed, n') = apply_update u now n in
     (changed \<longleftrightarrow> n'\<lparr>n_updated_at := n_updated_at n\<rparr> \<noteq> n)
     \<and> n_updated_at n' = (if changed then now else n_updated_at n)
     \<and> n_title n' = (case u_title u of Some v \<Rightarrow> v | None \<Rightarrow> n_title n)
     \<and> n_body n' = (case u_body u of Some v \<Rightarrow> v | None \<Rightarrow> n_body n)
     \<and> n_level n' = (case u_level u of Some v \<Rightarrow> v | None \<Rightarrow> n_level n)
     \<and> n_priority n' = (case u_priority u of Some v \<Rightarrow> v | None \<Rightarrow> n_priority n)
     \<and> n_overrides n' = (case u_overrides u of Some v \<Rightarrow> v | None \<Rightarrow> n_overrides n)
     \<and> n_timeout n' = (if n_presentation n = Toast
          then (case u_timeout u of Some v \<Rightarrow> v | None \<Rightarrow> n_timeout n) else n_timeout n)
     \<and> n_id n' = n_id n \<and> n_key n' = n_key n \<and> n_presentation n' = n_presentation n
     \<and> n_source n' = n_source n \<and> n_delivery n' = n_delivery n"
proof -
  have same: "n\<lparr>n_title := a, n_body := b, n_level := c, n_priority := d, n_overrides := e, n_timeout := f,
      n_updated_at := n_updated_at n\<rparr> = n \<longleftrightarrow> a = n_title n \<and> b = n_body n \<and> c = n_level n
       \<and> d = n_priority n \<and> e = n_overrides n \<and> f = n_timeout n" for a b c d e f
    by (cases n) auto
  have same_gate: "n\<lparr>n_title := a, n_body := b, n_level := c, n_priority := d, n_overrides := e\<rparr> = n
      \<longleftrightarrow> a = n_title n \<and> b = n_body n \<and> c = n_level n \<and> d = n_priority n \<and> e = n_overrides n"
    for a b c d e
    by (cases n) auto
  show ?thesis
    by (cases "n_presentation n")
      (simp_all add: apply_update_def Let_def split_beta replace_if_changed_fst replace_if_changed_snd
        same same_gate notification_content_eq)
qed

end
