(* ===== verification/Scheduler.thy ===== *)
theory Scheduler
  imports Notification "HOL-Library.Product_Lexorder"
begin

text \<open>
  The live Notification scheduler of \<open>src/daemon/mod.rs\<close>: its limits, timers, entries and queues,
  and every operation of \<open>LiveScheduler\<close>, composed as the source composes them. An operation keeps
  the state it left behind when it returns early with an error; indexing a map with a missing key
  and a failed \<open>expect\<close> are \<open>Panic\<close>.
\<close>

section \<open>Errors, limits and timers\<close>

type_synonym monotonic_time = duration

datatype scheduler_error = InvalidLimits | TimeWentBackwards | NotificationNotLive | KeyNotLive
  | MissingSource | JumpAlreadyPending | StaleJumpIntent

definition elapsed_since :: "monotonic_time \<Rightarrow> monotonic_time \<Rightarrow> scheduler_error + duration" where
  "elapsed_since now earlier = (if now < earlier then Inl TimeWentBackwards else Inr (now - earlier))"

record scheduler_limits =
  max_pending :: nat
  max_visible_toasts :: nat

definition scheduler_limits_new :: "nat \<Rightarrow> nat \<Rightarrow> scheduler_error + scheduler_limits" where
  "scheduler_limits_new pending visible =
     (if pending = 0 \<or> visible = 0 then Inl InvalidLimits
      else Inr \<lparr>max_pending = pending, max_visible_toasts = visible\<rparr>)"

datatype submit_disposition = Queued | ShownNow | Updated | Duplicate | Suppressed

record submit_outcome =
  so_id :: notification_id
  so_disposition :: submit_disposition

datatype update_disposition = UpdateApplied | UpdateDuplicate

datatype shutdown_reason = ShutdownInterrupted | ShutdownStopped | ShutdownServerEnded

fun shutdown_close_reason :: "shutdown_reason \<Rightarrow> close_reason" where
  "shutdown_close_reason ShutdownInterrupted = DaemonInterrupted"
| "shutdown_close_reason ShutdownStopped = DaemonStopped"
| "shutdown_close_reason ShutdownServerEnded = ServerEnded"

record display_plan =
  dp_revision :: counter
  dp_attention :: "notification_id option"
  dp_toasts :: "notification_id list"

record jump_intent =
  ji_notification_id :: notification_id
  ji_nonce :: counter
  ji_source :: source_context

datatype timeout_state = TimerNever | Remaining duration "monotonic_time option"

fun timeout_state_new :: "timeout \<Rightarrow> timeout_state" where
  "timeout_state_new (After d) = Remaining d None"
| "timeout_state_new Never = TimerNever"

fun timeout_restart :: "timeout \<Rightarrow> monotonic_time \<Rightarrow> bool \<Rightarrow> timeout_state" where
  "timeout_restart (After d) now running = Remaining d (if running then Some now else None)"
| "timeout_restart Never now running = TimerNever"

fun timeout_set_running :: "timeout_state \<Rightarrow> monotonic_time \<Rightarrow> bool \<Rightarrow> scheduler_error + timeout_state" where
  "timeout_set_running TimerNever now running = Inr TimerNever"
| "timeout_set_running (Remaining d None) now True = Inr (Remaining d (Some now))"
| "timeout_set_running (Remaining d (Some start)) now False =
     (case elapsed_since now start of
        Inl e \<Rightarrow> Inl e | Inr elapsed \<Rightarrow> Inr (Remaining (d - elapsed) None))"
| "timeout_set_running (Remaining d (Some start)) now True =
     (case elapsed_since now start of Inl e \<Rightarrow> Inl e | Inr _ \<Rightarrow> Inr (Remaining d (Some start)))"
| "timeout_set_running (Remaining d None) now False = Inr (Remaining d None)"

fun timeout_expired :: "timeout_state \<Rightarrow> monotonic_time \<Rightarrow> scheduler_error + bool" where
  "timeout_expired TimerNever now = Inr False"
| "timeout_expired (Remaining d (Some start)) now =
     (case elapsed_since now start of Inl e \<Rightarrow> Inl e | Inr elapsed \<Rightarrow> Inr (elapsed \<ge> d))"
| "timeout_expired (Remaining d None) now = Inr False"

section \<open>The scheduler state\<close>

record live_entry =
  le_notification :: notification
  le_sequence :: counter
  le_timeout :: timeout_state
  le_jump_nonce :: "counter option"

record scheduler =
  limits :: scheduler_limits
  entries :: "notification_id \<rightharpoonup> live_entry"
  closed :: "notification list"
  closed_capacity :: nat
  live_keys :: "notification_key \<rightharpoonup> notification_id"
  pending :: "notification_id list"
  active_toasts :: "notification_id list"
  active_attention :: "notification_id option"
  display_available :: bool
  next_sequence :: counter
  next_jump_nonce :: counter
  revision :: counter
  content_revision :: counter
  last_now :: monotonic_time

type_synonym 'a sched_op = "(scheduler, scheduler_error, 'a) op"

definition closed_capacity_for :: "scheduler_limits \<Rightarrow> nat" where
  "closed_capacity_for l = sat_add u64_max (sat_add u64_max (max_pending l) (max_visible_toasts l)) 1"

definition scheduler_new :: "scheduler_limits \<Rightarrow> monotonic_time \<Rightarrow> scheduler" where
  "scheduler_new l now =
     \<lparr>limits = l, entries = Map.empty, closed = [], closed_capacity = closed_capacity_for l,
      live_keys = Map.empty, pending = [], active_toasts = [], active_attention = None,
      display_available = False, next_sequence = 0, next_jump_nonce = 0, revision = 0,
      content_revision = 0, last_now = now\<rparr>"

definition bump_revision :: "scheduler \<Rightarrow> scheduler" where
  "bump_revision s = s\<lparr>revision := revision s + 1\<rparr>"

definition bump_content_revision :: "scheduler \<Rightarrow> scheduler" where
  "bump_content_revision s = bump_revision (s\<lparr>content_revision := content_revision s + 1\<rparr>)"

definition toast_timer_should_run :: "scheduler \<Rightarrow> notification_id \<Rightarrow> bool" where
  "toast_timer_should_run s i \<longleftrightarrow>
     display_available s \<and> active_attention s = None \<and> i \<in> set (active_toasts s)"

definition is_desired_visible :: "scheduler \<Rightarrow> notification_id \<Rightarrow> bool" where
  "is_desired_visible s i \<longleftrightarrow>
     display_available s
     \<and> (active_attention s = Some i \<or> (active_attention s = None \<and> i \<in> set (active_toasts s)))"

section \<open>Queue maintenance\<close>

text \<open>
  The comparator of \<open>sort_pending\<close> (higher priority first, then older first) as a sort key.
  \<open>sort_by\<close> is a stable sort; with two or more elements it looks every one of them up.
\<close>

definition pending_rank :: "live_entry \<Rightarrow> nat \<times> counter" where
  "pending_rank e = (3 - priority_rank (n_priority (le_notification e)), le_sequence e)"

definition pending_rank_of :: "(notification_id \<rightharpoonup> live_entry) \<Rightarrow> notification_id \<Rightarrow> nat \<times> counter" where
  "pending_rank_of es i = (case es i of Some e \<Rightarrow> pending_rank e | None \<Rightarrow> (0, 0))"

definition sort_pending :: "unit sched_op" where
  "sort_pending = with_state (\<lambda>s.
     if 2 \<le> length (pending s) \<and> (\<exists>i \<in> set (pending s). entries s i = None) then panic
     else modify (\<lambda>s. s\<lparr>pending := sort_key (pending_rank_of (entries s)) (pending s)\<rparr>))"

definition with_entry :: "notification_id \<Rightarrow> (live_entry \<Rightarrow> live_entry) \<Rightarrow> unit sched_op" where
  "with_entry i f = with_state (\<lambda>s.
     case entries s i of
       None \<Rightarrow> panic
     | Some e \<Rightarrow> modify (\<lambda>s. s\<lparr>entries := (entries s)(i \<mapsto> f e)\<rparr>))"

primrec for_each :: "'a list \<Rightarrow> ('a \<Rightarrow> unit sched_op) \<Rightarrow> unit sched_op" where
  "for_each [] f = ret ()"
| "for_each (x # xs) f = then_op (f x) (for_each xs f)"

definition set_timer :: "monotonic_time \<Rightarrow> notification_id \<Rightarrow> bool \<Rightarrow> unit sched_op" where
  "set_timer now i running = with_state (\<lambda>s.
     case entries s i of
       None \<Rightarrow> panic
     | Some e \<Rightarrow>
         (case timeout_set_running (le_timeout e) now running of
            Inl err \<Rightarrow> raise err
          | Inr t \<Rightarrow> with_entry i (\<lambda>e. e\<lparr>le_timeout := t\<rparr>)))"

definition presented_as :: "scheduler \<Rightarrow> presentation \<Rightarrow> notification_id \<Rightarrow> bool option" where
  "presented_as s p i = map_option (\<lambda>e. n_presentation (le_notification e) = p) (entries s i)"

definition promote_attention :: "unit sched_op" where
  "promote_attention = with_state (\<lambda>s.
     if display_available s \<and> active_attention s = None then
       (case take_first (presented_as s Attention) (pending s) of
          None \<Rightarrow> panic
        | Some None \<Rightarrow> ret ()
        | Some (Some (i, rest)) \<Rightarrow> modify (\<lambda>s. s\<lparr>active_attention := Some i, pending := rest\<rparr>))
     else ret ())"

lemma take_first_length: "take_first p xs = Some (Some (y, ys)) \<Longrightarrow> length ys < length xs"
  by (induction xs arbitrary: ys) (auto split: option.splits bool.splits)

function fill_toasts_loop :: "unit sched_op" where
  "fill_toasts_loop s =
     (if length (active_toasts s) < max_visible_toasts (limits s) then
        (case take_first (presented_as s Toast) (pending s) of
           None \<Rightarrow> (Inl Panic, s)
         | Some None \<Rightarrow> (Inr (), s)
         | Some (Some (i, rest)) \<Rightarrow>
             fill_toasts_loop (s\<lparr>active_toasts := active_toasts s @ [i], pending := rest\<rparr>))
      else (Inr (), s))"
  by pat_completeness auto
termination
  by (relation "measure (\<lambda>s. length (pending s))") (auto dest: take_first_length)

declare fill_toasts_loop.simps [simp del]

definition fill_toasts :: "unit sched_op" where
  "fill_toasts = with_state (\<lambda>s.
     if display_available s \<and> active_attention s = None then fill_toasts_loop else ret ())"

definition mark_shown :: "wall_time \<Rightarrow> unit sched_op" where
  "mark_shown wall = with_state (\<lambda>s.
     let show = (\<lambda>i. with_entry i (\<lambda>e. e\<lparr>le_notification := mark_visible wall (le_notification e)\<rparr>))
     in if display_available s then
          (case active_attention s of Some i \<Rightarrow> show i | None \<Rightarrow> for_each (active_toasts s) show)
        else ret ())"

definition settle_timers :: "monotonic_time \<Rightarrow> unit sched_op" where
  "settle_timers now = with_state (\<lambda>s.
     if display_available s \<and> active_attention s = None then
       (if \<exists>i \<in> set (active_toasts s). entries s i = None then panic
        else let running_ids =
               filter (\<lambda>i. case entries s i of Some e \<Rightarrow> le_jump_nonce e = None | None \<Rightarrow> False) (active_toasts s)
             in for_each (active_toasts s) (\<lambda>i. set_timer now i (i \<in> set running_ids)))
     else for_each (active_toasts s) (\<lambda>i. set_timer now i False))"

definition rebalance :: "monotonic_time \<Rightarrow> wall_time \<Rightarrow> unit sched_op" where
  "rebalance now wall =
     then_op promote_attention (then_op fill_toasts (then_op (mark_shown wall) (settle_timers now)))"

definition close_inner :: "notification_id \<Rightarrow> close_reason \<Rightarrow> wall_time \<Rightarrow> scheduler \<Rightarrow> scheduler" where
  "close_inner i reason wall s =
     (case entries s i of
        None \<Rightarrow> s
      | Some e \<Rightarrow>
          let n = close_notification reason wall (le_notification e);
              s1 = s\<lparr>entries := (entries s)(i := None)\<rparr>;
              s2 = (case n_key n of
                      Some key \<Rightarrow> s1\<lparr>live_keys := (live_keys s1)(key := None)\<rparr>
                    | None \<Rightarrow> s1);
              s3 = s2\<lparr>pending := filter (\<lambda>c. c \<noteq> i) (pending s2),
                      active_toasts := filter (\<lambda>c. c \<noteq> i) (active_toasts s2),
                      active_attention := (if active_attention s2 = Some i then None else active_attention s2)\<rparr>;
              kept = (if length (closed s3) = closed_capacity s3 then tl (closed s3) else closed s3)
          in bump_content_revision (s3\<lparr>closed := kept @ [n]\<rparr>))"

lemma close_inner_pending: "pending (close_inner i r w s) = (if entries s i = None then pending s else filter (\<lambda>c. c \<noteq> i) (pending s))"
  by (simp add: close_inner_def bump_content_revision_def bump_revision_def Let_def split: option.splits)

definition unpinned :: "scheduler \<Rightarrow> notification_id \<Rightarrow> bool option" where
  "unpinned s i = map_option (\<lambda>e. le_jump_nonce e = None) (entries s i)"

lemma take_last_length: "take_last p xs = Some (Some (y, ys)) \<Longrightarrow> length ys < length xs"
  by (auto simp: take_last_def dest: take_first_length)

function enforce_loop :: "wall_time \<Rightarrow> notification_id list \<Rightarrow> notification_id list sched_op" where
  "enforce_loop wall suppressed s =
     (if max_pending (limits s) < length (pending s) then
        (case take_last (unpinned s) (pending s) of
           None \<Rightarrow> (Inl Panic, s)
         | Some None \<Rightarrow> (Inl Panic, s)
         | Some (Some (i, rest)) \<Rightarrow>
             enforce_loop wall (suppressed @ [i]) (close_inner i RenderSuppressed wall (s\<lparr>pending := rest\<rparr>)))
      else (Inr suppressed, s))"
  by pat_completeness auto
termination
proof (relation "measure (\<lambda>(_, _, s). length (pending s))", goal_cases)
  case (2 wall suppressed s x y i rest)
  then have "length rest < length (pending s)" by (auto dest: take_last_length)
  moreover from this have "length (filter (\<lambda>c. c \<noteq> i) rest) < length (pending s)"
    by (rule le_less_trans [OF length_filter_le])
  ultimately show ?case by (auto simp: close_inner_pending)
qed simp

declare enforce_loop.simps [simp del]

definition enforce_pending_limit :: "wall_time \<Rightarrow> notification_id list sched_op" where
  "enforce_pending_limit wall = enforce_loop wall []"

section \<open>Time\<close>

definition has_expired :: "scheduler \<Rightarrow> monotonic_time \<Rightarrow> notification_id \<Rightarrow> bool" where
  "has_expired s now i =
     (case entries s i of None \<Rightarrow> False | Some e \<Rightarrow> timeout_expired (le_timeout e) now = Inr True)"

definition close_expired :: "monotonic_time \<Rightarrow> wall_time \<Rightarrow> scheduler \<Rightarrow> scheduler" where
  "close_expired now wall s =
     fold (\<lambda>i. close_inner i TimedOut wall) (filter (has_expired s now) (active_toasts s)) s"

definition prepare_time :: "monotonic_time \<Rightarrow> wall_time \<Rightarrow> unit sched_op" where
  "prepare_time now wall = with_state (\<lambda>s.
     case elapsed_since now (last_now s) of
       Inl e \<Rightarrow> raise e
     | Inr _ \<Rightarrow>
         then_op (modify (\<lambda>s. close_expired now wall (s\<lparr>last_now := now\<rparr>)))
         (with_state (\<lambda>s.
            if active_toasts s \<noteq> [] \<or> active_attention s \<noteq> None \<or> pending s \<noteq> []
            then rebalance now wall else ret ())))"

definition advance :: "monotonic_time \<Rightarrow> wall_time \<Rightarrow> unit sched_op" where
  "advance now wall = prepare_time now wall"

section \<open>Submitting and updating\<close>

definition submit_keyed ::
  "notification_id \<Rightarrow> notification_draft \<Rightarrow> monotonic_time \<Rightarrow> wall_time \<Rightarrow> submit_outcome sched_op" where
  "submit_keyed i draft now wall = with_state (\<lambda>s.
     case entries s i of
       None \<Rightarrow> panic
     | Some e \<Rightarrow>
         if has_same_content (le_notification e) draft then ret \<lparr>so_id = i, so_disposition = Duplicate\<rparr>
         else
           let running = toast_timer_should_run s i;
               prior = n_presentation (le_notification e);
               n = replace_content draft wall (le_notification e);
               e' = e\<lparr>le_notification := n, le_timeout := timeout_restart (n_timeout n) now running\<rparr>
           in then_op (modify (\<lambda>s. s\<lparr>entries := (entries s)(i \<mapsto> e')\<rparr>))
             (then_op (if n_presentation n \<noteq> prior
                then modify (\<lambda>s. s\<lparr>pending := filter (\<lambda>c. c \<noteq> i) (pending s) @ [i],
                       active_toasts := filter (\<lambda>c. c \<noteq> i) (active_toasts s),
                       active_attention := (if active_attention s = Some i then None else active_attention s)\<rparr>)
                else ret ())
             (then_op sort_pending
             (then_op (rebalance now wall)
             (then_op (modify bump_content_revision)
             (ret \<lparr>so_id = i, so_disposition = Updated\<rparr>))))))"

definition enqueue_new :: "notification_id \<Rightarrow> notification_draft \<Rightarrow> wall_time \<Rightarrow> scheduler \<Rightarrow> scheduler" where
  "enqueue_new new_id draft wall s =
     (let n = from_draft new_id draft wall;
          e = \<lparr>le_notification = n, le_sequence = next_sequence s,
               le_timeout = timeout_state_new (n_timeout n), le_jump_nonce = None\<rparr>
      in s\<lparr>live_keys := (case n_key n of Some key \<Rightarrow> (live_keys s)(key \<mapsto> new_id) | None \<Rightarrow> live_keys s),
           entries := (entries s)(new_id \<mapsto> e),
           next_sequence := next_sequence s + 1,
           pending := pending s @ [new_id]\<rparr>)"

definition submit_new ::
  "notification_id \<Rightarrow> notification_draft \<Rightarrow> monotonic_time \<Rightarrow> wall_time \<Rightarrow> submit_outcome sched_op" where
  "submit_new new_id draft now wall =
     then_op (modify (enqueue_new new_id draft wall))
     (then_op sort_pending
     (then_op (rebalance now wall)
     (bind_op (enforce_pending_limit wall) (\<lambda>suppressed.
      then_op (modify bump_content_revision)
     (with_state (\<lambda>s. ret \<lparr>so_id = new_id, so_disposition =
        (if new_id \<in> set suppressed then Suppressed
         else if is_desired_visible s new_id then ShownNow
         else Queued)\<rparr>))))))"

definition submit ::
  "notification_id \<Rightarrow> notification_draft \<Rightarrow> monotonic_time \<Rightarrow> wall_time \<Rightarrow> submit_outcome sched_op" where
  "submit new_id draft now wall =
     then_op (prepare_time now wall)
     (with_state (\<lambda>s.
        case Option.bind (d_key draft) (live_keys s) of
          Some i \<Rightarrow> submit_keyed i draft now wall
        | None \<Rightarrow> submit_new new_id draft now wall))"

definition scheduler_apply_update ::
  "notification_id \<Rightarrow> notification_update \<Rightarrow> monotonic_time \<Rightarrow> wall_time \<Rightarrow> update_disposition sched_op" where
  "scheduler_apply_update i u now wall = with_state (\<lambda>s.
     let running = toast_timer_should_run s i in
     case entries s i of
       None \<Rightarrow> raise NotificationNotLive
     | Some e \<Rightarrow>
         let (changed, n) = apply_update u wall (le_notification e);
             stored = modify (\<lambda>s. s\<lparr>entries := (entries s)(i \<mapsto> e\<lparr>le_notification := n\<rparr>)\<rparr>)
         in if \<not> changed then then_op stored (ret UpdateDuplicate)
            else
              then_op stored
              (then_op (with_entry i (\<lambda>e. e\<lparr>le_timeout := timeout_restart (n_timeout n) now running\<rparr>))
              (then_op sort_pending
              (then_op (modify bump_content_revision)
              (ret UpdateApplied)))))"

definition key_or_fail :: "notification_key \<Rightarrow> (notification_id \<Rightarrow> 'a sched_op) \<Rightarrow> 'a sched_op" where
  "key_or_fail key f = with_state (\<lambda>s.
     case live_keys s key of None \<Rightarrow> raise KeyNotLive | Some i \<Rightarrow> f i)"

definition update_by_key ::
  "notification_key \<Rightarrow> notification_update \<Rightarrow> monotonic_time \<Rightarrow> wall_time \<Rightarrow> update_disposition sched_op" where
  "update_by_key key u now wall =
     then_op (prepare_time now wall) (key_or_fail key (\<lambda>i. scheduler_apply_update i u now wall))"

definition update ::
  "notification_id \<Rightarrow> notification_update \<Rightarrow> monotonic_time \<Rightarrow> wall_time \<Rightarrow> update_disposition sched_op" where
  "update i u now wall = then_op (prepare_time now wall) (scheduler_apply_update i u now wall)"

section \<open>Closing\<close>

definition close :: "notification_id \<Rightarrow> close_reason \<Rightarrow> monotonic_time \<Rightarrow> wall_time \<Rightarrow> unit sched_op" where
  "close i reason now wall =
     then_op (prepare_time now wall)
     (with_state (\<lambda>s.
        if (case entries s i of None \<Rightarrow> True | Some e \<Rightarrow> n_delivery (le_notification e) = Closed)
        then raise NotificationNotLive
        else then_op (modify (close_inner i reason wall)) (rebalance now wall)))"

definition dismiss_by_key ::
  "notification_key \<Rightarrow> monotonic_time \<Rightarrow> wall_time \<Rightarrow> notification_id sched_op" where
  "dismiss_by_key key now wall = key_or_fail key (\<lambda>i. then_op (close i Dismissed now wall) (ret i))"

definition dismiss :: "notification_id \<Rightarrow> monotonic_time \<Rightarrow> wall_time \<Rightarrow> unit sched_op" where
  "dismiss i now wall = close i Dismissed now wall"

definition render_failed :: "notification_id \<Rightarrow> monotonic_time \<Rightarrow> wall_time \<Rightarrow> unit sched_op" where
  "render_failed i now wall = close i RenderFailed now wall"

text \<open>
  The keys of the hash map come in an arbitrary order: \<open>order\<close> lists the live IDs, and is the order
  the iteration takes.
\<close>

definition shutdown ::
  "(scheduler \<Rightarrow> notification_id list) \<Rightarrow> shutdown_reason \<Rightarrow> monotonic_time \<Rightarrow> wall_time \<Rightarrow> unit sched_op" where
  "shutdown order reason now wall =
     then_op (prepare_time now wall)
     (modify (\<lambda>s. fold (\<lambda>i. close_inner i (shutdown_close_reason reason) wall) (order s) s))"

section \<open>Display availability and limits\<close>

definition set_display_available :: "bool \<Rightarrow> monotonic_time \<Rightarrow> wall_time \<Rightarrow> unit sched_op" where
  "set_display_available available now wall =
     then_op (prepare_time now wall)
     (then_op (modify (\<lambda>s. if display_available s \<noteq> available
                            then bump_revision (s\<lparr>display_available := available\<rparr>) else s))
     (rebalance now wall))"

definition defer_excess :: "nat \<Rightarrow> monotonic_time \<Rightarrow> unit sched_op" where
  "defer_excess visible now = with_state (\<lambda>s.
     if visible < length (active_toasts s) then
       let deferred = drop visible (active_toasts s)
       in then_op (modify (\<lambda>s. s\<lparr>active_toasts := take visible (active_toasts s)\<rparr>))
          (then_op (for_each deferred (\<lambda>i. set_timer now i False))
          (modify (\<lambda>s. s\<lparr>pending := pending s @ deferred\<rparr>)))
     else ret ())"

definition truncate_closed :: "scheduler \<Rightarrow> scheduler" where
  "truncate_closed s = s\<lparr>closed := drop (length (closed s) - closed_capacity s) (closed s)\<rparr>"

definition update_limits :: "scheduler_limits \<Rightarrow> monotonic_time \<Rightarrow> wall_time \<Rightarrow> unit sched_op" where
  "update_limits l now wall =
     then_op (prepare_time now wall)
     (with_state (\<lambda>s.
        if limits s = l then ret ()
        else
          then_op (modify (\<lambda>s. s\<lparr>limits := l, closed_capacity := closed_capacity_for l\<rparr>))
          (then_op (defer_excess (max_visible_toasts l) now)
          (then_op sort_pending
          (then_op (rebalance now wall)
          (bind_op (enforce_pending_limit wall) (\<lambda>_.
           modify (\<lambda>s. bump_content_revision (truncate_closed s)))))))))"

section \<open>Jumps\<close>

definition begin_jump_inner :: "notification_id \<Rightarrow> jump_intent sched_op" where
  "begin_jump_inner i = with_state (\<lambda>s.
     let timer_was_running = toast_timer_should_run s i in
     case entries s i of
       None \<Rightarrow> raise NotificationNotLive
     | Some e \<Rightarrow>
         if n_delivery (le_notification e) = Closed then raise NotificationNotLive
         else if le_jump_nonce e \<noteq> None then raise JumpAlreadyPending
         else (case n_source (le_notification e) of
             None \<Rightarrow> raise MissingSource
           | Some source \<Rightarrow>
               let nonce = next_jump_nonce s in
               then_op (modify (\<lambda>s. s\<lparr>next_jump_nonce := nonce + 1,
                   entries := (entries s)(i \<mapsto> e\<lparr>le_jump_nonce := Some nonce\<rparr>)\<rparr>))
               (then_op (if timer_was_running then set_timer (last_now s) i False else ret ())
               (ret \<lparr>ji_notification_id = i, ji_nonce = nonce, ji_source = source\<rparr>))))"

definition begin_jump_by_key ::
  "notification_key \<Rightarrow> monotonic_time \<Rightarrow> wall_time \<Rightarrow> jump_intent sched_op" where
  "begin_jump_by_key key now wall =
     then_op (prepare_time now wall) (key_or_fail key begin_jump_inner)"

definition begin_jump :: "notification_id \<Rightarrow> monotonic_time \<Rightarrow> wall_time \<Rightarrow> jump_intent sched_op" where
  "begin_jump i now wall = then_op (prepare_time now wall) (begin_jump_inner i)"

definition cancel_jump :: "jump_intent \<Rightarrow> monotonic_time \<Rightarrow> wall_time \<Rightarrow> unit sched_op" where
  "cancel_jump intent now wall =
     then_op (prepare_time now wall)
     (with_state (\<lambda>s.
        case entries s (ji_notification_id intent) of
          None \<Rightarrow> raise StaleJumpIntent
        | Some e \<Rightarrow>
            if le_jump_nonce e \<noteq> Some (ji_nonce intent) then raise StaleJumpIntent
            else
              then_op (with_entry (ji_notification_id intent) (\<lambda>e. e\<lparr>le_jump_nonce := None\<rparr>))
              (with_state (\<lambda>s.
                 if toast_timer_should_run s (ji_notification_id intent)
                 then set_timer (last_now s) (ji_notification_id intent) True else ret ()))))"

definition commit_jump :: "jump_intent \<Rightarrow> monotonic_time \<Rightarrow> wall_time \<Rightarrow> unit sched_op" where
  "commit_jump intent now wall = with_state (\<lambda>s.
     if (case entries s (ji_notification_id intent) of
           None \<Rightarrow> False | Some e \<Rightarrow> le_jump_nonce e = Some (ji_nonce intent))
     then close (ji_notification_id intent) Jumped now wall
     else raise StaleJumpIntent)"

section \<open>Views\<close>

definition scheduler_display_plan :: "scheduler \<Rightarrow> display_plan" where
  "scheduler_display_plan s =
     \<lparr>dp_revision = revision s,
      dp_attention = (if display_available s then active_attention s else None),
      dp_toasts = (if display_available s \<and> active_attention s = None then active_toasts s else [])\<rparr>"

definition has_active_attention :: "scheduler \<Rightarrow> bool" where
  "has_active_attention s \<longleftrightarrow> active_attention s \<noteq> None"

definition live_notification :: "scheduler \<Rightarrow> notification_id \<Rightarrow> notification option" where
  "live_notification s i = map_option le_notification (entries s i)"

definition id_for_key :: "scheduler \<Rightarrow> notification_key \<Rightarrow> notification_id option" where
  "id_for_key s key = live_keys s key"

definition closed_notification :: "scheduler \<Rightarrow> notification_id \<Rightarrow> notification option" where
  "closed_notification s i = find (\<lambda>n. n_id n = i) (closed s)"

definition drain_closed :: "notification list sched_op" where
  "drain_closed = with_state (\<lambda>s. then_op (modify (\<lambda>s. s\<lparr>closed := []\<rparr>)) (ret (closed s)))"

end
