(* ===== verification/Scheduler_Spec.thy ===== *)
theory Scheduler_Spec
  imports Scheduler
begin

text \<open>
  The structural invariant of the live scheduler and a functional specification of its
  rebalancing: which pending Notification is promoted, which Toasts fill the free slots, what is
  marked visible and which timers run. On a well-formed state the imperative \<open>rebalance\<close> and
  \<open>prepare_time\<close> neither fail nor panic and compute exactly the specified state.
\<close>

section \<open>The structural invariant\<close>

definition located :: "scheduler \<Rightarrow> notification_id list" where
  "located s = pending s @ active_toasts s
     @ (case active_attention s of None \<Rightarrow> [] | Some a \<Rightarrow> [a])"

fun timer_ok :: "monotonic_time \<Rightarrow> timeout_state \<Rightarrow> bool" where
  "timer_ok now (Remaining d (Some start)) \<longleftrightarrow> start \<le> now"
| "timer_ok now _ \<longleftrightarrow> True"

fun timer_paused :: "timeout_state \<Rightarrow> bool" where
  "timer_paused (Remaining d (Some start)) \<longleftrightarrow> False"
| "timer_paused _ \<longleftrightarrow> True"

definition presents :: "(notification_id \<rightharpoonup> live_entry) \<Rightarrow> presentation \<Rightarrow> notification_id \<Rightarrow> bool" where
  "presents es p i \<longleftrightarrow> (\<exists>e. es i = Some e \<and> n_presentation (le_notification e) = p)"

lemma presents_code [code]:
  "presents es p i = (case es i of None \<Rightarrow> False | Some e \<Rightarrow> n_presentation (le_notification e) = p)"
  by (auto simp: presents_def split: option.splits)

text \<open>Every live Notification is in exactly one place, and the places hold the right kind.\<close>

definition wf_places :: "scheduler \<Rightarrow> bool" where
  "wf_places s \<longleftrightarrow>
     distinct (located s) \<and> set (located s) = dom (entries s)
     \<and> (\<forall>i \<in> set (active_toasts s). presents (entries s) Toast i)
     \<and> (\<forall>i. active_attention s = Some i \<longrightarrow> presents (entries s) Attention i)"

definition wf_entry :: "scheduler \<Rightarrow> notification_id \<Rightarrow> live_entry \<Rightarrow> bool" where
  "wf_entry s i e \<longleftrightarrow>
     n_id (le_notification e) = i \<and> n_delivery (le_notification e) \<noteq> Closed
     \<and> wf_notification (le_notification e)
     \<and> timer_ok (last_now s) (le_timeout e)
     \<and> (i \<notin> set (active_toasts s) \<longrightarrow> timer_paused (le_timeout e))"

definition wf_entries :: "scheduler \<Rightarrow> bool" where
  "wf_entries s \<longleftrightarrow> (\<forall>i e. entries s i = Some e \<longrightarrow> wf_entry s i e)"

text \<open>The key index is exactly the keys of the live Notifications.\<close>

definition wf_keys :: "scheduler \<Rightarrow> bool" where
  "wf_keys s \<longleftrightarrow> (\<forall>k i. live_keys s k = Some i
     \<longleftrightarrow> (\<exists>e. entries s i = Some e \<and> n_key (le_notification e) = Some k))"

definition wf_closed :: "scheduler \<Rightarrow> bool" where
  "wf_closed s \<longleftrightarrow> (\<forall>n \<in> set (closed s). n_delivery n = Closed \<and> wf_notification n)"

definition wf_core :: "scheduler \<Rightarrow> bool" where
  "wf_core s \<longleftrightarrow> wf_places s \<and> wf_entries s \<and> wf_keys s \<and> wf_closed s"

named_theorems core_defs "the parts of the structural invariant"
declare wf_core_def [core_defs] wf_places_def [core_defs] wf_entries_def [core_defs]
  wf_entry_def [core_defs] wf_keys_def [core_defs] wf_closed_def [core_defs]

lemma wf_core_located:
  assumes "wf_core s"
  shows "i \<in> set (pending s) \<Longrightarrow> \<exists>e. entries s i = Some e"
    and "i \<in> set (active_toasts s) \<Longrightarrow> \<exists>e. entries s i = Some e"
    and "active_attention s = Some i \<Longrightarrow> \<exists>e. entries s i = Some e"
  using assms by (auto simp: core_defs located_def dom_def)

lemma closed_capacity_pos: "0 < closed_capacity_for l"
  by (simp add: closed_capacity_for_def sat_add_pos)

section \<open>Loops over the entries\<close>

lemma then_op_Inr: "m s = (Inr (), s') \<Longrightarrow> then_op m n s = n s'"
  by (simp add: then_op_def bind_op_def)

lemma for_each_entries:
  assumes "distinct xs"
    and "\<And>i. i \<in> set xs \<Longrightarrow> \<exists>e. entries s i = Some e \<and> ok i e"
    and step: "\<And>s' i e. entries s' i = Some e \<Longrightarrow> ok i e
       \<Longrightarrow> g i s' = (Inr (), s'\<lparr>entries := (entries s')(i \<mapsto> f i e)\<rparr>)"
  shows "for_each xs g s =
    (Inr (), s\<lparr>entries := (\<lambda>i. if i \<in> set xs then map_option (f i) (entries s i) else entries s i)\<rparr>)"
  using assms(1,2)
proof (induction xs arbitrary: s)
  case Nil
  then show ?case by (simp add: ret_def)
next
  case (Cons x xs)
  then obtain e where e: "entries s x = Some e" "ok x e" by auto
  let ?s = "s\<lparr>entries := (entries s)(x \<mapsto> f x e)\<rparr>"
  have "\<exists>e. entries ?s i = Some e \<and> ok i e" if "i \<in> set xs" for i
    using that Cons.prems by auto
  then have "for_each xs g ?s = (Inr (), ?s\<lparr>entries :=
      (\<lambda>i. if i \<in> set xs then map_option (f i) (entries ?s i) else entries ?s i)\<rparr>)"
    using Cons by simp
  moreover have "(\<lambda>i. if i \<in> set xs then map_option (f i) (entries ?s i) else entries ?s i)
      = (\<lambda>i. if i \<in> set (x # xs) then map_option (f i) (entries s i) else entries s i)"
    using Cons.prems(1) e(1) by auto
  ultimately show ?case using step [OF e] by (simp add: then_op_Inr)
qed

lemma with_entry_Some:
  "entries s i = Some e \<Longrightarrow> with_entry i f s = (Inr (), s\<lparr>entries := (entries s)(i \<mapsto> f e)\<rparr>)"
  by (simp add: with_entry_def with_state_def modify_def)

fun settle_timer :: "monotonic_time \<Rightarrow> bool \<Rightarrow> timeout_state \<Rightarrow> timeout_state" where
  "settle_timer now running TimerNever = TimerNever"
| "settle_timer now running (Remaining d None) = Remaining d (if running then Some now else None)"
| "settle_timer now running (Remaining d (Some start)) =
     (if running then Remaining d (Some start) else Remaining (d - (now - start)) None)"

lemma set_running_ok: "timer_ok now t \<Longrightarrow> timeout_set_running t now r = Inr (settle_timer now r t)"
  by (cases "(t, now, r)" rule: timeout_set_running.cases) (auto simp: elapsed_since_def)

lemma settle_timer_ok: "timer_ok now t \<Longrightarrow> timer_ok now (settle_timer now r t)"
  by (cases "(now, r, t)" rule: settle_timer.cases) auto

lemma settle_timer_paused: "timer_paused (settle_timer now False t)"
  by (cases "(now, False, t)" rule: settle_timer.cases) auto

lemma set_timer_ok:
  "entries s i = Some e \<Longrightarrow> timer_ok now (le_timeout e)
    \<Longrightarrow> set_timer now i r s = (Inr (), s\<lparr>entries := (entries s)(i \<mapsto> e\<lparr>le_timeout := settle_timer now r (le_timeout e)\<rparr>)\<rparr>)"
  by (simp add: set_timer_def with_state_def set_running_ok with_entry_Some)

section \<open>The specification of rebalancing\<close>

definition promote_spec :: "scheduler \<Rightarrow> scheduler" where
  "promote_spec s =
     (if display_available s \<and> active_attention s = None then
        (case filter (presents (entries s) Attention) (pending s) of
           [] \<Rightarrow> s
         | i # _ \<Rightarrow> s\<lparr>active_attention := Some i, pending := filter (\<lambda>j. j \<noteq> i) (pending s)\<rparr>)
      else s)"

definition next_toasts :: "scheduler \<Rightarrow> notification_id list" where
  "next_toasts s = take (max_visible_toasts (limits s) - length (active_toasts s))
     (filter (presents (entries s) Toast) (pending s))"

definition fill_now :: "scheduler \<Rightarrow> scheduler" where
  "fill_now s = s\<lparr>active_toasts := active_toasts s @ next_toasts s,
     pending := filter (\<lambda>j. j \<notin> set (next_toasts s)) (pending s)\<rparr>"

definition fill_spec :: "scheduler \<Rightarrow> scheduler" where
  "fill_spec s = (if display_available s \<and> active_attention s = None then fill_now s else s)"

definition shown_ids :: "scheduler \<Rightarrow> notification_id list" where
  "shown_ids s =
     (if display_available s
      then (case active_attention s of Some i \<Rightarrow> [i] | None \<Rightarrow> active_toasts s) else [])"

definition shown_spec :: "wall_time \<Rightarrow> scheduler \<Rightarrow> scheduler" where
  "shown_spec wall s = s\<lparr>entries := (\<lambda>i. if i \<in> set (shown_ids s)
     then map_option (\<lambda>e. e\<lparr>le_notification := mark_visible wall (le_notification e)\<rparr>) (entries s i)
     else entries s i)\<rparr>"

definition settle_spec :: "monotonic_time \<Rightarrow> scheduler \<Rightarrow> scheduler" where
  "settle_spec now s = s\<lparr>entries := (\<lambda>i. if i \<in> set (active_toasts s)
     then map_option (\<lambda>e. e\<lparr>le_timeout := settle_timer now
        (toast_timer_should_run s i \<and> le_jump_nonce e = None) (le_timeout e)\<rparr>) (entries s i)
     else entries s i)\<rparr>"

definition rebalance_spec :: "monotonic_time \<Rightarrow> wall_time \<Rightarrow> scheduler \<Rightarrow> scheduler" where
  "rebalance_spec now wall s = settle_spec now (shown_spec wall (fill_spec (promote_spec s)))"

section \<open>Refinement of the steps\<close>

lemma presented_as_defined:
  assumes "\<forall>i \<in> set xs. \<exists>e. entries s i = Some e"
  shows "\<forall>i \<in> set xs. presented_as s p i = Some (presents (entries s) p i)"
  using assms by (auto simp: presented_as_def presents_def)

lemma take_first_filter:
  assumes "\<forall>i \<in> set xs. p i = Some (q i)" and "distinct xs"
  shows "take_first p xs = Some (case filter q xs of [] \<Rightarrow> None | i # _ \<Rightarrow> Some (i, filter (\<lambda>j. j \<noteq> i) xs))"
  using assms
proof (induction xs)
  case Nil
  then show ?case by simp
next
  case (Cons x xs)
  then have IH: "take_first p xs = Some (case filter q xs of [] \<Rightarrow> None | i # _ \<Rightarrow> Some (i, filter (\<lambda>j. j \<noteq> i) xs))"
    by simp
  have same: "filter (\<lambda>j. j \<noteq> x) xs = xs"
    using Cons.prems(2) by (auto intro: filter_True)
  have "y \<noteq> x" if "filter q xs = y # ys" for y ys
  proof -
    have "y \<in> set (filter q xs)" using that by simp
    then show ?thesis using Cons.prems(2) by auto
  qed
  then show ?case using Cons.prems IH same by (auto split: list.splits)
qed

lemma wf_core_pending: "wf_core s \<Longrightarrow> \<forall>i \<in> set (pending s). \<exists>e. entries s i = Some e"
  by (auto dest: wf_core_located)

lemma wf_core_distinct_pending: "wf_core s \<Longrightarrow> distinct (pending s)"
  by (auto simp: core_defs located_def)

lemma promote_refines:
  assumes "wf_core s"
  shows "promote_attention s = (Inr (), promote_spec s)"
  using take_first_filter [OF presented_as_defined [OF wf_core_pending [OF assms]]
      wf_core_distinct_pending [OF assms], of Attention]
  by (auto simp: promote_attention_def promote_spec_def with_state_def modify_def ret_def
      split: list.splits)

lemma fill_now_full:
  "\<not> length (active_toasts s) < max_visible_toasts (limits s) \<Longrightarrow> fill_now s = s"
  by (simp add: fill_now_def next_toasts_def)

lemma fill_now_none: "filter (presents (entries s) Toast) (pending s) = [] \<Longrightarrow> fill_now s = s"
  by (simp add: fill_now_def next_toasts_def)

lemma fill_now_step:
  assumes "length (active_toasts s) < max_visible_toasts (limits s)"
    and f: "filter (presents (entries s) Toast) (pending s) = i # is"
    and "distinct (pending s)"
  shows "fill_now (s\<lparr>active_toasts := active_toasts s @ [i], pending := filter (\<lambda>j. j \<noteq> i) (pending s)\<rparr>)
    = fill_now s"
proof -
  let ?s = "s\<lparr>active_toasts := active_toasts s @ [i], pending := filter (\<lambda>j. j \<noteq> i) (pending s)\<rparr>"
  have swap: "filter (presents (entries s) Toast) (filter (\<lambda>j. j \<noteq> i) (pending s))
      = filter (\<lambda>j. j \<noteq> i) (filter (presents (entries s) Toast) (pending s))"
    by (simp add: conj_commute)
  have "distinct (i # is)" using distinct_filter [OF assms(3)] f by metis
  then have "filter (\<lambda>j. j \<noteq> i) (i # is) = is" by (auto intro: filter_True)
  with swap f have rest: "filter (presents (entries s) Toast) (filter (\<lambda>j. j \<noteq> i) (pending s)) = is"
    by simp
  obtain k where k: "max_visible_toasts (limits s) - length (active_toasts s) = Suc k"
    using assms(1) by (metis Suc_diff_Suc)
  then have "max_visible_toasts (limits s) - Suc (length (active_toasts s)) = k" by simp
  with f k rest have "next_toasts s = i # next_toasts ?s"
    by (simp add: next_toasts_def)
  then show ?thesis by (simp add: fill_now_def conj_commute)
qed

lemma fill_loop_refines:
  assumes "distinct (pending s)" and "\<forall>i \<in> set (pending s). \<exists>e. entries s i = Some e"
  shows "fill_toasts_loop s = (Inr (), fill_now s)"
  using assms
proof (induction s rule: fill_toasts_loop.induct)
  case (1 s)
  have first: "take_first (presented_as s Toast) (pending s)
    = Some (case filter (presents (entries s) Toast) (pending s) of
        [] \<Rightarrow> None | i # _ \<Rightarrow> Some (i, filter (\<lambda>j. j \<noteq> i) (pending s)))"
    by (rule take_first_filter [OF presented_as_defined [OF 1(3)] 1(2)])
  show ?case
  proof (cases "length (active_toasts s) < max_visible_toasts (limits s)")
    case False
    then show ?thesis by (subst fill_toasts_loop.simps) (simp add: fill_now_full)
  next
    case room: True
    show ?thesis
    proof (cases "filter (presents (entries s) Toast) (pending s)")
      case Nil
      with room first show ?thesis
        by (subst fill_toasts_loop.simps) (simp add: fill_now_none)
    next
      case (Cons i "is")
      let ?s = "s\<lparr>active_toasts := active_toasts s @ [i], pending := filter (\<lambda>j. j \<noteq> i) (pending s)\<rparr>"
      have taken: "take_first (presented_as s Toast) (pending s)
          = Some (Some (i, filter (\<lambda>j. j \<noteq> i) (pending s)))"
        using first Cons by simp
      have "fill_toasts_loop ?s = (Inr (), fill_now ?s)"
        by (rule "1.IH" [OF room taken refl refl]) (use "1.prems" in auto)
      moreover have "fill_now ?s = fill_now s"
        by (rule fill_now_step [OF room Cons 1(2)])
      ultimately show ?thesis
        using room taken by (subst fill_toasts_loop.simps) simp
    qed
  qed
qed

lemma fill_refines: "wf_core s \<Longrightarrow> fill_toasts s = (Inr (), fill_spec s)"
  by (auto simp: fill_toasts_def fill_spec_def with_state_def ret_def wf_core_distinct_pending
      wf_core_pending intro!: fill_loop_refines)

lemma wf_core_active_distinct: "wf_core s \<Longrightarrow> distinct (active_toasts s)"
  by (auto simp: core_defs located_def)

lemma shown_refines:
  assumes "wf_core s"
  shows "mark_shown wall s = (Inr (), shown_spec wall s)"
proof (cases "display_available s")
  case False
  then show ?thesis by (simp add: mark_shown_def shown_spec_def shown_ids_def with_state_def ret_def)
next
  case True
  let ?f = "\<lambda>e. e\<lparr>le_notification := mark_visible wall (le_notification e)\<rparr>"
  show ?thesis
  proof (cases "active_attention s")
    case None
    have "for_each (active_toasts s) (\<lambda>i. with_entry i ?f) s = (Inr (), s\<lparr>entries :=
        (\<lambda>i. if i \<in> set (active_toasts s) then map_option ?f (entries s i) else entries s i)\<rparr>)"
      by (rule for_each_entries [where ok = "\<lambda>_ _. True" and f = "\<lambda>_. ?f"])
        (auto simp: wf_core_active_distinct [OF assms] with_entry_Some
          dest: wf_core_located(2) [OF assms])
    with True None show ?thesis
      by (simp add: mark_shown_def shown_spec_def shown_ids_def with_state_def)
  next
    case (Some a)
    then obtain e where e: "entries s a = Some e" using wf_core_located(3) [OF assms] by blast
    have "(entries s)(a \<mapsto> ?f e) = (\<lambda>i. if i = a then map_option ?f (entries s i) else entries s i)"
      using e by auto
    with True Some e show ?thesis
      by (simp add: mark_shown_def shown_spec_def shown_ids_def with_state_def with_entry_Some)
  qed
qed

lemma settle_refines:
  assumes "wf_core s" and "last_now s \<le> now"
  shows "settle_timers now s = (Inr (), settle_spec now s)"
proof -
  have ok: "\<exists>e. entries s i = Some e \<and> timer_ok now (le_timeout e)"
    if act: "i \<in> set (active_toasts s)" for i
  proof -
    obtain e where e: "entries s i = Some e" using wf_core_located(2) [OF assms(1) act] by blast
    then have "timer_ok (last_now s) (le_timeout e)" using assms(1) by (auto simp: core_defs)
    then have "timer_ok now (le_timeout e)" using assms(2)
      by (cases "(now, le_timeout e)" rule: timer_ok.cases) auto
    with e show ?thesis by auto
  qed
  have run: "for_each (active_toasts s) (\<lambda>i. set_timer now i (r i)) s = (Inr (), s\<lparr>entries :=
      (\<lambda>i. if i \<in> set (active_toasts s)
        then map_option (\<lambda>e. e\<lparr>le_timeout := settle_timer now (r i) (le_timeout e)\<rparr>) (entries s i)
        else entries s i)\<rparr>)" for r
    by (rule for_each_entries [where ok = "\<lambda>i e. timer_ok now (le_timeout e)"])
      (use ok in \<open>auto simp: wf_core_active_distinct [OF assms(1)] set_timer_ok\<close>)
  have "\<not> (\<exists>i \<in> set (active_toasts s). entries s i = None)"
    using wf_core_located(2) [OF assms(1)] by fastforce
  then show ?thesis
    by (auto simp: settle_timers_def with_state_def settle_spec_def run toast_timer_should_run_def
        Let_def fun_eq_iff map_option_case split: option.splits)
qed

section \<open>The specification keeps the structural invariant\<close>

named_theorems frame_simps "fields a specification step leaves alone"

lemma promote_spec_frame [frame_simps]:
  "limits (promote_spec s) = limits s" "entries (promote_spec s) = entries s"
  "closed (promote_spec s) = closed s" "closed_capacity (promote_spec s) = closed_capacity s"
  "live_keys (promote_spec s) = live_keys s" "active_toasts (promote_spec s) = active_toasts s"
  "display_available (promote_spec s) = display_available s" "last_now (promote_spec s) = last_now s"
  "next_sequence (promote_spec s) = next_sequence s" "next_jump_nonce (promote_spec s) = next_jump_nonce s"
  "revision (promote_spec s) = revision s" "content_revision (promote_spec s) = content_revision s"
  by (auto simp: promote_spec_def split: list.splits)

lemma fill_spec_frame [frame_simps]:
  "limits (fill_spec s) = limits s" "entries (fill_spec s) = entries s"
  "closed (fill_spec s) = closed s" "closed_capacity (fill_spec s) = closed_capacity s"
  "live_keys (fill_spec s) = live_keys s" "active_attention (fill_spec s) = active_attention s"
  "display_available (fill_spec s) = display_available s" "last_now (fill_spec s) = last_now s"
  "next_sequence (fill_spec s) = next_sequence s" "next_jump_nonce (fill_spec s) = next_jump_nonce s"
  "revision (fill_spec s) = revision s" "content_revision (fill_spec s) = content_revision s"
  by (auto simp: fill_spec_def fill_now_def)

lemma shown_spec_frame [frame_simps]:
  "limits (shown_spec w s) = limits s" "pending (shown_spec w s) = pending s"
  "closed (shown_spec w s) = closed s" "closed_capacity (shown_spec w s) = closed_capacity s"
  "live_keys (shown_spec w s) = live_keys s" "active_attention (shown_spec w s) = active_attention s"
  "active_toasts (shown_spec w s) = active_toasts s"
  "display_available (shown_spec w s) = display_available s" "last_now (shown_spec w s) = last_now s"
  "next_sequence (shown_spec w s) = next_sequence s" "next_jump_nonce (shown_spec w s) = next_jump_nonce s"
  "revision (shown_spec w s) = revision s" "content_revision (shown_spec w s) = content_revision s"
  by (simp_all add: shown_spec_def)

lemma settle_spec_frame [frame_simps]:
  "limits (settle_spec now s) = limits s" "pending (settle_spec now s) = pending s"
  "closed (settle_spec now s) = closed s" "closed_capacity (settle_spec now s) = closed_capacity s"
  "live_keys (settle_spec now s) = live_keys s" "active_attention (settle_spec now s) = active_attention s"
  "active_toasts (settle_spec now s) = active_toasts s"
  "display_available (settle_spec now s) = display_available s" "last_now (settle_spec now s) = last_now s"
  "next_sequence (settle_spec now s) = next_sequence s" "next_jump_nonce (settle_spec now s) = next_jump_nonce s"
  "revision (settle_spec now s) = revision s" "content_revision (settle_spec now s) = content_revision s"
  by (simp_all add: settle_spec_def)

lemma wf_places_move:
  assumes "wf_places s" and "entries t = entries s"
    and "distinct (located t)" and "set (located t) = set (located s)"
    and "\<forall>i \<in> set (active_toasts t). presents (entries s) Toast i"
    and "\<forall>i. active_attention t = Some i \<longrightarrow> presents (entries s) Attention i"
  shows "wf_places t"
  using assms by (simp add: wf_places_def)

lemma wf_entries_move:
  assumes "wf_entries s" and "entries t = entries s" and "last_now t = last_now s"
    and "set (active_toasts s) \<subseteq> set (active_toasts t)"
  shows "wf_entries t"
  using assms by (auto simp: wf_entries_def wf_entry_def)

lemma wf_core_move:
  assumes "wf_core s" and "entries t = entries s" and "last_now t = last_now s"
    and "set (active_toasts s) \<subseteq> set (active_toasts t)"
    and "distinct (located t)" and "set (located t) = set (located s)"
    and "\<forall>i \<in> set (active_toasts t). presents (entries s) Toast i"
    and "\<forall>i. active_attention t = Some i \<longrightarrow> presents (entries s) Attention i"
    and "live_keys t = live_keys s" "closed t = closed s" "limits t = limits s"
    and "closed_capacity t = closed_capacity s"
  shows "wf_core t"
  using assms wf_places_move [of s t] wf_entries_move [of s t]
  by (auto simp: wf_core_def wf_keys_def wf_closed_def)

lemma filter_ConsD: "filter P xs = y # ys \<Longrightarrow> y \<in> set xs \<and> P y"
  by (metis filter_eq_ConsD in_set_conv_decomp)

lemma promote_spec_wf:
  assumes "wf_core s"
  shows "wf_core (promote_spec s)"
proof (cases "display_available s \<and> active_attention s = None
    \<and> filter (presents (entries s) Attention) (pending s) \<noteq> []")
  case True
  then obtain i "is" where f: "filter (presents (entries s) Attention) (pending s) = i # is"
    by (auto simp: neq_Nil_conv)
  then have i: "i \<in> set (pending s)" "presents (entries s) Attention i" by (auto dest: filter_ConsD)
  let ?t = "s\<lparr>active_attention := Some i, pending := filter (\<lambda>j. j \<noteq> i) (pending s)\<rparr>"
  have "promote_spec s = ?t" using True f by (simp add: promote_spec_def)
  moreover have "wf_core ?t"
    by (rule wf_core_move [OF assms])
      (use True i assms in \<open>auto simp: core_defs located_def\<close>)
  ultimately show ?thesis by simp
next
  case False
  then have "promote_spec s = s" by (auto simp: promote_spec_def split: list.splits)
  with assms show ?thesis by simp
qed

lemma next_toasts_sub: "set (next_toasts s) \<subseteq> {i \<in> set (pending s). presents (entries s) Toast i}"
  by (auto simp: next_toasts_def dest: in_set_takeD)

lemma next_toasts_distinct: "distinct (pending s) \<Longrightarrow> distinct (next_toasts s)"
  by (simp add: next_toasts_def)

lemma fill_now_wf:
  assumes "wf_core s"
  shows "wf_core (fill_now s)"
  by (rule wf_core_move [OF assms])
    (use assms next_toasts_sub [of s] next_toasts_distinct [of s]
      in \<open>auto simp: fill_now_def core_defs located_def\<close>)

lemma fill_spec_wf: "wf_core s \<Longrightarrow> wf_core (fill_spec s)"
  by (simp add: fill_spec_def fill_now_wf)

text \<open>An update of the entries that keeps their identity, key, presentation and shape.\<close>

lemma wf_core_entries:
  assumes "wf_core s"
    and dom: "\<And>i. t i = None \<longleftrightarrow> entries s i = None"
    and keep: "\<And>i e e'. entries s i = Some e \<Longrightarrow> t i = Some e' \<Longrightarrow> wf_entry s i e \<Longrightarrow>
       wf_entry s i e' \<and> n_key (le_notification e') = n_key (le_notification e)
       \<and> n_presentation (le_notification e') = n_presentation (le_notification e)"
  shows "wf_core (s\<lparr>entries := t\<rparr>)"
proof -
  have both: "\<exists>e. entries s i = Some e \<and> wf_entry s i e \<and> wf_entry s i e'
      \<and> n_key (le_notification e') = n_key (le_notification e)
      \<and> n_presentation (le_notification e') = n_presentation (le_notification e)"
    if "t i = Some e'" for i e'
  proof -
    from that obtain e where e: "entries s i = Some e" using dom [of i] by fastforce
    moreover from this have "wf_entry s i e" using assms(1) by (auto simp: wf_core_def wf_entries_def)
    ultimately show ?thesis using keep [OF e that] by auto
  qed
  have fwd: "\<exists>e'. t i = Some e' \<and> n_key (le_notification e') = n_key (le_notification e)
      \<and> n_presentation (le_notification e') = n_presentation (le_notification e)"
    if "entries s i = Some e" for i e
  proof -
    from that obtain e' where e': "t i = Some e'" using dom [of i] by fastforce
    with both [OF e'] that show ?thesis by auto
  qed
  have "wf_places (s\<lparr>entries := t\<rparr>)"
  proof -
    have "dom t = dom (entries s)" using dom by (auto simp: dom_def)
    moreover have "presents (entries s) p i \<Longrightarrow> presents t p i" for p i
      using fwd by (fastforce simp: presents_def)
    ultimately show ?thesis using assms(1) by (simp add: wf_core_def wf_places_def located_def)
  qed
  moreover have "wf_entries (s\<lparr>entries := t\<rparr>)"
    using both by (fastforce simp: wf_entries_def wf_entry_def)
  moreover have "wf_keys (s\<lparr>entries := t\<rparr>)"
  proof -
    have "(\<exists>e. t i = Some e \<and> n_key (le_notification e) = Some k)
       \<longleftrightarrow> (\<exists>e. entries s i = Some e \<and> n_key (le_notification e) = Some k)" for i k
      using both fwd by (metis (no_types, lifting))
    then show ?thesis using assms(1) by (simp add: wf_core_def wf_keys_def)
  qed
  moreover have "wf_closed (s\<lparr>entries := t\<rparr>)"
    using assms(1) by (simp add: wf_core_def wf_closed_def)
  ultimately show ?thesis by (simp add: wf_core_def)
qed

lemma shown_spec_wf:
  assumes "wf_core s"
  shows "wf_core (shown_spec w s)"
  unfolding shown_spec_def
  by (rule wf_core_entries [OF assms])
    (auto simp: wf_entry_def mark_visible_wf split: if_splits)

lemma settle_spec_wf:
  assumes "wf_core s" and "last_now s = now"
  shows "wf_core (settle_spec now s)"
  unfolding settle_spec_def
  by (rule wf_core_entries [OF assms(1)])
    (use assms(2) in \<open>auto simp: wf_entry_def settle_timer_ok split: if_splits\<close>)

lemmas spec_wf = promote_spec_wf fill_spec_wf shown_spec_wf settle_spec_wf

lemma rebalance_spec_wf: "wf_core s \<Longrightarrow> last_now s = now \<Longrightarrow> wf_core (rebalance_spec now wall s)"
  by (simp add: rebalance_spec_def spec_wf frame_simps)

lemma rebalance_refines:
  assumes "wf_core s" and "last_now s = now"
  shows "rebalance now wall s = (Inr (), rebalance_spec now wall s)"
proof -
  let ?p = "promote_spec s" and ?f = "fill_spec (promote_spec s)"
  have "promote_attention s = (Inr (), ?p)" by (rule promote_refines) (rule assms)
  moreover have "fill_toasts ?p = (Inr (), ?f)" by (intro fill_refines spec_wf assms)
  moreover have "mark_shown wall ?f = (Inr (), shown_spec wall ?f)"
    by (intro shown_refines spec_wf assms)
  moreover have "settle_timers now (shown_spec wall ?f) = (Inr (), settle_spec now (shown_spec wall ?f))"
    by (rule settle_refines) (simp_all add: spec_wf assms frame_simps)
  ultimately show ?thesis by (simp add: rebalance_def rebalance_spec_def then_op_Inr)
qed

end
