(* ===== verification/Scheduler_Inv.thy ===== *)
theory Scheduler_Inv
  imports Scheduler_Spec
begin

text \<open>
  The full invariant of the live scheduler between operations: the structural invariant, a pending
  queue ordered by priority and age, no more visible Toasts than allowed and no free slot while
  something presentable waits. Every operation is given as an equation on well-formed states, in
  terms of \<open>prepare_spec\<close>, \<open>rebalance_spec\<close> and \<open>close_inner\<close>, and keeps the invariant.
\<close>

section \<open>The invariant\<close>

definition sorted_pending :: "scheduler \<Rightarrow> bool" where
  "sorted_pending s \<longleftrightarrow> sorted (map (pending_rank_of (entries s)) (pending s))"

definition within_visible :: "scheduler \<Rightarrow> bool" where
  "within_visible s \<longleftrightarrow> length (active_toasts s) \<le> max_visible_toasts (limits s)"

definition slots_filled :: "scheduler \<Rightarrow> bool" where
  "slots_filled s \<longleftrightarrow> (display_available s \<and> active_attention s = None \<longrightarrow>
     (\<forall>i \<in> set (pending s). presents (entries s) Toast i)
     \<and> (pending s = [] \<or> length (active_toasts s) = max_visible_toasts (limits s)))"

definition closed_bounded :: "scheduler \<Rightarrow> bool" where
  "closed_bounded s \<longleftrightarrow> closed_capacity s = closed_capacity_for (limits s)
     \<and> length (closed s) \<le> closed_capacity s"

definition wf_sched :: "scheduler \<Rightarrow> bool" where
  "wf_sched s \<longleftrightarrow> wf_core s \<and> sorted_pending s \<and> within_visible s \<and> slots_filled s \<and> closed_bounded s"

text \<open>Exactly the timers of the Toasts on display without a pending jump are running.\<close>

definition timers_settled :: "scheduler \<Rightarrow> bool" where
  "timers_settled s \<longleftrightarrow> (\<forall>i e d r. entries s i = Some e \<longrightarrow> le_timeout e = Remaining d r \<longrightarrow>
     (r \<noteq> None \<longleftrightarrow> toast_timer_should_run s i \<and> le_jump_nonce e = None))"

text \<open>The Notifications with a jump in flight.\<close>

definition pinned_ids :: "scheduler \<Rightarrow> notification_id set" where
  "pinned_ids s = {i. \<exists>e. entries s i = Some e \<and> le_jump_nonce e \<noteq> None}"

lemma wf_sched_core: "wf_sched s \<Longrightarrow> wf_core s"
  by (simp add: wf_sched_def)

lemma wf_core_finite: "wf_core s \<Longrightarrow> finite (dom (entries s))"
  by (metis List.finite_set wf_core_def wf_places_def)

lemma finite_pinned: "wf_core s \<Longrightarrow> finite (pinned_ids s)"
  by (rule finite_subset [OF _ wf_core_finite]) (auto simp: pinned_ids_def)

section \<open>Rebalancing establishes the queue invariants\<close>

lemma rebalance_frame [frame_simps]:
  "limits (rebalance_spec now w s) = limits s"
  "closed (rebalance_spec now w s) = closed s"
  "closed_capacity (rebalance_spec now w s) = closed_capacity s"
  "live_keys (rebalance_spec now w s) = live_keys s"
  "display_available (rebalance_spec now w s) = display_available s"
  "last_now (rebalance_spec now w s) = last_now s"
  "next_sequence (rebalance_spec now w s) = next_sequence s"
  "next_jump_nonce (rebalance_spec now w s) = next_jump_nonce s"
  "revision (rebalance_spec now w s) = revision s"
  "content_revision (rebalance_spec now w s) = content_revision s"
  by (simp_all add: rebalance_spec_def frame_simps)

text \<open>What rebalancing does to an entry: it may mark it visible and start or stop its timer.\<close>

lemma rebalance_entry:
  assumes "entries (rebalance_spec now w s) i = Some e'"
  obtains e where "entries s i = Some e"
    and "le_notification e' = le_notification e \<or> le_notification e' = mark_visible w (le_notification e)"
    and "le_sequence e' = le_sequence e" "le_jump_nonce e' = le_jump_nonce e"
proof -
  obtain e where e: "entries s i = Some e"
    using assms by (auto simp: rebalance_spec_def settle_spec_def shown_spec_def frame_simps split: if_splits)
  show thesis
    by (rule that [OF e])
      (use assms e in \<open>auto simp: rebalance_spec_def settle_spec_def shown_spec_def frame_simps split: if_splits\<close>)
qed

lemma rebalance_dom: "dom (entries (rebalance_spec now w s)) = dom (entries s)"
  by (auto simp: rebalance_spec_def settle_spec_def shown_spec_def frame_simps dom_def split: if_splits)

lemma rebalance_None: "entries (rebalance_spec now w s) i = None \<longleftrightarrow> entries s i = None"
  by (metis domIff rebalance_dom)

lemma rebalance_rank: "pending_rank_of (entries (rebalance_spec now w s)) = pending_rank_of (entries s)"
proof
  fix i
  show "pending_rank_of (entries (rebalance_spec now w s)) i = pending_rank_of (entries s) i"
  proof (cases "entries (rebalance_spec now w s) i")
    case None
    then show ?thesis by (simp add: pending_rank_of_def rebalance_None [THEN iffD1])
  next
    case (Some e')
    from rebalance_entry [OF this] obtain e where "entries s i = Some e"
      "le_notification e' = le_notification e \<or> le_notification e' = mark_visible w (le_notification e)"
      "le_sequence e' = le_sequence e" by blast
    with Some show ?thesis by (auto simp: pending_rank_of_def pending_rank_def)
  qed
qed

lemma rebalance_presents: "presents (entries (rebalance_spec now w s)) p i = presents (entries s) p i"
proof (cases "entries (rebalance_spec now w s) i")
  case None
  then show ?thesis by (simp add: presents_def rebalance_None [THEN iffD1])
next
  case (Some e')
  from rebalance_entry [OF this] obtain e where "entries s i = Some e"
    "le_notification e' = le_notification e \<or> le_notification e' = mark_visible w (le_notification e)"
    by blast
  with Some show ?thesis by (auto simp: presents_def)
qed

lemma rebalance_pinned: "pinned_ids (rebalance_spec now w s) = pinned_ids s"
proof -
  have "i \<in> pinned_ids (rebalance_spec now w s) \<longleftrightarrow> i \<in> pinned_ids s" for i
  proof (cases "entries (rebalance_spec now w s) i")
    case None
    then show ?thesis by (simp add: pinned_ids_def rebalance_None [THEN iffD1])
  next
    case (Some e')
    from rebalance_entry [OF this] obtain e where "entries s i = Some e" "le_jump_nonce e' = le_jump_nonce e"
      by blast
    with Some show ?thesis by (auto simp: pinned_ids_def)
  qed
  then show ?thesis by blast
qed

text \<open>The pending queue only loses elements, so it stays in order.\<close>

lemma rebalance_pending: "\<exists>P. pending (rebalance_spec now w s) = filter P (pending s)"
proof -
  have "\<exists>P. pending (promote_spec s) = filter P (pending s)"
    by (auto simp: promote_spec_def split: list.splits intro: exI [of _ "\<lambda>_. True"])
  then obtain P where P: "pending (promote_spec s) = filter P (pending s)" by blast
  have "\<exists>Q. pending (fill_spec t) = filter Q (pending t)" for t
    by (auto simp: fill_spec_def fill_now_def intro: exI [of _ "\<lambda>_. True"])
  then obtain Q where "pending (fill_spec (promote_spec s)) = filter Q (pending (promote_spec s))" by blast
  with P have "pending (rebalance_spec now w s) = filter (\<lambda>x. P x \<and> Q x) (pending s)"
    by (simp add: rebalance_spec_def frame_simps)
  then show ?thesis by blast
qed

lemma sorted_pending_filter:
  "sorted_pending s \<Longrightarrow> pending t = filter P (pending s)
    \<Longrightarrow> pending_rank_of (entries t) = pending_rank_of (entries s) \<Longrightarrow> sorted_pending t"
  by (simp add: sorted_pending_def sorted_filter)

lemma rebalance_sorted: "sorted_pending s \<Longrightarrow> sorted_pending (rebalance_spec now w s)"
  using rebalance_pending [of now w s] by (auto intro: sorted_pending_filter simp: rebalance_rank)

lemma fill_now_within: "within_visible s \<Longrightarrow> within_visible (fill_now s)"
  by (simp add: within_visible_def fill_now_def next_toasts_def)

lemma rebalance_within: "within_visible s \<Longrightarrow> within_visible (rebalance_spec now w s)"
proof -
  assume "within_visible s"
  then have "within_visible (promote_spec s)" by (simp add: within_visible_def frame_simps)
  then have "within_visible (fill_spec (promote_spec s))" by (simp add: fill_spec_def fill_now_within)
  then show ?thesis by (simp add: within_visible_def rebalance_spec_def frame_simps)
qed

lemma presents_cases: "wf_core s \<Longrightarrow> i \<in> set (pending s) \<Longrightarrow> \<not> presents (entries s) Attention i
    \<Longrightarrow> presents (entries s) Toast i"
  by (frule wf_core_located(1)) (auto simp: presents_def intro: presentation.exhaust)

lemma promote_spec_done:
  assumes "wf_core s" and "display_available s" and "active_attention (promote_spec s) = None"
  shows "\<forall>i \<in> set (pending (promote_spec s)). presents (entries s) Toast i"
proof -
  have none: "active_attention s = None \<and> filter (presents (entries s) Attention) (pending s) = []"
    using assms(2,3) by (auto simp: promote_spec_def split: if_splits list.splits)
  then have "promote_spec s = s" by (simp add: promote_spec_def)
  with none show ?thesis using presents_cases [OF assms(1)] by (auto simp: filter_empty_conv)
qed

lemma fill_now_done:
  assumes "\<forall>i \<in> set (pending s). presents (entries s) Toast i" and "within_visible s" and "distinct (pending s)"
  shows "pending (fill_now s) = [] \<or> length (active_toasts (fill_now s)) = max_visible_toasts (limits s)"
proof -
  let ?k = "max_visible_toasts (limits s) - length (active_toasts s)"
  have t: "next_toasts s = take ?k (pending s)"
    using assms(1) by (simp add: next_toasts_def filter_True)
  show ?thesis
  proof (cases "length (pending s) \<le> ?k")
    case True
    then have "next_toasts s = pending s" using t by simp
    then show ?thesis by (simp add: fill_now_def filter_False)
  next
    case False
    then have "length (next_toasts s) = ?k" using t by simp
    with assms(2) show ?thesis by (simp add: fill_now_def within_visible_def)
  qed
qed

lemma rebalance_filled:
  assumes "wf_core s" and "within_visible s"
  shows "slots_filled (rebalance_spec now w s)"
proof -
  let ?p = "promote_spec s" and ?r = "rebalance_spec now w s"
  have att: "active_attention ?r = active_attention ?p"
    and pend: "pending ?r = pending (fill_spec ?p)" and act: "active_toasts ?r = active_toasts (fill_spec ?p)"
    by (simp_all add: rebalance_spec_def frame_simps)
  show ?thesis
    unfolding slots_filled_def
  proof
    assume d: "display_available ?r \<and> active_attention ?r = None"
    then have "fill_spec ?p = fill_now ?p" by (simp add: fill_spec_def frame_simps att)
    moreover have toasts: "\<forall>i \<in> set (pending ?p). presents (entries s) Toast i"
      using promote_spec_done [OF assms(1)] d att by (simp add: frame_simps)
    moreover have "pending (fill_now ?p) = [] \<or> length (active_toasts (fill_now ?p)) = max_visible_toasts (limits ?p)"
      by (rule fill_now_done)
        (use toasts assms(2) in \<open>simp_all add: frame_simps within_visible_def wf_core_distinct_pending promote_spec_wf assms(1)\<close>)
    ultimately show "(\<forall>i \<in> set (pending ?r). presents (entries ?r) Toast i)
        \<and> (pending ?r = [] \<or> length (active_toasts ?r) = max_visible_toasts (limits ?r))"
      using pend act by (auto simp: frame_simps rebalance_presents fill_now_def)
  qed
qed

lemma settle_timer_running: "settle_timer now r t = Remaining d x \<Longrightarrow> x \<noteq> None \<longleftrightarrow> r"
  by (cases "(now, r, t)" rule: settle_timer.cases; cases r) auto

lemma settle_spec_settled:
  assumes "wf_core s"
  shows "timers_settled (settle_spec now s)"
  unfolding timers_settled_def
proof (intro allI impI)
  fix i e d r
  assume e: "entries (settle_spec now s) i = Some e" and r: "le_timeout e = Remaining d r"
  have same: "toast_timer_should_run (settle_spec now s) i = toast_timer_should_run s i"
    by (simp add: toast_timer_should_run_def frame_simps)
  show "r \<noteq> None \<longleftrightarrow> toast_timer_should_run (settle_spec now s) i \<and> le_jump_nonce e = None"
  proof (cases "i \<in> set (active_toasts s)")
    case True
    with e obtain z where "e = z\<lparr>le_timeout :=
        settle_timer now (toast_timer_should_run s i \<and> le_jump_nonce z = None) (le_timeout z)\<rparr>"
      by (auto simp: settle_spec_def)
    then have "le_jump_nonce e = le_jump_nonce z"
      "le_timeout e = settle_timer now (toast_timer_should_run s i \<and> le_jump_nonce z = None) (le_timeout z)"
      by simp_all
    with r same settle_timer_running [of now _ "le_timeout z" d r] show ?thesis by metis
  next
    case False
    with e have "entries s i = Some e" by (simp add: settle_spec_def)
    with assms False have "timer_paused (le_timeout e)" by (auto simp: core_defs)
    with r False same show ?thesis by (cases r) (auto simp: toast_timer_should_run_def)
  qed
qed

lemma rebalance_settled: "wf_core s \<Longrightarrow> timers_settled (rebalance_spec now w s)"
  by (simp add: rebalance_spec_def settle_spec_settled spec_wf)

lemma rebalance_wf_sched:
  "wf_core s \<Longrightarrow> last_now s = now \<Longrightarrow> sorted_pending s \<Longrightarrow> within_visible s \<Longrightarrow> closed_bounded s
     \<Longrightarrow> wf_sched (rebalance_spec now w s)"
  by (simp add: wf_sched_def rebalance_spec_wf rebalance_sorted rebalance_within rebalance_filled
      closed_bounded_def frame_simps)

section \<open>Closing a Notification\<close>

lemma bump_frame [frame_simps]:
  "limits (bump_content_revision s) = limits s" "entries (bump_content_revision s) = entries s"
  "closed (bump_content_revision s) = closed s" "closed_capacity (bump_content_revision s) = closed_capacity s"
  "live_keys (bump_content_revision s) = live_keys s" "active_toasts (bump_content_revision s) = active_toasts s"
  "display_available (bump_content_revision s) = display_available s"
  "last_now (bump_content_revision s) = last_now s" "pending (bump_content_revision s) = pending s"
  "active_attention (bump_content_revision s) = active_attention s"
  "limits (bump_revision s) = limits s" "entries (bump_revision s) = entries s"
  "closed (bump_revision s) = closed s" "closed_capacity (bump_revision s) = closed_capacity s"
  "live_keys (bump_revision s) = live_keys s" "active_toasts (bump_revision s) = active_toasts s"
  "display_available (bump_revision s) = display_available s"
  "last_now (bump_revision s) = last_now s" "pending (bump_revision s) = pending s"
  "active_attention (bump_revision s) = active_attention s"
  by (simp_all add: bump_content_revision_def bump_revision_def)

lemma close_inner_None: "entries s i = None \<Longrightarrow> close_inner i r w s = s"
  by (simp add: close_inner_def)

lemma close_inner_entries: "entries (close_inner i r w s) = (entries s)(i := None)"
  by (auto simp: close_inner_def Let_def frame_simps fun_eq_iff split: option.splits)

lemma close_inner_frame [frame_simps]:
  "limits (close_inner i r w s) = limits s" "last_now (close_inner i r w s) = last_now s"
  "display_available (close_inner i r w s) = display_available s"
  "closed_capacity (close_inner i r w s) = closed_capacity s"
  by (simp_all add: close_inner_def Let_def frame_simps split: option.splits)

lemma close_inner_places:
  assumes "wf_core s"
  shows "pending (close_inner i r w s) = filter (\<lambda>c. c \<noteq> i) (pending s)"
    and "active_toasts (close_inner i r w s) = filter (\<lambda>c. c \<noteq> i) (active_toasts s)"
    and "active_attention (close_inner i r w s) = (if active_attention s = Some i then None else active_attention s)"
proof -
  have "i \<notin> set (pending s) \<and> i \<notin> set (active_toasts s) \<and> active_attention s \<noteq> Some i"
    if "entries s i = None"
    using that wf_core_located [OF assms, of i] by auto
  then show "pending (close_inner i r w s) = filter (\<lambda>c. c \<noteq> i) (pending s)"
    and "active_toasts (close_inner i r w s) = filter (\<lambda>c. c \<noteq> i) (active_toasts s)"
    and "active_attention (close_inner i r w s) = (if active_attention s = Some i then None else active_attention s)"
    by (auto simp: close_inner_def Let_def frame_simps split: option.splits intro!: filter_True [symmetric])
qed

lemma close_inner_closed:
  "entries s i = Some e \<Longrightarrow> closed (close_inner i r w s) =
     (if length (closed s) = closed_capacity s then tl (closed s) else closed s)
       @ [close_notification r w (le_notification e)]"
  by (auto simp: close_inner_def Let_def frame_simps split: option.splits)

lemma close_inner_keys:
  "entries s i = Some e \<Longrightarrow> live_keys (close_inner i r w s) =
     (case n_key (le_notification e) of Some k \<Rightarrow> (live_keys s)(k := None) | None \<Rightarrow> live_keys s)"
  by (auto simp: close_inner_def Let_def frame_simps split: option.splits)

lemma close_inner_wf:
  assumes "wf_core s"
  shows "wf_core (close_inner i r w s)"
proof (cases "entries s i")
  case None
  with assms show ?thesis by (simp add: close_inner_None)
next
  case (Some e)
  let ?t = "close_inner i r w s"
  note pl = close_inner_places [OF assms, of i r w] and en = close_inner_entries [of i r w s]
  have "located ?t = filter (\<lambda>c. c \<noteq> i) (located s)"
    by (simp add: located_def pl split: option.splits)
  then have "wf_places ?t"
    using assms by (auto simp: wf_core_def wf_places_def pl en presents_def split: if_splits)
  moreover have "wf_entries ?t"
    using assms by (auto simp: wf_core_def wf_entries_def wf_entry_def pl en frame_simps split: if_splits)
  moreover have "wf_keys ?t"
  proof -
    have key: "live_keys s k = Some j \<longleftrightarrow> (\<exists>e. entries s j = Some e \<and> n_key (le_notification e) = Some k)" for k j
      using assms by (simp add: wf_core_def wf_keys_def)
    show ?thesis
    proof (cases "n_key (le_notification e)")
      case None
      with Some key show ?thesis by (auto simp: wf_keys_def close_inner_keys en)
    next
      case (Some k)
      with key [of k i] \<open>entries s i = Some e\<close> have "live_keys s k = Some i" by auto
      then have uniq: "j = i" if "entries s j = Some e'" "n_key (le_notification e') = Some k" for j e'
        using that key [of k j] by auto
      have "(live_keys ?t k' = Some j) = (\<exists>e. entries ?t j = Some e \<and> n_key (le_notification e) = Some k')" for k' j
      proof (cases "k' = k")
        case True
        with Some \<open>entries s i = Some e\<close> uniq [of j] show ?thesis
          by (cases "j = i") (auto simp: close_inner_keys en)
      next
        case False
        with Some \<open>entries s i = Some e\<close> key [of k' j] show ?thesis
          by (cases "j = i") (auto simp: close_inner_keys en)
      qed
      then show ?thesis by (simp add: wf_keys_def)
    qed
  qed
  moreover have "wf_closed ?t"
  proof -
    have "wf_notification (le_notification e)" "n_delivery (le_notification e) \<noteq> Closed"
      using assms Some by (auto simp: core_defs)
    then have "wf_notification (close_notification r w (le_notification e))"
      by (simp add: close_notification_wf)
    then show ?thesis
      using assms Some
      by (cases "closed s") (auto simp: wf_core_def wf_closed_def close_inner_closed)
  qed
  ultimately show ?thesis by (simp add: wf_core_def)
qed

lemma close_inner_rank:
  "j \<noteq> i \<Longrightarrow> pending_rank_of (entries (close_inner i r w s)) j = pending_rank_of (entries s) j"
  by (simp add: pending_rank_of_def close_inner_entries)

lemma close_inner_sorted:
  assumes "wf_core s" and "sorted_pending s"
  shows "sorted_pending (close_inner i r w s)"
proof -
  have "map (pending_rank_of (entries (close_inner i r w s))) (filter (\<lambda>c. c \<noteq> i) (pending s))
     = map (pending_rank_of (entries s)) (filter (\<lambda>c. c \<noteq> i) (pending s))"
    by (auto simp: close_inner_rank)
  then show ?thesis
    using assms unfolding sorted_pending_def close_inner_places(1) [OF assms(1)]
    by (simp only: sorted_filter)
qed

lemma close_inner_within:
  assumes "wf_core s" and "within_visible s"
  shows "within_visible (close_inner i r w s)"
  using assms le_trans [OF length_filter_le]
  by (simp add: within_visible_def close_inner_places frame_simps)

lemma close_inner_bounded:
  assumes "closed_bounded s"
  shows "closed_bounded (close_inner i r w s)"
proof (cases "entries s i")
  case None
  with assms show ?thesis by (simp add: close_inner_None)
next
  case (Some e)
  with assms closed_capacity_pos [of "limits s"] show ?thesis
    by (auto simp: closed_bounded_def close_inner_closed frame_simps)
qed

lemma close_inner_pinned: "pinned_ids (close_inner i r w s) = pinned_ids s - {i}"
  by (auto simp: pinned_ids_def close_inner_entries split: if_splits)

text \<open>Closing a list of Notifications, one after the other.\<close>

abbreviation close_all :: "notification_id list \<Rightarrow> close_reason \<Rightarrow> wall_time \<Rightarrow> scheduler \<Rightarrow> scheduler" where
  "close_all ids r w s \<equiv> fold (\<lambda>i. close_inner i r w) ids s"

lemma close_all_wf: "wf_core s \<Longrightarrow> wf_core (close_all ids r w s)"
  by (induction ids arbitrary: s) (auto simp: close_inner_wf)

lemma close_all_frame [frame_simps]:
  "limits (close_all ids r w s) = limits s" "last_now (close_all ids r w s) = last_now s"
  "display_available (close_all ids r w s) = display_available s"
  "closed_capacity (close_all ids r w s) = closed_capacity s"
  by (induction ids arbitrary: s) (auto simp: frame_simps)

lemma close_all_entries:
  "entries (close_all ids r w s) = (\<lambda>i. if i \<in> set ids then None else entries s i)"
  by (induction ids arbitrary: s) (auto simp: close_inner_entries fun_eq_iff)

lemma close_all_sorted: "wf_core s \<Longrightarrow> sorted_pending s \<Longrightarrow> sorted_pending (close_all ids r w s)"
  by (induction ids arbitrary: s) (auto simp: close_inner_wf close_inner_sorted)

lemma close_all_within: "wf_core s \<Longrightarrow> within_visible s \<Longrightarrow> within_visible (close_all ids r w s)"
  by (induction ids arbitrary: s) (auto simp: close_inner_wf close_inner_within)

lemma close_all_bounded: "closed_bounded s \<Longrightarrow> closed_bounded (close_all ids r w s)"
  by (induction ids arbitrary: s) (auto simp: close_inner_bounded)

lemma close_all_pinned: "pinned_ids (close_all ids r w s) = pinned_ids s - set ids"
  by (auto simp: pinned_ids_def close_all_entries)

section \<open>The passage of time\<close>

definition prepare_spec :: "monotonic_time \<Rightarrow> wall_time \<Rightarrow> scheduler \<Rightarrow> scheduler" where
  "prepare_spec now w s = rebalance_spec now w (close_expired now w (s\<lparr>last_now := now\<rparr>))"

lemma timer_ok_mono: "timer_ok a t \<Longrightarrow> a \<le> b \<Longrightarrow> timer_ok b t"
  by (cases "(a, t)" rule: timer_ok.cases) auto

lemma last_now_wf:
  assumes "wf_core s" and "last_now s \<le> now"
  shows "wf_core (s\<lparr>last_now := now\<rparr>)"
proof -
  have "timer_ok now t" if "timer_ok (last_now s) t" for t
    using that assms(2) by (rule timer_ok_mono)
  with assms(1) show ?thesis by (auto simp: core_defs located_def)
qed

lemma close_expired_eq:
  "close_expired now w s = close_all (filter (has_expired s now) (active_toasts s)) TimedOut w s"
  by (simp add: close_expired_def)

lemma rebalance_empty:
  "pending s = [] \<Longrightarrow> active_toasts s = [] \<Longrightarrow> active_attention s = None \<Longrightarrow> rebalance_spec now w s = s"
  by (simp add: rebalance_spec_def promote_spec_def fill_spec_def fill_now_def next_toasts_def
      shown_spec_def shown_ids_def settle_spec_def)

text \<open>
  Time going backwards is refused before anything changes; otherwise the expired Toasts are closed
  and the displays rebalanced.
\<close>

lemma prepare_time_eq:
  assumes "wf_core s"
  shows "prepare_time now w s =
    (if now < last_now s then (Inl (Fail TimeWentBackwards), s) else (Inr (), prepare_spec now w s))"
proof (cases "now < last_now s")
  case True
  then show ?thesis by (simp add: prepare_time_def with_state_def elapsed_since_def raise_def)
next
  case False
  let ?c = "close_expired now w (s\<lparr>last_now := now\<rparr>)"
  have c: "wf_core ?c" "last_now ?c = now"
    using assms False by (simp_all add: close_expired_eq close_all_wf last_now_wf frame_simps)
  have "prepare_time now w s =
      (if active_toasts ?c \<noteq> [] \<or> active_attention ?c \<noteq> None \<or> pending ?c \<noteq> []
       then rebalance now w ?c else (Inr (), ?c))"
    using False by (simp add: prepare_time_def with_state_def elapsed_since_def modify_def ret_def
        then_op_def bind_op_def)
  also have "\<dots> = (Inr (), rebalance_spec now w ?c)"
    using rebalance_refines [OF c] rebalance_empty [of ?c now w] by auto
  finally show ?thesis using False by (simp add: prepare_spec_def)
qed

lemma prepare_spec_wf:
  assumes "wf_sched s" and "last_now s \<le> now"
  shows "wf_sched (prepare_spec now w s)" and "timers_settled (prepare_spec now w s)"
proof -
  let ?n = "s\<lparr>last_now := now\<rparr>"
  have n: "wf_core ?n" using assms by (simp add: wf_sched_core last_now_wf)
  moreover have "sorted_pending ?n" "within_visible ?n" "closed_bounded ?n"
    using assms(1) by (simp_all add: wf_sched_def sorted_pending_def within_visible_def closed_bounded_def)
  ultimately have "wf_core (close_expired now w ?n)" "sorted_pending (close_expired now w ?n)"
    "within_visible (close_expired now w ?n)" "last_now (close_expired now w ?n) = now"
    "closed_bounded (close_expired now w ?n)"
    by (simp_all add: close_expired_eq close_all_wf close_all_sorted close_all_within close_all_bounded
        frame_simps)
  then show "wf_sched (prepare_spec now w s)" "timers_settled (prepare_spec now w s)"
    by (simp_all add: prepare_spec_def rebalance_wf_sched rebalance_settled)
qed

lemma prepare_spec_frame [frame_simps]:
  "limits (prepare_spec now w s) = limits s" "last_now (prepare_spec now w s) = now"
  "display_available (prepare_spec now w s) = display_available s"
  "closed_capacity (prepare_spec now w s) = closed_capacity s"
  by (simp_all add: prepare_spec_def close_expired_eq frame_simps)

text \<open>The IDs that time out when the clock reaches \<open>now\<close>.\<close>

definition expired_ids :: "monotonic_time \<Rightarrow> scheduler \<Rightarrow> notification_id list" where
  "expired_ids now s = filter (has_expired s now) (active_toasts s)"

lemma has_expired_last_now [simp]: "has_expired (s\<lparr>last_now := t\<rparr>) now = has_expired s now"
  by (simp add: has_expired_def fun_eq_iff)

lemma prepare_dom: "dom (entries (prepare_spec now w s)) = dom (entries s) - set (expired_ids now s)"
  by (auto simp: prepare_spec_def rebalance_dom close_expired_eq close_all_entries expired_ids_def
      split: if_splits)

lemma prepare_pinned: "pinned_ids (prepare_spec now w s) \<subseteq> pinned_ids s"
proof -
  have "pinned_ids (s\<lparr>last_now := now\<rparr>) = pinned_ids s" by (simp add: pinned_ids_def)
  then show ?thesis by (auto simp: prepare_spec_def rebalance_pinned close_expired_eq close_all_pinned)
qed

end
