(* ===== verification/Scheduler_Ops.thy ===== *)
theory Scheduler_Ops
  imports Scheduler_Inv
begin

text \<open>
  The public operations of the live scheduler on well-formed states: each as an equation over the
  specification functions, and each keeping the invariant \<open>wf_sched\<close>. The one panic that can be
  reached is the \<open>expect\<close> of \<open>enforce_pending_limit\<close>, and the condition for it is exact.
\<close>

section \<open>Sorting and the pending limit\<close>

definition sort_spec :: "scheduler \<Rightarrow> scheduler" where
  "sort_spec s = s\<lparr>pending := sort_key (pending_rank_of (entries s)) (pending s)\<rparr>"

lemma sort_refines: "wf_core s \<Longrightarrow> sort_pending s = (Inr (), sort_spec s)"
  using wf_core_pending [of s]
  by (fastforce simp: sort_pending_def sort_spec_def with_state_def modify_def)

lemma sort_spec_frame [frame_simps]:
  "limits (sort_spec s) = limits s" "entries (sort_spec s) = entries s"
  "closed (sort_spec s) = closed s" "closed_capacity (sort_spec s) = closed_capacity s"
  "live_keys (sort_spec s) = live_keys s" "active_attention (sort_spec s) = active_attention s"
  "active_toasts (sort_spec s) = active_toasts s"
  "display_available (sort_spec s) = display_available s" "last_now (sort_spec s) = last_now s"
  by (simp_all add: sort_spec_def)

lemma sort_spec_wf: "wf_core s \<Longrightarrow> wf_core (sort_spec s)"
  by (rule wf_core_move [of s]) (auto simp: sort_spec_def located_def core_defs)

lemma sort_spec_sorted: "sorted_pending (sort_spec s)"
  by (simp add: sorted_pending_def sort_spec_def)

lemma sort_spec_id: "sorted_pending s \<Longrightarrow> sort_spec s = s"
  by (simp add: sorted_pending_def sort_spec_def sort_key_id_if_sorted)

definition is_unpinned :: "(notification_id \<rightharpoonup> live_entry) \<Rightarrow> notification_id \<Rightarrow> bool" where
  "is_unpinned es i \<longleftrightarrow> (case es i of Some e \<Rightarrow> le_jump_nonce e = None | None \<Rightarrow> False)"

definition pinned_pending :: "scheduler \<Rightarrow> nat" where
  "pinned_pending s = length (filter (\<lambda>i. \<not> is_unpinned (entries s) i) (pending s))"

text \<open>
  What does not fit: counted from the back of the queue, skipping the Notifications with a jump in
  flight.
\<close>

definition overflow :: "scheduler \<Rightarrow> notification_id list" where
  "overflow s = take (length (pending s) - max_pending (limits s))
     (filter (is_unpinned (entries s)) (rev (pending s)))"

lemma close_inner_after_remove:
  assumes "rest = filter (\<lambda>c. c \<noteq> i) (pending s)" and "entries s i \<noteq> None"
  shows "close_inner i r w (s\<lparr>pending := rest\<rparr>) = close_inner i r w s"
proof -
  obtain e where "entries s i = Some e" using assms(2) by blast
  then show ?thesis
    by (cases "n_key (le_notification e)")
      (simp_all add: close_inner_def assms(1) Let_def filter_filter bump_content_revision_def bump_revision_def)
qed

lemma unpinned_defined:
  "wf_core s \<Longrightarrow> \<forall>i \<in> set (pending s). unpinned s i = Some (is_unpinned (entries s) i)"
  by (auto simp: unpinned_def is_unpinned_def dest: wf_core_located(1))

lemma enforce_step:
  fixes w :: wall_time
  assumes "wf_core s" and "pending s = us @ y # vs" and "is_unpinned (entries s) y"
    and "\<forall>x \<in> set vs. \<not> is_unpinned (entries s) x" and more: "max_pending (limits s) < length (pending s)"
  defines "t \<equiv> close_inner y RenderSuppressed w s"
  shows "pending t = us @ vs" and "overflow s = y # overflow t" and "pinned_pending t = pinned_pending s"
    and "close_inner y RenderSuppressed w (s\<lparr>pending := us @ vs\<rparr>) = t"
proof -
  have d: "distinct (us @ y # vs)" using wf_core_distinct_pending [OF assms(1)] assms(2) by simp
  then have "filter (\<lambda>c. c \<noteq> y) us = us" "filter (\<lambda>c. c \<noteq> y) vs = vs" by (auto simp: filter_id_conv)
  then have rest: "filter (\<lambda>c. c \<noteq> y) (pending s) = us @ vs"
    using assms(2) by (auto simp: filter_id_conv)
  then show pend: "pending t = us @ vs" by (simp add: t_def close_inner_places [OF assms(1)])
  have y: "entries s y \<noteq> None" using assms(3) by (auto simp: is_unpinned_def split: option.splits)
  then show "close_inner y RenderSuppressed w (s\<lparr>pending := us @ vs\<rparr>) = t"
    using rest by (simp add: t_def close_inner_after_remove)
  have same: "is_unpinned (entries t) x = is_unpinned (entries s) x" if "x \<noteq> y" for x
    using that by (simp add: t_def is_unpinned_def close_inner_entries)
  have same_on: "is_unpinned (entries t) x = is_unpinned (entries s) x" if "x \<in> set us \<union> set vs" for x
    using same [of x] that d by (cases "x = y") auto
  then have vs: "filter (is_unpinned (entries t)) (rev vs) = []"
    using assms(4) by (auto simp: filter_empty_conv)
  have us: "filter (is_unpinned (entries t)) (rev us) = filter (is_unpinned (entries s)) (rev us)"
    by (rule filter_cong [OF refl]) (use same_on in simp)
  have sv: "filter (is_unpinned (entries s)) (rev vs) = []"
    using assms(4) by (auto simp: filter_empty_conv)
  have lim: "limits t = limits s" by (simp add: t_def frame_simps)
  obtain k where k: "length (pending s) - max_pending (limits s) = Suc k"
    using more by (metis Suc_diff_Suc)
  then have "length (pending t) - max_pending (limits s) = k" using pend assms(2) by simp
  then show "overflow s = y # overflow t"
    using k assms(2,3) vs us sv lim pend by (simp add: overflow_def)
  have "filter (\<lambda>i. \<not> is_unpinned (entries t) i) (us @ vs) = filter (\<lambda>i. \<not> is_unpinned (entries s) i) (us @ vs)"
    by (rule filter_cong [OF refl]) (use same_on in simp)
  then show "pinned_pending t = pinned_pending s"
    using pend assms(2,3) by (simp add: pinned_pending_def)
qed

lemma enforce_loop_eq:
  assumes "wf_core s"
  shows "if pinned_pending s \<le> max_pending (limits s)
     then enforce_loop w acc s = (Inr (acc @ overflow s), close_all (overflow s) RenderSuppressed w s)
     else fst (enforce_loop w acc s) = Inl Panic"
  using assms
proof (induction w acc s rule: enforce_loop.induct)
  case (1 w acc s)
  show ?case
  proof (cases "max_pending (limits s) < length (pending s)")
    case False
    moreover have "pinned_pending s \<le> length (pending s)" by (simp add: pinned_pending_def)
    ultimately show ?thesis by (subst (1 2) enforce_loop.simps) (simp add: overflow_def)
  next
    case more: True
    have un: "\<forall>x \<in> set (pending s). unpinned s x \<noteq> None"
      using unpinned_defined [OF "1.prems"] by simp
    from take_last_defined [OF un] consider
        (none) "take_last (unpinned s) (pending s) = Some None" "\<forall>x \<in> set (pending s). unpinned s x = Some False"
      | (some) us y vs where "pending s = us @ y # vs" "unpinned s y = Some True"
          "\<forall>x \<in> set vs. unpinned s x = Some False" "take_last (unpinned s) (pending s) = Some (Some (y, us @ vs))"
      by blast
    then show ?thesis
    proof cases
      case none
      then have "\<forall>x \<in> set (pending s). \<not> is_unpinned (entries s) x"
        using unpinned_defined [OF "1.prems"] by auto
      then have "pinned_pending s = length (pending s)" by (simp add: pinned_pending_def filter_True)
      with more none show ?thesis by (subst (1 2) enforce_loop.simps) simp
    next
      case some
      let ?t = "close_inner y RenderSuppressed w s"
      have y: "is_unpinned (entries s) y" and vs: "\<forall>x \<in> set vs. \<not> is_unpinned (entries s) x"
        using unpinned_defined [OF "1.prems"] some(1,2,3) by auto
      note st = enforce_step [OF "1.prems" some(1) y vs more, of w]
      have wf: "wf_core ?t" by (rule close_inner_wf) (rule "1.prems")
      have loop: "enforce_loop w acc s = enforce_loop w (acc @ [y]) ?t"
        using more some(4) st(4) by (subst enforce_loop.simps) simp
      have "if pinned_pending ?t \<le> max_pending (limits ?t)
          then enforce_loop w (acc @ [y]) ?t
            = (Inr ((acc @ [y]) @ overflow ?t), close_all (overflow ?t) RenderSuppressed w ?t)
          else fst (enforce_loop w (acc @ [y]) ?t) = Inl Panic"
        by (rule "1.IH" [OF more some(4) refl refl, unfolded st(4), OF wf])
      then show ?thesis unfolding loop st(2,3) by (simp add: st(2,3) frame_simps split: if_splits)
    qed
  qed
qed

lemma enforce_refines:
  "wf_core s \<Longrightarrow> pinned_pending s \<le> max_pending (limits s) \<Longrightarrow>
     enforce_pending_limit w s = (Inr (overflow s), close_all (overflow s) RenderSuppressed w s)"
  using enforce_loop_eq [of s w "[]"] by (simp add: enforce_pending_limit_def)

lemma enforce_panics:
  "wf_core s \<Longrightarrow> max_pending (limits s) < pinned_pending s \<Longrightarrow> fst (enforce_pending_limit w s) = Inl Panic"
  using enforce_loop_eq [of s w "[]"] by (simp add: enforce_pending_limit_def)

lemma overflow_sub: "set (overflow s) \<subseteq> set (pending s)"
  by (auto simp: overflow_def dest: in_set_takeD)

lemma overflow_distinct: "distinct (pending s) \<Longrightarrow> distinct (overflow s)"
  by (simp add: overflow_def)

lemma length_overflow:
  assumes "pinned_pending s \<le> max_pending (limits s)"
  shows "length (overflow s) = length (pending s) - max_pending (limits s)"
proof -
  have "length (filter (is_unpinned (entries s)) (rev (pending s))) + pinned_pending s = length (pending s)"
    using sum_length_filter_compl [of "is_unpinned (entries s)" "pending s"]
    by (simp add: pinned_pending_def flip: rev_filter)
  with assms show ?thesis by (simp add: overflow_def)
qed

section \<open>Preparing and closing\<close>

lemmas combinator_simps = then_op_def bind_op_def with_state_def modify_def ret_def raise_def

lemma prepare_time_step:
  "wf_sched s \<Longrightarrow> then_op (prepare_time now w) m s =
     (if now < last_now s then (Inl (Fail TimeWentBackwards), s) else m (prepare_spec now w s))"
  by (simp add: then_op_def bind_op_def prepare_time_eq wf_sched_core)

lemma bump_wf_core: "wf_core (bump_content_revision s) = wf_core s" "wf_core (bump_revision s) = wf_core s"
  by (simp_all add: core_defs located_def frame_simps)

lemma bump_wf_sched: "wf_sched (bump_content_revision s) = wf_sched s" "wf_sched (bump_revision s) = wf_sched s"
  by (simp_all add: wf_sched_def bump_wf_core sorted_pending_def within_visible_def slots_filled_def
      closed_bounded_def frame_simps)

lemma not_closed: "wf_core s \<Longrightarrow> entries s i = Some e \<Longrightarrow> n_delivery (le_notification e) \<noteq> Closed"
  by (auto simp: core_defs)

lemma close_eq:
  assumes "wf_sched s"
  shows "close i r now w s =
    (if now < last_now s then (Inl (Fail TimeWentBackwards), s)
     else let p = prepare_spec now w s in
       if entries p i = None then (Inl (Fail NotificationNotLive), p)
       else (Inr (), rebalance_spec now w (close_inner i r w p)))"
proof (cases "now < last_now s")
  case True
  with assms show ?thesis by (simp add: close_def prepare_time_step)
next
  case False
  let ?p = "prepare_spec now w s"
  have p: "wf_core ?p" using assms False by (simp add: prepare_spec_wf wf_sched_core)
  have "rebalance now w (close_inner i r w ?p) = (Inr (), rebalance_spec now w (close_inner i r w ?p))"
    by (rule rebalance_refines) (simp_all add: close_inner_wf p frame_simps)
  then show ?thesis
    using assms False not_closed [OF p]
    by (auto simp: close_def prepare_time_eq wf_sched_core combinator_simps Let_def split: option.splits)
qed

lemma close_state_wf:
  assumes "wf_sched p" and "last_now p = now"
  shows "wf_sched (rebalance_spec now w (close_inner i r w p))"
  using assms by (intro rebalance_wf_sched)
    (simp_all add: wf_sched_def close_inner_wf close_inner_sorted close_inner_within
      close_inner_bounded frame_simps)

lemma close_wf: "wf_sched s \<Longrightarrow> wf_sched (snd (close i r now w s))"
  by (simp add: close_eq Let_def close_state_wf prepare_spec_wf frame_simps)

lemma close_no_panic: "wf_sched s \<Longrightarrow> fst (close i r now w s) \<noteq> Inl Panic"
  by (simp add: close_eq Let_def)

section \<open>Partial updates\<close>

lemma restart_paused: "\<not> running \<Longrightarrow> timer_paused (timeout_restart t now running)"
  by (cases t) auto

lemma restart_ok: "timer_ok now (timeout_restart t now running)"
  by (cases t) auto

definition updated_entry ::
  "notification \<Rightarrow> scheduler \<Rightarrow> monotonic_time \<Rightarrow> notification_id \<Rightarrow> live_entry \<Rightarrow> live_entry" where
  "updated_entry n p now i e = e\<lparr>le_notification := n,
     le_timeout := timeout_restart (n_timeout n) now (toast_timer_should_run p i)\<rparr>"

lemma apply_update_unchanged: "\<not> fst (apply_update u w n) \<Longrightarrow> snd (apply_update u w n) = n"
  by (cases "n_presentation n"; cases n)
    (auto simp: apply_update_def Let_def split_beta replace_if_changed_fst replace_if_changed_snd)

lemma updated_entry_wf:
  assumes "wf_core p" and e: "entries p i = Some e" and n: "wf_notification n" "n_id n = i"
    "n_key n = n_key (le_notification e)" "n_presentation n = n_presentation (le_notification e)"
    "n_delivery n = n_delivery (le_notification e)" and "last_now p = now"
  shows "wf_core (p\<lparr>entries := (entries p)(i \<mapsto> updated_entry n p now i e)\<rparr>)"
proof (rule wf_core_entries [OF assms(1)])
  have "i \<notin> set (active_toasts p) \<Longrightarrow> \<not> toast_timer_should_run p i"
    by (simp add: toast_timer_should_run_def)
  then have "wf_entry p i (updated_entry n p now i e)" if "wf_entry p i e"
    using that assms by (simp add: wf_entry_def updated_entry_def restart_ok restart_paused)
  then show "wf_entry p j f' \<and> n_key (le_notification f') = n_key (le_notification f)
      \<and> n_presentation (le_notification f') = n_presentation (le_notification f)"
    if "entries p j = Some f" "((entries p)(i \<mapsto> updated_entry n p now i e)) j = Some f'" "wf_entry p j f" for j f f'
    using that e n by (cases "j = i") (auto simp: updated_entry_def)
qed (use e in auto)

definition update_spec ::
  "notification_id \<Rightarrow> notification_update \<Rightarrow> monotonic_time \<Rightarrow> wall_time \<Rightarrow> scheduler
     \<Rightarrow> (scheduler_error fault + update_disposition) \<times> scheduler" where
  "update_spec i u now w p =
     (case entries p i of
        None \<Rightarrow> (Inl (Fail NotificationNotLive), p)
      | Some e \<Rightarrow>
          let (changed, n) = apply_update u w (le_notification e) in
          if \<not> changed then (Inr UpdateDuplicate, p)
          else (Inr UpdateApplied, bump_content_revision
                 (sort_spec (p\<lparr>entries := (entries p)(i \<mapsto> updated_entry n p now i e)\<rparr>))))"

lemma scheduler_apply_update_eq:
  assumes "wf_core p" and "last_now p = now" and "wf_update u"
  shows "scheduler_apply_update i u now w p = update_spec i u now w p"
proof (cases "entries p i")
  case None
  then show ?thesis by (simp add: scheduler_apply_update_def update_spec_def combinator_simps)
next
  case (Some e)
  obtain c n where cn: "apply_update u w (le_notification e) = (c, n)" by fastforce
  show ?thesis
  proof (cases c)
    case False
    then have "n = le_notification e" using apply_update_unchanged [of u w "le_notification e"] cn by simp
    then have "p\<lparr>entries := (entries p)(i \<mapsto> e\<lparr>le_notification := n\<rparr>)\<rparr> = p"
      using Some by (simp add: fun_upd_idem)
    with Some cn False show ?thesis
      by (simp add: scheduler_apply_update_def update_spec_def combinator_simps)
  next
    case True
    let ?q = "p\<lparr>entries := (entries p)(i \<mapsto> updated_entry n p now i e)\<rparr>"
    have en: "wf_notification (le_notification e)" "n_id (le_notification e) = i"
      using assms(1) Some by (auto simp: core_defs)
    have n: "n = snd (apply_update u w (le_notification e))" using cn by simp
    have "wf_core ?q"
      by (rule updated_entry_wf [OF assms(1) Some])
        (simp_all add: n apply_update_wf assms(2,3) en)
    then have "sort_pending ?q = (Inr (), sort_spec ?q)" by (rule sort_refines)
    then show ?thesis
      using Some cn True
      by (simp add: scheduler_apply_update_def update_spec_def combinator_simps with_entry_def updated_entry_def)
  qed
qed

lemma update_spec_wf:
  assumes "wf_sched p" and "last_now p = now" and "wf_update u"
  shows "wf_sched (snd (update_spec i u now w p))"
proof (cases "entries p i")
  case None
  with assms show ?thesis by (simp add: update_spec_def)
next
  case (Some e)
  obtain c n where cn: "apply_update u w (le_notification e) = (c, n)" by fastforce
  let ?q = "p\<lparr>entries := (entries p)(i \<mapsto> updated_entry n p now i e)\<rparr>"
  have en: "wf_notification (le_notification e)" "n_id (le_notification e) = i"
    using assms(1) Some by (auto simp: wf_sched_def core_defs)
  have n: "n = snd (apply_update u w (le_notification e))" using cn by simp
  have q: "wf_core ?q"
    by (rule updated_entry_wf [OF wf_sched_core [OF assms(1)] Some])
      (simp_all add: n apply_update_wf assms(2,3) en)
  have "presents (entries ?q) pr j = presents (entries p) pr j" for pr j
    using Some n by (auto simp: presents_def updated_entry_def)
  then have "slots_filled (sort_spec ?q)" "within_visible (sort_spec ?q)" "closed_bounded (sort_spec ?q)"
    using assms(1) by (auto simp: wf_sched_def slots_filled_def within_visible_def closed_bounded_def
        frame_simps sort_spec_def
        dest: arg_cong [of "sort_key _ _" "[]" length])
  then have "wf_sched (sort_spec ?q)"
    by (simp add: wf_sched_def sort_spec_wf sort_spec_sorted q)
  with assms(1) Some cn show ?thesis by (simp add: update_spec_def bump_wf_sched)
qed

lemma update_eq:
  assumes "wf_sched s" and "wf_update u"
  shows "update i u now w s =
    (if now < last_now s then (Inl (Fail TimeWentBackwards), s)
     else update_spec i u now w (prepare_spec now w s))"
  using assms by (simp add: update_def prepare_time_step scheduler_apply_update_eq
      wf_sched_core prepare_spec_wf frame_simps)

lemma update_by_key_eq:
  assumes "wf_sched s" and "wf_update u"
  shows "update_by_key key u now w s =
    (if now < last_now s then (Inl (Fail TimeWentBackwards), s)
     else let p = prepare_spec now w s in
       case live_keys p key of
         None \<Rightarrow> (Inl (Fail KeyNotLive), p)
       | Some i \<Rightarrow> update_spec i u now w p)"
  using assms by (simp add: update_by_key_def prepare_time_step key_or_fail_def with_state_def
      raise_def Let_def scheduler_apply_update_eq wf_sched_core prepare_spec_wf frame_simps
      split: option.splits)

lemma update_wf: "wf_sched s \<Longrightarrow> wf_update u \<Longrightarrow> wf_sched (snd (update i u now w s))"
  by (simp add: update_eq update_spec_wf prepare_spec_wf frame_simps)

lemma update_by_key_wf: "wf_sched s \<Longrightarrow> wf_update u \<Longrightarrow> wf_sched (snd (update_by_key k u now w s))"
  by (simp add: update_by_key_eq update_spec_wf prepare_spec_wf frame_simps Let_def split: option.splits)

lemma update_spec_no_panic: "fst (update_spec i u now w p) \<noteq> Inl Panic"
  by (simp add: update_spec_def Let_def split: option.splits prod.splits)

section \<open>Submitting\<close>

lemma wf_keysD: "wf_core s \<Longrightarrow> live_keys s k = Some i
    \<longleftrightarrow> (\<exists>e. entries s i = Some e \<and> n_key (le_notification e) = Some k)"
  by (simp add: wf_core_def wf_keys_def)

definition to_pending :: "notification_id \<Rightarrow> scheduler \<Rightarrow> scheduler" where
  "to_pending i s = s\<lparr>pending := filter (\<lambda>c. c \<noteq> i) (pending s) @ [i],
     active_toasts := filter (\<lambda>c. c \<noteq> i) (active_toasts s),
     active_attention := (if active_attention s = Some i then None else active_attention s)\<rparr>"

definition replace_spec ::
  "notification_draft \<Rightarrow> monotonic_time \<Rightarrow> wall_time \<Rightarrow> notification_id \<Rightarrow> live_entry \<Rightarrow> scheduler \<Rightarrow> scheduler" where
  "replace_spec draft now w i e p =
     (let n = replace_content draft w (le_notification e);
          q = p\<lparr>entries := (entries p)(i \<mapsto> updated_entry n p now i e)\<rparr>
      in if n_presentation n \<noteq> n_presentation (le_notification e) then to_pending i q else q)"

lemma moved_entry_wf:
  fixes now :: monotonic_time and w :: wall_time
  assumes "wf_core p" and e: "entries p i = Some e" and d: "wf_draft draft"
    and key: "d_key draft = n_key (le_notification e)"
    and moved: "d_presentation draft \<noteq> n_presentation (le_notification e)"
  defines "n \<equiv> replace_content draft w (le_notification e)"
  defines "q \<equiv> to_pending i (p\<lparr>entries := (entries p)(i \<mapsto> updated_entry n p now i e)\<rparr>)"
  shows "wf_core q"
proof -
  have en: "wf_entry p i e" using assms(1) e by (auto simp: core_defs)
  have loc: "i \<in> set (located p)" using assms(1) e by (auto simp: core_defs)
  have paused: "timer_paused (le_timeout (updated_entry n p now i e))"
  proof (cases "toast_timer_should_run p i")
    case True
    then have "presents (entries p) Toast i"
      using assms(1) by (auto simp: toast_timer_should_run_def core_defs)
    then have "n_presentation (le_notification e) = Toast" using e by (simp add: presents_def)
    with moved have "d_presentation draft = Attention" by (cases "d_presentation draft") auto
    with d have "d_timeout draft = Never" by (simp add: wf_defs)
    then show ?thesis by (simp add: updated_entry_def n_def)
  qed (simp add: updated_entry_def restart_paused)
  have t: "timer_ok (last_now p) (le_timeout (updated_entry n p now i e))"
    using paused by (cases "(last_now p, le_timeout (updated_entry n p now i e))" rule: timer_ok.cases) auto
  have "wf_places q"
  proof -
    have "distinct (located p)" using assms(1) by (simp add: wf_core_def wf_places_def)
    then have "distinct (located q)" "set (located q) = set (located p)"
      using loc by (auto simp: q_def to_pending_def located_def split: option.splits)
    moreover have "dom (entries q) = dom (entries p)"
      using e by (auto simp: q_def to_pending_def)
    moreover have "presents (entries q) pr j = presents (entries p) pr j" if "j \<noteq> i" for pr j
      using that by (simp add: presents_def q_def to_pending_def)
    ultimately show ?thesis
      using assms(1) by (auto simp: wf_core_def wf_places_def) (auto simp: q_def to_pending_def split: if_splits)
  qed
  moreover have "wf_entries q"
    using assms(1) en paused t d key
    by (auto simp: wf_core_def wf_entries_def wf_entry_def q_def to_pending_def updated_entry_def n_def
        replace_content_wf)
  moreover have "wf_keys q"
    using assms(1) e key
    by (auto simp: wf_core_def wf_keys_def q_def to_pending_def updated_entry_def n_def)
  moreover have "wf_closed q" using assms(1) by (simp add: wf_core_def wf_closed_def q_def to_pending_def)
  ultimately show ?thesis by (simp add: wf_core_def)
qed

lemma replace_spec_wf:
  assumes "wf_core p" and "entries p i = Some e" and "wf_draft draft"
    and "d_key draft = n_key (le_notification e)" and "last_now p = now"
  shows "wf_core (replace_spec draft now w i e p)"
proof (cases "d_presentation draft = n_presentation (le_notification e)")
  case True
  have "wf_notification (le_notification e)" "n_id (le_notification e) = i"
    using assms by (auto simp: core_defs)
  with True assms have "wf_core (p\<lparr>entries := (entries p)(i \<mapsto>
      updated_entry (replace_content draft w (le_notification e)) p now i e)\<rparr>)"
    by (intro updated_entry_wf) (simp_all add: replace_content_wf)
  with True show ?thesis by (simp add: replace_spec_def Let_def)
next
  case False
  then show ?thesis
    using moved_entry_wf [OF assms(1-4) False] by (simp add: replace_spec_def Let_def)
qed

lemma replace_spec_frame [frame_simps]:
  "limits (replace_spec d now w i e p) = limits p"
  "last_now (replace_spec d now w i e p) = last_now p"
  "closed (replace_spec d now w i e p) = closed p"
  "closed_capacity (replace_spec d now w i e p) = closed_capacity p"
  "display_available (replace_spec d now w i e p) = display_available p"
  by (simp_all add: replace_spec_def to_pending_def Let_def)

lemma replace_spec_within: "within_visible p \<Longrightarrow> within_visible (replace_spec d now w i e p)"
  by (auto simp: within_visible_def replace_spec_def to_pending_def Let_def
      intro: le_trans [OF length_filter_le])

definition keyed_spec ::
  "notification_draft \<Rightarrow> monotonic_time \<Rightarrow> wall_time \<Rightarrow> notification_id \<Rightarrow> live_entry \<Rightarrow> scheduler
     \<Rightarrow> (scheduler_error fault + submit_outcome) \<times> scheduler" where
  "keyed_spec draft now w i e p =
     (if has_same_content (le_notification e) draft then (Inr \<lparr>so_id = i, so_disposition = Duplicate\<rparr>, p)
      else (Inr \<lparr>so_id = i, so_disposition = Updated\<rparr>,
            bump_content_revision (rebalance_spec now w (sort_spec (replace_spec draft now w i e p)))))"

lemma submit_keyed_eq:
  assumes "wf_core p" and e: "entries p i = Some e" and "wf_draft draft"
    and "d_key draft = n_key (le_notification e)" and "last_now p = now"
  shows "submit_keyed i draft now w p = keyed_spec draft now w i e p"
proof -
  let ?q = "replace_spec draft now w i e p"
  have q: "wf_core ?q" using assms by (rule replace_spec_wf)
  have sorted: "sort_pending ?q = (Inr (), sort_spec ?q)" by (rule sort_refines) (rule q)
  have reb: "rebalance now w (sort_spec ?q) = (Inr (), rebalance_spec now w (sort_spec ?q))"
    by (rule rebalance_refines) (simp_all add: q sort_spec_wf frame_simps assms(5))
  show ?thesis
    using e sorted reb
    by (cases "d_presentation draft = n_presentation (le_notification e)")
      (simp_all add: submit_keyed_def keyed_spec_def combinator_simps Let_def updated_entry_def
        replace_spec_def to_pending_def)
qed

lemma keyed_spec_wf:
  assumes "wf_sched p" and "entries p i = Some e" and "wf_draft draft"
    and "d_key draft = n_key (le_notification e)" and "last_now p = now"
  shows "wf_sched (snd (keyed_spec draft now w i e p))"
proof -
  have "wf_core (replace_spec draft now w i e p)"
    using assms by (intro replace_spec_wf wf_sched_core)
  moreover have "within_visible (replace_spec draft now w i e p)"
    using assms(1) by (simp add: wf_sched_def replace_spec_within)
  moreover have "closed_bounded p" using assms(1) by (simp add: wf_sched_def)
  ultimately show ?thesis
    using assms(1,5)
    by (simp add: keyed_spec_def bump_wf_sched rebalance_wf_sched sort_spec_wf sort_spec_sorted frame_simps
        within_visible_def closed_bounded_def)
qed

lemma enqueue_new_wf:
  assumes "wf_core p" and fresh: "entries p new_id = None" and d: "wf_draft draft"
    and key: "Option.bind (d_key draft) (live_keys p) = None"
  shows "wf_core (enqueue_new new_id draft w p)"
proof -
  let ?q = "enqueue_new new_id draft w p"
  have new: "new_id \<notin> set (located p)" using assms(1) fresh by (auto simp: core_defs)
  have q: "pending ?q = pending p @ [new_id]" "active_toasts ?q = active_toasts p"
    "active_attention ?q = active_attention p" "last_now ?q = last_now p" "limits ?q = limits p"
    "closed ?q = closed p" "closed_capacity ?q = closed_capacity p"
    by (simp_all add: enqueue_new_def Let_def)
  have en: "entries ?q j = (if j = new_id then Some \<lparr>le_notification = from_draft new_id draft w,
      le_sequence = next_sequence p, le_timeout = timeout_state_new (d_timeout draft), le_jump_nonce = None\<rparr>
      else entries p j)" for j
    by (simp add: enqueue_new_def Let_def)
  have "timer_paused (timeout_state_new t)" "timer_ok now (timeout_state_new t)" for t now
    by (cases t; simp)+
  then have "wf_entries ?q"
    using assms(1) d new by (auto simp: wf_core_def wf_entries_def wf_entry_def q en from_draft_wf)
  moreover have "wf_places ?q"
  proof -
    have "dom (entries ?q) = insert new_id (dom (entries p))" by (auto simp: en dom_def)
    moreover have "set (located ?q) = insert new_id (set (located p))" "distinct (located ?q)"
      using assms(1) new by (auto simp: wf_core_def wf_places_def located_def q split: option.splits)
    moreover have "presents (entries p) pr j \<Longrightarrow> presents (entries ?q) pr j" for pr j
      using fresh by (auto simp: presents_def en)
    ultimately show ?thesis using assms(1) by (auto simp: wf_core_def wf_places_def q)
  qed
  moreover have "wf_keys ?q"
  proof -
    have lk: "live_keys ?q = (case d_key draft of Some k \<Rightarrow> (live_keys p)(k \<mapsto> new_id) | None \<Rightarrow> live_keys p)"
      by (simp add: enqueue_new_def Let_def)
    have old: "live_keys p k = Some j \<longleftrightarrow> (\<exists>e. entries p j = Some e \<and> n_key (le_notification e) = Some k)" for k j
      by (rule wf_keysD) (rule assms(1))
    show ?thesis
    proof (cases "d_key draft")
      case None
      then show ?thesis using old fresh by (auto simp: wf_keys_def lk en)
    next
      case (Some k)
      with key have "live_keys p k = None" by simp
      with old [of k] have "\<not> (\<exists>j e. entries p j = Some e \<and> n_key (le_notification e) = Some k)" by auto
      with Some old fresh show ?thesis by (auto simp: wf_keys_def lk en)
    qed
  qed
  moreover have "wf_closed ?q" using assms(1) by (simp add: wf_core_def wf_closed_def q)
  ultimately show ?thesis by (simp add: wf_core_def)
qed

definition queued_spec ::
  "notification_id \<Rightarrow> notification_draft \<Rightarrow> monotonic_time \<Rightarrow> wall_time \<Rightarrow> scheduler \<Rightarrow> scheduler" where
  "queued_spec new_id draft now w p = rebalance_spec now w (sort_spec (enqueue_new new_id draft w p))"

lemma queued_spec_wf:
  assumes "wf_sched p" and "entries p new_id = None" and "wf_draft draft"
    and "Option.bind (d_key draft) (live_keys p) = None" and "last_now p = now"
  shows "wf_sched (queued_spec new_id draft now w p)"
proof -
  have "wf_core (enqueue_new new_id draft w p)"
    using assms by (intro enqueue_new_wf wf_sched_core)
  moreover have "within_visible (enqueue_new new_id draft w p)" "last_now (enqueue_new new_id draft w p) = now"
    "closed_bounded (enqueue_new new_id draft w p)"
    using assms(1,5) by (simp_all add: wf_sched_def within_visible_def closed_bounded_def enqueue_new_def Let_def)
  ultimately show ?thesis
    by (simp add: queued_spec_def rebalance_wf_sched sort_spec_wf sort_spec_sorted frame_simps
        within_visible_def closed_bounded_def)
qed

definition outcome_of :: "notification_id \<Rightarrow> notification_id list \<Rightarrow> scheduler \<Rightarrow> submit_outcome" where
  "outcome_of i suppressed s = \<lparr>so_id = i, so_disposition =
     (if i \<in> set suppressed then Suppressed else if is_desired_visible s i then ShownNow else Queued)\<rparr>"

lemma submit_new_eq:
  fixes w :: wall_time
  assumes "wf_sched p" and "entries p new_id = None" and "wf_draft draft"
    and "Option.bind (d_key draft) (live_keys p) = None" and "last_now p = now"
  defines "q \<equiv> queued_spec new_id draft now w p"
  defines "t \<equiv> close_all (overflow q) RenderSuppressed w q"
  shows "pinned_pending q \<le> max_pending (limits q) \<Longrightarrow>
      submit_new new_id draft now w p = (Inr (outcome_of new_id (overflow q) t), bump_content_revision t)"
    and "max_pending (limits q) < pinned_pending q \<Longrightarrow> fst (submit_new new_id draft now w p) = Inl Panic"
proof -
  let ?n = "enqueue_new new_id draft w p"
  have n: "wf_core ?n" "last_now ?n = now"
    using assms(1-5) by (auto intro: enqueue_new_wf wf_sched_core) (simp add: enqueue_new_def Let_def)
  have sorted: "sort_pending ?n = (Inr (), sort_spec ?n)" by (rule sort_refines) (rule n)
  have reb: "rebalance now w (sort_spec ?n) = (Inr (), q)"
    unfolding q_def queued_spec_def
    by (rule rebalance_refines) (simp_all add: n sort_spec_wf frame_simps)
  have q: "wf_core q" unfolding q_def using assms(1-5) by (intro wf_sched_core queued_spec_wf)
  have visible: "is_desired_visible (bump_content_revision t) i = is_desired_visible t i" for i
    by (simp add: is_desired_visible_def frame_simps)
  show "submit_new new_id draft now w p = (Inr (outcome_of new_id (overflow q) t), bump_content_revision t)"
    if "pinned_pending q \<le> max_pending (limits q)"
    using that sorted reb enforce_refines [OF q that, of w]
    by (simp add: submit_new_def combinator_simps outcome_of_def t_def [symmetric] visible)
  show "fst (submit_new new_id draft now w p) = Inl Panic" if "max_pending (limits q) < pinned_pending q"
    using sorted reb enforce_panics [OF q that, of w]
    by (auto simp: submit_new_def combinator_simps split: prod.splits)
qed

text \<open>Suppressing what does not fit leaves the displays alone.\<close>

lemma close_all_places:
  assumes "wf_core s"
  shows "pending (close_all ids r w s) = filter (\<lambda>c. c \<notin> set ids) (pending s)
    \<and> active_toasts (close_all ids r w s) = filter (\<lambda>c. c \<notin> set ids) (active_toasts s)
    \<and> active_attention (close_all ids r w s) =
      (case active_attention s of Some a \<Rightarrow> if a \<in> set ids then None else Some a | None \<Rightarrow> None)"
  using assms
proof (induction ids arbitrary: s)
  case Nil
  then show ?case by (simp split: option.splits)
next
  case (Cons i ids)
  note IH = Cons.IH [OF close_inner_wf [OF Cons.prems], of i r w]
  have "pending (close_all (i # ids) r w s) = filter (\<lambda>c. c \<notin> set (i # ids)) (pending s)"
    using IH by (simp add: close_inner_places(1) [OF Cons.prems])
  moreover have "active_toasts (close_all (i # ids) r w s) = filter (\<lambda>c. c \<notin> set (i # ids)) (active_toasts s)"
    using IH by (simp add: close_inner_places(2) [OF Cons.prems])
  moreover have "active_attention (close_all (i # ids) r w s) =
      (case active_attention s of Some a \<Rightarrow> if a \<in> set (i # ids) then None else Some a | None \<Rightarrow> None)"
    using IH by (cases "active_attention s") (simp_all add: close_inner_places(3) [OF Cons.prems])
  ultimately show ?case by blast
qed

lemma overflow_closed_places:
  assumes "wf_core q"
  shows "active_toasts (close_all (overflow q) r w q) = active_toasts q"
    "active_attention (close_all (overflow q) r w q) = active_attention q"
proof -
  have "set (overflow q) \<inter> set (active_toasts q) = {}"
    and "\<And>a. active_attention q = Some a \<Longrightarrow> a \<notin> set (overflow q)"
    using assms overflow_sub [of q] by (auto simp: core_defs located_def)
  then show "active_toasts (close_all (overflow q) r w q) = active_toasts q"
    "active_attention (close_all (overflow q) r w q) = active_attention q"
    by (auto simp: close_all_places [OF assms] filter_id_conv split: option.splits)
qed

lemma overflow_closed_filled:
  assumes "wf_core q" and "slots_filled q"
  shows "slots_filled (close_all (overflow q) r w q)"
proof -
  let ?t = "close_all (overflow q) r w q"
  have "presents (entries ?t) pr j" if "presents (entries q) pr j" "j \<in> set (pending ?t)" for pr j
    using that by (auto simp: presents_def close_all_entries close_all_places [OF assms(1)])
  then show ?thesis
    using assms(2) overflow_closed_places [OF assms(1), of r w]
    by (auto simp: slots_filled_def frame_simps close_all_places [OF assms(1)])
qed

lemma overflow_closed_wf:
  assumes "wf_sched q"
  shows "wf_sched (close_all (overflow q) r w q)"
  using assms overflow_closed_filled [OF wf_sched_core [OF assms]]
  by (simp add: wf_sched_def close_all_wf close_all_sorted close_all_within close_all_bounded)

lemma overflow_closed_length:
  assumes "wf_core q" and "pinned_pending q \<le> max_pending (limits q)"
  shows "length (pending (close_all (overflow q) r w q)) \<le> max_pending (limits q)"
proof -
  have "length (pending (close_all (overflow q) r w q))
      = length (filter (\<lambda>c. c \<notin> set (overflow q)) (pending q))"
    by (simp add: close_all_places [OF assms(1)])
  also have "\<dots> = card (set (pending q) - set (overflow q))"
    using wf_core_distinct_pending [OF assms(1)]
    by (auto simp: distinct_length_filter intro: arg_cong [where f = card])
  also have "\<dots> = length (pending q) - length (overflow q)"
    using wf_core_distinct_pending [OF assms(1)] overflow_sub [of q]
    by (simp add: card_Diff_subset distinct_card overflow_distinct)
  finally show ?thesis using length_overflow [OF assms(2)] by simp
qed

lemma pinned_pending_le:
  assumes "wf_core s"
  shows "pinned_pending s \<le> card (pinned_ids s)"
proof -
  have "pinned_pending s = card (set (filter (\<lambda>i. \<not> is_unpinned (entries s) i) (pending s)))"
    using wf_core_distinct_pending [OF assms] by (simp add: pinned_pending_def distinct_card del: set_filter)
  also have "\<dots> \<le> card (pinned_ids s)"
    using wf_core_located(1) [OF assms]
    by (intro card_mono finite_pinned assms) (fastforce simp: pinned_ids_def is_unpinned_def)
  finally show ?thesis .
qed

lemma queued_spec_pinned:
  assumes "entries p new_id = None"
  shows "pinned_ids (queued_spec new_id draft now w p) = pinned_ids p"
proof -
  have "pinned_ids (sort_spec (enqueue_new new_id draft w p)) = pinned_ids p"
    using assms by (auto simp: pinned_ids_def frame_simps enqueue_new_def Let_def split: if_splits)
  then show ?thesis by (simp add: queued_spec_def rebalance_pinned)
qed

lemma queued_spec_frame [frame_simps]:
  "limits (queued_spec new_id draft now w p) = limits p"
  "last_now (queued_spec new_id draft now w p) = last_now p"
  "closed (queued_spec new_id draft now w p) = closed p"
  "display_available (queued_spec new_id draft now w p) = display_available p"
  by (simp_all add: queued_spec_def frame_simps) (simp_all add: enqueue_new_def Let_def)

definition submit_spec ::
  "notification_id \<Rightarrow> notification_draft \<Rightarrow> monotonic_time \<Rightarrow> wall_time \<Rightarrow> scheduler
     \<Rightarrow> (scheduler_error fault + submit_outcome) \<times> scheduler" where
  "submit_spec new_id draft now w p =
     (case Option.bind (d_key draft) (live_keys p) of
        Some i \<Rightarrow> (case entries p i of Some e \<Rightarrow> keyed_spec draft now w i e p | None \<Rightarrow> (Inl Panic, p))
      | None \<Rightarrow>
          let q = queued_spec new_id draft now w p;
              t = close_all (overflow q) RenderSuppressed w q
          in (Inr (outcome_of new_id (overflow q) t), bump_content_revision t))"

lemma bind_live_keys:
  assumes "wf_core p" and "Option.bind k (live_keys p) = Some i"
  obtains e where "entries p i = Some e" and "k = n_key (le_notification e)"
  using assms wf_keysD [OF assms(1)] by (cases k) auto

lemma submit_eq:
  assumes "wf_sched s" and "entries s new_id = None" and "wf_draft draft"
    and "card (pinned_ids s) \<le> max_pending (limits s)"
  shows "submit new_id draft now w s =
    (if now < last_now s then (Inl (Fail TimeWentBackwards), s)
     else submit_spec new_id draft now w (prepare_spec now w s))"
proof (cases "now < last_now s")
  case True
  with assms show ?thesis by (simp add: submit_def prepare_time_step)
next
  case False
  let ?p = "prepare_spec now w s"
  have p: "wf_sched ?p" "last_now ?p = now"
    using assms(1) False by (simp_all add: prepare_spec_wf frame_simps)
  have fresh: "entries ?p new_id = None"
    using assms(2) by (metis DiffD1 domIff prepare_dom)
  have unfold: "submit new_id draft now w s = (case Option.bind (d_key draft) (live_keys ?p) of
      Some i \<Rightarrow> submit_keyed i draft now w ?p | None \<Rightarrow> submit_new new_id draft now w ?p)"
    using assms(1) False by (simp add: submit_def prepare_time_step with_state_def split: option.splits)
  show ?thesis
  proof (cases "Option.bind (d_key draft) (live_keys ?p)")
    case None
    let ?q = "queued_spec new_id draft now w ?p"
    have "wf_core ?q" by (intro wf_sched_core queued_spec_wf p fresh assms(3) None)
    then have "pinned_pending ?q \<le> card (pinned_ids ?q)" by (rule pinned_pending_le)
    also have "\<dots> \<le> card (pinned_ids s)"
      using prepare_pinned [of now w s] finite_pinned [OF wf_sched_core [OF assms(1)]] fresh
      by (simp add: queued_spec_pinned card_mono)
    finally have "pinned_pending ?q \<le> max_pending (limits ?q)"
      using assms(4) by (simp add: frame_simps)
    from submit_new_eq(1) [OF p(1) fresh assms(3) None p(2) this] None False unfold show ?thesis
      by (simp add: submit_spec_def Let_def)
  next
    case (Some i)
    obtain e where "entries ?p i = Some e" "d_key draft = n_key (le_notification e)"
      using bind_live_keys [OF wf_sched_core [OF p(1)] Some] by blast
    with submit_keyed_eq [OF wf_sched_core [OF p(1)] this(1) assms(3) this(2) p(2)] Some False unfold
    show ?thesis by (simp add: submit_spec_def)
  qed
qed

lemma submit_spec_wf:
  assumes "wf_sched p" and "entries p new_id = None" and "wf_draft draft" and "last_now p = now"
  shows "wf_sched (snd (submit_spec new_id draft now w p))" and "fst (submit_spec new_id draft now w p) \<noteq> Inl Panic"
proof -
  show "wf_sched (snd (submit_spec new_id draft now w p))"
  proof (cases "Option.bind (d_key draft) (live_keys p)")
    case None
    with assms show ?thesis
      by (simp add: submit_spec_def Let_def bump_wf_sched overflow_closed_wf queued_spec_wf)
  next
    case (Some i)
    obtain e where "entries p i = Some e" "d_key draft = n_key (le_notification e)"
      using bind_live_keys [OF wf_sched_core [OF assms(1)] Some] by blast
    with Some assms show ?thesis by (simp add: submit_spec_def keyed_spec_wf)
  qed
  show "fst (submit_spec new_id draft now w p) \<noteq> Inl Panic"
  proof (cases "Option.bind (d_key draft) (live_keys p)")
    case (Some i)
    obtain e where "entries p i = Some e"
      using bind_live_keys [OF wf_sched_core [OF assms(1)] Some] by blast
    with Some show ?thesis by (simp add: submit_spec_def keyed_spec_def)
  qed (simp add: submit_spec_def Let_def)
qed

lemma submit_wf:
  assumes "wf_sched s" and "entries s new_id = None" and "wf_draft draft"
    and "card (pinned_ids s) \<le> max_pending (limits s)"
  shows "wf_sched (snd (submit new_id draft now w s))" and "fst (submit new_id draft now w s) \<noteq> Inl Panic"
proof -
  have "entries (prepare_spec now w s) new_id = None"
    using assms(2) by (metis DiffD1 domIff prepare_dom)
  then show "wf_sched (snd (submit new_id draft now w s))" "fst (submit new_id draft now w s) \<noteq> Inl Panic"
    using assms by (simp_all add: submit_eq submit_spec_wf prepare_spec_wf frame_simps)
qed

end
