(* ===== verification/Scheduler_Limits.thy ===== *)
theory Scheduler_Limits
  imports Scheduler_Ops
begin

text \<open>
  Display availability, live limit changes and shutdown of the scheduler, as equations over
  the specification functions, with the condition under which a limit change panics.
\<close>

section \<open>Display availability and limits\<close>

definition available_spec :: "bool \<Rightarrow> scheduler \<Rightarrow> scheduler" where
  "available_spec available s =
     (if display_available s \<noteq> available then bump_revision (s\<lparr>display_available := available\<rparr>) else s)"

lemma available_spec_wf: "wf_core s \<Longrightarrow> wf_core (available_spec a s)"
proof -
  assume "wf_core s"
  then have "wf_core (s\<lparr>display_available := a\<rparr>)"
    unfolding wf_core_def wf_places_def wf_entries_def wf_entry_def wf_keys_def wf_closed_def located_def
    by simp
  with \<open>wf_core s\<close> show ?thesis by (simp add: available_spec_def bump_wf_core)
qed

lemma available_spec_frame [frame_simps]:
  "limits (available_spec a s) = limits s" "last_now (available_spec a s) = last_now s"
  "pending (available_spec a s) = pending s" "entries (available_spec a s) = entries s"
  "active_toasts (available_spec a s) = active_toasts s" "closed (available_spec a s) = closed s"
  "closed_capacity (available_spec a s) = closed_capacity s"
  "active_attention (available_spec a s) = active_attention s"
  "display_available (available_spec a s) = a"
  by (auto simp: available_spec_def frame_simps)

lemma set_display_available_eq:
  assumes "wf_sched s"
  shows "set_display_available a now w s =
    (if now < last_now s then (Inl (Fail TimeWentBackwards), s)
     else (Inr (), rebalance_spec now w (available_spec a (prepare_spec now w s))))"
proof (cases "now < last_now s")
  case False
  let ?p = "available_spec a (prepare_spec now w s)"
  have "wf_core ?p" "last_now ?p = now"
    using assms False by (simp_all add: available_spec_wf wf_sched_core prepare_spec_wf frame_simps)
  then have "rebalance now w ?p = (Inr (), rebalance_spec now w ?p)" by (rule rebalance_refines)
  with assms False show ?thesis
    by (simp add: set_display_available_def prepare_time_eq wf_sched_core combinator_simps available_spec_def)
qed (simp add: set_display_available_def prepare_time_step assms)

lemma set_display_available_wf:
  assumes "wf_sched s"
  shows "wf_sched (snd (set_display_available a now w s))"
proof (cases "now < last_now s")
  case False
  let ?p = "prepare_spec now w s"
  have p: "wf_sched ?p" using assms False by (simp add: prepare_spec_wf)
  then have "wf_sched (rebalance_spec now w (available_spec a ?p))"
    by (intro rebalance_wf_sched)
      (simp_all add: wf_sched_def available_spec_wf sorted_pending_def within_visible_def closed_bounded_def
        frame_simps)
  with assms False show ?thesis by (simp add: set_display_available_eq)
qed (simp add: set_display_available_eq assms)

definition relimit :: "scheduler_limits \<Rightarrow> scheduler \<Rightarrow> scheduler" where
  "relimit l s = s\<lparr>limits := l, closed_capacity := closed_capacity_for l\<rparr>"

definition defer_spec :: "nat \<Rightarrow> monotonic_time \<Rightarrow> scheduler \<Rightarrow> scheduler" where
  "defer_spec visible now s =
     s\<lparr>entries := (\<lambda>i. if i \<in> set (drop visible (active_toasts s))
          then map_option (\<lambda>e. e\<lparr>le_timeout := settle_timer now False (le_timeout e)\<rparr>) (entries s i)
          else entries s i),
       active_toasts := take visible (active_toasts s),
       pending := pending s @ drop visible (active_toasts s)\<rparr>"

lemma relimit_wf: "wf_core s \<Longrightarrow> wf_core (relimit l s)"
  unfolding wf_core_def wf_places_def wf_entries_def wf_entry_def wf_keys_def wf_closed_def located_def
    relimit_def
  by simp

lemma defer_refines:
  assumes "wf_core s" and "last_now s = now"
  shows "defer_excess visible now s = (Inr (), defer_spec visible now s)"
proof (cases "visible < length (active_toasts s)")
  case False
  then show ?thesis by (simp add: defer_excess_def with_state_def ret_def defer_spec_def)
next
  case True
  let ?d = "drop visible (active_toasts s)"
  let ?s = "s\<lparr>active_toasts := take visible (active_toasts s)\<rparr>"
  have dist: "distinct ?d" using wf_core_active_distinct [OF assms(1)] by simp
  have ok: "\<exists>e. entries s i = Some e \<and> timer_ok now (le_timeout e)" if d: "i \<in> set ?d" for i
  proof -
    have "i \<in> set (active_toasts s)" using d by (rule in_set_dropD)
    from wf_core_located(2) [OF assms(1) this] obtain e where "entries s i = Some e" by blast
    with assms show ?thesis by (auto simp: core_defs)
  qed
  have "for_each ?d (\<lambda>i. set_timer now i False) ?s = (Inr (), ?s\<lparr>entries :=
      (\<lambda>i. if i \<in> set ?d then map_option (\<lambda>e. e\<lparr>le_timeout := settle_timer now False (le_timeout e)\<rparr>) (entries ?s i)
        else entries ?s i)\<rparr>)"
    by (rule for_each_entries [where ok = "\<lambda>i e. timer_ok now (le_timeout e)"])
      (use dist ok in \<open>auto simp: set_timer_ok\<close>)
  with True show ?thesis
    by (simp add: defer_excess_def combinator_simps Let_def defer_spec_def cong: if_cong)
qed

lemma defer_spec_frame [frame_simps]:
  "limits (defer_spec v now s) = limits s" "last_now (defer_spec v now s) = last_now s"
  "closed (defer_spec v now s) = closed s" "closed_capacity (defer_spec v now s) = closed_capacity s"
  "live_keys (defer_spec v now s) = live_keys s" "display_available (defer_spec v now s) = display_available s"
  by (simp_all add: defer_spec_def)

lemma relimit_frame [frame_simps]:
  "limits (relimit l s) = l" "last_now (relimit l s) = last_now s"
  "closed (relimit l s) = closed s" "closed_capacity (relimit l s) = closed_capacity_for l"
  "entries (relimit l s) = entries s" "pending (relimit l s) = pending s"
  "active_toasts (relimit l s) = active_toasts s" "display_available (relimit l s) = display_available s"
  by (simp_all add: relimit_def)

lemma defer_spec_wf:
  assumes "wf_core s" and "last_now s = now"
  shows "wf_core (defer_spec v now s)"
proof -
  let ?d = "drop v (active_toasts s)"
  let ?es = "\<lambda>i. if i \<in> set ?d
      then map_option (\<lambda>e. e\<lparr>le_timeout := settle_timer now False (le_timeout e)\<rparr>) (entries s i)
      else entries s i"
  let ?s = "s\<lparr>entries := ?es\<rparr>" and ?t = "defer_spec v now s"
  have s: "wf_core ?s"
    by (rule wf_core_entries [OF assms(1)])
      (use assms(2) in \<open>auto simp: wf_entry_def settle_timer_ok settle_timer_paused split: if_splits\<close>)
  have split: "set (active_toasts s) = set (take v (active_toasts s)) \<union> set ?d"
    by (metis append_take_drop_id set_append)
  define A D att where "A = take v (active_toasts s)" and "D = ?d"
    and "att = (case active_attention s of None \<Rightarrow> [] | Some a \<Rightarrow> [a])"
  have "active_toasts s = A @ D" by (simp add: A_def D_def)
  then have "located ?s = pending s @ (A @ D) @ att" by (simp add: located_def att_def)
  moreover have "located ?t = (pending s @ D) @ A @ att" by (simp add: located_def att_def A_def D_def defer_spec_def)
  moreover have "distinct (located ?s)" using s by (simp only: wf_core_def wf_places_def)
  ultimately have "distinct (located ?t)" "set (located ?t) = set (located ?s)" by auto
  moreover have "entries ?t = entries ?s" "active_attention ?t = active_attention ?s"
    "set (active_toasts ?t) \<subseteq> set (active_toasts ?s)"
    by (simp_all add: defer_spec_def split)
  moreover have "wf_places ?s" using s by (simp only: wf_core_def)
  ultimately have "wf_places ?t" unfolding wf_places_def by auto
  moreover have "timer_paused (le_timeout e)" if "?es i = Some e" "i \<notin> set (take v (active_toasts s))" for i e
  proof (cases "i \<in> set ?d")
    case True
    with that show ?thesis by (auto simp: settle_timer_paused)
  next
    case False
    with that split have "i \<notin> set (active_toasts s)" "entries s i = Some e" by auto
    with assms(1) show ?thesis by (auto simp: core_defs)
  qed
  then have "wf_entries ?t"
    using s by (auto simp: wf_core_def wf_entries_def wf_entry_def defer_spec_def)
  moreover have "wf_keys ?t" "wf_closed ?t"
    using s by (simp_all add: wf_core_def wf_keys_def wf_closed_def defer_spec_def)
  ultimately show ?thesis by (simp add: wf_core_def)
qed

definition relimited_spec :: "scheduler_limits \<Rightarrow> monotonic_time \<Rightarrow> wall_time \<Rightarrow> scheduler \<Rightarrow> scheduler" where
  "relimited_spec l now w p =
     rebalance_spec now w (sort_spec (defer_spec (max_visible_toasts l) now (relimit l p)))"

lemma relimited_spec_ok:
  fixes l :: scheduler_limits and w :: wall_time
  assumes "wf_sched p" and "last_now p = now"
  defines "q \<equiv> relimited_spec l now w p"
  shows "wf_core q" "sorted_pending q" "within_visible q" "slots_filled q" "limits q = l"
    "pinned_ids q = pinned_ids p" "last_now q = now" "closed_capacity q = closed_capacity_for l"
    "closed q = closed p"
proof -
  let ?r = "relimit l p" and ?d = "defer_spec (max_visible_toasts l) now (relimit l p)"
  have r: "wf_core ?r" "last_now ?r = now"
    using assms(1,2) by (simp_all add: relimit_wf wf_sched_core frame_simps)
  have d: "wf_core ?d" "last_now ?d = now" using r by (simp_all add: defer_spec_wf frame_simps)
  have v: "within_visible (sort_spec ?d)"
    by (simp add: within_visible_def frame_simps) (simp add: defer_spec_def)
  show "wf_core q" "sorted_pending q" "within_visible q" "slots_filled q"
    unfolding q_def relimited_spec_def
    using d v by (simp_all add: rebalance_spec_wf rebalance_sorted rebalance_within rebalance_filled
        sort_spec_wf sort_spec_sorted frame_simps)
  have "pinned_ids ?d = pinned_ids p"
    by (auto simp: pinned_ids_def defer_spec_def frame_simps split: if_splits)
  then show "pinned_ids q = pinned_ids p"
    by (simp add: q_def relimited_spec_def rebalance_pinned) (simp add: pinned_ids_def frame_simps)
  show "limits q = l" "last_now q = now" "closed_capacity q = closed_capacity_for l" "closed q = closed p"
    using assms(2) by (simp_all add: q_def relimited_spec_def frame_simps)
qed

text \<open>
  Lowering the pending limit under the number of queued Notifications that are pinned by a jump
  reaches the \<open>expect\<close>: nothing is left to suppress.
\<close>

definition relimit_panics :: "scheduler_limits \<Rightarrow> monotonic_time \<Rightarrow> wall_time \<Rightarrow> scheduler \<Rightarrow> bool" where
  "relimit_panics l now w p \<longleftrightarrow> limits p \<noteq> l \<and> max_pending l < pinned_pending (relimited_spec l now w p)"

definition update_limits_spec ::
  "scheduler_limits \<Rightarrow> monotonic_time \<Rightarrow> wall_time \<Rightarrow> scheduler \<Rightarrow> scheduler" where
  "update_limits_spec l now w p =
     (if limits p = l then p
      else let q = relimited_spec l now w p
           in bump_content_revision (truncate_closed (close_all (overflow q) RenderSuppressed w q)))"

lemma update_limits_steps:
  assumes "wf_sched p" and "last_now p = now"
  shows "defer_excess (max_visible_toasts l) now (relimit l p)
      = (Inr (), defer_spec (max_visible_toasts l) now (relimit l p))"
    and "sort_pending (defer_spec (max_visible_toasts l) now (relimit l p))
      = (Inr (), sort_spec (defer_spec (max_visible_toasts l) now (relimit l p)))"
    and "rebalance now w (sort_spec (defer_spec (max_visible_toasts l) now (relimit l p)))
      = (Inr (), relimited_spec l now w p)"
proof -
  have r: "wf_core (relimit l p)" "last_now (relimit l p) = now"
    using assms by (simp_all add: relimit_wf wf_sched_core frame_simps)
  then have d: "wf_core (defer_spec (max_visible_toasts l) now (relimit l p))"
    by (rule defer_spec_wf)
  from r show "defer_excess (max_visible_toasts l) now (relimit l p)
      = (Inr (), defer_spec (max_visible_toasts l) now (relimit l p))" by (rule defer_refines)
  from d show "sort_pending (defer_spec (max_visible_toasts l) now (relimit l p))
      = (Inr (), sort_spec (defer_spec (max_visible_toasts l) now (relimit l p)))" by (rule sort_refines)
  show "rebalance now w (sort_spec (defer_spec (max_visible_toasts l) now (relimit l p)))
      = (Inr (), relimited_spec l now w p)"
    unfolding relimited_spec_def
    by (rule rebalance_refines) (simp_all add: d sort_spec_wf frame_simps assms(2))
qed

lemma update_limits_inner:
  fixes w :: wall_time
  assumes "wf_sched p" and "last_now p = now" and "limits p \<noteq> l"
  defines "body \<equiv> then_op (modify (\<lambda>s. s\<lparr>limits := l, closed_capacity := closed_capacity_for l\<rparr>))
          (then_op (defer_excess (max_visible_toasts l) now)
          (then_op sort_pending
          (then_op (rebalance now w)
          (bind_op (enforce_pending_limit w) (\<lambda>_.
           modify (\<lambda>s. bump_content_revision (truncate_closed s)))))))"
  shows "if relimit_panics l now w p then fst (body p) = Inl Panic
         else body p = (Inr (), update_limits_spec l now w p)"
proof -
  let ?q = "relimited_spec l now w p"
  note q = relimited_spec_ok(1,5) [OF assms(1,2), of l w]
  have "body p = bind_op (enforce_pending_limit w)
      (\<lambda>_. modify (\<lambda>s. bump_content_revision (truncate_closed s))) ?q"
    using update_limits_steps [OF assms(1,2)]
    by (simp add: body_def then_op_Inr modify_def relimit_def)
  moreover have "fst (bind_op (enforce_pending_limit w) f ?q) = Inl Panic"
    if "max_pending l < pinned_pending ?q" for f :: "notification_id list \<Rightarrow> unit sched_op"
    using enforce_panics [OF q(1), of w] that q(2) by (auto simp: bind_op_def split: prod.splits)
  ultimately show ?thesis
    using enforce_refines [OF q(1), of w] q(2) assms(3)
    by (simp add: relimit_panics_def update_limits_spec_def bind_op_Inr modify_def Let_def)
qed

lemma update_limits_eq:
  assumes "wf_sched s" and "\<not> relimit_panics l now w (prepare_spec now w s)"
  shows "update_limits l now w s =
    (if now < last_now s then (Inl (Fail TimeWentBackwards), s)
     else (Inr (), update_limits_spec l now w (prepare_spec now w s)))"
proof -
  have p: "wf_sched (prepare_spec now w s)" "last_now (prepare_spec now w s) = now" if "\<not> now < last_now s"
    using assms(1) that by (simp_all add: prepare_spec_wf frame_simps)
  show ?thesis
    using update_limits_inner [OF p(1) p(2), where l = l and w = w] assms(2)
    by (simp add: update_limits_def prepare_time_step assms(1) with_state_def ret_def update_limits_spec_def)
qed

lemma update_limits_panics:
  assumes "wf_sched s" and "last_now s \<le> now" and "relimit_panics l now w (prepare_spec now w s)"
  shows "fst (update_limits l now w s) = Inl Panic"
proof -
  have p: "wf_sched (prepare_spec now w s)" "last_now (prepare_spec now w s) = now"
    using assms(1,2) by (simp_all add: prepare_spec_wf frame_simps)
  have l: "limits (prepare_spec now w s) \<noteq> l" using assms(3) by (simp add: relimit_panics_def)
  show ?thesis
    using update_limits_inner [OF p l, where w = w] assms l
    by (simp add: update_limits_def prepare_time_step with_state_def)
qed

lemma truncate_frame [frame_simps]:
  "limits (truncate_closed s) = limits s" "entries (truncate_closed s) = entries s"
  "closed_capacity (truncate_closed s) = closed_capacity s"
  "live_keys (truncate_closed s) = live_keys s" "active_attention (truncate_closed s) = active_attention s"
  "active_toasts (truncate_closed s) = active_toasts s" "pending (truncate_closed s) = pending s"
  "display_available (truncate_closed s) = display_available s" "last_now (truncate_closed s) = last_now s"
  by (simp_all add: truncate_closed_def)

lemma truncate_wf_core:
  assumes "wf_core s"
  shows "wf_core (truncate_closed s)"
proof -
  have "set (closed (truncate_closed s)) \<subseteq> set (closed s)"
    by (simp add: truncate_closed_def set_drop_subset)
  with assms show ?thesis
    by (auto simp: core_defs located_def frame_simps)
qed

lemma truncate_length: "length (closed (truncate_closed s)) \<le> closed_capacity s"
  by (simp add: truncate_closed_def)

lemma truncate_spec_wf:
  assumes "wf_core t" and "sorted_pending t" and "within_visible t" and "slots_filled t"
    and "closed_capacity t = closed_capacity_for (limits t)"
  shows "wf_sched (truncate_closed t)"
  using assms truncate_length [of t] truncate_wf_core [of t]
  by (simp add: wf_sched_def sorted_pending_def within_visible_def slots_filled_def closed_bounded_def
      frame_simps)

lemma update_limits_spec_wf:
  assumes "wf_sched p" and "last_now p = now"
  shows "wf_sched (update_limits_spec l now w p)"
proof (cases "limits p = l")
  case True
  with assms show ?thesis by (simp add: update_limits_spec_def)
next
  case False
  note q = relimited_spec_ok [OF assms, of l w]
  let ?t = "close_all (overflow (relimited_spec l now w p)) RenderSuppressed w (relimited_spec l now w p)"
  have "wf_sched (truncate_closed ?t)"
    by (rule truncate_spec_wf)
      (simp_all add: q close_all_wf close_all_sorted close_all_within overflow_closed_filled frame_simps)
  with False show ?thesis by (simp add: update_limits_spec_def Let_def bump_wf_sched)
qed

lemma update_limits_spec_pending:
  assumes "wf_sched p" and "last_now p = now" and "limits p \<noteq> l" and "\<not> relimit_panics l now w p"
  shows "length (pending (update_limits_spec l now w p)) \<le> max_pending l"
proof -
  note q = relimited_spec_ok(1,5) [OF assms(1,2), of l w]
  from assms(3,4) have "pinned_pending (relimited_spec l now w p) \<le> max_pending l"
    by (simp add: relimit_panics_def)
  from overflow_closed_length [OF q(1), unfolded q(2), OF this] assms(3)
  show ?thesis by (simp add: update_limits_spec_def Let_def frame_simps)
qed

lemma update_limits_wf:
  assumes "wf_sched s" and "\<not> relimit_panics l now w (prepare_spec now w s)"
  shows "wf_sched (snd (update_limits l now w s))"
  using assms by (simp add: update_limits_eq update_limits_spec_wf prepare_spec_wf frame_simps)

text \<open>No limit change panics while no more Notifications are pinned than the new limit admits.\<close>

lemma relimit_safe:
  assumes "wf_sched s" and "last_now s \<le> now" and "card (pinned_ids s) \<le> max_pending l"
  shows "\<not> relimit_panics l now w (prepare_spec now w s)"
proof -
  let ?p = "prepare_spec now w s" and ?q = "relimited_spec l now w (prepare_spec now w s)"
  have p: "wf_sched ?p" "last_now ?p = now" using assms by (simp_all add: prepare_spec_wf frame_simps)
  have "pinned_pending ?q \<le> card (pinned_ids ?q)"
    by (rule pinned_pending_le) (rule relimited_spec_ok(1) [OF p])
  also have "\<dots> \<le> card (pinned_ids s)"
    using prepare_pinned [of now w s] finite_pinned [OF wf_sched_core [OF assms(1)]]
    by (simp add: relimited_spec_ok(6) [OF p] card_mono)
  finally show ?thesis using assms(3) by (simp add: relimit_panics_def)
qed

section \<open>Shutdown and draining\<close>

lemma close_all_filled_empty: "pending t = [] \<Longrightarrow> slots_filled t"
  by (simp add: slots_filled_def)

lemma shutdown_eq:
  assumes "wf_sched s"
  shows "shutdown order r now w s =
    (if now < last_now s then (Inl (Fail TimeWentBackwards), s)
     else let p = prepare_spec now w s
          in (Inr (), close_all (order p) (shutdown_close_reason r) w p))"
  by (simp add: shutdown_def prepare_time_step assms modify_def Let_def)

lemma close_all_live_places:
  assumes "wf_core p" and "set ids = dom (entries p)"
  shows "entries (close_all ids r w p) = Map.empty" "pending (close_all ids r w p) = []"
    "active_toasts (close_all ids r w p) = []" "active_attention (close_all ids r w p) = None"
proof -
  have sub: "set (located p) = set ids" using assms by (simp add: wf_core_def wf_places_def)
  show "entries (close_all ids r w p) = Map.empty"
    using assms(2) by (auto simp: close_all_entries fun_eq_iff)
  have "set (pending p) \<subseteq> set ids" "set (active_toasts p) \<subseteq> set ids"
    "\<And>a. active_attention p = Some a \<Longrightarrow> a \<in> set ids"
    using sub by (auto simp: located_def)
  then show "pending (close_all ids r w p) = []"
    "active_toasts (close_all ids r w p) = []" "active_attention (close_all ids r w p) = None"
    by (auto simp: close_all_places [OF assms(1)] filter_empty_conv split: option.splits)
qed

lemma drain_closed_eq: "drain_closed s = (Inr (closed s), s\<lparr>closed := []\<rparr>)"
  by (simp add: drain_closed_def combinator_simps)

lemma drain_closed_wf: "wf_sched s \<Longrightarrow> wf_sched (s\<lparr>closed := []\<rparr>)"
  unfolding wf_sched_def wf_core_def wf_places_def wf_entries_def wf_entry_def wf_keys_def wf_closed_def
    located_def sorted_pending_def within_visible_def slots_filled_def closed_bounded_def
  by simp

end
