(* ===== verification/Scheduler_Jumps.thy ===== *)
theory Scheduler_Jumps
  imports Scheduler_Limits
begin

text \<open>
  The two-phase jump protocol of the scheduler: beginning a jump pins the Notification and pauses
  its timer, cancelling resumes it, committing closes the Notification. Stale intents are refused.
\<close>

section \<open>Touching one entry\<close>

text \<open>A change of an entry's timer and nonce that leaves its Notification and age alone.\<close>

definition touched :: "scheduler \<Rightarrow> notification_id \<Rightarrow> live_entry \<Rightarrow> live_entry \<Rightarrow> bool" where
  "touched p i e e' \<longleftrightarrow> le_notification e' = le_notification e \<and> le_sequence e' = le_sequence e
     \<and> timer_ok (last_now p) (le_timeout e')
     \<and> (i \<notin> set (active_toasts p) \<longrightarrow> timer_paused (le_timeout e'))"

lemma wf_entry_touched: "wf_entry p i e \<Longrightarrow> touched p i e e' \<Longrightarrow> wf_entry p i e'"
  by (simp add: wf_entry_def touched_def)

lemma touch_wf_core:
  assumes "wf_core p" and e: "entries p i = Some e" and t: "touched p i e e'"
  shows "wf_core (p\<lparr>entries := (entries p)(i \<mapsto> e')\<rparr>)"
proof (rule wf_core_entries [OF assms(1)])
  show "((entries p)(i \<mapsto> e')) j = None \<longleftrightarrow> entries p j = None" for j
    using e by simp
  show "wf_entry p j f' \<and> n_key (le_notification f') = n_key (le_notification f)
      \<and> n_presentation (le_notification f') = n_presentation (le_notification f)"
    if "entries p j = Some f" "((entries p)(i \<mapsto> e')) j = Some f'" "wf_entry p j f" for j f f'
  proof (cases "j = i")
    case True
    with that e have "f = e" "f' = e'" by simp_all
    with that(3) True t show ?thesis by (simp add: wf_entry_touched) (simp add: touched_def)
  qed (use that in simp)
qed

lemma touch_wf:
  assumes "wf_sched p" and e: "entries p i = Some e" and t: "touched p i e e'"
  shows "wf_sched (p\<lparr>entries := (entries p)(i \<mapsto> e')\<rparr>)"
proof -
  let ?q = "p\<lparr>entries := (entries p)(i \<mapsto> e')\<rparr>"
  have rank: "pending_rank_of (entries ?q) = pending_rank_of (entries p)"
    using e t by (auto simp: pending_rank_of_def pending_rank_def touched_def)
  have pres: "presents (entries ?q) pr j = presents (entries p) pr j" for pr j
    using e t by (auto simp: presents_def touched_def)
  show ?thesis
    unfolding wf_sched_def sorted_pending_def slots_filled_def within_visible_def closed_bounded_def rank pres
    using assms(1) touch_wf_core [OF wf_sched_core [OF assms(1)] e t]
    by (simp add: wf_sched_def sorted_pending_def slots_filled_def within_visible_def closed_bounded_def)
qed

lemma wf_sched_nonce [simp]: "wf_sched (p\<lparr>next_jump_nonce := x\<rparr>) = wf_sched p"
  unfolding wf_sched_def wf_core_def wf_places_def wf_entries_def wf_entry_def wf_keys_def wf_closed_def
    located_def sorted_pending_def within_visible_def slots_filled_def closed_bounded_def
  by simp

lemma entry_facts:
  assumes "wf_core p" and "entries p i = Some e"
  shows "timer_ok (last_now p) (le_timeout e)"
    "i \<notin> set (active_toasts p) \<Longrightarrow> timer_paused (le_timeout e)"
    "n_delivery (le_notification e) \<noteq> Closed" "n_id (le_notification e) = i"
    "wf_notification (le_notification e)"
  using assms by (auto simp: core_defs)

lemma running_active: "toast_timer_should_run p i \<Longrightarrow> i \<in> set (active_toasts p)"
  by (simp add: toast_timer_should_run_def)

section \<open>Beginning a jump\<close>

definition pinned_entry :: "scheduler \<Rightarrow> notification_id \<Rightarrow> live_entry \<Rightarrow> live_entry" where
  "pinned_entry p i e = e\<lparr>le_jump_nonce := Some (next_jump_nonce p),
     le_timeout := (if toast_timer_should_run p i then settle_timer (last_now p) False (le_timeout e)
                    else le_timeout e)\<rparr>"

lemma pinned_touched: "wf_core p \<Longrightarrow> entries p i = Some e \<Longrightarrow> touched p i e (pinned_entry p i e)"
  by (auto simp: touched_def pinned_entry_def entry_facts settle_timer_ok settle_timer_paused)

definition begin_spec :: "notification_id \<Rightarrow> scheduler \<Rightarrow> (scheduler_error fault + jump_intent) \<times> scheduler" where
  "begin_spec i p =
     (case entries p i of
        None \<Rightarrow> (Inl (Fail NotificationNotLive), p)
      | Some e \<Rightarrow>
          if le_jump_nonce e \<noteq> None then (Inl (Fail JumpAlreadyPending), p)
          else (case n_source (le_notification e) of
                  None \<Rightarrow> (Inl (Fail MissingSource), p)
                | Some source \<Rightarrow>
                    (Inr \<lparr>ji_notification_id = i, ji_nonce = next_jump_nonce p, ji_source = source\<rparr>,
                     p\<lparr>entries := (entries p)(i \<mapsto> pinned_entry p i e),
                       next_jump_nonce := next_jump_nonce p + 1\<rparr>)))"

lemma begin_jump_inner_eq:
  assumes "wf_core p"
  shows "begin_jump_inner i p = begin_spec i p"
proof (cases "entries p i")
  case None
  then show ?thesis by (simp add: begin_jump_inner_def begin_spec_def combinator_simps)
next
  case (Some e)
  let ?q = "p\<lparr>next_jump_nonce := next_jump_nonce p + 1,
    entries := (entries p)(i \<mapsto> e\<lparr>le_jump_nonce := Some (next_jump_nonce p)\<rparr>)\<rparr>"
  have "set_timer (last_now p) i False ?q = (Inr (), ?q\<lparr>entries := (entries ?q)(i \<mapsto>
      e\<lparr>le_jump_nonce := Some (next_jump_nonce p), le_timeout := settle_timer (last_now p) False (le_timeout e)\<rparr>)\<rparr>)"
    using set_timer_ok [of ?q i "e\<lparr>le_jump_nonce := Some (next_jump_nonce p)\<rparr>" "last_now p" False]
      entry_facts(1) [OF assms Some] by simp
  with Some entry_facts(3) [OF assms Some] show ?thesis
    by (auto simp: begin_jump_inner_def begin_spec_def combinator_simps Let_def pinned_entry_def
        split: option.splits)
qed

lemma begin_spec_wf:
  assumes "wf_sched p"
  shows "wf_sched (snd (begin_spec i p))" "fst (begin_spec i p) \<noteq> Inl Panic"
proof -
  have "wf_sched (p\<lparr>entries := (entries p)(i \<mapsto> pinned_entry p i e)\<rparr>)" if "entries p i = Some e" for e
    by (rule touch_wf [OF assms that pinned_touched [OF wf_sched_core [OF assms] that]])
  then have "wf_sched (p\<lparr>entries := (entries p)(i \<mapsto> pinned_entry p i e), next_jump_nonce := x\<rparr>)"
    if "entries p i = Some e" for e x
    using wf_sched_nonce that by blast
  with assms show "wf_sched (snd (begin_spec i p))"
    by (simp add: begin_spec_def split: option.splits)
  show "fst (begin_spec i p) \<noteq> Inl Panic"
    by (simp add: begin_spec_def split: option.splits)
qed

lemma begin_jump_eq:
  assumes "wf_sched s"
  shows "begin_jump i now w s =
    (if now < last_now s then (Inl (Fail TimeWentBackwards), s) else begin_spec i (prepare_spec now w s))"
  using assms by (simp add: begin_jump_def prepare_time_step begin_jump_inner_eq wf_sched_core prepare_spec_wf)

lemma begin_jump_by_key_eq:
  assumes "wf_sched s"
  shows "begin_jump_by_key key now w s =
    (if now < last_now s then (Inl (Fail TimeWentBackwards), s)
     else let p = prepare_spec now w s in
       case live_keys p key of None \<Rightarrow> (Inl (Fail KeyNotLive), p) | Some i \<Rightarrow> begin_spec i p)"
  using assms by (simp add: begin_jump_by_key_def prepare_time_step key_or_fail_def with_state_def raise_def
      Let_def begin_jump_inner_eq wf_sched_core prepare_spec_wf split: option.splits)

section \<open>Cancelling and committing\<close>

definition unpinned_entry :: "scheduler \<Rightarrow> notification_id \<Rightarrow> live_entry \<Rightarrow> live_entry" where
  "unpinned_entry p i e = e\<lparr>le_jump_nonce := None,
     le_timeout := (if toast_timer_should_run p i then settle_timer (last_now p) True (le_timeout e)
                    else le_timeout e)\<rparr>"

lemma unpinned_touched: "wf_core p \<Longrightarrow> entries p i = Some e \<Longrightarrow> touched p i e (unpinned_entry p i e)"
  by (auto simp: touched_def unpinned_entry_def entry_facts settle_timer_ok dest: running_active)

definition holds_intent :: "scheduler \<Rightarrow> jump_intent \<Rightarrow> bool" where
  "holds_intent s intent \<longleftrightarrow> (case entries s (ji_notification_id intent) of
     None \<Rightarrow> False | Some e \<Rightarrow> le_jump_nonce e = Some (ji_nonce intent))"

definition cancel_spec :: "jump_intent \<Rightarrow> scheduler \<Rightarrow> (scheduler_error fault + unit) \<times> scheduler" where
  "cancel_spec intent p =
     (if holds_intent p intent
      then (Inr (), p\<lparr>entries := (entries p)(ji_notification_id intent \<mapsto>
              unpinned_entry p (ji_notification_id intent) (the (entries p (ji_notification_id intent))))\<rparr>)
      else (Inl (Fail StaleJumpIntent), p))"

lemma cancel_jump_eq:
  assumes "wf_sched s"
  shows "cancel_jump intent now w s =
    (if now < last_now s then (Inl (Fail TimeWentBackwards), s) else cancel_spec intent (prepare_spec now w s))"
proof (cases "now < last_now s")
  case True
  with assms show ?thesis by (simp add: cancel_jump_def prepare_time_step)
next
  case False
  let ?p = "prepare_spec now w s" and ?i = "ji_notification_id intent"
  have p: "wf_core ?p" using assms False by (simp add: wf_sched_core prepare_spec_wf)
  have timer: "set_timer (last_now ?p) ?i True (?p\<lparr>entries := (entries ?p)(?i \<mapsto> e\<lparr>le_jump_nonce := None\<rparr>)\<rparr>)
      = (Inr (), ?p\<lparr>entries := (entries ?p)(?i \<mapsto>
          e\<lparr>le_jump_nonce := None, le_timeout := settle_timer (last_now ?p) True (le_timeout e)\<rparr>)\<rparr>)"
    if "entries ?p ?i = Some e" for e
    using set_timer_ok [of "?p\<lparr>entries := (entries ?p)(?i \<mapsto> e\<lparr>le_jump_nonce := None\<rparr>)\<rparr>" ?i
        "e\<lparr>le_jump_nonce := None\<rparr>" "last_now ?p" True] entry_facts(1) [OF p that] by simp
  have run: "toast_timer_should_run (?p\<lparr>entries := t\<rparr>) ?i = toast_timer_should_run ?p ?i" for t
    by (simp add: toast_timer_should_run_def)
  show ?thesis
    using False
    by (cases "entries ?p ?i")
      (simp_all add: cancel_jump_def prepare_time_eq wf_sched_core assms combinator_simps cancel_spec_def holds_intent_def
        with_entry_def run timer unpinned_entry_def)
qed

lemma cancel_spec_wf:
  assumes "wf_sched p"
  shows "wf_sched (snd (cancel_spec intent p))" "fst (cancel_spec intent p) \<noteq> Inl Panic"
proof -
  have "wf_sched (p\<lparr>entries := (entries p)(i \<mapsto> unpinned_entry p i e)\<rparr>)" if "entries p i = Some e" for i e
    by (rule touch_wf [OF assms that unpinned_touched [OF wf_sched_core [OF assms] that]])
  with assms show "wf_sched (snd (cancel_spec intent p))"
    by (auto simp: cancel_spec_def holds_intent_def split: option.splits)
  show "fst (cancel_spec intent p) \<noteq> Inl Panic" by (simp add: cancel_spec_def)
qed

lemma commit_jump_eq:
  "commit_jump intent now w s =
    (if holds_intent s intent then close (ji_notification_id intent) Jumped now w s
     else (Inl (Fail StaleJumpIntent), s))"
  by (simp add: commit_jump_def holds_intent_def with_state_def raise_def)

lemma commit_jump_wf: "wf_sched s \<Longrightarrow> wf_sched (snd (commit_jump intent now w s))"
  by (simp add: commit_jump_eq close_wf)

section \<open>Counting the jumps in flight\<close>

definition jumps_in_flight :: "scheduler \<Rightarrow> nat" where
  "jumps_in_flight s = length (filter (\<lambda>i. \<not> is_unpinned (entries s) i) (located s))"

lemma jumps_in_flight_card:
  assumes "wf_core s"
  shows "jumps_in_flight s = card (pinned_ids s)"
proof -
  have d: "distinct (located s)" and loc: "set (located s) = dom (entries s)"
    using assms by (simp_all only: wf_core_def wf_places_def)
  have "{i \<in> set (located s). \<not> is_unpinned (entries s) i} = pinned_ids s"
    unfolding loc by (auto simp: pinned_ids_def is_unpinned_def split: option.splits)
  with d show ?thesis by (simp add: jumps_in_flight_def distinct_length_filter Int_def conj_commute)
qed

end
