(* ===== verification/Scheduler_Calls.thy ===== *)
theory Scheduler_Calls
  imports Scheduler_Jumps
begin

text \<open>
  The scheduler driven by a sequence of calls: every public operation of \<open>LiveScheduler\<close> is a
  call, a call's effect is the operation's final state (also after an error), and the properties
  of the scheduler are stated over the operations and over arbitrary runs of calls.
\<close>

section \<open>Calls\<close>

datatype sched_call =
    SubmitCall notification_id notification_draft
  | UpdateCall notification_id notification_update
  | UpdateByKeyCall notification_key notification_update
  | DismissCall notification_id
  | DismissByKeyCall notification_key
  | RenderFailedCall notification_id
  | SetDisplayCall bool
  | UpdateLimitsCall scheduler_limits
  | BeginJumpCall notification_id
  | BeginJumpByKeyCall notification_key
  | CancelJumpCall jump_intent
  | CommitJumpCall jump_intent
  | AdvanceCall
  | ShutdownCall "notification_id list" shutdown_reason
  | DrainCall

definition outcome :: "('e fault + 'a) \<times> 's \<Rightarrow> 'e fault option \<times> 's" where
  "outcome r = (case fst r of Inl f \<Rightarrow> Some f | Inr _ \<Rightarrow> None, snd r)"

text \<open>The fault of a call, if any, and the state it leaves.\<close>

fun call_result ::
  "scheduler \<Rightarrow> sched_call \<Rightarrow> monotonic_time \<Rightarrow> wall_time \<Rightarrow> scheduler_error fault option \<times> scheduler" where
  "call_result s (SubmitCall i d) now w = outcome (submit i d now w s)"
| "call_result s (UpdateCall i u) now w = outcome (update i u now w s)"
| "call_result s (UpdateByKeyCall k u) now w = outcome (update_by_key k u now w s)"
| "call_result s (DismissCall i) now w = outcome (dismiss i now w s)"
| "call_result s (DismissByKeyCall k) now w = outcome (dismiss_by_key k now w s)"
| "call_result s (RenderFailedCall i) now w = outcome (render_failed i now w s)"
| "call_result s (SetDisplayCall a) now w = outcome (set_display_available a now w s)"
| "call_result s (UpdateLimitsCall l) now w = outcome (update_limits l now w s)"
| "call_result s (BeginJumpCall i) now w = outcome (begin_jump i now w s)"
| "call_result s (BeginJumpByKeyCall k) now w = outcome (begin_jump_by_key k now w s)"
| "call_result s (CancelJumpCall j) now w = outcome (cancel_jump j now w s)"
| "call_result s (CommitJumpCall j) now w = outcome (commit_jump j now w s)"
| "call_result s AdvanceCall now w = outcome (advance now w s)"
| "call_result s (ShutdownCall ids r) now w = outcome (shutdown (\<lambda>_. ids) r now w s)"
| "call_result s DrainCall now w = outcome (drain_closed s)"

type_synonym timed_call = "sched_call \<times> monotonic_time \<times> wall_time"

fun sched_step :: "scheduler \<Rightarrow> timed_call \<Rightarrow> scheduler" where
  "sched_step s (c, now, w) = snd (call_result s c now w)"

text \<open>
  What the callers owe: a new Notification has a fresh ID, drafts and updates come from their
  constructors, no more jumps are in flight than the pending limit admits, and shutdown iterates
  over exactly the IDs that are live once the clock has been advanced.
\<close>

fun sched_guard :: "scheduler \<Rightarrow> timed_call \<Rightarrow> bool" where
  "sched_guard s (SubmitCall i d, now, w) \<longleftrightarrow>
     entries s i = None \<and> wf_draft d \<and> jumps_in_flight s \<le> max_pending (limits s)"
| "sched_guard s (UpdateCall i u, now, w) \<longleftrightarrow> wf_update u"
| "sched_guard s (UpdateByKeyCall k u, now, w) \<longleftrightarrow> wf_update u"
| "sched_guard s (UpdateLimitsCall l, now, w) \<longleftrightarrow> jumps_in_flight s \<le> max_pending l"
| "sched_guard s (ShutdownCall ids r, now, w) \<longleftrightarrow>
     set ids = set (located (snd (prepare_time now w s)))"
| "sched_guard s _ \<longleftrightarrow> True"

section \<open>The invariant over every call\<close>

lemma outcome_simps [simp]:
  "snd (outcome r) = snd r" "fst (outcome r) = Some f \<longleftrightarrow> fst r = Inl f"
  by (auto simp: outcome_def split: sum.splits)

lemma dismiss_by_key_eq:
  "dismiss_by_key key now w s =
     (case live_keys s key of
        None \<Rightarrow> (Inl (Fail KeyNotLive), s)
      | Some i \<Rightarrow> (case close i Dismissed now w s of (Inl e, t) \<Rightarrow> (Inl e, t) | (Inr _, t) \<Rightarrow> (Inr i, t)))"
  by (auto simp: dismiss_by_key_def key_or_fail_def combinator_simps split: option.splits prod.splits sum.splits)

lemma shutdown_list_wf:
  assumes "wf_sched s" and "set ids = set (located (snd (prepare_time now w s)))"
  shows "wf_sched (snd (shutdown (\<lambda>_. ids) r now w s))"
proof (cases "now < last_now s")
  case False
  let ?p = "prepare_spec now w s"
  have p: "wf_sched ?p" using assms(1) False by (simp add: prepare_spec_wf)
  have "set ids = set (located ?p)"
    using assms False by (simp add: prepare_time_eq wf_sched_core)
  then have "set ids = dom (entries ?p)"
    using p by (simp add: wf_sched_def wf_core_def wf_places_def)
  from close_all_live_places(2) [OF wf_sched_core [OF p] this] p
  have "wf_sched (close_all ids (shutdown_close_reason r) w ?p)"
    by (simp add: wf_sched_def close_all_wf close_all_sorted close_all_within close_all_bounded
        close_all_filled_empty)
  with False show ?thesis by (simp add: shutdown_eq assms(1) Let_def)
qed (simp add: shutdown_eq assms(1))

lemma update_limits_safe:
  assumes "wf_sched s" and "jumps_in_flight s \<le> max_pending l"
  shows "wf_sched (snd (update_limits l now w s))" and "fst (update_limits l now w s) \<noteq> Inl Panic"
proof -
  have safe: "\<not> relimit_panics l now w (prepare_spec now w s)" if "\<not> now < last_now s"
    using assms that by (intro relimit_safe) (simp_all add: jumps_in_flight_card wf_sched_core)
  show "wf_sched (snd (update_limits l now w s))"
  proof (cases "now < last_now s")
    case True
    with assms(1) show ?thesis by (simp add: update_limits_def prepare_time_step)
  next
    case False
    with assms(1) safe show ?thesis by (simp add: update_limits_wf)
  qed
  show "fst (update_limits l now w s) \<noteq> Inl Panic"
  proof (cases "now < last_now s")
    case True
    with assms(1) show ?thesis by (simp add: update_limits_def prepare_time_step)
  next
    case False
    with assms(1) safe show ?thesis by (simp add: update_limits_eq)
  qed
qed

lemma call_wf:
  assumes "wf_sched s" and "sched_guard s (c, now, w)"
  shows "wf_sched (snd (call_result s c now w))"
proof (cases c)
  case (SubmitCall i d)
  with assms show ?thesis by (simp add: submit_wf(1) jumps_in_flight_card wf_sched_core)
next
  case (DismissByKeyCall k)
  with assms close_wf [of s _ Dismissed now w] show ?thesis
    by (auto simp: dismiss_by_key_eq split: option.splits prod.splits sum.splits) (metis snd_conv)+
next
  case AdvanceCall
  with assms show ?thesis by (simp add: advance_def prepare_time_eq wf_sched_core prepare_spec_wf)
next
  case (BeginJumpByKeyCall k)
  with assms show ?thesis
    by (simp add: begin_jump_by_key_eq Let_def begin_spec_wf prepare_spec_wf split: option.splits)
qed (use assms in \<open>simp_all add: update_wf update_by_key_wf dismiss_def render_failed_def close_wf
    set_display_available_wf update_limits_safe begin_jump_eq begin_spec_wf cancel_jump_eq cancel_spec_wf
    commit_jump_wf shutdown_list_wf drain_closed_eq drain_closed_wf prepare_spec_wf\<close>)

lemma call_no_panic:
  assumes "wf_sched s" and "sched_guard s (c, now, w)"
  shows "fst (call_result s c now w) \<noteq> Some Panic"
proof (cases c)
  case (SubmitCall i d)
  with assms show ?thesis by (simp add: submit_wf(2) jumps_in_flight_card wf_sched_core)
next
  case (DismissByKeyCall k)
  with assms close_no_panic [of s _ Dismissed now w] show ?thesis
    by (auto simp: dismiss_by_key_eq split: option.splits prod.splits sum.splits) (metis fst_conv)+
next
  case (BeginJumpByKeyCall k)
  with assms show ?thesis
    by (simp add: begin_jump_by_key_eq Let_def begin_spec_wf prepare_spec_wf split: option.splits)
qed (use assms in \<open>simp_all add: update_eq update_by_key_eq update_spec_no_panic dismiss_def render_failed_def
    close_no_panic set_display_available_eq update_limits_safe begin_jump_eq begin_spec_wf cancel_jump_eq
    cancel_spec_wf commit_jump_eq advance_def prepare_time_eq wf_sched_core shutdown_eq drain_closed_eq Let_def
    prepare_spec_wf split: option.splits\<close>)

interpretation sched: invariant_machine sched_step sched_guard wf_sched
proof
  fix s and c :: timed_call
  assume "wf_sched s" "sched_guard s c"
  then show "wf_sched (sched_step s c)" by (cases c) (simp add: call_wf)
qed

lemma scheduler_new_wf: "wf_sched (scheduler_new l now)"
  by (simp add: scheduler_new_def wf_sched_def core_defs located_def sorted_pending_def within_visible_def
      slots_filled_def closed_bounded_def)

end
