(* ===== verification/Scheduler_Props.thy ===== *)
theory Scheduler_Props
  imports Scheduler_Calls
begin

text \<open>
  The properties of the live scheduler: its invariant and the absence of panics over every run,
  what is displayed and in which order, timers, keys, closing, shutdown and the jump protocol,
  and the behaviours the modelling of the code brought to light.
\<close>

section \<open>Concrete data for the instances\<close>

definition demo_source :: source_context where
  "demo_source = \<lparr>src_provider = None, src_provider_session_id = None,
     src_tmux_server_id = TmuxServerId (ustr ''s''), src_session_id = ustr ''$1'',
     src_window_id = ustr ''@1'', src_pane_id = ustr ''%1'', src_cwd = None, src_command = None,
     src_pane_title = None\<rparr>"

definition demo_draft :: "presentation \<Rightarrow> notification_key option \<Rightarrow> notification_draft" where
  "demo_draft p key = \<lparr>d_key = key, d_level = Info, d_priority = Normal, d_presentation = p,
     d_title = ustr ''t'', d_body = ustr ''b'',
     d_timeout = (if p = Attention then Never else After 3), d_source = Some demo_source,
     d_overrides = overrides_default, d_metadata = metadata_new None\<rparr>"

definition demo_key :: notification_key where
  "demo_key = NotificationKey (ustr ''k'')"

definition demo_limits :: scheduler_limits where
  "demo_limits = \<lparr>max_pending = 1, max_visible_toasts = 1\<rparr>"

definition demo_new :: scheduler where
  "demo_new = scheduler_new demo_limits 0"

definition demo_calls :: "timed_call list" where
  "demo_calls =
     [(SetDisplayCall True, 0, 0),
      (SubmitCall 1 (demo_draft Toast (Some demo_key)), 0, 0),
      (SubmitCall 2 (demo_draft Attention None), 1, 1),
      (SubmitCall 3 (demo_draft Toast None), 2, 2)]"

lemma demo_draft_fields [simp]:
  "d_key (demo_draft p k) = k" "d_priority (demo_draft p k) = Normal" "d_level (demo_draft p k) = Info"
  "d_presentation (demo_draft p k) = p" "d_source (demo_draft p k) = Some demo_source"
  "d_timeout (demo_draft p k) = (if p = Attention then Never else After 3)"
  "d_title (demo_draft p k) = ustr ''t''" "d_body (demo_draft p k) = ustr ''b''"
  "d_overrides (demo_draft p k) = overrides_default" "d_metadata (demo_draft p k) = metadata_new None"
  by (simp_all add: demo_draft_def)

lemma demo_source_wf: "wf_source demo_source"
  by (simp add: demo_source_def wf_source_def is_stable_id_code bounded_text_def limit_defs
      terminal_safe_def is_display_control_def is_control_def is_ascii_digit_def char_len_def)

lemma demo_key_wf: "wf_key demo_key"
  by (simp add: demo_key_def wf_key_def bounded_text_def limit_defs terminal_safe_def
      is_display_control_def is_control_def char_len_def)

lemma demo_draft_wf [simp]: "wf_draft (demo_draft p None)" "wf_draft (demo_draft p (Some demo_key))"
  by (simp_all add: wf_draft_def gate_ok_def demo_source_wf demo_key_wf bounded_text_def limit_defs
      terminal_safe_def is_display_control_def is_control_def char_len_def)

text \<open>Evaluating a run call by call.\<close>

lemmas run_defs = demo_new_def scheduler_new_def demo_limits_def outcome_def closed_capacity_for_def
  submit_def set_display_available_def update_def update_limits_def begin_jump_def commit_jump_def cancel_jump_def
  close_def advance_def
  begin_jump_inner_def scheduler_apply_update_def defer_excess_def truncate_closed_def
  prepare_time_def elapsed_since_def close_expired_def rebalance_def promote_attention_def fill_toasts_def
  mark_shown_def settle_timers_def sort_pending_def with_entry_def set_timer_def submit_new_def
  submit_keyed_def enqueue_new_def enforce_pending_limit_def take_last_def presented_as_def unpinned_def
  has_expired_def panic_def combinator_simps Let_def bump_revision_def bump_content_revision_def
  is_desired_visible_def toast_timer_should_run_def pending_rank_of_def pending_rank_def from_draft_def
  mark_visible_def replace_content_def has_same_content_def apply_update_def replace_if_changed_def
  fill_toasts_loop.simps enforce_loop.simps jumps_in_flight_def located_def is_unpinned_def close_inner_def
  close_notification_def

lemma demo_enabled: "enabled_run sched_step sched_guard demo_new demo_calls"
  by (simp add: demo_calls_def run_defs)

lemma demo_wf: "wf_sched (run_machine sched_step demo_new demo_calls)"
  by (rule sched.run_inv [OF _ demo_enabled]) (simp add: demo_new_def scheduler_new_wf)

section \<open>The invariant and the absence of panics\<close>

text \<open>
  Claim C1. After any sequence of calls whose callers keep their side (fresh IDs, drafts and
  updates from their constructors, no more jumps in flight than the pending limit), every live
  Notification is in exactly one of the pending queue, the Toast slots and the Attention slot, the
  slots hold only their kind, no Toast slot is free while a Toast waits, the queue is ordered,
  the key index is exact, and the log of closed Notifications is within its capacity.
\<close>

theorem scheduler_invariant:
  assumes "enabled_run sched_step sched_guard (scheduler_new l start) calls"
  shows "wf_sched (run_machine sched_step (scheduler_new l start) calls)"
  by (rule sched.run_inv [OF scheduler_new_wf assms])

lemma scheduler_invariant_witness: "wf_sched (run_machine sched_step (scheduler_new demo_limits 0) demo_calls)"
  by (rule scheduler_invariant) (use demo_enabled in \<open>simp add: demo_new_def\<close>)



text \<open>
  When the monotonic clock goes backwards, no call changes the scheduler (except for
  draining the log of closed Notifications, which takes no time).
\<close>

theorem time_backwards_changes_nothing:
  assumes "wf_sched s" and "now < last_now s" and "c \<noteq> DrainCall"
  shows "\<exists>e. call_result s c now w = (Some (Fail e), s)"
proof -
  have prep: "prepare_time now w s = (Inl (Fail TimeWentBackwards), s)"
    using assms(1,2) by (simp add: prepare_time_eq wf_sched_core)
  then have seq: "then_op (prepare_time now w) m s = (Inl (Fail TimeWentBackwards), s)"
    for m :: "'a sched_op" by (simp add: then_op_def bind_op_def)
  have close: "close i r now w s = (Inl (Fail TimeWentBackwards), s)" for i r
    by (simp add: close_def seq)
  show ?thesis
    by (cases c) (use assms(3) in \<open>auto simp: outcome_def submit_def update_def update_by_key_def dismiss_def
        dismiss_by_key_eq render_failed_def set_display_available_def update_limits_def begin_jump_def
        begin_jump_by_key_def cancel_jump_def commit_jump_eq advance_def shutdown_def seq close prep
        split: option.splits\<close>)
qed

lemma time_backwards_changes_nothing_witness:
  "\<exists>e. call_result (run_machine sched_step demo_new demo_calls) AdvanceCall 1 1
     = (Some (Fail e), run_machine sched_step demo_new demo_calls)"
  by (rule time_backwards_changes_nothing) (use demo_wf in \<open>simp_all add: demo_calls_def run_defs\<close>)

section \<open>Rebalancing and what is displayed\<close>

text \<open>
  Claim C2. On a structurally well-formed scheduler, \<open>rebalance\<close> neither fails nor panics and
  computes the specified state: an Attention Gate is promoted into a free Attention slot, Toasts
  fill the free slots in queue order unless a Gate is up, what is on display is marked visible,
  and afterwards exactly the Toasts on display without a jump in flight have a running timer, no
  slot is free while something presentable waits, and nothing was lost or duplicated.
\<close>

theorem rebalance_correct:
  assumes "wf_core s" and "last_now s = now" and "within_visible s"
  shows "rebalance now w s = (Inr (), rebalance_spec now w s)
    \<and> timers_settled (rebalance_spec now w s) \<and> slots_filled (rebalance_spec now w s)
    \<and> wf_core (rebalance_spec now w s) \<and> dom (entries (rebalance_spec now w s)) = dom (entries s)"
  using assms by (simp add: rebalance_refines rebalance_settled rebalance_filled rebalance_spec_wf rebalance_dom)

lemma rebalance_correct_witness:
  "rebalance 2 2 (run_machine sched_step demo_new demo_calls)
     = (Inr (), rebalance_spec 2 2 (run_machine sched_step demo_new demo_calls))"
  by (rule rebalance_correct [THEN conjunct1])
    (use demo_wf in \<open>simp_all add: wf_sched_def\<close>, simp add: demo_calls_def run_defs)

definition displayed_as :: "scheduler \<Rightarrow> presentation \<Rightarrow> notification_id \<Rightarrow> bool" where
  "displayed_as s p i \<longleftrightarrow> (case live_notification s i of
     None \<Rightarrow> False | Some n \<Rightarrow> n_presentation n = p \<and> n_delivery n \<noteq> Closed)"

lemma displayed_asI: "wf_core s \<Longrightarrow> presents (entries s) p i \<Longrightarrow> displayed_as s p i"
  by (auto simp: displayed_as_def live_notification_def presents_def dest: entry_facts(3))

text \<open>
  Claim C11. The display plan: an Attention Gate and Toasts are never shown together, nothing is
  shown while the display is unavailable, every planned ID is a live Notification of the right
  kind, no Toast is planned twice or beyond the configured number, a free Toast slot means that
  nothing waits, and no Attention Gate waits behind a plan without one.
\<close>

theorem display_plan_correct:
  assumes "wf_sched s"
  defines "p \<equiv> scheduler_display_plan s"
  shows "(dp_attention p = None \<or> dp_toasts p = [])
    \<and> (\<not> display_available s \<longrightarrow> dp_attention p = None \<and> dp_toasts p = [])
    \<and> (\<forall>i. dp_attention p = Some i \<longrightarrow> displayed_as s Attention i)
    \<and> (\<forall>i \<in> set (dp_toasts p). displayed_as s Toast i)
    \<and> distinct (dp_toasts p) \<and> length (dp_toasts p) \<le> max_visible_toasts (limits s)
    \<and> (display_available s \<and> dp_attention p = None \<longrightarrow>
         (\<forall>i \<in> set (pending s). displayed_as s Toast i)
         \<and> (length (dp_toasts p) < max_visible_toasts (limits s) \<longrightarrow> pending s = []))"
proof -
  have core: "wf_core s" using assms(1) by (rule wf_sched_core)
  have att: "active_attention s = Some i \<Longrightarrow> displayed_as s Attention i" for i
    using core by (intro displayed_asI) (auto simp: core_defs)
  have toast: "i \<in> set (active_toasts s) \<Longrightarrow> displayed_as s Toast i" for i
    using core by (intro displayed_asI) (auto simp: core_defs)
  have pend: "displayed_as s Toast i" if "display_available s" "active_attention s = None" "i \<in> set (pending s)" for i
    using assms(1) that by (intro displayed_asI [OF core]) (simp add: wf_sched_def slots_filled_def)
  show ?thesis
    using assms(1) att toast pend wf_core_active_distinct [OF core]
    by (auto simp: p_def scheduler_display_plan_def wf_sched_def within_visible_def slots_filled_def)
qed

lemma display_plan_correct_witness:
  "dp_attention (scheduler_display_plan (run_machine sched_step demo_new demo_calls)) = Some 2
   \<and> displayed_as (run_machine sched_step demo_new demo_calls) Attention 2"
  using display_plan_correct [OF demo_wf]
  by (simp add: scheduler_display_plan_def) (simp add: demo_calls_def run_defs)

text \<open>\<open>e\<close> goes before \<open>f\<close>: a higher priority, or the same priority and not younger.\<close>

definition goes_before :: "live_entry \<Rightarrow> live_entry \<Rightarrow> bool" where
  "goes_before e f \<longleftrightarrow>
     n_priority (le_notification f) < n_priority (le_notification e)
     \<or> n_priority (le_notification e) = n_priority (le_notification f) \<and> le_sequence e \<le> le_sequence f"

lemma goes_before_rank: "goes_before e f \<longleftrightarrow> pending_rank e \<le> pending_rank f"
  by (cases "n_priority (le_notification e)"; cases "n_priority (le_notification f)")
    (auto simp: goes_before_def pending_rank_def less_priority_def)

definition entry_before :: "scheduler \<Rightarrow> notification_id \<Rightarrow> notification_id \<Rightarrow> bool" where
  "entry_before s i j \<longleftrightarrow>
     (case (entries s i, entries s j) of (Some e, Some f) \<Rightarrow> goes_before e f | _ \<Rightarrow> False)"

lemma entry_before_rank:
  assumes "wf_core s" and "i \<in> set (pending s)" and "j \<in> set (pending s)"
  shows "entry_before s i j \<longleftrightarrow> pending_rank_of (entries s) i \<le> pending_rank_of (entries s) j"
proof -
  obtain e f where "entries s i = Some e" "entries s j = Some f"
    using wf_core_located(1) [OF assms(1)] assms(2,3) by blast
  then show ?thesis by (simp add: entry_before_def goes_before_rank pending_rank_of_def)
qed

lemma sorted_map_take:
  assumes "sorted (map f xs)" and "x \<in> set (take n xs)" and "y \<in> set xs" and "y \<notin> set (take n xs)"
  shows "f x \<le> f y"
proof -
  have "sorted (map f (take n xs) @ map f (drop n xs))"
    using assms(1) by (metis append_take_drop_id map_append)
  moreover have "y \<in> set (drop n xs)"
    using assms(3,4) by (metis Un_iff append_take_drop_id set_append)
  ultimately show ?thesis using assms(2) by (auto simp: sorted_append)
qed

lemma promoted_first:
  assumes "sorted_pending s" and "active_attention s = None"
    and "active_attention (promote_spec s) = Some a" and "j \<in> set (pending s)"
    and "presents (entries s) Attention j"
  shows "a \<in> set (pending s) \<and> pending_rank_of (entries s) a \<le> pending_rank_of (entries s) j"
proof -
  let ?xs = "filter (presents (entries s) Attention) (pending s)"
  obtain zs where xs: "?xs = a # zs"
    using assms(2,3) by (auto simp: promote_spec_def split: if_splits list.splits)
  moreover have "j \<in> set ?xs" using assms(4,5) by simp
  moreover have "sorted (map (pending_rank_of (entries s)) ?xs)"
    using assms(1) by (simp add: sorted_pending_def sorted_filter)
  ultimately have "pending_rank_of (entries s) a \<le> pending_rank_of (entries s) j" by (auto simp: xs)
  moreover have "a \<in> set ?xs" using xs by simp
  ultimately show ?thesis by simp
qed

lemma shown_toast_first:
  assumes "sorted_pending s" and "i \<in> set (next_toasts s)" and "j \<in> set (pending s)"
    and "presents (entries s) Toast j" and "j \<notin> set (next_toasts s)"
  shows "pending_rank_of (entries s) i \<le> pending_rank_of (entries s) j"
proof -
  let ?xs = "filter (presents (entries s) Toast) (pending s)"
  have "sorted (map (pending_rank_of (entries s)) ?xs)"
    using assms(1) by (simp add: sorted_pending_def sorted_filter)
  moreover have "j \<in> set ?xs" using assms(3,4) by simp
  ultimately show ?thesis
    using assms(2,5) unfolding next_toasts_def by (metis sorted_map_take)
qed

text \<open>
  Nothing overtakes in the queue: a Toast that rebalancing puts on display goes before
  every Toast it leaves waiting, and a promoted Attention Gate goes before every Gate that was
  waiting (higher priority first, among equals the older one).
\<close>

theorem display_order:
  assumes "wf_core s" and "sorted_pending s" and "last_now s = now" and "rebalance now w s = (Inr (), t)"
  shows "(\<forall>i \<in> set (pending s). \<forall>j \<in> set (pending t).
       i \<in> set (active_toasts t) \<and> displayed_as s Toast j \<longrightarrow> entry_before s i j)
    \<and> (\<forall>a. active_attention s = None \<and> active_attention t = Some a \<longrightarrow>
       (\<forall>j \<in> set (pending s). displayed_as s Attention j \<longrightarrow> entry_before s a j))"
proof -
  have t: "t = rebalance_spec now w s" using assms(4) by (simp add: rebalance_refines assms(1,3))
  have shown: "displayed_as s p j \<Longrightarrow> presents (entries s) p j" for p j
    by (auto simp: displayed_as_def live_notification_def presents_def split: option.splits)
  let ?p = "promote_spec s"
  have toast: "entry_before s i j"
    if i: "i \<in> set (pending s)" "i \<in> set (active_toasts t)" and j: "j \<in> set (pending t)" "displayed_as s Toast j"
    for i j
  proof -
    have "i \<notin> set (active_toasts s)" using assms(1) i(1) by (auto simp: core_defs located_def)
    then have full: "fill_spec ?p = fill_now ?p" and new: "i \<in> set (next_toasts ?p)"
      using i(2) by (auto simp: t rebalance_spec_def frame_simps fill_spec_def fill_now_def split: if_splits)
    have j': "j \<in> set (pending ?p)" "j \<notin> set (next_toasts ?p)"
      using j(1) full by (auto simp: t rebalance_spec_def frame_simps fill_now_def)
    have sub: "set (pending ?p) \<subseteq> set (pending s)"
      by (auto simp: promote_spec_def split: list.splits)
    have sorted: "sorted_pending ?p"
      using assms(2) by (auto simp: sorted_pending_def promote_spec_def sorted_filter split: list.splits)
    have "pending_rank_of (entries ?p) i \<le> pending_rank_of (entries ?p) j"
      by (rule shown_toast_first [OF sorted new j'(1) _ j'(2)]) (use shown [OF j(2)] in \<open>simp add: frame_simps\<close>)
    then show ?thesis
      using i(1) j'(1) sub by (subst entry_before_rank [OF assms(1)]) (auto simp: frame_simps)
  qed
  have gate: "entry_before s a j"
    if "active_attention s = None" "active_attention t = Some a" "j \<in> set (pending s)" "displayed_as s Attention j"
    for a j
  proof -
    have a: "active_attention ?p = Some a" using that(2) by (simp add: t rebalance_spec_def frame_simps)
    from promoted_first [OF assms(2) that(1) a that(3) shown [OF that(4)]] that(3)
    show ?thesis by (simp add: entry_before_rank [OF assms(1)])
  qed
  from toast gate show ?thesis by blast
qed

definition demo_waiting :: scheduler where
  "demo_waiting = available_spec True (run_machine sched_step demo_new
     [(SubmitCall 1 (demo_draft Attention None), 0, 0)])"

lemma demo_waiting_wf: "wf_core demo_waiting" "sorted_pending demo_waiting" "last_now demo_waiting = 0"
proof -
  let ?s = "run_machine sched_step demo_new [(SubmitCall 1 (demo_draft Attention None), 0, 0)]"
  have "wf_sched ?s"
    by (rule sched.run_inv) (simp_all add: demo_new_def scheduler_new_wf, simp add: run_defs)
  then show "wf_core demo_waiting" "sorted_pending demo_waiting"
    by (simp_all add: demo_waiting_def available_spec_wf wf_sched_def sorted_pending_def frame_simps
        del: run_machine.simps)
  show "last_now demo_waiting = 0" by (simp add: demo_waiting_def available_spec_def run_defs)
qed

lemma display_order_witness:
  "active_attention (rebalance_spec 0 0 demo_waiting) = Some 1 \<and> entry_before demo_waiting 1 1"
proof -
  have att: "active_attention demo_waiting = None" "active_attention (rebalance_spec 0 0 demo_waiting) = Some 1"
    "1 \<in> set (pending demo_waiting)" "displayed_as demo_waiting Attention 1"
    by (simp_all add: demo_waiting_def available_spec_def run_defs rebalance_spec_def frame_simps
        promote_spec_def presents_code displayed_as_def live_notification_def)
  from display_order [OF demo_waiting_wf rebalance_refines [OF demo_waiting_wf(1,3)], of 0, THEN conjunct2] att
  show ?thesis by blast
qed

section \<open>The pending limit\<close>

lemma sorted_map_take_rev:
  assumes "sorted (map f (rev xs))" and "x \<in> set (take n xs)" and "y \<in> set xs" and "y \<notin> set (take n xs)"
  shows "f y \<le> f x"
proof -
  have "sorted (map f (rev (take n xs @ drop n xs)))"
    using assms(1) by (metis append_take_drop_id)
  then have "sorted (map f (rev (drop n xs)) @ map f (rev (take n xs)))"
    by (simp only: rev_append map_append)
  moreover have "y \<in> set (drop n xs)"
    using assms(3,4) by (metis Un_iff append_take_drop_id set_append)
  ultimately show ?thesis using assms(2) unfolding sorted_append by (metis list.set_map set_rev image_eqI)
qed

lemma overflow_last:
  assumes "wf_core s" and "sorted_pending s" and "x \<in> set (overflow s)" and "y \<in> set (pending s)"
    and "y \<notin> set (overflow s)" and "is_unpinned (entries s) y"
  shows "entry_before s y x"
proof -
  have "sorted (map (pending_rank_of (entries s)) (rev (filter (is_unpinned (entries s)) (rev (pending s)))))"
    using assms(2) by (simp add: rev_filter sorted_pending_def sorted_filter)
  moreover have "y \<in> set (filter (is_unpinned (entries s)) (rev (pending s)))" using assms(4,6) by simp
  ultimately have "pending_rank_of (entries s) y \<le> pending_rank_of (entries s) x"
    using assms(3,5) unfolding overflow_def by (metis sorted_map_take_rev)
  moreover have "x \<in> set (pending s)" using assms(3) overflow_sub by blast
  ultimately show ?thesis by (simp add: entry_before_rank [OF assms(1,4)])
qed

text \<open>
  Enforcing the pending limit closes exactly as many Notifications as are over the
  limit, none of them with a jump in flight, each of them behind every other candidate that stays,
  and leaves the rest alone; when the Notifications pinned by a jump alone exceed the limit, and
  only then, the \<open>expect\<close> panics.
\<close>

theorem enforce_pending_limit_correct:
  assumes "wf_core s" and "sorted_pending s"
  shows "if pinned_pending s \<le> max_pending (limits s)
     then \<exists>ids t. enforce_pending_limit w s = (Inr ids, t)
       \<and> distinct ids \<and> set ids \<subseteq> set (pending s)
       \<and> length ids = length (pending s) - max_pending (limits s)
       \<and> (\<forall>i \<in> set ids. is_unpinned (entries s) i)
       \<and> (\<forall>i \<in> set ids. \<forall>j \<in> set (pending s) - set ids. is_unpinned (entries s) j \<longrightarrow> entry_before s j i)
       \<and> entries t = (\<lambda>i. if i \<in> set ids then None else entries s i)
       \<and> pending t = filter (\<lambda>i. i \<notin> set ids) (pending s)
       \<and> active_toasts t = active_toasts s \<and> active_attention t = active_attention s
     else fst (enforce_pending_limit w s) = Inl Panic"
proof (cases "pinned_pending s \<le> max_pending (limits s)")
  case True
  have "\<forall>i \<in> set (overflow s). is_unpinned (entries s) i"
    by (auto simp: overflow_def dest: in_set_takeD)
  with True show ?thesis
    using enforce_refines [OF assms(1) True, of w] overflow_sub [of s]
      overflow_distinct [OF wf_core_distinct_pending [OF assms(1)]] length_overflow [OF True]
      overflow_last [OF assms] close_all_places [OF assms(1), where ids = "overflow s" and r = RenderSuppressed and w = w]
      overflow_closed_places [OF assms(1), of RenderSuppressed w]
      close_all_entries [where ids = "overflow s" and r = RenderSuppressed and w = w and s = s]
    by (simp add: exI [of _ "overflow s"])
next
  case False
  with assms(1) show ?thesis by (simp add: enforce_panics)
qed

lemma enforce_pending_limit_correct_witness:
  "\<exists>t. enforce_pending_limit 3 (run_machine sched_step demo_new demo_calls) = (Inr [], t)"
proof -
  let ?s = "run_machine sched_step demo_new demo_calls"
  have c: "wf_core ?s" "sorted_pending ?s" using demo_wf by (simp_all add: wf_sched_def)
  have l: "pinned_pending ?s \<le> max_pending (limits ?s)" "length (pending ?s) = max_pending (limits ?s)"
    by (simp_all add: demo_calls_def run_defs pinned_pending_def)
  from enforce_pending_limit_correct [OF c, of 3] l show ?thesis by auto
qed

section \<open>Timers\<close>

text \<open>Showing and hiding a Toast over a list of intervals, each from a start to an end.\<close>

fun play :: "(monotonic_time \<times> monotonic_time) list \<Rightarrow> timeout_state \<Rightarrow> scheduler_error + timeout_state" where
  "play [] t = Inr t"
| "play ((a, b) # rest) t =
     (case timeout_set_running t a True of
        Inl e \<Rightarrow> Inl e
      | Inr t1 \<Rightarrow> (case timeout_set_running t1 b False of Inl e \<Rightarrow> Inl e | Inr t2 \<Rightarrow> play rest t2))"

definition shown_time :: "(monotonic_time \<times> monotonic_time) list \<Rightarrow> duration" where
  "shown_time ivs = sum_list (map (\<lambda>(a, b). b - a) ivs)"

lemma play_paused:
  "\<forall>(a, b) \<in> set ivs. a \<le> b \<Longrightarrow> play ivs (Remaining d None) = Inr (Remaining (d - shown_time ivs) None)"
  by (induction ivs arbitrary: d) (auto simp: shown_time_def elapsed_since_def)

text \<open>
  A timeout counts the time on display only: a Toast shown over any intervals and then
  again from \<open>start\<close> has expired at \<open>now\<close> exactly when the intervals and the time since \<open>start\<close>
  together reach its duration; \<open>Never\<close> does not expire.
\<close>

theorem timeout_counts_time_on_display:
  assumes "\<forall>(a, b) \<in> set ivs. a \<le> b" and "start \<le> now"
  shows "(\<exists>t t'. play ivs (timeout_state_new (After d)) = Inr t \<and> timeout_set_running t start True = Inr t'
       \<and> timeout_expired t' now = Inr (d \<le> shown_time ivs + (now - start)))
     \<and> play ivs (timeout_state_new Never) = Inr TimerNever
     \<and> timeout_expired TimerNever now = Inr False"
proof -
  have never: "play ivs TimerNever = Inr TimerNever" by (induction ivs) auto
  have "d - shown_time ivs \<le> now - start \<longleftrightarrow> d \<le> shown_time ivs + (now - start)" by linarith
  with assms show ?thesis by (simp add: play_paused elapsed_since_def never)
qed

lemma timeout_counts_time_on_display_witness:
  "play [(0, 2), (5, 6)] (timeout_state_new Never) = Inr TimerNever
   \<and> (\<exists>t t'. play [(0, 2), (5, 6)] (timeout_state_new (After 4)) = Inr t
        \<and> timeout_set_running t 9 True = Inr t' \<and> timeout_expired t' 10 = Inr True)"
  using timeout_counts_time_on_display [of "[(0, 2), (5, 6)]" 9 10 4] by (simp add: shown_time_def)

lemma has_expired_iff:
  assumes "wf_core s" and "last_now s \<le> now"
  shows "has_expired s now i \<longleftrightarrow> (\<exists>e d start. entries s i = Some e
     \<and> le_timeout e = Remaining d (Some start) \<and> d \<le> now - start)"
proof (cases "entries s i")
  case (Some e)
  with assms have "timer_ok (last_now s) (le_timeout e)" by (auto simp: core_defs)
  with Some assms(2) show ?thesis
    by (cases "(le_timeout e, now)" rule: timeout_expired.cases) (auto simp: has_expired_def elapsed_since_def)
qed (simp add: has_expired_def)

lemma running_timer_active:
  assumes "wf_core s" and "entries s i = Some e" and "le_timeout e = Remaining d (Some start)"
  shows "i \<in> set (active_toasts s)"
  using entry_facts(2) [OF assms(1,2)] assms(3) by fastforce

text \<open>
  Advancing the clock closes exactly the Notifications whose running timer has used up
  its duration; every other one stays live with its content, and an Attention Gate never times
  out. Afterwards the timers that run are exactly those of the Toasts on display without a jump in
  flight.
\<close>

theorem advance_expires:
  assumes "wf_sched s" and "last_now s \<le> now"
  shows "\<exists>t. advance now w s = (Inr (), t) \<and> timers_settled t \<and> last_now t = now
    \<and> (\<forall>i e. entries s i = Some e \<longrightarrow>
        (entries t i = None \<longleftrightarrow> (\<exists>d start. le_timeout e = Remaining d (Some start) \<and> d \<le> now - start))
        \<and> (n_presentation (le_notification e) = Attention \<longrightarrow> entries t i \<noteq> None))
    \<and> (\<forall>i. entries s i = None \<longrightarrow> entries t i = None)"
proof -
  let ?t = "prepare_spec now w s"
  have core: "wf_core s" using assms(1) by (rule wf_sched_core)
  have run: "advance now w s = (Inr (), ?t)"
    using assms by (simp add: advance_def prepare_time_eq core)
  have gone: "entries ?t i = None \<longleftrightarrow> entries s i = None \<or> i \<in> set (expired_ids now s)" for i
    by (metis DiffD1 DiffD2 DiffI domIff prepare_dom)
  have exp: "entries ?t i = None \<longleftrightarrow> (\<exists>d start. le_timeout e = Remaining d (Some start) \<and> d \<le> now - start)"
    if e: "entries s i = Some e" for i e
    using e running_timer_active [OF core e] by (auto simp: gone expired_ids_def has_expired_iff core assms(2))
  have gate: "entries ?t i \<noteq> None"
    if "entries s i = Some e" "n_presentation (le_notification e) = Attention" for i e
  proof -
    have "i \<notin> set (active_toasts s)" using core that by (auto simp: core_defs presents_def)
    with that(1) show ?thesis by (simp add: gone expired_ids_def)
  qed
  from exp gate gone run show ?thesis
    by (intro exI [of _ ?t]) (simp add: prepare_spec_wf assms frame_simps)
qed

lemma advance_expires_witness:
  "\<exists>t. advance 9 9 (run_machine sched_step demo_new (take 2 demo_calls)) = (Inr (), t) \<and> entries t 1 = None"
proof -
  let ?s = "run_machine sched_step demo_new (take 2 demo_calls)"
  have wf: "wf_sched ?s"
    by (rule sched.run_inv) (simp_all add: demo_new_def scheduler_new_wf, simp add: demo_calls_def run_defs)
  have e: "last_now ?s \<le> 9" "\<exists>e. entries ?s 1 = Some e \<and> le_timeout e = Remaining 3 (Some 0)"
    by (simp_all add: demo_calls_def run_defs)
  obtain t where "advance 9 9 ?s = (Inr (), t)" "entries t 1 = None"
    using advance_expires [OF wf e(1), of 9] e(2) by fastforce
  then show ?thesis by blast
qed

section \<open>Submitting\<close>

text \<open>
  Submitting a draft whose key is free (or that has none) creates exactly one
  Notification: the outcome carries the new ID, the pending queue ends within its limit, the
  disposition is \<open>Suppressed\<close> exactly when the new one had to make room itself, \<open>ShownNow\<close>
  exactly when it is on display, and no other ID becomes live.
\<close>

theorem submit_new_correct:
  assumes "wf_sched s" and "last_now s \<le> now" and "entries s new_id = None" and "wf_draft draft"
    and "jumps_in_flight s \<le> max_pending (limits s)"
    and "Option.bind (d_key draft) (live_keys (snd (prepare_time now w s))) = None"
  shows "\<exists>out t. submit new_id draft now w s = (Inr out, t) \<and> so_id out = new_id
    \<and> wf_sched t \<and> limits t = limits s \<and> length (pending t) \<le> max_pending (limits s)
    \<and> (so_disposition out = Suppressed \<longleftrightarrow> entries t new_id = None)
    \<and> (so_disposition out = ShownNow \<longleftrightarrow> entries t new_id \<noteq> None \<and> is_desired_visible t new_id)
    \<and> (\<forall>i. entries t i \<noteq> None \<longrightarrow> i = new_id \<or> entries s i \<noteq> None)"
proof -
  let ?p = "prepare_spec now w s"
  have prep: "snd (prepare_time now w s) = ?p" using assms(1,2) by (simp add: prepare_time_eq wf_sched_core)
  have p: "wf_sched ?p" "last_now ?p = now" using assms(1,2) by (simp_all add: prepare_spec_wf frame_simps)
  have fresh: "entries ?p new_id = None" using assms(3) by (metis DiffD1 domIff prepare_dom)
  have key: "Option.bind (d_key draft) (live_keys ?p) = None" using assms(6) by (simp add: prep)
  let ?q = "queued_spec new_id draft now w ?p"
  let ?t = "close_all (overflow ?q) RenderSuppressed w ?q"
  have q: "wf_sched ?q" by (rule queued_spec_wf [OF p(1) fresh assms(4) key p(2)])
  have qdom: "entries ?q i \<noteq> None \<longleftrightarrow> i = new_id \<or> entries ?p i \<noteq> None" for i
  proof -
    have "entries (enqueue_new new_id draft w ?p) i \<noteq> None \<longleftrightarrow> i = new_id \<or> entries ?p i \<noteq> None"
      by (simp add: enqueue_new_def Let_def)
    then show ?thesis
      unfolding queued_spec_def rebalance_None by (simp only: sort_spec_frame)
  qed
  have tdom: "entries ?t i \<noteq> None \<longleftrightarrow> (i = new_id \<or> entries ?p i \<noteq> None) \<and> i \<notin> set (overflow ?q)" for i
    using qdom [of i] by (simp add: close_all_entries)
  have "pinned_pending ?q \<le> card (pinned_ids ?q)" by (rule pinned_pending_le) (rule wf_sched_core [OF q])
  also have "\<dots> \<le> card (pinned_ids s)"
    using prepare_pinned [of now w s] finite_pinned [OF wf_sched_core [OF assms(1)]]
    by (simp add: queued_spec_pinned fresh card_mono)
  finally have fits: "pinned_pending ?q \<le> max_pending (limits ?q)"
    using assms(1,5) by (simp add: frame_simps jumps_in_flight_card wf_sched_core)
  have run: "submit new_id draft now w s = (Inr (outcome_of new_id (overflow ?q) ?t), bump_content_revision ?t)"
    using assms key by (simp add: submit_eq submit_spec_def Let_def jumps_in_flight_card wf_sched_core)
  have "limits ?t = limits s" by (simp add: frame_simps)
  moreover have "length (pending ?t) \<le> max_pending (limits s)"
    using overflow_closed_length [OF wf_sched_core [OF q] fits] by (simp add: frame_simps)
  moreover have "wf_sched (bump_content_revision ?t)" by (simp add: bump_wf_sched overflow_closed_wf q)
  moreover have "entries ?p i \<noteq> None \<Longrightarrow> entries s i \<noteq> None" for i
    by (metis DiffD1 domIff prepare_dom)
  moreover have "entries ?t new_id = None \<longleftrightarrow> new_id \<in> set (overflow ?q)" using tdom [of new_id] by auto
  moreover have "is_desired_visible (bump_content_revision ?t) = is_desired_visible ?t"
    by (simp add: is_desired_visible_def frame_simps fun_eq_iff)
  moreover have "entries ?t i \<noteq> None \<longrightarrow> i = new_id \<or> entries ?p i \<noteq> None" for i using tdom [of i] by blast
  ultimately show ?thesis
    unfolding run by (simp add: outcome_of_def bump_frame) blast
qed

lemma submit_new_correct_witness:
  "\<exists>out t. submit 4 (demo_draft Toast None) 3 3 (run_machine sched_step demo_new demo_calls) = (Inr out, t)
     \<and> length (pending t) \<le> 1"
proof -
  let ?s = "run_machine sched_step demo_new demo_calls"
  have pre: "last_now ?s \<le> 3" "entries ?s 4 = None" "jumps_in_flight ?s \<le> max_pending (limits ?s)"
    "Option.bind (d_key (demo_draft Toast None)) (live_keys (snd (prepare_time 3 3 ?s))) = None"
    by (simp_all add: demo_calls_def run_defs)
  have one: "max_pending (limits ?s) = 1" by (simp add: demo_calls_def run_defs)
  show ?thesis
    using submit_new_correct [OF demo_wf pre(1,2) demo_draft_wf(1) pre(3,4), unfolded one]
    by (elim exE conjE) (intro exI conjI)
qed

text \<open>
  A draft with a key that is live addresses that Notification: its ID is kept, no new
  Notification appears, identical content changes nothing beyond the passage of time, and changed
  content replaces the content of this entry only, keeping its age.
\<close>

theorem submit_keyed_correct:
  assumes "wf_sched s" and "last_now s \<le> now" and "entries s new_id = None" and "wf_draft draft"
    and "jumps_in_flight s \<le> max_pending (limits s)"
    and "p = snd (prepare_time now w s)" and "d_key draft = Some k" and "live_keys p k = Some i"
    and "entries p i = Some e"
  shows "if has_same_content (le_notification e) draft
     then submit new_id draft now w s = (Inr \<lparr>so_id = i, so_disposition = Duplicate\<rparr>, p)
     else \<exists>t e'. submit new_id draft now w s = (Inr \<lparr>so_id = i, so_disposition = Updated\<rparr>, t)
       \<and> dom (entries t) = dom (entries p) \<and> live_keys t = live_keys p
       \<and> entries t i = Some e' \<and> le_sequence e' = le_sequence e \<and> le_jump_nonce e' = le_jump_nonce e
       \<and> has_same_content (le_notification e') draft"
proof -
  have p: "p = prepare_spec now w s" using assms(1,2,6) by (simp add: prepare_time_eq wf_sched_core)
  have run: "submit new_id draft now w s = keyed_spec draft now w i e p"
    using assms(1-5,7-9) by (simp add: submit_eq submit_spec_def p jumps_in_flight_card wf_sched_core)
  let ?r = "replace_spec draft now w i e p"
  let ?t = "bump_content_revision (rebalance_spec now w (sort_spec ?r))"
  have r: "entries ?r = (entries p)(i \<mapsto> updated_entry (replace_content draft w (le_notification e)) p now i e)"
    "live_keys ?r = live_keys p"
    by (simp_all add: replace_spec_def to_pending_def Let_def)
  have "entries ?t i \<noteq> None" by (simp add: frame_simps rebalance_None r)
  then obtain e' where e': "entries ?t i = Some e'" by blast
  then have "entries (rebalance_spec now w (sort_spec ?r)) i = Some e'" by (simp add: frame_simps)
  from rebalance_entry [OF this] obtain f where f: "entries ?r i = Some f"
    and n: "le_notification e' = le_notification f \<or> le_notification e' = mark_visible w (le_notification f)"
    and fe: "le_sequence e' = le_sequence f" "le_jump_nonce e' = le_jump_nonce f"
    by (auto simp: frame_simps)
  have "f = updated_entry (replace_content draft w (le_notification e)) p now i e" using f by (simp add: r)
  with n fe have "le_sequence e' = le_sequence e" "le_jump_nonce e' = le_jump_nonce e"
    "has_same_content (le_notification e') draft"
    by (auto simp: updated_entry_def has_same_content_def replace_content_def mark_visible_def)
  moreover have "dom (entries ?t) = dom (entries p)"
    using assms(9) by (simp add: frame_simps rebalance_dom r insert_absorb domIff)
  moreover have "live_keys ?t = live_keys p" by (simp add: frame_simps r)
  ultimately show ?thesis using run e' by (simp add: keyed_spec_def)
qed

lemma submit_keyed_correct_witness:
  "\<exists>t. submit 9 (demo_draft Toast (Some demo_key)) 2 2 (run_machine sched_step demo_new demo_calls)
     = (Inr \<lparr>so_id = 1, so_disposition = Duplicate\<rparr>, t)"
proof -
  let ?s = "run_machine sched_step demo_new demo_calls" and ?d = "demo_draft Toast (Some demo_key)"
  let ?p = "snd (prepare_time 2 2 ?s)"
  have pre: "last_now ?s \<le> 2" "entries ?s 9 = None" "jumps_in_flight ?s \<le> max_pending (limits ?s)"
    "d_key ?d = Some demo_key" "live_keys ?p demo_key = Some 1"
    by (simp_all add: demo_calls_def run_defs)
  have "\<exists>e. entries ?p 1 = Some e \<and> has_same_content (le_notification e) ?d"
    by (simp add: demo_calls_def run_defs)
  then obtain e where e: "entries ?p 1 = Some e" "has_same_content (le_notification e) ?d" by blast
  from submit_keyed_correct [OF demo_wf pre(1,2) demo_draft_wf(2) pre(3) refl pre(4,5) e(1)] e(2)
  show ?thesis by simp
qed

section \<open>Closing and shutdown\<close>

text \<open>
  Closing: a live ID is closed with the given reason, its record is the newest of the
  log, its key becomes free, and no other Notification is affected; an ID that is not live (any
  more, once expired Toasts are gone) is refused without a change.
\<close>

theorem close_correct:
  assumes "wf_sched s" and "last_now s \<le> now" and "p = snd (prepare_time now w s)"
  shows "case entries p i of
      None \<Rightarrow> close i r now w s = (Inl (Fail NotificationNotLive), p)
    | Some e \<Rightarrow> \<exists>t. close i r now w s = (Inr (), t)
        \<and> dom (entries t) = dom (entries p) - {i}
        \<and> last (closed t) = close_notification r w (le_notification e)
        \<and> length (closed t) \<le> closed_capacity t
        \<and> (\<forall>k j. live_keys t k = Some j \<longleftrightarrow> live_keys p k = Some j \<and> j \<noteq> i)"
proof -
  have p: "p = prepare_spec now w s" using assms by (simp add: prepare_time_eq wf_sched_core)
  have wf: "wf_sched p" "last_now p = now" using assms(1,2) by (simp_all add: p prepare_spec_wf frame_simps)
  show ?thesis
  proof (cases "entries p i")
    case None
    with assms(1,2) show ?thesis by (simp add: close_eq p)
  next
    case (Some e)
    let ?c = "close_inner i r w p"
    let ?t = "rebalance_spec now w ?c"
    have run: "close i r now w s = (Inr (), ?t)" using assms(1,2) Some by (simp add: close_eq p)
    have t: "wf_sched ?t" by (rule close_state_wf [OF wf])
    have keys: "live_keys ?t k = Some j \<longleftrightarrow> live_keys p k = Some j \<and> j \<noteq> i" for k j
    proof -
      have "live_keys ?t k = Some j \<longleftrightarrow> (\<exists>f. entries ?c j = Some f \<and> n_key (le_notification f) = Some k)"
        using wf_keysD [OF close_inner_wf [OF wf_sched_core [OF wf(1)]]] by (simp add: frame_simps)
      also have "\<dots> \<longleftrightarrow> live_keys p k = Some j \<and> j \<noteq> i"
        using wf_keysD [OF wf_sched_core [OF wf(1)], of k j] by (auto simp: close_inner_entries)
      finally show ?thesis .
    qed
    have "dom (entries ?t) = dom (entries p) - {i}" by (simp add: rebalance_dom close_inner_entries)
    moreover have "last (closed ?t) = close_notification r w (le_notification e)"
      using Some by (simp add: frame_simps close_inner_closed)
    moreover have "length (closed ?t) \<le> closed_capacity ?t" using t by (simp add: wf_sched_def closed_bounded_def)
    ultimately show ?thesis using Some run keys by simp
  qed
qed

lemma close_correct_witness:
  "\<exists>t. close 2 Dismissed 2 2 (run_machine sched_step demo_new demo_calls) = (Inr (), t)
     \<and> n_close_reason (last (closed t)) = Some Dismissed"
proof -
  let ?s = "run_machine sched_step demo_new demo_calls"
  have "last_now ?s \<le> 2" "entries (snd (prepare_time 2 2 ?s)) 2 \<noteq> None"
    by (simp_all add: demo_calls_def run_defs)
  with close_correct [OF demo_wf _ refl, where now = 2 and w = 2 and i = 2 and r = Dismissed] show ?thesis by fastforce
qed

lemma close_all_log:
  assumes "distinct ids" and "\<forall>i \<in> set ids. entries s i \<noteq> None"
    and "length (closed s) + length ids \<le> closed_capacity s"
  shows "closed (close_all ids r w s)
    = closed s @ map (\<lambda>i. close_notification r w (le_notification (the (entries s i)))) ids"
  using assms
proof (induction ids arbitrary: s)
  case (Cons i ids)
  then obtain e where e: "entries s i = Some e" by auto
  let ?s = "close_inner i r w s"
  have "closed ?s = closed s @ [close_notification r w (le_notification e)]"
    using Cons.prems(3) by (simp add: close_inner_closed [OF e])
  moreover have "\<forall>j \<in> set ids. entries ?s j = entries s j"
    using Cons.prems(1) by (auto simp: close_inner_entries)
  moreover have "closed (close_all ids r w ?s)
      = closed ?s @ map (\<lambda>j. close_notification r w (le_notification (the (entries ?s j)))) ids"
    using Cons.prems calculation by (intro Cons.IH) (auto simp: frame_simps)
  ultimately show ?case using e by simp
qed simp

text \<open>
  Shutdown, in whatever order the hash map yields the live IDs: afterwards nothing is
  live, queued or displayed and no key is taken, and when the log has room for them every live
  Notification is in it, closed with the reason of the shutdown.
\<close>

theorem shutdown_correct:
  assumes "wf_sched s" and "last_now s \<le> now" and "p = snd (prepare_time now w s)"
    and "distinct ids" and "set ids = dom (entries p)"
  shows "\<exists>t. shutdown (\<lambda>_. ids) r now w s = (Inr (), t)
    \<and> entries t = Map.empty \<and> live_keys t = Map.empty \<and> pending t = [] \<and> active_toasts t = []
    \<and> active_attention t = None
    \<and> (length (closed p) + length ids \<le> closed_capacity p \<longrightarrow> closed t = closed p
        @ map (\<lambda>i. close_notification (shutdown_close_reason r) w (the (live_notification p i))) ids)"
proof -
  have p: "p = prepare_spec now w s" using assms(1-3) by (simp add: prepare_time_eq wf_sched_core)
  have core: "wf_core p" using assms(1,2) by (simp add: p prepare_spec_wf wf_sched_core)
  let ?r = "shutdown_close_reason r"
  let ?t = "close_all ids ?r w p"
  have run: "shutdown (\<lambda>_. ids) r now w s = (Inr (), ?t)"
    using assms(1,2) by (simp add: shutdown_eq p)
  note empty = close_all_live_places [OF core assms(5), of ?r w]
  have "live_keys ?t k = None" for k
    using wf_keysD [OF close_all_wf [OF core, where ids = ids and r = ?r and w = w], of k] empty(1)
    by (metis empty_iff domIff dom_empty not_None_eq)
  then have "live_keys ?t = Map.empty" by (simp add: fun_eq_iff)
  moreover have "closed ?t = closed p @ map (\<lambda>i. close_notification ?r w (the (live_notification p i))) ids"
    if "length (closed p) + length ids \<le> closed_capacity p"
  proof -
    have live: "\<forall>i \<in> set ids. entries p i \<noteq> None" using assms(5) by auto
    have "map (\<lambda>i. close_notification ?r w (le_notification (the (entries p i)))) ids
        = map (\<lambda>i. close_notification ?r w (the (live_notification p i))) ids"
      using live by (auto simp: live_notification_def)
    with close_all_log [OF assms(4) live that, of ?r w] show ?thesis by simp
  qed
  ultimately show ?thesis using run empty by blast
qed

lemma shutdown_correct_witness:
  "\<exists>t. shutdown (\<lambda>_. [1, 2, 3]) ShutdownStopped 2 2 (run_machine sched_step demo_new demo_calls) = (Inr (), t)
     \<and> length (closed t) = 3"
proof -
  let ?s = "run_machine sched_step demo_new demo_calls" and ?ids = "[1, 2, 3] :: notification_id list"
  let ?p = "snd (prepare_time 2 2 ?s)"
  have now: "last_now ?s \<le> 2" and d: "distinct ?ids" and dom: "set ?ids = dom (entries ?p)"
    and len: "length (closed ?p) = 0" "closed_capacity ?p = 3"
    by (simp add: demo_calls_def run_defs, simp, simp add: demo_calls_def run_defs, auto simp: demo_calls_def run_defs sat_add_def)
  from shutdown_correct [OF demo_wf now refl d dom, of ShutdownStopped] len show ?thesis by auto
qed

section \<open>Jumps\<close>

lemma begin_spec_Inr:
  assumes "begin_spec i p = (Inr intent, t)"
  obtains e source where "entries p i = Some e" "le_jump_nonce e = None"
    and "n_source (le_notification e) = Some source"
    and "intent = \<lparr>ji_notification_id = i, ji_nonce = next_jump_nonce p, ji_source = source\<rparr>"
    and "t = p\<lparr>entries := (entries p)(i \<mapsto> pinned_entry p i e), next_jump_nonce := next_jump_nonce p + 1\<rparr>"
  using assms by (auto simp: begin_spec_def split: option.splits if_splits)

lemma pinned_paused:
  assumes "timers_settled p" and "wf_core p" and "entries p i = Some e" and "le_jump_nonce e = None"
  shows "timer_paused (le_timeout (pinned_entry p i e))"
proof (cases "toast_timer_should_run p i")
  case False
  then have "r = None" if "le_timeout e = Remaining d r" for d r
    using assms(1,3) that unfolding timers_settled_def by metis
  with False show ?thesis by (cases "le_timeout e") (auto simp: pinned_entry_def)
qed (simp add: pinned_entry_def settle_timer_paused)

lemma paused_not_expired: "entries s i = Some e \<Longrightarrow> timer_paused (le_timeout e) \<Longrightarrow> \<not> has_expired s now i"
  by (cases "(le_timeout e, now)" rule: timeout_expired.cases) (auto simp: has_expired_def)

lemma prepare_keeps:
  assumes "entries s i = Some e" and "timer_paused (le_timeout e)"
  obtains f where "entries (prepare_spec now w s) i = Some f" and "le_jump_nonce f = le_jump_nonce e"
proof -
  have alive: "i \<notin> set (expired_ids now s)"
    using paused_not_expired [OF assms] by (simp add: expired_ids_def)
  then have "entries (prepare_spec now w s) i \<noteq> None"
    using assms(1) by (metis DiffI domIff option.distinct(1) prepare_dom)
  then obtain f where f: "entries (prepare_spec now w s) i = Some f" by blast
  from rebalance_entry [OF f [unfolded prepare_spec_def]]
  obtain g where g: "entries (close_expired now w (s\<lparr>last_now := now\<rparr>)) i = Some g" "le_jump_nonce f = le_jump_nonce g"
    by auto
  then have "g = e" using alive assms(1) by (simp add: close_expired_eq close_all_entries split: if_splits)
  with f g that show thesis by blast
qed



section \<open>What the model brings to light\<close>

text \<open>
  A change of the limits panics exactly when the Notifications pinned by a jump that
  would have to wait under the new limits are more than the new pending limit; otherwise it
  succeeds, keeps the invariant and leaves the queue and the log within the new bounds.
\<close>

theorem update_limits_correct:
  assumes "wf_sched s" and "last_now s \<le> now" and "p = snd (prepare_time now w s)" and "limits p \<noteq> l"
  shows "(fst (update_limits l now w s) = Inl Panic \<longleftrightarrow> max_pending l < pinned_pending (relimited_spec l now w p))
    \<and> (fst (update_limits l now w s) \<noteq> Inl Panic \<longrightarrow>
         (\<exists>t. update_limits l now w s = (Inr (), t) \<and> wf_sched t \<and> limits t = l
            \<and> length (pending t) \<le> max_pending l \<and> length (closed t) \<le> closed_capacity_for l))"
proof -
  have p: "p = prepare_spec now w s" "wf_sched p" "last_now p = now"
    using assms(1-3) by (simp_all add: prepare_time_eq wf_sched_core prepare_spec_wf frame_simps)
  show ?thesis
  proof (cases "relimit_panics l now w p")
    case True
    then show ?thesis
      using update_limits_panics [OF assms(1,2)] by (simp add: p(1) [symmetric]) (simp add: relimit_panics_def)
  next
    case False
    let ?t = "update_limits_spec l now w p"
    have run: "update_limits l now w s = (Inr (), ?t)"
      using update_limits_eq [OF assms(1), of l now w] False assms(2) by (simp add: p(1))
    have t: "wf_sched ?t" by (rule update_limits_spec_wf [OF p(2,3)])
    have "limits ?t = l"
      using assms(4) by (simp add: update_limits_spec_def Let_def frame_simps relimited_spec_ok(5) [OF p(2,3)])
    with t have "length (closed ?t) \<le> closed_capacity_for l" by (simp add: wf_sched_def closed_bounded_def)
    with False assms(4) run t \<open>limits ?t = l\<close> update_limits_spec_pending [OF p(2,3) assms(4) False]
    show ?thesis by (simp add: relimit_panics_def)
  qed
qed

definition panic_calls :: "timed_call list" where
  "panic_calls =
     [(SubmitCall 1 (demo_draft Toast None), 0, 0), (BeginJumpCall 1, 0, 0),
      (SubmitCall 2 (demo_draft Toast None), 0, 0), (BeginJumpCall 2, 0, 0)]"

definition two_limits :: scheduler_limits where
  "two_limits = \<lparr>max_pending = 2, max_visible_toasts = 1\<rparr>"

lemma update_limits_correct_witness:
  "\<exists>s. wf_sched s \<and> fst (update_limits demo_limits 0 0 s) = Inl Panic"
proof -
  let ?s = "run_machine sched_step (scheduler_new two_limits 0) panic_calls"
  have "enabled_run sched_step sched_guard (scheduler_new two_limits 0) panic_calls"
    by (simp add: panic_calls_def two_limits_def run_defs)
  then have wf: "wf_sched ?s" by (rule sched.run_inv [OF scheduler_new_wf])
  have now: "last_now ?s \<le> 0" and lim: "limits (snd (prepare_time 0 0 ?s)) \<noteq> demo_limits"
    by (simp_all add: panic_calls_def two_limits_def run_defs)
  have "fst (update_limits demo_limits 0 0 ?s) = Inl Panic"
    by (simp add: panic_calls_def two_limits_def run_defs)
  with update_limits_correct [OF wf now refl lim] wf show ?thesis by blast
qed

text \<open>
  The pending limit is not enforced when a keyed draft changes the presentation of a
  Notification on display: a run in which every caller keeps its side ends with more pending
  Notifications than the limit allows.
\<close>

definition overflow_calls :: "timed_call list" where
  "overflow_calls = demo_calls @ [(SubmitCall 4 (demo_draft Attention (Some demo_key)), 2, 2)]"

theorem keyed_submit_overflows:
  "enabled_run sched_step sched_guard (scheduler_new demo_limits 0) overflow_calls
   \<and> max_pending demo_limits
       < length (pending (run_machine sched_step (scheduler_new demo_limits 0) overflow_calls))"
  by (simp add: overflow_calls_def demo_calls_def run_defs)

text \<open>
  A partial update restarts the timer of a Toast that is pinned by a jump, so the Toast
  can time out during the jump, after which committing the jump is refused as stale.
\<close>

definition restart_calls :: "timed_call list" where
  "restart_calls =
     [(SetDisplayCall True, 0, 0), (SubmitCall 1 (demo_draft Toast None), 0, 0), (BeginJumpCall 1, 1, 1),
      (UpdateCall 1 (update_with_priority High notification_update_new), 1, 1), (AdvanceCall, 4, 4)]"

theorem update_restarts_pinned_timer:
  "enabled_run sched_step sched_guard (scheduler_new demo_limits 0) restart_calls
   \<and> jumps_in_flight (run_machine sched_step (scheduler_new demo_limits 0) (butlast restart_calls)) = 1
   \<and> map n_close_reason (closed (run_machine sched_step (scheduler_new demo_limits 0) restart_calls))
       = [Some TimedOut]"
  by (simp add: restart_calls_def run_defs update_with_priority_def notification_update_new_def wf_update_def)

end
