(* ===== verification/Wire.thy ===== *)
theory Wire
  imports Notification
begin

text \<open>
  The wire representations of \<open>src/protocol.rs\<close> and their conversions to and from the domain
  model: what the daemon accepts from the socket is validated again by the domain constructors,
  and what a well-formed domain value is sent as is read back as that value. The JSON encoding of
  the structs is derived by serde and is not modelled here.
\<close>

section \<open>Errors and the codec contract\<close>

text \<open>The error type of \<open>serde_json\<close> is the parameter \<open>'j\<close>.\<close>

datatype 'j protocol_error =
    FrameTooLarge nat
  | ResponseTooLarge nat
  | MalformedJson 'j
  | RequestMustBeObject
  | ResponseMustBeObject
  | MissingOrInvalidField string
  | UnsupportedVersion nat
  | UnknownRequestType ustring
  | InvalidPayload 'j
  | Encode 'j
  | EnvelopeMismatch
  | ResponseRequestMismatch notification_id notification_id
  | InvalidResponseShape
  | InvalidSelector
  | EmptyUpdate
  | InvalidHistoryLimit
  | IncompleteProviderSource
  | Ingress ingress_error
  | UnexpectedRequestType

definition from_ingress :: "ingress_error + 'a \<Rightarrow> 'j protocol_error + 'a" where
  "from_ingress r = map_sum Ingress id r"

lemma from_ingress_Inr [simp]: "from_ingress r = Inr x \<longleftrightarrow> r = Inr x"
  by (cases r) (auto simp: from_ingress_def)

lemma from_ingress_of_Inr [simp]: "from_ingress (Inr x) = Inr x"
  by (simp add: from_ingress_def)

lemma bind_sum_Inr: "bind_sum m f = Inr y \<longleftrightarrow> (\<exists>a. m = Inr a \<and> f a = Inr y)"
  by (cases m) auto

text \<open>
  A codec: what is encoded from an acceptable value decodes to it, and only acceptable values are
  decoded.
\<close>

locale codec =
  fixes encode :: "'a \<Rightarrow> 'w"
    and decode :: "'w \<Rightarrow> 'e + 'a"
    and valid :: "'a \<Rightarrow> bool"
    and exact :: "'a \<Rightarrow> bool"
  assumes decode_valid: "decode w = Inr x \<Longrightarrow> valid x"
    and decode_encode: "valid x \<Longrightarrow> exact x \<Longrightarrow> decode (encode x) = Inr x"
begin

lemma encode_inj: "valid x \<Longrightarrow> exact x \<Longrightarrow> valid y \<Longrightarrow> exact y \<Longrightarrow> encode x = encode y \<Longrightarrow> x = y"
  by (metis decode_encode sum.inject(2))

lemma reencode: "decode w = Inr x \<Longrightarrow> exact x \<Longrightarrow> decode (encode x) = Inr x"
  by (rule decode_encode) (rule decode_valid)

end

section \<open>Timeouts\<close>

definition timeout_millis :: "timeout \<Rightarrow> nat option" where
  "timeout_millis t = (case t of After d \<Rightarrow> Some (min (as_millis d) u64_max) | Never \<Rightarrow> None)"

definition wire_timeout :: "nat option \<Rightarrow> timeout" where
  "wire_timeout ms = (case ms of None \<Rightarrow> Never | Some v \<Rightarrow> After (from_millis v))"

text \<open>A duration of whole milliseconds that fits in 64 bits survives the wire.\<close>

definition whole_millis :: "timeout \<Rightarrow> bool" where
  "whole_millis t \<longleftrightarrow> (case t of Never \<Rightarrow> True | After d \<Rightarrow> d mod 1000000 = 0 \<and> d div 1000000 \<le> u64_max)"

lemma wire_timeout_millis: "whole_millis t \<Longrightarrow> wire_timeout (timeout_millis t) = t"
  by (cases t) (auto simp: whole_millis_def wire_timeout_def timeout_millis_def as_millis_def from_millis_def
      min_def)

section \<open>Source Context\<close>

record wire_source_context =
  ws_provider :: "provider option"
  ws_provider_session_id :: "ustring option"
  ws_tmux_server_id :: ustring
  ws_session_id :: ustring
  ws_window_id :: ustring
  ws_pane_id :: ustring
  ws_cwd :: "ustring option"
  ws_command :: "ustring option"
  ws_pane_title :: "ustring option"

definition wire_source_from :: "source_context \<Rightarrow> wire_source_context" where
  "wire_source_from c =
     \<lparr>ws_provider = src_provider c, ws_provider_session_id = src_provider_session_id c,
      ws_tmux_server_id = server_id_str (src_tmux_server_id c), ws_session_id = src_session_id c,
      ws_window_id = src_window_id c, ws_pane_id = src_pane_id c, ws_cwd = src_cwd c,
      ws_command = src_command c, ws_pane_title = src_pane_title c\<rparr>"

text \<open>\<open>if let Some(v) = field { acc = f(acc, v)?; }\<close>\<close>

definition apply_opt :: "'v option \<Rightarrow> ('v \<Rightarrow> 'a \<Rightarrow> 'e + 'a) \<Rightarrow> 'a \<Rightarrow> 'e + 'a" where
  "apply_opt field f acc = (case field of None \<Rightarrow> Inr acc | Some v \<Rightarrow> f v acc)"

definition wire_provider_into :: "wire_source_context \<Rightarrow> source_context \<Rightarrow> 'j protocol_error + source_context" where
  "wire_provider_into w c =
     (case (ws_provider w, ws_provider_session_id w) of
        (Some p, Some session) \<Rightarrow> from_ingress (with_provider_session p session c)
      | (None, None) \<Rightarrow> Inr c
      | _ \<Rightarrow> Inl IncompleteProviderSource)"

definition wire_source_into :: "wire_source_context \<Rightarrow> 'j protocol_error + source_context" where
  "wire_source_into w =
     bind_sum (from_ingress (tmux_server_id_new (ws_tmux_server_id w))) (\<lambda>server.
     bind_sum (from_ingress (source_context_new server (ws_session_id w) (ws_window_id w) (ws_pane_id w))) (\<lambda>c0.
     bind_sum (wire_provider_into w c0) (\<lambda>c1.
     bind_sum (from_ingress (apply_opt (ws_cwd w) with_cwd c1)) (\<lambda>c2.
     bind_sum (from_ingress (apply_opt (ws_command w) with_command c2)) (\<lambda>c3.
       from_ingress (apply_opt (ws_pane_title w) with_pane_title c3))))))"

lemma apply_opt_inv:
  "apply_opt v f acc = Inr acc' \<Longrightarrow> P acc \<Longrightarrow> (\<And>x. v = Some x \<Longrightarrow> f x acc = Inr acc' \<Longrightarrow> P acc') \<Longrightarrow> P acc'"
  by (auto simp: apply_opt_def split: option.splits)

lemma wire_provider_wf: "wire_provider_into w c = Inr c' \<Longrightarrow> wf_source c \<Longrightarrow> wf_source c'"
  by (auto simp: wire_provider_into_def split: option.splits dest: with_provider_session_wf)

lemma wire_source_into_wf:
  assumes "wire_source_into w = Inr c"
  shows "wf_source c"
proof -
  from assms obtain server c0 c1 c2 c3 where
    s: "tmux_server_id_new (ws_tmux_server_id w) = Inr server"
    and c0: "source_context_new server (ws_session_id w) (ws_window_id w) (ws_pane_id w) = Inr c0"
    and c1: "wf_source c0 \<longrightarrow> wf_source c1"
    and c2: "apply_opt (ws_cwd w) with_cwd c1 = Inr c2"
    and c3: "apply_opt (ws_command w) with_command c2 = Inr c3"
    and c: "apply_opt (ws_pane_title w) with_pane_title c3 = Inr c"
    unfolding wire_source_into_def bind_sum_Inr from_ingress_Inr by (blast dest: wire_provider_wf)
  have "wf_source c0"
    using tmux_server_id_new_wf [OF s] source_context_new_wf [OF c0] by blast
  then have "wf_source c1" using c1 by blast
  then have "wf_source c2" by (rule apply_opt_inv [OF c2]) (use with_cwd_wf \<open>wf_source c1\<close> in blast)
  then have "wf_source c3" by (rule apply_opt_inv [OF c3]) (use with_command_wf \<open>wf_source c2\<close> in blast)
  then show "wf_source c" by (rule apply_opt_inv [OF c]) (use with_pane_title_wf \<open>wf_source c3\<close> in blast)
qed

lemma stored_id: "is_stable_id prefix s \<Longrightarrow> stable_tmux_id field s prefix = Inr s"
  by (simp add: stable_tmux_id_Inr)

lemma wire_source_roundtrip:
  assumes "wf_source c"
  shows "wire_source_into (wire_source_from c) = (Inr c :: 'j protocol_error + source_context)"
proof -
  obtain base where base: "base = \<lparr>src_provider = None, src_provider_session_id = None,
      src_tmux_server_id = src_tmux_server_id c, src_session_id = src_session_id c,
      src_window_id = src_window_id c, src_pane_id = src_pane_id c, src_cwd = None, src_command = None,
      src_pane_title = None\<rparr>" by blast
  note wf = assms [unfolded wf_source_def]
  have "source_context_new (src_tmux_server_id c) (src_session_id c) (src_window_id c) (src_pane_id c) = Inr base"
    using wf by (simp add: source_context_new_def stored_id base)
  moreover have "tmux_server_id_new (server_id_str (src_tmux_server_id c)) = Inr (src_tmux_server_id c)"
    using wf by (simp add: tmux_server_id_new_stored)
  moreover have "wire_provider_into (wire_source_from c) base = (Inr
      (base\<lparr>src_provider := src_provider c, src_provider_session_id := src_provider_session_id c\<rparr>)
      :: 'j protocol_error + source_context)" (is "_ = Inr ?c1")
    using wf
    by (cases "src_provider c"; cases "src_provider_session_id c")
      (simp_all add: wire_provider_into_def wire_source_from_def with_provider_session_def
        normalize_required_stored base)
  moreover have "apply_opt (src_cwd c) with_cwd ?c1 = Inr (?c1\<lparr>src_cwd := src_cwd c\<rparr>)" (is "_ = Inr ?c2")
    using wf by (cases "src_cwd c") (simp_all add: apply_opt_def with_cwd_def normalize_required_stored base)
  moreover have "apply_opt (src_command c) with_command ?c2 = Inr (?c2\<lparr>src_command := src_command c\<rparr>)"
      (is "_ = Inr ?c3")
    using wf by (cases "src_command c") (simp_all add: apply_opt_def with_command_def normalize_required_stored base)
  moreover have "apply_opt (src_pane_title c) with_pane_title ?c3 = Inr (?c3\<lparr>src_pane_title := src_pane_title c\<rparr>)"
    using wf by (cases "src_pane_title c") (simp_all add: apply_opt_def with_pane_title_def normalize_bounded_stored base)
  moreover have "?c3\<lparr>src_pane_title := src_pane_title c\<rparr> = c" by (cases c) (simp add: base)
  ultimately show ?thesis
    by (simp add: wire_source_into_def) (simp add: wire_source_from_def)
qed

interpretation source_codec: codec wire_source_from wire_source_into wf_source "\<lambda>_. True"
  by unfold_locales (simp_all add: wire_source_into_wf wire_source_roundtrip)

section \<open>Metadata\<close>

record wire_metadata =
  wm_agent_event_kind :: "agent_event_kind option"
  wm_agent_name :: "ustring option"
  wm_tool_name :: "ustring option"

definition wire_metadata_from :: "normalized_metadata \<Rightarrow> wire_metadata" where
  "wire_metadata_from m = \<lparr>wm_agent_event_kind = md_agent_event_kind m,
     wm_agent_name = md_agent_name m, wm_tool_name = md_tool_name m\<rparr>"

definition wire_metadata_into :: "wire_metadata \<Rightarrow> 'j protocol_error + normalized_metadata" where
  "wire_metadata_into w =
     bind_sum (from_ingress (apply_opt (wm_agent_name w) with_agent_name (metadata_new (wm_agent_event_kind w)))) (\<lambda>m.
       from_ingress (apply_opt (wm_tool_name w) with_tool_name m))"

lemma wire_metadata_into_wf:
  assumes "wire_metadata_into w = Inr m"
  shows "wf_metadata m"
proof -
  obtain m0 where m0: "apply_opt (wm_agent_name w) with_agent_name (metadata_new (wm_agent_event_kind w)) = Inr m0"
    and m: "apply_opt (wm_tool_name w) with_tool_name m0 = Inr m"
    using assms unfolding wire_metadata_into_def bind_sum_Inr from_ingress_Inr by blast
  have "wf_metadata m0"
    by (rule apply_opt_inv [OF m0, where P = wf_metadata]) (auto dest: with_agent_name_wf)
  then show ?thesis by (rule apply_opt_inv [OF m]) (use with_tool_name_wf \<open>wf_metadata m0\<close> in blast)
qed

lemma wire_metadata_roundtrip: "wf_metadata m \<Longrightarrow> wire_metadata_into (wire_metadata_from m) = Inr m"
  by (cases m; cases "md_agent_name m"; cases "md_tool_name m")
    (simp_all add: wire_metadata_into_def wire_metadata_from_def apply_opt_def with_agent_name_def
      with_tool_name_def normalize_required_stored wf_metadata_def metadata_new_def)

interpretation metadata_codec: codec wire_metadata_from wire_metadata_into wf_metadata "\<lambda>_. True"
  by unfold_locales (simp_all add: wire_metadata_into_wf wire_metadata_roundtrip)

section \<open>Drafts\<close>

record wire_notification_draft =
  wd_key :: "ustring option"
  wd_level :: level
  wd_priority :: priority
  wd_presentation :: presentation
  wd_title :: ustring
  wd_body :: ustring
  wd_timeout_ms :: "nat option"
  wd_source :: "wire_source_context option"
  wd_position :: "placement option"
  wd_metadata :: wire_metadata

definition wire_draft_from :: "notification_draft \<Rightarrow> wire_notification_draft" where
  "wire_draft_from d =
     \<lparr>wd_key = map_option key_str (d_key d), wd_level = d_level d, wd_priority = d_priority d,
      wd_presentation = d_presentation d, wd_title = d_title d, wd_body = d_body d,
      wd_timeout_ms = timeout_millis (d_timeout d), wd_source = map_option wire_source_from (d_source d),
      wd_position = ov_position (d_overrides d), wd_metadata = wire_metadata_from (d_metadata d)\<rparr>"

text \<open>\<open>option.map(f).transpose()\<close>\<close>

definition transpose_opt :: "('v \<Rightarrow> 'e + 'a) \<Rightarrow> 'v option \<Rightarrow> 'e + 'a option" where
  "transpose_opt f v = (case v of None \<Rightarrow> Inr None | Some x \<Rightarrow> map_sum id Some (f x))"

definition draft_keyed :: "ustring \<Rightarrow> notification_draft \<Rightarrow> ingress_error + notification_draft" where
  "draft_keyed key d = bind_sum (notification_key_new key) (\<lambda>k. Inr (draft_with_key k d))"

definition wire_draft_into :: "wire_notification_draft \<Rightarrow> 'j protocol_error + notification_draft" where
  "wire_draft_into w =
     bind_sum (transpose_opt wire_source_into (wd_source w)) (\<lambda>source.
     bind_sum (from_ingress (notification_draft_new (wd_presentation w) (wd_title w) (wd_body w) source)) (\<lambda>d0.
     let d1 = draft_with_timeout (wire_timeout (wd_timeout_ms w))
                (draft_with_priority (wd_priority w) (draft_with_level (wd_level w) d0)) in
     bind_sum (from_ingress (apply_opt (wd_key w) draft_keyed d1)) (\<lambda>d2.
     let d3 = (case wd_position w of
                 Some position \<Rightarrow> draft_with_overrides (with_position position overrides_default) d2
               | None \<Rightarrow> d2) in
     bind_sum (wire_metadata_into (wd_metadata w)) (\<lambda>m. Inr (draft_with_metadata m d3)))))"

lemma transpose_opt_Inr: "transpose_opt f v = Inr y \<longleftrightarrow>
    (v = None \<and> y = None \<or> (\<exists>x a. v = Some x \<and> f x = Inr a \<and> y = Some a))"
proof (cases v)
  case (Some x)
  then show ?thesis by (cases "f x") (auto simp: transpose_opt_def)
qed (auto simp: transpose_opt_def)

lemma draft_keyed_wf: "draft_keyed k d = Inr d' \<Longrightarrow> wf_draft d \<Longrightarrow> wf_draft d'"
  unfolding draft_keyed_def bind_sum_Inr by (auto intro: draft_with_wf(1) dest: notification_key_new_wf)

lemma wire_draft_steps_wf:
  assumes src: "transpose_opt wire_source_into (wd_source w) = (Inr source :: 'j protocol_error + _)"
    and d0: "notification_draft_new (wd_presentation w) (wd_title w) (wd_body w) source = Inr d0"
    and d2: "apply_opt (wd_key w) draft_keyed (draft_with_timeout (wire_timeout (wd_timeout_ms w))
                (draft_with_priority (wd_priority w) (draft_with_level (wd_level w) d0))) = Inr d2"
    and m: "wire_metadata_into (wd_metadata w) = (Inr m :: 'j protocol_error + _)"
  shows "wf_draft (draft_with_metadata m (case wd_position w of
         Some position \<Rightarrow> draft_with_overrides (with_position position overrides_default) d2 | None \<Rightarrow> d2))"
proof -
  have "pred_option wf_source source"
    using src by (auto simp: transpose_opt_Inr dest: wire_source_into_wf)
  then have "wf_draft d0" by (rule notification_draft_new_wf [OF d0])
  then have d1: "wf_draft (draft_with_timeout (wire_timeout (wd_timeout_ms w))
                (draft_with_priority (wd_priority w) (draft_with_level (wd_level w) d0)))"
    by (simp add: draft_with_wf)
  have "wf_draft d2"
    by (rule apply_opt_inv [OF d2, where P = wf_draft]) (rule d1, rule draft_keyed_wf [OF _ d1])
  moreover have "wf_metadata m" using m by (rule wire_metadata_into_wf)
  ultimately show ?thesis by (simp add: draft_with_wf split: option.splits)
qed

lemma wire_draft_into_wf: "wire_draft_into w = Inr d \<Longrightarrow> wf_draft d"
  unfolding wire_draft_into_def bind_sum_Inr from_ingress_Inr Let_def sum.inject
  by (elim exE conjE, hypsubst, rule wire_draft_steps_wf)

lemma draft_new_stored:
  assumes "wf_draft d"
  shows "notification_draft_new (d_presentation d) (d_title d) (d_body d) (d_source d) = Inr
    \<lparr>d_key = None, d_level = Info, d_priority = Normal, d_presentation = d_presentation d,
     d_title = d_title d, d_body = d_body d,
     d_timeout = (if d_presentation d = Attention then Never else After (from_secs 3)),
     d_source = d_source d, d_overrides = overrides_default, d_metadata = metadata_new None\<rparr>"
  using assms by (simp add: notification_draft_new_def wf_defs normalize_bounded_stored)

lemma wire_draft_roundtrip:
  assumes "wf_draft d" and "whole_millis (d_timeout d)"
  shows "wire_draft_into (wire_draft_from d) = (Inr d :: 'j protocol_error + notification_draft)"
proof -
  have src: "transpose_opt wire_source_into (map_option wire_source_from (d_source d))
      = (Inr (d_source d) :: 'j protocol_error + _)"
    using assms(1) by (cases "d_source d") (simp_all add: transpose_opt_def wf_defs wire_source_roundtrip)
  have meta: "wire_metadata_into (wire_metadata_from (d_metadata d)) = (Inr (d_metadata d) :: 'j protocol_error + _)"
    using assms(1) by (simp add: wf_defs wire_metadata_roundtrip)
  have key: "apply_opt (map_option key_str (d_key d)) draft_keyed x = Inr (x\<lparr>d_key := d_key d\<rparr>)"
    if "d_key x = None" for x
    using assms(1) that by (cases "d_key d")
      (simp_all add: apply_opt_def draft_keyed_def wf_defs notification_key_new_stored draft_with_key_def)
  have fields: "wd_key (wire_draft_from d) = map_option key_str (d_key d)" "wd_level (wire_draft_from d) = d_level d"
    "wd_priority (wire_draft_from d) = d_priority d" "wd_presentation (wire_draft_from d) = d_presentation d"
    "wd_title (wire_draft_from d) = d_title d" "wd_body (wire_draft_from d) = d_body d"
    "wd_timeout_ms (wire_draft_from d) = timeout_millis (d_timeout d)"
    "wd_source (wire_draft_from d) = map_option wire_source_from (d_source d)"
    "wd_position (wire_draft_from d) = ov_position (d_overrides d)"
    "wd_metadata (wire_draft_from d) = wire_metadata_from (d_metadata d)"
    by (simp_all add: wire_draft_from_def)
  have ov: "ov = (case ov_position ov of Some p \<Rightarrow> with_position p overrides_default | None \<Rightarrow> overrides_default)" for ov
    by (cases ov) (simp add: with_position_def overrides_default_def split: option.splits)
  have never: "d_presentation d = Attention \<Longrightarrow> d_timeout d = Never"
    using assms(1) by (simp add: wf_defs)
  have "wire_draft_into (wire_draft_from d) = (Inr (draft_with_metadata (d_metadata d)
      (case ov_position (d_overrides d) of
         Some position \<Rightarrow> draft_with_overrides (with_position position overrides_default) (d\<lparr>d_overrides := overrides_default,
           d_metadata := metadata_new None\<rparr>)
       | None \<Rightarrow> d\<lparr>d_overrides := overrides_default, d_metadata := metadata_new None\<rparr>))
      :: 'j protocol_error + notification_draft)"
    using never
    by (simp add: wire_draft_into_def fields src meta draft_new_stored [OF assms(1)] key Let_def
        draft_with_timeout_def draft_with_priority_def draft_with_level_def wire_timeout_millis assms(2))
      (cases d, auto split: option.splits)
  also have "\<dots> = Inr d"
    using ov [of "d_overrides d"]
    by (cases d) (auto simp: draft_with_metadata_def draft_with_overrides_def split: option.splits)
  finally show ?thesis .
qed

interpretation draft_codec: codec wire_draft_from wire_draft_into wf_draft "\<lambda>d. whole_millis (d_timeout d)"
  by unfold_locales (simp_all add: wire_draft_into_wf wire_draft_roundtrip)

section \<open>Updates\<close>

record wire_notification_update =
  wu_title :: "ustring option"
  wu_body :: "ustring option"
  wu_level :: "level option"
  wu_priority :: "priority option"
  wu_timeout_ms :: "nat option option"
  wu_position :: "placement option"

definition wire_update_from :: "notification_update \<Rightarrow> wire_notification_update" where
  "wire_update_from u =
     \<lparr>wu_title = u_title u, wu_body = u_body u, wu_level = u_level u, wu_priority = u_priority u,
      wu_timeout_ms = map_option timeout_millis (u_timeout u),
      wu_position = Option.bind (u_overrides u) ov_position\<rparr>"

definition wire_update_into :: "wire_notification_update \<Rightarrow> 'j protocol_error + notification_update" where
  "wire_update_into w =
     bind_sum (from_ingress (apply_opt (wu_title w) update_with_title notification_update_new)) (\<lambda>u0.
     bind_sum (from_ingress (apply_opt (wu_body w) update_with_body u0)) (\<lambda>u1.
       let u2 = (case wu_level w of Some level \<Rightarrow> update_with_level level u1 | None \<Rightarrow> u1);
           u3 = (case wu_priority w of Some priority \<Rightarrow> update_with_priority priority u2 | None \<Rightarrow> u2);
           u4 = (case wu_timeout_ms w of Some t \<Rightarrow> update_with_timeout (wire_timeout t) u3 | None \<Rightarrow> u3);
           u5 = (case wu_position w of
                   Some position \<Rightarrow> update_with_overrides (with_position position overrides_default) u4
                 | None \<Rightarrow> u4)
       in Inr u5))"

lemma wire_update_into_wf:
  assumes "wire_update_into w = Inr u"
  shows "wf_update u"
proof -
  obtain u0 u1 where u0: "apply_opt (wu_title w) update_with_title notification_update_new = Inr u0"
    and u1: "apply_opt (wu_body w) update_with_body u0 = Inr u1"
    and u: "u_title u = u_title u1" "u_body u = u_body u1"
    using assms unfolding wire_update_into_def bind_sum_Inr from_ingress_Inr Let_def
    by (auto simp: update_with_level_def update_with_priority_def update_with_timeout_def
        update_with_overrides_def split: option.splits)
  have "wf_update u0"
    by (rule apply_opt_inv [OF u0, where P = wf_update])
      (auto simp: update_with_wf(1) intro: update_with_wf(2) [OF update_with_wf(1)])
  then have "wf_update u1"
    by (auto intro: apply_opt_inv [OF u1, where P = wf_update] update_with_wf(3))
  with u show ?thesis by (simp add: wf_update_def)
qed

text \<open>An update with overrides that set no position has no representation on the wire.\<close>

definition exact_update :: "notification_update \<Rightarrow> bool" where
  "exact_update u \<longleftrightarrow> pred_option whole_millis (u_timeout u)
     \<and> u_overrides u \<noteq> Some overrides_default"

lemma wire_update_roundtrip:
  assumes "wf_update u" and "exact_update u"
  shows "wire_update_into (wire_update_from u) = (Inr u :: 'j protocol_error + notification_update)"
proof -
  have title: "apply_opt (u_title u) update_with_title notification_update_new
      = Inr (notification_update_new\<lparr>u_title := u_title u\<rparr>)"
    using assms(1) by (cases "u_title u")
      (simp_all add: apply_opt_def update_with_title_def wf_update_def normalize_bounded_stored notification_update_new_def)
  have body: "apply_opt (u_body u) update_with_body x = Inr (x\<lparr>u_body := u_body u\<rparr>)" if "u_body x = None" for x
    using assms(1) that by (cases "u_body u")
      (simp_all add: apply_opt_def update_with_body_def wf_update_def normalize_bounded_stored)
  have body0: "apply_opt (u_body u) update_with_body (notification_update_new\<lparr>u_title := u_title u\<rparr>)
      = Inr (notification_update_new\<lparr>u_title := u_title u, u_body := u_body u\<rparr>)"
    by (rule body) (simp add: notification_update_new_def)
  have ov: "(case Option.bind ov ov_position of Some p \<Rightarrow> Some (with_position p overrides_default) | None \<Rightarrow> None) = ov"
    if "ov \<noteq> Some overrides_default" for ov
  proof (cases ov)
    case (Some x)
    with that show ?thesis
      by (cases x; cases "ov_position x") (simp_all add: with_position_def overrides_default_def)
  qed simp
  have time: "map_option (wire_timeout \<circ> timeout_millis) (u_timeout u) = u_timeout u"
    using assms(2) by (cases "u_timeout u") (simp_all add: exact_update_def wire_timeout_millis)
  have "wire_update_into (wire_update_from u) = (Inr
      \<lparr>u_title = u_title u, u_body = u_body u, u_level = u_level u, u_priority = u_priority u,
       u_timeout = map_option (wire_timeout \<circ> timeout_millis) (u_timeout u),
       u_overrides = (case Option.bind (u_overrides u) ov_position of
          Some p \<Rightarrow> Some (with_position p overrides_default) | None \<Rightarrow> None)\<rparr> :: 'j protocol_error + _)"
    by (simp add: wire_update_into_def wire_update_from_def title body0 Let_def)
      (simp add: notification_update_new_def update_with_level_def update_with_priority_def
        update_with_timeout_def update_with_overrides_def split: option.splits)
  also have "\<dots> = Inr u"
    using ov [of "u_overrides u"] assms(2) unfolding time exact_update_def by (cases u) simp
  finally show ?thesis .
qed

interpretation update_codec: codec wire_update_from wire_update_into wf_update exact_update
  by unfold_locales (simp_all add: wire_update_into_wf wire_update_roundtrip)

section \<open>Selectors and commands\<close>

record wire_selector =
  sel_id :: "ustring option"
  sel_key :: "ustring option"

datatype target_selector = SelectId notification_id | SelectKey notification_key

text \<open>Parsing a UUID and reading its version are the uuid crate's.\<close>

record uuid_ops =
  uuid_parse :: "ustring \<Rightarrow> notification_id option"
  uuid_version :: "notification_id \<Rightarrow> nat"

definition wire_selector_into :: "uuid_ops \<Rightarrow> wire_selector \<Rightarrow> 'j protocol_error + target_selector" where
  "wire_selector_into uuid w =
     (case (sel_id w, sel_key w) of
        (Some i, None) \<Rightarrow>
          bind_sum (from_ingress (notification_id_from_str (uuid_parse uuid) (uuid_version uuid) i)) (\<lambda>x. Inr (SelectId x))
      | (None, Some key) \<Rightarrow> bind_sum (from_ingress (notification_key_new key)) (\<lambda>k. Inr (SelectKey k))
      | _ \<Rightarrow> Inl InvalidSelector)"

datatype wire_history_clear = ClearHidden | ClearBeforeMillis int | ClearAll

datatype request_kind = SendKind | UpdateKind | DismissKind | JumpKind | HistoryKind | HistoryGuardKind
  | HistoryJumpKind | HistoryClearKind | ConfigReloadKind | RendererRedeemKind

definition kind_names :: "(ustring \<times> request_kind) list" where
  "kind_names =
     [(ustr ''send'', SendKind), (ustr ''update'', UpdateKind), (ustr ''dismiss'', DismissKind),
      (ustr ''jump'', JumpKind), (ustr ''history'', HistoryKind), (ustr ''history-guard'', HistoryGuardKind),
      (ustr ''history-jump'', HistoryJumpKind), (ustr ''history-clear'', HistoryClearKind),
      (ustr ''config-reload'', ConfigReloadKind), (ustr ''renderer-redeem'', RendererRedeemKind)]"

definition request_kind_parse :: "ustring \<Rightarrow> request_kind option" where
  "request_kind_parse value = map_of kind_names value"

datatype client_command =
    SendCmd wire_notification_draft
  | UpdateCmd wire_selector wire_notification_update
  | DismissCmd wire_selector
  | JumpCmd ustring
  | HistoryCmd bool bool nat
  | HistoryGuardCmd
  | HistoryJumpCmd wire_source_context
  | HistoryClearCmd wire_history_clear bool
  | ConfigReloadCmd

fun command_kind :: "client_command \<Rightarrow> request_kind" where
  "command_kind (SendCmd d) = SendKind"
| "command_kind (UpdateCmd sel u) = UpdateKind"
| "command_kind (DismissCmd sel) = DismissKind"
| "command_kind (JumpCmd key) = JumpKind"
| "command_kind (HistoryCmd hidden servers n) = HistoryKind"
| "command_kind HistoryGuardCmd = HistoryGuardKind"
| "command_kind (HistoryJumpCmd src) = HistoryJumpKind"
| "command_kind (HistoryClearCmd sel servers) = HistoryClearKind"
| "command_kind ConfigReloadCmd = ConfigReloadKind"

fun command_validate :: "uuid_ops \<Rightarrow> client_command \<Rightarrow> 'j protocol_error + unit" where
  "command_validate uuid (SendCmd d) = bind_sum (wire_draft_into d) (\<lambda>_. Inr ())"
| "command_validate uuid (UpdateCmd sel u) =
     bind_sum (wire_selector_into uuid sel) (\<lambda>_.
     bind_sum (wire_update_into u) (\<lambda>v. if update_is_empty v then Inl EmptyUpdate else Inr ()))"
| "command_validate uuid (DismissCmd sel) = bind_sum (wire_selector_into uuid sel) (\<lambda>_. Inr ())"
| "command_validate uuid (JumpCmd key) = bind_sum (from_ingress (notification_key_new key)) (\<lambda>_. Inr ())"
| "command_validate uuid (HistoryCmd hidden servers n) =
     (if n = 0 \<or> n > 100000 then Inl InvalidHistoryLimit else Inr ())"
| "command_validate uuid HistoryGuardCmd = Inr ()"
| "command_validate uuid (HistoryJumpCmd src) = bind_sum (wire_source_into src) (\<lambda>_. Inr ())"
| "command_validate uuid (HistoryClearCmd sel servers) = Inr ()"
| "command_validate uuid ConfigReloadCmd = Inr ()"

record client_request =
  cr_version :: nat
  cr_request_id :: notification_id
  cr_command :: client_command

definition PROTOCOL_VERSION :: nat where "PROTOCOL_VERSION = 1"
definition MAX_REQUEST_BYTES :: nat where "MAX_REQUEST_BYTES = 64 * 1024"

definition client_request_new :: "notification_id \<Rightarrow> client_command \<Rightarrow> client_request" where
  "client_request_new fresh command =
     \<lparr>cr_version = PROTOCOL_VERSION, cr_request_id = fresh, cr_command = command\<rparr>"

end
