(* ===== verification/Frames.thy ===== *)
theory Frames
  imports Wire
begin

text \<open>
  The newline-delimited framing of \<open>src/protocol.rs\<close>: the incremental \<open>FrameDecoder\<close> against the
  reference that splits the whole byte stream at its newlines.
\<close>

type_synonym byte = "8 word"

abbreviation newline :: byte where "newline \<equiv> 10"

section \<open>The decoder\<close>

record frame_decoder =
  fd_buffer :: "byte list"
  fd_max_frame_bytes :: nat

definition frame_decoder_new :: "nat \<Rightarrow> frame_decoder" where
  "frame_decoder_new limit = \<lparr>fd_buffer = [], fd_max_frame_bytes = limit\<rparr>"

type_synonym 'j frames_result = "('j protocol_error + byte list list) \<times> frame_decoder"

definition append_bounded :: "byte list \<Rightarrow> frame_decoder \<Rightarrow> 'j protocol_error + frame_decoder" where
  "append_bounded bytes d =
     (if sat_add u64_max (length (fd_buffer d)) (length bytes) > fd_max_frame_bytes d
      then Inl (FrameTooLarge (fd_max_frame_bytes d))
      else Inr (d\<lparr>fd_buffer := fd_buffer d @ bytes\<rparr>))"

definition slice :: "nat \<Rightarrow> nat \<Rightarrow> 'a list \<Rightarrow> 'a list" where
  "slice i j xs = drop i (take j xs)"

text \<open>The loop of \<open>push\<close>, from position \<open>index\<close> on; the current frame began at \<open>start\<close>.\<close>

function push_from ::
  "byte list \<Rightarrow> nat \<Rightarrow> nat \<Rightarrow> byte list list \<Rightarrow> frame_decoder
     \<Rightarrow> 'j frames_result" where
  "push_from bytes index start frames d =
     (if index < length bytes then
        if bytes ! index \<noteq> newline then push_from bytes (Suc index) start frames d
        else (case append_bounded (slice start index bytes) d of
                Inl e \<Rightarrow> (Inl e, d\<lparr>fd_buffer := []\<rparr>)
              | Inr d' \<Rightarrow> push_from bytes (Suc index) (Suc index) (frames @ [fd_buffer d']) (d'\<lparr>fd_buffer := []\<rparr>))
      else (case append_bounded (drop start bytes) d of
              Inl e \<Rightarrow> (Inl e, d\<lparr>fd_buffer := []\<rparr>)
            | Inr d' \<Rightarrow> (Inr frames, d')))"
  by pat_completeness auto
termination by (relation "measure (\<lambda>(bytes, index, _). length bytes - index)") auto

declare push_from.simps [simp del]

definition decoder_push ::
  "byte list \<Rightarrow> frame_decoder \<Rightarrow> 'j frames_result" where
  "decoder_push bytes d = push_from bytes 0 0 [] d"

definition pending_bytes :: "frame_decoder \<Rightarrow> nat" where
  "pending_bytes d = length (fd_buffer d)"

text \<open>A connection: chunk after chunk, until the first error.\<close>

fun decoder_feed ::
  "byte list list \<Rightarrow> frame_decoder \<Rightarrow> 'j frames_result" where
  "decoder_feed [] d = (Inr [], d)"
| "decoder_feed (chunk # chunks) d =
     (case decoder_push chunk d of
        (Inl e, d') \<Rightarrow> (Inl e, d')
      | (Inr frames, d') \<Rightarrow>
          (case decoder_feed chunks d' of
             (Inl e, d'') \<Rightarrow> (Inl e, d'')
           | (Inr later, d'') \<Rightarrow> (Inr (frames @ later), d'')))"

section \<open>The reference\<close>

text \<open>The pieces of a stream between its newlines; the last one is not terminated yet.\<close>

fun segments :: "byte list \<Rightarrow> byte list list" where
  "segments [] = [[]]"
| "segments (b # bs) =
     (if b = newline then [] # segments bs else (b # hd (segments bs)) # tl (segments bs))"

lemma segments_not_Nil [simp]: "segments bs \<noteq> []"
  by (cases bs) auto

lemma segments_append:
  "segments (xs @ ys) = butlast (segments xs) @ (last (segments xs) @ hd (segments ys)) # tl (segments ys)"
proof (induction xs)
  case (Cons b xs)
  then show ?case
    by (cases "segments xs"; cases "tl (segments xs)") (auto simp: butlast_append)
qed simp

lemma segments_no_newline: "newline \<notin> set bs \<Longrightarrow> segments bs = [bs]"
  by (induction bs) auto

lemma last_segment_clean: "newline \<notin> set (last (segments bs))"
proof (induction bs)
  case (Cons b bs)
  then show ?case by (cases "segments bs"; cases "tl (segments bs)") auto
qed simp

lemma segments_join: "segments (xs @ newline # ys) = segments xs @ segments ys"
proof -
  have "segments (newline # ys) = [] # segments ys" by simp
  then show ?thesis
    using segments_append [of xs "newline # ys"] append_butlast_last_id [of "segments xs"]
    by (metis append.assoc append.right_neutral append_Cons append_Nil list.sel(1,3) segments_not_Nil)
qed

section \<open>Refinement\<close>

definition fits :: "nat \<Rightarrow> byte list list \<Rightarrow> bool" where
  "fits limit segs \<longleftrightarrow> (\<forall>s \<in> set segs. length s \<le> limit)"

definition wf_decoder :: "frame_decoder \<Rightarrow> bool" where
  "wf_decoder d \<longleftrightarrow> newline \<notin> set (fd_buffer d) \<and> length (fd_buffer d) \<le> fd_max_frame_bytes d
     \<and> fd_max_frame_bytes d < u64_max"

lemma append_bounded_eq:
  assumes "wf_decoder d"
  shows "append_bounded bytes d =
    (if fd_max_frame_bytes d < length (fd_buffer d @ bytes) then Inl (FrameTooLarge (fd_max_frame_bytes d))
     else Inr (d\<lparr>fd_buffer := fd_buffer d @ bytes\<rparr>))"
  using assms by (simp add: append_bounded_def sat_add_def wf_decoder_def min_def)

text \<open>What the loop has to do with the rest of the chunk, when the current frame is \<open>seg\<close> so far.\<close>

lemma push_from_spec:
  assumes "wf_decoder d" and "start \<le> index" and "index \<le> length bytes"
    and "newline \<notin> set (slice start index bytes)"
  shows "push_from bytes index start frames d =
    ((let segs = segments (fd_buffer d @ drop start bytes) in
     if fits (fd_max_frame_bytes d) segs then (Inr (frames @ butlast segs), d\<lparr>fd_buffer := last segs\<rparr>)
     else (Inl (FrameTooLarge (fd_max_frame_bytes d)), d\<lparr>fd_buffer := []\<rparr>)) :: 'j frames_result)"
  using assms
proof (induction "length bytes - index" arbitrary: index start frames d rule: less_induct)
  case less
  have split: "drop start bytes = slice start index bytes @ drop index bytes"
    using less.prems(2,3)
    by (metis append_take_drop_id drop_append length_take min.absorb2 diff_is_0_eq' drop0 slice_def)
  show ?case
  proof (cases "index < length bytes")
    case False
    then have all: "drop start bytes = slice start index bytes" using split by simp
    have clean: "newline \<notin> set (fd_buffer d @ drop start bytes)"
      using less.prems(1,4) all by (simp add: wf_decoder_def)
    from False show ?thesis
      by (subst push_from.simps) (simp add: append_bounded_eq [OF less.prems(1)] segments_no_newline [OF clean] fits_def)
  next
    case True
    then have next_byte: "drop index bytes = bytes ! index # drop (Suc index) bytes"
      by (rule Cons_nth_drop_Suc [symmetric])
    have grow: "slice start (Suc index) bytes = slice start index bytes @ [bytes ! index]"
      using True less.prems(2) by (simp add: slice_def take_Suc_conv_app_nth)
    show ?thesis
    proof (cases "bytes ! index = newline")
      case False
      have "newline \<notin> set (slice start (Suc index) bytes)" using grow False less.prems(4) by simp
      with True less.prems less.hyps [of "Suc index" d start frames] False show ?thesis
        by (subst push_from.simps) (simp add: diff_less_mono2)
    next
      case newline: True
      let ?seg = "fd_buffer d @ slice start index bytes"
      have "newline \<notin> set ?seg" using less.prems(1,4) by (simp add: wf_decoder_def)
      then have seg: "segments ?seg = [?seg]" by (rule segments_no_newline)
      have whole: "segments (fd_buffer d @ drop start bytes) = ?seg # segments (drop (Suc index) bytes)"
        using segments_join [of ?seg "drop (Suc index) bytes"] seg split next_byte newline by simp
      show ?thesis
      proof (cases "fd_max_frame_bytes d < length ?seg")
        case True
        with \<open>index < length bytes\<close> newline whole show ?thesis
          by (subst push_from.simps) (simp add: append_bounded_eq [OF less.prems(1)] fits_def)
      next
        case False
        let ?d = "d\<lparr>fd_buffer := ?seg\<rparr>"
        have d: "append_bounded (slice start index bytes) d = (Inr ?d :: 'j protocol_error + _)"
          using False by (simp add: append_bounded_eq [OF less.prems(1)])
        have "wf_decoder (d\<lparr>fd_buffer := []\<rparr>)" using less.prems(1) by (simp add: wf_decoder_def)
        with less.hyps [of "Suc index" "d\<lparr>fd_buffer := []\<rparr>" "Suc index" "frames @ [?seg]"] True
        have "push_from bytes (Suc index) (Suc index) (frames @ [?seg]) (d\<lparr>fd_buffer := []\<rparr>) =
          ((let segs = segments (drop (Suc index) bytes) in
           if fits (fd_max_frame_bytes d) segs
           then (Inr (frames @ ?seg # butlast segs), d\<lparr>fd_buffer := last segs\<rparr>)
           else (Inl (FrameTooLarge (fd_max_frame_bytes d)), d\<lparr>fd_buffer := []\<rparr>)) :: 'j frames_result)"
          by (simp add: Let_def slice_def)
        with True newline d False whole show ?thesis
          by (subst push_from.simps) (simp add: Let_def fits_def)
      qed
    qed
  qed
qed

lemma decoder_push_eq:
  assumes "wf_decoder d"
  shows "decoder_push bytes d =
    ((let segs = segments (fd_buffer d @ bytes) in
     if fits (fd_max_frame_bytes d) segs then (Inr (butlast segs), d\<lparr>fd_buffer := last segs\<rparr>)
     else (Inl (FrameTooLarge (fd_max_frame_bytes d)), d\<lparr>fd_buffer := []\<rparr>)) :: 'j frames_result)"
  using push_from_spec [OF assms, where 'j = 'j, of 0 0 bytes "[]"]
  by (simp add: decoder_push_def slice_def Let_def)

lemma fits_grow:
  assumes "fits limit (segments (xs @ ys))"
  shows "fits limit (segments xs)"
proof -
  let ?s = "segments xs"
  have "butlast ?s @ [last ?s] = ?s" by simp
  then have "set ?s = insert (last ?s) (set (butlast ?s))"
    by (metis list.simps(15) rotate1.simps(2) set_rotate1)
  moreover have "length (last ?s) \<le> limit" "\<forall>s \<in> set (butlast ?s). length s \<le> limit"
    using assms by (auto simp: fits_def segments_append)
  ultimately show ?thesis by (simp add: fits_def)
qed

lemma decoder_feed_eq:
  assumes "wf_decoder d"
  shows "decoder_feed chunks d =
    ((let segs = segments (fd_buffer d @ concat chunks) in
     if fits (fd_max_frame_bytes d) segs then (Inr (butlast segs), d\<lparr>fd_buffer := last segs\<rparr>)
     else (Inl (FrameTooLarge (fd_max_frame_bytes d)), d\<lparr>fd_buffer := []\<rparr>)) :: 'j frames_result)"
  using assms
proof (induction chunks arbitrary: d)
  case Nil
  then have "segments (fd_buffer d) = [fd_buffer d]" by (simp add: segments_no_newline wf_decoder_def)
  with Nil show ?case by (simp add: fits_def wf_decoder_def)
next
  case (Cons chunk chunks)
  let ?b = "fd_buffer d" and ?m = "fd_max_frame_bytes d"
  let ?s = "segments (?b @ chunk)" and ?rest = "concat chunks"
  have whole: "segments (?b @ chunk @ ?rest) = butlast ?s @ segments (last ?s @ ?rest)"
    using segments_append [of "?b @ chunk" ?rest]
      segments_append [of "last ?s" ?rest] segments_no_newline [OF last_segment_clean [of "?b @ chunk"]]
    by simp
  show ?case
  proof (cases "fits ?m ?s")
    case False
    then have "\<not> fits ?m (segments (?b @ chunk @ ?rest))"
      using fits_grow [of ?m "?b @ chunk" ?rest] by auto
    with False Cons.prems show ?thesis by (simp add: decoder_push_eq)
  next
    case True
    let ?d = "d\<lparr>fd_buffer := last ?s\<rparr>"
    have "wf_decoder ?d"
      using Cons.prems True last_segment_clean [of "?b @ chunk"] by (simp add: wf_decoder_def fits_def)
    from Cons.IH [OF this] have rest: "decoder_feed chunks ?d =
      ((let segs = segments (last ?s @ ?rest) in
       if fits ?m segs then (Inr (butlast segs), d\<lparr>fd_buffer := last segs\<rparr>)
       else (Inl (FrameTooLarge ?m), d\<lparr>fd_buffer := []\<rparr>)) :: 'j frames_result)"
      by (simp add: Let_def cong: if_cong)
    have "fits ?m (butlast ?s)" using True by (auto simp: fits_def dest: in_set_butlastD)
    then have "fits ?m (segments (?b @ chunk @ ?rest)) \<longleftrightarrow> fits ?m (segments (last ?s @ ?rest))"
      by (auto simp: whole fits_def)
    with True rest Cons.prems show ?thesis
      by (simp add: decoder_push_eq whole Let_def butlast_append)
  qed
qed

text \<open>
  Claim C9. Framing does not depend on how the stream is cut into chunks: the frames delivered
  over a connection are the newline-terminated pieces of the whole stream, in order and without
  their newlines, the decoder keeps the unterminated rest, and the connection fails exactly when
  some piece (also an unfinished one) is over the limit, with the buffer then empty. The buffer
  never exceeds the limit.
\<close>

theorem frame_decoder_correct:
  assumes "limit < u64_max"
  shows "decoder_feed chunks (frame_decoder_new limit) =
      ((if \<forall>s \<in> set (segments (concat chunks)). length s \<le> limit
        then (Inr (butlast (segments (concat chunks))),
              \<lparr>fd_buffer = last (segments (concat chunks)), fd_max_frame_bytes = limit\<rparr>)
        else (Inl (FrameTooLarge limit), frame_decoder_new limit)) :: 'j frames_result)
    \<and> pending_bytes (snd (decoder_feed chunks (frame_decoder_new limit) :: 'j frames_result)) \<le> limit"
proof -
  have "wf_decoder (frame_decoder_new limit)" using assms by (simp add: wf_decoder_def frame_decoder_new_def)
  from decoder_feed_eq [OF this, where 'j = 'j, of chunks]
  have "decoder_feed chunks (frame_decoder_new limit) =
      ((if \<forall>s \<in> set (segments (concat chunks)). length s \<le> limit
        then (Inr (butlast (segments (concat chunks))),
              \<lparr>fd_buffer = last (segments (concat chunks)), fd_max_frame_bytes = limit\<rparr>)
        else (Inl (FrameTooLarge limit), frame_decoder_new limit)) :: 'j frames_result)"
    by (simp add: Let_def fits_def frame_decoder_new_def cong: if_cong)
  moreover have "length (last (segments (concat chunks))) \<le> limit"
    if "\<forall>s \<in> set (segments (concat chunks)). length s \<le> limit"
    using that by simp
  ultimately show ?thesis
    by (auto simp: pending_bytes_def frame_decoder_new_def)
qed

lemma frame_decoder_correct_witness:
  "decoder_feed [[1, 10, 2], [3], [10, 10, 4]] (frame_decoder_new 2)
     = ((Inr [[1], [2, 3], []], \<lparr>fd_buffer = [4], fd_max_frame_bytes = 2\<rparr>) :: nat frames_result)"
  using frame_decoder_correct [where 'j = nat, of 2 "[[1, 10, 2], [3], [10, 10, 4]]"] by (simp del: decoder_feed.simps)

end
