(* ===== verification/Request_Cache.thy ===== *)
theory Request_Cache
  imports Wire
begin

text \<open>
  The \<open>RequestResultCache\<close> of \<open>src/protocol.rs\<close>, which makes client retries idempotent: a map from
  request IDs to responses, a recency list, a capacity and a time to live.
\<close>

section \<open>State and operations\<close>

text \<open>Payloads are JSON values \<open>'v\<close>, responses are \<open>'t\<close>; \<open>Instant\<close>s and durations are numbers.\<close>

record ('v, 't) cache_entry =
  ce_payload :: 'v
  ce_response :: 't
  ce_touched_at :: nat

record ('v, 't) request_cache =
  rc_entries :: "notification_id \<rightharpoonup> ('v, 't) cache_entry"
  rc_order :: "notification_id list"
  rc_capacity :: nat
  rc_ttl :: nat

datatype 't cache_lookup = Miss | Replay 't | PayloadMismatch

definition REQUEST_CACHE_CAPACITY :: nat where "REQUEST_CACHE_CAPACITY = 10000"
definition REQUEST_CACHE_TTL :: duration where "REQUEST_CACHE_TTL = from_secs (10 * 60)"

definition request_cache_new :: "nat \<Rightarrow> nat \<Rightarrow> ('v, 't) request_cache" where
  "request_cache_new capacity ttl =
     \<lparr>rc_entries = Map.empty, rc_order = [], rc_capacity = capacity, rc_ttl = ttl\<rparr>"

definition touch :: "notification_id \<Rightarrow> ('v, 't) request_cache \<Rightarrow> ('v, 't) request_cache" where
  "touch i c = c\<lparr>rc_order := remove1 i (rc_order c) @ [i]\<rparr>"

function expire :: "nat \<Rightarrow> ('v, 't) request_cache \<Rightarrow> ('v, 't) request_cache" where
  "expire now c =
     (case rc_order c of
        [] \<Rightarrow> c
      | i # rest \<Rightarrow>
          (case rc_entries c i of
             None \<Rightarrow> expire now (c\<lparr>rc_order := rest\<rparr>)
           | Some e \<Rightarrow>
               if now - ce_touched_at e < rc_ttl c then c
               else expire now (c\<lparr>rc_order := rest, rc_entries := (rc_entries c)(i := None)\<rparr>)))"
  by pat_completeness auto
termination by (relation "measure (\<lambda>(now, c). length (rc_order c))") auto

declare expire.simps [simp del]

definition cache_lookup ::
  "notification_id \<Rightarrow> 'v \<Rightarrow> nat \<Rightarrow> ('v, 't) request_cache \<Rightarrow> 't cache_lookup \<times> ('v, 't) request_cache" where
  "cache_lookup i payload now c0 =
     (let c = expire now c0 in
      case rc_entries c i of
        None \<Rightarrow> (Miss, c)
      | Some e \<Rightarrow>
          if ce_payload e \<noteq> payload then (PayloadMismatch, c)
          else (Replay (ce_response e),
                touch i (c\<lparr>rc_entries := (rc_entries c)(i \<mapsto> e\<lparr>ce_touched_at := now\<rparr>)\<rparr>)))"

definition cache_len :: "('v, 't) request_cache \<Rightarrow> nat" where
  "cache_len c = card (dom (rc_entries c))"

text \<open>
  The eviction loop of \<open>insert\<close>: it only makes progress while the recency list has an element, so
  not returning is a possible outcome (\<open>None\<close>).
\<close>

partial_function (option) evict :: "('v, 't) request_cache \<Rightarrow> ('v, 't) request_cache option" where
  "evict c =
     (if cache_len c > rc_capacity c then
        (case rc_order c of
           [] \<Rightarrow> evict c
         | oldest # rest \<Rightarrow> evict (c\<lparr>rc_order := rest, rc_entries := (rc_entries c)(oldest := None)\<rparr>))
      else Some c)"

definition cache_insert ::
  "notification_id \<Rightarrow> 'v \<Rightarrow> 't \<Rightarrow> nat \<Rightarrow> ('v, 't) request_cache \<Rightarrow> ('v, 't) request_cache option" where
  "cache_insert i payload response now c0 =
     (let c = expire now c0;
          e = \<lparr>ce_payload = payload, ce_response = response, ce_touched_at = now\<rparr>
      in evict (touch i (c\<lparr>rc_entries := (rc_entries c)(i \<mapsto> e)\<rparr>)))"

section \<open>The invariant\<close>

text \<open>The recency list holds exactly the cached IDs, oldest touch first.\<close>

definition touched_of :: "('v, 't) request_cache \<Rightarrow> notification_id \<Rightarrow> nat" where
  "touched_of c i = (case rc_entries c i of None \<Rightarrow> 0 | Some e \<Rightarrow> ce_touched_at e)"

definition wf_order :: "('v, 't) request_cache \<Rightarrow> bool" where
  "wf_order c \<longleftrightarrow> distinct (rc_order c) \<and> set (rc_order c) = dom (rc_entries c)
     \<and> sorted (map (touched_of c) (rc_order c)) \<and> 0 < rc_capacity c"

definition wf_cache :: "('v, 't) request_cache \<Rightarrow> bool" where
  "wf_cache c \<longleftrightarrow> wf_order c \<and> length (rc_order c) \<le> rc_capacity c"

text \<open>No entry is newer than \<open>t\<close>.\<close>

definition touched_by :: "nat \<Rightarrow> ('v, 't) request_cache \<Rightarrow> bool" where
  "touched_by t c \<longleftrightarrow> (\<forall>i \<in> set (rc_order c). touched_of c i \<le> t)"

lemma cache_len_order: "wf_order c \<Longrightarrow> cache_len c = length (rc_order c)"
  by (metis cache_len_def distinct_card wf_order_def)

lemma wf_order_tl:
  assumes "wf_order c" and "rc_order c = i # rest"
  shows "wf_order (c\<lparr>rc_order := rest, rc_entries := (rc_entries c)(i := None)\<rparr>)" (is "wf_order ?d")
proof -
  have d: "distinct (i # rest)" "set (i # rest) = dom (rc_entries c)"
    "sorted (map (touched_of c) (i # rest))" using assms by (simp_all only: wf_order_def)
  have t: "map (touched_of ?d) rest = map (touched_of c) rest"
    using d(1) by (auto simp: touched_of_def)
  have "sorted (map (touched_of ?d) (rc_order ?d))" using d(3) by (simp add: t)
  moreover have "set (rc_order ?d) = dom (rc_entries ?d)" using d(1,2) by auto
  moreover have "distinct (rc_order ?d)" "0 < rc_capacity ?d" using d(1) assms(1) by (simp_all add: wf_order_def)
  ultimately show ?thesis unfolding wf_order_def by blast
qed

lemma touched_by_tl:
  assumes "touched_by t c" and "wf_order c" and "rc_order c = i # rest"
  shows "touched_by t (c\<lparr>rc_order := rest, rc_entries := (rc_entries c)(i := None)\<rparr>)"
  using assms by (auto simp: touched_by_def touched_of_def wf_order_def)

text \<open>Expiry drops exactly the entries that have reached their time to live.\<close>

definition fresh :: "nat \<Rightarrow> ('v, 't) request_cache \<Rightarrow> notification_id \<Rightarrow> bool" where
  "fresh now c i \<longleftrightarrow> now - touched_of c i < rc_ttl c"

lemma expire_eq:
  assumes "wf_order c"
  shows "wf_order (expire now c)
    \<and> rc_order (expire now c) = filter (fresh now c) (rc_order c)
    \<and> rc_entries (expire now c) = (\<lambda>i. if i \<in> dom (rc_entries c) \<and> fresh now c i then rc_entries c i else None)
    \<and> rc_capacity (expire now c) = rc_capacity c \<and> rc_ttl (expire now c) = rc_ttl c"
  using assms
proof (induction now c rule: expire.induct)
  case (1 now c)
  show ?case
  proof (cases "rc_order c")
    case Nil
    then have "dom (rc_entries c) = {}" using "1.prems" by (simp add: wf_order_def)
    with Nil "1.prems" show ?thesis by (subst (1 2 3 4 5) expire.simps) (auto simp: fun_eq_iff dom_def)
  next
    case (Cons i rest)
    then obtain e where e: "rc_entries c i = Some e"
      using "1.prems" by (force simp: wf_order_def)
    have ti: "touched_of c i = ce_touched_at e" using e by (simp add: touched_of_def)
    show ?thesis
    proof (cases "fresh now c i")
      case True
      then have same: "expire now c = c"
        using Cons e ti by (subst expire.simps) (simp add: fresh_def)
      have later: "touched_of c i \<le> touched_of c j" if "j \<in> set (rc_order c)" for j
        using "1.prems" Cons that by (auto simp: wf_order_def)
      have all: "fresh now c j" if "j \<in> set (rc_order c)" for j
        using True later [OF that] unfolding fresh_def by linarith
      then have "filter (fresh now c) (rc_order c) = rc_order c" by simp
      moreover have "fresh now c j" if "rc_entries c j = Some y" for j y
        using "1.prems" that all by (auto simp: wf_order_def)
      then have "rc_entries c = (\<lambda>j. if j \<in> dom (rc_entries c) \<and> fresh now c j then rc_entries c j else None)"
        by (intro ext) (metis domIff option.exhaust)
      ultimately show ?thesis using same "1.prems" by simp
    next
      case False
      let ?d = "c\<lparr>rc_order := rest, rc_entries := (rc_entries c)(i := None)\<rparr>"
      have step: "expire now c = expire now ?d"
        using Cons e ti False by (subst expire.simps) (simp add: fresh_def)
      have d: "wf_order ?d" by (rule wf_order_tl [OF "1.prems" Cons])
      have notfresh: "\<not> now - ce_touched_at e < rc_ttl c" using False ti by (simp add: fresh_def)
      note IH = "1.IH"(2) [OF Cons e notfresh d]
      have "i \<notin> set rest" using "1.prems" Cons by (simp add: wf_order_def)
      then have f: "fresh now ?d j \<longleftrightarrow> fresh now c j" if "j \<in> set rest" for j
        using that by (auto simp: fresh_def touched_of_def)
      then have F: "filter (fresh now ?d) (rc_order ?d) = filter (fresh now c) (rc_order c)"
        using Cons False by (auto intro: filter_cong)
      have E: "(\<lambda>j. if j \<in> dom (rc_entries ?d) \<and> fresh now ?d j then rc_entries ?d j else None)
          = (\<lambda>j. if j \<in> dom (rc_entries c) \<and> fresh now c j then rc_entries c j else None)"
        using False by (auto simp: fun_eq_iff fresh_def touched_of_def)
      have "rc_capacity ?d = rc_capacity c" "rc_ttl ?d = rc_ttl c" by simp_all
      with IH show ?thesis unfolding step E F by simp
    qed
  qed
qed

lemma wf_touch:
  assumes "wf_order c" and "touched_by now c" and "ce_touched_at e = now"
  shows "wf_order (touch i (c\<lparr>rc_entries := (rc_entries c)(i \<mapsto> e)\<rparr>))" (is "wf_order ?d")
proof -
  have t: "map (touched_of ?d) (remove1 i (rc_order c)) = map (touched_of c) (remove1 i (rc_order c))"
    using assms(1) by (auto simp: touched_of_def touch_def wf_order_def)
  have "sorted (map (touched_of c) (remove1 i (rc_order c)))"
    using assms(1) by (simp add: wf_order_def sorted_map_remove1)
  moreover have "touched_of c j \<le> now" if "j \<in> set (remove1 i (rc_order c))" for j
    using assms(2) that by (auto simp: touched_by_def dest: notin_set_remove1)
  moreover have "touched_of ?d i = now" using assms(3) by (simp add: touched_of_def touch_def)
  moreover have "rc_order ?d = remove1 i (rc_order c) @ [i]" by (simp add: touch_def)
  ultimately have "sorted (map (touched_of ?d) (rc_order ?d))"
    by (simp only: map_append t sorted_append list.map) auto
  moreover have "distinct (rc_order ?d)" "set (rc_order ?d) = dom (rc_entries ?d)"
    using assms(1) by (auto simp: touch_def wf_order_def)
  ultimately show ?thesis using assms(1) by (simp add: wf_order_def touch_def)
qed

text \<open>Under the invariant the eviction loop returns, dropping the least recently touched entries.\<close>

definition excess :: "('v, 't) request_cache \<Rightarrow> nat" where
  "excess c = length (rc_order c) - rc_capacity c"

lemma evict_eq:
  assumes "wf_order c"
  shows "\<exists>d. evict c = Some d \<and> wf_cache d \<and> rc_order d = drop (excess c) (rc_order c)
    \<and> rc_entries d = (\<lambda>i. if i \<in> set (take (excess c) (rc_order c)) then None else rc_entries c i)
    \<and> rc_ttl d = rc_ttl c \<and> rc_capacity d = rc_capacity c"
  using assms
proof (induction "length (rc_order c)" arbitrary: c)
  case 0
  then have "cache_len c = 0" using cache_len_order [OF "0.prems"] by simp
  then have "evict c = Some c" by (subst evict.simps) simp
  with 0 show ?case by (auto simp: wf_cache_def excess_def)
next
  case (Suc n)
  show ?case
  proof (cases "cache_len c > rc_capacity c")
    case False
    then have "evict c = Some c" by (subst evict.simps) simp
    with False Suc.prems show ?thesis by (auto simp: wf_cache_def excess_def cache_len_order)
  next
    case True
    obtain i rest where Cons: "rc_order c = i # rest" using Suc.hyps(2) by (cases "rc_order c") auto
    let ?d = "c\<lparr>rc_order := rest, rc_entries := (rc_entries c)(i := None)\<rparr>"
    have step: "evict c = evict ?d" using True Cons by (subst evict.simps) simp
    have wf: "wf_order ?d" by (rule wf_order_tl [OF Suc.prems Cons])
    have n: "n = length (rc_order ?d)" using Suc.hyps(2) Cons by simp
    have ex: "excess c = Suc (excess ?d)"
      using True Cons cache_len_order [OF Suc.prems] by (simp add: excess_def)
    from Suc.hyps(1) [OF n wf] obtain d where d: "evict ?d = Some d" "wf_cache d"
      "rc_order d = drop (excess ?d) rest"
      "rc_entries d = (\<lambda>j. if j \<in> set (take (excess ?d) rest) then None else rc_entries ?d j)"
      "rc_ttl d = rc_ttl c" "rc_capacity d = rc_capacity c" by auto
    have "rc_entries d = (\<lambda>j. if j \<in> set (take (excess c) (rc_order c)) then None else rc_entries c j)"
      unfolding d(4) ex Cons by (auto simp: fun_eq_iff)
    with d step ex Cons show ?thesis by simp
  qed
qed

section \<open>The operations keep the invariant\<close>

lemma expire_touched_by:
  assumes "wf_order c" and "touched_by t c"
  shows "touched_by t (expire now c)"
proof -
  have "touched_of (expire now c) i \<le> t" if "i \<in> set (rc_order (expire now c))" for i
  proof -
    have "i \<in> set (rc_order c)" "fresh now c i" using that expire_eq [OF assms(1), of now] by auto
    moreover from this have "touched_of (expire now c) i = touched_of c i"
      using expire_eq [OF assms(1), of now] assms(1) by (auto simp: touched_of_def wf_order_def)
    ultimately show ?thesis using assms(2) by (simp add: touched_by_def)
  qed
  then show ?thesis by (simp add: touched_by_def)
qed

lemma expire_wf: "wf_cache c \<Longrightarrow> wf_cache (expire now c)"
  using expire_eq [of c now] le_trans [OF length_filter_le [of "fresh now c" "rc_order c"]]
  by (auto simp: wf_cache_def)

lemma touch_touched_by:
  assumes "touched_by now c" and "ce_touched_at e = now"
  shows "touched_by now (touch i (c\<lparr>rc_entries := (rc_entries c)(i \<mapsto> e)\<rparr>))"
  using assms by (auto simp: touched_by_def touch_def touched_of_def dest: notin_set_remove1)

lemma touched_by_mono: "touched_by s c \<Longrightarrow> s \<le> t \<Longrightarrow> touched_by t c"
  by (auto simp: touched_by_def)

lemma expired_facts:
  assumes "wf_cache c" and "touched_by t c" and "t \<le> now"
  shows "wf_cache (expire now c)" "wf_order (expire now c)" "touched_by now (expire now c)"
proof -
  have c: "wf_order c" using assms(1) by (simp add: wf_cache_def)
  show x: "wf_cache (expire now c)" by (rule expire_wf [OF assms(1)])
  then show "wf_order (expire now c)" by (simp add: wf_cache_def)
  show "touched_by now (expire now c)"
    by (rule touched_by_mono [OF expire_touched_by [OF c assms(2)] assms(3)])
qed

lemma lookup_wf:
  assumes "wf_cache c" and "touched_by t c" and "t \<le> now"
  shows "wf_cache (snd (cache_lookup i payload now c))" "touched_by now (snd (cache_lookup i payload now c))"
proof -
  let ?x = "expire now c"
  note x = expired_facts [OF assms]
  have "wf_cache (touch i (?x\<lparr>rc_entries := (rc_entries ?x)(i \<mapsto> e\<lparr>ce_touched_at := now\<rparr>)\<rparr>))"
    if "rc_entries ?x i = Some e" for e
  proof -
    have "i \<in> set (rc_order ?x)" using that x(2) by (auto simp: wf_order_def)
    then have "length (remove1 i (rc_order ?x) @ [i]) = length (rc_order ?x)"
      using length_pos_if_in_set [of i "rc_order ?x"] by (simp add: length_remove1)
    with x(1) wf_touch [OF x(2,3), of "e\<lparr>ce_touched_at := now\<rparr>" i] show ?thesis
      by (simp add: wf_cache_def touch_def)
  qed
  then show "wf_cache (snd (cache_lookup i payload now c))"
    using x(1) by (simp add: cache_lookup_def Let_def split: option.splits)
  show "touched_by now (snd (cache_lookup i payload now c))"
    using x(3) by (simp add: cache_lookup_def Let_def touch_touched_by split: option.splits)
qed

text \<open>The state a write starts its eviction from.\<close>

definition written :: "notification_id \<Rightarrow> 'v \<Rightarrow> 't \<Rightarrow> nat \<Rightarrow> ('v, 't) request_cache \<Rightarrow> ('v, 't) request_cache" where
  "written i payload response now c0 =
     (let c = expire now c0
      in touch i (c\<lparr>rc_entries := (rc_entries c)(i \<mapsto>
           \<lparr>ce_payload = payload, ce_response = response, ce_touched_at = now\<rparr>)\<rparr>))"

lemma written_facts:
  fixes c :: "('v, 't) request_cache" and payload :: 'v and response :: 't and i :: notification_id
  assumes "wf_cache c" and "touched_by t c" and "t \<le> now"
  defines "w \<equiv> written i payload response now c"
  shows "wf_order w" "touched_by now w" "excess w \<le> 1" "last (rc_order w) = i" "rc_order w \<noteq> []"
    "rc_entries w i = Some \<lparr>ce_payload = payload, ce_response = response, ce_touched_at = now\<rparr>"
    "rc_ttl w = rc_ttl c" "rc_capacity w = rc_capacity c"
proof -
  let ?x = "expire now c"
  note x = expired_facts [OF assms(1-3)]
  show "wf_order w" using x(2,3) by (simp add: w_def written_def Let_def wf_touch)
  show "touched_by now w" using x(3) by (simp add: w_def written_def Let_def touch_touched_by)
  have "length (remove1 i (rc_order ?x)) \<le> rc_capacity ?x"
    using x(1) by (auto simp: wf_cache_def length_remove1)
  then show "excess w \<le> 1" by (simp add: excess_def w_def written_def Let_def touch_def)
  show "last (rc_order w) = i" "rc_order w \<noteq> []"
    "rc_entries w i = Some \<lparr>ce_payload = payload, ce_response = response, ce_touched_at = now\<rparr>"
    by (simp_all add: w_def written_def Let_def touch_def)
  show "rc_ttl w = rc_ttl c" "rc_capacity w = rc_capacity c"
    using expire_eq [of c now] assms(1) by (simp_all add: w_def written_def Let_def touch_def wf_cache_def)
qed

lemma insert_eq:
  assumes "wf_cache c" and "touched_by t c" and "t \<le> now"
  obtains d where "cache_insert i payload response now c = Some d" and "wf_cache d" and "touched_by now d"
    and "rc_entries d i = Some \<lparr>ce_payload = payload, ce_response = response, ce_touched_at = now\<rparr>"
    and "rc_order d = drop (excess (written i payload response now c)) (rc_order (written i payload response now c))"
    and "rc_ttl d = rc_ttl c" and "rc_capacity d = rc_capacity c"
proof -
  let ?w = "written i payload response now c"
  note w = written_facts [OF assms, of i payload response]
  from evict_eq [OF w(1)] obtain d where d: "evict ?w = Some d" "wf_cache d"
    "rc_order d = drop (excess ?w) (rc_order ?w)"
    "rc_entries d = (\<lambda>i. if i \<in> set (take (excess ?w) (rc_order ?w)) then None else rc_entries ?w i)"
    "rc_ttl d = rc_ttl ?w" "rc_capacity d = rc_capacity ?w" by blast
  have cap: "0 < rc_capacity ?w" using w(1) by (simp add: wf_order_def)
  have keep: "i \<notin> set (take (excess ?w) (rc_order ?w))"
  proof
    assume "i \<in> set (take (excess ?w) (rc_order ?w))"
    then have "excess ?w = 1" using w(3) by (cases "excess ?w") auto
    with \<open>i \<in> set (take (excess ?w) (rc_order ?w))\<close> w(5) have hd: "hd (rc_order ?w) = i"
      by (cases "rc_order ?w") auto
    have "length (rc_order ?w) > 1" using \<open>excess ?w = 1\<close> cap by (simp add: excess_def)
    then obtain ys where "rc_order ?w = i # ys" "ys \<noteq> []"
      using hd w(5) by (cases "rc_order ?w") auto
    with w(1,4) show False by (auto simp: wf_order_def)
  qed
  have "touched_by now d"
  proof -
    have "touched_of d j \<le> now" if "j \<in> set (rc_order d)" for j
    proof -
      have j: "j \<in> set (rc_order ?w)" using that d(3) by (auto dest: in_set_dropD)
      show ?thesis using w(2) j by (auto simp: touched_of_def d(4) touched_by_def split: if_splits)
    qed
    then show ?thesis by (simp add: touched_by_def)
  qed
  then show thesis
    using d w keep by (intro that [of d]) (simp_all add: cache_insert_def written_def Let_def)
qed

section \<open>Runs\<close>

datatype ('v, 't) cache_call = LookupCall notification_id 'v | InsertCall notification_id 'v 't

text \<open>
  A connection's use of the cache: calls with the instants at which they happen. The state is the
  cache (\<open>None\<close> once a call has not returned) and the instant of the last call.
\<close>

fun cache_step ::
  "('v, 't) request_cache option \<times> nat \<Rightarrow> ('v, 't) cache_call \<times> nat \<Rightarrow> ('v, 't) request_cache option \<times> nat" where
  "cache_step (None, t) (c, now) = (None, now)"
| "cache_step (Some c, t) (LookupCall i payload, now) = (Some (snd (cache_lookup i payload now c)), now)"
| "cache_step (Some c, t) (InsertCall i payload response, now) = (cache_insert i payload response now c, now)"

definition cache_guard :: "('v, 't) request_cache option \<times> nat \<Rightarrow> ('v, 't) cache_call \<times> nat \<Rightarrow> bool" where
  "cache_guard s call \<longleftrightarrow> snd s \<le> snd call"

lemma cache_step_time [simp]: "snd (cache_step s call) = snd call"
  by (cases "(s, call)" rule: cache_step.cases) auto

fun cache_inv :: "('v, 't) request_cache option \<times> nat \<Rightarrow> bool" where
  "cache_inv (None, t) \<longleftrightarrow> False"
| "cache_inv (Some c, t) \<longleftrightarrow> wf_cache c \<and> touched_by t c"

interpretation cache: invariant_machine cache_step cache_guard cache_inv
proof
  fix s :: "('v, 't) request_cache option \<times> nat" and call :: "('v, 't) cache_call \<times> nat"
  assume inv: "cache_inv s" and guard: "cache_guard s call"
  obtain c t where s: "s = (Some c, t)" "wf_cache c" "touched_by t c"
    using inv by (cases s rule: cache_inv.cases) auto
  obtain x now where call: "call = (x, now)" "t \<le> now" using guard s(1) by (cases call) (auto simp: cache_guard_def)
  show "cache_inv (cache_step s call)"
  proof (cases x)
    case (LookupCall i payload)
    with s call show ?thesis by (simp add: lookup_wf)
  next
    case (InsertCall i payload response)
    obtain d where "cache_insert i payload response now c = Some d" "wf_cache d" "touched_by now d"
      using insert_eq [OF s(2,3) call(2)] by blast
    with InsertCall s call show ?thesis by simp
  qed
qed

lemma cache_new_inv: "0 < capacity \<Longrightarrow> cache_inv (Some (request_cache_new capacity ttl), t)"
  by (simp add: request_cache_new_def wf_cache_def wf_order_def touched_by_def)

text \<open>
  Every run of lookups and insertions at non-decreasing instants returns (the eviction
  loop never gets stuck), and afterwards the recency list holds exactly the cached IDs, ordered by
  their last touch, and no more than the capacity.
\<close>

theorem cache_runs:
  assumes "0 < capacity"
    and "enabled_run cache_step cache_guard (Some (request_cache_new capacity ttl), t) calls"
  shows "\<exists>c now. run_machine cache_step (Some (request_cache_new capacity ttl), t) calls = (Some c, now)
    \<and> distinct (rc_order c) \<and> set (rc_order c) = dom (rc_entries c) \<and> cache_len c \<le> rc_capacity c
    \<and> sorted (map (touched_of c) (rc_order c))"
proof -
  let ?s = "run_machine cache_step (Some (request_cache_new capacity ttl), t) calls"
  have "cache_inv ?s" by (rule cache.run_inv [OF cache_new_inv [OF assms(1)] assms(2)])
  then obtain c now where s: "?s = (Some c, now)" "wf_cache c" by (cases ?s rule: cache_inv.cases) auto
  then show ?thesis by (auto simp: wf_cache_def wf_order_def cache_len_order [unfolded wf_order_def])
qed

lemma cache_runs_witness:
  "\<exists>c now. run_machine cache_step (Some (request_cache_new 1 60 :: (nat, nat) request_cache), 0)
     [(InsertCall 1 7 8, 3), (LookupCall 1 7, 5), (InsertCall 2 7 9, 6)] = (Some c, now) \<and> cache_len c \<le> rc_capacity c"
  using cache_runs [of 1 60 0 "[(InsertCall 1 7 8, 3), (LookupCall 1 7, 5), (InsertCall 2 7 9, 6)] :: ((nat, nat) cache_call \<times> nat) list"]
  by (auto simp: cache_guard_def simp del: run_machine.simps cache_step.simps)

lemma lookup_eq:
  assumes "wf_cache c"
  shows "fst (cache_lookup i payload now c) =
    (case rc_entries c i of
       None \<Rightarrow> Miss
     | Some e \<Rightarrow>
         if now - ce_touched_at e < rc_ttl c
         then (if ce_payload e = payload then Replay (ce_response e) else PayloadMismatch) else Miss)"
proof (cases "rc_entries c i")
  case None
  then show ?thesis using expire_eq [of c now] assms by (simp add: cache_lookup_def Let_def wf_cache_def)
next
  case (Some e)
  then have "rc_entries (expire now c) i = (if now - ce_touched_at e < rc_ttl c then Some e else None)"
    using expire_eq [of c now] assms by (simp add: wf_cache_def fresh_def touched_of_def domIff)
  with Some show ?thesis by (simp add: cache_lookup_def Let_def)
qed

text \<open>
  A retry is answered from the cache: after a response has been recorded, looking the
  same request up within the time to live replays exactly this response, a different payload
  under the same ID is reported as a mismatch, and after the time to live the entry is gone; what
  is evicted to make room is at most one entry, the least recently touched one, and never the one
  just recorded.
\<close>

theorem cache_replays:
  assumes "wf_cache c" and "touched_by t c" and "t \<le> now"
  shows "\<exists>d. cache_insert i payload response now c = Some d \<and> wf_cache d \<and> touched_by now d
    \<and> (\<forall>later. fst (cache_lookup i payload later d) = (if later - now < rc_ttl c then Replay response else Miss))
    \<and> (\<forall>later other. other \<noteq> payload \<longrightarrow>
         fst (cache_lookup i other later d) = (if later - now < rc_ttl c then PayloadMismatch else Miss))
    \<and> (\<forall>j. j \<noteq> i \<and> j \<in> set (rc_order (expire now c)) \<and> rc_entries d j = None \<longrightarrow>
         j = hd (remove1 i (rc_order (expire now c))))"
proof -
  let ?w = "written i payload response now c"
  obtain d where d: "cache_insert i payload response now c = Some d" "wf_cache d" "touched_by now d"
    "rc_entries d i = Some \<lparr>ce_payload = payload, ce_response = response, ce_touched_at = now\<rparr>"
    "rc_order d = drop (excess ?w) (rc_order ?w)" "rc_ttl d = rc_ttl c"
    by (rule insert_eq [OF assms, of i payload response])
  have order: "rc_order ?w = remove1 i (rc_order (expire now c)) @ [i]"
    by (simp add: written_def Let_def touch_def)
  have "j = hd (remove1 i (rc_order (expire now c)))"
    if "j \<noteq> i" "j \<in> set (rc_order (expire now c))" "rc_entries d j = None" for j
  proof -
    have "j \<notin> set (rc_order d)" using d(2) that(3) by (auto simp: wf_cache_def wf_order_def)
    moreover have "j \<in> set (rc_order ?w)" using that(1,2) by (simp add: order)
    ultimately have "excess ?w \<noteq> 0" using d(5) by (metis drop0)
    then have one: "excess ?w = 1" using written_facts(3) [OF assms, of i payload response] by simp
    have "j \<in> set (remove1 i (rc_order (expire now c)))" using that(1,2) by simp
    then obtain x xs where x: "remove1 i (rc_order (expire now c)) = x # xs" by (cases "remove1 i (rc_order (expire now c))") auto
    with d(5) one \<open>j \<notin> set (rc_order d)\<close> \<open>j \<in> set (rc_order ?w)\<close> show ?thesis by (simp add: order)
  qed
  with d show ?thesis by (simp add: lookup_eq)
qed

lemma cache_replays_witness:
  "\<exists>d. cache_insert 1 7 8 3 (request_cache_new 2 60 :: (nat, nat) request_cache) = Some d
     \<and> fst (cache_lookup 1 7 62 d) = Replay 8 \<and> fst (cache_lookup 1 7 63 d) = Miss"
proof -
  let ?c = "request_cache_new 2 60 :: (nat, nat) request_cache"
  have "wf_cache ?c" "touched_by 0 ?c" "rc_ttl ?c = 60"
    by (simp_all add: request_cache_new_def wf_cache_def wf_order_def touched_by_def)
  with cache_replays [of ?c 0 3 1 7 8] show ?thesis by auto
qed

end
