(* ===== verification/Protocol.thy ===== *)
theory Protocol
  imports Frames Request_Cache
begin

text \<open>
  The request and response envelopes of \<open>src/protocol.rs\<close>, the validation of client requests at
  the daemon's boundary and the frames exchanged with renderers. JSON parsing and the derived
  (de)serialisers are serde's: they are parameters.
\<close>

section \<open>Envelopes\<close>

record ('v, 'j) json_ops =
  js_parse :: "byte list \<Rightarrow> 'j + 'v"
  js_object :: "'v \<Rightarrow> (ustring \<Rightarrow> 'v option) option"
  js_u64 :: "'v \<Rightarrow> nat option"
  js_str :: "'v \<Rightarrow> ustring option"
  js_request :: "'v \<Rightarrow> 'j + client_request"

definition ok_or :: "'e \<Rightarrow> 'a option \<Rightarrow> 'e + 'a" where
  "ok_or e x = (case x of None \<Rightarrow> Inl e | Some a \<Rightarrow> Inr a)"

lemma ok_or_Inr [simp]: "ok_or e x = Inr a \<longleftrightarrow> x = Some a"
  by (cases x) (auto simp: ok_or_def)

record 'v request_envelope =
  re_request_id :: notification_id
  re_kind :: request_kind
  re_value :: 'v

text \<open>The fields every envelope starts with: a supported version and a request ID.\<close>

definition envelope_version ::
  "('v, 'j) json_ops \<Rightarrow> (ustring \<Rightarrow> 'v option) \<Rightarrow> 'j protocol_error + unit" where
  "envelope_version js obj =
     bind_sum (ok_or (MissingOrInvalidField ''version'') (Option.bind (obj (ustr ''version'')) (js_u64 js))) (\<lambda>version.
       if version \<noteq> PROTOCOL_VERSION then Inl (UnsupportedVersion version) else Inr ())"

definition envelope_id ::
  "('v, 'j) json_ops \<Rightarrow> uuid_ops \<Rightarrow> (ustring \<Rightarrow> 'v option) \<Rightarrow> 'j protocol_error + notification_id" where
  "envelope_id js uuid obj =
     bind_sum (ok_or (MissingOrInvalidField ''request_id'') (Option.bind (obj (ustr ''request_id'')) (js_str js))) (\<lambda>text.
       ok_or (MissingOrInvalidField ''request_id'') (uuid_parse uuid text))"

definition envelope_decode ::
  "('v, 'j) json_ops \<Rightarrow> uuid_ops \<Rightarrow> byte list \<Rightarrow> 'j protocol_error + 'v request_envelope" where
  "envelope_decode js uuid frame =
     (if length frame > MAX_REQUEST_BYTES then Inl (FrameTooLarge MAX_REQUEST_BYTES)
      else
        bind_sum (map_sum MalformedJson id (js_parse js frame)) (\<lambda>value.
        bind_sum (ok_or RequestMustBeObject (js_object js value)) (\<lambda>obj.
        bind_sum (envelope_version js obj) (\<lambda>_.
        bind_sum (envelope_id js uuid obj) (\<lambda>request_id.
        bind_sum (ok_or (MissingOrInvalidField ''type'') (Option.bind (obj (ustr ''type'')) (js_str js))) (\<lambda>request_type.
        bind_sum (ok_or (UnknownRequestType request_type) (request_kind_parse request_type)) (\<lambda>kind.
          Inr \<lparr>re_request_id = request_id, re_kind = kind, re_value = value\<rparr>)))))))"

definition payload_matches :: "'v request_envelope \<Rightarrow> 'v request_envelope \<Rightarrow> bool" where
  "payload_matches a b \<longleftrightarrow> re_request_id a = re_request_id b \<and> re_value a = re_value b"

definition from_envelope ::
  "('v, 'j) json_ops \<Rightarrow> uuid_ops \<Rightarrow> 'v request_envelope \<Rightarrow> 'j protocol_error + client_request" where
  "from_envelope js uuid env =
     bind_sum (map_sum InvalidPayload id (js_request js (re_value env))) (\<lambda>request.
       if cr_version request \<noteq> PROTOCOL_VERSION \<or> cr_request_id request \<noteq> re_request_id env
          \<or> command_kind (cr_command request) \<noteq> re_kind env
       then Inl EnvelopeMismatch
       else bind_sum (command_validate uuid (cr_command request)) (\<lambda>_. Inr request))"

datatype 'v client_response = ResponseSuccess 'v | ResponseError ustring

definition decode_client_response ::
  "('v, 'j) json_ops \<Rightarrow> uuid_ops \<Rightarrow> byte list \<Rightarrow> notification_id \<Rightarrow> 'j protocol_error + 'v client_response" where
  "decode_client_response js uuid frame expected =
     (if length frame > MAX_REQUEST_BYTES then Inl (ResponseTooLarge MAX_REQUEST_BYTES)
      else
        bind_sum (map_sum MalformedJson id (js_parse js frame)) (\<lambda>value.
        bind_sum (ok_or ResponseMustBeObject (js_object js value)) (\<lambda>obj.
        bind_sum (envelope_version js obj) (\<lambda>_.
        bind_sum (envelope_id js uuid obj) (\<lambda>request_id.
          if request_id \<noteq> expected then Inl (ResponseRequestMismatch expected request_id)
          else (case (obj (ustr ''result''), obj (ustr ''error'')) of
                  (Some r, None) \<Rightarrow> Inr (ResponseSuccess r)
                | (None, Some e) \<Rightarrow> map_sum id ResponseError (ok_or (MissingOrInvalidField ''error'') (js_str js e))
                | _ \<Rightarrow> Inl InvalidResponseShape))))))"

section \<open>Renderer credentials\<close>

record renderer_redemption =
  rr_window_display_id :: ustring
  rr_token :: ustring

definition is_lower_hex :: "nat \<Rightarrow> bool" where
  "is_lower_hex c \<longleftrightarrow> is_ascii_digit c \<or> 0x61 \<le> c \<and> c \<le> 0x66"

text \<open>\<open>Value::get\<close> is \<open>None\<close> on anything but an object.\<close>

definition js_get :: "('v, 'j) json_ops \<Rightarrow> 'v \<Rightarrow> ustring \<Rightarrow> 'v option" where
  "js_get js v name = Option.bind (js_object js v) (\<lambda>obj. obj name)"

definition filter_opt :: "('a \<Rightarrow> bool) \<Rightarrow> 'a option \<Rightarrow> 'a option" where
  "filter_opt P x = (case x of None \<Rightarrow> None | Some a \<Rightarrow> if P a then Some a else None)"

lemma filter_opt_Some [simp]: "filter_opt P x = Some a \<longleftrightarrow> x = Some a \<and> P a"
  by (cases x) (auto simp: filter_opt_def)

definition envelope_redemption ::
  "('v, 'j) json_ops \<Rightarrow> 'v request_envelope \<Rightarrow> 'j protocol_error + renderer_redemption" where
  "envelope_redemption js env =
     (if re_kind env \<noteq> RendererRedeemKind then Inl UnexpectedRequestType
      else
        bind_sum (ok_or (MissingOrInvalidField ''window_display'')
            (filter_opt (\<lambda>v. v \<noteq> [] \<and> utf8_len v \<le> 128)
              (Option.bind (js_get js (re_value env) (ustr ''window_display'')) (js_str js)))) (\<lambda>window_display.
        bind_sum (ok_or (MissingOrInvalidField ''token'')
            (filter_opt (\<lambda>v. utf8_len v = 64 \<and> list_all is_lower_hex v)
              (Option.bind (js_get js (re_value env) (ustr ''token'')) (js_str js)))) (\<lambda>token.
          Inr \<lparr>rr_window_display_id = window_display, rr_token = token\<rparr>)))"

section \<open>Renderer content and frames\<close>

datatype renderer_body_mode = FirstLine | JoinLines | WrapLines

record renderer_display_options =
  ro_body :: renderer_body_mode
  ro_unicode :: bool
  ro_color :: bool

definition display_options_default :: renderer_display_options where
  "display_options_default = \<lparr>ro_body = FirstLine, ro_unicode = True, ro_color = True\<rparr>"

record renderer_source =
  rs_provider :: "provider option"
  rs_provider_session_id :: "ustring option"
  rs_session_id :: ustring
  rs_window_id :: ustring
  rs_pane_id :: ustring
  rs_cwd :: "ustring option"
  rs_command :: "ustring option"
  rs_pane_title :: "ustring option"

record renderer_metadata =
  rm_agent_event_kind :: "agent_event_kind option"
  rm_agent_name :: "ustring option"
  rm_tool_name :: "ustring option"

record renderer_content =
  rc_notification_id :: notification_id
  rc_presentation :: presentation
  rc_level :: level
  rc_notification_key :: "ustring option"
  rc_title :: ustring
  rc_body :: ustring
  rc_timeout :: timeout
  rc_source :: "renderer_source option"
  rc_metadata :: renderer_metadata
  rc_display :: renderer_display_options

definition with_display_options :: "renderer_display_options \<Rightarrow> renderer_content \<Rightarrow> renderer_content" where
  "with_display_options display c = c\<lparr>rc_display := display\<rparr>"

definition renderer_content_from :: "notification \<Rightarrow> renderer_content" where
  "renderer_content_from n =
     \<lparr>rc_notification_id = n_id n, rc_presentation = n_presentation n, rc_level = n_level n,
      rc_notification_key = map_option key_str (n_key n), rc_title = n_title n, rc_body = n_body n,
      rc_timeout = n_timeout n,
      rc_source = map_option (\<lambda>s. \<lparr>rs_provider = src_provider s,
         rs_provider_session_id = src_provider_session_id s, rs_session_id = src_session_id s,
         rs_window_id = src_window_id s, rs_pane_id = src_pane_id s, rs_cwd = src_cwd s,
         rs_command = src_command s, rs_pane_title = src_pane_title s\<rparr>) (n_source n),
      rc_metadata = \<lparr>rm_agent_event_kind = md_agent_event_kind (n_metadata n),
         rm_agent_name = md_agent_name (n_metadata n), rm_tool_name = md_tool_name (n_metadata n)\<rparr>,
      rc_display = display_options_default\<rparr>"

datatype renderer_termination = TermRecreated | TermDismissed | TermJumped | TermTimedOut | TermRenderFailed
  | TermDaemonStopped | TermServerEnded

datatype renderer_action = JumpAction | DismissAction

datatype renderer_message =
    InitialMessage renderer_content
  | UpdateMessage renderer_content
  | ErrorMessage ustring
  | TerminateMessage renderer_termination

text \<open>
  The tail every \<open>encode_line\<close> shares: a size check before the newline is added. The encoder, and
  what its failure becomes, differ.
\<close>

definition bounded_line :: "'j protocol_error + byte list \<Rightarrow> 'j protocol_error + byte list" where
  "bounded_line encoded =
     bind_sum encoded (\<lambda>bytes.
       if length bytes > MAX_REQUEST_BYTES then Inl (FrameTooLarge MAX_REQUEST_BYTES)
       else Inr (bytes @ [newline]))"

definition request_encode_line ::
  "(client_request \<Rightarrow> 'j + byte list) \<Rightarrow> client_request \<Rightarrow> 'j protocol_error + byte list" where
  "request_encode_line to_vec r = bounded_line (map_sum Encode id (to_vec r))"

text \<open>A decoder strips one trailing newline, if there is one, and checks the size.\<close>

definition strip_newline :: "byte list \<Rightarrow> byte list" where
  "strip_newline frame = (case strip_suffix [newline] frame of None \<Rightarrow> frame | Some f \<Rightarrow> f)"

record renderer_wire_frame =
  frame_version :: nat
  frame_message :: renderer_message

definition message_encode_line ::
  "(renderer_wire_frame \<Rightarrow> 'j + byte list) \<Rightarrow> renderer_message \<Rightarrow> 'j protocol_error + byte list" where
  "message_encode_line to_vec m =
     bounded_line (map_sum MalformedJson id (to_vec \<lparr>frame_version = PROTOCOL_VERSION, frame_message = m\<rparr>))"

definition message_decode ::
  "(byte list \<Rightarrow> 'j + renderer_wire_frame) \<Rightarrow> byte list \<Rightarrow> 'j protocol_error + renderer_message" where
  "message_decode from_slice line =
     (let frame = strip_newline line in
      if length frame > MAX_REQUEST_BYTES then Inl (FrameTooLarge MAX_REQUEST_BYTES)
      else bind_sum (map_sum MalformedJson id (from_slice frame)) (\<lambda>decoded.
        if frame_version decoded \<noteq> PROTOCOL_VERSION then Inl (UnsupportedVersion (frame_version decoded))
        else Inr (frame_message decoded)))"

record renderer_action_frame =
  af_version :: nat
  af_frame_type :: ustring
  af_action :: renderer_action

definition action_encode_line ::
  "(renderer_action_frame \<Rightarrow> 'j + byte list) \<Rightarrow> renderer_action \<Rightarrow> 'j protocol_error + byte list" where
  "action_encode_line to_vec a =
     bounded_line (map_sum Encode id (to_vec \<lparr>af_version = PROTOCOL_VERSION,
       af_frame_type = ustr ''renderer-action'', af_action = a\<rparr>))"

definition action_decode ::
  "(byte list \<Rightarrow> 'j + renderer_action_frame) \<Rightarrow> byte list \<Rightarrow> 'j protocol_error + renderer_action" where
  "action_decode from_slice line =
     (let frame = strip_newline line in
      if length frame > MAX_REQUEST_BYTES then Inl (FrameTooLarge MAX_REQUEST_BYTES)
      else bind_sum (map_sum MalformedJson id (from_slice frame)) (\<lambda>decoded.
        if af_version decoded \<noteq> PROTOCOL_VERSION then Inl (UnsupportedVersion (af_version decoded))
        else if af_frame_type decoded \<noteq> ustr ''renderer-action'' then Inl UnexpectedRequestType
        else Inr (af_action decoded)))"

section \<open>Properties\<close>

text \<open>A concrete JSON layer for the instances: a frame is the request itself.\<close>

datatype demo_json = DemoNull | DemoNat nat | DemoText ustring | DemoRequest client_request

definition demo_fields :: "client_request \<Rightarrow> ustring \<Rightarrow> demo_json option" where
  "demo_fields r name =
     (if name = ustr ''version'' then Some (DemoNat (cr_version r))
      else if name = ustr ''request_id'' then Some (DemoText (ustr ''id''))
      else if name = ustr ''type'' then
        Some (DemoText (case cr_command r of ConfigReloadCmd \<Rightarrow> ustr ''config-reload'' | _ \<Rightarrow> ustr ''jump''))
      else None)"

definition demo_json :: "client_request \<Rightarrow> (demo_json, unit) json_ops" where
  "demo_json r = \<lparr>js_parse = (\<lambda>_. Inr (DemoRequest r)),
     js_object = (\<lambda>v. case v of DemoRequest q \<Rightarrow> Some (demo_fields q) | _ \<Rightarrow> None),
     js_u64 = (\<lambda>v. case v of DemoNat n \<Rightarrow> Some n | _ \<Rightarrow> None),
     js_str = (\<lambda>v. case v of DemoText t \<Rightarrow> Some t | _ \<Rightarrow> None),
     js_request = (\<lambda>v. case v of DemoRequest q \<Rightarrow> Inr q | _ \<Rightarrow> Inl ())\<rparr>"

definition demo_uuid :: uuid_ops where
  "demo_uuid = \<lparr>uuid_parse = (\<lambda>t. if t = ustr ''id'' then Some 7 else None), uuid_version = (\<lambda>_. 7)\<rparr>"

text \<open>
  A request frame is accepted exactly when it is within the size limit, parses to an
  object, carries the supported version, a request ID that parses as a UUID and a known request
  type; the envelope then holds this ID, this type and the complete value.
\<close>

theorem envelope_decode_correct:
  "envelope_decode js uuid frame = (Inr env :: 'j protocol_error + 'v request_envelope) \<longleftrightarrow>
     length frame \<le> 65536
     \<and> js_parse js frame = Inr (re_value env)
     \<and> (\<exists>obj id_text type_text. js_object js (re_value env) = Some obj
          \<and> Option.bind (obj (ustr ''version'')) (js_u64 js) = Some 1
          \<and> Option.bind (obj (ustr ''request_id'')) (js_str js) = Some id_text
          \<and> uuid_parse uuid id_text = Some (re_request_id env)
          \<and> Option.bind (obj (ustr ''type'')) (js_str js) = Some type_text
          \<and> request_kind_parse type_text = Some (re_kind env))"
proof -
  have parse: "map_sum MalformedJson id r = (Inr v :: 'j protocol_error + 'v) \<longleftrightarrow> r = Inr v" for r :: "'j + 'v" and v
    by (cases r) auto
  have cond: "(if b then Inl e else m) = (Inr y :: 'j protocol_error + 'b) \<longleftrightarrow> \<not> b \<and> m = Inr y"
    for b e m and y :: 'b by simp
  show ?thesis
    unfolding envelope_decode_def envelope_version_def envelope_id_def bind_sum_Inr ok_or_Inr parse cond
    by (cases env) (auto simp: MAX_REQUEST_BYTES_def PROTOCOL_VERSION_def)
qed

text \<open>What the daemon may rely on once a command has passed \<open>validate\<close>.\<close>

fun command_accepted :: "uuid_ops \<Rightarrow> client_command \<Rightarrow> bool" where
  "command_accepted uuid (SendCmd w) \<longleftrightarrow>
     (\<exists>d. wire_draft_into w = (Inr d :: unit protocol_error + _) \<and> wf_draft d)"
| "command_accepted uuid (UpdateCmd sel w) \<longleftrightarrow>
     (\<exists>target. wire_selector_into uuid sel = (Inr target :: unit protocol_error + _))
     \<and> (\<exists>u. wire_update_into w = (Inr u :: unit protocol_error + _) \<and> wf_update u \<and> u \<noteq> notification_update_new)"
| "command_accepted uuid (DismissCmd sel) \<longleftrightarrow>
     (\<exists>target. wire_selector_into uuid sel = (Inr target :: unit protocol_error + _))"
| "command_accepted uuid (JumpCmd key) \<longleftrightarrow> (\<exists>k. notification_key_new key = Inr k \<and> wf_key k)"
| "command_accepted uuid (HistoryCmd hidden servers n) \<longleftrightarrow> 1 \<le> n \<and> n \<le> 100000"
| "command_accepted uuid (HistoryJumpCmd w) \<longleftrightarrow>
     (\<exists>c. wire_source_into w = (Inr c :: unit protocol_error + _) \<and> wf_source c)"
| "command_accepted uuid _ \<longleftrightarrow> True"

text \<open>The result of a conversion does not depend on the type of JSON errors, which it never produces.\<close>

lemma from_ingress_map: "from_ingress r = (case r of Inl e \<Rightarrow> Inl (Ingress e) | Inr x \<Rightarrow> Inr x)"
  by (cases r) (simp_all add: from_ingress_def)

lemma wire_source_any: "wire_source_into w = (Inr c :: 'j protocol_error + _)
    \<Longrightarrow> wire_source_into w = (Inr c :: 'k protocol_error + _)"
  by (auto simp: wire_source_into_def wire_provider_into_def bind_sum_Inr split: option.splits)

lemma transpose_any: "transpose_opt wire_source_into v = (Inr c :: 'j protocol_error + _)
    \<Longrightarrow> transpose_opt wire_source_into v = (Inr c :: 'k protocol_error + _)"
  by (auto simp: transpose_opt_Inr dest: wire_source_any)

lemma wire_metadata_any: "wire_metadata_into w = (Inr c :: 'j protocol_error + _)
    \<Longrightarrow> wire_metadata_into w = (Inr c :: 'k protocol_error + _)"
  by (auto simp: wire_metadata_into_def bind_sum_Inr)

lemma wire_draft_any: "wire_draft_into w = (Inr d :: 'j protocol_error + _)
    \<Longrightarrow> wire_draft_into w = (Inr d :: 'k protocol_error + _)"
  unfolding wire_draft_into_def bind_sum_Inr from_ingress_Inr Let_def
  by (elim exE conjE, intro exI conjI, erule transpose_any, assumption, assumption, erule wire_metadata_any,
      simp only: sum.inject)

lemma wire_update_any: "wire_update_into w = (Inr u :: 'j protocol_error + _)
    \<Longrightarrow> wire_update_into w = (Inr u :: 'k protocol_error + _)"
  unfolding wire_update_into_def bind_sum_Inr from_ingress_Inr Let_def sum.inject .

lemma wire_selector_any: "wire_selector_into uuid w = (Inr t :: 'j protocol_error + _)
    \<Longrightarrow> wire_selector_into uuid w = (Inr t :: 'k protocol_error + _)"
  by (auto simp: wire_selector_into_def bind_sum_Inr split: option.splits)

lemma update_is_empty_new: "update_is_empty u \<longleftrightarrow> u = notification_update_new"
  by (cases u) (auto simp: update_is_empty_def notification_update_new_def)

lemma validate_accepted:
  assumes "command_validate uuid c = (Inr () :: 'j protocol_error + unit)"
  shows "command_accepted uuid c"
proof (cases c)
  case (SendCmd w)
  with assms obtain d where "wire_draft_into w = (Inr d :: 'j protocol_error + _)"
    by (auto split: sum.splits)
  with SendCmd show ?thesis using wire_draft_any wire_draft_into_wf by (metis command_accepted.simps(1))
next
  case (UpdateCmd sel w)
  with assms obtain t u where "wire_selector_into uuid sel = (Inr t :: 'j protocol_error + _)"
    "wire_update_into w = (Inr u :: 'j protocol_error + _)" "\<not> update_is_empty u"
    by (auto split: sum.splits if_splits)
  with UpdateCmd show ?thesis
    using wire_selector_any wire_update_any wire_update_into_wf update_is_empty_new
    by (metis command_accepted.simps(2))
next
  case (DismissCmd sel)
  with assms obtain t where "wire_selector_into uuid sel = (Inr t :: 'j protocol_error + _)"
    by (auto split: sum.splits)
  with DismissCmd show ?thesis using wire_selector_any by (metis command_accepted.simps(3))
next
  case (JumpCmd key)
  with assms show ?thesis by (auto simp: from_ingress_map dest: notification_key_new_wf split: sum.splits)
next
  case (HistoryJumpCmd w)
  with assms obtain s where "wire_source_into w = (Inr s :: 'j protocol_error + _)"
    by (auto split: sum.splits)
  with HistoryJumpCmd show ?thesis using wire_source_any wire_source_into_wf by (metis command_accepted.simps(6))
qed (use assms in \<open>auto split: if_splits\<close>)

text \<open>
  A client request that the daemon accepts agrees with its envelope (version, request ID
  and type) and is fit for use: a draft converts to a well-formed draft, an update to a
  well-formed update that changes something, selectors, keys and sources convert, and a History
  limit is between 1 and 100000.
\<close>

theorem accepted_requests_are_valid:
  assumes "from_envelope js uuid env = (Inr r :: 'j protocol_error + client_request)"
  shows "cr_version r = 1 \<and> cr_request_id r = re_request_id env \<and> command_kind (cr_command r) = re_kind env
    \<and> command_accepted uuid (cr_command r)"
proof -
  have r: "cr_version r = PROTOCOL_VERSION" "cr_request_id r = re_request_id env"
    "command_kind (cr_command r) = re_kind env"
    "command_validate uuid (cr_command r) = (Inr () :: 'j protocol_error + unit)"
    using assms by (auto simp: from_envelope_def split: sum.splits if_splits)
  from validate_accepted [OF r(4)] r(1-3) show ?thesis by (simp add: PROTOCOL_VERSION_def)
qed

definition demo_request :: client_request where
  "demo_request = client_request_new 7 (JumpCmd (ustr ''k''))"

lemma accepted_requests_are_valid_witness:
  "command_accepted demo_uuid (JumpCmd (ustr ''k''))"
proof -
  have "from_envelope (demo_json demo_request) demo_uuid
      \<lparr>re_request_id = 7, re_kind = JumpKind, re_value = DemoRequest demo_request\<rparr> = Inr demo_request"
    by (simp add: from_envelope_def demo_json_def demo_request_def client_request_new_def
        notification_key_new_def normalize_required_def normalize_bounded_def normalize_step_def
        is_display_control_def is_control_def limit_defs char_len_def)
  from accepted_requests_are_valid [OF this] show ?thesis
    by (simp add: demo_request_def client_request_new_def PROTOCOL_VERSION_def)
qed

text \<open>
  Claim C24. The wire keeps what it carries: a well-formed draft whose timeout is a whole number of
  milliseconds, and a well-formed update with such a timeout and no empty overrides, convert to
  the wire form and back unchanged, and two such drafts with the same wire form are equal.
\<close>

theorem wire_round_trip:
  assumes "wf_draft d" and "whole_millis (d_timeout d)" and "wf_update u" and "exact_update u"
  shows "wire_draft_into (wire_draft_from d) = (Inr d :: 'j protocol_error + notification_draft)
    \<and> wire_update_into (wire_update_from u) = (Inr u :: 'j protocol_error + notification_update)
    \<and> (\<forall>d'. wf_draft d' \<and> whole_millis (d_timeout d') \<and> wire_draft_from d' = wire_draft_from d \<longrightarrow> d' = d)"
proof (intro conjI allI impI)
  show "wire_draft_into (wire_draft_from d) = (Inr d :: 'j protocol_error + notification_draft)"
    by (rule draft_codec.decode_encode) (rule assms)+
  show "wire_update_into (wire_update_from u) = (Inr u :: 'j protocol_error + notification_update)"
    by (rule update_codec.decode_encode) (rule assms)+
next
  fix d' assume "wf_draft d' \<and> whole_millis (d_timeout d') \<and> wire_draft_from d' = wire_draft_from d"
  with assms(1,2) show "d' = d" by (intro draft_codec.encode_inj) auto
qed

lemma wire_round_trip_witness:
  "wire_update_into (wire_update_from (update_with_priority High notification_update_new))
     = (Inr (update_with_priority High notification_update_new) :: unit protocol_error + notification_update)"
proof -
  have "\<exists>d. notification_draft_new Toast [] [] None = Inr d"
    by (simp add: notification_draft_new_def normalize_bounded_def)
  then obtain d where d1: "notification_draft_new Toast [] [] None = Inr d" by blast
  have d: "notification_draft_new Toast [] [] None = Inr d" "wf_draft d"
    using d1 notification_draft_new_wf [OF d1] by simp_all
  have "whole_millis (d_timeout d)"
    using d(1) by (auto simp: notification_draft_new_def normalize_bounded_def Let_def whole_millis_def from_secs_def)
  moreover have "wf_update (update_with_priority High notification_update_new)"
    "exact_update (update_with_priority High notification_update_new)"
    by (simp_all add: wf_update_def exact_update_def update_with_priority_def notification_update_new_def)
  ultimately show ?thesis using wire_round_trip [where 'j = unit, OF d(2)] by blast
qed

text \<open>
  Selecting \<open>Never\<close> in an update does not survive serde: whatever the encoding, as long as
  an option is written as its content or as null and null is read as \<open>None\<close>, the double option of
  the timeout field reads back as unset, and the update that asked for nothing else is refused as
  empty.
\<close>

theorem never_update_is_lost:
  fixes ser_option_option :: "nat option option \<Rightarrow> 'v" and ser_option :: "nat option \<Rightarrow> 'v"
    and de_option_option :: "'v \<Rightarrow> 'j + nat option option" and null :: 'v
  assumes "\<And>x. ser_option_option (Some x) = ser_option x" and "ser_option None = null"
    and "de_option_option null = Inr None"
    and "wire_selector_into uuid sel = (Inr target :: 'j protocol_error + target_selector)"
  shows "let w = wire_update_from (update_with_timeout Never notification_update_new) in
    wu_timeout_ms w = Some None
    \<and> (\<exists>field. de_option_option (ser_option_option (wu_timeout_ms w)) = Inr field
        \<and> wire_update_into (w\<lparr>wu_timeout_ms := field\<rparr>)
            = (Inr notification_update_new :: 'j protocol_error + notification_update)
        \<and> command_validate uuid (UpdateCmd sel (w\<lparr>wu_timeout_ms := field\<rparr>))
            = (Inl EmptyUpdate :: 'j protocol_error + unit))"
  using assms
  by (simp add: Let_def wire_update_from_def update_with_timeout_def notification_update_new_def
      timeout_millis_def wire_update_into_def apply_opt_def update_is_empty_def)

lemma never_update_is_lost_witness:
  "command_validate demo_uuid (UpdateCmd \<lparr>sel_id = Some (ustr ''id''), sel_key = None\<rparr>
       (wire_update_from (update_with_timeout Never notification_update_new)\<lparr>wu_timeout_ms := None\<rparr>))
     = (Inl EmptyUpdate :: unit protocol_error + unit)"
proof -
  have sel: "wire_selector_into demo_uuid \<lparr>sel_id = Some (ustr ''id''), sel_key = None\<rparr>
      = (Inr (SelectId 7) :: unit protocol_error + _)"
    by (simp add: wire_selector_into_def demo_uuid_def notification_id_from_str_def)
  show ?thesis
    using never_update_is_lost [where ser_option_option = "\<lambda>x. case x of None \<Rightarrow> None | Some y \<Rightarrow> y"
        and ser_option = "\<lambda>x. x" and null = None
        and de_option_option = "\<lambda>v. (Inr (map_option Some v) :: unit + nat option option)", OF _ _ _ sel]
    by (auto simp: Let_def simp del: command_validate.simps)
qed

lemma strip_line: "strip_newline (bytes @ [newline]) = bytes"
proof -
  have "strip_suffix [newline] (bytes @ [newline]) = Some bytes" by (simp add: strip_suffix_Some)
  then show ?thesis by (simp add: strip_newline_def)
qed

lemma bounded_line_Inr: "bounded_line encoded = Inr line \<longleftrightarrow>
    (\<exists>bytes. encoded = Inr bytes \<and> length bytes \<le> MAX_REQUEST_BYTES \<and> line = bytes @ [newline])"
  by (cases encoded) (auto simp: bounded_line_def)

lemma map_sum_id_Inr: "map_sum f id r = Inr v \<longleftrightarrow> r = Inr v"
  by (cases r) auto

text \<open>
  Frames between daemon and renderer round trip: a message or an action that is encoded
  fits the frame limit, ends in the only newline the encoder adds, and decodes to itself, for any
  JSON layer that reads back what it writes.
\<close>

theorem renderer_frames_round_trip:
  fixes to_vec :: "renderer_wire_frame \<Rightarrow> 'j + byte list" and from_slice :: "byte list \<Rightarrow> 'j + renderer_wire_frame"
    and action_to_vec :: "renderer_action_frame \<Rightarrow> 'j + byte list"
    and action_from_slice :: "byte list \<Rightarrow> 'j + renderer_action_frame"
  assumes "\<And>f bytes. to_vec f = Inr bytes \<Longrightarrow> from_slice bytes = Inr f"
    and "\<And>f bytes. action_to_vec f = Inr bytes \<Longrightarrow> action_from_slice bytes = Inr f"
  shows "(message_encode_line to_vec m = (Inr line :: 'j protocol_error + byte list) \<longrightarrow>
       length line \<le> 65537 \<and> last line = newline \<and> message_decode from_slice line = (Inr m :: 'j protocol_error + _))
    \<and> (action_encode_line action_to_vec a = (Inr line :: 'j protocol_error + byte list) \<longrightarrow>
       length line \<le> 65537 \<and> action_decode action_from_slice line = (Inr a :: 'j protocol_error + _))"
proof (intro conjI impI)
  assume line: "message_encode_line to_vec m = (Inr line :: 'j protocol_error + byte list)"
  then obtain bytes where b: "to_vec \<lparr>frame_version = PROTOCOL_VERSION, frame_message = m\<rparr> = Inr bytes"
    "length bytes \<le> MAX_REQUEST_BYTES" "line = bytes @ [newline]"
    unfolding message_encode_line_def bounded_line_Inr map_sum_id_Inr by blast
  then show "length line \<le> 65537" "last line = newline" by (simp_all add: MAX_REQUEST_BYTES_def)
  show "message_decode from_slice line = (Inr m :: 'j protocol_error + _)"
    using b assms(1) [OF b(1)] by (simp add: message_decode_def strip_line)
next
  assume line: "action_encode_line action_to_vec a = (Inr line :: 'j protocol_error + byte list)"
  then obtain bytes where b: "action_to_vec \<lparr>af_version = PROTOCOL_VERSION,
       af_frame_type = ustr ''renderer-action'', af_action = a\<rparr> = Inr bytes"
    "length bytes \<le> MAX_REQUEST_BYTES" "line = bytes @ [newline]"
    unfolding action_encode_line_def bounded_line_Inr map_sum_id_Inr by blast
  then show "length line \<le> 65537" by (simp add: MAX_REQUEST_BYTES_def)
  show "action_decode action_from_slice line = (Inr a :: 'j protocol_error + _)"
    using b assms(2) [OF b(1)] by (simp add: action_decode_def strip_line)
qed

definition demo_frame :: renderer_wire_frame where
  "demo_frame = \<lparr>frame_version = PROTOCOL_VERSION, frame_message = TerminateMessage TermJumped\<rparr>"

lemma renderer_frames_round_trip_witness:
  "message_decode (\<lambda>_. Inr demo_frame) [1, 10] = (Inr (TerminateMessage TermJumped) :: unit protocol_error + _)"
proof -
  let ?to = "\<lambda>f. if f = demo_frame then Inr [1] else Inl () :: unit + byte list"
  let ?from = "\<lambda>_ :: byte list. Inr demo_frame :: unit + renderer_wire_frame"
  let ?ato = "\<lambda>_ :: renderer_action_frame. Inl () :: unit + byte list"
  let ?afrom = "\<lambda>_ :: byte list. Inl () :: unit + renderer_action_frame"
  have enc: "message_encode_line ?to (TerminateMessage TermJumped) = (Inr [1, 10] :: unit protocol_error + byte list)"
    by (simp add: message_encode_line_def bounded_line_def demo_frame_def MAX_REQUEST_BYTES_def)
  have p1: "?to f = Inr bytes \<Longrightarrow> ?from bytes = Inr f" for f bytes by (simp split: if_splits)
  have p2: "?ato f = Inr bytes \<Longrightarrow> ?afrom bytes = Inr f" for f bytes by simp
  have "message_encode_line ?to (TerminateMessage TermJumped) = (Inr [1, 10] :: unit protocol_error + byte list) \<longrightarrow>
      length ([1, 10] :: byte list) \<le> 65537 \<and> last ([1, 10] :: byte list) = newline
      \<and> message_decode ?from [1, 10] = (Inr (TerminateMessage TermJumped) :: unit protocol_error + _)"
    by (rule renderer_frames_round_trip [where action_to_vec = ?ato and action_from_slice = ?afrom,
        OF p1 p2, THEN conjunct1])
  with enc show ?thesis by (simp only: simp_thms)
qed

end
