(* ===== verification/Std_Text.thy ===== *)
theory Std_Text
  imports Prelude
begin

text \<open>
  The text functions of Rust's standard library that the parsers use: \<open>split\<close>, \<open>lines\<close>,
  \<open>split_whitespace\<close>, \<open>starts_with\<close> and the parsing of unsigned integers, with the decimal
  printing they invert.
\<close>

section \<open>Splitting\<close>

text \<open>\<open>str::split(c)\<close>: the pieces between the separators, at least one.\<close>

fun split_on :: "'a \<Rightarrow> 'a list \<Rightarrow> 'a list list" where
  "split_on c [] = [[]]"
| "split_on c (x # xs) =
     (if x = c then [] # split_on c xs
      else (x # hd (split_on c xs)) # tl (split_on c xs))"

lemma split_on_not_Nil [simp]: "split_on c xs \<noteq> []"
  by (cases xs) auto

fun join_with :: "'a \<Rightarrow> 'a list list \<Rightarrow> 'a list" where
  "join_with c [] = []"
| "join_with c [x] = x"
| "join_with c (x # y # ys) = x @ c # join_with c (y # ys)"

lemma split_on_single: "c \<notin> set xs \<Longrightarrow> split_on c xs = [xs]"
  by (induction xs) auto

lemma split_on_append: "c \<notin> set xs \<Longrightarrow> split_on c (xs @ c # ys) = xs # split_on c ys"
  by (induction xs) auto

lemma split_join: "xss \<noteq> [] \<Longrightarrow> \<forall>xs \<in> set xss. c \<notin> set xs \<Longrightarrow> split_on c (join_with c xss) = xss"
  by (induction c xss rule: join_with.induct) (auto simp: split_on_append split_on_single)

lemma join_split: "join_with c (split_on c xs) = xs"
proof (induction xs)
  case (Cons x xs)
  then show ?case
    by (cases "split_on c xs"; cases "tl (split_on c xs)") auto
qed simp

text \<open>\<open>str::lines\<close>: a line ends at a newline or a carriage return and a newline; the text after the
  last newline is a line only if it is not empty.\<close>

definition strip_cr :: "ustring \<Rightarrow> ustring" where
  "strip_cr l = (case strip_suffix [0x0d] l of None \<Rightarrow> l | Some s \<Rightarrow> s)"

definition rust_lines :: "ustring \<Rightarrow> ustring list" where
  "rust_lines s =
     (let ls = split_on 0x0a s
      in map strip_cr (butlast ls) @ (if last ls = [] then [] else [last ls]))"

definition unlines :: "ustring list \<Rightarrow> ustring" where
  "unlines ls = concat (map (\<lambda>l. l @ [0x0a]) ls)"

lemma split_unlines:
  "\<forall>l \<in> set ls. 0x0a \<notin> set l \<Longrightarrow> split_on 0x0a (unlines ls) = ls @ [[]]"
  by (induction ls) (auto simp: unlines_def split_on_append)

lemma strip_cr_id: "0x0d \<notin> set l \<Longrightarrow> strip_cr l = l"
  by (auto simp: strip_cr_def strip_suffix_Some split: option.splits)

lemma lines_unlines:
  assumes "\<forall>l \<in> set ls. 0x0a \<notin> set l \<and> 0x0d \<notin> set l"
  shows "rust_lines (unlines ls) = ls"
proof -
  have "map strip_cr ls = ls" using assms by (induction ls) (auto simp: strip_cr_id)
  then show ?thesis using assms by (simp add: rust_lines_def split_unlines Let_def)
qed

text \<open>Unicode white space, and \<open>str::split_whitespace\<close>.\<close>

definition is_whitespace :: "nat \<Rightarrow> bool" where
  "is_whitespace c \<longleftrightarrow> (9 \<le> c \<and> c \<le> 13) \<or> c = 0x20 \<or> c = 0x85 \<or> c = 0xa0 \<or> c = 0x1680
     \<or> (0x2000 \<le> c \<and> c \<le> 0x200a) \<or> c = 0x2028 \<or> c = 0x2029 \<or> c = 0x202f \<or> c = 0x205f \<or> c = 0x3000"

function split_whitespace :: "ustring \<Rightarrow> ustring list" where
  "split_whitespace s =
     (let t = dropWhile is_whitespace s in
      if t = [] then []
      else takeWhile (\<lambda>c. \<not> is_whitespace c) t # split_whitespace (dropWhile (\<lambda>c. \<not> is_whitespace c) t))"
  by pat_completeness auto
termination
proof (relation "measure length", goal_cases)
  case (2 s t)
  then have "t \<noteq> []" by blast
  then obtain c cs where t: "t = c # cs" by (meson neq_Nil_conv)
  with 2 have "\<not> is_whitespace c" by (metis hd_dropWhile list.sel(1))
  then have "length (dropWhile (\<lambda>c. \<not> is_whitespace c) t) \<le> length cs"
    by (simp add: t length_dropWhile_le)
  moreover have "length t \<le> length s" using 2 by (simp add: length_dropWhile_le)
  ultimately show ?case by (simp add: t)
qed simp

declare split_whitespace.simps [simp del]

lemma split_whitespace_word:
  assumes "w \<noteq> []" and "\<forall>c \<in> set w. \<not> is_whitespace c" and "s = [] \<or> is_whitespace (hd s)"
  shows "split_whitespace (w @ s) = w # split_whitespace s"
proof -
  have "dropWhile is_whitespace (w @ s) = w @ s" using assms(1,2) by (cases w) auto
  moreover have "takeWhile (\<lambda>c. \<not> is_whitespace c) (w @ s) = w" using assms(2,3) by (cases s) auto
  moreover have "dropWhile (\<lambda>c. \<not> is_whitespace c) (w @ s) = s" using assms(2,3) by (cases s) auto
  ultimately show ?thesis using assms(1) by (subst split_whitespace.simps) simp
qed

lemma split_whitespace_space: "is_whitespace c \<Longrightarrow> split_whitespace (c # s) = split_whitespace s"
  by (subst (1 2) split_whitespace.simps) simp

lemma split_whitespace_Nil [simp]: "split_whitespace [] = []"
  by (subst split_whitespace.simps) simp

definition starts_with :: "'a list \<Rightarrow> 'a list \<Rightarrow> bool" where
  "starts_with p s \<longleftrightarrow> take (length p) s = p"

lemma starts_with_append [simp]: "starts_with p (p @ s)"
  by (simp add: starts_with_def)

lemma starts_with_Cons [simp]: "starts_with (x # p) (y # s) \<longleftrightarrow> x = y \<and> starts_with p s"
  by (auto simp: starts_with_def)

lemma starts_with_Nil [simp]: "starts_with [] s" "starts_with (x # p) [] \<longleftrightarrow> False"
  by (simp_all add: starts_with_def)

section \<open>Unsigned integers\<close>

text \<open>
  \<open>str::parse\<close> for an unsigned type with the given maximum: an optional plus sign, then one or more
  decimal digits, without overflow.
\<close>

definition digits_value :: "ustring \<Rightarrow> nat" where
  "digits_value ds = foldl (\<lambda>n d. 10 * n + (d - 0x30)) 0 ds"

definition parse_uint :: "nat \<Rightarrow> ustring \<Rightarrow> nat option" where
  "parse_uint bound s =
     (let ds = (case s of c # cs \<Rightarrow> if c = 0x2b then cs else s | [] \<Rightarrow> [])
      in if ds = [] \<or> \<not> list_all is_ascii_digit ds \<or> digits_value ds > bound then None
         else Some (digits_value ds))"

fun print_nat :: "nat \<Rightarrow> ustring" where
  "print_nat n = (if n < 10 then [0x30 + n] else print_nat (n div 10) @ [0x30 + n mod 10])"

declare print_nat.simps [simp del]

lemma digits_value_append: "digits_value (ds @ [d]) = 10 * digits_value ds + (d - 0x30)"
  by (simp add: digits_value_def)

lemma print_nat_digits: "list_all is_ascii_digit (print_nat n)"
proof (induction n rule: print_nat.induct)
  case (1 n)
  have "d < 10 \<Longrightarrow> is_ascii_digit (0x30 + d)" for d by (simp add: is_ascii_digit_def)
  with 1 show ?case by (subst print_nat.simps) simp
qed

lemma digits_value_print: "digits_value (print_nat n) = n"
proof (induction n rule: print_nat.induct)
  case (1 n)
  then show ?case
    by (subst print_nat.simps) (auto simp: digits_value_append, simp add: digits_value_def)
qed

lemma print_nat_not_Nil [simp]: "print_nat n \<noteq> []"
  by (subst print_nat.simps) simp

lemma hd_print_nat: "print_nat n = c # cs \<Longrightarrow> is_ascii_digit c"
  using print_nat_digits [of n] by simp

lemma parse_print: "n \<le> bound \<Longrightarrow> parse_uint bound (print_nat n) = Some n"
  using print_nat_digits [of n] digits_value_print [of n]
  by (cases "print_nat n") (auto simp: parse_uint_def is_ascii_digit_def dest: hd_print_nat)

lemma parse_uint_bound: "parse_uint bound s = Some n \<Longrightarrow> n \<le> bound"
  by (auto simp: parse_uint_def Let_def split: if_splits)

lemma print_nat_chars: "c \<in> set (print_nat n) \<Longrightarrow> is_ascii_digit c"
  using print_nat_digits [of n] by (simp add: list_all_iff)

end
