(* ===== verification/Tmux_Topology.thy ===== *)
theory Tmux_Topology
  imports Std_Text "HOL-Library.AList" "HOL-Library.List_Lexorder"
begin

text \<open>
  The tmux topology of \<open>src/tmux/topology.rs\<close>: the parsers of the tab-separated client and pane
  records, and the queries the daemon plans its displays with.
\<close>

section \<open>Data\<close>

type_synonym window_id = ustring
type_synonym pane_id = ustring

record window_size =
  wsize_width :: nat
  wsize_height :: nat

record client_view =
  cv_name :: ustring
  cv_is_control :: bool
  cv_session_id :: ustring
  cv_window_id :: window_id
  cv_last_activity :: nat

record pane =
  p_id :: pane_id
  p_session_id :: ustring
  p_window_id :: window_id
  p_is_floating :: bool
  p_left :: nat
  p_top :: nat
  p_width :: nat
  p_height :: nat

text \<open>
  A map keyed by pane IDs, as an association list with distinct keys; nothing here depends on the
  order in which its values are visited.
\<close>

record topology =
  topo_clients :: "client_view list"
  topo_panes :: "(pane_id \<times> pane) list"

datatype parse_detail = FieldCount nat | BadStableId ustring | BadBoolean ustring | BadNumber ustring

datatype topology_parse_error = TopologyParseError (te_record: string) (te_detail: parse_detail)

section \<open>Parsing\<close>

definition topo_stable_id :: "string \<Rightarrow> ustring \<Rightarrow> nat \<Rightarrow> topology_parse_error + ustring" where
  "topo_stable_id rec value prefix =
     (case strip_prefix [prefix] value of
        Some ds \<Rightarrow> if ds \<noteq> [] \<and> list_all is_ascii_digit ds then Inr value
                   else Inl (TopologyParseError rec (BadStableId value))
      | None \<Rightarrow> Inl (TopologyParseError rec (BadStableId value)))"

definition topo_parse_bool :: "string \<Rightarrow> ustring \<Rightarrow> topology_parse_error + bool" where
  "topo_parse_bool rec value =
     (if value = ustr ''0'' then Inr False else if value = ustr ''1'' then Inr True
      else Inl (TopologyParseError rec (BadBoolean value)))"

definition topo_parse_number :: "nat \<Rightarrow> string \<Rightarrow> ustring \<Rightarrow> topology_parse_error + nat" where
  "topo_parse_number bound rec value =
     (case parse_uint bound value of None \<Rightarrow> Inl (TopologyParseError rec (BadNumber value)) | Some n \<Rightarrow> Inr n)"

abbreviation (input) topo_bind :: "'e + 'a \<Rightarrow> ('a \<Rightarrow> 'e + 'b) \<Rightarrow> 'e + 'b" where
  "topo_bind m f \<equiv> (case m of Inl e \<Rightarrow> Inl e | Inr a \<Rightarrow> f a)"

abbreviation tab :: nat where "tab \<equiv> 9"

definition parse_client :: "ustring \<Rightarrow> topology_parse_error + client_view" where
  "parse_client line =
     (let fields = split_on tab line in
      if length fields \<noteq> 5 then Inl (TopologyParseError ''client'' (FieldCount 5))
      else
        topo_bind (topo_parse_bool ''client'' (fields ! 1)) (\<lambda>control.
        topo_bind (topo_stable_id ''client'' (fields ! 2) (of_char CHR ''$'')) (\<lambda>session.
        topo_bind (topo_stable_id ''client'' (fields ! 3) (of_char CHR ''@'')) (\<lambda>window.
        topo_bind (topo_parse_number u64_max ''client'' (fields ! 4)) (\<lambda>activity.
          Inr \<lparr>cv_name = fields ! 0, cv_is_control = control, cv_session_id = session,
               cv_window_id = window, cv_last_activity = activity\<rparr>)))))"

definition parse_pane :: "ustring \<Rightarrow> topology_parse_error + pane" where
  "parse_pane line =
     (let fields = split_on tab line in
      if length fields \<noteq> 8 then Inl (TopologyParseError ''pane'' (FieldCount 8))
      else
        topo_bind (topo_stable_id ''pane'' (fields ! 0) (of_char CHR ''%'')) (\<lambda>i.
        topo_bind (topo_stable_id ''pane'' (fields ! 1) (of_char CHR ''$'')) (\<lambda>session.
        topo_bind (topo_stable_id ''pane'' (fields ! 2) (of_char CHR ''@'')) (\<lambda>window.
        topo_bind (topo_parse_bool ''pane'' (fields ! 3)) (\<lambda>floating.
        topo_bind (topo_parse_number u16_max ''pane'' (fields ! 4)) (\<lambda>left.
        topo_bind (topo_parse_number u16_max ''pane'' (fields ! 5)) (\<lambda>top.
        topo_bind (topo_parse_number u16_max ''pane'' (fields ! 6)) (\<lambda>width.
        topo_bind (topo_parse_number u16_max ''pane'' (fields ! 7)) (\<lambda>height.
          Inr \<lparr>p_id = i, p_session_id = session, p_window_id = window, p_is_floating = floating,
               p_left = left, p_top = top, p_width = width, p_height = height\<rparr>)))))))))"

text \<open>Collecting into a \<open>Result\<close>: the first error, or all values.\<close>

fun collect_results :: "('a \<Rightarrow> 'e + 'b) \<Rightarrow> 'a list \<Rightarrow> 'e + 'b list" where
  "collect_results f [] = Inr []"
| "collect_results f (x # xs) =
     topo_bind (f x) (\<lambda>y. topo_bind (collect_results f xs) (\<lambda>ys. Inr (y # ys)))"

definition from_format_output :: "ustring \<Rightarrow> ustring \<Rightarrow> topology_parse_error + topology" where
  "from_format_output clients panes =
     topo_bind (collect_results parse_client (filter (\<lambda>l. l \<noteq> []) (rust_lines clients))) (\<lambda>cs.
     topo_bind (collect_results parse_pane (filter (\<lambda>l. l \<noteq> []) (rust_lines panes))) (\<lambda>ps.
       Inr \<lparr>topo_clients = cs, topo_panes = fold (\<lambda>p m. AList.update (p_id p) p m) ps []\<rparr>))"

section \<open>Queries\<close>

text \<open>A \<open>BTreeSet\<close> is a sorted list without repetitions.\<close>

definition eligible_windows :: "topology \<Rightarrow> window_id list" where
  "eligible_windows t = sort (remdups (map cv_window_id (filter (\<lambda>c. \<not> cv_is_control c) (topo_clients t))))"

definition tiled_panes :: "topology \<Rightarrow> window_id \<Rightarrow> pane list" where
  "tiled_panes t w = filter (\<lambda>p. p_window_id p = w \<and> \<not> p_is_floating p) (map snd (topo_panes t))"

definition topology_window_size :: "topology \<Rightarrow> window_id \<Rightarrow> window_size option" where
  "topology_window_size t w =
     (let (width, height, found) = fold (\<lambda>p (width, height, found).
            (max width (sat_add u16_max (p_left p) (p_width p)),
             max height (sat_add u16_max (p_top p) (p_height p)), True)) (tiled_panes t w) (0, 0, False)
      in if found then Some \<lparr>wsize_width = width, wsize_height = height\<rparr> else None)"

text \<open>\<open>Iterator::max_by_key\<close>: the last of the maximal elements.\<close>

fun max_by_key :: "('a \<Rightarrow> nat) \<Rightarrow> 'a list \<Rightarrow> 'a option" where
  "max_by_key key [] = None"
| "max_by_key key (x # xs) =
     (case max_by_key key xs of None \<Rightarrow> Some x | Some y \<Rightarrow> if key x > key y then Some x else Some y)"

definition likely_client_for_window :: "topology \<Rightarrow> window_id \<Rightarrow> ustring option" where
  "likely_client_for_window t w =
     map_option cv_name (max_by_key cv_last_activity
       (filter (\<lambda>c. \<not> cv_is_control c \<and> cv_window_id c = w) (topo_clients t)))"

section \<open>Properties of the queries\<close>

lemma max_by_key_spec:
  "case max_by_key key xs of
     None \<Rightarrow> xs = []
   | Some y \<Rightarrow> (\<exists>us vs. xs = us @ y # vs \<and> (\<forall>x \<in> set us. key x \<le> key y) \<and> (\<forall>x \<in> set vs. key x < key y))"
proof (induction xs)
  case (Cons x xs)
  show ?case
  proof (cases "max_by_key key xs")
    case None
    with Cons have "xs = []" by simp
    then have "x # xs = [] @ x # [] \<and> (\<forall>z \<in> set []. key z \<le> key x) \<and> (\<forall>z \<in> set []. key z < key x)" by simp
    with None show ?thesis by (simp, blast)
  next
    case (Some y)
    with Cons obtain us vs where s: "xs = us @ y # vs" "\<forall>x \<in> set us. key x \<le> key y" "\<forall>x \<in> set vs. key x < key y"
      by auto
    show ?thesis
    proof (cases "key x > key y")
      case True
      with s have "x # xs = [] @ x # xs" "\<forall>z \<in> set xs. key z < key x" by auto
      with Some True show ?thesis by (simp, metis append_Nil empty_iff list.set(1))
    next
      case False
      with s have "x # xs = (x # us) @ y # vs" "\<forall>z \<in> set (x # us). key z \<le> key y" by auto
      with Some False s(3) show ?thesis by (simp, metis append_Cons list.set_intros set_ConsD)
    qed
  qed
qed simp

lemma size_fold:
  "fold (\<lambda>p (width, height, found).
      (max width (sat_add u16_max (p_left p) (p_width p)),
       max height (sat_add u16_max (p_top p) (p_height p)), True)) ps (w0, h0, f0) =
     (Max (insert w0 ((\<lambda>p. sat_add u16_max (p_left p) (p_width p)) ` set ps)),
      Max (insert h0 ((\<lambda>p. sat_add u16_max (p_top p) (p_height p)) ` set ps)), f0 \<or> ps \<noteq> [])"
proof (induction ps arbitrary: w0 h0 f0)
  case (Cons p ps)
  have ins: "Max (insert (max a b) A) = Max (insert a (insert b A))" if "finite A" for a b :: nat and A
    using that by (cases "A = {}") (simp_all add: max.assoc)
  show ?case using Cons by (simp add: ins del: Max_insert)
qed simp

text \<open>
  The Attention Windows are exactly the windows some client other than a control client
  looks at, each once and in order; the size of a window is the smallest that covers its tiled
  panes (saturating at 16 bits), and is unknown exactly when it has none; the likely client of a
  window is a client looking at it, not a control client, with the latest activity.
\<close>

theorem topology_queries_correct:
  "sorted (eligible_windows t) \<and> distinct (eligible_windows t)
   \<and> set (eligible_windows t) = {cv_window_id c | c. c \<in> set (topo_clients t) \<and> \<not> cv_is_control c}
   \<and> topology_window_size t w =
       (if tiled_panes t w = [] then None
        else Some \<lparr>wsize_width = Max ((\<lambda>p. min (p_left p + p_width p) 65535) ` set (tiled_panes t w)),
                   wsize_height = Max ((\<lambda>p. min (p_top p + p_height p) 65535) ` set (tiled_panes t w))\<rparr>)
   \<and> (case likely_client_for_window t w of
        None \<Rightarrow> \<forall>c \<in> set (topo_clients t). cv_is_control c \<or> cv_window_id c \<noteq> w
      | Some name \<Rightarrow> \<exists>c \<in> set (topo_clients t). cv_name c = name \<and> \<not> cv_is_control c \<and> cv_window_id c = w
          \<and> (\<forall>d \<in> set (topo_clients t). \<not> cv_is_control d \<and> cv_window_id d = w
               \<longrightarrow> cv_last_activity d \<le> cv_last_activity c))"
proof -
  let ?cs = "filter (\<lambda>c. \<not> cv_is_control c \<and> cv_window_id c = w) (topo_clients t)"
  have win: "sorted (eligible_windows t)" "distinct (eligible_windows t)"
    "set (eligible_windows t) = {cv_window_id c | c. c \<in> set (topo_clients t) \<and> \<not> cv_is_control c}"
    by (auto simp: eligible_windows_def)
  have zero: "Max (insert 0 (f ` set ps)) = Max (f ` set ps)" if "ps \<noteq> []" for f :: "pane \<Rightarrow> nat" and ps
    using that by simp
  have size: "topology_window_size t w =
       (if tiled_panes t w = [] then None
        else Some \<lparr>wsize_width = Max ((\<lambda>p. min (p_left p + p_width p) 65535) ` set (tiled_panes t w)),
                   wsize_height = Max ((\<lambda>p. min (p_top p + p_height p) 65535) ` set (tiled_panes t w))\<rparr>)"
    unfolding topology_window_size_def size_fold
    by (simp add: zero sat_add_def del: Max_insert)
  have likely: "case likely_client_for_window t w of
        None \<Rightarrow> \<forall>c \<in> set (topo_clients t). cv_is_control c \<or> cv_window_id c \<noteq> w
      | Some name \<Rightarrow> \<exists>c \<in> set (topo_clients t). cv_name c = name \<and> \<not> cv_is_control c \<and> cv_window_id c = w
          \<and> (\<forall>d \<in> set (topo_clients t). \<not> cv_is_control d \<and> cv_window_id d = w
               \<longrightarrow> cv_last_activity d \<le> cv_last_activity c)"
  proof (cases "max_by_key cv_last_activity ?cs")
    case None
    with max_by_key_spec [where key = cv_last_activity and xs = ?cs] show ?thesis
      by (auto simp: likely_client_for_window_def filter_empty_conv)
  next
    case (Some c)
    with max_by_key_spec [where key = cv_last_activity and xs = ?cs] obtain us vs where
      s: "?cs = us @ c # vs" "\<forall>x \<in> set us. cv_last_activity x \<le> cv_last_activity c"
      "\<forall>x \<in> set vs. cv_last_activity x < cv_last_activity c" by auto
    have c: "c \<in> set ?cs" by (simp add: s(1))
    have "cv_last_activity d \<le> cv_last_activity c" if "d \<in> set ?cs" for d
      using that s by (auto simp: s(1))
    with c Some show ?thesis by (auto simp: likely_client_for_window_def)
  qed
  from win size likely show ?thesis by blast
qed

lemma topology_queries_correct_witness:
  "topology_window_size \<lparr>topo_clients = [], topo_panes = [(ustr ''%1'', \<lparr>p_id = ustr ''%1'',
     p_session_id = ustr ''$1'', p_window_id = ustr ''@1'', p_is_floating = False, p_left = 65535,
     p_top = 2, p_width = 80, p_height = 24\<rparr>)]\<rparr> (ustr ''@1'')
   = Some \<lparr>wsize_width = 65535, wsize_height = 26\<rparr>"
  using topology_queries_correct [of "\<lparr>topo_clients = [], topo_panes = [(ustr ''%1'', \<lparr>p_id = ustr ''%1'',
     p_session_id = ustr ''$1'', p_window_id = ustr ''@1'', p_is_floating = False, p_left = 65535,
     p_top = 2, p_width = 80, p_height = 24\<rparr>)]\<rparr>" "ustr ''@1''"]
  by (simp add: tiled_panes_def)

section \<open>Parsing what tmux prints\<close>

text \<open>The records as the formats of \<open>list-clients\<close> and \<open>list-panes\<close> make tmux print them.\<close>

definition print_bool :: "bool \<Rightarrow> ustring" where
  "print_bool b = (if b then ustr ''1'' else ustr ''0'')"

definition print_client :: "client_view \<Rightarrow> ustring" where
  "print_client c = join_with tab [cv_name c, print_bool (cv_is_control c), cv_session_id c,
     cv_window_id c, print_nat (cv_last_activity c)]"

definition print_pane :: "pane \<Rightarrow> ustring" where
  "print_pane p = join_with tab [p_id p, p_session_id p, p_window_id p, print_bool (p_is_floating p),
     print_nat (p_left p), print_nat (p_top p), print_nat (p_width p), print_nat (p_height p)]"

definition tmux_id :: "nat \<Rightarrow> ustring \<Rightarrow> bool" where
  "tmux_id prefix s \<longleftrightarrow> (case s of [] \<Rightarrow> False | c # ds \<Rightarrow> c = prefix \<and> ds \<noteq> [] \<and> list_all is_ascii_digit ds)"

definition plain_field :: "ustring \<Rightarrow> bool" where
  "plain_field s \<longleftrightarrow> list_all (\<lambda>c. c \<noteq> tab \<and> c \<noteq> 0x0a \<and> c \<noteq> 0x0d) s"

definition wf_client :: "client_view \<Rightarrow> bool" where
  "wf_client c \<longleftrightarrow> plain_field (cv_name c) \<and> tmux_id (of_char CHR ''$'') (cv_session_id c)
     \<and> tmux_id (of_char CHR ''@'') (cv_window_id c) \<and> cv_last_activity c \<le> u64_max"

definition wf_pane :: "pane \<Rightarrow> bool" where
  "wf_pane p \<longleftrightarrow> tmux_id (of_char CHR ''%'') (p_id p) \<and> tmux_id (of_char CHR ''$'') (p_session_id p)
     \<and> tmux_id (of_char CHR ''@'') (p_window_id p) \<and> p_left p \<le> u16_max \<and> p_top p \<le> u16_max
     \<and> p_width p \<le> u16_max \<and> p_height p \<le> u16_max"

lemma stable_id_tmux: "tmux_id prefix s \<Longrightarrow> topo_stable_id rec s prefix = Inr s"
  by (cases s) (auto simp: tmux_id_def topo_stable_id_def strip_prefix_def)

lemma parse_print_bool: "topo_parse_bool rec (print_bool b) = Inr b"
  by (simp add: topo_parse_bool_def print_bool_def)

lemma parse_print_number: "n \<le> bound \<Longrightarrow> topo_parse_number bound rec (print_nat n) = Inr n"
  by (simp add: topo_parse_number_def parse_print)

lemma digit_plain: "is_ascii_digit c \<Longrightarrow> c \<noteq> tab \<and> c \<noteq> 0x0a \<and> c \<noteq> 0x0d"
  by (auto simp: is_ascii_digit_def)

lemma print_bool_not_empty [simp]: "print_bool b \<noteq> []"
  by (simp add: print_bool_def)

lemma plain_fields [simp]:
  "plain_field (print_nat n)" "plain_field (print_bool b)"
  "tmux_id prefix s \<Longrightarrow> prefix \<notin> {tab, 0x0a, 0x0d} \<Longrightarrow> plain_field s"
  using digit_plain print_nat_chars
  by (auto simp: plain_field_def list_all_iff print_bool_def tmux_id_def split: list.splits if_splits)

lemma plain_field_no_tab: "plain_field s \<Longrightarrow> tab \<notin> set s"
  by (auto simp: plain_field_def list_all_iff)

lemma parse_print_client: "wf_client c \<Longrightarrow> parse_client (print_client c) = Inr c"
proof -
  assume wf: "wf_client c"
  have "split_on tab (print_client c) = [cv_name c, print_bool (cv_is_control c), cv_session_id c,
     cv_window_id c, print_nat (cv_last_activity c)]"
    unfolding print_client_def using wf
    by (intro split_join) (auto simp: wf_client_def intro!: plain_field_no_tab)
  with wf show ?thesis
    by (simp add: parse_client_def wf_client_def stable_id_tmux parse_print_bool parse_print_number)
qed

lemma parse_print_pane: "wf_pane p \<Longrightarrow> parse_pane (print_pane p) = Inr p"
proof -
  assume wf: "wf_pane p"
  have "split_on tab (print_pane p) = [p_id p, p_session_id p, p_window_id p, print_bool (p_is_floating p),
     print_nat (p_left p), print_nat (p_top p), print_nat (p_width p), print_nat (p_height p)]"
    unfolding print_pane_def using wf
    by (intro split_join) (auto simp: wf_pane_def intro!: plain_field_no_tab)
  with wf show ?thesis
    by (simp add: parse_pane_def wf_pane_def stable_id_tmux parse_print_bool parse_print_number)
qed

lemma plain_join: "\<forall>f \<in> set fs. plain_field f \<Longrightarrow> c \<in> {0x0a, 0x0d} \<Longrightarrow> c \<notin> set (join_with tab fs)"
  by (induction tab fs rule: join_with.induct) (auto simp: plain_field_def list_all_iff)

lemma print_client_line: "wf_client c \<Longrightarrow> 0x0a \<notin> set (print_client c) \<and> 0x0d \<notin> set (print_client c) \<and> print_client c \<noteq> []"
  unfolding print_client_def wf_client_def
  by (intro conjI plain_join) auto

lemma print_pane_line: "wf_pane p \<Longrightarrow> 0x0a \<notin> set (print_pane p) \<and> 0x0d \<notin> set (print_pane p) \<and> print_pane p \<noteq> []"
  unfolding print_pane_def wf_pane_def
  by (intro conjI plain_join) auto

lemma collect_map: "\<forall>x \<in> set xs. f (g x) = Inr x \<Longrightarrow> collect_results f (map g xs) = Inr xs"
  by (induction xs) auto

lemma update_fresh: "k \<notin> fst ` set m \<Longrightarrow> AList.update k v m = m @ [(k, v)]"
  by (induction m) auto

lemma update_all: "distinct (map p_id ps) \<Longrightarrow> set (map p_id ps) \<inter> fst ` set m = {} \<Longrightarrow>
    fold (\<lambda>p m. AList.update (p_id p) p m) ps m = m @ map (\<lambda>p. (p_id p, p)) ps"
proof (induction ps arbitrary: m)
  case (Cons p ps)
  then have "AList.update (p_id p) p m = m @ [(p_id p, p)]"
    by (intro update_fresh) auto
  with Cons show ?case by auto
qed simp

text \<open>
  What tmux prints for the two list formats is read back: from one line per client and one
  line per pane, with distinct pane IDs, the parser returns exactly those clients and panes.
\<close>

theorem topology_round_trip:
  assumes "\<forall>c \<in> set cs. wf_client c" and "\<forall>p \<in> set ps. wf_pane p" and "distinct (map p_id ps)"
  shows "from_format_output (unlines (map print_client cs)) (unlines (map print_pane ps))
         = Inr \<lparr>topo_clients = cs, topo_panes = map (\<lambda>p. (p_id p, p)) ps\<rparr>"
proof -
  have "rust_lines (unlines (map print_client cs)) = map print_client cs"
    and "filter (\<lambda>l. l \<noteq> []) (map print_client cs) = map print_client cs"
    using assms(1) print_client_line by (auto intro!: lines_unlines simp: filter_id_conv)
  moreover have "rust_lines (unlines (map print_pane ps)) = map print_pane ps"
    and "filter (\<lambda>l. l \<noteq> []) (map print_pane ps) = map print_pane ps"
    using assms(2) print_pane_line by (auto intro!: lines_unlines simp: filter_id_conv)
  moreover have "collect_results parse_client (map print_client cs) = Inr cs"
    and "collect_results parse_pane (map print_pane ps) = Inr ps"
    using assms(1,2) by (auto intro!: collect_map parse_print_client parse_print_pane)
  moreover have "fold (\<lambda>p m. AList.update (p_id p) p m) ps [] = map (\<lambda>p. (p_id p, p)) ps"
    using update_all [of ps "[]"] assms(3) by simp
  ultimately show ?thesis by (simp add: from_format_output_def)
qed

lemma topology_round_trip_witness:
  "from_format_output
     (unlines (map print_client [\<lparr>cv_name = ustr ''work'', cv_is_control = False,
        cv_session_id = ustr ''$1'', cv_window_id = ustr ''@2'', cv_last_activity = 17\<rparr>])) (unlines (map print_pane []))
   = Inr \<lparr>topo_clients = [\<lparr>cv_name = ustr ''work'', cv_is_control = False,
        cv_session_id = ustr ''$1'', cv_window_id = ustr ''@2'', cv_last_activity = 17\<rparr>], topo_panes = []\<rparr>"
  using topology_round_trip [where ps = "[]" and cs = "[\<lparr>cv_name = ustr ''work'', cv_is_control = False,
        cv_session_id = ustr ''$1'', cv_window_id = ustr ''@2'', cv_last_activity = 17\<rparr>]"]
  by (simp add: wf_client_def plain_field_def tmux_id_def ustr_def is_ascii_digit_def)

end
