(* ===== verification/Tmux_Control.thy ===== *)
theory Tmux_Control
  imports Std_Text "HOL-Library.Sublist"
begin

text \<open>
  The control-mode parser of \<open>src/tmux/control.rs\<close>: it correlates the tickets of submitted commands
  with the response blocks tmux prints, and separates the notifications tmux interleaves with them.
\<close>

section \<open>Data\<close>

definition MAX_COMMAND_OUTPUT_LINES :: nat where "MAX_COMMAND_OUTPUT_LINES = 4096"
definition MAX_COMMAND_OUTPUT_BYTES :: nat where "MAX_COMMAND_OUTPUT_BYTES = 4 * 1024 * 1024"

type_synonym command_ticket = "64 word"

datatype tmux_event = TopologyChanged | Disconnected

record command_result =
  cr_ticket :: command_ticket
  cr_output :: "ustring list"
  cr_success :: bool

datatype control_item = CommandItem command_result | EventItem tmux_event

datatype control_error = ControlError (ce_detail: string)

record active_command =
  ac_ticket :: command_ticket
  ac_tmux_command :: nat
  ac_output :: "ustring list"
  ac_output_bytes :: nat

record control_parser =
  cp_pending :: "command_ticket list"
  cp_active :: "active_command option"

definition control_parser_default :: control_parser where
  "control_parser_default = \<lparr>cp_pending = [], cp_active = None\<rparr>"

section \<open>Operations\<close>

definition submitted :: "command_ticket \<Rightarrow> control_parser \<Rightarrow> control_parser" where
  "submitted ticket c = c\<lparr>cp_pending := cp_pending c @ [ticket]\<rparr>"

definition frame_command :: "ustring \<Rightarrow> control_error + nat" where
  "frame_command line =
     (let fields = split_whitespace line in
      if length fields \<noteq> 4 then Inl (ControlError ''frame must contain time, command, and flags'')
      else (case parse_uint u64_max (fields ! 2) of
              None \<Rightarrow> Inl (ControlError ''frame command number was not numeric'')
            | Some n \<Rightarrow> Inr n))"

definition topology_notifications :: "ustring list" where
  "topology_notifications = map ustr
     [''%client-attached'', ''%client-detached'', ''%client-session-changed'', ''%layout-change'',
      ''%session-changed'', ''%session-window-changed'', ''%sessions-changed'', ''%unlinked-window-add'',
      ''%unlinked-window-close'', ''%window-add'', ''%window-close'', ''%window-pane-changed'',
      ''%window-renamed'']"

definition translate_notification :: "ustring \<Rightarrow> tmux_event option" where
  "translate_notification line =
     (if line = ustr ''%exit'' \<or> starts_with (ustr ''%exit '') line then Some Disconnected
      else if \<not> starts_with (ustr ''%'') line then None
      else
        let name = takeWhile (\<lambda>c. c \<noteq> 0x20) line in
        if name \<in> set topology_notifications then Some TopologyChanged else None)"

definition control_begin :: "ustring \<Rightarrow> control_parser \<Rightarrow> (control_error + unit) \<times> control_parser" where
  "control_begin line c =
     (if cp_active c \<noteq> None then (Inl (ControlError ''nested %begin record''), c)
      else case frame_command line of
        Inl e \<Rightarrow> (Inl e, c)
      | Inr command \<Rightarrow>
          (case cp_pending c of
             [] \<Rightarrow> (Inl (ControlError ''%begin without a submitted command''), c)
           | ticket # rest \<Rightarrow>
               (Inr (), c\<lparr>cp_pending := rest,
                  cp_active := Some \<lparr>ac_ticket = ticket, ac_tmux_command = command,
                                     ac_output = [], ac_output_bytes = 0\<rparr>\<rparr>)))"

definition control_finish :: "ustring \<Rightarrow> control_parser \<Rightarrow> (control_error + command_result) \<times> control_parser" where
  "control_finish line c =
     (case frame_command line of
        Inl e \<Rightarrow> (Inl e, c)
      | Inr command \<Rightarrow>
          (case cp_active c of
             None \<Rightarrow> (Inl (ControlError ''completion without %begin''), c)
           | Some active \<Rightarrow>
               (if ac_tmux_command active \<noteq> command
                then Inl (ControlError ''completion command number did not match %begin'')
                else Inr \<lparr>cr_ticket = ac_ticket active, cr_output = ac_output active,
                          cr_success = starts_with (ustr ''%end '') line\<rparr>,
                c\<lparr>cp_active := None\<rparr>)))"

definition output_full :: "active_command \<Rightarrow> ustring \<Rightarrow> bool" where
  "output_full a line \<longleftrightarrow>
     length (ac_output a) \<ge> MAX_COMMAND_OUTPUT_LINES
     \<or> sat_add u64_max (ac_output_bytes a) (utf8_len line) > MAX_COMMAND_OUTPUT_BYTES"

definition control_receive :: "ustring \<Rightarrow> control_parser \<Rightarrow> (control_error + control_item list) \<times> control_parser" where
  "control_receive line c =
     (if starts_with (ustr ''%begin '') line then
        (case control_begin line c of (Inl e, c') \<Rightarrow> (Inl e, c') | (Inr _, c') \<Rightarrow> (Inr [], c'))
      else if starts_with (ustr ''%end '') line \<or> starts_with (ustr ''%error '') line then
        (case control_finish line c of
           (Inl e, c') \<Rightarrow> (Inl e, c') | (Inr result, c') \<Rightarrow> (Inr [CommandItem result], c'))
      else case translate_notification line of
        Some event \<Rightarrow> (Inr [EventItem event], c)
      | None \<Rightarrow>
          (case cp_active c of
             None \<Rightarrow> (Inr [], c)
           | Some a \<Rightarrow>
               if output_full a line
               then (Inl (ControlError ''command response exceeded the bounded output limit''), c)
               else (Inr [], c\<lparr>cp_active := Some (a\<lparr>ac_output_bytes := ac_output_bytes a + utf8_len line,
                                                     ac_output := ac_output a @ [line]\<rparr>)\<rparr>)))"

section \<open>Receiving a stream of lines\<close>

text \<open>Line after line until the first error, collecting the items in order.\<close>

fun receive_lines ::
  "ustring list \<Rightarrow> control_parser \<Rightarrow> (control_error + control_item list) \<times> control_parser" where
  "receive_lines [] c = (Inr [], c)"
| "receive_lines (l # ls) c =
     (case control_receive l c of
        (Inl e, c') \<Rightarrow> (Inl e, c')
      | (Inr items, c') \<Rightarrow>
          (case receive_lines ls c' of
             (Inl e, c'') \<Rightarrow> (Inl e, c'')
           | (Inr more_items, c'') \<Rightarrow> (Inr (items @ more_items), c'')))"

text \<open>The lines that open and close a response block, the events among the others, and the output.\<close>

definition frame_line :: "ustring \<Rightarrow> bool" where
  "frame_line l \<longleftrightarrow> starts_with (ustr ''%begin '') l \<or> starts_with (ustr ''%end '') l \<or> starts_with (ustr ''%error '') l"

definition events_of :: "ustring list \<Rightarrow> tmux_event list" where
  "events_of ls = List.map_filter translate_notification ls"

definition output_of :: "ustring list \<Rightarrow> ustring list" where
  "output_of ls = filter (\<lambda>l. translate_notification l = None) ls"

definition output_size :: "ustring list \<Rightarrow> nat" where
  "output_size ls = sum_list (map utf8_len (output_of ls))"

definition output_fits :: "ustring list \<Rightarrow> bool" where
  "output_fits ls \<longleftrightarrow> length (output_of ls) \<le> MAX_COMMAND_OUTPUT_LINES \<and> output_size ls \<le> MAX_COMMAND_OUTPUT_BYTES"

lemma control_limits: "MAX_COMMAND_OUTPUT_LINES = 4096" "MAX_COMMAND_OUTPUT_BYTES = 4194304"
  by (simp_all add: MAX_COMMAND_OUTPUT_LINES_def MAX_COMMAND_OUTPUT_BYTES_def)

lemma events_of_simps [simp]:
  "events_of [] = []"
  "events_of (l # ls) = (case translate_notification l of None \<Rightarrow> events_of ls | Some e \<Rightarrow> e # events_of ls)"
  by (simp_all add: events_of_def List.map_filter_def split: option.splits)

lemma output_of_simps [simp]:
  "output_of [] = []"
  "output_of (l # ls) = (if translate_notification l = None then l # output_of ls else output_of ls)"
  by (simp_all add: output_of_def)

lemma receive_lines_append:
  "receive_lines (ls @ ms) c =
     (case receive_lines ls c of
        (Inl e, c') \<Rightarrow> (Inl e, c')
      | (Inr items, c') \<Rightarrow>
          (case receive_lines ms c' of
             (Inl e, c'') \<Rightarrow> (Inl e, c'')
           | (Inr more_items, c'') \<Rightarrow> (Inr (items @ more_items), c'')))"
  by (induction ls arbitrary: c) (auto split: sum.splits prod.splits)

text \<open>Outside of a block only events are delivered.\<close>

lemma receive_outside:
  assumes "\<forall>l \<in> set ls. \<not> frame_line l" and "cp_active c = None"
  shows "receive_lines ls c = (Inr (map EventItem (events_of ls)), c)"
  using assms by (induction ls) (auto simp: control_receive_def frame_line_def split: option.splits)

text \<open>Inside of a block, the lines that are not events extend the output.\<close>

lemma receive_inside:
  assumes "\<forall>l \<in> set ls. \<not> frame_line l" and "cp_active c = Some a"
    and "length (ac_output a) + length (output_of ls) \<le> MAX_COMMAND_OUTPUT_LINES"
    and "ac_output_bytes a + output_size ls \<le> MAX_COMMAND_OUTPUT_BYTES"
  shows "receive_lines ls c = (Inr (map EventItem (events_of ls)),
           c\<lparr>cp_active := Some (a\<lparr>ac_output_bytes := ac_output_bytes a + output_size ls,
                                   ac_output := ac_output a @ output_of ls\<rparr>)\<rparr>)"
  using assms
proof (induction ls arbitrary: c a)
  case Nil
  then show ?case by (simp add: output_size_def)
next
  case (Cons l ls)
  show ?case
  proof (cases "translate_notification l")
    case (Some e)
    with Cons show ?thesis by (simp add: control_receive_def frame_line_def output_size_def)
  next
    case None
    let ?a = "a\<lparr>ac_output_bytes := ac_output_bytes a + utf8_len l, ac_output := ac_output a @ [l]\<rparr>"
    have size: "output_size (l # ls) = utf8_len l + output_size ls" using None by (simp add: output_size_def)
    have "\<not> output_full a l"
      using Cons.prems(3,4) None size by (simp add: output_full_def sat_add_def control_limits)
    then have "control_receive l c = (Inr [], c\<lparr>cp_active := Some ?a\<rparr>)"
      using None Cons.prems(1,2) by (simp add: control_receive_def frame_line_def)
    moreover have "receive_lines ls (c\<lparr>cp_active := Some ?a\<rparr>) = (Inr (map EventItem (events_of ls)),
        c\<lparr>cp_active := Some (?a\<lparr>ac_output_bytes := ac_output_bytes ?a + output_size ls,
                                 ac_output := ac_output ?a @ output_of ls\<rparr>)\<rparr>)"
      using Cons.IH [of "c\<lparr>cp_active := Some ?a\<rparr>" ?a] Cons.prems None size by simp
    ultimately show ?thesis using None size by (simp add: add.assoc)
  qed
qed

text \<open>A whole block.\<close>

lemma control_block:
  assumes "cp_active c = None" and "cp_pending c = ticket # rest"
    and "starts_with (ustr ''%begin '') open_line" and "frame_command open_line = Inr n"
    and "\<forall>l \<in> set ls. \<not> frame_line l" and "output_fits ls"
    and "closing = ustr ''%end '' @ r \<or> closing = ustr ''%error '' @ r" and "frame_command closing = Inr n"
  shows "receive_lines (open_line # ls @ [closing]) c =
           (Inr (map EventItem (events_of ls)
                 @ [CommandItem \<lparr>cr_ticket = ticket, cr_output = output_of ls,
                                 cr_success = (closing = ustr ''%end '' @ r)\<rparr>]),
            c\<lparr>cp_pending := rest\<rparr>)"
proof -
  let ?a = "\<lparr>ac_ticket = ticket, ac_tmux_command = n, ac_output = [], ac_output_bytes = 0\<rparr>"
  let ?c = "c\<lparr>cp_pending := rest, cp_active := Some ?a\<rparr>"
  have opened: "control_receive open_line c = (Inr [], ?c)"
    using assms(1-4) by (simp add: control_receive_def control_begin_def)
  let ?d = "c\<lparr>cp_pending := rest, cp_active := Some \<lparr>ac_ticket = ticket, ac_tmux_command = n,
      ac_output = output_of ls, ac_output_bytes = output_size ls\<rparr>\<rparr>"
  have inside: "receive_lines ls ?c = (Inr (map EventItem (events_of ls)), ?d)"
    using receive_inside [of ls ?c ?a] assms(5,6) by (simp add: output_fits_def)
  have closes: "\<not> starts_with (ustr ''%begin '') closing" "starts_with (ustr ''%end '') closing \<or> starts_with (ustr ''%error '') closing"
    and success: "starts_with (ustr ''%end '') closing \<longleftrightarrow> closing = ustr ''%end '' @ r"
    using assms(7) by (auto simp: ustr_def)
  have closed: "control_receive closing ?d = (Inr [CommandItem \<lparr>cr_ticket = ticket, cr_output = output_of ls,
      cr_success = (closing = ustr ''%end '' @ r)\<rparr>], c\<lparr>cp_pending := rest\<rparr>)"
    using closes success assms(1,8) by (simp add: control_receive_def control_finish_def)
  show ?thesis by (simp add: opened receive_lines_append inside closed)
qed

section \<open>Submitting and receiving in any order\<close>

datatype control_op = Submit command_ticket | Receive ustring

text \<open>What one operation delivers (nothing when it fails) and the parser after it.\<close>

fun control_step :: "control_parser \<Rightarrow> control_op \<Rightarrow> control_item list \<times> control_parser" where
  "control_step c (Submit t) = ([], submitted t c)"
| "control_step c (Receive line) =
     (case control_receive line c of (Inl e, c') \<Rightarrow> ([], c') | (Inr items, c') \<Rightarrow> (items, c'))"

fun control_run :: "control_parser \<Rightarrow> control_op list \<Rightarrow> control_item list \<times> control_parser" where
  "control_run c [] = ([], c)"
| "control_run c (op # ops) =
     (let (items, c') = control_step c op; (more_items, c'') = control_run c' ops in (items @ more_items, c''))"

definition results_of :: "control_item list \<Rightarrow> command_result list" where
  "results_of items = List.map_filter (\<lambda>i. case i of CommandItem r \<Rightarrow> Some r | EventItem e \<Rightarrow> None) items"

definition submitted_in :: "control_op list \<Rightarrow> command_ticket list" where
  "submitted_in ops = List.map_filter (\<lambda>op. case op of Submit t \<Rightarrow> Some t | Receive l \<Rightarrow> None) ops"

definition waiting_tickets :: "control_parser \<Rightarrow> command_ticket list" where
  "waiting_tickets c = (case cp_active c of None \<Rightarrow> [] | Some a \<Rightarrow> [ac_ticket a]) @ cp_pending c"

definition clean_output :: "ustring list \<Rightarrow> bool" where
  "clean_output ls \<longleftrightarrow> length ls \<le> MAX_COMMAND_OUTPUT_LINES \<and> sum_list (map utf8_len ls) \<le> MAX_COMMAND_OUTPUT_BYTES
     \<and> (\<forall>l \<in> set ls. \<not> frame_line l \<and> translate_notification l = None)"

definition wf_parser :: "control_parser \<Rightarrow> bool" where
  "wf_parser c \<longleftrightarrow> (\<forall>a. cp_active c = Some a \<longrightarrow>
     clean_output (ac_output a) \<and> ac_output_bytes a = sum_list (map utf8_len (ac_output a)))"

lemma results_of_simps [simp]:
  "results_of [] = []" "results_of (CommandItem r # is) = r # results_of is"
  "results_of (EventItem e # is) = results_of is" "results_of (is @ js) = results_of is @ results_of js"
  by (simp_all add: results_of_def List.map_filter_def)

lemma submitted_in_simps [simp]:
  "submitted_in [] = []" "submitted_in (Submit t # ops) = t # submitted_in ops"
  "submitted_in (Receive l # ops) = submitted_in ops"
  by (simp_all add: submitted_in_def List.map_filter_def)

lemma output_full_iff:
  "\<not> output_full a line \<longleftrightarrow> length (ac_output a) < MAX_COMMAND_OUTPUT_LINES
     \<and> ac_output_bytes a + utf8_len line \<le> MAX_COMMAND_OUTPUT_BYTES"
  by (auto simp: output_full_def sat_add_def control_limits)

lemma control_step_correct:
  assumes "wf_parser c" and "control_step c op = (items, c')"
  shows "wf_parser c'"
    and "\<forall>r \<in> set (results_of items). clean_output (cr_output r)"
    and "subseq (map cr_ticket (results_of items) @ waiting_tickets c') (waiting_tickets c @ submitted_in [op])"
proof -
  have "wf_parser c' \<and> (\<forall>r \<in> set (results_of items). clean_output (cr_output r))
      \<and> subseq (map cr_ticket (results_of items) @ waiting_tickets c') (waiting_tickets c @ submitted_in [op])"
  proof (cases op)
    case (Submit t)
    with assms show ?thesis by (auto simp: submitted_def wf_parser_def waiting_tickets_def)
  next
    case (Receive line)
    consider (begins) "starts_with (ustr ''%begin '') line"
      | (finishes) "\<not> starts_with (ustr ''%begin '') line"
          "starts_with (ustr ''%end '') line \<or> starts_with (ustr ''%error '') line"
      | (other) "\<not> frame_line line" by (auto simp: frame_line_def)
    then show ?thesis
    proof cases
      case begins
      with assms Receive show ?thesis
        by (auto simp: control_receive_def control_begin_def wf_parser_def waiting_tickets_def clean_output_def
            split: sum.splits list.splits if_splits)
    next
      case finishes
      with assms Receive show ?thesis
        by (auto simp: control_receive_def control_finish_def wf_parser_def waiting_tickets_def
            split: sum.splits option.splits if_splits)
    next
      case other
      then have nf: "\<not> starts_with (ustr ''%begin '') line" "\<not> starts_with (ustr ''%end '') line"
        "\<not> starts_with (ustr ''%error '') line" by (simp_all add: frame_line_def)
      show ?thesis
      proof (cases "translate_notification line")
        case (Some e)
        with nf assms Receive show ?thesis by (auto simp: control_receive_def)
      next
        case None
        with nf other assms Receive show ?thesis
          by (auto simp: control_receive_def wf_parser_def waiting_tickets_def clean_output_def output_full_iff
              split: option.splits if_splits)
      qed
    qed
  qed
  then show "wf_parser c'" "\<forall>r \<in> set (results_of items). clean_output (cr_output r)"
    "subseq (map cr_ticket (results_of items) @ waiting_tickets c') (waiting_tickets c @ submitted_in [op])"
    by simp_all
qed

section \<open>Properties\<close>

text \<open>
  The response to a command, delivered in any interleaving with notifications: from the
  opening line to the closing line of the same command number, the parser delivers the
  notifications as events in their order, then exactly one result, for the oldest submitted
  ticket, with every other line as its output in order; nothing else changes. The output is
  complete whenever it is within the limits.
\<close>

theorem control_response_correct:
  assumes "cp_active c = None" and "cp_pending c = ticket # rest"
    and "starts_with (ustr ''%begin '') open_line" and "frame_command open_line = Inr n"
    and "\<forall>l \<in> set ls. \<not> frame_line l" and "output_fits ls"
    and "closing = ustr ''%end '' @ r \<or> closing = ustr ''%error '' @ r" and "frame_command closing = Inr n"
  shows "receive_lines (open_line # ls @ [closing]) c =
           (Inr (map EventItem (events_of ls)
                 @ [CommandItem \<lparr>cr_ticket = ticket, cr_output = output_of ls,
                                 cr_success = (closing = ustr ''%end '' @ r)\<rparr>]),
            c\<lparr>cp_pending := rest\<rparr>)"
  using assms by (rule control_block)

lemma control_response_correct_witness:
  "receive_lines (map ustr [''%begin 1 7 1'', ''%layout-change @1'', ''out'', ''%error 1 7 1''])
     (submitted 41 control_parser_default) =
   (Inr [EventItem TopologyChanged, CommandItem \<lparr>cr_ticket = 41, cr_output = [ustr ''out''], cr_success = False\<rparr>],
    control_parser_default)"
proof -
  have f: "frame_command (ustr ''%begin 1 7 1'') = Inr 7" "frame_command (ustr ''%error 1 7 1'') = Inr 7"
    by (simp_all add: frame_command_def ustr_def split_whitespace.simps is_whitespace_def parse_uint_def
        digits_value_def is_ascii_digit_def Let_def)
  have t: "translate_notification (ustr ''%layout-change @1'') = Some TopologyChanged"
    "translate_notification (ustr ''out'') = None"
    by (simp_all add: translate_notification_def topology_notifications_def ustr_def Let_def)
  show ?thesis
    using control_response_correct [where c = "submitted 41 control_parser_default" and ticket = 41 and rest = "[]"
        and open_line = "ustr ''%begin 1 7 1''" and ls = "map ustr [''%layout-change @1'', ''out'']"
        and closing = "ustr ''%error 1 7 1''" and r = "ustr ''1 7 1''" and n = 7]
    by (simp add: f [simplified] t [simplified] submitted_def control_parser_default_def frame_line_def output_fits_def output_size_def
        control_limits utf8_len_def char_len_def)
qed

text \<open>
  Whatever lines tmux sends and whenever commands are submitted, also with malformed
  frames: results come in the order their tickets were submitted (no ticket is answered twice or
  out of turn), and the output of a result never contains a notification or a frame line and is
  within the line and byte limits.
\<close>

theorem control_tickets_in_order:
  assumes "wf_parser c" and "control_run c ops = (items, c')"
  shows "subseq (map cr_ticket (results_of items) @ waiting_tickets c') (waiting_tickets c @ submitted_in ops)
    \<and> (\<forall>r \<in> set (results_of items). clean_output (cr_output r)) \<and> wf_parser c'"
  using assms
proof (induction ops arbitrary: c items)
  case (Cons op ops)
  obtain is1 d where step: "control_step c op = (is1, d)" by force
  obtain is2 where run: "control_run d ops = (is2, c')" and items: "items = is1 @ is2"
    using Cons.prems(2) step by (auto split: prod.splits)
  note one = control_step_correct [OF Cons.prems(1) step]
  have IH: "subseq (map cr_ticket (results_of is2) @ waiting_tickets c') (waiting_tickets d @ submitted_in ops)"
    "\<forall>r \<in> set (results_of is2). clean_output (cr_output r)" "wf_parser c'"
    using Cons.IH [OF one(1) run] by simp_all
  have "subseq (map cr_ticket (results_of is1) @ (map cr_ticket (results_of is2) @ waiting_tickets c'))
      (map cr_ticket (results_of is1) @ (waiting_tickets d @ submitted_in ops))"
    by (intro list_emb_append_mono [OF subseq_order.order_refl]) (rule IH(1))
  also have "subseq \<dots> ((waiting_tickets c @ submitted_in [op]) @ submitted_in ops)"
    using list_emb_append_mono [OF one(3) subseq_order.order_refl [of "submitted_in ops"]] by simp
  finally have "subseq (map cr_ticket (results_of items) @ waiting_tickets c')
      (waiting_tickets c @ submitted_in (op # ops))" by (cases op) (simp_all add: items)
  with one(2) IH(2,3) items show ?case by auto
qed simp

lemma control_tickets_in_order_witness:
  "subseq (map cr_ticket (results_of [CommandItem \<lparr>cr_ticket = 1, cr_output = [], cr_success = True\<rparr>]) @ [2]) [1, 2]"
proof -
  have f: "frame_command (ustr ''%begin 1 7 1'') = Inr 7" "frame_command (ustr ''%end 1 7 1'') = Inr 7"
    by (simp_all add: frame_command_def ustr_def split_whitespace.simps is_whitespace_def parse_uint_def
        digits_value_def is_ascii_digit_def Let_def)
  have run: "control_run control_parser_default
      [Submit 1, Submit 2, Receive (ustr ''%begin 1 7 1''), Receive (ustr ''%end 1 7 1'')] =
     ([CommandItem \<lparr>cr_ticket = 1, cr_output = [], cr_success = True\<rparr>], \<lparr>cp_pending = [2], cp_active = None\<rparr>)"
    using f [simplified] by (simp add: control_parser_default_def submitted_def control_receive_def control_begin_def
        control_finish_def)
  from control_tickets_in_order [OF _ this] show ?thesis
    by (simp add: wf_parser_def control_parser_default_def waiting_tickets_def)
qed

end
