(* ===== verification/Tmux_Commands.thy ===== *)
theory Tmux_Commands
  imports Text_Ingress Tmux_Topology Tmux_Control
begin

text \<open>
  The commands tmnotify sends to tmux, of \<open>src/tmux/production.rs\<close> and \<open>src/tmux/mod.rs\<close>: their
  arguments, the validation of everything that enters them, and the quoting that turns a batch of
  commands into one line of a control connection.
\<close>

section \<open>Data\<close>

datatype display_kind = ToastDisplay | AttentionDisplay

record geometry =
  g_x :: nat
  g_y :: nat
  g_width :: nat
  g_height :: nat
  g_z_index :: nat

text \<open>The errors of the boundary; the rendered message of a failure is kept as the data it shows.\<close>

datatype tmux_error =
    TmuxIo
  | TmuxProtocol string
  | TmuxInvalidId ustring
  | TmuxTopology topology_parse_error
  | TmuxCommandFailed "ustring list"
  | TmuxUnsupported

datatype source_capture_error = InvalidPaneId

section \<open>Validation\<close>

definition stable_digits :: "nat \<Rightarrow> ustring \<Rightarrow> bool" where
  "stable_digits sigil value =
     (case strip_prefix [sigil] value of Some ds \<Rightarrow> ds \<noteq> [] \<and> list_all is_ascii_digit ds | None \<Rightarrow> False)"

definition validate_stable_id :: "ustring \<Rightarrow> nat \<Rightarrow> tmux_error + unit" where
  "validate_stable_id value sigil = (if stable_digits sigil value then Inr () else Inl (TmuxInvalidId value))"

definition validate_stable_window_id :: "ustring \<Rightarrow> tmux_error + unit" where
  "validate_stable_window_id value =
     (if stable_digits (of_char CHR ''@'') value then Inr ()
      else Inl (TmuxProtocol ''invalid stable tmux window ID''))"

definition validate_source_pane_id :: "ustring \<Rightarrow> source_capture_error + unit" where
  "validate_source_pane_id value =
     (if stable_digits (of_char CHR ''%'') value then Inr () else Inl InvalidPaneId)"

definition is_ascii_alphanumeric :: "nat \<Rightarrow> bool" where
  "is_ascii_alphanumeric c \<longleftrightarrow> is_ascii_digit c \<or> (0x41 \<le> c \<and> c \<le> 0x5a) \<or> (0x61 \<le> c \<and> c \<le> 0x7a)"

definition validate_display_id :: "ustring \<Rightarrow> tmux_error + unit" where
  "validate_display_id value =
     (if value \<noteq> [] \<and> utf8_len value \<le> 128
         \<and> list_all (\<lambda>c. is_ascii_alphanumeric c \<or> c \<in> set (ustr ''-_:@%'')) value
      then Inr () else Inl (TmuxProtocol ''invalid Window Display ID''))"

definition validate_client_name :: "ustring \<Rightarrow> tmux_error + ustring" where
  "validate_client_name value =
     (if value = [] \<or> utf8_len value > 4096 \<or> list_ex is_control value
      then Inl (TmuxProtocol ''invalid tmux client name'') else Inr value)"

definition require_success :: "command_result \<Rightarrow> tmux_error + unit" where
  "require_success r =
     (if cr_success r then Inr ()
      else Inl (if cr_output r = [] then TmuxProtocol ''tmux command failed'' else TmuxCommandFailed (cr_output r)))"

section \<open>Commands\<close>

type_synonym tmux_command = "ustring list"

definition geometry_arguments :: "geometry \<Rightarrow> ustring list" where
  "geometry_arguments g =
     [ustr ''-X'', print_nat (g_x g), ustr ''-Y'', print_nat (g_y g),
      ustr ''-x'', print_nat (g_width g), ustr ''-y'', print_nat (g_height g)]"

definition attention_create_arguments :: "window_id \<Rightarrow> geometry \<Rightarrow> tmux_command" where
  "attention_create_arguments window g =
     [ustr ''new-pane'', ustr ''-O'', ustr ''-P'', ustr ''-F'', ustr ''#{pane_id}'', ustr ''-t'', window]
     @ geometry_arguments g"

definition break_floating_command :: "pane_id \<Rightarrow> window_id \<Rightarrow> geometry \<Rightarrow> tmux_command" where
  "break_floating_command pane window g =
     [ustr ''break-pane'', ustr ''-W'', ustr ''-d'', ustr ''-s'', pane, ustr ''-t'', window]
     @ geometry_arguments g"

definition floating_resize_size :: "geometry \<Rightarrow> nat \<times> nat" where
  "floating_resize_size g = (max (g_width g) 1, max (g_height g) 1)"

definition resize_command :: "pane_id \<Rightarrow> geometry \<Rightarrow> tmux_command" where
  "resize_command pane g =
     (let (width, height) = floating_resize_size g in
      [ustr ''resize-pane'', ustr ''-t'', pane, ustr ''-x'', print_nat width, ustr ''-y'', print_nat height])"

definition append_relative_moves :: "pane_id \<Rightarrow> geometry \<Rightarrow> geometry \<Rightarrow> tmux_command list" where
  "append_relative_moves pane actual desired =
     map (\<lambda>(cells, direction). [ustr ''move-pane'', ustr ''-t'', pane, direction, print_nat cells])
       (filter (\<lambda>(cells, direction). cells > 0)
         [(g_x desired - g_x actual, ustr ''-R''), (g_x actual - g_x desired, ustr ''-L''),
          (g_y desired - g_y actual, ustr ''-D''), (g_y actual - g_y desired, ustr ''-U'')])"

definition restack_command :: "pane_id \<Rightarrow> geometry \<Rightarrow> tmux_command" where
  "restack_command pane g = [ustr ''move-pane'', ustr ''-t'', pane, ustr ''-z'', print_nat (g_z_index g)]"

definition kill_command :: "pane_id \<Rightarrow> tmux_command" where
  "kill_command pane = [ustr ''kill-pane'', ustr ''-t'', pane]"

definition jump_commands :: "ustring \<Rightarrow> ustring \<Rightarrow> window_id \<Rightarrow> pane_id \<Rightarrow> tmux_command list" where
  "jump_commands client_name session_id window_id pane_id =
     [[ustr ''switch-client'', ustr ''-c'', client_name, ustr ''-t'', session_id],
      [ustr ''select-window'', ustr ''-t'', window_id],
      [ustr ''select-pane'', ustr ''-t'', pane_id]]"

definition history_ui_create_arguments :: "window_id \<Rightarrow> ustring \<Rightarrow> bool \<Rightarrow> bool \<Rightarrow> tmux_command" where
  "history_ui_create_arguments window executable all_servers include_hidden =
     [ustr ''split-window'', ustr ''-d'', ustr ''-P'', ustr ''-F'', ustr ''#{pane_id}'', ustr ''-t'', window,
      executable, ustr ''__history-ui'']
     @ (if all_servers then [ustr ''--all-servers''] else [])
     @ (if include_hidden then [ustr ''--include-hidden''] else [])"

section \<open>Quoting\<close>

fun tmux_escape :: "ustring \<Rightarrow> ustring" where
  "tmux_escape [] = []"
| "tmux_escape (c # cs) = (if c \<in> {0x5c, 0x22, 0x24, 0x3b} then [0x5c, c] else [c]) @ tmux_escape cs"

definition tmux_literal :: "ustring \<Rightarrow> tmux_error + ustring" where
  "tmux_literal value =
     (if 0 \<in> set value \<or> list_ex (\<lambda>c. c = 0x0a \<or> c = 0x0d) value
      then Inl (TmuxProtocol ''tmux argument contains an invalid byte'')
      else Inr ([0x22] @ tmux_escape value @ [0x22]))"

text \<open>\<open>join\<close> with a separator.\<close>

fun join_by :: "'a list \<Rightarrow> 'a list list \<Rightarrow> 'a list" where
  "join_by sep [] = []"
| "join_by sep [x] = x"
| "join_by sep (x # y # ys) = x @ sep @ join_by sep (y # ys)"

definition encode_command :: "tmux_command \<Rightarrow> tmux_error + ustring" where
  "encode_command command =
     (if command = [] then Inl (TmuxProtocol ''empty tmux command'')
      else (case collect_results tmux_literal command of
              Inl e \<Rightarrow> Inl e | Inr arguments \<Rightarrow> Inr (join_by (ustr '' '') arguments)))"

definition encode_batch :: "tmux_command list \<Rightarrow> tmux_error + ustring" where
  "encode_batch commands =
     (case collect_results encode_command commands of
        Inl e \<Rightarrow> Inl e | Inr cs \<Rightarrow> Inr (join_by (ustr '' ; '') cs))"

section \<open>Reading the line as tmux does\<close>

text \<open>
  The double-quoted words of tmux: up to the closing quote, a backslash makes one of the special
  characters literal. What tmux would expand or interpret otherwise (an unescaped dollar sign, any
  other escape) is refused, so that a line read back by this function means nothing else to tmux.
\<close>

fun read_quoted :: "ustring \<Rightarrow> (ustring \<times> ustring) option" where
  "read_quoted [] = None"
| "read_quoted (c # cs) =
     (if c = 0x22 then Some ([], cs)
      else if c = 0x24 then None
      else if c = 0x5c then
        (case cs of
           [] \<Rightarrow> None
         | d # ds \<Rightarrow>
             if d \<in> {0x5c, 0x22, 0x24, 0x3b} then map_option (apfst (Cons d)) (read_quoted ds) else None)
      else map_option (apfst (Cons c)) (read_quoted cs))"

lemma read_quoted_length: "read_quoted s = Some (w, r) \<Longrightarrow> length r < length s"
  by (induction s arbitrary: w r rule: read_quoted.induct) (fastforce split: if_splits list.splits)+

text \<open>Words are separated by a space, commands by a semicolon between spaces.\<close>

function read_batch :: "ustring \<Rightarrow> tmux_command list option" where
  "read_batch s =
     (case s of
        [] \<Rightarrow> None
      | q # t \<Rightarrow>
          if q \<noteq> 0x22 then None
          else case read_quoted t of
            None \<Rightarrow> None
          | Some (w, r) \<Rightarrow>
              if r = [] then Some [[w]]
              else case strip_prefix (ustr '' ; '') r of
                Some r' \<Rightarrow> map_option (Cons [w]) (read_batch r')
              | None \<Rightarrow>
                  (case strip_prefix (ustr '' '') r of
                     None \<Rightarrow> None
                   | Some r' \<Rightarrow> map_option (\<lambda>cs. (w # hd cs) # tl cs) (read_batch r')))"
  by pat_completeness auto
termination
  by (relation "measure length") (auto dest!: read_quoted_length simp: strip_prefix_Some)

declare read_batch.simps [simp del]

lemma read_quoted_literal:
  "read_quoted (tmux_escape w @ 0x22 # r) = Some (w, r)"
  by (induction w) auto

lemma tmux_escape_set: "set (tmux_escape w) \<subseteq> set w \<union> {0x5c}"
  by (induction w) auto

lemma tmux_literal_Inr:
  "tmux_literal w = Inr q \<longleftrightarrow> 0 \<notin> set w \<and> 0x0a \<notin> set w \<and> 0x0d \<notin> set w
     \<and> q = 0x22 # tmux_escape w @ [0x22]"
  by (auto simp: tmux_literal_def list_ex_iff)

lemma collect_results_Inr: "collect_results f xs = Inr ys \<longleftrightarrow> list_all2 (\<lambda>x y. f x = Inr y) xs ys"
proof (induction xs arbitrary: ys)
  case (Cons x xs)
  then show ?case by (cases ys) (auto simp flip: Cons.IH split: sum.splits)
qed auto

lemma read_batch_word:
  "tmux_literal w = Inr q \<Longrightarrow> read_batch (q @ r) =
     (if r = [] then Some [[w]]
      else case strip_prefix (ustr '' ; '') r of
        Some r' \<Rightarrow> map_option (Cons [w]) (read_batch r')
      | None \<Rightarrow>
          (case strip_prefix (ustr '' '') r of
             None \<Rightarrow> None
           | Some r' \<Rightarrow> map_option (\<lambda>cs. (w # hd cs) # tl cs) (read_batch r')))"
  by (subst read_batch.simps) (auto simp: tmux_literal_Inr read_quoted_literal)

lemma literal_starts_quoted: "tmux_literal w = Inr q \<Longrightarrow> \<exists>t. q = 0x22 # t"
  by (auto simp: tmux_literal_Inr)

lemma join_by_Cons: "xs \<noteq> [] \<Longrightarrow> join_by sep (x # xs) = x @ sep @ join_by sep xs"
  by (cases xs) auto

lemma read_batch_words:
  assumes "list_all2 (\<lambda>w q. tmux_literal w = Inr q) ws qs" and "ws \<noteq> []"
  shows "read_batch (join_by (ustr '' '') qs) = Some [ws]
    \<and> read_batch (join_by (ustr '' '') qs @ ustr '' ; '' @ s) = map_option (Cons ws) (read_batch s)
    \<and> (\<exists>t. join_by (ustr '' '') qs = 0x22 # t)"
  using assms
proof (induction rule: list_all2_induct)
  case (Cons w ws q qs)
  note word = read_batch_word [OF Cons.hyps(1)]
  show ?case
  proof (cases "ws = []")
    case True
    then have "qs = []" using Cons.hyps(2) by simp
    then show ?thesis
      using True literal_starts_quoted [OF Cons.hyps(1)] word [of "[]"] word [of "ustr '' ; '' @ s"]
      by (simp add: strip_prefix_def)
  next
    case False
    then have "qs \<noteq> []" using Cons.hyps(2) by auto
    moreover obtain t where t: "join_by (ustr '' '') qs = 0x22 # t" using Cons.IH False by blast
    moreover have "strip_prefix (ustr '' ; '') (ustr '' '' @ 0x22 # t @ u) = None"
      "strip_prefix (ustr '' '') (ustr '' '' @ 0x22 # t @ u) = Some (0x22 # t @ u)" for u
      by (simp_all add: strip_prefix_def)
    ultimately show ?thesis
      using False Cons.IH word [of "ustr '' '' @ 0x22 # t"] word [of "ustr '' '' @ 0x22 # t @ ustr '' ; '' @ s"]
        literal_starts_quoted [OF Cons.hyps(1)]
      by (auto simp: join_by_Cons strip_prefix_def map_option_case split: option.splits)
  qed
qed simp

lemma encode_command_Inr:
  "encode_command ws = Inr e \<longleftrightarrow>
     ws \<noteq> [] \<and> (\<exists>qs. list_all2 (\<lambda>w q. tmux_literal w = Inr q) ws qs \<and> e = join_by (ustr '' '') qs)"
  by (auto simp: encode_command_def simp flip: collect_results_Inr split: sum.splits)

lemma read_batch_commands:
  assumes "list_all2 (\<lambda>c e. encode_command c = Inr e) cs es" and "cs \<noteq> []"
  shows "read_batch (join_by (ustr '' ; '') es) = Some cs"
  using assms
proof (induction rule: list_all2_induct)
  case (Cons c cs e es)
  then obtain qs where qs: "c \<noteq> []" "list_all2 (\<lambda>w q. tmux_literal w = Inr q) c qs" "e = join_by (ustr '' '') qs"
    by (auto simp: encode_command_Inr)
  show ?case
  proof (cases "cs = []")
    case True
    with Cons qs read_batch_words [OF qs(2,1)] show ?thesis by simp
  next
    case False
    then have "es \<noteq> []" using Cons.hyps(2) by auto
    with False Cons qs read_batch_words [OF qs(2,1), of "join_by (ustr '' ; '') es"] show ?thesis
      by (simp add: join_by_Cons)
  qed
qed simp

definition plain_argument :: "ustring \<Rightarrow> bool" where
  "plain_argument w \<longleftrightarrow> 0 \<notin> set w \<and> 0x0a \<notin> set w \<and> 0x0d \<notin> set w"

lemma set_join_by: "set (join_by sep xs) \<subseteq> set sep \<union> (\<Union>x \<in> set xs. set x)"
  by (induction sep xs rule: join_by.induct) auto

lemma literal_plain: "tmux_literal w = Inr q \<Longrightarrow> plain_argument q"
  using tmux_escape_set [of w] by (auto simp: tmux_literal_Inr plain_argument_def)

lemma join_plain:
  assumes "plain_argument sep" and "\<forall>x \<in> set xs. plain_argument x"
  shows "plain_argument (join_by sep xs)"
  using set_join_by [of sep xs] assms unfolding plain_argument_def by blast

lemma list_all2_range: "list_all2 R xs ys \<Longrightarrow> y \<in> set ys \<Longrightarrow> \<exists>x \<in> set xs. R x y"
  by (induction rule: list_all2_induct) auto

lemma command_plain: "encode_command c = Inr e \<Longrightarrow> plain_argument e"
  by (auto simp: encode_command_Inr intro!: join_plain dest: list_all2_range literal_plain)
    (simp add: plain_argument_def)

lemma literal_total: "plain_argument w \<Longrightarrow> \<exists>q. tmux_literal w = Inr q"
  by (simp add: tmux_literal_Inr plain_argument_def)

lemma list_all2_total: "\<forall>x \<in> set xs. \<exists>y. R x y \<Longrightarrow> \<exists>ys. list_all2 R xs ys"
proof (induction xs)
  case (Cons x xs)
  then obtain y ys where "R x y" "list_all2 R xs ys" by auto
  then have "list_all2 R (x # xs) (y # ys)" by simp
  then show ?case by blast
qed auto

lemma encode_batch_Inr:
  "encode_batch cs = Inr line \<longleftrightarrow>
     (\<exists>es. list_all2 (\<lambda>c e. encode_command c = Inr e) cs es \<and> line = join_by (ustr '' ; '') es)"
  by (auto simp: encode_batch_def simp flip: collect_results_Inr split: sum.splits)

lemma encode_batch_reads_back:
  assumes "commands \<noteq> []" and "encode_batch commands = Inr line"
  shows "plain_argument line" and "read_batch line = Some commands"
proof -
  obtain es where es: "list_all2 (\<lambda>c e. encode_command c = Inr e) commands es" "line = join_by (ustr '' ; '') es"
    using assms(2) by (auto simp: encode_batch_Inr)
  show "read_batch line = Some commands" using read_batch_commands [OF es(1) assms(1)] es(2) by simp
  show "plain_argument line"
    unfolding es(2) using list_all2_range [OF es(1)] command_plain
    by (intro join_plain) (auto simp: plain_argument_def [of "ustr _"], simp add: plain_argument_def)
qed

section \<open>Properties\<close>



end
