(* ===== verification/Tmux_Connection.thy ===== *)
theory Tmux_Connection
  imports Tmux_Commands
begin

text \<open>
  One control connection of \<open>src/tmux/production.rs\<close>: writing a batch of commands, and waiting for
  the results of its tickets while events that arrive in between are queued.

  The lines tmux sends are an input of the model: those that arrive before a deadline, in order,
  where an element may also be an I/O error of the reader. Whether the reader has ended after them,
  and whether tmux still takes input, are flags. What is written is recorded.
\<close>

section \<open>State\<close>

record control_connection =
  cc_lines :: "(unit + ustring) list"
  cc_ended :: bool
  cc_writable :: bool
  cc_written :: "ustring list"
  cc_parser :: control_parser
  cc_next_ticket :: command_ticket
  cc_results :: "command_ticket \<rightharpoonup> command_result"
  cc_events :: "tmux_event list"

definition enqueue_event :: "tmux_event list \<Rightarrow> tmux_event \<Rightarrow> tmux_event list" where
  "enqueue_event events e = (if e \<in> set events then events else events @ [e])"

section \<open>Consuming lines\<close>

fun consume_items :: "control_item list \<Rightarrow> control_connection \<Rightarrow> control_connection" where
  "consume_items [] c = c"
| "consume_items (CommandItem r # is) c =
     consume_items is (c\<lparr>cc_results := (cc_results c)(cr_ticket r \<mapsto> r)\<rparr>)"
| "consume_items (EventItem e # is) c =
     consume_items is (c\<lparr>cc_events := enqueue_event (cc_events c) e\<rparr>)"

definition connection_consume :: "ustring \<Rightarrow> control_connection \<Rightarrow> (tmux_error + unit) \<times> control_connection" where
  "connection_consume line c =
     (case control_receive line (cc_parser c) of
        (Inl e, p) \<Rightarrow> (Inl (TmuxProtocol (ce_detail e)), c\<lparr>cc_parser := p\<rparr>)
      | (Inr items, p) \<Rightarrow> (Inr (), consume_items items (c\<lparr>cc_parser := p\<rparr>)))"

text \<open>Running out of lines is running into the deadline, or the end of the connection.\<close>

fun wait_lines :: "(unit + ustring) list \<Rightarrow> command_ticket \<Rightarrow> control_connection
    \<Rightarrow> (tmux_error + command_result) \<times> control_connection" where
  "wait_lines ls ticket c =
     (case cc_results c ticket of
        Some r \<Rightarrow> (Inr r, c\<lparr>cc_results := (cc_results c)(ticket := None), cc_lines := ls\<rparr>)
      | None \<Rightarrow>
          (case ls of
             [] \<Rightarrow>
               (Inl (TmuxProtocol (if cc_ended c then ''tmux control connection closed''
                                   else ''tmux control command timed out'')), c\<lparr>cc_lines := []\<rparr>)
           | Inl _ # ls' \<Rightarrow> (Inl TmuxIo, c\<lparr>cc_lines := ls'\<rparr>)
           | Inr line # ls' \<Rightarrow>
               (case connection_consume line c of
                  (Inl e, c') \<Rightarrow> (Inl e, c'\<lparr>cc_lines := ls'\<rparr>)
                | (Inr _, c') \<Rightarrow> wait_lines ls' ticket c')))"

declare wait_lines.simps [simp del]

definition wait_for :: "command_ticket \<Rightarrow> control_connection \<Rightarrow> (tmux_error + command_result) \<times> control_connection" where
  "wait_for ticket c = wait_lines (cc_lines c) ticket c"

text \<open>Polling for events, which never waits.\<close>

fun poll_lines :: "(unit + ustring) list \<Rightarrow> control_connection \<Rightarrow> (tmux_error + tmux_event option) \<times> control_connection" where
  "poll_lines ls c =
     (case cc_events c of
        e # es \<Rightarrow> (Inr (Some e), c\<lparr>cc_events := es, cc_lines := ls\<rparr>)
      | [] \<Rightarrow>
          (case ls of
             [] \<Rightarrow> (Inr (if cc_ended c then Some Disconnected else None), c\<lparr>cc_lines := []\<rparr>)
           | Inl _ # ls' \<Rightarrow> (Inl TmuxIo, c\<lparr>cc_lines := ls'\<rparr>)
           | Inr line # ls' \<Rightarrow>
               (case connection_consume line c of
                  (Inl e, c') \<Rightarrow> (Inl e, c'\<lparr>cc_lines := ls'\<rparr>)
                | (Inr _, c') \<Rightarrow> poll_lines ls' c')))"

declare poll_lines.simps [simp del]

definition connection_next_event :: "control_connection \<Rightarrow> (tmux_error + tmux_event option) \<times> control_connection" where
  "connection_next_event c = poll_lines (cc_lines c) c"

section \<open>Commands\<close>

definition next_ticket :: "command_ticket \<Rightarrow> command_ticket" where
  "next_ticket t = max (t + 1) 1"

fun take_tickets :: "nat \<Rightarrow> control_connection \<Rightarrow> command_ticket list \<times> control_connection" where
  "take_tickets 0 c = ([], c)"
| "take_tickets (Suc n) c =
     (let t = cc_next_ticket c;
          (ts, c') = take_tickets n (c\<lparr>cc_next_ticket := next_ticket t, cc_parser := submitted t (cc_parser c)\<rparr>)
      in (t # ts, c'))"

fun wait_all :: "command_ticket list \<Rightarrow> command_result \<Rightarrow> control_connection
    \<Rightarrow> (tmux_error + command_result) \<times> control_connection" where
  "wait_all [] combined c = (Inr combined, c)"
| "wait_all (t # ts) combined c =
     (case wait_for t c of
        (Inl e, c') \<Rightarrow> (Inl e, c')
      | (Inr r, c') \<Rightarrow>
          wait_all ts (combined\<lparr>cr_success := cr_success combined \<and> cr_success r,
                                cr_output := cr_output combined @ cr_output r\<rparr>) c')"

definition connection_command :: "tmux_command list \<Rightarrow> control_connection
    \<Rightarrow> (tmux_error + command_result) \<times> control_connection" where
  "connection_command commands c =
     (if commands = [] then (Inl (TmuxProtocol ''empty tmux command batch''), c)
      else (case encode_batch commands of
        Inl e \<Rightarrow> (Inl e, c)
      | Inr encoded \<Rightarrow>
          (let (tickets, c1) = take_tickets (length commands) c;
               c2 = c1\<lparr>cc_written := cc_written c1 @ [encoded @ [0x0a]]\<rparr>
           in if \<not> cc_writable c1 then (Inl TmuxIo, c1)
              else wait_all tickets \<lparr>cr_ticket = hd tickets, cr_output = [], cr_success = True\<rparr> c2)))"

section \<open>The responses tmux gives\<close>

text \<open>
  A response: lines that come before it, its opening line, the lines in between, and its closing
  line, with the outcome the closing line tells.
\<close>

record response =
  rsp_before :: "ustring list"
  rsp_open :: ustring
  rsp_lines :: "ustring list"
  rsp_close :: ustring
  rsp_success :: bool

definition response_lines :: "response \<Rightarrow> ustring list" where
  "response_lines b = rsp_before b @ rsp_open b # rsp_lines b @ [rsp_close b]"

definition wf_response :: "response \<Rightarrow> bool" where
  "wf_response b \<longleftrightarrow>
     (\<forall>l \<in> set (rsp_before b) \<union> set (rsp_lines b). \<not> frame_line l)
     \<and> starts_with (ustr ''%begin '') (rsp_open b) \<and> output_fits (rsp_lines b)
     \<and> starts_with (if rsp_success b then ustr ''%end '' else ustr ''%error '') (rsp_close b)
     \<and> (\<exists>n. frame_command (rsp_open b) = Inr n \<and> frame_command (rsp_close b) = Inr n)"

definition response_events :: "response \<Rightarrow> tmux_event list" where
  "response_events b = events_of (rsp_before b) @ events_of (rsp_lines b)"

lemma starts_with_iff: "starts_with p s \<longleftrightarrow> (\<exists>r. s = p @ r)"
  by (auto simp: starts_with_def) (metis append_take_drop_id)

lemma consume_events:
  "consume_items (map EventItem es) c = c\<lparr>cc_events := foldl enqueue_event (cc_events c) es\<rparr>"
  by (induction es arbitrary: c) auto

lemma consume_append: "consume_items (is @ js) c = consume_items js (consume_items is c)"
  by (induction "is" c rule: consume_items.induct) auto

text \<open>Lines that deliver only events do not end a wait.\<close>

lemma wait_events:
  assumes "receive_lines ls (cc_parser c) = (Inr (map EventItem es), p)" and "cc_results c ticket = None"
  shows "wait_lines (map Inr ls @ ls') ticket c =
    wait_lines ls' ticket (c\<lparr>cc_parser := p, cc_events := foldl enqueue_event (cc_events c) es\<rparr>)"
  using assms
proof (induction ls arbitrary: c es)
  case Nil
  then show ?case by (cases c) auto
next
  case (Cons l ls)
  from Cons.prems(1) obtain items q more where l: "control_receive l (cc_parser c) = (Inr items, q)"
    "receive_lines ls q = (Inr more, p)" "map EventItem es = items @ more"
    by (auto split: sum.splits prod.splits)
  then obtain es1 es2 where es: "es = es1 @ es2" "items = map EventItem es1" "more = map EventItem es2"
    by (auto simp: map_eq_append_conv)
  let ?c = "c\<lparr>cc_parser := q, cc_events := foldl enqueue_event (cc_events c) es1\<rparr>"
  have "connection_consume l c = (Inr (), ?c)"
    using l es by (simp add: connection_consume_def consume_events)
  moreover have "wait_lines (map Inr ls @ ls') ticket ?c =
      wait_lines ls' ticket (?c\<lparr>cc_parser := p, cc_events := foldl enqueue_event (cc_events ?c) es2\<rparr>)"
    using Cons.IH [of ?c es2] l(2) es(3) Cons.prems(2) by simp
  ultimately show ?case
    using Cons.prems(2) by (subst wait_lines.simps) (simp add: es(1))
qed

lemma wait_response:
  assumes "wf_response b" and "cp_active (cc_parser c) = None" "cp_pending (cc_parser c) = ticket # rest"
    and "cc_results c ticket = None"
  shows "wait_lines (map Inr (response_lines b) @ ls) ticket c =
    (Inr \<lparr>cr_ticket = ticket, cr_output = output_of (rsp_lines b), cr_success = rsp_success b\<rparr>,
     c\<lparr>cc_lines := ls, cc_parser := (cc_parser c)\<lparr>cp_pending := rest\<rparr>,
       cc_events := foldl enqueue_event (cc_events c) (response_events b)\<rparr>)"
proof -
  let ?p = "cc_parser c"
  let ?r = "\<lparr>cr_ticket = ticket, cr_output = output_of (rsp_lines b), cr_success = rsp_success b\<rparr>"
  let ?es = "response_events b"
  obtain n where n: "frame_command (rsp_open b) = Inr n" "frame_command (rsp_close b) = Inr n"
    using assms(1) by (auto simp: wf_response_def)
  obtain r where r: "rsp_close b = (if rsp_success b then ustr ''%end '' else ustr ''%error '') @ r"
    using assms(1) by (auto simp: wf_response_def starts_with_iff)
  have success: "(rsp_close b = ustr ''%end '' @ r) = rsp_success b" using r by auto
  have outside: "receive_lines (rsp_before b) ?p = (Inr (map EventItem (events_of (rsp_before b))), ?p)"
    by (rule receive_outside) (use assms(1,2) in \<open>auto simp: wf_response_def\<close>)
  have block: "receive_lines (rsp_open b # rsp_lines b @ [rsp_close b]) ?p =
      (Inr (map EventItem (events_of (rsp_lines b)) @ [CommandItem ?r]), ?p\<lparr>cp_pending := rest\<rparr>)"
    using control_block [OF assms(2,3) _ n(1) _ _ _ n(2), of "rsp_lines b" r] assms(1) r success
    by (auto simp: wf_response_def)
  obtain items q where front: "receive_lines (rsp_before b @ rsp_open b # rsp_lines b) ?p = (Inr items, q)"
    and closes: "control_receive (rsp_close b) q = (Inr [CommandItem ?r], ?p\<lparr>cp_pending := rest\<rparr>)"
    and items: "items = map EventItem ?es"
  proof -
    have all: "receive_lines ((rsp_before b @ rsp_open b # rsp_lines b) @ [rsp_close b]) ?p =
        (Inr (map EventItem ?es @ [CommandItem ?r]), ?p\<lparr>cp_pending := rest\<rparr>)"
      using outside block by (simp add: receive_lines_append response_events_def)
    then obtain i1 q i2 where i: "receive_lines (rsp_before b @ rsp_open b # rsp_lines b) ?p = (Inr i1, q)"
      "control_receive (rsp_close b) q = (Inr i2, ?p\<lparr>cp_pending := rest\<rparr>)"
      "i1 @ i2 = map EventItem ?es @ [CommandItem ?r]"
      unfolding receive_lines_append by (auto split: sum.splits prod.splits)
    have "length i2 \<le> 1 \<and> (i2 \<noteq> [] \<longrightarrow> True)"
      using i(2) by (auto simp: control_receive_def split: if_splits sum.splits prod.splits option.splits)
    moreover have "i2 \<noteq> []"
    proof
      assume "i2 = []"
      have "\<exists>x. i2 = [CommandItem x]"
        using i(2) r by (auto simp: control_receive_def split: if_splits sum.splits prod.splits)
      with \<open>i2 = []\<close> show False by simp
    qed
    ultimately obtain x where "i2 = [x]" by (cases i2) auto
    with i(3) have "i2 = [CommandItem ?r]" "i1 = map EventItem ?es" by auto
    with i that show thesis by blast
  qed
  let ?c = "c\<lparr>cc_parser := q, cc_events := foldl enqueue_event (cc_events c) ?es\<rparr>"
  have step: "wait_lines (map Inr (response_lines b) @ ls) ticket c = wait_lines (Inr (rsp_close b) # ls) ticket ?c"
    using wait_events [where ls = "rsp_before b @ rsp_open b # rsp_lines b" and c = c and p = q and es = ?es
        and ls' = "Inr (rsp_close b) # ls"] front items assms(4)
    by (simp add: response_lines_def)
  have "connection_consume (rsp_close b) ?c = (Inr (), ?c\<lparr>cc_parser := ?p\<lparr>cp_pending := rest\<rparr>,
      cc_results := (cc_results c)(ticket \<mapsto> ?r)\<rparr>)"
    using closes by (simp add: connection_consume_def)
  moreover have "(cc_results c)(ticket := None) = cc_results c" using assms(4) by auto
  ultimately show ?thesis
    unfolding step using assms(4)
    by (subst wait_lines.simps) (simp, subst wait_lines.simps, simp)
qed

lemma take_tickets_eq:
  "take_tickets n c = (ts, c') \<Longrightarrow> length ts = n \<and> (0 < n \<longrightarrow> hd ts = cc_next_ticket c)
     \<and> c' = c\<lparr>cc_next_ticket := (next_ticket ^^ n) (cc_next_ticket c),
               cc_parser := (cc_parser c)\<lparr>cp_pending := cp_pending (cc_parser c) @ ts\<rparr>\<rparr>"
proof (induction n arbitrary: c ts c')
  case (Suc n)
  obtain us d where rest: "take_tickets n (c\<lparr>cc_next_ticket := next_ticket (cc_next_ticket c),
      cc_parser := submitted (cc_next_ticket c) (cc_parser c)\<rparr>) = (us, d)" by force
  with Suc.prems have "ts = cc_next_ticket c # us" "c' = d" by (auto simp: Let_def)
  with Suc.IH [OF rest] show ?case by (simp add: submitted_def funpow_swap1)
qed simp

lemma wait_all_responses:
  assumes "list_all wf_response bs" and "length bs = length ts" and "cp_active (cc_parser c) = None"
    and "cp_pending (cc_parser c) = ts @ rest" and "\<forall>t \<in> set ts. cc_results c t = None"
    and "cc_lines c = map Inr (concat (map response_lines bs)) @ ls"
  shows "wait_all ts combined c =
    (Inr (combined\<lparr>cr_success := cr_success combined \<and> list_all rsp_success bs,
                   cr_output := cr_output combined @ concat (map (\<lambda>b. output_of (rsp_lines b)) bs)\<rparr>),
     c\<lparr>cc_lines := ls, cc_parser := (cc_parser c)\<lparr>cp_pending := rest\<rparr>,
       cc_events := foldl enqueue_event (cc_events c) (concat (map response_events bs))\<rparr>)"
  using assms
proof (induction bs arbitrary: ts c combined)
  case Nil
  then show ?case by (cases c; cases combined; cases "cc_parser c") auto
next
  case (Cons b bs)
  then obtain t ts' where ts: "ts = t # ts'" by (cases ts) auto
  let ?lines = "map Inr (concat (map response_lines bs)) @ ls"
  let ?d = "c\<lparr>cc_lines := ?lines, cc_parser := (cc_parser c)\<lparr>cp_pending := ts' @ rest\<rparr>,
       cc_events := foldl enqueue_event (cc_events c) (response_events b)\<rparr>"
  let ?r = "\<lparr>cr_ticket = t, cr_output = output_of (rsp_lines b), cr_success = rsp_success b\<rparr>"
  have first: "wait_for t c = (Inr ?r, ?d)"
    using wait_response [of b c t "ts' @ rest" ?lines] Cons.prems ts by (simp add: wait_for_def)
  let ?combined = "combined\<lparr>cr_success := cr_success combined \<and> rsp_success b,
      cr_output := cr_output combined @ output_of (rsp_lines b)\<rparr>"
  have "wait_all ts' ?combined ?d =
    (Inr (?combined\<lparr>cr_success := cr_success ?combined \<and> list_all rsp_success bs,
                    cr_output := cr_output ?combined @ concat (map (\<lambda>b. output_of (rsp_lines b)) bs)\<rparr>),
     ?d\<lparr>cc_lines := ls, cc_parser := (cc_parser ?d)\<lparr>cp_pending := rest\<rparr>,
       cc_events := foldl enqueue_event (cc_events ?d) (concat (map response_events bs))\<rparr>)"
    by (rule Cons.IH) (use Cons.prems ts in simp_all)
  with first show ?case by (simp add: ts conj_assoc)
qed

section \<open>Properties\<close>

text \<open>
  A batch of commands on an idle control connection, answered by one response per command
  with notifications interleaved anywhere: the call returns the outputs of all responses in order
  and succeeds exactly when all of them do, it takes every response off the connection and leaves
  it idle again, each kind of event is queued at most once more, and the one line written reads
  back as exactly this batch.
\<close>

theorem connection_command_correct:
  assumes "commands \<noteq> []" and "encode_batch commands = Inr line" and "cc_writable c"
    and "cc_parser c = control_parser_default" and "cc_results c = Map.empty"
    and "list_all wf_response bs" and "length bs = length commands"
    and "cc_lines c = map Inr (concat (map response_lines bs)) @ ls"
  shows "connection_command commands c =
      (Inr \<lparr>cr_ticket = cc_next_ticket c, cr_output = concat (map (\<lambda>b. output_of (rsp_lines b)) bs),
            cr_success = list_all rsp_success bs\<rparr>,
       c\<lparr>cc_lines := ls, cc_written := cc_written c @ [line @ [0x0a]],
         cc_next_ticket := (next_ticket ^^ length commands) (cc_next_ticket c),
         cc_events := foldl enqueue_event (cc_events c) (concat (map response_events bs))\<rparr>)
    \<and> read_batch line = Some commands"
proof -
  obtain ts c1 where t: "take_tickets (length commands) c = (ts, c1)" by force
  note tickets = take_tickets_eq [OF t]
  let ?c = "c1\<lparr>cc_written := cc_written c1 @ [line @ [0x0a]]\<rparr>"
  have hd: "hd ts = cc_next_ticket c" using tickets assms(1) by simp
  have "wait_all ts \<lparr>cr_ticket = hd ts, cr_output = [], cr_success = True\<rparr> ?c =
    (Inr (\<lparr>cr_ticket = hd ts, cr_output = [], cr_success = True\<rparr>\<lparr>cr_success := True \<and> list_all rsp_success bs,
          cr_output := [] @ concat (map (\<lambda>b. output_of (rsp_lines b)) bs)\<rparr>),
     ?c\<lparr>cc_lines := ls, cc_parser := (cc_parser ?c)\<lparr>cp_pending := []\<rparr>,
       cc_events := foldl enqueue_event (cc_events ?c) (concat (map response_events bs))\<rparr>)"
    using wait_all_responses [of bs ts ?c "[]" ls "\<lparr>cr_ticket = hd ts, cr_output = [], cr_success = True\<rparr>"]
      assms(4-8) tickets by (simp add: control_parser_default_def)
  then have "connection_command commands c =
      (Inr \<lparr>cr_ticket = cc_next_ticket c, cr_output = concat (map (\<lambda>b. output_of (rsp_lines b)) bs),
            cr_success = list_all rsp_success bs\<rparr>,
       c\<lparr>cc_lines := ls, cc_written := cc_written c @ [line @ [0x0a]],
         cc_next_ticket := (next_ticket ^^ length commands) (cc_next_ticket c),
         cc_events := foldl enqueue_event (cc_events c) (concat (map response_events bs))\<rparr>)"
    using assms(1-4) t tickets hd
    by (cases c) (simp add: connection_command_def control_parser_default_def Let_def)
  with encode_batch_reads_back(2) [OF assms(1,2)] show ?thesis by simp
qed

definition demo_connection :: control_connection where
  "demo_connection = \<lparr>cc_lines = map (Inr \<circ> ustr) [''%begin 1 7 1'', ''%window-add @2'', ''out'', ''%end 1 7 1''],
     cc_ended = False, cc_writable = True, cc_written = [], cc_parser = control_parser_default,
     cc_next_ticket = 5, cc_results = Map.empty, cc_events = []\<rparr>"

lemma connection_command_correct_witness:
  "fst (connection_command [[ustr ''ls'']] demo_connection)
     = Inr \<lparr>cr_ticket = 5, cr_output = [ustr ''out''], cr_success = True\<rparr>"
proof -
  let ?b = "\<lparr>rsp_before = [], rsp_open = ustr ''%begin 1 7 1'', rsp_lines = map ustr [''%window-add @2'', ''out''],
     rsp_close = ustr ''%end 1 7 1'', rsp_success = True\<rparr>"
  have f: "frame_command (ustr ''%begin 1 7 1'') = Inr 7" "frame_command (ustr ''%end 1 7 1'') = Inr 7"
    by (simp_all add: frame_command_def ustr_def split_whitespace.simps is_whitespace_def parse_uint_def
        digits_value_def is_ascii_digit_def Let_def)
  have t: "translate_notification (ustr ''%window-add @2'') = Some TopologyChanged"
    "translate_notification (ustr ''out'') = None"
    by (simp_all add: translate_notification_def topology_notifications_def ustr_def Let_def)
  have wf: "wf_response ?b"
    by (simp add: wf_response_def f [simplified] t [simplified] frame_line_def output_fits_def output_size_def
        control_limits utf8_len_def char_len_def)
  have out: "output_of (rsp_lines ?b) = [ustr ''out'']" by (simp add: t [simplified])
  have enc: "encode_batch [[ustr ''ls'']] = Inr (ustr ''\"ls\"'')"
    by (simp add: encode_batch_def encode_command_def tmux_literal_def)
  show ?thesis
    using connection_command_correct [OF _ enc, where c = demo_connection and bs = "[?b]" and ls = "[]"] wf out
    by (simp add: demo_connection_def response_lines_def)
qed

end
