(* ===== verification/Renderer_Sessions.thy ===== *)
theory Renderer_Sessions
  imports Protocol "HOL-Library.Finite_Map"
begin

text \<open>
  The renderer sessions of \<open>src/render.rs\<close>: one-time launch credentials for the processes that draw
  Window Displays, and the bounded channels over which they get their content.

  Hash maps are finite maps. Where the code iterates over one, the order is a parameter \<open>order\<close>. A
  channel shared by a sender and a receiver lives in a store of channels, and a sender is a
  reference into it. The token generator is a parameter too, with its state.
\<close>

section \<open>Data\<close>

definition DEFAULT_MAX_RENDERER_SESSIONS :: nat where "DEFAULT_MAX_RENDERER_SESSIONS = 256"
definition DEFAULT_RENDERER_CHANNEL_CAPACITY :: nat where "DEFAULT_RENDERER_CHANNEL_CAPACITY = 16"
definition DEFAULT_RENDERER_TOKEN_TTL :: duration where "DEFAULT_RENDERER_TOKEN_TTL = from_secs 15"
definition TOKEN_GENERATION_ATTEMPTS :: nat where "TOKEN_GENERATION_ATTEMPTS = 4"

datatype session_error =
    InvalidWindowDisplayId | InvalidSessionLimits | CapacityExhausted | RandomnessUnavailable
  | CredentialCollision | UnknownCredential | MismatchedCredential | StaleCredential
  | DuplicateRedemption | UnknownWindowDisplay | ChannelFull | RendererDisconnected

datatype window_display_id = WindowDisplayId (display_id_str: ustring)

definition window_display_id_new :: "ustring \<Rightarrow> session_error + window_display_id" where
  "window_display_id_new value =
     (if value = [] \<or> utf8_len value > 128 then Inl InvalidWindowDisplayId else Inr (WindowDisplayId value))"

type_synonym token = ustring
type_synonym instant = nat

record renderer_launch =
  rl_window_display_id :: window_display_id
  rl_token :: token
  rl_generation :: "64 word"

record session_limits =
  max_sessions :: nat
  channel_capacity :: nat
  token_ttl :: duration

definition session_limits_default :: session_limits where
  "session_limits_default = \<lparr>max_sessions = DEFAULT_MAX_RENDERER_SESSIONS,
     channel_capacity = DEFAULT_RENDERER_CHANNEL_CAPACITY, token_ttl = DEFAULT_RENDERER_TOKEN_TTL\<rparr>"

datatype renderer_exit = ExitSuccessful | ExitFailed | ExitSignalled

datatype renderer_outcome =
    StaleExit | Stopped window_display_id | Crashed window_display_id renderer_exit

type_synonym channel_ref = nat

record channel =
  ch_capacity :: nat
  ch_queue :: "renderer_message list"
  ch_connected :: bool

record renderer_stream =
  rst_generation :: "64 word"
  rst_receiver :: channel_ref

record pending_credential =
  pc_window_display_id :: window_display_id
  pc_generation :: "64 word"
  pc_expires_at :: instant

datatype retired_reason = Consumed | Stale

record display_session =
  ds_generation :: "64 word"
  ds_pending_token :: "token option"
  ds_sender :: "channel_ref option"
  ds_content :: renderer_content

record 'g renderer_sessions =
  rs_generator :: 'g
  rs_limits :: session_limits
  rs_displays :: "(window_display_id, display_session) fmap"
  rs_credentials :: "(token, pending_credential) fmap"
  rs_retired :: "(token, window_display_id \<times> retired_reason) fmap"
  rs_retired_order :: "token list"
  rs_next_generation :: "64 word"
  rs_channels :: "channel list"

type_synonym token_order = "(token, pending_credential) fmap \<Rightarrow> token list"
type_synonym 'g token_generator = "'g \<Rightarrow> (session_error + byte list) \<times> 'g"

definition with_generator :: "session_limits \<Rightarrow> 'g \<Rightarrow> session_error + 'g renderer_sessions" where
  "with_generator l g =
     (if max_sessions l = 0 \<or> channel_capacity l = 0 \<or> token_ttl l = 0 then Inl InvalidSessionLimits
      else Inr \<lparr>rs_generator = g, rs_limits = l, rs_displays = fmempty, rs_credentials = fmempty,
                rs_retired = fmempty, rs_retired_order = [], rs_next_generation = 1, rs_channels = []\<rparr>)"

section \<open>Channels\<close>

datatype try_send_error = SendFull | SendDisconnected

text \<open>The references a session holds are positions in the store.\<close>

definition try_send :: "channel_ref \<Rightarrow> renderer_message \<Rightarrow> 'g renderer_sessions
    \<Rightarrow> (try_send_error + unit) \<times> 'g renderer_sessions" where
  "try_send k m s =
     (let ch = rs_channels s ! k in
      if \<not> ch_connected ch then (Inl SendDisconnected, s)
      else if length (ch_queue ch) \<ge> ch_capacity ch then (Inl SendFull, s)
      else (Inr (), s\<lparr>rs_channels := (rs_channels s)[k := ch\<lparr>ch_queue := ch_queue ch @ [m]\<rparr>]\<rparr>))"

text \<open>The renderer's side: taking the next message, and going away.\<close>

definition channel_recv :: "channel_ref \<Rightarrow> 'g renderer_sessions \<Rightarrow> renderer_message option \<times> 'g renderer_sessions" where
  "channel_recv k s =
     (if k < length (rs_channels s) then
        (case ch_queue (rs_channels s ! k) of
           [] \<Rightarrow> (None, s)
         | m # ms \<Rightarrow> (Some m, s\<lparr>rs_channels := (rs_channels s)[k := (rs_channels s ! k)\<lparr>ch_queue := ms\<rparr>]\<rparr>))
      else (None, s))"

definition channel_drop :: "channel_ref \<Rightarrow> 'g renderer_sessions \<Rightarrow> 'g renderer_sessions" where
  "channel_drop k s =
     s\<lparr>rs_channels := (rs_channels s)[k := (rs_channels s ! k)\<lparr>ch_queue := [], ch_connected := False\<rparr>]\<rparr>"

section \<open>Tokens\<close>

definition hex_digit :: "nat \<Rightarrow> nat" where
  "hex_digit n = ustr ''0123456789abcdef'' ! n"

fun encode_hex :: "byte list \<Rightarrow> ustring" where
  "encode_hex [] = []"
| "encode_hex (b # bs) = hex_digit (unat (drop_bit 4 b)) # hex_digit (unat (and b 0x0f)) # encode_hex bs"

fun unique_token_loop :: "'g token_generator \<Rightarrow> nat \<Rightarrow> 'g renderer_sessions
    \<Rightarrow> (session_error + token) \<times> 'g renderer_sessions" where
  "unique_token_loop gen 0 s = (Inl CredentialCollision, s)"
| "unique_token_loop gen (Suc attempts) s =
     (case gen (rs_generator s) of
        (Inl e, g) \<Rightarrow> (Inl e, s\<lparr>rs_generator := g\<rparr>)
      | (Inr bytes, g) \<Rightarrow>
          (let t = encode_hex bytes; s' = s\<lparr>rs_generator := g\<rparr> in
           if fmlookup (rs_credentials s') t = None \<and> fmlookup (rs_retired s') t = None then (Inr t, s')
           else unique_token_loop gen attempts s'))"

definition unique_token :: "'g token_generator \<Rightarrow> 'g renderer_sessions \<Rightarrow> (session_error + token) \<times> 'g renderer_sessions" where
  "unique_token gen s = unique_token_loop gen TOKEN_GENERATION_ATTEMPTS s"

section \<open>Retiring credentials\<close>

definition retired_capacity :: "'g renderer_sessions \<Rightarrow> nat" where
  "retired_capacity s = sat_mul u64_max (max_sessions (rs_limits s)) 2"

fun evict_retired :: "nat \<Rightarrow> token list \<Rightarrow> (token, 'r) fmap \<Rightarrow> token list \<times> (token, 'r) fmap" where
  "evict_retired capacity [] m = ([], m)"
| "evict_retired capacity (t # ts) m =
     (if length (t # ts) > capacity then evict_retired capacity ts (fmdrop t m) else (t # ts, m))"

definition retire :: "token \<Rightarrow> window_display_id \<Rightarrow> retired_reason \<Rightarrow> 'g renderer_sessions \<Rightarrow> 'g renderer_sessions" where
  "retire t w r s =
     (let (ord, m) = evict_retired (retired_capacity s) (rs_retired_order s @ [t]) (fmupd t (w, r) (rs_retired s))
      in s\<lparr>rs_retired := m, rs_retired_order := ord\<rparr>)"

definition retire_pending :: "window_display_id \<Rightarrow> display_session \<Rightarrow> retired_reason
    \<Rightarrow> 'g renderer_sessions \<Rightarrow> 'g renderer_sessions" where
  "retire_pending w d r s =
     (case ds_pending_token d of
        None \<Rightarrow> s
      | Some t \<Rightarrow> retire t w r (s\<lparr>rs_credentials := fmdrop t (rs_credentials s)\<rparr>))"

definition expire_one :: "token \<times> pending_credential \<Rightarrow> 'g renderer_sessions \<Rightarrow> 'g renderer_sessions" where
  "expire_one tc s =
     (let (t, c) = tc;
          s1 = s\<lparr>rs_credentials := fmdrop t (rs_credentials s)\<rparr>;
          s2 = (case fmlookup (rs_displays s1) (pc_window_display_id c) of
                  Some d \<Rightarrow> if ds_generation d = pc_generation c
                            then s1\<lparr>rs_displays := fmdrop (pc_window_display_id c) (rs_displays s1)\<rparr> else s1
                | None \<Rightarrow> s1)
      in retire t (pc_window_display_id c) Stale s2)"

definition expired_tokens :: "token_order \<Rightarrow> instant \<Rightarrow> 'g renderer_sessions \<Rightarrow> (token \<times> pending_credential) list" where
  "expired_tokens order now s =
     List.map_filter (\<lambda>t. case fmlookup (rs_credentials s) t of
        Some c \<Rightarrow> if pc_expires_at c \<le> now then Some (t, c) else None | None \<Rightarrow> None) (order (rs_credentials s))"

definition expire_credentials :: "token_order \<Rightarrow> instant \<Rightarrow> 'g renderer_sessions \<Rightarrow> 'g renderer_sessions" where
  "expire_credentials order now s = fold expire_one (expired_tokens order now s) s"

definition retired_error :: "window_display_id \<Rightarrow> token \<Rightarrow> 'g renderer_sessions \<Rightarrow> session_error" where
  "retired_error w t s =
     (case fmlookup (rs_retired s) t of
        Some (expected, r) \<Rightarrow>
          if expected \<noteq> w then MismatchedCredential
          else (case r of Consumed \<Rightarrow> DuplicateRedemption | Stale \<Rightarrow> StaleCredential)
      | None \<Rightarrow> UnknownCredential)"

section \<open>Operations\<close>

definition sessions_len :: "'g renderer_sessions \<Rightarrow> nat" where
  "sessions_len s = fcard (fmdom (rs_displays s))"

definition remove_previous :: "window_display_id \<Rightarrow> 'g renderer_sessions \<Rightarrow> 'g renderer_sessions" where
  "remove_previous w s =
     (case fmlookup (rs_displays s) w of
        None \<Rightarrow> s
      | Some previous \<Rightarrow>
          let s1 = retire_pending w previous Stale (s\<lparr>rs_displays := fmdrop w (rs_displays s)\<rparr>)
          in (case ds_sender previous of
                None \<Rightarrow> s1 | Some k \<Rightarrow> snd (try_send k (TerminateMessage TermRecreated) s1)))"

definition register_launch :: "window_display_id \<Rightarrow> renderer_content \<Rightarrow> instant \<Rightarrow> token
    \<Rightarrow> 'g renderer_sessions \<Rightarrow> (session_error + renderer_launch) \<times> 'g renderer_sessions" where
  "register_launch w content now t s =
     (let g = rs_next_generation s in
      (Inr \<lparr>rl_window_display_id = w, rl_token = t, rl_generation = g\<rparr>,
       s\<lparr>rs_next_generation := max (g + 1) 1,
         rs_credentials := fmupd t \<lparr>pc_window_display_id = w, pc_generation = g,
                                    pc_expires_at = now + token_ttl (rs_limits s)\<rparr> (rs_credentials s),
         rs_displays := fmupd w \<lparr>ds_generation = g, ds_pending_token = Some t, ds_sender = None,
                                 ds_content = content\<rparr> (rs_displays s)\<rparr>))"

definition sessions_create :: "'g token_generator \<Rightarrow> token_order \<Rightarrow> window_display_id \<Rightarrow> renderer_content \<Rightarrow> instant
    \<Rightarrow> 'g renderer_sessions \<Rightarrow> (session_error + renderer_launch) \<times> 'g renderer_sessions" where
  "sessions_create gen order w content now s0 =
     (let s1 = expire_credentials order now s0 in
      if fmlookup (rs_displays s1) w = None \<and> sessions_len s1 \<ge> max_sessions (rs_limits s1)
      then (Inl CapacityExhausted, s1)
      else
        (case unique_token gen (remove_previous w s1) of
           (Inl e, s3) \<Rightarrow> (Inl e, s3)
         | (Inr t, s3) \<Rightarrow> register_launch w content now t s3))"

definition open_stream :: "window_display_id \<Rightarrow> token \<Rightarrow> pending_credential \<Rightarrow> display_session
    \<Rightarrow> 'g renderer_sessions \<Rightarrow> (session_error + renderer_stream) \<times> 'g renderer_sessions" where
  "open_stream w t c d s =
     (let k = length (rs_channels s);
          s1 = s\<lparr>rs_channels := rs_channels s @ [\<lparr>ch_capacity = channel_capacity (rs_limits s),
                                                     ch_queue = [], ch_connected = True\<rparr>]\<rparr>
      in case try_send k (InitialMessage (ds_content d)) s1 of
           (Inl _, s2) \<Rightarrow> (Inl ChannelFull, s2)
         | (Inr _, s2) \<Rightarrow>
             (Inr \<lparr>rst_generation = pc_generation c, rst_receiver = k\<rparr>,
              retire t w Consumed
                (s2\<lparr>rs_displays := fmupd w (d\<lparr>ds_pending_token := None, ds_sender := Some k\<rparr>) (rs_displays s2),
                    rs_credentials := fmdrop t (rs_credentials s2)\<rparr>)))"

definition sessions_redeem :: "token_order \<Rightarrow> window_display_id \<Rightarrow> token \<Rightarrow> instant
    \<Rightarrow> 'g renderer_sessions \<Rightarrow> (session_error + renderer_stream) \<times> 'g renderer_sessions" where
  "sessions_redeem order w t now s0 =
     (let s = expire_credentials order now s0 in
      case fmlookup (rs_credentials s) t of
        None \<Rightarrow> (Inl (retired_error w t s), s)
      | Some c \<Rightarrow>
          if pc_window_display_id c \<noteq> w then (Inl MismatchedCredential, s)
          else (case fmlookup (rs_displays s) w of
            None \<Rightarrow> (Inl StaleCredential, s)
          | Some d \<Rightarrow>
              if ds_generation d \<noteq> pc_generation c \<or> ds_pending_token d \<noteq> Some t then (Inl StaleCredential, s)
              else open_stream w t c d s))"

definition sessions_update :: "window_display_id \<Rightarrow> renderer_content
    \<Rightarrow> 'g renderer_sessions \<Rightarrow> (session_error + unit) \<times> 'g renderer_sessions" where
  "sessions_update w content s =
     (case fmlookup (rs_displays s) w of
        None \<Rightarrow> (Inl UnknownWindowDisplay, s)
      | Some d \<Rightarrow>
          let d1 = d\<lparr>ds_content := content\<rparr>;
              s1 = s\<lparr>rs_displays := fmupd w d1 (rs_displays s)\<rparr>
          in (case ds_sender d1 of
                None \<Rightarrow> (Inr (), s1)
              | Some k \<Rightarrow>
                  (case try_send k (UpdateMessage content) s1 of
                     (Inr _, s2) \<Rightarrow> (Inr (), s2)
                   | (Inl SendFull, s2) \<Rightarrow> (Inl ChannelFull, s2)
                   | (Inl SendDisconnected, s2) \<Rightarrow>
                       (Inl RendererDisconnected,
                        s2\<lparr>rs_displays := fmupd w (d1\<lparr>ds_sender := None\<rparr>) (rs_displays s2)\<rparr>))))"

definition sessions_terminate :: "window_display_id \<Rightarrow> renderer_termination
    \<Rightarrow> 'g renderer_sessions \<Rightarrow> (session_error + unit) \<times> 'g renderer_sessions" where
  "sessions_terminate w reason s =
     (case fmlookup (rs_displays s) w of
        None \<Rightarrow> (Inl UnknownWindowDisplay, s)
      | Some d \<Rightarrow>
          let s1 = retire_pending w d Stale (s\<lparr>rs_displays := fmdrop w (rs_displays s)\<rparr>)
          in (case ds_sender d of
                None \<Rightarrow> (Inr (), s1)
              | Some k \<Rightarrow>
                  (case try_send k (TerminateMessage reason) s1 of
                     (Inl SendFull, s2) \<Rightarrow> (Inl ChannelFull, s2)
                   | (_, s2) \<Rightarrow> (Inr (), s2))))"

definition is_current_generation :: "window_display_id \<Rightarrow> 64 word \<Rightarrow> 'g renderer_sessions \<Rightarrow> bool" where
  "is_current_generation w g s =
     (case fmlookup (rs_displays s) w of None \<Rightarrow> False | Some d \<Rightarrow> ds_generation d = g)"

definition renderer_exited :: "window_display_id \<Rightarrow> 64 word \<Rightarrow> renderer_exit
    \<Rightarrow> 'g renderer_sessions \<Rightarrow> renderer_outcome \<times> 'g renderer_sessions" where
  "renderer_exited w g e s =
     (if \<not> is_current_generation w g s then (StaleExit, s)
      else
        (case e of ExitSuccessful \<Rightarrow> Stopped w | _ \<Rightarrow> Crashed w e,
         case fmlookup (rs_displays s) w of
           None \<Rightarrow> s
         | Some d \<Rightarrow> retire_pending w d Stale (s\<lparr>rs_displays := fmdrop w (rs_displays s)\<rparr>)))"

end
