(* ===== verification/Renderer_Sessions_Props.thy ===== *)
theory Renderer_Sessions_Props
  imports Renderer_Sessions "HOL-Library.List_Lexorder"
begin

text \<open>
  The invariant of the renderer sessions, its preservation by every operation, and what redeeming a
  launch credential guarantees.
\<close>

section \<open>The invariant\<close>

text \<open>Credentials and the sessions that wait for their renderer point to each other.\<close>

definition wf_credentials :: "'g renderer_sessions \<Rightarrow> bool" where
  "wf_credentials s \<longleftrightarrow>
     (\<forall>t c. fmlookup (rs_credentials s) t = Some c \<longrightarrow>
        fmlookup (rs_retired s) t = None \<and>
        (\<exists>d. fmlookup (rs_displays s) (pc_window_display_id c) = Some d
           \<and> ds_pending_token d = Some t \<and> ds_generation d = pc_generation c))
     \<and> (\<forall>w d t. fmlookup (rs_displays s) w = Some d \<longrightarrow> ds_pending_token d = Some t \<longrightarrow>
          (\<exists>c. fmlookup (rs_credentials s) t = Some c \<and> pc_window_display_id c = w))"

definition wf_retired :: "'g renderer_sessions \<Rightarrow> bool" where
  "wf_retired s \<longleftrightarrow> distinct (rs_retired_order s) \<and> length (rs_retired_order s) \<le> retired_capacity s
     \<and> (\<forall>t. t \<in> set (rs_retired_order s) \<longleftrightarrow> fmlookup (rs_retired s) t \<noteq> None)"

text \<open>A session that has a stream waits for no renderer, and no two sessions share a stream.\<close>

definition wf_streams :: "'g renderer_sessions \<Rightarrow> bool" where
  "wf_streams s \<longleftrightarrow>
     (\<forall>w d k. fmlookup (rs_displays s) w = Some d \<longrightarrow> ds_sender d = Some k \<longrightarrow>
        ds_pending_token d = None \<and> k < length (rs_channels s)
        \<and> (\<forall>w' d'. fmlookup (rs_displays s) w' = Some d' \<longrightarrow> ds_sender d' = Some k \<longrightarrow> w' = w))
     \<and> (\<forall>ch \<in> set (rs_channels s). length (ch_queue ch) \<le> ch_capacity ch)"

definition wf_limits :: "session_limits \<Rightarrow> bool" where
  "wf_limits l \<longleftrightarrow> 0 < max_sessions l \<and> 0 < channel_capacity l \<and> 0 < token_ttl l"

definition wf_sessions :: "'g renderer_sessions \<Rightarrow> bool" where
  "wf_sessions s \<longleftrightarrow> wf_limits (rs_limits s) \<and> sessions_len s \<le> max_sessions (rs_limits s)
     \<and> wf_credentials s \<and> wf_retired s \<and> wf_streams s"

lemmas wf_sessions_defs = wf_sessions_def wf_credentials_def wf_retired_def wf_streams_def

definition order_ok :: "token_order \<Rightarrow> bool" where
  "order_ok order \<longleftrightarrow> (\<forall>m. distinct (order m) \<and> set (order m) = fset (fmdom m))"

lemma credential_session:
  assumes "wf_credentials s" and "fmlookup (rs_credentials s) t = Some c"
  obtains d where "fmlookup (rs_displays s) (pc_window_display_id c) = Some d" "ds_pending_token d = Some t"
    "ds_generation d = pc_generation c" "fmlookup (rs_retired s) t = None"
  using assms unfolding wf_credentials_def by blast

lemma session_credential:
  assumes "wf_credentials s" and "fmlookup (rs_displays s) w = Some d" and "ds_pending_token d = Some t"
  obtains c where "fmlookup (rs_credentials s) t = Some c" "pc_window_display_id c = w"
  using assms unfolding wf_credentials_def by blast

lemma stream_session:
  assumes "wf_streams s" and "fmlookup (rs_displays s) w = Some d" and "ds_sender d = Some k"
  shows "ds_pending_token d = None" and "k < length (rs_channels s)"
    and "fmlookup (rs_displays s) w' = Some d' \<Longrightarrow> ds_sender d' = Some k \<Longrightarrow> w' = w"
  using assms unfolding wf_streams_def by blast+

lemma wf_credentialsI:
  assumes "\<And>t c. fmlookup (rs_credentials s) t = Some c \<Longrightarrow> fmlookup (rs_retired s) t = None \<and>
        (\<exists>d. fmlookup (rs_displays s) (pc_window_display_id c) = Some d
           \<and> ds_pending_token d = Some t \<and> ds_generation d = pc_generation c)"
    and "\<And>w d t. fmlookup (rs_displays s) w = Some d \<Longrightarrow> ds_pending_token d = Some t \<Longrightarrow>
          \<exists>c. fmlookup (rs_credentials s) t = Some c \<and> pc_window_display_id c = w"
  shows "wf_credentials s"
  using assms unfolding wf_credentials_def by blast

section \<open>Retiring\<close>

lemma evict_retired_eq:
  "evict_retired cap ts m =
     (drop (length ts - cap) ts, fold fmdrop (take (length ts - cap) ts) m)"
  by (induction cap ts m rule: evict_retired.induct) (auto simp: Suc_diff_le not_less)

lemma lookup_fold_drop: "fmlookup (fold fmdrop ts m) t = (if t \<in> set ts then None else fmlookup m t)"
  by (induction ts arbitrary: m) auto

lemma retire_frame [simp]:
  "rs_generator (retire t w r s) = rs_generator s" "rs_limits (retire t w r s) = rs_limits s"
  "rs_displays (retire t w r s) = rs_displays s" "rs_credentials (retire t w r s) = rs_credentials s"
  "rs_next_generation (retire t w r s) = rs_next_generation s" "rs_channels (retire t w r s) = rs_channels s"
  by (simp_all add: retire_def split_beta Let_def)

lemma retire_order: "rs_retired_order (retire t w r s) =
    drop (length (rs_retired_order s) + 1 - retired_capacity s) (rs_retired_order s @ [t])"
  by (simp add: retire_def evict_retired_eq)

lemma retire_lookup: "fmlookup (rs_retired (retire t w r s)) x =
    (if x \<in> set (take (length (rs_retired_order s) + 1 - retired_capacity s) (rs_retired_order s @ [t])) then None
     else if x = t then Some (w, r) else fmlookup (rs_retired s) x)"
  by (simp add: retire_def evict_retired_eq lookup_fold_drop)

lemma retired_capacity_pos: "wf_limits (rs_limits s) \<Longrightarrow> 1 \<le> retired_capacity s"
  by (auto simp: retired_capacity_def wf_limits_def sat_mul_def)

lemma retire_lookup_subset: "fmlookup (rs_retired (retire t w r s)) x \<noteq> None \<Longrightarrow> x = t \<or> fmlookup (rs_retired s) x \<noteq> None"
  by (auto simp: retire_lookup split: if_splits)

lemma retire_wf_retired:
  assumes "wf_retired s" and "fmlookup (rs_retired s) t = None"
  shows "wf_retired (retire t w r s)"
proof -
  let ?o = "rs_retired_order s @ [t]" and ?n = "length (rs_retired_order s) + 1 - retired_capacity s"
  have d: "distinct ?o" using assms by (auto simp: wf_retired_def)
  have "set (take ?n ?o) \<inter> set (drop ?n ?o) = {}" using d
    by (metis append_take_drop_id distinct_append)
  moreover have "set (take ?n ?o) \<union> set (drop ?n ?o) = set ?o"
    by (metis append_take_drop_id set_append)
  moreover have "set (rs_retired_order s) = {x. fmlookup (rs_retired s) x \<noteq> None}"
    using assms(1) by (auto simp: wf_retired_def)
  ultimately have "x \<in> set (drop ?n ?o) \<longleftrightarrow> fmlookup (rs_retired (retire t w r s)) x \<noteq> None" for x
    unfolding retire_lookup by auto
  moreover have "retired_capacity (retire t w r s) = retired_capacity s" by (simp add: retired_capacity_def)
  ultimately show ?thesis using d by (simp add: wf_retired_def retire_order del: drop_append)
qed

lemma retire_remembers:
  assumes "wf_retired s" and "fmlookup (rs_retired s) t = None" and "wf_limits (rs_limits s)"
  shows "fmlookup (rs_retired (retire t w r s)) t = Some (w, r)"
proof -
  let ?n = "length (rs_retired_order s) + 1 - retired_capacity s"
  have "?n \<le> length (rs_retired_order s)" using retired_capacity_pos [OF assms(3)] by simp
  then have "set (take ?n (rs_retired_order s @ [t])) \<subseteq> set (rs_retired_order s)"
    by (simp add: set_take_subset)
  moreover have "t \<notin> set (rs_retired_order s)" using assms(1,2) by (simp add: wf_retired_def)
  ultimately show ?thesis by (auto simp: retire_lookup)
qed

section \<open>Removing a session that waits\<close>

text \<open>Removing a session together with its credential, as every operation that ends one does.\<close>

definition end_session :: "window_display_id \<Rightarrow> display_session \<Rightarrow> 'g renderer_sessions \<Rightarrow> 'g renderer_sessions" where
  "end_session w d s = retire_pending w d Stale (s\<lparr>rs_displays := fmdrop w (rs_displays s)\<rparr>)"

lemma sessions_len_drop: "sessions_len (s\<lparr>rs_displays := fmdrop w m\<rparr>) \<le> fcard (fmdom m)"
  by (simp add: sessions_len_def fcard_mono fminus_fsubset_conv fsubset_finsertI2)

lemma sessions_len_retire [simp]: "sessions_len (retire t w r s) = sessions_len s"
  by (simp add: sessions_len_def)

lemma end_session_frame [simp]:
  "rs_generator (end_session w d s) = rs_generator s" "rs_limits (end_session w d s) = rs_limits s"
  "rs_displays (end_session w d s) = fmdrop w (rs_displays s)"
  "rs_next_generation (end_session w d s) = rs_next_generation s" "rs_channels (end_session w d s) = rs_channels s"
  "rs_credentials (end_session w d s) =
     (case ds_pending_token d of None \<Rightarrow> rs_credentials s | Some t \<Rightarrow> fmdrop t (rs_credentials s))"
  by (auto simp: end_session_def retire_pending_def split: option.splits)

lemma end_session_wf:
  assumes "wf_sessions s" and "fmlookup (rs_displays s) w = Some d"
  shows "wf_sessions (end_session w d s)"
proof -
  have len: "sessions_len (end_session w d s) \<le> max_sessions (rs_limits s)"
    using sessions_len_drop [where s = s and w = w and m = "rs_displays s"] assms(1)
    by (simp add: sessions_len_def wf_sessions_def)
  have streams: "wf_streams (end_session w d s)"
    using assms(1) by (simp add: wf_sessions_def wf_streams_def)
  have creds: "wf_credentials (end_session w d s)" and retired: "wf_retired (end_session w d s)"
  proof -
    consider (none) "ds_pending_token d = None" | (some) t where "ds_pending_token d = Some t" by blast
    then have "wf_credentials (end_session w d s) \<and> wf_retired (end_session w d s)"
    proof cases
      case none
      with assms show ?thesis
        by (auto simp: end_session_def retire_pending_def wf_sessions_defs retired_capacity_def) force+
    next
      case some
      have wfc: "wf_credentials s" using assms(1) by (simp add: wf_sessions_def)
      obtain c where c: "fmlookup (rs_credentials s) t = Some c" "pc_window_display_id c = w"
        "fmlookup (rs_retired s) t = None"
        by (metis session_credential [OF wfc assms(2) some] credential_session [OF wfc])
      let ?s = "s\<lparr>rs_displays := fmdrop w (rs_displays s), rs_credentials := fmdrop t (rs_credentials s)\<rparr>"
      have e: "end_session w d s = retire t w Stale ?s"
        using some by (simp add: end_session_def retire_pending_def)
      have r: "wf_retired (retire t w Stale ?s)"
        by (rule retire_wf_retired) (use assms c in \<open>auto simp: wf_sessions_def wf_retired_def retired_capacity_def\<close>)
      have keep: "fmlookup (rs_retired (retire t w Stale ?s)) x = None"
        if "x \<noteq> t" "fmlookup (rs_retired s) x = None" for x
        using that by (simp add: retire_lookup)
      have "wf_credentials (retire t w Stale ?s)"
      proof (rule wf_credentialsI)
        fix x c'
        assume "fmlookup (rs_credentials (retire t w Stale ?s)) x = Some c'"
        then have x: "fmlookup (rs_credentials s) x = Some c'" "x \<noteq> t" by (simp_all split: if_splits)
        from credential_session [OF wfc x(1)] obtain d' where d':
          "fmlookup (rs_displays s) (pc_window_display_id c') = Some d'" "ds_pending_token d' = Some x"
          "ds_generation d' = pc_generation c'" "fmlookup (rs_retired s) x = None" .
        then have "pc_window_display_id c' \<noteq> w" using assms(2) some x(2) by auto
        then show "fmlookup (rs_retired (retire t w Stale ?s)) x = None \<and>
          (\<exists>d. fmlookup (rs_displays (retire t w Stale ?s)) (pc_window_display_id c') = Some d
             \<and> ds_pending_token d = Some x \<and> ds_generation d = pc_generation c')"
          using d' x(2) keep by simp
      next
        fix w' d' x
        assume "fmlookup (rs_displays (retire t w Stale ?s)) w' = Some d'" and p: "ds_pending_token d' = Some x"
        then have w': "fmlookup (rs_displays s) w' = Some d'" "w' \<noteq> w" by (simp_all split: if_splits)
        from session_credential [OF wfc w'(1) p] obtain c' where c': "fmlookup (rs_credentials s) x = Some c'"
          "pc_window_display_id c' = w'" .
        then have "x \<noteq> t" using c(1,2) w'(2) by auto
        with c' show "\<exists>c. fmlookup (rs_credentials (retire t w Stale ?s)) x = Some c \<and> pc_window_display_id c = w'"
          by simp
      qed
      with r e show ?thesis by simp
    qed
    then show "wf_credentials (end_session w d s)" "wf_retired (end_session w d s)" by simp_all
  qed
  show ?thesis using assms(1) len streams creds retired by (simp add: wf_sessions_def)
qed

section \<open>Expiry\<close>

lemma expire_one_eq:
  assumes "wf_sessions s" and "fmlookup (rs_credentials s) t = Some c"
  obtains d where "fmlookup (rs_displays s) (pc_window_display_id c) = Some d" "ds_pending_token d = Some t"
    "expire_one (t, c) s = end_session (pc_window_display_id c) d s"
proof -
  have wfc: "wf_credentials s" using assms(1) by (simp add: wf_sessions_def)
  from credential_session [OF wfc assms(2)] obtain d where d:
    "fmlookup (rs_displays s) (pc_window_display_id c) = Some d" "ds_pending_token d = Some t"
    "ds_generation d = pc_generation c" .
  then have "expire_one (t, c) s = end_session (pc_window_display_id c) d s"
    by (cases s) (simp add: expire_one_def end_session_def retire_pending_def Let_def)
  with d that show thesis by blast
qed

lemma expire_fold:
  assumes "wf_sessions s" and "distinct (map fst tcs)"
    and "\<forall>(t, c) \<in> set tcs. fmlookup (rs_credentials s) t = Some c"
  shows "wf_sessions (fold expire_one tcs s)
    \<and> (\<forall>t. fmlookup (rs_credentials (fold expire_one tcs s)) t =
          (if t \<in> fst ` set tcs then None else fmlookup (rs_credentials s) t))
    \<and> (\<forall>w. fmlookup (rs_displays (fold expire_one tcs s)) w =
          (if \<exists>t c. (t, c) \<in> set tcs \<and> pc_window_display_id c = w then None else fmlookup (rs_displays s) w))
    \<and> rs_limits (fold expire_one tcs s) = rs_limits s \<and> rs_channels (fold expire_one tcs s) = rs_channels s
    \<and> rs_generator (fold expire_one tcs s) = rs_generator s
    \<and> rs_next_generation (fold expire_one tcs s) = rs_next_generation s"
  using assms
proof (induction tcs arbitrary: s)
  case (Cons tc tcs)
  obtain t c where tc: "tc = (t, c)" by force
  with Cons.prems have cred: "fmlookup (rs_credentials s) t = Some c" by simp
  obtain d where d: "fmlookup (rs_displays s) (pc_window_display_id c) = Some d" "ds_pending_token d = Some t"
    "expire_one (t, c) s = end_session (pc_window_display_id c) d s"
    using expire_one_eq [OF Cons.prems(1) cred] .
  let ?s = "expire_one (t, c) s"
  have wf: "wf_sessions ?s" using end_session_wf [OF Cons.prems(1) d(1)] d(3) by simp
  have rest: "\<forall>(t', c') \<in> set tcs. fmlookup (rs_credentials ?s) t' = Some c'"
    using Cons.prems(2,3) tc d by force
  have "distinct (map fst tcs)" using Cons.prems(2) by simp
  from Cons.IH [OF wf this rest] show ?case
    by (auto simp: tc d(2,3))
qed simp

lemma in_map_filter: "y \<in> set (List.map_filter f xs) \<longleftrightarrow> (\<exists>x \<in> set xs. f x = Some y)"
  by (force simp: List.map_filter_def)

lemma map_filter_fst_distinct:
  "distinct xs \<Longrightarrow> (\<And>x y. f x = Some y \<Longrightarrow> fst y = x) \<Longrightarrow> distinct (map fst (List.map_filter f xs))"
proof (induction xs)
  case (Cons x xs)
  have "fst y \<in> set xs" if y: "y \<in> set (List.map_filter f xs)" for y
  proof -
    obtain x' where "x' \<in> set xs" "f x' = Some y" using y by (auto simp: in_map_filter)
    with Cons.prems(2) show ?thesis by metis
  qed
  with Cons show ?case by (auto simp: List.map_filter_def split: option.splits)
qed (simp add: List.map_filter_def)

definition expired :: "instant \<Rightarrow> pending_credential \<Rightarrow> bool" where
  "expired now c \<longleftrightarrow> pc_expires_at c \<le> now"

lemma expire_credentials_correct:
  fixes now :: instant
  assumes "wf_sessions s" and "order_ok order"
  defines "s' \<equiv> expire_credentials order now s"
  shows "wf_sessions s'"
    and "fmlookup (rs_credentials s') t = Some c \<longleftrightarrow> fmlookup (rs_credentials s) t = Some c \<and> \<not> expired now c"
    and "fmlookup (rs_displays s') w = Some d \<longleftrightarrow> fmlookup (rs_displays s) w = Some d
       \<and> (\<forall>t c. ds_pending_token d = Some t \<longrightarrow> fmlookup (rs_credentials s) t = Some c \<longrightarrow> \<not> expired now c)"
    and "rs_limits s' = rs_limits s" "rs_channels s' = rs_channels s" "rs_generator s' = rs_generator s"
      "rs_next_generation s' = rs_next_generation s"
proof -
  let ?tcs = "expired_tokens order now s"
  have in_tcs: "(t, c) \<in> set ?tcs \<longleftrightarrow> fmlookup (rs_credentials s) t = Some c \<and> expired now c" for t c
  proof -
    have "x \<in> set (order (rs_credentials s)) \<longleftrightarrow> fmlookup (rs_credentials s) x \<noteq> None" for x
      using assms(2) by (auto simp: order_ok_def fmlookup_dom_iff)
    then show ?thesis
      unfolding expired_tokens_def in_map_filter expired_def
      by (fastforce split: option.splits if_splits)
  qed
  have dist: "distinct (map fst ?tcs)"
    unfolding expired_tokens_def using assms(2)
    by (intro map_filter_fst_distinct) (auto simp: order_ok_def split: option.splits if_splits)
  have all: "\<forall>(t, c) \<in> set ?tcs. fmlookup (rs_credentials s) t = Some c" using in_tcs by auto
  note f = expire_fold [OF assms(1) dist all, folded expire_credentials_def, folded s'_def]
  from f show "wf_sessions s'" "rs_limits s' = rs_limits s" "rs_channels s' = rs_channels s"
    "rs_generator s' = rs_generator s" "rs_next_generation s' = rs_next_generation s" by simp_all
  have "t \<in> fst ` set ?tcs \<longleftrightarrow> (\<exists>c. fmlookup (rs_credentials s) t = Some c \<and> expired now c)"
    using in_tcs by force
  with f show "fmlookup (rs_credentials s') t = Some c \<longleftrightarrow> fmlookup (rs_credentials s) t = Some c \<and> \<not> expired now c"
    by auto
  have wfc: "wf_credentials s" using assms(1) by (simp add: wf_sessions_def)
  have gone: "(\<exists>t c. (t, c) \<in> set ?tcs \<and> pc_window_display_id c = w) \<longleftrightarrow>
      (\<exists>t c. ds_pending_token d = Some t \<and> fmlookup (rs_credentials s) t = Some c \<and> expired now c)"
    if d: "fmlookup (rs_displays s) w = Some d" for d
  proof
    assume "\<exists>t c. (t, c) \<in> set ?tcs \<and> pc_window_display_id c = w"
    then obtain t c where tc: "fmlookup (rs_credentials s) t = Some c" "expired now c" "pc_window_display_id c = w"
      using in_tcs by blast
    with credential_session [OF wfc tc(1)] d show "\<exists>t c. ds_pending_token d = Some t \<and> fmlookup (rs_credentials s) t = Some c \<and> expired now c"
      by (metis option.inject)
  next
    assume "\<exists>t c. ds_pending_token d = Some t \<and> fmlookup (rs_credentials s) t = Some c \<and> expired now c"
    then obtain t c where tc: "ds_pending_token d = Some t" "fmlookup (rs_credentials s) t = Some c" "expired now c"
      by blast
    with session_credential [OF wfc d tc(1)] in_tcs show "\<exists>t c. (t, c) \<in> set ?tcs \<and> pc_window_display_id c = w"
      by (metis option.inject)
  qed
  have lookup: "fmlookup (rs_displays s') w =
      (if \<exists>t c. (t, c) \<in> set ?tcs \<and> pc_window_display_id c = w then None else fmlookup (rs_displays s) w)"
    using f by blast
  show "fmlookup (rs_displays s') w = Some d \<longleftrightarrow> fmlookup (rs_displays s) w = Some d
       \<and> (\<forall>t c. ds_pending_token d = Some t \<longrightarrow> fmlookup (rs_credentials s) t = Some c \<longrightarrow> \<not> expired now c)"
  proof (cases "fmlookup (rs_displays s) w = Some d")
    case True
    with lookup gone [OF True] show ?thesis by (simp split: if_splits)
  qed (use lookup in \<open>simp split: if_splits\<close>)
qed

section \<open>Channels\<close>

lemma try_send_frame:
  assumes "try_send k m s = (r, s')"
  shows "rs_generator s' = rs_generator s" "rs_limits s' = rs_limits s" "rs_displays s' = rs_displays s"
    "rs_credentials s' = rs_credentials s" "rs_retired s' = rs_retired s"
    "rs_retired_order s' = rs_retired_order s" "rs_next_generation s' = rs_next_generation s"
    "length (rs_channels s') = length (rs_channels s)"
  using assms by (auto simp: try_send_def Let_def split: if_splits)

definition queues_ok :: "'g renderer_sessions \<Rightarrow> bool" where
  "queues_ok s \<longleftrightarrow> (\<forall>ch \<in> set (rs_channels s). length (ch_queue ch) \<le> ch_capacity ch)"

lemma queues_update:
  "queues_ok s \<Longrightarrow> length (ch_queue ch) \<le> ch_capacity ch \<Longrightarrow> queues_ok (s\<lparr>rs_channels := (rs_channels s)[k := ch]\<rparr>)"
  using set_update_subset_insert [of "rs_channels s" k ch] by (auto simp: queues_ok_def)

lemma try_send_queues:
  assumes "try_send k m s = (r, s')" and "queues_ok s"
  shows "queues_ok s'"
  using assms by (auto simp: try_send_def Let_def split: if_splits intro!: queues_update)

lemma wf_streams_queues: "wf_streams s \<Longrightarrow> queues_ok s"
  by (simp add: wf_streams_def queues_ok_def)

text \<open>Only the store of channels differs, and it still has all of them.\<close>

lemma same_but_channels:
  assumes "wf_sessions s" and "rs_limits s' = rs_limits s" "rs_displays s' = rs_displays s"
    "rs_credentials s' = rs_credentials s" "rs_retired s' = rs_retired s" "rs_retired_order s' = rs_retired_order s"
    and "length (rs_channels s) \<le> length (rs_channels s')" and "queues_ok s'"
  shows "wf_sessions s'"
proof -
  have "wf_credentials s'" using assms(1,3-5) by (simp add: wf_sessions_def wf_credentials_def)
  moreover have "wf_retired s'"
    using assms(1,2,5,6) by (simp add: wf_sessions_def wf_retired_def retired_capacity_def)
  moreover have "wf_streams s'"
    using assms(1,3,7,8) by (fastforce simp: wf_sessions_def wf_streams_def queues_ok_def)
  ultimately show ?thesis using assms(1,2,3) by (simp add: wf_sessions_def sessions_len_def)
qed

lemma try_send_wf: "try_send k m s = (r, s') \<Longrightarrow> wf_sessions s \<Longrightarrow> wf_sessions s'"
  using try_send_frame [of k m s r s'] try_send_queues [of k m s r s']
  by (intro same_but_channels [of s s']) (auto simp: wf_sessions_def dest: wf_streams_queues)

lemma try_send_snd_wf: "wf_sessions s \<Longrightarrow> wf_sessions (snd (try_send k m s))"
  using try_send_wf by (metis prod.collapse)

lemma channel_recv_wf: "channel_recv k s = (m, s') \<Longrightarrow> wf_sessions s \<Longrightarrow> wf_sessions s'"
proof -
  assume r: "channel_recv k s = (m, s')" and wf: "wf_sessions s"
  have q: "queues_ok s" using wf by (simp add: wf_sessions_def wf_streams_queues)
  then have "length (ch_queue (rs_channels s ! k)) \<le> ch_capacity (rs_channels s ! k)" if "k < length (rs_channels s)"
    using that by (simp add: queues_ok_def)
  then have "queues_ok s'" using r q by (auto simp: channel_recv_def split: if_splits list.splits intro!: queues_update)
  with wf show ?thesis using r
    by (intro same_but_channels [of s s']) (auto simp: channel_recv_def split: if_splits list.splits)
qed

lemma channel_drop_wf: "wf_sessions s \<Longrightarrow> wf_sessions (channel_drop k s)"
  by (rule same_but_channels [of s])
    (auto simp: channel_drop_def wf_sessions_def intro!: queues_update dest: wf_streams_queues)

section \<open>Every operation keeps the invariant\<close>

lemma replace_session_wf:
  assumes "wf_sessions s" and "fmlookup (rs_displays s) w = Some d"
    and "ds_generation d' = ds_generation d" "ds_pending_token d' = ds_pending_token d"
    and "ds_sender d' = ds_sender d \<or> ds_sender d' = None"
  shows "wf_sessions (s\<lparr>rs_displays := fmupd w d' (rs_displays s)\<rparr>)"
proof -
  have in_dom: "w |\<in>| fmdom (rs_displays s)" using assms(2) by (simp add: fmdomI)
  have "finsert w (fmdom (rs_displays s)) = fmdom (rs_displays s)" using in_dom by auto
  then have len: "sessions_len (s\<lparr>rs_displays := fmupd w d' (rs_displays s)\<rparr>) = sessions_len s"
    by (simp add: sessions_len_def)
  have wfc: "wf_credentials s" using assms(1) by (simp add: wf_sessions_def)
  have wfs: "wf_streams s" using assms(1) by (simp add: wf_sessions_def)
  have keep: "\<exists>x. fmlookup (rs_displays s) v = Some x \<and> ds_sender x = Some k"
    if "fmlookup (fmupd w d' (rs_displays s)) v = Some e" "ds_sender e = Some k" for v e k
    using that assms(2,5) by (cases "v = w") auto
  have "wf_credentials (s\<lparr>rs_displays := fmupd w d' (rs_displays s)\<rparr>)"
  proof (rule wf_credentialsI, goal_cases)
    case (1 t c)
    then have c: "fmlookup (rs_credentials s) t = Some c" by simp
    show ?case using credential_session [OF wfc c] assms(2-4) by (simp, metis option.inject)
  next
    case (2 v e t)
    then show ?case using session_credential [OF wfc] assms(2,4) by (simp split: if_splits) metis+
  qed
  moreover have "wf_streams (s\<lparr>rs_displays := fmupd w d' (rs_displays s)\<rparr>)"
    unfolding wf_streams_def
  proof (intro conjI allI impI ballI, goal_cases)
    case (1 v e k)
    then obtain x where "fmlookup (rs_displays s) v = Some x" "ds_sender x = Some k" "ds_pending_token e = ds_pending_token x"
      using assms(2,4,5) by (auto split: if_splits)
    then show ?case using stream_session [OF wfs] by simp
  next
    case (2 v e k)
    then obtain x where "fmlookup (rs_displays s) v = Some x" "ds_sender x = Some k"
      using assms(2,5) by (auto split: if_splits)
    then show ?case using stream_session [OF wfs] by simp
  next
    case (3 v e k v' e')
    then obtain x y where "fmlookup (rs_displays s) v = Some x" "ds_sender x = Some k"
      "fmlookup (rs_displays s) v' = Some y" "ds_sender y = Some k"
      using keep [of v e k] keep [of v' e' k] by simp metis
    then show ?case using stream_session(3) [OF wfs] by metis
  next
    case (4 ch)
    then show ?case using wfs by (simp add: wf_streams_def)
  qed
  ultimately show ?thesis using assms(1) len by (simp add: wf_sessions_def wf_retired_def retired_capacity_def)
qed

lemma sessions_update_wf: "sessions_update w content s = (r, s') \<Longrightarrow> wf_sessions s \<Longrightarrow> wf_sessions s'"
proof (cases "fmlookup (rs_displays s) w")
  case (Some d)
  assume u: "sessions_update w content s = (r, s')" and wf: "wf_sessions s"
  let ?d = "d\<lparr>ds_content := content\<rparr>"
  let ?s = "s\<lparr>rs_displays := fmupd w ?d (rs_displays s)\<rparr>"
  have wf1: "wf_sessions ?s" by (rule replace_session_wf [OF wf Some]) simp_all
  show ?thesis
  proof (cases "ds_sender d")
    case None
    with u Some wf1 show ?thesis by (auto simp: sessions_update_def Let_def)
  next
    case (Some k)
    obtain r2 s2 where t: "try_send k (UpdateMessage content) ?s = (r2, s2)" by force
    have wf2: "wf_sessions s2" using try_send_wf [OF t wf1] .
    have "wf_sessions (s2\<lparr>rs_displays := fmupd w (?d\<lparr>ds_sender := None\<rparr>) (rs_displays s2)\<rparr>)"
      by (rule replace_session_wf [OF wf2, where d = ?d]) (simp_all add: try_send_frame [OF t])
    with wf2 t u Some \<open>fmlookup (rs_displays s) w = Some d\<close> show ?thesis
      by (auto simp: sessions_update_def Let_def split: sum.splits try_send_error.splits)
  qed
qed (auto simp: sessions_update_def)

lemma sessions_terminate_wf: "sessions_terminate w reason s = (r, s') \<Longrightarrow> wf_sessions s \<Longrightarrow> wf_sessions s'"
proof (cases "fmlookup (rs_displays s) w")
  case (Some d)
  assume t: "sessions_terminate w reason s = (r, s')" and wf: "wf_sessions s"
  have wf1: "wf_sessions (end_session w d s)" by (rule end_session_wf [OF wf Some])
  show ?thesis
  proof (cases "ds_sender d")
    case None
    with t Some wf1 show ?thesis by (auto simp: sessions_terminate_def Let_def end_session_def)
  next
    case (Some k)
    obtain r2 s2 where ts: "try_send k (TerminateMessage reason) (end_session w d s) = (r2, s2)" by force
    have "s' = s2"
      using t ts Some \<open>fmlookup (rs_displays s) w = Some d\<close>
      by (auto simp: sessions_terminate_def Let_def end_session_def split: sum.splits try_send_error.splits)
    with try_send_wf [OF ts wf1] show ?thesis by simp
  qed
qed (auto simp: sessions_terminate_def)

lemma renderer_exited_wf: "renderer_exited w g e s = (r, s') \<Longrightarrow> wf_sessions s \<Longrightarrow> wf_sessions s'"
  using end_session_wf [of s w]
  by (auto simp: renderer_exited_def end_session_def split: if_splits option.splits)

lemma remove_previous_eq:
  assumes "fmlookup (rs_displays s) w = Some d"
  shows "remove_previous w s =
    (case ds_sender d of None \<Rightarrow> end_session w d s
     | Some k \<Rightarrow> snd (try_send k (TerminateMessage TermRecreated) (end_session w d s)))"
  using assms by (simp add: remove_previous_def end_session_def Let_def split: option.split)

lemma remove_previous_correct:
  assumes "wf_sessions s"
  shows "wf_sessions (remove_previous w s)"
    and "rs_displays (remove_previous w s) = fmdrop w (rs_displays s)"
    and "rs_limits (remove_previous w s) = rs_limits s"
proof -
  have "wf_sessions (remove_previous w s) \<and> rs_displays (remove_previous w s) = fmdrop w (rs_displays s)
      \<and> rs_limits (remove_previous w s) = rs_limits s"
  proof (cases "fmlookup (rs_displays s) w")
    case None
    then have "fmdrop w (rs_displays s) = rs_displays s" by (intro fmap_ext) auto
    with None assms show ?thesis by (simp add: remove_previous_def)
  next
    case (Some d)
    have wf: "wf_sessions (end_session w d s)" by (rule end_session_wf [OF assms Some])
    obtain r s' where t: "try_send (the (ds_sender d)) (TerminateMessage TermRecreated) (end_session w d s) = (r, s')"
      by force
    show ?thesis
      using wf try_send_frame [OF t] try_send_wf [OF t wf] t
      by (auto simp: remove_previous_eq [OF Some] split: option.splits)
  qed
  then show "wf_sessions (remove_previous w s)" "rs_displays (remove_previous w s) = fmdrop w (rs_displays s)"
    "rs_limits (remove_previous w s) = rs_limits s" by simp_all
qed

lemma unique_token_correct:
  assumes "unique_token_loop gen n s = (r, s')"
  shows "rs_limits s' = rs_limits s" "rs_displays s' = rs_displays s" "rs_credentials s' = rs_credentials s"
    "rs_retired s' = rs_retired s" "rs_retired_order s' = rs_retired_order s" "rs_channels s' = rs_channels s"
    "rs_next_generation s' = rs_next_generation s"
    "r = Inr t \<Longrightarrow> fmlookup (rs_credentials s) t = None \<and> fmlookup (rs_retired s) t = None
       \<and> (\<exists>g bytes. fst (gen g) = Inr bytes \<and> t = encode_hex bytes)"
proof -
  have "rs_limits s' = rs_limits s \<and> rs_displays s' = rs_displays s \<and> rs_credentials s' = rs_credentials s
    \<and> rs_retired s' = rs_retired s \<and> rs_retired_order s' = rs_retired_order s \<and> rs_channels s' = rs_channels s
    \<and> rs_next_generation s' = rs_next_generation s
    \<and> (r = Inr t \<longrightarrow> fmlookup (rs_credentials s) t = None \<and> fmlookup (rs_retired s) t = None
       \<and> (\<exists>g bytes. fst (gen g) = Inr bytes \<and> t = encode_hex bytes))"
    using assms
  proof (induction n arbitrary: s)
    case (Suc n)
    obtain o1 g where g: "gen (rs_generator s) = (o1, g)" by force
    show ?case
    proof (cases o1)
      case (Inr bytes)
      have fst: "fst (gen (rs_generator s)) = Inr bytes" using g Inr by simp
      show ?thesis
      proof (cases "fmlookup (rs_credentials s) (encode_hex bytes) = None \<and> fmlookup (rs_retired s) (encode_hex bytes) = None")
        case True
        with Suc.prems g Inr have "r = Inr (encode_hex bytes)" "s' = s\<lparr>rs_generator := g\<rparr>" by (auto simp: Let_def)
        with True fst show ?thesis by (simp, metis)
      next
        case False
        with Suc.prems g Inr have "unique_token_loop gen n (s\<lparr>rs_generator := g\<rparr>) = (r, s')" by (auto simp: Let_def)
        from Suc.IH [OF this] show ?thesis by simp
      qed
    qed (use Suc.prems g in auto)
  qed auto
  then show "rs_limits s' = rs_limits s" "rs_displays s' = rs_displays s" "rs_credentials s' = rs_credentials s"
    "rs_retired s' = rs_retired s" "rs_retired_order s' = rs_retired_order s" "rs_channels s' = rs_channels s"
    "rs_next_generation s' = rs_next_generation s"
    "r = Inr t \<Longrightarrow> fmlookup (rs_credentials s) t = None \<and> fmlookup (rs_retired s) t = None
       \<and> (\<exists>g bytes. fst (gen g) = Inr bytes \<and> t = encode_hex bytes)" by simp_all
qed

lemma sessions_len_removed:
  assumes "fmlookup (rs_displays s) w \<noteq> None"
  shows "fcard (fmdom (fmdrop w (rs_displays s))) < sessions_len s"
proof -
  have "w |\<in>| fmdom (rs_displays s)" using assms by (auto simp: fmlookup_dom_iff)
  then show ?thesis unfolding sessions_len_def fmdom_drop by (rule fcard_fminus1_less)
qed

lemma register_launch_wf:
  assumes "wf_sessions s" and "fmlookup (rs_displays s) w = None" and "sessions_len s < max_sessions (rs_limits s)"
    and "fmlookup (rs_credentials s) t = None" "fmlookup (rs_retired s) t = None"
    and "register_launch w content now t s = (r, s')"
  shows "wf_sessions s'"
proof -
  have wfc: "wf_credentials s" and wfs: "wf_streams s" using assms(1) by (simp_all add: wf_sessions_def)
  have w: "w |\<notin>| fmdom (rs_displays s)" using assms(2) by (simp add: fmdom_notI)
  have len: "sessions_len s' \<le> max_sessions (rs_limits s')"
    using assms(3,6) w by (auto simp: register_launch_def Let_def sessions_len_def fcard_finsert_disjoint)
  have d: "fmlookup (rs_displays s') v = (if v = w then Some \<lparr>ds_generation = rs_next_generation s,
      ds_pending_token = Some t, ds_sender = None, ds_content = content\<rparr> else fmlookup (rs_displays s) v)" for v
    using assms(6) by (auto simp: register_launch_def Let_def)
  have c: "fmlookup (rs_credentials s') x = (if x = t then Some \<lparr>pc_window_display_id = w,
      pc_generation = rs_next_generation s, pc_expires_at = now + token_ttl (rs_limits s)\<rparr>
      else fmlookup (rs_credentials s) x)" for x
    using assms(6) by (auto simp: register_launch_def Let_def)
  have same: "rs_retired s' = rs_retired s" "rs_retired_order s' = rs_retired_order s"
    "rs_limits s' = rs_limits s" "rs_channels s' = rs_channels s"
    using assms(6) by (auto simp: register_launch_def Let_def)
  have creds: "wf_credentials s'"
  proof (rule wf_credentialsI, goal_cases)
    case (1 x e)
    show ?case
    proof (cases "x = t")
      case True
      with 1 c d same assms(5) show ?thesis by auto
    next
      case False
      with 1 c have x: "fmlookup (rs_credentials s) x = Some e" by simp
      obtain e' where e': "fmlookup (rs_displays s) (pc_window_display_id e) = Some e'" "ds_pending_token e' = Some x"
        "ds_generation e' = pc_generation e" "fmlookup (rs_retired s) x = None"
        using credential_session [OF wfc x] .
      with assms(2) have "pc_window_display_id e \<noteq> w" by auto
      with e' d same show ?thesis by simp
    qed
  next
    case (2 v e x)
    show ?case
    proof (cases "v = w")
      case True
      with 2 c d show ?thesis by auto
    next
      case False
      with 2 d have v: "fmlookup (rs_displays s) v = Some e" by simp
      obtain y where "fmlookup (rs_credentials s) x = Some y" "pc_window_display_id y = v"
        using session_credential [OF wfc v 2(2)] .
      with assms(4) c show ?thesis by auto
    qed
  qed
  have old: "fmlookup (rs_displays s) v = Some e"
    if "fmlookup (rs_displays s') v = Some e" "ds_sender e = Some k" for v e k
    using that d [of v] by (cases "v = w") auto
  have "wf_streams s'"
    unfolding wf_streams_def same
  proof (intro conjI allI impI ballI, goal_cases)
    case (1 v e k)
    show ?case by (rule stream_session(1) [OF wfs old [OF 1(1,2)] 1(2)])
  next
    case (2 v e k)
    show ?case by (rule stream_session(2) [OF wfs old [OF 2(1,2)] 2(2)])
  next
    case (3 v e k v' e')
    have v: "fmlookup (rs_displays s) v = Some e" "fmlookup (rs_displays s) v' = Some e'"
      using old [OF 3(1,2)] old [OF 3(3,4)] .
    show ?case by (rule stream_session(3) [OF wfs v(1) 3(2) v(2) 3(4)])
  next
    case (4 ch)
    then show ?case using wfs by (simp add: wf_streams_def)
  qed
  then show ?thesis
    using assms(1) len same creds by (simp add: wf_sessions_def wf_retired_def retired_capacity_def)
qed

lemma sessions_create_wf:
  assumes "wf_sessions s" and "order_ok order" and "sessions_create gen order w content now s = (r, s')"
  shows "wf_sessions s'"
proof -
  let ?e = "expire_credentials order now s"
  have wf: "wf_sessions ?e" by (rule expire_credentials_correct(1) [OF assms(1,2)])
  show ?thesis
  proof (cases "fmlookup (rs_displays ?e) w = None \<and> sessions_len ?e \<ge> max_sessions (rs_limits ?e)")
    case True
    with assms(3) wf show ?thesis by (auto simp: sessions_create_def Let_def)
  next
    case False
    let ?p = "remove_previous w ?e"
    have p: "wf_sessions ?p" "rs_displays ?p = fmdrop w (rs_displays ?e)" "rs_limits ?p = rs_limits ?e"
      using remove_previous_correct [OF wf] by simp_all
    have len: "sessions_len ?p < max_sessions (rs_limits ?p)"
    proof (cases "fmlookup (rs_displays ?e) w = None")
      case True
      then have "fmdrop w (rs_displays ?e) = rs_displays ?e" by (intro fmap_ext) auto
      with True False p show ?thesis by (simp add: sessions_len_def)
    next
      case False
      with sessions_len_removed [OF this] wf p show ?thesis by (simp add: sessions_len_def wf_sessions_def)
    qed
    obtain r3 s3 where t: "unique_token_loop gen TOKEN_GENERATION_ATTEMPTS ?p = (r3, s3)" by force
    note u = unique_token_correct(1-7) [OF t]
    have "queues_ok s3"
      using p(1) u(6) by (simp add: wf_sessions_def wf_streams_def queues_ok_def)
    with u have wf3: "wf_sessions s3" by (intro same_but_channels [OF p(1)]) simp_all
    show ?thesis
    proof (cases r3)
      case (Inl e)
      with False assms(3) t wf3 show ?thesis by (auto simp: sessions_create_def unique_token_def Let_def)
    next
      case (Inr tok)
      with False assms(3) t have reg: "register_launch w content now tok s3 = (r, s')"
        by (auto simp: sessions_create_def unique_token_def Let_def)
      show ?thesis
        by (rule register_launch_wf [OF wf3 _ _ _ _ reg])
          (use u p len unique_token_correct(8) [OF t Inr] in \<open>simp_all add: sessions_len_def\<close>)
    qed
  qed
qed

section \<open>Redeeming a credential\<close>

text \<open>The credential of a session that still waits for its renderer, and has not expired.\<close>

definition redeemable :: "window_display_id \<Rightarrow> token \<Rightarrow> instant \<Rightarrow> 'g renderer_sessions \<Rightarrow> bool" where
  "redeemable w t now s \<longleftrightarrow>
     (case fmlookup (rs_displays s) w of
        None \<Rightarrow> False
      | Some d \<Rightarrow> ds_pending_token d = Some t
          \<and> (case fmlookup (rs_credentials s) t of None \<Rightarrow> False | Some c \<Rightarrow> now < pc_expires_at c))"

lemma open_stream_correct:
  assumes "wf_sessions s" and "fmlookup (rs_credentials s) t = Some c" and "pc_window_display_id c = w"
    and "fmlookup (rs_displays s) w = Some d" "ds_pending_token d = Some t"
    and "open_stream w t c d s = (r, s')"
  shows "wf_sessions s'"
    and "r = Inr \<lparr>rst_generation = pc_generation c, rst_receiver = length (rs_channels s)\<rparr>"
    and "rs_channels s' = rs_channels s @ [\<lparr>ch_capacity = channel_capacity (rs_limits s),
           ch_queue = [InitialMessage (ds_content d)], ch_connected = True\<rparr>]"
    and "rs_displays s' = fmupd w (d\<lparr>ds_pending_token := None, ds_sender := Some (length (rs_channels s))\<rparr>) (rs_displays s)"
    and "rs_credentials s' = fmdrop t (rs_credentials s)"
    and "fmlookup (rs_retired s') t = Some (w, Consumed)" "rs_limits s' = rs_limits s"
proof -
  let ?k = "length (rs_channels s)"
  let ?ch = "\<lparr>ch_capacity = channel_capacity (rs_limits s), ch_queue = [InitialMessage (ds_content d)], ch_connected = True\<rparr>"
  let ?d = "d\<lparr>ds_pending_token := None, ds_sender := Some ?k\<rparr>"
  let ?s = "s\<lparr>rs_channels := rs_channels s @ [?ch], rs_displays := fmupd w ?d (rs_displays s),
              rs_credentials := fmdrop t (rs_credentials s)\<rparr>"
  have l: "wf_limits (rs_limits s)" and wfc: "wf_credentials s" and wfs: "wf_streams s" and wfr: "wf_retired s"
    using assms(1) by (simp_all add: wf_sessions_def)
  have fresh: "fmlookup (rs_retired s) t = None" using credential_session [OF wfc assms(2)] .
  have "(r, s') = (Inr \<lparr>rst_generation = pc_generation c, rst_receiver = ?k\<rparr>, retire t w Consumed ?s)"
    using assms(6) l by (simp add: open_stream_def try_send_def wf_limits_def Let_def)
  then have r: "r = Inr \<lparr>rst_generation = pc_generation c, rst_receiver = ?k\<rparr>" and s': "s' = retire t w Consumed ?s"
    by simp_all
  then show "r = Inr \<lparr>rst_generation = pc_generation c, rst_receiver = ?k\<rparr>"
    "rs_channels s' = rs_channels s @ [?ch]" "rs_displays s' = fmupd w ?d (rs_displays s)"
    "rs_credentials s' = fmdrop t (rs_credentials s)" "rs_limits s' = rs_limits s" by simp_all
  have wfr': "wf_retired ?s" using wfr by (simp add: wf_retired_def retired_capacity_def)
  show "fmlookup (rs_retired s') t = Some (w, Consumed)"
    unfolding s' by (rule retire_remembers [OF wfr']) (use fresh l in simp_all)
  have retired: "wf_retired s'" unfolding s' by (rule retire_wf_retired [OF wfr']) (simp add: fresh)
  have keep: "fmlookup (rs_retired s') x = None" if "x \<noteq> t" "fmlookup (rs_retired s) x = None" for x
    using that by (simp add: s' retire_lookup)
  have dis: "fmlookup (rs_displays s') v = (if v = w then Some ?d else fmlookup (rs_displays s) v)" for v
    by (simp add: s')
  have creds: "wf_credentials s'"
  proof (rule wf_credentialsI, goal_cases)
    case (1 x e)
    then have x: "fmlookup (rs_credentials s) x = Some e" "x \<noteq> t" by (simp_all add: s' split: if_splits)
    obtain e' where e': "fmlookup (rs_displays s) (pc_window_display_id e) = Some e'" "ds_pending_token e' = Some x"
      "ds_generation e' = pc_generation e" "fmlookup (rs_retired s) x = None"
      using credential_session [OF wfc x(1)] .
    with assms(4,5) x(2) have "pc_window_display_id e \<noteq> w" by auto
    with e' keep x(2) show ?case by (simp add: dis)
  next
    case (2 v e x)
    then have v: "v \<noteq> w" "fmlookup (rs_displays s) v = Some e" by (auto simp: dis split: if_splits)
    obtain y where y: "fmlookup (rs_credentials s) x = Some y" "pc_window_display_id y = v"
      using session_credential [OF wfc v(2) 2(2)] .
    with assms(2,3) v(1) have "x \<noteq> t" by auto
    with y show ?case by (simp add: s')
  qed
  have old: "k < ?k" if "fmlookup (rs_displays s) v = Some e" "ds_sender e = Some k" for v e k
    using stream_session(2) [OF wfs that] .
  have streams: "wf_streams s'"
    unfolding wf_streams_def
  proof (intro conjI allI impI ballI, goal_cases)
    case (1 v e k)
    then show ?case using stream_session(1) [OF wfs, of v e k] by (auto simp: dis split: if_splits)
  next
    case (2 v e k)
    then show ?case using old [of v e k] by (auto simp: dis s' split: if_splits)
  next
    case (3 v e k v' e')
    show ?case
    proof (cases "v = w \<or> v' = w")
      case True
      then show ?thesis using 3 old [of v e k] old [of v' e' k] by (auto simp: dis split: if_splits)
    next
      case False
      then have v: "fmlookup (rs_displays s) v = Some e" "fmlookup (rs_displays s) v' = Some e'"
        using 3 by (simp_all add: dis)
      show ?thesis by (rule stream_session(3) [OF wfs v(1) 3(2) v(2) 3(4)])
    qed
  next
    case (4 ch)
    then show ?case using wfs l by (auto simp: s' wf_streams_def wf_limits_def)
  qed
  have "w |\<in>| fmdom (rs_displays s)" using assms(4) by (simp add: fmdomI)
  then have "finsert w (fmdom (rs_displays s)) = fmdom (rs_displays s)" by auto
  then have "sessions_len s' = sessions_len s" by (simp add: s' sessions_len_def)
  with assms(1) creds retired streams s' show "wf_sessions s'" by (simp add: wf_sessions_def)
qed

lemma redeem_cases:
  assumes "wf_sessions s" and "order_ok order" and "sessions_redeem order w t now s = (r, s')"
  obtains (granted) d c where "redeemable w t now s" "fmlookup (rs_displays s) w = Some d"
      "fmlookup (rs_credentials s) t = Some c" "pc_window_display_id c = w" "pc_generation c = ds_generation d"
      "open_stream w t c d (expire_credentials order now s) = (r, s')"
      "fmlookup (rs_displays (expire_credentials order now s)) w = Some d"
      "fmlookup (rs_credentials (expire_credentials order now s)) t = Some c" "ds_pending_token d = Some t"
    | (refused) e where "\<not> redeemable w t now s" "r = Inl e" "s' = expire_credentials order now s"
proof -
  let ?s = "expire_credentials order now s"
  note x = expire_credentials_correct [OF assms(1,2), of now]
  have wfc: "wf_credentials s" and wfc': "wf_credentials ?s" using assms(1) x(1) by (simp_all add: wf_sessions_def)
  show thesis
  proof (cases "redeemable w t now s")
    case True
    then obtain d c where dc: "fmlookup (rs_displays s) w = Some d" "ds_pending_token d = Some t"
      "fmlookup (rs_credentials s) t = Some c" "\<not> expired now c"
      by (auto simp: redeemable_def expired_def split: option.splits)
    then have c: "pc_window_display_id c = w"
      using session_credential [OF wfc dc(1,2)] by (metis option.inject)
    have gen: "pc_generation c = ds_generation d"
      using credential_session [OF wfc dc(3)] dc(1) c by (metis option.inject)
    have now': "fmlookup (rs_displays ?s) w = Some d" "fmlookup (rs_credentials ?s) t = Some c"
      using dc x(2,3) by simp_all
    have "open_stream w t c d ?s = (r, s')"
      using assms(3) now' c gen dc(2) by (simp add: sessions_redeem_def Let_def)
    with True dc c gen now' show thesis by (intro granted) simp_all
  next
    case False
    have "\<exists>e. r = Inl e \<and> s' = ?s"
    proof (cases "fmlookup (rs_credentials ?s) t")
      case None
      with assms(3) show ?thesis by (auto simp: sessions_redeem_def Let_def)
    next
      case (Some c)
      then have c: "fmlookup (rs_credentials s) t = Some c" "\<not> expired now c" using x(2) by simp_all
      obtain d where d: "fmlookup (rs_displays ?s) (pc_window_display_id c) = Some d" "ds_pending_token d = Some t"
        using credential_session [OF wfc' Some] .
      then have "fmlookup (rs_displays s) (pc_window_display_id c) = Some d" using x(3) by simp
      with False c d have "pc_window_display_id c \<noteq> w" by (auto simp: redeemable_def expired_def)
      with assms(3) Some show ?thesis by (auto simp: sessions_redeem_def Let_def)
    qed
    with False refused show thesis by blast
  qed
qed

lemma sessions_redeem_wf:
  assumes "wf_sessions s" and "order_ok order" and "sessions_redeem order w t now s = (r, s')"
  shows "wf_sessions s'"
  using assms
proof (cases rule: redeem_cases)
  case (granted d c)
  show ?thesis
    by (rule open_stream_correct(1) [OF expire_credentials_correct(1) [OF assms(1,2)] granted(8,4,7,9,6)])
next
  case (refused e)
  then show ?thesis using expire_credentials_correct(1) [OF assms(1,2)] by simp
qed

section \<open>Runs\<close>

text \<open>The calls of the daemon, and what a renderer does to its end of a channel.\<close>

datatype session_event =
    CreateEvent token_order window_display_id renderer_content instant
  | RedeemEvent token_order window_display_id token instant
  | UpdateEvent window_display_id renderer_content
  | TerminateEvent window_display_id renderer_termination
  | ExitEvent window_display_id "64 word" renderer_exit
  | RecvEvent channel_ref
  | DropEvent channel_ref

fun session_step :: "'g token_generator \<Rightarrow> 'g renderer_sessions \<Rightarrow> session_event \<Rightarrow> 'g renderer_sessions" where
  "session_step gen s (CreateEvent order w content now) = snd (sessions_create gen order w content now s)"
| "session_step gen s (RedeemEvent order w t now) = snd (sessions_redeem order w t now s)"
| "session_step gen s (UpdateEvent w content) = snd (sessions_update w content s)"
| "session_step gen s (TerminateEvent w reason) = snd (sessions_terminate w reason s)"
| "session_step gen s (ExitEvent w g e) = snd (renderer_exited w g e s)"
| "session_step gen s (RecvEvent k) = snd (channel_recv k s)"
| "session_step gen s (DropEvent k) = channel_drop k s"

fun session_guard :: "'g renderer_sessions \<Rightarrow> session_event \<Rightarrow> bool" where
  "session_guard s (CreateEvent order w content now) \<longleftrightarrow> order_ok order"
| "session_guard s (RedeemEvent order w t now) \<longleftrightarrow> order_ok order"
| "session_guard s _ \<longleftrightarrow> True"

interpretation sessions: invariant_machine "session_step gen" session_guard wf_sessions for gen :: "'g token_generator"
proof
  fix s :: "'g renderer_sessions" and e
  assume "wf_sessions s" "session_guard s e"
  then show "wf_sessions (session_step gen s e)"
    by (cases e) (auto intro: sessions_create_wf sessions_redeem_wf sessions_update_wf sessions_terminate_wf
        renderer_exited_wf channel_recv_wf channel_drop_wf prod.collapse [symmetric])
qed

lemma with_generator_wf: "with_generator l g = Inr s \<Longrightarrow> wf_sessions s"
  by (auto simp: with_generator_def wf_sessions_defs wf_limits_def sessions_len_def fcard_fempty split: if_splits)

text \<open>The tokens a run hands out.\<close>

fun launched_by :: "'g token_generator \<Rightarrow> 'g renderer_sessions \<Rightarrow> session_event \<Rightarrow> token list" where
  "launched_by gen s (CreateEvent order w content now) =
     (case fst (sessions_create gen order w content now s) of Inr l \<Rightarrow> [rl_token l] | Inl e \<Rightarrow> [])"
| "launched_by gen s _ = []"

fun launched :: "'g token_generator \<Rightarrow> 'g renderer_sessions \<Rightarrow> session_event list \<Rightarrow> token list" where
  "launched gen s [] = []"
| "launched gen s (e # es) = launched_by gen s e @ launched gen (session_step gen s e) es"

section \<open>A consumed credential stays consumed\<close>

lemma end_session_no_credential:
  "fmlookup (rs_credentials s) t = None \<Longrightarrow> fmlookup (rs_credentials (end_session w d s)) t = None"
  by (simp split: option.split)

lemma expire_no_credential:
  assumes "wf_sessions s" and "order_ok order" and "fmlookup (rs_credentials s) t = None"
  shows "fmlookup (rs_credentials (expire_credentials order now s)) t = None"
  using expire_credentials_correct(2) [OF assms(1,2)] assms(3) by (metis option.exhaust option.distinct(1))

lemma try_send_credentials [simp]: "rs_credentials (snd (try_send k m s)) = rs_credentials s"
  by (simp add: try_send_def Let_def)

lemma remove_previous_no_credential:
  "fmlookup (rs_credentials s) t = None \<Longrightarrow> fmlookup (rs_credentials (remove_previous w s)) t = None"
  using end_session_no_credential
  by (cases "fmlookup (rs_displays s) w")
    (auto simp: remove_previous_eq simp del: end_session_frame split: option.split, simp add: remove_previous_def)

lemma update_credentials [simp]: "rs_credentials (snd (sessions_update w c s)) = rs_credentials s"
proof -
  have "rs_credentials s' = rs_credentials s" if "try_send k m (s\<lparr>rs_displays := x\<rparr>) = (r, s')" for k m x r s'
    using try_send_frame(4) [OF that] by simp
  then show ?thesis
    by (auto simp: sessions_update_def Let_def split: option.split sum.split prod.split try_send_error.split)
qed

lemma terminate_no_credential:
  assumes "fmlookup (rs_credentials s) t = None"
  shows "fmlookup (rs_credentials (snd (sessions_terminate w r s))) t = None"
proof (cases "fmlookup (rs_displays s) w")
  case (Some d)
  have e: "fmlookup (rs_credentials (end_session w d s)) t = None" by (rule end_session_no_credential [OF assms])
  have "rs_credentials s' = rs_credentials (end_session w d s)"
    if "try_send k m (end_session w d s) = (r', s')" for k m r' s'
    using try_send_frame(4) [OF that] .
  with e Some show ?thesis
    unfolding sessions_terminate_def
    by (auto simp: Let_def simp flip: end_session_def simp del: end_session_frame
        split: option.split sum.split prod.split try_send_error.split)
qed (simp add: sessions_terminate_def assms)

lemma create_credentials:
  assumes "wf_sessions s" and "order_ok order" and "fmlookup (rs_credentials s) t = None"
    and "sessions_create gen order w content now s = (r, s')" and "\<forall>l. r = Inr l \<longrightarrow> rl_token l \<noteq> t"
  shows "fmlookup (rs_credentials s') t = None"
proof -
  let ?e = "expire_credentials order now s"
  let ?p = "remove_previous w ?e"
  have e: "fmlookup (rs_credentials ?e) t = None" by (rule expire_no_credential [OF assms(1-3)])
  then have p: "fmlookup (rs_credentials ?p) t = None" by (rule remove_previous_no_credential)
  obtain r3 s3 where u: "unique_token gen ?p = (r3, s3)" by force
  then have "rs_credentials s3 = rs_credentials ?p" using unique_token_correct(3) by (simp add: unique_token_def)
  with e p u assms(4,5) show ?thesis
    by (auto simp: sessions_create_def Let_def register_launch_def split: sum.splits if_splits)
qed

lemma step_no_credential:
  assumes "wf_sessions s" and "session_guard s e" and "fmlookup (rs_credentials s) t = None"
    and "t \<notin> set (launched_by gen s e)"
  shows "fmlookup (rs_credentials (session_step gen s e)) t = None"
proof (cases e)
  case (CreateEvent order w content now)
  obtain r s' where c: "sessions_create gen order w content now s = (r, s')" by force
  have "order_ok order" using assms(2) CreateEvent by simp
  moreover have "\<forall>l. r = Inr l \<longrightarrow> rl_token l \<noteq> t" using assms(4) CreateEvent c by auto
  ultimately show ?thesis using create_credentials [OF assms(1) _ assms(3) c] CreateEvent c by simp
next
  case (RedeemEvent order w x now)
  obtain r s' where c: "sessions_redeem order w x now s = (r, s')" by force
  have o: "order_ok order" using assms(2) RedeemEvent by simp
  note exp = expire_no_credential [OF assms(1) o assms(3), of now]
  from assms(1) o c show ?thesis
  proof (cases rule: redeem_cases)
    case (granted d e)
    have "rs_credentials s' = fmdrop x (rs_credentials (expire_credentials order now s))"
      by (rule open_stream_correct(5) [OF expire_credentials_correct(1) [OF assms(1) o] granted(8,4,7,9,6)])
    with exp RedeemEvent c show ?thesis by simp
  next
    case (refused e)
    with exp RedeemEvent c show ?thesis by simp
  qed
next
  case (ExitEvent w g x)
  then show ?thesis
    using assms(3) end_session_no_credential [OF assms(3), of w]
    by (auto simp: renderer_exited_def simp flip: end_session_def simp del: end_session_frame split: option.split)
next
  case (RecvEvent k)
  then show ?thesis using assms(3) by (auto simp: channel_recv_def split: list.split)
qed (use assms(3) terminate_no_credential [OF assms(3)] in \<open>simp_all add: channel_drop_def\<close>)

lemma run_no_credential:
  assumes "wf_sessions s" and "enabled_run (session_step gen) session_guard s es"
    and "fmlookup (rs_credentials s) t = None" and "t \<notin> set (launched gen s es)"
  shows "fmlookup (rs_credentials (run_machine (session_step gen) s es)) t = None"
  using assms
proof (induction es arbitrary: s)
  case (Cons e es)
  have g: "session_guard s e" using Cons.prems(2) by simp
  have wf: "wf_sessions (session_step gen s e)" by (rule sessions.step_inv [OF Cons.prems(1) g])
  have "fmlookup (rs_credentials (session_step gen s e)) t = None"
    by (rule step_no_credential [OF Cons.prems(1) g Cons.prems(3)]) (use Cons.prems(4) in simp)
  with Cons wf show ?case by simp
qed simp

lemma no_credential_refused:
  assumes "wf_sessions s" and "order_ok order" and "fmlookup (rs_credentials s) t = None"
  shows "\<exists>e. fst (sessions_redeem order w t now s) = Inl e"
  using expire_no_credential [OF assms] by (simp add: sessions_redeem_def Let_def)

section \<open>The tokens themselves\<close>

lemma hex_digit_lower: "n < 16 \<Longrightarrow> is_lower_hex (hex_digit n)"
  by (auto simp: hex_digit_def is_lower_hex_def is_ascii_digit_def numeral_eq_Suc less_Suc_eq)

lemma nibbles: "unat (drop_bit 4 (b :: byte)) < 16" "unat (and b 0x0f) < 16"
proof -
  show "unat (drop_bit 4 b) < 16"
    using unsigned_less [of b, where ?'a = nat] by (simp only: unat_drop_bit_eq) (simp add: drop_bit_eq_div)
  have "unat (and b 0x0f) = take_bit 4 (unat b)"
    by (simp add: unsigned_and_eq take_bit_eq_mask mask_eq_exp_minus_1)
  then show "unat (and b 0x0f) < 16" by (simp add: take_bit_eq_mod)
qed

lemma encode_hex_format: "list_all is_lower_hex (encode_hex bytes) \<and> length (encode_hex bytes) = 2 * length bytes"
  by (induction bytes) (auto simp: nibbles hex_digit_lower)

lemma lower_hex_len: "list_all is_lower_hex t \<Longrightarrow> utf8_len t = length t"
  by (induction t) (auto simp: is_lower_hex_def is_ascii_digit_def char_len_def)

lemma create_launches:
  assumes "wf_sessions s" and "order_ok order" and "sessions_create gen order w content now s = (Inr l, s')"
  obtains s3 where "wf_sessions s3" "fmlookup (rs_displays s3) w = None" "rs_limits s3 = rs_limits s"
    "fmlookup (rs_credentials s3) (rl_token l) = None" "register_launch w content now (rl_token l) s3 = (Inr l, s')"
    "\<exists>g bytes. fst (gen g) = Inr bytes \<and> rl_token l = encode_hex bytes"
proof -
  let ?e = "expire_credentials order now s"
  let ?p = "remove_previous w ?e"
  have e: "wf_sessions ?e" "rs_limits ?e = rs_limits s" using expire_credentials_correct [OF assms(1,2)] by simp_all
  note p = remove_previous_correct [OF e(1), of w]
  obtain r3 s3 where u: "unique_token_loop gen TOKEN_GENERATION_ATTEMPTS ?p = (r3, s3)" by force
  with assms(3) obtain t where t: "r3 = Inr t" "register_launch w content now t s3 = (Inr l, s')"
    by (auto simp: sessions_create_def unique_token_def Let_def split: if_splits sum.splits)
  then have l: "rl_token l = t" by (auto simp: register_launch_def Let_def)
  note same = unique_token_correct(1-7) [OF u]
  have "queues_ok s3" using p(1) same(6) by (simp add: wf_sessions_def wf_streams_def queues_ok_def)
  with same have wf3: "wf_sessions s3" by (intro same_but_channels [OF p(1)]) simp_all
  show thesis
    by (rule that [OF wf3]) (use same p e l t unique_token_correct(8) [OF u t(1)] in simp_all)
qed

section \<open>Concrete data for the instances\<close>

definition demo_content :: renderer_content where
  "demo_content = \<lparr>rc_notification_id = 1, rc_presentation = Toast, rc_level = Info, rc_notification_key = None,
     rc_title = ustr ''t'', rc_body = ustr ''b'', rc_timeout = Never, rc_source = None,
     rc_metadata = \<lparr>rm_agent_event_kind = None, rm_agent_name = None, rm_tool_name = None\<rparr>,
     rc_display = display_options_default\<rparr>"

definition demo_order :: token_order where
  "demo_order m = sorted_list_of_set (fset (fmdom m))"

definition demo_bytes :: "nat \<Rightarrow> byte list" where
  "demo_bytes n = replicate 32 (of_nat n)"

definition demo_generator :: "nat token_generator" where
  "demo_generator n = (Inr (demo_bytes n), Suc n)"

definition demo_display :: window_display_id where
  "demo_display = WindowDisplayId (ustr ''w'')"

definition demo_sessions :: "nat renderer_sessions" where
  "demo_sessions = \<lparr>rs_generator = 0, rs_limits = session_limits_default, rs_displays = fmempty,
     rs_credentials = fmempty, rs_retired = fmempty, rs_retired_order = [], rs_next_generation = 1, rs_channels = []\<rparr>"

definition demo_token :: token where
  "demo_token = encode_hex (demo_bytes 0)"

lemma demo_order_ok [simp]: "order_ok demo_order"
  by (simp add: order_ok_def demo_order_def)

lemma demo_with_generator: "with_generator session_limits_default (0 :: nat) = Inr demo_sessions"
  by (simp add: with_generator_def demo_sessions_def session_limits_default_def
      DEFAULT_MAX_RENDERER_SESSIONS_def DEFAULT_RENDERER_CHANNEL_CAPACITY_def DEFAULT_RENDERER_TOKEN_TTL_def from_secs_def)

lemma demo_sessions_wf [simp]: "wf_sessions demo_sessions"
  by (rule with_generator_wf [OF demo_with_generator])

lemma attempts: "unique_token gen s = unique_token_loop gen (Suc 3) s"
proof -
  have "TOKEN_GENERATION_ATTEMPTS = Suc 3" by (simp add: TOKEN_GENERATION_ATTEMPTS_def)
  then show ?thesis by (simp only: unique_token_def)
qed

lemma demo_create:
  "sessions_create demo_generator demo_order demo_display demo_content 0 demo_sessions =
    (Inr \<lparr>rl_window_display_id = demo_display, rl_token = demo_token, rl_generation = 1\<rparr>,
     demo_sessions\<lparr>rs_generator := 1, rs_next_generation := 2,
       rs_credentials := fmupd demo_token \<lparr>pc_window_display_id = demo_display, pc_generation = 1,
         pc_expires_at = 15000000000\<rparr> fmempty,
       rs_displays := fmupd demo_display \<lparr>ds_generation = 1, ds_pending_token = Some demo_token,
         ds_sender = None, ds_content = demo_content\<rparr> fmempty\<rparr>)"
  by (simp add: sessions_create_def expire_credentials_def expired_tokens_def List.map_filter_def demo_order_def
      demo_sessions_def sessions_len_def fcard_fempty session_limits_default_def DEFAULT_MAX_RENDERER_SESSIONS_def
      DEFAULT_RENDERER_TOKEN_TTL_def from_secs_def remove_previous_def attempts [unfolded unique_token_loop.simps] demo_generator_def register_launch_def Let_def demo_token_def)

section \<open>Properties\<close>

text \<open>
  Claim C10. From its creation on and through every run of calls, and of renderers reading from or
  leaving their channels: a credential belongs to exactly one session that still waits for its
  renderer and every waiting session has one, no credential in force is also retired, the record of
  retired credentials and the number of sessions are within their limits, no two sessions share a
  stream, and no channel holds more than its capacity.
\<close>

theorem sessions_invariant:
  assumes "with_generator l g = Inr s" and "enabled_run (session_step gen) session_guard s es"
  shows "wf_sessions (run_machine (session_step gen) s es)"
  using sessions.run_inv [OF with_generator_wf [OF assms(1)] assms(2)] .

lemma sessions_invariant_witness:
  "wf_sessions (run_machine (session_step demo_generator) demo_sessions
     [CreateEvent demo_order demo_display demo_content 0, RedeemEvent demo_order demo_display demo_token 1, RecvEvent 0])"
  by (rule sessions_invariant [OF demo_with_generator]) simp

text \<open>
  A launch hands out a token of 64 lower-case hexadecimal digits, as the redemption frame
  requires, that was not in force before; it can be redeemed until it expires, and only for the
  Window Display it was created for.
\<close>

theorem create_correct:
  assumes "wf_sessions s" and "order_ok order" and "sessions_create gen order w content now s = (Inr l, s')"
    and "\<forall>g bytes. fst (gen g) = Inr bytes \<longrightarrow> length bytes = 32"
  shows "rl_window_display_id l = w \<and> is_current_generation w (rl_generation l) s'
    \<and> utf8_len (rl_token l) = 64 \<and> list_all is_lower_hex (rl_token l)
    \<and> (\<forall>v now'. redeemable v (rl_token l) now' s' = (v = w \<and> now' < now + token_ttl (rs_limits s)))"
proof -
  obtain s3 where s3: "wf_sessions s3" "fmlookup (rs_displays s3) w = None" "rs_limits s3 = rs_limits s"
    "fmlookup (rs_credentials s3) (rl_token l) = None" "register_launch w content now (rl_token l) s3 = (Inr l, s')"
    "\<exists>g bytes. fst (gen g) = Inr bytes \<and> rl_token l = encode_hex bytes"
    using create_launches [OF assms(1-3)] .
  from s3(6) assms(4) have "length (rl_token l) = 64" "list_all is_lower_hex (rl_token l)"
    using encode_hex_format by auto
  then have format: "utf8_len (rl_token l) = 64" "list_all is_lower_hex (rl_token l)"
    using lower_hex_len by simp_all
  have "ds_pending_token d \<noteq> Some (rl_token l)" if "fmlookup (rs_displays s3) v = Some d" for v d
    using session_credential [OF _ that] s3(1,4) by (metis option.distinct(1) wf_sessions_def)
  then have "redeemable v (rl_token l) now' s' = (v = w \<and> now' < now + token_ttl (rs_limits s))" for v now'
    using s3(3,5) by (cases "v = w") (auto simp: redeemable_def register_launch_def Let_def split: option.split)
  moreover have "rl_window_display_id l = w" "is_current_generation w (rl_generation l) s'"
    using s3(5) by (cases l, auto simp: register_launch_def is_current_generation_def Let_def)+
  ultimately show ?thesis using format by blast
qed

lemma create_correct_witness:
  "utf8_len demo_token = 64 \<and> list_all is_lower_hex demo_token"
  using create_correct [OF demo_sessions_wf demo_order_ok demo_create] by (simp add: demo_generator_def demo_bytes_def)

text \<open>
  Claim C5. A credential is good for exactly one redemption. Redeeming succeeds exactly for the
  unexpired token of a session that waits for its renderer; the stream then starts with the newest
  content of the session, and from then on, whatever calls follow, the token is refused for every
  Window Display, at any time, unless a launch hands it out again.
\<close>

theorem redeem_once:
  assumes "wf_sessions s" and "order_ok order" and "sessions_redeem order w t now s = (r, s')"
    and "enabled_run (session_step gen) session_guard s' es" and "t \<notin> set (launched gen s' es)"
    and "order_ok order'"
  shows "(\<exists>stream. r = Inr stream) = redeemable w t now s
    \<and> (\<forall>stream. r = Inr stream \<longrightarrow>
        (\<exists>d. fmlookup (rs_displays s) w = Some d \<and> rst_generation stream = ds_generation d
           \<and> ch_queue (rs_channels s' ! rst_receiver stream) = [InitialMessage (ds_content d)])
        \<and> (\<exists>e. fst (sessions_redeem order' w' t now' (run_machine (session_step gen) s' es)) = Inl e))"
  using assms(1-3)
proof (cases rule: redeem_cases)
  case (granted d c)
  note o = open_stream_correct [OF expire_credentials_correct(1) [OF assms(1,2)] granted(8,4,7,9,6)]
  have "fmlookup (rs_credentials s') t = None" using o(5) by simp
  then have gone: "fmlookup (rs_credentials (run_machine (session_step gen) s' es)) t = None"
    by (rule run_no_credential [OF o(1) assms(4) _ assms(5)])
  have "wf_sessions (run_machine (session_step gen) s' es)" by (rule sessions.run_inv [OF o(1) assms(4)])
  then have "\<exists>e. fst (sessions_redeem order' w' t now' (run_machine (session_step gen) s' es)) = Inl e"
    by (rule no_credential_refused [OF _ assms(6) gone])
  with granted(1,2,5) o(2,3) show ?thesis by auto
next
  case (refused e)
  then show ?thesis by auto
qed

lemma redeem_once_witness:
  "\<exists>stream s'. sessions_redeem demo_order demo_display demo_token 1
       (snd (sessions_create demo_generator demo_order demo_display demo_content 0 demo_sessions)) = (Inr stream, s')
     \<and> ch_queue (rs_channels s' ! rst_receiver stream) = [InitialMessage demo_content]
     \<and> (\<exists>e. fst (sessions_redeem demo_order demo_display demo_token 2 s') = Inl e)"
proof -
  let ?s = "snd (sessions_create demo_generator demo_order demo_display demo_content 0 demo_sessions)"
  have wf: "wf_sessions ?s" using sessions_create_wf [OF demo_sessions_wf demo_order_ok] by (metis prod.collapse)
  obtain r s' where r: "sessions_redeem demo_order demo_display demo_token 1 ?s = (r, s')" by force
  note once = redeem_once [OF wf demo_order_ok r, where es = "[]" and gen = demo_generator and order' = demo_order
      and w' = demo_display and now' = 2]
  have "redeemable demo_display demo_token 1 ?s" by (simp add: demo_create redeemable_def)
  with once obtain stream where st: "r = Inr stream" by auto
  have content: "fmlookup (rs_displays ?s) demo_display = Some d \<Longrightarrow> ds_content d = demo_content" for d
    by (auto simp: demo_create)
  from once st have "\<exists>d. fmlookup (rs_displays ?s) demo_display = Some d \<and> ch_queue (rs_channels s' ! rst_receiver stream) = [InitialMessage (ds_content d)]"
    and "\<exists>e. fst (sessions_redeem demo_order demo_display demo_token 2 s') = Inl e" by auto
  with content r st show ?thesis by metis
qed

end
