(* ===== verification/Ordered_Map.thy ===== *)
theory Ordered_Map
  imports Prelude "HOL-Library.List_Lexorder"
begin

text \<open>
  Rust's \<open>BTreeMap\<close> as an association list with increasing keys, and the contract its clients use:
  what a lookup returns after an insertion or a removal, and that both keep the map well formed.
\<close>

section \<open>The contract\<close>

locale map_store =
  fixes insert_at :: "'k \<Rightarrow> 'v \<Rightarrow> 'm \<Rightarrow> 'm"
    and remove :: "'k \<Rightarrow> 'm \<Rightarrow> 'm"
    and lookup :: "'m \<Rightarrow> 'k \<Rightarrow> 'v option"
    and ok :: "'m \<Rightarrow> bool"
  assumes lookup_insert: "ok m \<Longrightarrow> lookup (insert_at k v m) = (lookup m)(k \<mapsto> v)"
    and lookup_remove: "ok m \<Longrightarrow> lookup (remove k m) = (lookup m)(k := None)"
    and ok_insert: "ok m \<Longrightarrow> ok (insert_at k v m)"
    and ok_remove: "ok m \<Longrightarrow> ok (remove k m)"
begin

lemma remove_all:
  "ok m \<Longrightarrow> ok (fold remove ks m) \<and> (\<forall>k. lookup (fold remove ks m) k = (if k \<in> set ks then None else lookup m k))"
  by (induction ks arbitrary: m) (auto simp: ok_remove lookup_remove)

lemma insert_all:
  "ok m \<Longrightarrow> ok (fold (\<lambda>(k, v). insert_at k v) kvs m)
     \<and> lookup (fold (\<lambda>(k, v). insert_at k v) kvs m) = lookup m ++ map_of (rev kvs)"
proof (induction kvs arbitrary: m)
  case (Cons kv kvs)
  obtain k v where kv: "kv = (k, v)" by force
  have "ok (insert_at k v m)" by (rule ok_insert [OF Cons.prems])
  from Cons.IH [OF this] show ?case
    by (simp add: kv lookup_insert [OF Cons.prems] map_add_def fun_eq_iff split: option.split)
qed simp

end

section \<open>The implementation\<close>

fun bt_insert :: "'k :: linorder \<Rightarrow> 'v \<Rightarrow> ('k \<times> 'v) list \<Rightarrow> ('k \<times> 'v) list" where
  "bt_insert k v [] = [(k, v)]"
| "bt_insert k v ((k', v') # m) =
     (if k < k' then (k, v) # (k', v') # m
      else if k = k' then (k, v) # m
      else (k', v') # bt_insert k v m)"

definition bt_remove :: "'k \<Rightarrow> ('k \<times> 'v) list \<Rightarrow> ('k \<times> 'v) list" where
  "bt_remove k m = filter (\<lambda>(k', v). k' \<noteq> k) m"

definition bt_ok :: "('k :: linorder \<times> 'v) list \<Rightarrow> bool" where
  "bt_ok m \<longleftrightarrow> sorted_wrt (<) (map fst m)"

lemma bt_insert_keys: "fst ` set (bt_insert k v m) = insert k (fst ` set m)"
  by (induction k v m rule: bt_insert.induct) auto

lemma bt_insert_ok: "bt_ok m \<Longrightarrow> bt_ok (bt_insert k v m)"
proof (induction k v m rule: bt_insert.induct)
  case (2 k v k' v' m)
  have "\<forall>x \<in> fst ` set (bt_insert k v m). k' < x" if "k' < k"
    using 2(2) that unfolding bt_insert_keys by (auto simp: bt_ok_def)
  with 2 show ?case by (auto simp: bt_ok_def)
qed (simp add: bt_ok_def)

lemma bt_insert_lookup: "bt_ok m \<Longrightarrow> map_of (bt_insert k v m) = (map_of m)(k \<mapsto> v)"
proof (induction k v m rule: bt_insert.induct)
  case (2 k v k' v' m)
  then have "k \<noteq> k' \<Longrightarrow> \<not> k < k' \<Longrightarrow> map_of (bt_insert k v m) = (map_of m)(k \<mapsto> v)"
    by (auto simp: bt_ok_def)
  then show ?case by (auto simp: fun_eq_iff)
qed simp

lemma bt_remove_ok: "bt_ok m \<Longrightarrow> bt_ok (bt_remove k m)"
  by (induction m) (auto simp: bt_ok_def bt_remove_def)

lemma bt_remove_lookup: "map_of (bt_remove k m) = (map_of m)(k := None)"
  by (induction m) (auto simp: bt_remove_def fun_eq_iff)

lemma bt_ok_Nil [simp]: "bt_ok []"
  by (simp add: bt_ok_def)

lemma bt_ok_distinct: "bt_ok m \<Longrightarrow> distinct (map fst m)"
  by (simp add: bt_ok_def strict_sorted_iff)

lemma bt_lookup_iff: "bt_ok m \<Longrightarrow> map_of m k = Some v \<longleftrightarrow> (k, v) \<in> set m"
  using bt_ok_distinct map_of_eq_Some_iff by metis

interpretation btree: map_store bt_insert bt_remove map_of "bt_ok :: ('k :: linorder \<times> 'v) list \<Rightarrow> bool"
  by unfold_locales (rule bt_insert_lookup bt_remove_lookup bt_insert_ok bt_remove_ok, assumption?)+

end
