(* ===== verification/Tmux_Backend.thy ===== *)
theory Tmux_Backend
  imports Ordered_Map Renderer_Sessions Tmux_Commands
begin

text \<open>
  The production backend of \<open>src/tmux/production.rs\<close>: it turns a plan of displays per Attention
  Window into tmux commands and renderer sessions, and keeps the table of the displays that exist.

  The control connection (and the tmux server behind it) is a parameter: connecting, and executing
  a batch of commands, on a state of its own type. So are the token generator and the clock.
\<close>

section \<open>Data\<close>

record planned_display =
  pd_display_id :: ustring
  pd_kind :: display_kind
  pd_geometry :: geometry
  pd_content :: renderer_content
  pd_play_enter_animation :: bool

type_synonym tmux_display_plan = "(window_id \<times> planned_display list) list"

record reconcile_report =
  rp_applied :: "window_id set"
  rp_failed :: "window_id \<rightharpoonup> tmux_error"

record actual_display =
  ad_pane_id :: pane_id
  ad_window_id :: window_id
  ad_kind :: display_kind
  ad_geometry :: geometry
  ad_content :: renderer_content

record jump_target =
  jt_pane_id :: pane_id
  jt_likely_client :: "ustring option"

record ('t, 'g) tmux_backend =
  tb_tmux :: 't
  tb_connected :: bool
  tb_displays :: "(ustring \<times> actual_display) list"
  tb_renderers :: "'g renderer_sessions"

record ('t, 'g) backend_env =
  be_connect :: "'t \<Rightarrow> (tmux_error + unit) \<times> 't"
  be_command :: "tmux_command list \<Rightarrow> 't \<Rightarrow> (tmux_error + command_result) \<times> 't"
  be_generator :: "'g token_generator"
  be_order :: token_order
  be_now :: instant
  be_executable :: ustring

type_synonym ('t, 'g, 'a) backend_op = "(('t, 'g) tmux_backend, tmux_error, 'a) op"

section \<open>Combinators\<close>

definition from_result :: "tmux_error + 'a \<Rightarrow> ('t, 'g, 'a) backend_op" where
  "from_result r = (case r of Inl e \<Rightarrow> raise e | Inr a \<Rightarrow> ret a)"

text \<open>A cleanup before an error is passed on; trying an operation; ignoring how it ended.\<close>

definition on_error :: "('t, 'g, 'a) backend_op \<Rightarrow> ('t, 'g, unit) backend_op \<Rightarrow> ('t, 'g, 'a) backend_op" where
  "on_error m cleanup b =
     (case m b of
        (Inl (Fail e), b') \<Rightarrow> then_op cleanup (raise e) b'
      | r \<Rightarrow> r)"

definition attempt :: "('t, 'g, 'a) backend_op \<Rightarrow> ('t, 'g, tmux_error + 'a) backend_op" where
  "attempt m b =
     (case m b of
        (Inl (Fail e), b') \<Rightarrow> (Inr (Inl e), b')
      | (Inl Panic, b') \<Rightarrow> (Inl Panic, b')
      | (Inr a, b') \<Rightarrow> (Inr (Inr a), b'))"

definition ignore_result :: "('t, 'g, 'a) backend_op \<Rightarrow> ('t, 'g, unit) backend_op" where
  "ignore_result m = bind_op (attempt m) (\<lambda>_. ret ())"

primrec each_op :: "'a list \<Rightarrow> ('a \<Rightarrow> ('t, 'g, unit) backend_op) \<Rightarrow> ('t, 'g, unit) backend_op" where
  "each_op [] f = ret ()"
| "each_op (x # xs) f = then_op (f x) (each_op xs f)"

section \<open>The connection and the renderer sessions\<close>

definition ensure_connection :: "('t, 'g) backend_env \<Rightarrow> ('t, 'g, unit) backend_op" where
  "ensure_connection env b =
     (if tb_connected b then (Inr (), b)
      else (case be_connect env (tb_tmux b) of
              (Inl e, t) \<Rightarrow> (Inl (Fail e), b\<lparr>tb_tmux := t\<rparr>)
            | (Inr _, t) \<Rightarrow> (Inr (), b\<lparr>tb_tmux := t, tb_connected := True\<rparr>)))"

definition backend_command :: "('t, 'g) backend_env \<Rightarrow> tmux_command list \<Rightarrow> ('t, 'g, command_result) backend_op" where
  "backend_command env commands = then_op (ensure_connection env) (\<lambda>b.
     (case be_command env commands (tb_tmux b) of
        (Inl e, t) \<Rightarrow> (Inl (Fail e), b\<lparr>tb_tmux := t, tb_connected := False\<rparr>)
      | (Inr r, t) \<Rightarrow> (Inr r, b\<lparr>tb_tmux := t\<rparr>)))"

definition checked_command :: "('t, 'g) backend_env \<Rightarrow> tmux_command list \<Rightarrow> ('t, 'g, command_result) backend_op" where
  "checked_command env commands =
     bind_op (backend_command env commands) (\<lambda>r. bind_op (from_result (require_success r)) (\<lambda>_. ret r))"

fun session_error_text :: "session_error \<Rightarrow> string" where
  "session_error_text InvalidWindowDisplayId = ''invalid Window Display ID''"
| "session_error_text InvalidSessionLimits = ''renderer session limits must be positive''"
| "session_error_text CapacityExhausted = ''renderer session capacity is exhausted''"
| "session_error_text RandomnessUnavailable = ''cryptographic randomness is unavailable''"
| "session_error_text CredentialCollision = ''could not generate a unique renderer credential''"
| "session_error_text UnknownCredential = ''renderer credential is unknown''"
| "session_error_text MismatchedCredential = ''renderer credential belongs to another Window Display''"
| "session_error_text StaleCredential = ''renderer credential has expired or was invalidated''"
| "session_error_text DuplicateRedemption = ''renderer credential has already been consumed''"
| "session_error_text UnknownWindowDisplay = ''Window Display is unknown''"
| "session_error_text ChannelFull = ''renderer update channel is full''"
| "session_error_text RendererDisconnected = ''renderer connection is closed''"

definition session_error_of :: "session_error \<Rightarrow> tmux_error" where
  "session_error_of e = TmuxProtocol (session_error_text e)"

definition checked_display_id :: "ustring \<Rightarrow> ('t, 'g, window_display_id) backend_op" where
  "checked_display_id i = from_result (map_sum session_error_of id (window_display_id_new i))"

definition with_sessions ::
  "('g renderer_sessions \<Rightarrow> (session_error + 'a) \<times> 'g renderer_sessions) \<Rightarrow> ('t, 'g, 'a) backend_op" where
  "with_sessions f b =
     (case f (tb_renderers b) of
        (Inl e, r) \<Rightarrow> (Inl (Fail (session_error_of e)), b\<lparr>tb_renderers := r\<rparr>)
      | (Inr a, r) \<Rightarrow> (Inr a, b\<lparr>tb_renderers := r\<rparr>))"

definition terminate_renderer :: "window_display_id \<Rightarrow> renderer_termination \<Rightarrow> ('t, 'g, unit) backend_op" where
  "terminate_renderer w reason =
     modify (\<lambda>b. b\<lparr>tb_renderers := snd (sessions_terminate w reason (tb_renderers b))\<rparr>)"

section \<open>Closing displays\<close>

definition forget_display :: "ustring \<Rightarrow> ('t, 'g, unit) backend_op" where
  "forget_display i = modify (\<lambda>b. b\<lparr>tb_displays := bt_remove i (tb_displays b)\<rparr>)"

definition close_one :: "renderer_termination \<Rightarrow> ustring \<Rightarrow> ('t, 'g, unit) backend_op" where
  "close_one reason i = with_state (\<lambda>b.
     case map_of (tb_displays b) i of
       None \<Rightarrow> ret ()
     | Some _ \<Rightarrow>
         then_op (forget_display i)
         (bind_op (checked_display_id i) (\<lambda>w. terminate_renderer w reason)))"

definition close_displays ::
  "('t, 'g) backend_env \<Rightarrow> ustring list \<Rightarrow> renderer_termination \<Rightarrow> ('t, 'g, unit) backend_op" where
  "close_displays env ids reason =
     (if ids = [] then ret ()
      else with_state (\<lambda>b.
        let commands = map (kill_command \<circ> ad_pane_id) (List.map_filter (map_of (tb_displays b)) ids) in
        then_op (if commands = [] then ret () else bind_op (checked_command env commands) (\<lambda>_. ret ()))
        (each_op ids (close_one reason))))"

section \<open>Creating and updating a display\<close>

definition renderer_argv :: "('t, 'g) backend_env \<Rightarrow> ustring \<Rightarrow> renderer_launch \<Rightarrow> ustring list" where
  "renderer_argv env mode launch =
     [be_executable env, mode, ustr ''--window-display'', display_id_str (rl_window_display_id launch),
      ustr ''--token'', rl_token launch]"

definition renderer_mode :: "display_kind \<Rightarrow> ustring" where
  "renderer_mode k =
     (case k of ToastDisplay \<Rightarrow> ustr ''__render-toast'' | AttentionDisplay \<Rightarrow> ustr ''__render-attention'')"

definition create_arguments :: "window_id \<Rightarrow> planned_display \<Rightarrow> tmux_command" where
  "create_arguments window desired =
     (case pd_kind desired of
        ToastDisplay \<Rightarrow>
          [ustr ''split-window'', ustr ''-d'', ustr ''-P'', ustr ''-F'', ustr ''#{pane_id}'', ustr ''-t'', window]
      | AttentionDisplay \<Rightarrow> attention_create_arguments window (pd_geometry desired))"

definition set_display :: "ustring \<Rightarrow> actual_display \<Rightarrow> ('t, 'g, unit) backend_op" where
  "set_display i d = modify (\<lambda>b. b\<lparr>tb_displays := bt_insert i d (tb_displays b)\<rparr>)"

definition float_toast ::
  "('t, 'g) backend_env \<Rightarrow> window_display_id \<Rightarrow> window_id \<Rightarrow> planned_display \<Rightarrow> pane_id \<Rightarrow> ('t, 'g, unit) backend_op" where
  "float_toast env w window desired pane =
     (if pd_kind desired = ToastDisplay then
        on_error (bind_op (checked_command env [break_floating_command pane window (pd_geometry desired)]) (\<lambda>_. ret ()))
          (then_op (ignore_result (backend_command env [kill_command pane])) (terminate_renderer w TermRenderFailed))
      else ret ())"

definition create_display ::
  "('t, 'g) backend_env \<Rightarrow> window_id \<Rightarrow> planned_display \<Rightarrow> ('t, 'g, unit) backend_op" where
  "create_display env window desired =
     bind_op (checked_display_id (pd_display_id desired)) (\<lambda>w.
     bind_op (with_sessions (sessions_create (be_generator env) (be_order env) w (pd_content desired) (be_now env))) (\<lambda>launch.
     let argv = renderer_argv env (renderer_mode (pd_kind desired)) launch;
         create = create_arguments window desired @ argv
     in
     bind_op (on_error (checked_command env [create]) (terminate_renderer w TermRenderFailed)) (\<lambda>result.
     case find (stable_digits (of_char CHR ''%'')) (rev (cr_output result)) of
       None \<Rightarrow>
         then_op (terminate_renderer w TermRenderFailed)
           (raise (TmuxProtocol ''split-window did not return a pane ID''))
     | Some pane \<Rightarrow>
         then_op (float_toast env w window desired pane)
         (set_display (pd_display_id desired)
            \<lparr>ad_pane_id = pane, ad_window_id = window, ad_kind = pd_kind desired,
             ad_geometry = pd_geometry desired, ad_content = pd_content desired\<rparr>))))"

definition update_commands :: "actual_display \<Rightarrow> planned_display \<Rightarrow> tmux_command list" where
  "update_commands actual desired =
     (let old = ad_geometry actual; new = pd_geometry desired; pane = ad_pane_id actual in
      (if g_width old \<noteq> g_width new \<or> g_height old \<noteq> g_height new then [resize_command pane new] else [])
      @ append_relative_moves pane old new
      @ (if g_z_index old \<noteq> g_z_index new then [restack_command pane new] else []))"

definition alter_display :: "ustring \<Rightarrow> (actual_display \<Rightarrow> actual_display) \<Rightarrow> ('t, 'g, unit) backend_op" where
  "alter_display i f = with_state (\<lambda>b.
     case map_of (tb_displays b) i of None \<Rightarrow> panic | Some d \<Rightarrow> set_display i (f d))"

definition update_display ::
  "('t, 'g) backend_env \<Rightarrow> ustring \<Rightarrow> actual_display \<Rightarrow> planned_display \<Rightarrow> ('t, 'g, unit) backend_op" where
  "update_display env i actual desired =
     bind_op (from_result (validate_stable_id (ad_pane_id actual) (of_char CHR ''%''))) (\<lambda>_.
     let commands = update_commands actual desired in
     then_op (if commands = [] then ret ()
        else bind_op (checked_command env commands) (\<lambda>_.
          alter_display i (\<lambda>d. d\<lparr>ad_geometry := pd_geometry desired\<rparr>)))
     (if ad_content actual = pd_content desired then ret ()
      else
        bind_op (checked_display_id i) (\<lambda>w.
        bind_op (with_sessions (sessions_update w (pd_content desired))) (\<lambda>_.
        alter_display i (\<lambda>d. d\<lparr>ad_content := pd_content desired\<rparr>)))))"

section \<open>Reconciling\<close>

definition reconcile_display ::
  "('t, 'g) backend_env \<Rightarrow> window_id \<Rightarrow> planned_display \<Rightarrow> ('t, 'g, unit) backend_op" where
  "reconcile_display env window desired =
     (let i = pd_display_id desired in
      bind_op (from_result (validate_display_id i)) (\<lambda>_.
      with_state (\<lambda>b.
      let recreate = (case map_of (tb_displays b) i of
            None \<Rightarrow> False | Some a \<Rightarrow> ad_window_id a \<noteq> window \<or> ad_kind a \<noteq> pd_kind desired)
      in then_op (if recreate then close_displays env [i] TermRecreated else ret ())
      (with_state (\<lambda>b.
         case map_of (tb_displays b) i of
           Some actual \<Rightarrow> update_display env i actual desired
         | None \<Rightarrow> create_display env window desired)))))"

definition obsolete_displays :: "window_id \<Rightarrow> planned_display list \<Rightarrow> ('t, 'g) tmux_backend \<Rightarrow> ustring list" where
  "obsolete_displays window desired b =
     map fst (filter (\<lambda>(i, a). ad_window_id a = window \<and> i \<notin> set (map pd_display_id desired)) (tb_displays b))"

definition reconcile_window ::
  "('t, 'g) backend_env \<Rightarrow> window_id \<Rightarrow> planned_display list \<Rightarrow> ('t, 'g, unit) backend_op" where
  "reconcile_window env window desired =
     bind_op (from_result (validate_stable_id window (of_char CHR ''@''))) (\<lambda>_.
     with_state (\<lambda>b.
     then_op (close_displays env (obsolete_displays window desired b) TermDismissed)
     (each_op desired (reconcile_display env window))))"

text \<open>What to do about the outcome of one window: give up without a connection, or note it.\<close>

definition note_failure ::
  "window_id \<Rightarrow> tmux_error \<Rightarrow> reconcile_report \<Rightarrow> ('t, 'g, reconcile_report) backend_op" where
  "note_failure w e rep = with_state (\<lambda>b.
     if \<not> tb_connected b then raise e else ret (rep\<lparr>rp_failed := (rp_failed rep)(w \<mapsto> e)\<rparr>))"

fun close_stale ::
  "('t, 'g) backend_env \<Rightarrow> (window_id \<times> ustring list) list \<Rightarrow> reconcile_report \<Rightarrow> ('t, 'g, reconcile_report) backend_op" where
  "close_stale env [] rep = ret rep"
| "close_stale env ((w, ids) # ws) rep =
     bind_op (attempt (close_displays env ids TermDismissed)) (\<lambda>r.
     bind_op (case r of Inl e \<Rightarrow> note_failure w e rep | Inr _ \<Rightarrow> ret rep) (close_stale env ws))"

fun apply_windows ::
  "('t, 'g) backend_env \<Rightarrow> tmux_display_plan \<Rightarrow> reconcile_report \<Rightarrow> ('t, 'g, reconcile_report) backend_op" where
  "apply_windows env [] rep = ret rep"
| "apply_windows env ((w, ds) # ws) rep =
     bind_op (attempt (reconcile_window env w ds)) (\<lambda>r.
     bind_op (case r of
          Inl e \<Rightarrow> note_failure w e rep
        | Inr _ \<Rightarrow> ret (rep\<lparr>rp_applied := insert w (rp_applied rep)\<rparr>)) (apply_windows env ws))"

text \<open>The displays in windows the plan does not name, by window.\<close>

definition stale_by_window :: "tmux_display_plan \<Rightarrow> ('t, 'g) tmux_backend \<Rightarrow> (window_id \<times> ustring list) list" where
  "stale_by_window plan b =
     fold (\<lambda>(i, a) m.
        if ad_window_id a \<in> set (map fst plan) then m
        else bt_insert (ad_window_id a)
               ((case map_of m (ad_window_id a) of None \<Rightarrow> [] | Some ids \<Rightarrow> ids) @ [i]) m)
       (tb_displays b) []"

definition backend_reconcile ::
  "('t, 'g) backend_env \<Rightarrow> tmux_display_plan \<Rightarrow> ('t, 'g, reconcile_report) backend_op" where
  "backend_reconcile env plan = with_state (\<lambda>b.
     bind_op (close_stale env (stale_by_window plan b) \<lparr>rp_applied = {}, rp_failed = Map.empty\<rparr>)
       (apply_windows env plan))"

section \<open>Snapshots and jumps\<close>

definition list_clients_command :: tmux_command where
  "list_clients_command = [ustr ''list-clients'', ustr ''-F'',
     join_with tab (map ustr [''#{client_name}'', ''#{client_control_mode}'', ''#{session_id}'',
       ''#{window_id}'', ''#{client_activity}''])]"

definition list_panes_command :: tmux_command where
  "list_panes_command = [ustr ''list-panes'', ustr ''-a'', ustr ''-F'',
     join_with tab (map ustr [''#{pane_id}'', ''#{session_id}'', ''#{window_id}'', ''#{pane_floating_flag}'',
       ''#{pane_left}'', ''#{pane_top}'', ''#{pane_width}'', ''#{pane_height}''])]"

definition prune_one :: "ustring \<Rightarrow> ('t, 'g, unit) backend_op" where
  "prune_one i =
     then_op (forget_display i)
     (case window_display_id_new i of
        Inr w \<Rightarrow> terminate_renderer w TermRenderFailed | Inl _ \<Rightarrow> ret ())"

definition prune_missing_displays :: "topology \<Rightarrow> ('t, 'g, unit) backend_op" where
  "prune_missing_displays t = with_state (\<lambda>b.
     each_op (map fst (filter (\<lambda>(i, a). map_of (topo_panes t) (ad_pane_id a) = None) (tb_displays b))) prune_one)"

definition backend_snapshot :: "('t, 'g) backend_env \<Rightarrow> ('t, 'g, topology) backend_op" where
  "backend_snapshot env =
     bind_op (checked_command env [list_clients_command]) (\<lambda>clients.
     bind_op (checked_command env [list_panes_command]) (\<lambda>panes.
     bind_op (from_result (map_sum TmuxTopology id
        (from_format_output (join_with 0x0a (cr_output clients)) (join_with 0x0a (cr_output panes))))) (\<lambda>t.
     then_op (prune_missing_displays t) (ret t))))"

definition close_attention_before_jump :: "('t, 'g) backend_env \<Rightarrow> ('t, 'g, unit) backend_op" where
  "close_attention_before_jump env = with_state (\<lambda>b.
     close_displays env
       (map fst (filter (\<lambda>(i, a). ad_kind a = AttentionDisplay) (tb_displays b))) TermJumped)"

text \<open>The client that jumps: the likely one if it is still attached, or else the latest active one.\<close>

definition jump_client :: "topology \<Rightarrow> ustring option \<Rightarrow> client_view option" where
  "jump_client t likely =
     (case Option.bind likely (\<lambda>name. find (\<lambda>c. \<not> cv_is_control c \<and> cv_name c = name) (topo_clients t)) of
        Some c \<Rightarrow> Some c
      | None \<Rightarrow> max_by_key cv_last_activity (filter (\<lambda>c. \<not> cv_is_control c) (topo_clients t)))"

definition backend_jump :: "('t, 'g) backend_env \<Rightarrow> jump_target \<Rightarrow> ('t, 'g, unit) backend_op" where
  "backend_jump env target =
     bind_op (from_result (validate_stable_id (jt_pane_id target) (of_char CHR ''%''))) (\<lambda>_.
     bind_op (backend_snapshot env) (\<lambda>t.
     case map_of (topo_panes t) (jt_pane_id target) of
       None \<Rightarrow> raise (TmuxProtocol ''Source Pane no longer exists'')
     | Some pane \<Rightarrow>
         (case jump_client t (jt_likely_client target) of
            None \<Rightarrow> raise (TmuxProtocol ''no attached tmux client can perform jump'')
          | Some client \<Rightarrow>
              bind_op (from_result (validate_client_name (cv_name client))) (\<lambda>client_name.
              then_op (close_attention_before_jump env)
              (bind_op (checked_command env
                  (jump_commands client_name (p_session_id pane) (p_window_id pane) (p_id pane)))
                (\<lambda>_. ret ()))))))"

end
