(* ===== verification/Tmux_Backend_Props.thy ===== *)
theory Tmux_Backend_Props
  imports Tmux_Backend Renderer_Sessions_Props
begin

text \<open>
  What reconciling guarantees: the table of displays is ordered after every call, a window that is
  reported as applied shows exactly its planned displays, whatever happened to other windows, and
  nothing is left of windows the plan does not name.
\<close>

section \<open>Operations that leave the displays alone\<close>

definition keeps :: "('t, 'g, 'a) backend_op \<Rightarrow> bool" where
  "keeps m \<longleftrightarrow> (\<forall>b. tb_displays (snd (m b)) = tb_displays b \<and> fst (m b) \<noteq> Inl Panic)"

named_theorems keeps_intros "operations that leave the table of displays alone and do not panic"

lemma keepsD:
  assumes "keeps m" and "m b = (r, b')"
  shows "tb_displays b' = tb_displays b" "r \<noteq> Inl Panic"
  using assms by (auto simp: keeps_def dest: spec [of _ b])

lemma keepsI:
  "(\<And>b r b'. m b = (r, b') \<Longrightarrow> tb_displays b' = tb_displays b \<and> r \<noteq> Inl Panic) \<Longrightarrow> keeps m"
  unfolding keeps_def by (metis prod.collapse)

lemma keeps_ret [keeps_intros]: "keeps (ret a)"
  by (simp add: keeps_def ret_def)

lemma keeps_raise [keeps_intros]: "keeps (raise e)"
  by (simp add: keeps_def raise_def)

lemma keeps_from_result [keeps_intros]: "keeps (from_result r)"
  by (cases r) (simp_all add: from_result_def keeps_ret keeps_raise)

lemma keeps_bind [keeps_intros]:
  assumes "keeps m" and "\<And>a. keeps (f a)"
  shows "keeps (bind_op m f)"
proof (rule keepsI)
  fix b r b'
  assume run: "bind_op m f b = (r, b')"
  obtain r1 b1 where m: "m b = (r1, b1)" by force
  show "tb_displays b' = tb_displays b \<and> r \<noteq> Inl Panic"
  proof (cases r1)
    case (Inl e)
    with run m have "r = Inl e" "b' = b1" by (simp_all add: bind_op_def)
    with keepsD [OF assms(1) m] Inl show ?thesis by simp
  next
    case (Inr a)
    with run m have "f a b1 = (r, b')" by (simp add: bind_op_def)
    from keepsD [OF assms(2) this] keepsD [OF assms(1) m] show ?thesis by simp
  qed
qed

lemma keeps_then [keeps_intros]: "keeps m \<Longrightarrow> keeps n \<Longrightarrow> keeps (then_op m n)"
  unfolding then_op_def by (rule keeps_bind)

lemma keeps_ensure [keeps_intros]: "keeps (ensure_connection env)"
  by (auto simp: keeps_def ensure_connection_def split: sum.split prod.split)

lemma keeps_command [keeps_intros]: "keeps (backend_command env cs)"
  unfolding backend_command_def
  by (rule keeps_then [OF keeps_ensure]) (auto simp: keeps_def split: sum.split prod.split)

lemma keeps_checked [keeps_intros]: "keeps (checked_command env cs)"
  unfolding checked_command_def by (intro keeps_intros)

lemma keeps_display_id [keeps_intros]: "keeps (checked_display_id i)"
  unfolding checked_display_id_def by (rule keeps_from_result)

lemma keeps_sessions [keeps_intros]: "keeps (with_sessions f)"
  by (auto simp: keeps_def with_sessions_def split: sum.split prod.split)

lemma keeps_terminate [keeps_intros]: "keeps (terminate_renderer w r)"
  by (simp add: keeps_def terminate_renderer_def modify_def)

lemma keeps_attempt [keeps_intros]: "keeps m \<Longrightarrow> keeps (attempt m)"
  unfolding keeps_def attempt_def by (auto split: sum.split prod.split fault.split) (metis fst_conv snd_conv)+

lemma keeps_ignore [keeps_intros]: "keeps m \<Longrightarrow> keeps (ignore_result m)"
  unfolding ignore_result_def by (intro keeps_intros)

lemma keeps_on_error [keeps_intros]:
  assumes "keeps m" and "keeps c"
  shows "keeps (on_error m c)"
proof (rule keepsI)
  fix b r b'
  assume run: "on_error m c b = (r, b')"
  obtain r1 b1 where m: "m b = (r1, b1)" by force
  show "tb_displays b' = tb_displays b \<and> r \<noteq> Inl Panic"
  proof (cases "\<exists>e. r1 = Inl (Fail e)")
    case True
    then obtain e where e: "r1 = Inl (Fail e)" by blast
    with run m have "then_op c (raise e) b1 = (r, b')" by (simp add: on_error_def)
    from keepsD [OF keeps_then [OF assms(2) keeps_raise] this] keepsD [OF assms(1) m] show ?thesis by simp
  next
    case False
    with run m have "r = r1" "b' = b1" by (auto simp: on_error_def split: sum.splits fault.splits)
    with keepsD [OF assms(1) m] show ?thesis by simp
  qed
qed

lemma keeps_if [keeps_intros]: "keeps m \<Longrightarrow> keeps n \<Longrightarrow> keeps (if c then m else n)"
  by simp

lemma keeps_float [keeps_intros]: "keeps (float_toast env w window desired pane)"
  unfolding float_toast_def by (intro keeps_intros)

text \<open>Any condition on the table goes through them.\<close>

abbreviation disp :: "((ustring \<times> actual_display) list \<Rightarrow> bool) \<Rightarrow> ('t, 'g) tmux_backend \<Rightarrow> bool" where
  "disp R \<equiv> \<lambda>b. R (tb_displays b)"

lemma triple_keeps: "keeps m \<Longrightarrow> triple (disp R) m (\<lambda>_. disp R) (\<lambda>_. disp R)"
  by (auto simp: triple_def split: prod.split sum.split fault.split dest: keepsD)

lemma triple_after_keeps:
  assumes "keeps m" and "\<And>a. triple (disp R) (f a) Q E" and "\<And>e b. R (tb_displays b) \<Longrightarrow> E e b"
  shows "triple (disp R) (bind_op m f) Q E"
proof (rule triple_bind)
  show "triple (disp R) m (\<lambda>_. disp R) E"
    by (rule triple_conseq [OF triple_keeps [OF assms(1), of R]]) (auto intro: assms(3))
qed (rule assms(2))

lemma triple_then_weak:
  assumes "triple P m (\<lambda>_. R) E1" and "triple R n Q E" and "\<And>e s. E1 e s \<Longrightarrow> E e s"
  shows "triple P (then_op m n) Q E"
  by (rule triple_then [OF _ assms(2)]) (rule triple_conseq [OF assms(1) _ _ assms(3)])

lemma triple_then_keeps:
  assumes "keeps m" and "triple (disp R) n Q E" and "\<And>e b. R (tb_displays b) \<Longrightarrow> E e b"
  shows "triple (disp R) (then_op m n) Q E"
  unfolding then_op_def by (rule triple_after_keeps [OF assms])

section \<open>Closing\<close>

text \<open>Displays that are gone.\<close>

definition without :: "ustring set \<Rightarrow> (ustring \<rightharpoonup> actual_display) \<Rightarrow> ustring \<rightharpoonup> actual_display" where
  "without S m = (\<lambda>i. if i \<in> S then None else m i)"

lemma without_none: "without {} m = m"
  by (simp add: without_def)

lemma close_one_triple:
  "triple (disp (\<lambda>d. bt_ok d \<and> map_of d = without S m)) (close_one r i)
     (\<lambda>_. disp (\<lambda>d. bt_ok d \<and> map_of d = without (insert i S) m))
     (\<lambda>_. disp (\<lambda>d. bt_ok d \<and> (map_of d = without S m \<or> map_of d = without (insert i S) m)))"
  unfolding close_one_def
proof (rule triple_with_state, goal_cases)
  case (1 b)
  show ?case
  proof (cases "map_of (tb_displays b) i")
    case None
    with 1 have "without (insert i S) m = without S m" by (auto simp: without_def fun_eq_iff split: if_splits)
    with None 1 show ?thesis by (auto intro: triple_ret)
  next
    case (Some a)
    let ?R = "\<lambda>d. bt_ok d \<and> map_of d = without (insert i S) m"
    have gone: "?R (bt_remove i (tb_displays b))"
      using 1 by (auto simp: btree.lookup_remove btree.ok_remove without_def fun_eq_iff)
    have "triple (\<lambda>s. s = b) (forget_display i) (\<lambda>_. disp ?R) (\<lambda>_ _. False)"
      unfolding forget_display_def using gone by (auto intro!: triple_modify)
    moreover have "triple (disp ?R) (bind_op (checked_display_id i) (\<lambda>w. terminate_renderer w r)) (\<lambda>_. disp ?R) (\<lambda>_. disp ?R)"
      by (intro triple_keeps keeps_intros)
    ultimately have "triple (\<lambda>s. s = b) (then_op (forget_display i)
        (bind_op (checked_display_id i) (\<lambda>w. terminate_renderer w r))) (\<lambda>_. disp ?R) (\<lambda>_. disp ?R)"
      by (rule triple_then_weak) simp
    then have "triple (\<lambda>s. s = b) (then_op (forget_display i)
        (bind_op (checked_display_id i) (\<lambda>w. terminate_renderer w r))) (\<lambda>_. disp ?R)
        (\<lambda>_. disp (\<lambda>d. bt_ok d \<and> (map_of d = without S m \<or> map_of d = without (insert i S) m)))"
      by (rule triple_conseq) auto
    then show ?thesis using Some by simp
  qed
qed

lemma close_each_triple:
  "triple (disp (\<lambda>d. bt_ok d \<and> map_of d = without S m)) (each_op ids (close_one r))
     (\<lambda>_. disp (\<lambda>d. bt_ok d \<and> map_of d = without (set ids \<union> S) m))
     (\<lambda>_. disp (\<lambda>d. bt_ok d \<and> (\<exists>T \<subseteq> set ids \<union> S. map_of d = without T m)))"
proof (induction ids arbitrary: S)
  case Nil
  show ?case by (auto intro!: triple_ret)
next
  case (Cons i ids)
  show ?case
    unfolding each_op.simps
    by (rule triple_then_weak [OF close_one_triple triple_conseq [OF Cons.IH [of "insert i S"]]]) auto
qed

lemma close_displays_triple:
  "triple (disp (\<lambda>d. bt_ok d \<and> map_of d = m)) (close_displays env ids r)
     (\<lambda>_. disp (\<lambda>d. bt_ok d \<and> map_of d = without (set ids) m))
     (\<lambda>_. disp (\<lambda>d. bt_ok d \<and> (\<exists>T \<subseteq> set ids. map_of d = without T m)))"
proof (cases "ids = []")
  case True
  then show ?thesis by (auto simp: close_displays_def without_def intro!: triple_ret)
next
  case False
  have start: "without {} m = m" by (rule without_none)
  have each: "triple (disp (\<lambda>d. bt_ok d \<and> map_of d = m)) (each_op ids (close_one r))
     (\<lambda>_. disp (\<lambda>d. bt_ok d \<and> map_of d = without (set ids) m))
     (\<lambda>_. disp (\<lambda>d. bt_ok d \<and> (\<exists>T \<subseteq> set ids. map_of d = without T m)))"
    using close_each_triple [of "{}" m ids r] by (simp add: start)
  have body: "triple (\<lambda>s. s = b) (then_op (if cs = [] then ret () else bind_op (checked_command env cs) (\<lambda>_. ret ()))
      (each_op ids (close_one r)))
     (\<lambda>_. disp (\<lambda>d. bt_ok d \<and> map_of d = without (set ids) m))
     (\<lambda>_. disp (\<lambda>d. bt_ok d \<and> (\<exists>T \<subseteq> set ids. map_of d = without T m)))"
    if "bt_ok (tb_displays b)" "map_of (tb_displays b) = m" for b cs
  proof (rule triple_conseq [OF triple_then_keeps [OF _ each]])
    show "keeps (if cs = [] then ret () else bind_op (checked_command env cs) (\<lambda>_. ret ()))"
      by (intro keeps_intros)
  qed (use that start in auto)
  show ?thesis
    unfolding close_displays_def Let_def if_not_P [OF False]
    by (rule triple_with_state) (rule body; simp)
qed

section \<open>One display\<close>

definition matches :: "window_id \<Rightarrow> planned_display \<Rightarrow> actual_display \<Rightarrow> bool" where
  "matches w p a \<longleftrightarrow> ad_window_id a = w \<and> ad_kind a = pd_kind p \<and> ad_geometry a = pd_geometry p
     \<and> ad_content a = pd_content p"

text \<open>The table, as a map; and the table in which one display has been set.\<close>

definition table_is :: "(ustring \<rightharpoonup> actual_display) \<Rightarrow> (ustring \<times> actual_display) list \<Rightarrow> bool" where
  "table_is m d \<longleftrightarrow> bt_ok d \<and> map_of d = m"

lemma set_display_triple: "triple (disp (table_is m)) (set_display i a) (\<lambda>_. disp (table_is (m(i \<mapsto> a)))) E"
  unfolding set_display_def
  by (rule triple_modify) (simp add: table_is_def btree.lookup_insert btree.ok_insert)

lemma alter_display_triple:
  assumes "m i = Some a"
  shows "triple (disp (table_is m)) (alter_display i f) (\<lambda>_. disp (table_is (m(i \<mapsto> f a)))) E"
  unfolding alter_display_def
proof (rule triple_with_state, goal_cases)
  case (1 b)
  then have "map_of (tb_displays b) i = Some a" using assms by (simp add: table_is_def)
  moreover have "triple (\<lambda>s. s = b) (set_display i (f a)) (\<lambda>_. disp (table_is (m(i \<mapsto> f a)))) E"
    by (rule triple_conseq [OF set_display_triple [of m]]) (use 1 in simp_all)
  ultimately show ?case by simp
qed

lemma create_display_triple:
  "triple (disp (table_is m)) (create_display env w p)
     (\<lambda>_. disp (\<lambda>d. \<exists>a. matches w p a \<and> table_is (m(pd_display_id p \<mapsto> a)) d)) (\<lambda>_. disp (table_is m))"
  unfolding create_display_def Let_def
proof (intro triple_after_keeps keeps_intros, goal_cases)
  case (1 wd launch result)
  show ?case
  proof (cases "find (stable_digits (of_char CHR ''%'')) (rev (cr_output result))")
    case None
    then show ?thesis
      by (simp, intro triple_then_keeps [OF keeps_terminate triple_raise]) simp_all
  next
    case (Some pane)
    let ?a = "\<lparr>ad_pane_id = pane, ad_window_id = w, ad_kind = pd_kind p, ad_geometry = pd_geometry p,
       ad_content = pd_content p\<rparr>"
    have "matches w p ?a" by (simp add: matches_def)
    then have "triple (disp (table_is m)) (set_display (pd_display_id p) ?a)
       (\<lambda>_. disp (\<lambda>d. \<exists>a. matches w p a \<and> table_is (m(pd_display_id p \<mapsto> a)) d)) (\<lambda>_. disp (table_is m))"
      by (intro triple_conseq [OF set_display_triple]) auto
    then show ?thesis using Some by (simp, intro triple_then_keeps keeps_intros)
  qed
qed

lemma update_commands_Nil: "update_commands a p = [] \<longleftrightarrow> ad_geometry a = pd_geometry p"
proof -
  have "g = h \<longleftrightarrow> g_x g = g_x h \<and> g_y g = g_y h \<and> g_width g = g_width h \<and> g_height g = g_height h
      \<and> g_z_index g = g_z_index h" for g h :: geometry
    by (cases g; cases h) auto
  then show ?thesis by (auto simp: update_commands_def append_relative_moves_def Let_def split: if_splits)
qed

lemma update_display_triple:
  assumes "m i = Some a" and "ad_window_id a = w" and "ad_kind a = pd_kind p"
  shows "triple (disp (table_is m)) (update_display env i a p)
     (\<lambda>_. disp (\<lambda>d. \<exists>a. matches w p a \<and> table_is (m(i \<mapsto> a)) d))
     (\<lambda>_. disp (\<lambda>d. \<exists>a. ad_window_id a = w \<and> table_is (m(i \<mapsto> a)) d))"
proof -
  let ?g = "a\<lparr>ad_geometry := pd_geometry p\<rparr>"
  let ?E = "\<lambda>_. disp (\<lambda>d. \<exists>a. ad_window_id a = w \<and> table_is (m(i \<mapsto> a)) d)"
  have same: "m(i \<mapsto> a) = m" using assms(1) by auto
  have start: "\<exists>a. ad_window_id a = w \<and> table_is (m(i \<mapsto> a)) d" if "table_is m d" for d
    using that assms(2) same by metis
  have geo: "triple (disp (table_is m)) (if update_commands a p = [] then ret ()
        else bind_op (checked_command env (update_commands a p)) (\<lambda>_.
          alter_display i (\<lambda>d. d\<lparr>ad_geometry := pd_geometry p\<rparr>)))
      (\<lambda>_. disp (table_is (m(i \<mapsto> ?g)))) ?E"
  proof (cases "update_commands a p = []")
    case True
    then have "?g = a" using update_commands_Nil by (cases a) auto
    with True same show ?thesis by (auto intro!: triple_ret)
  next
    case False
    have "triple (disp (table_is m)) (alter_display i (\<lambda>d. d\<lparr>ad_geometry := pd_geometry p\<rparr>))
        (\<lambda>_. disp (table_is (m(i \<mapsto> ?g)))) ?E"
      by (rule alter_display_triple [where m = m and i = i, OF assms(1)])
    with False show ?thesis
      by (simp, intro triple_after_keeps keeps_intros) (auto intro: start)
  qed
  have content: "triple (disp (table_is (m(i \<mapsto> ?g)))) (if ad_content a = pd_content p then ret ()
      else bind_op (checked_display_id i) (\<lambda>w.
        bind_op (with_sessions (sessions_update w (pd_content p))) (\<lambda>_.
        alter_display i (\<lambda>d. d\<lparr>ad_content := pd_content p\<rparr>))))
      (\<lambda>_. disp (\<lambda>d. \<exists>a. matches w p a \<and> table_is (m(i \<mapsto> a)) d)) ?E"
  proof (cases "ad_content a = pd_content p")
    case True
    then have "matches w p ?g" using assms(2,3) by (simp add: matches_def)
    with True show ?thesis by (auto intro!: triple_ret)
  next
    case False
    let ?c = "?g\<lparr>ad_content := pd_content p\<rparr>"
    have c: "matches w p ?c" using assms(2,3) by (simp add: matches_def)
    have step: "triple (disp (table_is (m(i \<mapsto> ?g)))) (alter_display i (\<lambda>d. d\<lparr>ad_content := pd_content p\<rparr>))
        (\<lambda>_. disp (table_is ((m(i \<mapsto> ?g))(i \<mapsto> ?c)))) ?E"
      by (rule alter_display_triple) simp
    have alter: "triple (disp (table_is (m(i \<mapsto> ?g)))) (alter_display i (\<lambda>d. d\<lparr>ad_content := pd_content p\<rparr>))
        (\<lambda>_. disp (\<lambda>d. \<exists>a. matches w p a \<and> table_is (m(i \<mapsto> a)) d)) ?E"
      by (rule triple_conseq [OF step]) (use c in auto)
    have mid: "\<exists>a. ad_window_id a = w \<and> table_is (m(i \<mapsto> a)) d" if "table_is (m(i \<mapsto> ?g)) d" for d
      using that assms(2) by (intro exI [of _ ?g]) simp
    have "triple (disp (table_is (m(i \<mapsto> ?g)))) (bind_op (checked_display_id i) (\<lambda>w.
        bind_op (with_sessions (sessions_update w (pd_content p))) (\<lambda>_.
        alter_display i (\<lambda>d. d\<lparr>ad_content := pd_content p\<rparr>))))
      (\<lambda>_. disp (\<lambda>d. \<exists>a. matches w p a \<and> table_is (m(i \<mapsto> a)) d)) ?E"
      by (intro triple_after_keeps keeps_intros alter) (rule mid, assumption)+
    with False show ?thesis by simp
  qed
  show ?thesis
    unfolding update_display_def Let_def
    by (intro triple_after_keeps keeps_intros triple_then [OF geo content]) (auto intro: start)
qed

lemma triple_with_table:
  fixes f :: "('t, 'g) tmux_backend \<Rightarrow> ('t, 'g, 'a) backend_op"
  assumes "\<And>b. table_is m (tb_displays b) \<Longrightarrow> triple (disp (table_is m)) (f b) Q E"
  shows "triple (disp (table_is m)) (with_state f) Q E"
proof (rule triple_with_state)
  fix b :: "('t, 'g) tmux_backend"
  assume t: "table_is m (tb_displays b)"
  show "triple (\<lambda>s. s = b) (f b) Q E" by (rule triple_conseq [OF assms [OF t]]) (use t in auto)
qed

lemma triple_ex: "(\<And>x. triple (P x) m Q E) \<Longrightarrow> triple (\<lambda>b. \<exists>x. P x b) m Q E"
  unfolding triple_def by (intro allI impI, erule exE, drule meta_spec, drule spec, erule (1) mp)

lemma close_table_triple:
  "triple (disp (table_is m)) (close_displays env ids r) (\<lambda>_. disp (table_is (without (set ids) m)))
     (\<lambda>_. disp (\<lambda>d. \<exists>T \<subseteq> set ids. table_is (without T m) d))"
  by (rule triple_conseq [OF close_displays_triple [of m env ids r]]) (auto simp: table_is_def)

text \<open>What a failed attempt at one display may leave at its ID.\<close>

definition leftover :: "window_id \<Rightarrow> ustring \<Rightarrow> (ustring \<rightharpoonup> actual_display) \<Rightarrow> (ustring \<times> actual_display) list \<Rightarrow> bool" where
  "leftover w i m d \<longleftrightarrow> (\<exists>x. (\<forall>a. x = Some a \<longrightarrow> ad_window_id a = w \<or> m i = Some a) \<and> table_is (m(i := x)) d)"

lemma leftover_start: "table_is m d \<Longrightarrow> leftover w i m d"
  unfolding leftover_def by (intro exI [of _ "m i"]) simp

lemma leftover_gone: "table_is (m(i := None)) d \<Longrightarrow> leftover w i m d"
  unfolding leftover_def by (intro exI [of _ None]) simp

lemma leftover_set: "table_is (m(i \<mapsto> a)) d \<Longrightarrow> ad_window_id a = w \<Longrightarrow> leftover w i m d"
  unfolding leftover_def by (intro exI [of _ "Some a"]) simp

lemma reconcile_display_triple:
  fixes p :: planned_display and env :: "('t, 'g) backend_env"
  defines "i \<equiv> pd_display_id p"
  shows "triple (disp (table_is m)) (reconcile_display env w p)
     (\<lambda>_. disp (\<lambda>d. \<exists>a. matches w p a \<and> table_is (m(i \<mapsto> a)) d)) (\<lambda>_. disp (leftover w i m))"
  unfolding reconcile_display_def Let_def i_def [symmetric]
proof (intro triple_after_keeps keeps_intros triple_with_table, goal_cases)
  case (1 u b)
  let ?Q = "\<lambda>_. disp (\<lambda>d. \<exists>a. matches w p a \<and> table_is (m(i \<mapsto> a)) d)"
  let ?next = "with_state (\<lambda>b. case map_of (tb_displays b) i of
      Some actual \<Rightarrow> update_display env i actual p | None \<Rightarrow> create_display env w p)"
  have here: "map_of (tb_displays b) i = m i" using 1 by (simp add: table_is_def)
  have create: "triple (disp (table_is n)) ?next ?Q (\<lambda>_. disp (leftover w i m))"
    if "n = m(i := None)" for n
  proof (rule triple_with_table)
    fix b :: "('t, 'g) tmux_backend"
    assume "table_is n (tb_displays b)"
    then have none: "map_of (tb_displays b) i = None" using that by (simp add: table_is_def)
    have "triple (disp (table_is n)) (create_display env w p) ?Q (\<lambda>_. disp (leftover w i m))"
      by (rule triple_conseq [OF create_display_triple [where m = n]])
        (use that in \<open>auto simp: i_def [symmetric] intro: leftover_gone\<close>)
    with none show "triple (disp (table_is n)) (case map_of (tb_displays b) i of
      Some actual \<Rightarrow> update_display env i actual p | None \<Rightarrow> create_display env w p) ?Q (\<lambda>_. disp (leftover w i m))"
      by simp
  qed
  show ?case
  proof (cases "m i")
    case None
    then have same: "m = m(i := None)" by auto
    have "triple (disp (table_is m)) ?next ?Q (\<lambda>_. disp (leftover w i m))"
      by (rule create [OF same])
    with None here show ?thesis
      by (simp, intro triple_then_keeps keeps_ret) (auto intro: leftover_start)
  next
    case (Some a)
    show ?thesis
    proof (cases "ad_window_id a \<noteq> w \<or> ad_kind a \<noteq> pd_kind p")
      case True
      have gone: "without (set [i]) m = m(i := None)" by (auto simp: without_def)
      have "triple (disp (table_is m)) (close_displays env [i] TermRecreated)
          (\<lambda>_. disp (table_is (m(i := None)))) (\<lambda>_. disp (leftover w i m))"
      proof (rule triple_conseq [OF close_table_triple [of m]], goal_cases)
        case (3 e s)
        then obtain T where "T \<subseteq> {i}" "table_is (without T m) (tb_displays s)" by auto
        moreover from this(1) have "without T m = m \<or> without T m = m(i := None)"
          using without_none [of m] gone by (auto dest!: subset_singletonD simp: list.set)
        ultimately have "table_is m (tb_displays s) \<or> table_is (m(i := None)) (tb_displays s)"
          by metis
        then show ?case by (auto intro: leftover_start leftover_gone)
      qed (use gone in auto)
      then have "triple (disp (table_is m)) (then_op (close_displays env [i] TermRecreated) ?next) ?Q
          (\<lambda>_. disp (leftover w i m))"
        by (rule triple_then) (rule create; simp)
      with True Some here show ?thesis by simp
    next
      case False
      have "triple (disp (table_is m)) ?next ?Q (\<lambda>_. disp (leftover w i m))"
      proof (rule triple_with_table)
        fix b :: "('t, 'g) tmux_backend"
        assume "table_is m (tb_displays b)"
        then have found: "map_of (tb_displays b) i = Some a" using Some by (simp add: table_is_def)
        have "triple (disp (table_is m)) (update_display env i a p) ?Q (\<lambda>_. disp (leftover w i m))"
          by (rule triple_conseq [OF update_display_triple [where m = m and w = w]])
            (use Some False in \<open>auto intro: leftover_set\<close>)
        with found show "triple (disp (table_is m)) (case map_of (tb_displays b) i of
          Some actual \<Rightarrow> update_display env i actual p | None \<Rightarrow> create_display env w p) ?Q (\<lambda>_. disp (leftover w i m))"
          by simp
      qed
      with False Some here show ?thesis
        by (simp, intro triple_then_keeps keeps_ret) (auto intro: leftover_start)
    qed
  qed
qed (rule leftover_start)

section \<open>One window\<close>

text \<open>
  How the table may change while one window is reconciled: displays of that window may disappear,
  and the planned IDs may disappear or come to stand in it. Everything else is as it was.
\<close>

definition evolves ::
  "window_id \<Rightarrow> ustring set \<Rightarrow> (ustring \<rightharpoonup> actual_display) \<Rightarrow> (ustring \<rightharpoonup> actual_display) \<Rightarrow> bool" where
  "evolves w I m m' \<longleftrightarrow> (\<forall>i. m' i = m i
     \<or> m' i = None \<and> (i \<in> I \<or> (\<exists>a. m i = Some a \<and> ad_window_id a = w))
     \<or> i \<in> I \<and> (\<exists>a. m' i = Some a \<and> ad_window_id a = w))"

definition shown :: "window_id \<Rightarrow> (ustring \<rightharpoonup> actual_display) \<Rightarrow> planned_display \<Rightarrow> bool" where
  "shown w m p \<longleftrightarrow> (\<exists>a. m (pd_display_id p) = Some a \<and> matches w p a)"

definition only :: "window_id \<Rightarrow> ustring set \<Rightarrow> (ustring \<rightharpoonup> actual_display) \<Rightarrow> bool" where
  "only w I m \<longleftrightarrow> (\<forall>i a. m i = Some a \<longrightarrow> ad_window_id a = w \<longrightarrow> i \<in> I)"

lemma evolves_refl: "evolves w I m m"
  by (simp add: evolves_def)

lemma evolves_trans: "evolves w I m m' \<Longrightarrow> evolves w I m' m'' \<Longrightarrow> evolves w I m m''"
  unfolding evolves_def by metis

lemma evolves_put: "i \<in> I \<Longrightarrow> \<forall>a. x = Some a \<longrightarrow> ad_window_id a = w \<or> m i = Some a \<Longrightarrow> evolves w I m (m(i := x))"
  by (cases x) (auto simp: evolves_def)

lemma evolves_without: "\<forall>i \<in> S. \<forall>a. m i = Some a \<longrightarrow> ad_window_id a = w \<Longrightarrow> evolves w I m (without S m)"
  unfolding evolves_def without_def by (metis (full_types) not_None_eq)

lemma only_put: "only w I m \<Longrightarrow> i \<in> I \<Longrightarrow> only w I (m(i := x))"
  by (auto simp: only_def)

lemma shown_put: "shown w m q \<Longrightarrow> pd_display_id q \<noteq> i \<Longrightarrow> shown w (m(i := x)) q"
  by (simp add: shown_def)

lemma displays_triple:
  assumes "distinct (map pd_display_id (done @ ds))" and "pd_display_id ` set ds \<subseteq> I"
    and "evolves w I m0 m" and "only w I m" and "\<forall>p \<in> set done. shown w m p"
  shows "triple (disp (table_is m)) (each_op ds (reconcile_display env w))
     (\<lambda>_. disp (\<lambda>d. \<exists>m'. table_is m' d \<and> evolves w I m0 m' \<and> only w I m' \<and> (\<forall>p \<in> set (done @ ds). shown w m' p)))
     (\<lambda>_. disp (\<lambda>d. \<exists>m'. table_is m' d \<and> evolves w I m0 m'))"
  using assms
proof (induction ds arbitrary: "done" m)
  case Nil
  then show ?case by (auto intro!: triple_ret)
next
  case (Cons p ds)
  let ?i = "pd_display_id p"
  let ?Q = "disp (\<lambda>d. \<exists>m'. table_is m' d \<and> evolves w I m0 m' \<and> only w I m'
    \<and> (\<forall>p \<in> set (done @ p # ds). shown w m' p))"
  let ?E = "disp (\<lambda>d. \<exists>m'. table_is m' d \<and> evolves w I m0 m')"
  have i: "?i \<in> I" using Cons.prems by simp
  have step: "triple (disp (table_is m)) (reconcile_display env w p)
     (\<lambda>_ b. \<exists>a. matches w p a \<and> table_is (m(?i \<mapsto> a)) (tb_displays b)) (\<lambda>_. ?E)"
  proof (rule triple_conseq [OF reconcile_display_triple [of m env w p]], goal_cases)
    case (3 e s)
    then obtain x where x: "\<forall>a. x = Some a \<longrightarrow> ad_window_id a = w \<or> m ?i = Some a"
      "table_is (m(?i := x)) (tb_displays s)"
      unfolding leftover_def by blast
    have "evolves w I m (m(?i := x))" by (rule evolves_put) (use i x(1) in simp_all)
    from evolves_trans [OF Cons.prems(3) this] x(2) show ?case by blast
  qed auto
  have rest: "triple (\<lambda>b. matches w p a \<and> table_is (m(?i \<mapsto> a)) (tb_displays b))
      (each_op ds (reconcile_display env w)) (\<lambda>_. ?Q) (\<lambda>_. ?E)" for a
  proof (cases "matches w p a")
    case True
    then have "evolves w I m (m(?i \<mapsto> a))" by (intro evolves_put i) (simp add: matches_def)
    moreover have "\<forall>q \<in> set (done @ [p]). shown w (m(?i \<mapsto> a)) q"
    proof -
      have "shown w (m(?i \<mapsto> a)) q" if "q \<in> set done" for q
      proof (rule shown_put)
        show "shown w m q" using Cons.prems(5) that by blast
        show "pd_display_id q \<noteq> ?i" using Cons.prems(1) that by (auto simp: rev_image_eqI)
      qed
      moreover have "shown w (m(?i \<mapsto> a)) p" using True by (simp add: shown_def)
      ultimately show ?thesis by simp
    qed
    ultimately have "triple (disp (table_is (m(?i \<mapsto> a)))) (each_op ds (reconcile_display env w))
        (\<lambda>_. disp (\<lambda>d. \<exists>m'. table_is m' d \<and> evolves w I m0 m' \<and> only w I m'
           \<and> (\<forall>p \<in> set ((done @ [p]) @ ds). shown w m' p))) (\<lambda>_. ?E)"
    proof (intro Cons.IH)
      show "distinct (map pd_display_id ((done @ [p]) @ ds))" using Cons.prems(1) by simp
      show "pd_display_id ` set ds \<subseteq> I" using Cons.prems(2) by simp
      show "only w I (m(?i \<mapsto> a))" by (rule only_put [OF Cons.prems(4) i])
    qed (rule evolves_trans [OF Cons.prems(3)])
    then show ?thesis by (rule triple_conseq) auto
  qed (simp add: triple_def)
  show ?case
    unfolding each_op.simps by (rule triple_then_weak [OF step triple_ex [OF rest]])
qed

definition showing :: "window_id \<Rightarrow> planned_display list \<Rightarrow> (ustring \<rightharpoonup> actual_display) \<Rightarrow> bool" where
  "showing w ds m \<longleftrightarrow> (\<forall>p \<in> set ds. shown w m p) \<and> only w (pd_display_id ` set ds) m"

lemma obsolete_in_window:
  assumes "table_is m (tb_displays b)" and "i \<in> set (obsolete_displays w ds b)"
  shows "\<exists>a. m i = Some a \<and> ad_window_id a = w \<and> i \<notin> pd_display_id ` set ds"
  using assms bt_lookup_iff [of "tb_displays b"] by (fastforce simp: obsolete_displays_def table_is_def)

lemma only_after_close:
  assumes "table_is m (tb_displays b)"
  shows "only w (pd_display_id ` set ds) (without (set (obsolete_displays w ds b)) m)"
proof -
  have "(i, a) \<in> set (tb_displays b)" if "m i = Some a" for i a
    using that assms bt_lookup_iff unfolding table_is_def by metis
  then show ?thesis
    by (force simp: only_def without_def obsolete_displays_def split: if_splits)
qed

lemma reconcile_window_triple:
  assumes "distinct (map pd_display_id ds)"
  shows "triple (disp (table_is m)) (reconcile_window env w ds)
     (\<lambda>_. disp (\<lambda>d. \<exists>m'. table_is m' d \<and> evolves w (pd_display_id ` set ds) m m' \<and> showing w ds m'))
     (\<lambda>_. disp (\<lambda>d. \<exists>m'. table_is m' d \<and> evolves w (pd_display_id ` set ds) m m'))"
  unfolding reconcile_window_def
proof (intro triple_after_keeps keeps_intros triple_with_table, goal_cases)
  case (1 u b)
  let ?I = "pd_display_id ` set ds"
  let ?ids = "obsolete_displays w ds b"
  have stay: "evolves w ?I m (without T m)" if "T \<subseteq> set ?ids" for T
    using that obsolete_in_window [OF 1] by (intro evolves_without) (metis option.inject subsetD)
  have close: "triple (disp (table_is m)) (close_displays env ?ids TermDismissed)
      (\<lambda>_. disp (table_is (without (set ?ids) m)))
      (\<lambda>_. disp (\<lambda>d. \<exists>m'. table_is m' d \<and> evolves w ?I m m'))"
    by (rule triple_conseq [OF close_table_triple [of m]]) (auto intro: stay)
  have each: "triple (disp (table_is (without (set ?ids) m))) (each_op ds (reconcile_display env w))
      (\<lambda>_. disp (\<lambda>d. \<exists>m'. table_is m' d \<and> evolves w ?I m m' \<and> only w ?I m' \<and> (\<forall>p \<in> set ([] @ ds). shown w m' p)))
      (\<lambda>_. disp (\<lambda>d. \<exists>m'. table_is m' d \<and> evolves w ?I m m'))"
    using assms only_after_close [OF 1] by (intro displays_triple stay) auto
  show ?case
    by (rule triple_then [OF close triple_conseq [OF each]]) (auto simp: showing_def)
qed (auto intro: evolves_refl)

section \<open>The whole plan\<close>

lemma triple_attempt:
  assumes "triple P m (\<lambda>_. Q) (\<lambda>_. E)"
  shows "triple P (attempt m) (\<lambda>r b. case r of Inl e \<Rightarrow> E b | Inr a \<Rightarrow> Q b) F"
  using assms unfolding triple_def attempt_def by (fastforce split: prod.splits sum.splits fault.splits)

text \<open>The outcome of one window, and what follows when it has been noted.\<close>

lemma noted_triple:
  assumes "triple P m (\<lambda>_. Q) (\<lambda>_. E)"
    and "triple Q (f rep') R F"
    and "\<And>e. triple E (f (rep\<lparr>rp_failed := (rp_failed rep)(w \<mapsto> e)\<rparr>)) R F"
    and "\<And>e b. E b \<Longrightarrow> F e b"
  shows "triple P (bind_op (attempt m) (\<lambda>r.
      bind_op (case r of Inl e \<Rightarrow> note_failure w e rep | Inr _ \<Rightarrow> ret rep') f)) R F"
proof (rule triple_bind [OF triple_attempt [OF assms(1)]])
  fix r
  show "triple (\<lambda>b. case r of Inl e \<Rightarrow> E b | Inr a \<Rightarrow> Q b)
     (bind_op (case r of Inl e \<Rightarrow> note_failure w e rep | Inr _ \<Rightarrow> ret rep') f) R F"
  proof (cases r)
    case (Inl e)
    let ?rep = "rep\<lparr>rp_failed := (rp_failed rep)(w \<mapsto> e)\<rparr>"
    have "triple E (note_failure w e rep) (\<lambda>x b. x = ?rep \<and> E b) F"
      unfolding note_failure_def
      by (rule triple_with_state) (auto intro!: triple_ret triple_raise simp: assms(4))
    moreover have "triple (\<lambda>b. x = ?rep \<and> E b) (f x) R F" for x
      using assms(3) [of e] by (cases "x = ?rep") (simp_all add: triple_def)
    ultimately show ?thesis using Inl by (simp, intro triple_bind)
  next
    case (Inr a)
    have "triple Q (ret rep') (\<lambda>x b. x = rep' \<and> Q b) F" by (rule triple_ret) simp
    moreover have "triple (\<lambda>b. x = rep' \<and> Q b) (f x) R F" for x
      using assms(2) by (cases "x = rep'") (simp_all add: triple_def)
    ultimately show ?thesis using Inr by (simp, intro triple_bind)
  qed
qed

text \<open>No display stands outside the planned windows.\<close>

definition inside :: "window_id set \<Rightarrow> (ustring \<rightharpoonup> actual_display) \<Rightarrow> bool" where
  "inside W m \<longleftrightarrow> (\<forall>i a. m i = Some a \<longrightarrow> ad_window_id a \<in> W)"

lemma inside_evolves: "inside W m \<Longrightarrow> evolves w I m m' \<Longrightarrow> w \<in> W \<Longrightarrow> inside W m'"
  unfolding inside_def evolves_def by (metis option.distinct(1) option.inject)

lemma showing_evolves:
  assumes "showing w ds m" and "evolves w' I m m'" and "w \<noteq> w'" and "pd_display_id ` set ds \<inter> I = {}"
  shows "showing w ds m'"
proof -
  have "m' (pd_display_id p) = m (pd_display_id p)" if p: "p \<in> set ds" for p
  proof -
    have "shown w m p" using assms(1) p by (simp add: showing_def)
    then obtain a where "m (pd_display_id p) = Some a" "ad_window_id a = w"
      unfolding shown_def matches_def by blast
    moreover have "pd_display_id p \<notin> I" using assms(4) p by auto
    ultimately show ?thesis
      using assms(2) [unfolded evolves_def, THEN spec, of "pd_display_id p"] assms(3) by auto
  qed
  then have "\<forall>p \<in> set ds. shown w m' p" using assms(1) by (simp add: showing_def shown_def)
  moreover have "only w (pd_display_id ` set ds) m'"
    using assms(1-3) unfolding showing_def only_def evolves_def by (metis option.distinct(1) option.inject)
  ultimately show ?thesis by (simp add: showing_def)
qed

text \<open>What a report promises about the windows that have been processed.\<close>

definition report_ok :: "window_id set \<Rightarrow> tmux_display_plan \<Rightarrow> reconcile_report \<Rightarrow> (ustring \<rightharpoonup> actual_display) \<Rightarrow> bool" where
  "report_ok W ps rep m \<longleftrightarrow>
     (\<forall>(w, ds) \<in> set ps. (w \<in> rp_applied rep \<or> rp_failed rep w \<noteq> None) \<and> (w \<in> rp_applied rep \<longrightarrow> showing w ds m))
     \<and> rp_applied rep \<subseteq> fst ` set ps
     \<and> (rp_failed rep = Map.empty \<longrightarrow> inside W m)"

definition separate :: "tmux_display_plan \<Rightarrow> bool" where
  "separate ps \<longleftrightarrow> distinct (map fst ps) \<and> distinct (map pd_display_id (concat (map snd ps)))"

lemma separate_snoc:
  assumes "separate (ps @ (w, ds) # qs)" and "(v, es) \<in> set ps"
  shows "v \<noteq> w" "pd_display_id ` set es \<inter> pd_display_id ` set ds = {}"
proof -
  have v: "v \<in> fst ` set ps" and es: "set es \<subseteq> (\<Union>x \<in> set ps. set (snd x))"
    using assms(2) by force+
  show "v \<noteq> w" using assms(1) v by (auto simp: separate_def)
  have "pd_display_id ` (\<Union>x \<in> set ps. set (snd x)) \<inter> pd_display_id ` set ds = {}"
    using assms(1) by (simp add: separate_def) (elim conjE, simp add: Int_Un_distrib)
  then show "pd_display_id ` set es \<inter> pd_display_id ` set ds = {}"
    using image_mono [OF es, of pd_display_id] by blast
qed

lemma report_okI:
  assumes "\<And>w ds. (w, ds) \<in> set ps \<Longrightarrow> w \<in> rp_applied rep \<or> rp_failed rep w \<noteq> None"
    and "\<And>w ds. (w, ds) \<in> set ps \<Longrightarrow> w \<in> rp_applied rep \<Longrightarrow> showing w ds m"
    and "rp_applied rep \<subseteq> fst ` set ps" and "rp_failed rep = Map.empty \<Longrightarrow> inside W m"
  shows "report_ok W ps rep m"
  using assms unfolding report_ok_def by blast

lemma report_okD:
  assumes "report_ok W ps rep m"
  shows "(w, ds) \<in> set ps \<Longrightarrow> w \<in> rp_applied rep \<or> rp_failed rep w \<noteq> None"
    and "(w, ds) \<in> set ps \<Longrightarrow> w \<in> rp_applied rep \<Longrightarrow> showing w ds m"
    and "rp_applied rep \<subseteq> fst ` set ps" and "rp_failed rep = Map.empty \<Longrightarrow> inside W m"
  using assms unfolding report_ok_def by blast+

lemma report_ok_showing:
  assumes "report_ok W ps rep m" and "evolves w (pd_display_id ` set ds) m m'"
    and "separate (ps @ (w, ds) # qs)" and "(v, es) \<in> set ps" and "v \<in> rp_applied rep"
  shows "showing v es m'"
  by (rule showing_evolves [OF report_okD(2) [OF assms(1,4,5)] assms(2) separate_snoc [OF assms(3,4)]])

lemma report_ok_applied:
  assumes "report_ok W ps rep m" and "evolves w (pd_display_id ` set ds) m m'" and "showing w ds m'"
    and "separate (ps @ (w, ds) # qs)" and "w \<in> W"
  shows "report_ok W (ps @ [(w, ds)]) (rep\<lparr>rp_applied := insert w (rp_applied rep)\<rparr>) m'"
proof (rule report_okI, goal_cases)
  case (2 v es)
  then show ?case
    using assms(3) report_ok_showing [OF assms(1,2,4)] separate_snoc(1) [OF assms(4)] by auto
next
  case 4
  then show ?case using inside_evolves [OF report_okD(4) [OF assms(1)] assms(2,5)] by simp
qed (use report_okD(1,3) [OF assms(1)] in auto)

lemma report_ok_failed:
  assumes "report_ok W ps rep m" and "evolves w (pd_display_id ` set ds) m m'"
    and "separate (ps @ (w, ds) # qs)"
  shows "report_ok W (ps @ [(w, ds)]) (rep\<lparr>rp_failed := (rp_failed rep)(w \<mapsto> e)\<rparr>) m'"
proof -
  have fresh: "w \<notin> rp_applied rep"
    using report_okD(3) [OF assms(1)] separate_snoc(1) [OF assms(3)] by fastforce
  show ?thesis
  proof (rule report_okI, goal_cases)
    case (1 v es)
    then show ?case using report_okD(1) [OF assms(1), of v es] by auto
  next
    case (2 v es)
    then show ?case using fresh report_ok_showing [OF assms] by auto
  next
    case 4
    then have "((rp_failed rep)(w \<mapsto> e)) w = None" by simp
    then show ?case by simp
  qed (use report_okD(3) [OF assms(1)] in auto)
qed

lemma apply_windows_triple:
  assumes "separate (ps @ qs)" and "fst ` set qs \<subseteq> W"
  shows "triple (disp (\<lambda>d. \<exists>m. table_is m d \<and> report_ok W ps rep m)) (apply_windows env qs rep)
     (\<lambda>rep'. disp (\<lambda>d. \<exists>m. table_is m d \<and> report_ok W (ps @ qs) rep' m)) (\<lambda>_. disp bt_ok)"
  using assms
proof (induction qs arbitrary: ps rep)
  case Nil
  then show ?case by (auto intro!: triple_ret)
next
  case (Cons q qs)
  obtain w ds where q: "q = (w, ds)" by force
  let ?ps = "ps @ [(w, ds)]"
  let ?P = "\<lambda>ps rep. disp (\<lambda>d. \<exists>m. table_is m d \<and> report_ok W ps rep m)"
  have sep: "separate (ps @ (w, ds) # qs)" and w: "w \<in> W" using Cons.prems q by auto
  have one: "triple (?P ps rep) (reconcile_window env w ds)
     (\<lambda>_. ?P ?ps (rep\<lparr>rp_applied := insert w (rp_applied rep)\<rparr>))
     (\<lambda>_. disp (\<lambda>d. \<exists>m. table_is m d \<and> (\<forall>e. report_ok W ?ps (rep\<lparr>rp_failed := (rp_failed rep)(w \<mapsto> e)\<rparr>) m)))"
    (is "triple _ _ (\<lambda>_. ?A) (\<lambda>_. ?B)")
  proof (rule triple_ex)
    fix m
    show "triple (\<lambda>b. table_is m (tb_displays b) \<and> report_ok W ps rep m) (reconcile_window env w ds) (\<lambda>_. ?A) (\<lambda>_. ?B)"
    proof (cases "report_ok W ps rep m")
      case True
      have "distinct (map pd_display_id ds)" using sep by (simp add: separate_def)
      from reconcile_window_triple [OF this, of m env w] show ?thesis
        by (rule triple_conseq)
          (use True sep w in \<open>auto intro: report_ok_applied report_ok_failed\<close>)
    qed (simp add: triple_def)
  qed
  have rest: "triple (?P ?ps rep') (apply_windows env qs rep')
      (\<lambda>rep'. ?P (ps @ q # qs) rep') (\<lambda>_. disp bt_ok)" for rep'
    using Cons.IH [of ?ps rep'] Cons.prems q by simp
  show ?case
    unfolding q apply_windows.simps
  proof (rule noted_triple [OF one], goal_cases)
    case 1
    show ?case using rest by (simp add: q)
  next
    case (2 e)
    show ?case by (rule triple_conseq [OF rest]) (auto simp: q)
  next
    case (3 e b)
    then show ?case by (auto simp: table_is_def)
  qed
qed

section \<open>Displays in windows without a plan\<close>

definition ids_at :: "(window_id \<times> ustring list) list \<Rightarrow> window_id \<Rightarrow> ustring set" where
  "ids_at m w = (case map_of m w of None \<Rightarrow> {} | Some ids \<Rightarrow> set ids)"

definition covers :: "(window_id \<times> ustring list) list \<Rightarrow> window_id set \<Rightarrow> (ustring \<rightharpoonup> actual_display) \<Rightarrow> bool" where
  "covers ws W m \<longleftrightarrow> (\<forall>i a. m i = Some a \<longrightarrow> ad_window_id a \<in> W \<or> (\<exists>(w, ids) \<in> set ws. i \<in> set ids))"

lemma ids_at_insert:
  "bt_ok m \<Longrightarrow> ids_at (bt_insert w ((case map_of m w of None \<Rightarrow> [] | Some ids \<Rightarrow> ids) @ [i]) m) v
     = ids_at m v \<union> (if v = w then {i} else {})"
  by (auto simp: ids_at_def btree.lookup_insert split: option.splits)

lemma stale_fold:
  assumes "bt_ok m"
    and "r = fold (\<lambda>(i, a) m. if ad_window_id a \<in> W then m
        else bt_insert (ad_window_id a) ((case map_of m (ad_window_id a) of None \<Rightarrow> [] | Some ids \<Rightarrow> ids) @ [i]) m) xs m"
  shows "ids_at m v \<subseteq> ids_at r v \<and> (\<forall>(i, a) \<in> set xs. ad_window_id a \<in> W \<or> i \<in> ids_at r (ad_window_id a))"
  using assms
proof (induction xs arbitrary: m v)
  case (Cons x xs)
  obtain i a where x: "x = (i, a)" by force
  let ?w = "ad_window_id a"
  let ?n = "if ?w \<in> W then m else bt_insert ?w ((case map_of m ?w of None \<Rightarrow> [] | Some ids \<Rightarrow> ids) @ [i]) m"
  have "bt_ok ?n" using Cons.prems(1) by (simp add: btree.ok_insert)
  note IH = Cons.IH [OF this]
  have r: "ids_at ?n v \<subseteq> ids_at r v \<and> (\<forall>(i, a) \<in> set xs. ad_window_id a \<in> W \<or> i \<in> ids_at r (ad_window_id a))" for v
    using Cons.prems(2) by (intro IH) (simp add: x)
  have "ids_at m v \<subseteq> ids_at ?n v" and "?w \<in> W \<or> i \<in> ids_at ?n ?w"
    using Cons.prems(1) by (auto simp: ids_at_insert)
  with r [of v] r [of ?w] show ?case by (auto simp: x)
qed simp

lemma stale_covers:
  assumes "table_is m (tb_displays b)"
  shows "covers (stale_by_window plan b) (fst ` set plan) m"
  unfolding covers_def
proof (intro allI impI)
  fix i a
  assume "m i = Some a"
  then have "(i, a) \<in> set (tb_displays b)"
    using assms bt_lookup_iff unfolding table_is_def by metis
  with stale_fold [OF bt_ok_Nil refl, where W = "fst ` set plan" and xs = "tb_displays b"]
  have "ad_window_id a \<in> fst ` set plan \<or> i \<in> ids_at (stale_by_window plan b) (ad_window_id a)"
    by (fastforce simp: stale_by_window_def)
  then show "ad_window_id a \<in> fst ` set plan \<or> (\<exists>(w, ids) \<in> set (stale_by_window plan b). i \<in> set ids)"
    by (auto simp: ids_at_def split: option.splits dest!: map_of_SomeD)
qed

definition stale_ok :: "(window_id \<times> ustring list) list \<Rightarrow> window_id set \<Rightarrow> reconcile_report \<Rightarrow> (ustring \<rightharpoonup> actual_display) \<Rightarrow> bool" where
  "stale_ok ws W rep m \<longleftrightarrow> rp_applied rep = {} \<and> (rp_failed rep = Map.empty \<longrightarrow> covers ws W m)"

lemma close_stale_triple:
  "triple (disp (\<lambda>d. \<exists>m. table_is m d \<and> stale_ok ws W rep m)) (close_stale env ws rep)
     (\<lambda>rep'. disp (\<lambda>d. \<exists>m. table_is m d \<and> stale_ok [] W rep' m)) (\<lambda>_. disp bt_ok)"
proof (induction env ws rep rule: close_stale.induct)
  case (1 env rep)
  show ?case by (auto intro!: triple_ret)
next
  case (2 env w ids ws rep)
  let ?P = "\<lambda>ws rep. disp (\<lambda>d. \<exists>m. table_is m d \<and> stale_ok ws W rep m)"
  have one: "triple (?P ((w, ids) # ws) rep) (close_displays env ids TermDismissed)
     (\<lambda>_. ?P ws rep) (\<lambda>_. disp (\<lambda>d. \<exists>m. table_is m d \<and> rp_applied rep = {}))"
  proof (rule triple_ex)
    fix m
    show "triple (\<lambda>b. table_is m (tb_displays b) \<and> stale_ok ((w, ids) # ws) W rep m)
      (close_displays env ids TermDismissed) (\<lambda>_. ?P ws rep) (\<lambda>_. disp (\<lambda>d. \<exists>m. table_is m d \<and> rp_applied rep = {}))"
    proof (cases "stale_ok ((w, ids) # ws) W rep m")
      case True
      then have "stale_ok ws W rep (without (set ids) m)"
        by (auto simp: stale_ok_def covers_def without_def split: if_splits)
      then show ?thesis
        using True by (intro triple_conseq [OF close_table_triple [of m]]) (auto simp: stale_ok_def)
    qed (simp add: triple_def)
  qed
  show ?case
    unfolding close_stale.simps
  proof (rule noted_triple [OF one], goal_cases)
    case 1
    show ?case by (rule "2.IH")
  next
    case (2 e)
    let ?rep = "rep\<lparr>rp_failed := (rp_failed rep)(w \<mapsto> e)\<rparr>"
    show ?case
      by (rule triple_conseq [OF "2.IH"])
        (auto simp: stale_ok_def dest: fun_cong [of _ _ w])
  next
    case (3 e b)
    then show ?case by (auto simp: table_is_def)
  qed
qed

lemma backend_reconcile_triple:
  assumes "separate plan"
  shows "triple (disp bt_ok) (backend_reconcile env plan)
     (\<lambda>rep. disp (\<lambda>d. \<exists>m. table_is m d \<and> report_ok (fst ` set plan) plan rep m)) (\<lambda>_. disp bt_ok)"
  unfolding backend_reconcile_def
proof (rule triple_with_state, goal_cases)
  case (1 b)
  let ?W = "fst ` set plan"
  let ?ws = "stale_by_window plan b"
  let ?none = "\<lparr>rp_applied = {}, rp_failed = Map.empty\<rparr>"
  have "table_is (map_of (tb_displays b)) (tb_displays b)" using 1 by (simp add: table_is_def)
  then have "\<exists>m. table_is m (tb_displays b) \<and> stale_ok ?ws ?W ?none m"
    using stale_covers by (auto simp: stale_ok_def)
  then have close: "triple (\<lambda>s. s = b) (close_stale env ?ws ?none)
      (\<lambda>rep. disp (\<lambda>d. \<exists>m. table_is m d \<and> report_ok ?W [] rep m)) (\<lambda>_. disp bt_ok)"
    by (intro triple_conseq [OF close_stale_triple [of ?ws ?W]])
      (auto simp: stale_ok_def covers_def report_ok_def inside_def)
  have "triple (disp (\<lambda>d. \<exists>m. table_is m d \<and> report_ok ?W [] rep m)) (apply_windows env plan rep)
      (\<lambda>rep. disp (\<lambda>d. \<exists>m. table_is m d \<and> report_ok ?W plan rep m)) (\<lambda>_. disp bt_ok)" for rep
    using apply_windows_triple [of "[]" plan ?W rep env] assms by simp
  with close show ?case by (rule triple_bind)
qed

text \<open>
  Claim C4. Reconciling never panics. When it returns a report, every planned window is reported as
  applied or failed; a window reported as applied shows exactly its planned displays - each with
  the planned kind, geometry and content, and no others - whatever happened to other windows; and
  if nothing failed, no display is left in a window outside the plan. The table stays ordered
  in every case.
\<close>

theorem reconcile_correct:
  assumes "bt_ok (tb_displays b)" and "distinct (map fst plan)"
    and "distinct (map pd_display_id (concat (map snd plan)))"
  shows "case backend_reconcile env plan b of
      (Inl Panic, b') \<Rightarrow> False
    | (Inl (Fail e), b') \<Rightarrow> bt_ok (tb_displays b')
    | (Inr rep, b') \<Rightarrow>
        bt_ok (tb_displays b')
        \<and> (\<forall>(w, ds) \<in> set plan.
             (w \<in> rp_applied rep \<or> rp_failed rep w \<noteq> None)
             \<and> (w \<in> rp_applied rep \<longrightarrow>
                  (\<forall>p \<in> set ds. \<exists>a. map_of (tb_displays b') (pd_display_id p) = Some a \<and> matches w p a)
                  \<and> (\<forall>(i, a) \<in> set (tb_displays b'). ad_window_id a = w \<longrightarrow> i \<in> pd_display_id ` set ds)))
        \<and> rp_applied rep \<subseteq> fst ` set plan
        \<and> (rp_failed rep = Map.empty \<longrightarrow> (\<forall>(i, a) \<in> set (tb_displays b'). ad_window_id a \<in> fst ` set plan))"
proof -
  have "separate plan" using assms(2,3) by (simp add: separate_def)
  from backend_reconcile_triple [OF this, of env] assms(1)
  have run: "case backend_reconcile env plan b of
      (Inl Panic, b') \<Rightarrow> False
    | (Inl (Fail e), b') \<Rightarrow> bt_ok (tb_displays b')
    | (Inr rep, b') \<Rightarrow> \<exists>m. table_is m (tb_displays b') \<and> report_ok (fst ` set plan) plan rep m"
    by (simp add: triple_def)
  have meaning: "showing w ds (map_of d) \<longleftrightarrow>
      (\<forall>p \<in> set ds. \<exists>a. map_of d (pd_display_id p) = Some a \<and> matches w p a)
      \<and> (\<forall>(i, a) \<in> set d. ad_window_id a = w \<longrightarrow> i \<in> pd_display_id ` set ds)"
    and outside: "inside W (map_of d) \<longleftrightarrow> (\<forall>(i, a) \<in> set d. ad_window_id a \<in> W)" if "bt_ok d" for w ds d W
    using bt_lookup_iff [OF that] by (auto simp: showing_def shown_def only_def inside_def)
  obtain r b' where res: "backend_reconcile env plan b = (r, b')" by force
  show ?thesis
  proof (cases r)
    case (Inl f)
    then show ?thesis using run res by (cases f) simp_all
  next
    case (Inr rep)
    with run res have ok: "bt_ok (tb_displays b')" and rep: "report_ok (fst ` set plan) plan rep (map_of (tb_displays b'))"
      by (auto simp: table_is_def)
    from rep show ?thesis
      unfolding res Inr report_ok_def meaning [OF ok] outside [OF ok] using ok by simp
  qed
qed

text \<open>A tmux that accepts every batch and names the created pane, and a plan for it.\<close>

definition demo_env :: "(unit, nat) backend_env" where
  "demo_env = \<lparr>be_connect = (\<lambda>t. (Inr (), t)),
     be_command = (\<lambda>_ t. (Inr \<lparr>cr_ticket = 0, cr_output = [ustr ''%1''], cr_success = True\<rparr>, t)),
     be_generator = demo_generator, be_order = demo_order, be_now = 0, be_executable = ustr ''tmnotify''\<rparr>"

definition demo_planned :: planned_display where
  "demo_planned = \<lparr>pd_display_id = ustr ''w'', pd_kind = AttentionDisplay,
     pd_geometry = \<lparr>g_x = 0, g_y = 0, g_width = 9, g_height = 3, g_z_index = 0\<rparr>,
     pd_content = demo_content, pd_play_enter_animation = False\<rparr>"

definition demo_plan :: tmux_display_plan where
  "demo_plan = [(ustr ''@1'', [demo_planned]), (ustr ''bad'', [])]"

definition demo_backend :: "(unit, nat) tmux_backend" where
  "demo_backend = \<lparr>tb_tmux = (), tb_connected = False,
     tb_displays = [(ustr ''old'', \<lparr>ad_pane_id = ustr ''%7'', ad_window_id = ustr ''@3'', ad_kind = ToastDisplay,
       ad_geometry = pd_geometry demo_planned, ad_content = demo_content\<rparr>)],
     tb_renderers = demo_sessions\<rparr>"

lemmas run_simps = bind_op_def then_op_def ret_def raise_def with_state_def modify_def attempt_def from_result_def

lemma demo_checked:
  "tb_connected b \<Longrightarrow> checked_command demo_env cs b = (Inr \<lparr>cr_ticket = 0, cr_output = [ustr ''%1''], cr_success = True\<rparr>, b)"
  "\<not> tb_connected b \<Longrightarrow> checked_command demo_env cs b
     = (Inr \<lparr>cr_ticket = 0, cr_output = [ustr ''%1''], cr_success = True\<rparr>, b\<lparr>tb_connected := True\<rparr>)"
  by (cases b; simp add: checked_command_def backend_command_def ensure_connection_def demo_env_def run_simps require_success_def)+

lemma demo_stale: "stale_by_window demo_plan demo_backend = [(ustr ''@3'', [ustr ''old''])]"
  by (simp add: stale_by_window_def demo_plan_def demo_backend_def)

lemma demo_close:
  "close_displays demo_env [ustr ''old''] TermDismissed demo_backend
     = (Inr (), demo_backend\<lparr>tb_connected := True, tb_displays := []\<rparr>)"
  by (simp add: demo_backend_def demo_sessions_def close_displays_def close_one_def run_simps demo_checked
     List.map_filter_simps forget_display_def bt_remove_def checked_display_id_def terminate_renderer_def
     sessions_terminate_def window_display_id_new_def char_len_def)

lemma demo_launch:
  "\<exists>launch s'. with_sessions (sessions_create demo_generator demo_order demo_display demo_content 0)
     (demo_backend\<lparr>tb_connected := True, tb_displays := []\<rparr>)
   = (Inr launch, demo_backend\<lparr>tb_connected := True, tb_displays := [], tb_renderers := s'\<rparr>)"
  using demo_create by (simp add: with_sessions_def demo_backend_def)

lemma demo_show:
  "\<exists>a s'. reconcile_window demo_env (ustr ''@1'') [demo_planned] (demo_backend\<lparr>tb_connected := True, tb_displays := []\<rparr>)
     = (Inr (), demo_backend\<lparr>tb_connected := True, tb_renderers := s', tb_displays := [(ustr ''w'', a)]\<rparr>)"
proof -
  obtain launch s' where l: "with_sessions (sessions_create demo_generator demo_order demo_display demo_content 0)
     (demo_backend\<lparr>tb_connected := True, tb_displays := []\<rparr>)
   = (Inr launch, demo_backend\<lparr>tb_connected := True, tb_displays := [], tb_renderers := s'\<rparr>)"
    using demo_launch by blast
  have id: "checked_display_id (ustr ''w'') = ret demo_display"
    by (simp add: checked_display_id_def window_display_id_new_def char_len_def from_result_def demo_display_def)
  have env: "be_generator demo_env = demo_generator" "be_order demo_env = demo_order" "be_now demo_env = 0"
    by (simp_all add: demo_env_def)
  have planned: "pd_display_id demo_planned = ustr ''w''" "pd_content demo_planned = demo_content"
    "pd_kind demo_planned = AttentionDisplay"
    by (simp_all add: demo_planned_def)
  show ?thesis
    by (simp add: l id [simplified] env planned reconcile_window_def reconcile_display_def create_display_def run_simps
        validate_stable_id_def stable_digits_def strip_prefix_def obsolete_displays_def close_displays_def
        validate_display_id_def demo_checked float_toast_def set_display_def on_error_def Let_def char_len_def is_ascii_alphanumeric_def is_ascii_digit_def, blast)
qed

lemma demo_reconcile:
  "\<exists>rep b'. backend_reconcile demo_env demo_plan demo_backend = (Inr rep, b')
     \<and> rp_applied rep = {ustr ''@1''} \<and> rp_failed rep (ustr ''@3'') = None"
proof -
  obtain a s' where show1: "reconcile_window demo_env (ustr ''@1'') [demo_planned]
      (demo_backend\<lparr>tb_connected := True, tb_displays := []\<rparr>)
     = (Inr (), demo_backend\<lparr>tb_connected := True, tb_renderers := s', tb_displays := [(ustr ''w'', a)]\<rparr>)"
    using demo_show by blast
  have bad: "reconcile_window demo_env (ustr ''bad'') [] b = (Inl (Fail (TmuxInvalidId (ustr ''bad''))), b)" for b
    by (simp add: reconcile_window_def validate_stable_id_def stable_digits_def strip_prefix_def run_simps)
  show ?thesis
    by (simp add: backend_reconcile_def demo_stale run_simps demo_close [simplified])
      (simp add: demo_plan_def run_simps show1 [simplified] bad [simplified] note_failure_def)
qed

lemma reconcile_correct_witness:
  "\<exists>b' a. snd (backend_reconcile demo_env demo_plan demo_backend) = b' \<and> bt_ok (tb_displays b')
     \<and> map_of (tb_displays b') (ustr ''w'') = Some a \<and> matches (ustr ''@1'') demo_planned a"
proof -
  obtain rep b' where run: "backend_reconcile demo_env demo_plan demo_backend = (Inr rep, b')"
    and "rp_applied rep = {ustr ''@1''}"
    using demo_reconcile by blast
  moreover have "bt_ok (tb_displays demo_backend)" by (simp add: demo_backend_def bt_ok_def)
  moreover have "distinct (map fst demo_plan)" "distinct (map pd_display_id (concat (map snd demo_plan)))"
    by (simp_all add: demo_plan_def)
  ultimately show ?thesis
    using reconcile_correct [of demo_backend demo_plan demo_env] by (auto simp: demo_plan_def demo_planned_def)
qed

end
