(* ===== verification/Utf8.thy ===== *)
theory Utf8
  imports Prelude "HOL-Library.Word"
begin

text \<open>
  UTF-8, as \<open>String::from_utf8\<close> and \<open>str::as_bytes\<close> have it: the shortest encoding of every
  scalar value, and a decoder that accepts exactly those.
\<close>

type_synonym byte = "8 word"

section \<open>Encoding\<close>

definition scalar :: "nat \<Rightarrow> bool" where
  "scalar c \<longleftrightarrow> c < 0xd800 \<or> 0xe000 \<le> c \<and> c < 0x110000"

definition encode_char :: "nat \<Rightarrow> nat list" where
  "encode_char c =
     (if c < 0x80 then [c]
      else if c < 0x800 then [0xc0 + c div 64, 0x80 + c mod 64]
      else if c < 0x10000 then [0xe0 + c div 4096, 0x80 + c div 64 mod 64, 0x80 + c mod 64]
      else [0xf0 + c div 262144, 0x80 + c div 4096 mod 64, 0x80 + c div 64 mod 64, 0x80 + c mod 64])"

definition utf8_encode :: "ustring \<Rightarrow> byte list" where
  "utf8_encode s = map of_nat (concat (map encode_char s))"

section \<open>Decoding\<close>

definition continuation :: "nat \<Rightarrow> bool" where
  "continuation b \<longleftrightarrow> 0x80 \<le> b \<and> b < 0xc0"

text \<open>One scalar value from the front, with the number of bytes it took.\<close>

definition decode_char :: "nat list \<Rightarrow> (nat \<times> nat) option" where
  "decode_char bs =
     (case bs of
        [] \<Rightarrow> None
      | a # bs1 \<Rightarrow>
          if a < 0x80 then Some (a, 1)
          else case bs1 of
            [] \<Rightarrow> None
          | b # bs2 \<Rightarrow>
              if \<not> continuation b then None
              else if 0xc2 \<le> a \<and> a < 0xe0 then Some ((a - 0xc0) * 64 + (b - 0x80), 2)
              else case bs2 of
                [] \<Rightarrow> None
              | c # bs3 \<Rightarrow>
                  if \<not> continuation c then None
                  else if 0xe0 \<le> a \<and> a < 0xf0 then
                    (let u = (a - 0xe0) * 4096 + (b - 0x80) * 64 + (c - 0x80)
                     in if 0x800 \<le> u \<and> scalar u then Some (u, 3) else None)
                  else case bs3 of
                    [] \<Rightarrow> None
                  | d # _ \<Rightarrow>
                      if \<not> continuation d \<or> a < 0xf0 then None
                      else
                        (let u = (a - 0xf0) * 262144 + (b - 0x80) * 4096 + (c - 0x80) * 64 + (d - 0x80)
                         in if 0x10000 \<le> u \<and> scalar u then Some (u, 4) else None))"

lemma decode_char_size: "decode_char bs = Some (u, n) \<Longrightarrow> 0 < n \<and> n \<le> length bs"
  by (auto simp: decode_char_def Let_def split: list.splits if_splits)

function decode_from :: "nat list \<Rightarrow> ustring option" where
  "decode_from bs =
     (if bs = [] then Some []
      else case decode_char bs of
        None \<Rightarrow> None
      | Some (u, n) \<Rightarrow> map_option ((#) u) (decode_from (drop n bs)))"
  by pat_completeness auto
termination
  by (relation "measure length") (auto dest!: decode_char_size)

declare decode_from.simps [simp del]

definition utf8_decode :: "byte list \<Rightarrow> ustring option" where
  "utf8_decode bs = decode_from (map unat bs)"

section \<open>The one inverts the other\<close>

lemma scalar_char_len: "scalar c \<Longrightarrow> length (encode_char c) = char_len c"
  by (auto simp: encode_char_def char_len_def)

lemma encode_char_not_Nil [simp]: "encode_char c \<noteq> []"
  by (simp add: encode_char_def)

lemma encode_char_bytes: "scalar c \<Longrightarrow> b \<in> set (encode_char c) \<Longrightarrow> b < 256"
  by (auto simp: encode_char_def scalar_def split: if_splits)

lemma regroup: "a * 64 + b = q \<Longrightarrow> q * k + r = c \<Longrightarrow> a * (64 * k) + b * k + r = (c :: nat)"
  by (auto simp: algebra_simps)

lemma split_4096: "(c :: nat) div 4096 * 4096 + c div 64 mod 64 * 64 + c mod 64 = c"
  using regroup [OF div_mult_mod_eq [of "c div 64" 64] div_mult_mod_eq [of c 64]]
  by (simp only: div_mult2_eq [symmetric]) simp

lemma split_262144:
  "(c :: nat) div 262144 * 262144 + c div 4096 mod 64 * 4096 + c div 64 mod 64 * 64 + c mod 64 = c"
proof -
  have "c div 4096 * 4096 + (c div 64 mod 64 * 64 + c mod 64) = c" using split_4096 [of c] by linarith
  from regroup [OF div_mult_mod_eq [of "c div 4096" 64] this] show ?thesis
    by (simp only: div_mult2_eq [symmetric]) simp
qed

lemma continuation_mod: "continuation (0x80 + n mod 64)"
  by (simp add: continuation_def)

lemma decode_encode_char:
  assumes "scalar c"
  shows "decode_char (encode_char c @ bs) = Some (c, length (encode_char c))"
proof -
  consider "c < 0x80" | "0x80 \<le> c" "c < 0x800" | "0x800 \<le> c" "c < 0x10000" | "0x10000 \<le> c" by linarith
  then show ?thesis
  proof cases
    case 1
    then show ?thesis by (simp add: encode_char_def decode_char_def)
  next
    case 2
    then have "2 \<le> c div 64" "c div 64 < 32" by auto
    with 2 show ?thesis
      by (simp add: encode_char_def decode_char_def continuation_mod)
  next
    case 3
    then have "c div 4096 < 16" by auto
    with 3 assms split_4096 [of c] show ?thesis
      by (simp add: encode_char_def decode_char_def continuation_mod)
  next
    case 4
    then have "c div 262144 < 5" using assms by (auto simp: scalar_def)
    with 4 assms split_262144 [of c] show ?thesis
      by (simp add: encode_char_def decode_char_def continuation_mod)
  qed
qed

lemma decode_from_encode:
  "list_all scalar s \<Longrightarrow> decode_from (concat (map encode_char s) @ bs) = map_option (\<lambda>t. s @ t) (decode_from bs)"
proof (induction s)
  case Nil
  show ?case by (cases "decode_from bs") simp_all
next
  case (Cons c s)
  then show ?case
    by (subst decode_from.simps) (cases "decode_from bs"; simp add: decode_encode_char)
qed

lemma unat_encoded: "list_all scalar s \<Longrightarrow> map unat (utf8_encode s) = concat (map encode_char s)"
proof -
  assume s: "list_all scalar s"
  have "unat (of_nat b :: byte) = b" if "b \<in> set (concat (map encode_char s))" for b
    using that s encode_char_bytes
    by (auto simp: list_all_iff unat_of_nat take_bit_nat_eq_self_iff intro!: mod_less)
  then have "map (\<lambda>b. unat (of_nat b :: byte)) (concat (map encode_char s)) = concat (map encode_char s)"
    by (intro map_idI) auto
  then show ?thesis by (simp add: utf8_encode_def comp_def)
qed

lemma utf8_round_trip: "list_all scalar s \<Longrightarrow> utf8_decode (utf8_encode s) = Some s"
  using decode_from_encode [of s "[]"]
  by (simp add: utf8_decode_def unat_encoded) (simp add: decode_from.simps)

lemma utf8_encode_length: "list_all scalar s \<Longrightarrow> length (utf8_encode s) = utf8_len s"
  by (induction s) (auto simp: utf8_encode_def scalar_char_len)

lemma decode_char_len: "decode_char bs = Some (u, n) \<Longrightarrow> n = char_len u"
  unfolding decode_char_def char_len_def continuation_def Let_def
  by (auto split: list.splits if_splits)

lemma decode_from_len: "decode_from bs = Some s \<Longrightarrow> utf8_len s = length bs"
proof (induction bs arbitrary: s rule: decode_from.induct)
  case (1 bs)
  show ?case
  proof (cases "bs = []")
    case True
    with "1.prems" show ?thesis by (simp add: decode_from.simps)
  next
    case False
    then obtain u n t where c: "decode_char bs = Some (u, n)" "decode_from (drop n bs) = Some t" "s = u # t"
      using "1.prems" by (subst (asm) decode_from.simps) (auto split: option.splits)
    from "1.IH" [OF False c(1) refl c(2)] decode_char_len [OF c(1)] decode_char_size [OF c(1)] c(3)
    show ?thesis by simp
  qed
qed

lemma utf8_decode_len: "utf8_decode bs = Some s \<Longrightarrow> utf8_len s = length bs"
  unfolding utf8_decode_def by (drule decode_from_len) simp

end
