(* ===== verification/Config.thy ===== *)
theory Config
  imports Notification Std_Text Utf8
begin

text \<open>
  The user configuration of \<open>src/config.rs\<close>: its values and bounds, durations and percentages as
  text, the precedence of command line, environment and file, and the manager that reloads it while
  keeping the last good one.

  The TOML reader is a parameter (from the text of the file to a configuration or its error); what
  the file system answers is an input of every call.
\<close>

section \<open>Data\<close>

definition MAX_CONFIG_BYTES :: nat where "MAX_CONFIG_BYTES = 256 * 1024"

datatype idle_timeout = IdleNever

datatype cfg_placement =
    CfgTopLeft | CfgTopCenter | CfgTopRight | CfgBottomLeft | CfgBottomCenter | CfgBottomRight

datatype stack_order = OldestFirst | NewestFirst

datatype body_presentation = BodyFirstLine | BodyJoinLines | BodyWrap

datatype easing = EaseIn | EaseOut

datatype feature_mode = FeatureAuto | FeatureAlways | FeatureNever

datatype hook_preset = Minimal | Normal | Verbose

datatype hook_event =
    NeedsAttention | Completed | Failed | Started | Interrupted | SubagentCompleted
  | ToolStarted | ToolCompleted

datatype timeout_value = TimeoutAfter duration | TimeoutNever

record daemon_config =
  dc_idle_timeout :: idle_timeout

record queue_config =
  qc_max_pending :: nat

record animation_config =
  anc_enabled :: bool
  anc_fps :: nat
  anc_enter_duration :: duration
  anc_exit_duration :: duration
  anc_enter_easing :: easing
  anc_exit_easing :: easing

record toast_config =
  tc_position :: cfg_placement
  tc_width :: nat
  tc_height :: nat
  tc_timeout :: timeout_value
  tc_max_visible :: nat
  tc_gap :: nat
  tc_stack_order :: stack_order
  tc_body :: body_presentation
  tc_animation :: animation_config

record attention_config =
  atc_width :: nat
  atc_minimum_width :: nat
  atc_minimum_height :: nat
  atc_capture_all_keys :: bool
  atc_close_on_outside_click :: bool

record history_config =
  hc_enabled :: bool
  hc_max_entries :: nat

record display_config =
  dsc_color :: feature_mode
  dsc_unicode :: feature_mode

record hook_provider_config =
  hp_preset :: hook_preset
  hp_enable :: "hook_event list"
  hp_disable :: "hook_event list"

record hooks_config =
  hk_claude :: hook_provider_config
  hk_codex :: hook_provider_config

record config =
  cfg_daemon :: daemon_config
  cfg_queue :: queue_config
  cfg_toast :: toast_config
  cfg_attention :: attention_config
  cfg_history :: history_config
  cfg_display :: display_config
  cfg_hooks :: hooks_config

datatype path_error =
    HomeUnavailable | InvalidServerId | SymbolicLink | UnexpectedFileType | WrongOwner
  | InsecurePermissions | PathIo bool \<comment> \<open>whether its kind is \<open>NotFound\<close>\<close>

datatype 't config_error =
    ConfigTooLarge
  | ConfigParse 't
  | PrivatePath path_error
  | OutOfRange string nat nat
  | DurationOutOfRange string duration
  | ConflictingHookEvent string hook_event
  | ConfigIo

section \<open>Defaults\<close>

definition daemon_config_default :: daemon_config where
  "daemon_config_default = \<lparr>dc_idle_timeout = IdleNever\<rparr>"

definition queue_config_default :: queue_config where
  "queue_config_default = \<lparr>qc_max_pending = 1000\<rparr>"

definition animation_config_default :: animation_config where
  "animation_config_default = \<lparr>anc_enabled = True, anc_fps = 20, anc_enter_duration = from_millis 180,
     anc_exit_duration = from_millis 150, anc_enter_easing = EaseOut, anc_exit_easing = EaseIn\<rparr>"

definition toast_config_default :: toast_config where
  "toast_config_default = \<lparr>tc_position = CfgTopRight, tc_width = 42, tc_height = 3,
     tc_timeout = TimeoutAfter (from_secs 3), tc_max_visible = 4, tc_gap = 1,
     tc_stack_order = OldestFirst, tc_body = BodyFirstLine, tc_animation = animation_config_default\<rparr>"

definition attention_config_default :: attention_config where
  "attention_config_default = \<lparr>atc_width = 60, atc_minimum_width = 32, atc_minimum_height = 7,
     atc_capture_all_keys = True, atc_close_on_outside_click = False\<rparr>"

definition history_config_default :: history_config where
  "history_config_default = \<lparr>hc_enabled = True, hc_max_entries = 10000\<rparr>"

definition display_config_default :: display_config where
  "display_config_default = \<lparr>dsc_color = FeatureAuto, dsc_unicode = FeatureAuto\<rparr>"

definition hook_provider_config_default :: hook_provider_config where
  "hook_provider_config_default = \<lparr>hp_preset = Minimal, hp_enable = [], hp_disable = []\<rparr>"

definition hooks_config_default :: hooks_config where
  "hooks_config_default =
     \<lparr>hk_claude = hook_provider_config_default, hk_codex = hook_provider_config_default\<rparr>"

definition config_default :: config where
  "config_default = \<lparr>cfg_daemon = daemon_config_default, cfg_queue = queue_config_default,
     cfg_toast = toast_config_default, cfg_attention = attention_config_default,
     cfg_history = history_config_default, cfg_display = display_config_default,
     cfg_hooks = hooks_config_default\<rparr>"

section \<open>Validation\<close>

definition bounded :: "string \<Rightarrow> nat \<Rightarrow> nat \<Rightarrow> nat \<Rightarrow> 't config_error + unit" where
  "bounded field v lo hi = (if lo \<le> v \<and> v \<le> hi then Inr () else Inl (OutOfRange field lo hi))"

definition validate_duration :: "string \<Rightarrow> duration \<Rightarrow> duration \<Rightarrow> 't config_error + unit" where
  "validate_duration field v hi = (if v \<le> hi then Inr () else Inl (DurationOutOfRange field hi))"

definition validate_timeout :: "string \<Rightarrow> timeout_value \<Rightarrow> duration \<Rightarrow> 't config_error + unit" where
  "validate_timeout field v hi =
     (case v of TimeoutNever \<Rightarrow> Inr () | TimeoutAfter d \<Rightarrow> validate_duration field d hi)"

text \<open>The first error of a sequence of checks.\<close>

fun first_error :: "('e + unit) list \<Rightarrow> 'e + unit" where
  "first_error [] = Inr ()"
| "first_error (Inl e # _) = Inl e"
| "first_error (Inr _ # cs) = first_error cs"

definition hook_conflict :: "string \<Rightarrow> hook_provider_config \<Rightarrow> 't config_error + unit" where
  "hook_conflict provider h =
     (case find (\<lambda>e. e \<in> set (hp_disable h)) (hp_enable h) of
        None \<Rightarrow> Inr () | Some e \<Rightarrow> Inl (ConflictingHookEvent provider e))"

definition config_validate :: "config \<Rightarrow> 't config_error + unit" where
  "config_validate c =
     (let t = cfg_toast c; a = tc_animation t; g = cfg_attention c in
      first_error
       [bounded ''queue.max_pending'' (qc_max_pending (cfg_queue c)) 1 10000,
        bounded ''toast.width'' (tc_width t) 24 500,
        bounded ''toast.height'' (tc_height t) 1 100,
        bounded ''toast.max_visible'' (tc_max_visible t) 1 100,
        bounded ''toast.gap'' (tc_gap t) 0 20,
        validate_timeout ''toast.timeout'' (tc_timeout t) (from_secs 86400),
        bounded ''toast.animation.fps'' (anc_fps a) 1 120,
        validate_duration ''toast.animation.enter_duration'' (anc_enter_duration a) (from_secs 10),
        validate_duration ''toast.animation.exit_duration'' (anc_exit_duration a) (from_secs 10),
        bounded ''attention.width'' (atc_width g) 1 100,
        bounded ''attention.minimum_width'' (atc_minimum_width g) 1 500,
        bounded ''attention.minimum_height'' (atc_minimum_height g) 1 200,
        bounded ''history.max_entries'' (hc_max_entries (cfg_history c)) 1 1000000,
        hook_conflict ''claude'' (hk_claude (cfg_hooks c)),
        hook_conflict ''codex'' (hk_codex (cfg_hooks c))])"

section \<open>Values as text\<close>

definition format_duration :: "duration \<Rightarrow> ustring" where
  "format_duration d =
     (let ms = as_millis d in
      case find (\<lambda>(u, k). ms \<noteq> 0 \<and> k dvd ms) [(''h'', 3600000), (''m'', 60000), (''s'', 1000)] of
        Some (u, k) \<Rightarrow> print_nat (ms div k) @ ustr u
      | None \<Rightarrow> print_nat ms @ ustr ''ms'')"

definition duration_unit :: "ustring \<Rightarrow> (ustring \<times> nat) option" where
  "duration_unit v =
     (case strip_suffix (ustr ''ms'') v of Some n \<Rightarrow> Some (n, 1)
      | None \<Rightarrow> (case strip_suffix (ustr ''s'') v of Some n \<Rightarrow> Some (n, 1000)
      | None \<Rightarrow> (case strip_suffix (ustr ''m'') v of Some n \<Rightarrow> Some (n, 60000)
      | None \<Rightarrow> (case strip_suffix (ustr ''h'') v of Some n \<Rightarrow> Some (n, 3600000)
      | None \<Rightarrow> None))))"

definition parse_duration :: "ustring \<Rightarrow> string + duration" where
  "parse_duration v =
     (case duration_unit v of
        None \<Rightarrow> Inl ''duration must use ms, s, m, or h''
      | Some (number, k) \<Rightarrow>
          (case parse_uint u64_max number of
             None \<Rightarrow> Inl ''duration must be an integer''
           | Some n \<Rightarrow> if n * k > u64_max then Inl ''duration is too large'' else Inr (from_millis (n * k))))"

definition timeout_value_read :: "ustring \<Rightarrow> string + timeout_value" where
  "timeout_value_read v =
     (if v = ustr ''never'' then Inr TimeoutNever else map_sum id TimeoutAfter (parse_duration v))"

definition timeout_value_write :: "timeout_value \<Rightarrow> ustring" where
  "timeout_value_write t =
     (case t of TimeoutAfter d \<Rightarrow> format_duration d | TimeoutNever \<Rightarrow> ustr ''never'')"

definition percentage_read :: "ustring \<Rightarrow> string + nat" where
  "percentage_read v =
     (case strip_suffix (ustr ''%'') v of
        None \<Rightarrow> Inl ''percentage must end in %''
      | Some n \<Rightarrow> (case parse_uint u32_max n of None \<Rightarrow> Inl ''invalid integer'' | Some p \<Rightarrow> Inr p))"

definition percentage_write :: "nat \<Rightarrow> ustring" where
  "percentage_write p = print_nat p @ ustr ''%''"

section \<open>Loading\<close>

type_synonym environment = "ustring \<rightharpoonup> ustring"

record config_overrides =
  co_color :: "feature_mode option"
  co_unicode :: "feature_mode option"
  co_animation_enabled :: "bool option"

definition set_color :: "feature_mode \<Rightarrow> config \<Rightarrow> config" where
  "set_color m c = c\<lparr>cfg_display := (cfg_display c)\<lparr>dsc_color := m\<rparr>\<rparr>"

definition set_unicode :: "feature_mode \<Rightarrow> config \<Rightarrow> config" where
  "set_unicode m c = c\<lparr>cfg_display := (cfg_display c)\<lparr>dsc_unicode := m\<rparr>\<rparr>"

definition set_animation :: "bool \<Rightarrow> config \<Rightarrow> config" where
  "set_animation b c = c\<lparr>cfg_toast := (cfg_toast c)\<lparr>tc_animation := (tc_animation (cfg_toast c))\<lparr>anc_enabled := b\<rparr>\<rparr>\<rparr>"

definition when_some :: "'a option \<Rightarrow> ('a \<Rightarrow> 'c \<Rightarrow> 'c) \<Rightarrow> 'c \<Rightarrow> 'c" where
  "when_some v f c = (case v of None \<Rightarrow> c | Some a \<Rightarrow> f a c)"

definition apply_precedence :: "environment \<Rightarrow> config_overrides \<Rightarrow> config \<Rightarrow> config" where
  "apply_precedence env cli c0 =
     (let dumb = env (ustr ''TERM'') = Some (ustr ''dumb'');
          c1 = (if env (ustr ''NO_COLOR'') \<noteq> None \<or> dumb then set_color FeatureNever c0 else c0);
          c2 = (if dumb then set_animation False (set_unicode FeatureNever c1) else c1)
      in when_some (co_animation_enabled cli) set_animation
           (when_some (co_unicode cli) set_unicode (when_some (co_color cli) set_color c2)))"

text \<open>
  What the file system answers to opening and reading the file: an error of the private path, a
  failing query of the length or read, or the length it reports and the bytes it has.
\<close>

datatype config_file =
    OpenError path_error
  | MetadataError
  | ReadError nat
  | FileBytes nat "byte list"

definition read_contents :: "nat \<Rightarrow> byte list option \<Rightarrow> 't config_error + ustring" where
  "read_contents len bytes =
     (if len > MAX_CONFIG_BYTES then Inl ConfigTooLarge
      else case bytes of
        None \<Rightarrow> Inl ConfigIo
      | Some bs \<Rightarrow>
          (case utf8_decode (take (MAX_CONFIG_BYTES + 1) bs) of
             None \<Rightarrow> Inl ConfigIo
           | Some contents \<Rightarrow>
               if utf8_len contents > MAX_CONFIG_BYTES then Inl ConfigTooLarge else Inr contents))"

definition parse_with :: "(ustring \<Rightarrow> 't + config) \<Rightarrow> 't config_error + ustring \<Rightarrow> 't config_error + config" where
  "parse_with toml r =
     (case r of Inl e \<Rightarrow> Inl e | Inr text \<Rightarrow> map_sum ConfigParse id (toml text))"

definition read_config :: "(ustring \<Rightarrow> 't + config) \<Rightarrow> config_file \<Rightarrow> 't config_error + config" where
  "read_config toml file =
     (case file of
        OpenError e \<Rightarrow> if e = PathIo True then Inr config_default else Inl (PrivatePath e)
      | MetadataError \<Rightarrow> Inl ConfigIo
      | ReadError len \<Rightarrow> parse_with toml (read_contents len None)
      | FileBytes len bytes \<Rightarrow> parse_with toml (read_contents len (Some bytes)))"

definition config_load ::
  "(ustring \<Rightarrow> 't + config) \<Rightarrow> environment \<Rightarrow> config_overrides \<Rightarrow> config_file \<Rightarrow> 't config_error + config" where
  "config_load toml env cli file =
     (case read_config toml file of
        Inl e \<Rightarrow> Inl e
      | Inr c0 \<Rightarrow>
          (let c = apply_precedence env cli c0 in
           case config_validate c of Inl e \<Rightarrow> Inl e | Inr _ \<Rightarrow> Inr c))"

section \<open>The manager\<close>

record config_changes =
  cc_daemon_or_queue :: bool
  cc_display_reconciliation :: bool
  cc_history :: bool
  cc_hooks_require_sync :: bool

datatype reload_outcome = ReloadUnchanged | Reloaded config_changes | ReloadRejected

record file_fingerprint =
  ff_modified :: "nat option"
  ff_length :: nat
  ff_identity :: "nat \<times> nat"

record config_manager =
  cm_environment :: environment
  cm_cli :: config_overrides
  cm_active :: config
  cm_observed :: "file_fingerprint option"

text \<open>What \<open>symlink_metadata\<close> answers: metadata, no such file (\<open>None\<close>), or an error.\<close>

type_synonym probe = "unit + file_fingerprint option"

definition fingerprint :: "probe \<Rightarrow> 't config_error + file_fingerprint option" where
  "fingerprint p = map_sum (\<lambda>_. ConfigIo) id p"

definition manager_new ::
  "(ustring \<Rightarrow> 't + config) \<Rightarrow> environment \<Rightarrow> config_overrides \<Rightarrow> config_file \<Rightarrow> probe
    \<Rightarrow> 't config_error + config_manager" where
  "manager_new toml env cli file p =
     (case config_load toml env cli file of
        Inl e \<Rightarrow> Inl e
      | Inr active \<Rightarrow>
          (case fingerprint p of
             Inl e \<Rightarrow> Inl e
           | Inr observed \<Rightarrow>
               Inr \<lparr>cm_environment = env, cm_cli = cli, cm_active = active, cm_observed = observed\<rparr>))"

definition manager_replace :: "config \<Rightarrow> config_manager \<Rightarrow> reload_outcome \<times> config_manager" where
  "manager_replace candidate m =
     (let active = cm_active m in
      if candidate = active then (ReloadUnchanged, m)
      else
        (Reloaded \<lparr>cc_daemon_or_queue = (cfg_daemon candidate \<noteq> cfg_daemon active \<or> cfg_queue candidate \<noteq> cfg_queue active),
           cc_display_reconciliation = (cfg_toast candidate \<noteq> cfg_toast active
              \<or> cfg_attention candidate \<noteq> cfg_attention active \<or> cfg_display candidate \<noteq> cfg_display active),
           cc_history = (cfg_history candidate \<noteq> cfg_history active),
           cc_hooks_require_sync = (cfg_hooks candidate \<noteq> cfg_hooks active)\<rparr>,
         m\<lparr>cm_active := candidate\<rparr>))"

definition reload_if_changed ::
  "(ustring \<Rightarrow> 't + config) \<Rightarrow> probe \<Rightarrow> config_file \<Rightarrow> config_manager
    \<Rightarrow> ('t config_error + reload_outcome) \<times> config_manager" where
  "reload_if_changed toml p file m =
     (case fingerprint p of
        Inl e \<Rightarrow> (Inl e, m)
      | Inr observed \<Rightarrow>
          if observed = cm_observed m then (Inr ReloadUnchanged, m)
          else
            (let m1 = m\<lparr>cm_observed := observed\<rparr> in
             case config_load toml (cm_environment m1) (cm_cli m1) file of
               Inl _ \<Rightarrow> (Inr ReloadRejected, m1)
             | Inr candidate \<Rightarrow> (case manager_replace candidate m1 of (r, m2) \<Rightarrow> (Inr r, m2))))"

definition reload_now ::
  "(ustring \<Rightarrow> 't + config) \<Rightarrow> probe \<Rightarrow> config_file \<Rightarrow> config_manager
    \<Rightarrow> ('t config_error + reload_outcome) \<times> config_manager" where
  "reload_now toml p file m =
     (case fingerprint p of
        Inl e \<Rightarrow> (Inl e, m)
      | Inr observed \<Rightarrow>
          (let m1 = m\<lparr>cm_observed := observed\<rparr> in
           case config_load toml (cm_environment m1) (cm_cli m1) file of
             Inl e \<Rightarrow> (Inl e, m1)
           | Inr candidate \<Rightarrow> (case manager_replace candidate m1 of (r, m2) \<Rightarrow> (Inr r, m2))))"

section \<open>What validation accepts\<close>

definition config_valid :: "config \<Rightarrow> bool" where
  "config_valid c \<longleftrightarrow>
     (let t = cfg_toast c; a = tc_animation t; g = cfg_attention c; h = cfg_hooks c in
      qc_max_pending (cfg_queue c) \<in> {1..10000}
      \<and> tc_width t \<in> {24..500} \<and> tc_height t \<in> {1..100} \<and> tc_max_visible t \<in> {1..100} \<and> tc_gap t \<in> {0..20}
      \<and> (\<forall>d. tc_timeout t = TimeoutAfter d \<longrightarrow> d \<le> from_secs 86400)
      \<and> anc_fps a \<in> {1..120} \<and> anc_enter_duration a \<le> from_secs 10 \<and> anc_exit_duration a \<le> from_secs 10
      \<and> atc_width g \<in> {1..100} \<and> atc_minimum_width g \<in> {1..500} \<and> atc_minimum_height g \<in> {1..200}
      \<and> hc_max_entries (cfg_history c) \<in> {1..1000000}
      \<and> set (hp_enable (hk_claude h)) \<inter> set (hp_disable (hk_claude h)) = {}
      \<and> set (hp_enable (hk_codex h)) \<inter> set (hp_disable (hk_codex h)) = {})"

lemma first_error_Inr: "first_error cs = Inr u \<longleftrightarrow> (\<forall>c \<in> set cs. c = Inr ())"
  by (induction cs rule: first_error.induct) auto

lemma check_Inr [simp]:
  "bounded f v lo hi = Inr u \<longleftrightarrow> v \<in> {lo..hi}"
  "validate_duration f d m = Inr u \<longleftrightarrow> d \<le> m"
  "validate_timeout f t m = Inr u \<longleftrightarrow> (\<forall>d. t = TimeoutAfter d \<longrightarrow> d \<le> m)"
  by (auto simp: bounded_def validate_duration_def validate_timeout_def split: timeout_value.splits)

lemma hook_conflict_Inr [simp]:
  "hook_conflict f h = Inr u \<longleftrightarrow> set (hp_enable h) \<inter> set (hp_disable h) = {}"
proof (cases "find (\<lambda>e. e \<in> set (hp_disable h)) (hp_enable h)")
  case (Some e)
  then have "e \<in> set (hp_enable h) \<inter> set (hp_disable h)" by (auto simp: find_Some_iff)
  with Some show ?thesis by (auto simp: hook_conflict_def)
next
  case None
  then have "set (hp_enable h) \<inter> set (hp_disable h) = {}" by (auto simp: find_None_iff)
  with None show ?thesis by (simp add: hook_conflict_def)
qed

lemma config_validate_Inr: "config_validate c = Inr u \<longleftrightarrow> config_valid c"
  by (simp add: config_validate_def config_valid_def Let_def first_error_Inr)

section \<open>Effective values\<close>

text \<open>The command line wins over the environment, which wins over the file.\<close>

definition effective :: "environment \<Rightarrow> config_overrides \<Rightarrow> config \<Rightarrow> config" where
  "effective env cli c0 =
     (let dumb = (env (ustr ''TERM'') = Some (ustr ''dumb''));
          plain = (dumb \<or> ustr ''NO_COLOR'' \<in> dom env)
      in c0\<lparr>cfg_display := (cfg_display c0)
              \<lparr>dsc_color := case co_color cli of Some m \<Rightarrow> m
                 | None \<Rightarrow> if plain then FeatureNever else dsc_color (cfg_display c0),
               dsc_unicode := case co_unicode cli of Some m \<Rightarrow> m
                 | None \<Rightarrow> if dumb then FeatureNever else dsc_unicode (cfg_display c0)\<rparr>,
            cfg_toast := (cfg_toast c0)\<lparr>tc_animation := (tc_animation (cfg_toast c0))
              \<lparr>anc_enabled := case co_animation_enabled cli of Some b \<Rightarrow> b
                 | None \<Rightarrow> \<not> dumb \<and> anc_enabled (tc_animation (cfg_toast c0))\<rparr>\<rparr>\<rparr>)"

lemma apply_precedence_effective: "apply_precedence env cli c = effective env cli c"
  by (cases "co_color cli"; cases "co_unicode cli"; cases "co_animation_enabled cli")
    (auto simp: apply_precedence_def effective_def set_color_def set_unicode_def set_animation_def
      when_some_def Let_def dom_def)

lemma read_contents_Inr:
  "read_contents len bytes = Inr text \<longleftrightarrow>
     len \<le> MAX_CONFIG_BYTES
     \<and> (\<exists>bs. bytes = Some bs \<and> length bs \<le> MAX_CONFIG_BYTES \<and> utf8_decode bs = Some text)"
proof -
  have "utf8_decode (take (MAX_CONFIG_BYTES + 1) bs) = Some text \<and> utf8_len text \<le> MAX_CONFIG_BYTES
      \<longleftrightarrow> length bs \<le> MAX_CONFIG_BYTES \<and> utf8_decode bs = Some text" for bs
    using utf8_decode_len [of "take (MAX_CONFIG_BYTES + 1) bs" "text"] by (cases "length bs \<le> MAX_CONFIG_BYTES") auto
  then show ?thesis
    by (auto simp: read_contents_def not_less split: option.splits)
qed

lemma parse_with_Inr: "parse_with toml r = Inr c \<longleftrightarrow> (\<exists>t. r = Inr t \<and> toml t = Inr c)"
  by (auto simp: parse_with_def map_sum_def split: sum.splits)

lemma read_config_Inr:
  "read_config toml file = Inr c \<longleftrightarrow>
     file = OpenError (PathIo True) \<and> c = config_default
     \<or> (\<exists>len bytes text. file = FileBytes len bytes \<and> len \<le> MAX_CONFIG_BYTES \<and> length bytes \<le> MAX_CONFIG_BYTES
          \<and> utf8_decode bytes = Some text \<and> toml text = Inr c)"
  by (cases "file") (auto simp: read_config_def parse_with_Inr read_contents_Inr)

lemma config_load_iff:
  "config_load toml env cli file = Inr c \<longleftrightarrow>
     (\<exists>c0. read_config toml file = Inr c0 \<and> c = effective env cli c0 \<and> config_valid c)"
  by (auto simp: config_load_def Let_def apply_precedence_effective config_validate_Inr split: sum.splits)
    (metis config_validate_Inr old.unit.exhaust Inl_Inr_False)+

section \<open>The life of a manager\<close>

datatype reload_call = ReloadIfChanged probe config_file | ReloadNow probe config_file

fun reload_step :: "(ustring \<Rightarrow> 't + config) \<Rightarrow> config_manager \<Rightarrow> reload_call \<Rightarrow> config_manager" where
  "reload_step toml m (ReloadIfChanged p f) = snd (reload_if_changed toml p f m)"
| "reload_step toml m (ReloadNow p f) = snd (reload_now toml p f m)"

definition manager_ok :: "environment \<Rightarrow> config_overrides \<Rightarrow> config_manager \<Rightarrow> bool" where
  "manager_ok env cli m \<longleftrightarrow> cm_environment m = env \<and> cm_cli m = cli \<and> config_valid (cm_active m)
     \<and> (\<exists>c0. cm_active m = effective env cli c0)"

text \<open>What a reload did, seen from the old and the new configuration.\<close>

definition changes_between :: "config \<Rightarrow> config \<Rightarrow> config_changes" where
  "changes_between c d =
     \<lparr>cc_daemon_or_queue = ((cfg_daemon c, cfg_queue c) \<noteq> (cfg_daemon d, cfg_queue d)),
      cc_display_reconciliation = ((cfg_toast c, cfg_attention c, cfg_display c) \<noteq> (cfg_toast d, cfg_attention d, cfg_display d)),
      cc_history = (cfg_history c \<noteq> cfg_history d),
      cc_hooks_require_sync = (cfg_hooks c \<noteq> cfg_hooks d)\<rparr>"

lemma manager_replace_spec:
  "manager_replace c m =
     (if c = cm_active m then ReloadUnchanged else Reloaded (changes_between (cm_active m) c), m\<lparr>cm_active := c\<rparr>)"
  by (cases m) (auto simp: manager_replace_def changes_between_def Let_def)

lemma manager_new_ok: "manager_new toml env cli file p = Inr m \<Longrightarrow> manager_ok env cli m"
  by (auto simp: manager_new_def manager_ok_def config_load_iff split: sum.splits)

lemma reload_if_changed_cases:
  "reload_if_changed toml p file m =
     (case p of
        Inl _ \<Rightarrow> (Inl ConfigIo, m)
      | Inr observed \<Rightarrow>
          if observed = cm_observed m then (Inr ReloadUnchanged, m)
          else (case config_load toml (cm_environment m) (cm_cli m) file of
                  Inl _ \<Rightarrow> (Inr ReloadRejected, m\<lparr>cm_observed := observed\<rparr>)
                | Inr c \<Rightarrow>
                    (Inr (if c = cm_active m then ReloadUnchanged else Reloaded (changes_between (cm_active m) c)),
                     m\<lparr>cm_observed := observed, cm_active := c\<rparr>)))"
  by (auto simp: reload_if_changed_def fingerprint_def manager_replace_spec Let_def split: sum.splits)

lemma reload_now_cases:
  "reload_now toml p file m =
     (case p of
        Inl _ \<Rightarrow> (Inl ConfigIo, m)
      | Inr observed \<Rightarrow>
          (case config_load toml (cm_environment m) (cm_cli m) file of
             Inl e \<Rightarrow> (Inl e, m\<lparr>cm_observed := observed\<rparr>)
           | Inr c \<Rightarrow>
               (Inr (if c = cm_active m then ReloadUnchanged else Reloaded (changes_between (cm_active m) c)),
                m\<lparr>cm_observed := observed, cm_active := c\<rparr>)))"
  by (auto simp: reload_now_def fingerprint_def manager_replace_spec Let_def split: sum.splits)

lemma reload_step_ok: "manager_ok env cli m \<Longrightarrow> manager_ok env cli (reload_step toml m call)"
  by (cases call)
    (auto simp: reload_if_changed_cases reload_now_cases manager_ok_def config_load_iff split: sum.splits if_splits)

interpretation manager: invariant_machine "reload_step toml" "\<lambda>_ _. True" "manager_ok env cli"
  by unfold_locales (rule reload_step_ok)

lemma enabled_always: "enabled_run step (\<lambda>_ _. True) s is"
  by (induction "is" arbitrary: s) auto

section \<open>Durations as text\<close>

lemma strip_suffix_append: "strip_suffix p (s @ p) = Some s"
  by (simp add: strip_suffix_Some)

lemma strip_suffix_other: "last p \<noteq> c \<Longrightarrow> p \<noteq> [] \<Longrightarrow> strip_suffix p (s @ [c]) = None"
proof -
  assume p: "p \<noteq> []" "last p \<noteq> c"
  have "s @ [c] \<noteq> t @ p" for t
    using p by (metis last_appendR last_snoc)
  then show ?thesis by (metis not_None_eq strip_suffix_Some)
qed

lemma last_print_nat: "is_ascii_digit (last (print_nat n))"
  using print_nat_digits [of n] by (simp add: list_all_iff)

lemma strip_ms_digits: "strip_suffix (ustr ''ms'') (print_nat n @ ustr ''s'') = None"
proof -
  have "print_nat n @ ustr ''s'' \<noteq> t @ ustr ''ms''" for t
  proof
    assume "print_nat n @ ustr ''s'' = t @ ustr ''ms''"
    then have "print_nat n @ ustr ''s'' = (t @ ustr ''m'') @ ustr ''s''" by simp
    then have "print_nat n = t @ ustr ''m''" by (simp only: append_same_eq)
    then have "last (print_nat n) = 0x6d" by simp
    with last_print_nat [of n] show False by (simp add: is_ascii_digit_def)
  qed
  then show ?thesis by (metis not_None_eq strip_suffix_Some)
qed

lemma duration_unit_print:
  "duration_unit (print_nat n @ ustr ''ms'') = Some (print_nat n, 1)"
  "duration_unit (print_nat n @ ustr ''s'') = Some (print_nat n, 1000)"
  "duration_unit (print_nat n @ ustr ''m'') = Some (print_nat n, 60000)"
  "duration_unit (print_nat n @ ustr ''h'') = Some (print_nat n, 3600000)"
  unfolding duration_unit_def strip_ms_digits strip_suffix_append
  by (simp_all add: strip_suffix_other strip_suffix_append [of "[_]", simplified])

lemma parse_duration_print:
  assumes "duration_unit v = Some (print_nat n, k)" and "n * k \<le> u64_max" and "n \<le> u64_max"
  shows "parse_duration v = Inr (from_millis (n * k))"
  using assms(1) parse_print [OF assms(3)] assms(2) by (simp add: parse_duration_def)

lemma parse_format:
  assumes "as_millis d \<le> u64_max"
  shows "parse_duration (format_duration d) = Inr (from_millis (as_millis d))"
proof -
  let ?ms = "as_millis d"
  have whole: "parse_duration (print_nat (?ms div k) @ ustr u) = Inr (from_millis ?ms)"
    if "duration_unit (print_nat (?ms div k) @ ustr u) = Some (print_nat (?ms div k), k)" "k dvd ?ms" for u k
    using parse_duration_print [OF that(1)] that(2) assms div_le_dividend [of ?ms k]
    by (simp add: dvd_div_mult_self order_trans)
  have "parse_duration (print_nat ?ms @ ustr ''ms'') = Inr (from_millis ?ms)"
    using whole [of 1 "''ms''"] duration_unit_print(1) by simp
  with whole [OF duration_unit_print(2)] whole [OF duration_unit_print(3)] whole [OF duration_unit_print(4)]
  show ?thesis by (auto simp: format_duration_def Let_def)
qed

section \<open>Properties\<close>

text \<open>
  Claim C25. Loading yields a configuration exactly when the file is absent, or is within the size
  limit, UTF-8 and accepted by the TOML reader, and the result is within all bounds; the result
  then has the values of the command line where it names some, else those the environment forces
  (\<open>NO_COLOR\<close> and a dumb terminal), else those of the file or the defaults.
\<close>

theorem config_load_correct:
  "config_load toml env cli file = Inr c \<longleftrightarrow>
     (\<exists>c0. (file = OpenError (PathIo True) \<and> c0 = config_default
            \<or> (\<exists>len bytes text. file = FileBytes len bytes \<and> len \<le> MAX_CONFIG_BYTES
                 \<and> length bytes \<le> MAX_CONFIG_BYTES \<and> utf8_decode bytes = Some text \<and> toml text = Inr c0))
           \<and> c = effective env cli c0 \<and> config_valid c)"
  by (simp only: config_load_iff read_config_Inr)

text \<open>
  Claim C26. Whatever the file system answers to any sequence of reloads, the active configuration
  of a manager is within all bounds and has the precedence of its command line and environment
  applied; a reload that fails or is rejected leaves it in place; and a reload that reports changes
  has put the loaded configuration in place and names exactly the parts that differ, at least one.
\<close>

theorem config_reload_correct:
  assumes "manager_new toml env cli file0 p0 = Inr m0"
    and "m = run_machine (reload_step toml) m0 calls"
    and "op \<in> {reload_if_changed, reload_now}" and "op toml p file m = (r, m')"
  shows "config_valid (cm_active m) \<and> (\<exists>c0. cm_active m = effective env cli c0)
    \<and> (case r of
         Inl _ \<Rightarrow> cm_active m' = cm_active m
       | Inr ReloadRejected \<Rightarrow> cm_active m' = cm_active m
       | Inr ReloadUnchanged \<Rightarrow> cm_active m' = cm_active m
       | Inr (Reloaded ch) \<Rightarrow>
           config_load toml env cli file = Inr (cm_active m')
           \<and> ch = changes_between (cm_active m) (cm_active m')
           \<and> (cc_daemon_or_queue ch \<or> cc_display_reconciliation ch \<or> cc_history ch \<or> cc_hooks_require_sync ch))"
proof -
  have ok: "manager_ok env cli m"
    unfolding assms(2) by (rule manager.run_inv [OF manager_new_ok [OF assms(1)] enabled_always])
  have differ: "cc_daemon_or_queue ch \<or> cc_display_reconciliation ch \<or> cc_history ch \<or> cc_hooks_require_sync ch"
    if "ch = changes_between c d" "c \<noteq> d" for ch and c d :: config
    using that by (cases c; cases d) (auto simp: changes_between_def)
  have "(r, m') = reload_if_changed toml p file m \<or> (r, m') = reload_now toml p file m"
    using assms(3,4) by auto
  then show ?thesis
    using ok differ
    by (auto simp: manager_ok_def reload_if_changed_cases reload_now_cases split: sum.splits if_splits)
qed

definition demo_toml :: "ustring \<Rightarrow> unit + config" where
  "demo_toml t = Inr (config_default\<lparr>cfg_queue := \<lparr>qc_max_pending = 5\<rparr>\<rparr>)"

definition demo_overrides :: config_overrides where
  "demo_overrides = \<lparr>co_color = None, co_unicode = None, co_animation_enabled = Some False\<rparr>"

definition demo_manager :: config_manager where
  "demo_manager = \<lparr>cm_environment = Map.empty, cm_cli = demo_overrides,
     cm_active = set_animation False config_default, cm_observed = None\<rparr>"

lemma demo_effective:
  "effective Map.empty demo_overrides c = set_animation False c" "cfg_queue (set_animation False c) = cfg_queue c"
  by (simp_all add: effective_def demo_overrides_def set_animation_def)

lemma demo_valid:
  "config_valid (set_animation False config_default)"
  "config_valid (set_animation False (config_default\<lparr>cfg_queue := \<lparr>qc_max_pending = 5\<rparr>\<rparr>))"
  by (simp_all add: config_valid_def set_animation_def config_default_def queue_config_default_def
      toast_config_default_def animation_config_default_def attention_config_default_def
      history_config_default_def hooks_config_default_def hook_provider_config_default_def
      from_secs_def from_millis_def)

lemma demo_created:
  "manager_new demo_toml Map.empty demo_overrides (OpenError (PathIo True)) (Inr None) = Inr demo_manager"
proof -
  have "config_load demo_toml Map.empty demo_overrides (OpenError (PathIo True)) = Inr (set_animation False config_default)"
    by (auto simp: config_load_iff read_config_Inr demo_effective demo_valid)
  then show ?thesis by (simp add: manager_new_def fingerprint_def demo_manager_def)
qed

lemma config_reload_correct_witness:
  "\<exists>ch m'. reload_now demo_toml (Inr None) (FileBytes 0 []) demo_manager = (Inr (Reloaded ch), m')
     \<and> qc_max_pending (cfg_queue (cm_active m')) = 5
     \<and> ch = changes_between (cm_active demo_manager) (cm_active m') \<and> cc_daemon_or_queue ch"
proof -
  let ?c = "set_animation False (config_default\<lparr>cfg_queue := \<lparr>qc_max_pending = 5\<rparr>\<rparr>)"
  have "utf8_decode [] = Some []" by (simp add: utf8_decode_def decode_from.simps)
  then have "config_load demo_toml Map.empty demo_overrides (FileBytes 0 []) = Inr ?c"
    by (auto simp: config_load_iff read_config_Inr demo_effective demo_valid demo_toml_def)
  moreover have queue: "cfg_queue ?c \<noteq> cfg_queue (cm_active demo_manager)"
    by (simp add: demo_effective demo_manager_def config_default_def queue_config_default_def)
  then have "?c \<noteq> cm_active demo_manager" by metis
  ultimately have r: "reload_now demo_toml (Inr None) (FileBytes 0 []) demo_manager
      = (Inr (Reloaded (changes_between (cm_active demo_manager) ?c)), demo_manager\<lparr>cm_observed := None, cm_active := ?c\<rparr>)"
    by (simp add: reload_now_cases demo_manager_def)
  have "demo_manager = run_machine (reload_step demo_toml) demo_manager []" by simp
  from config_reload_correct [where op = reload_now, OF demo_created this _ r] r queue show ?thesis
    by (simp add: changes_between_def demo_effective)
qed

text \<open>
  Durations, timeouts and percentages survive being written and read back: every duration
  of whole milliseconds that the configuration can hold, \<open>never\<close>, and every percentage.
\<close>

theorem config_text_round_trip:
  assumes "d mod 1000000 = 0" and "as_millis d \<le> u64_max" and "n \<le> u32_max"
  shows "parse_duration (format_duration d) = Inr d
    \<and> timeout_value_read (timeout_value_write (TimeoutAfter d)) = Inr (TimeoutAfter d)
    \<and> timeout_value_read (timeout_value_write TimeoutNever) = Inr TimeoutNever
    \<and> percentage_read (percentage_write n) = Inr n"
proof -
  have "from_millis (as_millis d) = d"
    using assms(1) by (auto simp: from_millis_def as_millis_def)
  then have d: "parse_duration (format_duration d) = Inr d" using parse_format [OF assms(2)] by simp
  moreover have "format_duration d \<noteq> ustr ''never''"
  proof
    assume "format_duration d = ustr ''never''"
    with d have "parse_duration (ustr ''never'') = Inr d" by simp
    then show False
      by (simp add: parse_duration_def duration_unit_def strip_suffix_def strip_prefix_def)
  qed
  moreover have "strip_suffix (ustr ''%'') (print_nat n @ ustr ''%'') = Some (print_nat n)"
    by (rule strip_suffix_append)
  ultimately show ?thesis
    using parse_print [OF assms(3)]
    by (simp add: timeout_value_read_def timeout_value_write_def percentage_read_def percentage_write_def)
qed

lemma config_text_round_trip_witness:
  "parse_duration (format_duration (from_secs 90)) = Inr (from_secs 90) \<and> percentage_read (percentage_write 60) = Inr 60"
  using config_text_round_trip [of "from_secs 90" 60] by (simp add: from_secs_def as_millis_def)

end
