(* ===== verification/Toast_Layout.thy ===== *)
theory Toast_Layout
  imports Config "HOL-Library.Multiset"
begin

text \<open>
  Where Toasts stand in a window: the layout of \<open>src/toast.rs\<close>. Coordinates are cells of a
  terminal, at most \<open>u16::MAX\<close>, with the source's saturating arithmetic.
\<close>

section \<open>Data\<close>

definition MIN_TOAST_WIDTH :: nat where "MIN_TOAST_WIDTH = 24"
definition DEFAULT_TOAST_WIDTH :: nat where "DEFAULT_TOAST_WIDTH = 42"
definition DEFAULT_TOAST_HEIGHT :: nat where "DEFAULT_TOAST_HEIGHT = 3"

record viewport =
  vp_width :: nat
  vp_height :: nat

record rect =
  r_x :: nat
  r_y :: nat
  r_width :: nat
  r_height :: nat

datatype surface = Bordered | Borderless

datatype display_age = AgeFinite duration | AgeNever

definition age_from_timeout :: "timeout \<Rightarrow> duration option \<Rightarrow> display_age" where
  "age_from_timeout t remaining =
     (case t of
        After d \<Rightarrow> AgeFinite (case remaining of Some r \<Rightarrow> r | None \<Rightarrow> d)
      | Never \<Rightarrow> AgeNever)"

record toast =
  to_sequence :: nat
  to_level :: level
  to_title :: ustring
  to_body :: ustring
  to_notification_key :: "ustring option"
  to_age :: display_age
  to_updated :: bool

record layout_options =
  lo_placement :: cfg_placement
  lo_width :: nat
  lo_height :: nat
  lo_max_visible :: nat
  lo_gap :: nat
  lo_stack_order :: stack_order

definition layout_options_default :: layout_options where
  "layout_options_default = \<lparr>lo_placement = CfgTopRight, lo_width = DEFAULT_TOAST_WIDTH,
     lo_height = DEFAULT_TOAST_HEIGHT, lo_max_visible = 4, lo_gap = 1, lo_stack_order = OldestFirst\<rparr>"

datatype slot = ToastSlot toast | WaitingSlot nat

record placed_slot =
  ps_rect :: rect
  ps_surface :: surface
  ps_slot :: slot

record window_layout =
  wl_slots :: "placed_slot list"
  wl_suppressed :: nat

section \<open>Layout\<close>

definition horizontal_origin :: "nat \<Rightarrow> nat \<Rightarrow> cfg_placement \<Rightarrow> nat" where
  "horizontal_origin window_width w p =
     (case p of
        CfgTopLeft \<Rightarrow> 0 | CfgBottomLeft \<Rightarrow> 0
      | CfgTopCenter \<Rightarrow> (window_width - w) div 2 | CfgBottomCenter \<Rightarrow> (window_width - w) div 2
      | CfgTopRight \<Rightarrow> window_width - w | CfgBottomRight \<Rightarrow> window_width - w)"

definition at_bottom :: "cfg_placement \<Rightarrow> bool" where
  "at_bottom p \<longleftrightarrow> p \<in> {CfgBottomLeft, CfgBottomCenter, CfgBottomRight}"

definition slot_size :: "viewport \<Rightarrow> layout_options \<Rightarrow> surface \<times> nat \<times> nat" where
  "slot_size v lo =
     (let s = (if vp_width v \<ge> lo_width lo then Bordered else Borderless)
      in (s, case s of Bordered \<Rightarrow> (lo_width lo, lo_height lo) | Borderless \<Rightarrow> (vp_width v, 1)))"

definition slots_per_window :: "viewport \<Rightarrow> nat \<Rightarrow> layout_options \<Rightarrow> nat" where
  "slots_per_window v h lo =
     min (sat_add u16_max (vp_height v) (lo_gap lo) div max (sat_add u16_max h (lo_gap lo)) 1) (lo_max_visible lo)"

text \<open>\<open>sort_by_key\<close> is stable, also for the reversed key.\<close>

definition stacked :: "stack_order \<Rightarrow> toast list \<Rightarrow> toast list" where
  "stacked ord ts =
     (case ord of
        OldestFirst \<Rightarrow> sort_key to_sequence ts
      | NewestFirst \<Rightarrow> sort_key (\<lambda>t. - int (to_sequence t)) ts)"

definition slot_offset :: "nat \<Rightarrow> nat \<Rightarrow> nat" where
  "slot_offset step i = sat_mul u16_max (min i u16_max) step"

definition slot_y :: "viewport \<Rightarrow> nat \<Rightarrow> nat \<Rightarrow> cfg_placement \<Rightarrow> nat \<Rightarrow> nat" where
  "slot_y v h step p i =
     (if at_bottom p then vp_height v - h - slot_offset step i else slot_offset step i)"

definition layout_window :: "viewport \<Rightarrow> toast list \<Rightarrow> layout_options \<Rightarrow> window_layout" where
  "layout_window v ts lo =
     (if vp_width v < MIN_TOAST_WIDTH \<or> lo_max_visible lo = 0
      then \<lparr>wl_slots = [], wl_suppressed = length ts\<rparr>
      else
        (let (surface, w, h) = slot_size v lo;
             per_window = slots_per_window v h lo
         in
         if per_window = 0 then \<lparr>wl_slots = [], wl_suppressed = length ts\<rparr>
         else
           (let ordered = stacked (lo_stack_order lo) ts;
                capacity = (if length ordered > per_window then per_window - 1 else per_window);
                waiting = length ordered - capacity;
                values = map ToastSlot (take capacity ordered) @ (if waiting > 0 then [WaitingSlot waiting] else []);
                x = horizontal_origin (vp_width v) w (lo_placement lo);
                step = sat_add u16_max h (lo_gap lo)
            in \<lparr>wl_slots = map (\<lambda>(i, s).
                    \<lparr>ps_rect = \<lparr>r_x = x, r_y = slot_y v h step (lo_placement lo) i, r_width = w, r_height = h\<rparr>,
                     ps_surface = surface, ps_slot = s\<rparr>) (enumerate 0 values),
                wl_suppressed = waiting\<rparr>)))"

section \<open>Where the slots are\<close>

definition inside_viewport :: "viewport \<Rightarrow> rect \<Rightarrow> bool" where
  "inside_viewport v r \<longleftrightarrow> r_x r + r_width r \<le> vp_width v \<and> r_y r + r_height r \<le> vp_height v"

text \<open>Two slots are apart when \<open>gap\<close> rows or more lie between them.\<close>

definition apart :: "nat \<Rightarrow> rect \<Rightarrow> rect \<Rightarrow> bool" where
  "apart gap r s \<longleftrightarrow> r_y r + r_height r + gap \<le> r_y s \<or> r_y s + r_height s + gap \<le> r_y r"

lemma slot_extent:
  fixes n vh gap h i :: nat
  assumes "n \<le> (vh + gap) div (h + gap)" and "i < n"
  shows "i * (h + gap) + h \<le> vh"
proof -
  have "(i + 1) * (h + gap) \<le> n * (h + gap)" using assms(2) by (intro mult_le_mono) auto
  also have "\<dots> \<le> (vh + gap) div (h + gap) * (h + gap)" using assms(1) by (rule mult_le_mono1)
  also have "\<dots> \<le> vh + gap" by (rule div_times_less_eq_dividend)
  finally show ?thesis by simp
qed

lemma slots_per_window_eq:
  assumes "h + lo_gap lo \<le> u16_max" and "0 < h" and "vp_height v + lo_gap lo \<le> u16_max"
  shows "slots_per_window v h lo = min ((vp_height v + lo_gap lo) div (h + lo_gap lo)) (lo_max_visible lo)"
  using assms by (simp add: slots_per_window_def sat_add_def min_absorb1 max_absorb1)

lemma slot_offset_exact: "i * step \<le> u16_max \<Longrightarrow> 0 < step \<Longrightarrow> slot_offset step i = i * step"
proof -
  assume a: "i * step \<le> u16_max" "0 < step"
  then have "i \<le> i * step" by (cases step) auto
  with a(1) have "min i u16_max = i" by linarith
  with a(1) show ?thesis by (simp add: slot_offset_def sat_mul_def)
qed

text \<open>The row of the \<open>i\<close>-th slot, from the edge the placement names.\<close>

lemma slot_y_exact:
  assumes "i * (h + gap) + h \<le> vp_height v" and "vp_height v \<le> u16_max" and "0 < h" and "h + gap \<le> u16_max"
  shows "slot_y v h (sat_add u16_max h gap) p i
     = (if at_bottom p then vp_height v - h - i * (h + gap) else i * (h + gap))"
proof -
  have "i * (h + gap) \<le> u16_max" "0 < h + gap" using assms(1-3) by linarith+
  from slot_offset_exact [OF this] assms(4) show ?thesis
    by (simp add: slot_y_def sat_add_def)
qed

definition before :: "stack_order \<Rightarrow> toast \<Rightarrow> toast \<Rightarrow> bool" where
  "before ord s t =
     (case ord of OldestFirst \<Rightarrow> to_sequence s \<le> to_sequence t | NewestFirst \<Rightarrow> to_sequence t \<le> to_sequence s)"

lemma stacked_mset: "mset (stacked ord ts) = mset ts"
  by (cases ord) (simp_all add: stacked_def)

lemma stacked_length [simp]: "length (stacked ord ts) = length ts"
  by (cases ord) (simp_all add: stacked_def)

lemma sorted_by_key: "sorted_wrt (\<lambda>s t. f s \<le> f t) (sort_key f xs)"
  using sorted_sort_key [of f xs] by (simp only: sorted_wrt_map)

lemma stacked_sorted: "sorted_wrt (before ord) (stacked ord ts)"
proof (cases ord)
  case OldestFirst
  then show ?thesis using sorted_by_key [of to_sequence ts] by (simp add: stacked_def before_def [abs_def])
next
  case NewestFirst
  have "sorted_wrt (\<lambda>s t. - int (to_sequence s) \<le> - int (to_sequence t)) (stacked ord ts)"
    unfolding stacked_def NewestFirst stack_order.case by (rule sorted_by_key)
  then show ?thesis by (rule sorted_wrt_mono_rel [rotated]) (simp add: before_def NewestFirst)
qed

lemma origin_inside: "w \<le> vw \<Longrightarrow> horizontal_origin vw w p + w \<le> vw"
  by (cases p) (auto simp: horizontal_origin_def)

lemma rows_apart:
  fixes i j h gap vh :: nat
  assumes "i < j" and "j * (h + gap) + h \<le> vh"
  shows "i * (h + gap) + h + gap \<le> j * (h + gap)"
    and "vh - h - j * (h + gap) + h + gap \<le> vh - h - i * (h + gap)"
proof -
  have "(i + 1) * (h + gap) \<le> j * (h + gap)" using assms(1) by (intro mult_le_mono) auto
  then show "i * (h + gap) + h + gap \<le> j * (h + gap)" by simp
  then show "vh - h - j * (h + gap) + h + gap \<le> vh - h - i * (h + gap)" using assms(2) by linarith
qed

text \<open>The rectangle of the \<open>i\<close>-th slot, and the slots with given contents.\<close>

definition slot_rect :: "viewport \<Rightarrow> nat \<Rightarrow> nat \<Rightarrow> nat \<Rightarrow> cfg_placement \<Rightarrow> nat \<Rightarrow> rect" where
  "slot_rect v w h gap p i =
     \<lparr>r_x = horizontal_origin (vp_width v) w p, r_y = slot_y v h (sat_add u16_max h gap) p i,
      r_width = w, r_height = h\<rparr>"

lemma slot_rects:
  assumes "i < n" and "n \<le> (vp_height v + gap) div (h + gap)" and "vp_height v \<le> u16_max"
    and "0 < h" and "h + gap \<le> u16_max" and "w \<le> vp_width v"
  shows "inside_viewport v (slot_rect v w h gap p i)"
    and "j < i \<Longrightarrow> apart gap (slot_rect v w h gap p i) (slot_rect v w h gap p j)"
proof -
  have extent: "k * (h + gap) + h \<le> vp_height v" if "k < n" for k
    by (rule slot_extent [OF assms(2) that])
  have y: "r_y (slot_rect v w h gap p k)
      = (if at_bottom p then vp_height v - h - k * (h + gap) else k * (h + gap))" if "k < n" for k
    using slot_y_exact [OF extent [OF that] assms(3,4,5)] by (simp add: slot_rect_def)
  have size: "r_x (slot_rect v w h gap p k) = horizontal_origin (vp_width v) w p"
    "r_width (slot_rect v w h gap p k) = w" "r_height (slot_rect v w h gap p k) = h" for k
    by (simp_all add: slot_rect_def)
  show "inside_viewport v (slot_rect v w h gap p i)"
    using extent [OF assms(1)] origin_inside [OF assms(6), of p]
    by (simp add: inside_viewport_def y [OF assms(1)] size)
  show "apart gap (slot_rect v w h gap p i) (slot_rect v w h gap p j)" if "j < i"
  proof -
    have "j < n" using that assms(1) by simp
    show ?thesis
      using rows_apart [OF that extent [OF assms(1)]]
      by (simp add: apart_def y [OF assms(1)] y [OF \<open>j < n\<close>] size)
  qed
qed

definition slot_capacity :: "nat \<Rightarrow> nat \<Rightarrow> nat" where
  "slot_capacity m n = (if m > n then n - 1 else n)"

definition slot_values :: "nat \<Rightarrow> toast list \<Rightarrow> slot list" where
  "slot_values k ts = map ToastSlot (take k ts) @ (if length ts - k > 0 then [WaitingSlot (length ts - k)] else [])"

lemma slot_values_length:
  assumes "0 < n" and "k = slot_capacity (length ts) n"
  shows "length (slot_values k ts) \<le> n" and "k < length ts \<Longrightarrow> length (slot_values k ts) = n"
  using assms by (auto simp: slot_values_def slot_capacity_def split: if_splits)

lemma layout_window_slots:
  assumes "slot_size v lo = (u, w, h)"
    and "n = slots_per_window v h lo" and "k = slot_capacity (length ts) n"
    and "\<not> (vp_width v < MIN_TOAST_WIDTH \<or> lo_max_visible lo = 0 \<or> n = 0)"
    and "vals = slot_values k (stacked (lo_stack_order lo) ts)"
  shows "wl_slots (layout_window v ts lo) = map (\<lambda>(i, s). \<lparr>ps_rect = slot_rect v w h (lo_gap lo) (lo_placement lo) i,
      ps_surface = u, ps_slot = s\<rparr>) (enumerate 0 vals)"
    and "wl_suppressed (layout_window v ts lo) = length ts - k"
  using assms
  by (simp_all add: layout_window_def Let_def slot_rect_def slot_capacity_def slot_values_def)

lemma placed_nth:
  assumes "slots = map (\<lambda>(i, s). \<lparr>ps_rect = f i, ps_surface = u, ps_slot = s\<rparr>) (enumerate 0 vals)"
  shows "length slots = length vals" and "map ps_slot slots = vals"
    and "i < length vals \<Longrightarrow> ps_rect (slots ! i) = f i"
  using assms by (simp_all add: comp_def case_prod_unfold nth_enumerate_eq)

section \<open>Properties\<close>

text \<open>
  Claim C22. The layout of a window: every slot lies inside the viewport and \<open>gap\<close> rows or more
  separate any two; there are no more slots than allowed; the Toasts shown are the first in stack
  order, in that order, and all others are counted, truthfully, by one last slot unless no slot fits
  at all. A Toast waits only when every slot that fits the window is taken.
\<close>

theorem layout_correct:
  fixes v lo ts
  defines "L \<equiv> layout_window v ts lo"
  assumes "vp_height v + lo_gap lo \<le> u16_max" and "lo_height lo + lo_gap lo \<le> u16_max" and "0 < lo_height lo"
  shows "(\<forall>s \<in> set (wl_slots L). inside_viewport v (ps_rect s))
    \<and> (\<forall>i < length (wl_slots L). \<forall>j < i. apart (lo_gap lo) (ps_rect (wl_slots L ! i)) (ps_rect (wl_slots L ! j)))
    \<and> length (wl_slots L) \<le> lo_max_visible lo
    \<and> (\<exists>shown waiting. mset (shown @ waiting) = mset ts \<and> sorted_wrt (before (lo_stack_order lo)) (shown @ waiting)
         \<and> wl_suppressed L = length waiting
         \<and> map ps_slot (wl_slots L) = map ToastSlot shown
             @ (if waiting = [] \<or> wl_slots L = [] then [] else [WaitingSlot (length waiting)])
         \<and> (waiting \<noteq> [] \<longrightarrow> MIN_TOAST_WIDTH \<le> vp_width v \<longrightarrow>
              length (wl_slots L) = min (lo_max_visible lo)
                ((vp_height v + lo_gap lo) div (snd (snd (slot_size v lo)) + lo_gap lo))))"
proof -
  obtain u w h where s: "slot_size v lo = (u, w, h)" by (cases "slot_size v lo") auto
  have h: "0 < h" "h + lo_gap lo \<le> u16_max" and w: "w \<le> vp_width v"
    using assms(2-4) s by (auto simp: slot_size_def Let_def split: if_splits)
  define n k where "n = slots_per_window v h lo" and "k = slot_capacity (length ts) n"
  have n: "n = min ((vp_height v + lo_gap lo) div (h + lo_gap lo)) (lo_max_visible lo)"
    unfolding n_def by (rule slots_per_window_eq [OF h(2,1) assms(2)])
  let ?ord = "stacked (lo_stack_order lo) ts"
  have ord: "sorted_wrt (before (lo_stack_order lo)) ?ord" "mset ?ord = mset ts"
    by (rule stacked_sorted stacked_mset)+
  show ?thesis
  proof (cases "vp_width v < MIN_TOAST_WIDTH \<or> lo_max_visible lo = 0 \<or> n = 0")
    case True
    then have none: "wl_slots L = []" "wl_suppressed L = length ts"
      using s by (auto simp: L_def layout_window_def n_def)
    have empty: "\<exists>shown waiting. mset (shown @ waiting) = mset ts \<and> sorted_wrt (before (lo_stack_order lo)) (shown @ waiting)
        \<and> length ts = length waiting \<and> shown = []"
      using ord by (intro exI [of _ "[]"] exI [of _ ?ord]) simp
    have "MIN_TOAST_WIDTH \<le> vp_width v \<Longrightarrow> min (lo_max_visible lo) ((vp_height v + lo_gap lo) div (h + lo_gap lo)) = 0"
      using True n by (auto simp: min_def split: if_splits)
    with empty none s show ?thesis by auto
  next
    case False
    define vals where "vals = slot_values k ?ord"
    have slots: "wl_slots L = map (\<lambda>(i, s). \<lparr>ps_rect = slot_rect v w h (lo_gap lo) (lo_placement lo) i,
        ps_surface = u, ps_slot = s\<rparr>) (enumerate 0 vals)" and suppressed: "wl_suppressed L = length ts - k"
      using layout_window_slots [OF s n_def k_def False vals_def] by (simp_all only: L_def)
    note at = placed_nth [OF slots]
    have few: "length vals \<le> n" "k < length ts \<Longrightarrow> length vals = n"
      using slot_values_length [of n k ?ord] False k_def by (simp_all add: vals_def)
    have rects: "inside_viewport v (ps_rect (wl_slots L ! i))"
      "j < i \<Longrightarrow> apart (lo_gap lo) (ps_rect (wl_slots L ! i)) (ps_rect (wl_slots L ! j))"
      if "i < length (wl_slots L)" for i j
    proof -
      have i: "i < n" "i < length vals" using that few at(1) by auto
      have "n \<le> (vp_height v + lo_gap lo) div (h + lo_gap lo)" "vp_height v \<le> u16_max" using n assms(2) by auto
      note r = slot_rects [OF i(1) this h w]
      show "inside_viewport v (ps_rect (wl_slots L ! i))" unfolding at(3) [OF i(2)] by (rule r)
      show "apart (lo_gap lo) (ps_rect (wl_slots L ! i)) (ps_rect (wl_slots L ! j))" if "j < i"
        using r(2) [OF that] at(3) [OF i(2)] at(3) [of j] that i(2) by simp
    qed
    have contents: "map ps_slot (wl_slots L) = map ToastSlot (take k ?ord)
        @ (if drop k ?ord = [] \<or> wl_slots L = [] then [] else [WaitingSlot (length (drop k ?ord))])"
      using at(1,2) by (auto simp: vals_def slot_values_def)
    have "\<exists>shown waiting. mset (shown @ waiting) = mset ts \<and> sorted_wrt (before (lo_stack_order lo)) (shown @ waiting)
        \<and> wl_suppressed L = length waiting \<and> map ps_slot (wl_slots L) = map ToastSlot shown
             @ (if waiting = [] \<or> wl_slots L = [] then [] else [WaitingSlot (length waiting)])
        \<and> (waiting \<noteq> [] \<longrightarrow> MIN_TOAST_WIDTH \<le> vp_width v \<longrightarrow> length (wl_slots L) = n)"
      using ord suppressed contents few at(1)
      by (intro exI [of _ "take k ?ord"] exI [of _ "drop k ?ord"]) simp
    moreover have "\<forall>s \<in> set (wl_slots L). inside_viewport v (ps_rect s)"
      using rects(1) by (auto simp: in_set_conv_nth)
    moreover have "length (wl_slots L) \<le> lo_max_visible lo" using few(1) at(1) n by simp
    ultimately show ?thesis
      using rects(2) n s by (simp add: min.commute)
  qed
qed

definition demo_toast :: "nat \<Rightarrow> toast" where
  "demo_toast n = \<lparr>to_sequence = n, to_level = Info, to_title = ustr ''t'', to_body = [],
     to_notification_key = None, to_age = AgeNever, to_updated = False\<rparr>"

lemma layout_correct_witness:
  "length (wl_slots (layout_window \<lparr>vp_width = 80, vp_height = 8\<rparr> (map demo_toast [5, 1, 3]) layout_options_default)) = 2"
proof -
  let ?v = "\<lparr>vp_width = 80, vp_height = 8\<rparr>"
  have "length (wl_slots (layout_window ?v (map demo_toast [5, 1, 3]) layout_options_default)) \<le> 4
      \<and> wl_suppressed (layout_window ?v (map demo_toast [5, 1, 3]) layout_options_default) = 2"
    using layout_correct [of ?v layout_options_default "map demo_toast [5, 1, 3]"]
    by (simp add: layout_options_default_def layout_window_def slot_size_def slots_per_window_def
        DEFAULT_TOAST_HEIGHT_def DEFAULT_TOAST_WIDTH_def MIN_TOAST_WIDTH_def sat_add_def)
  with layout_correct [of ?v layout_options_default "map demo_toast [5, 1, 3]"] show ?thesis
    by (simp add: layout_options_default_def layout_window_def slot_size_def slots_per_window_def
        DEFAULT_TOAST_HEIGHT_def DEFAULT_TOAST_WIDTH_def MIN_TOAST_WIDTH_def sat_add_def)
qed

end
