(* ===== verification/Toast_Render.thy ===== *)
theory Toast_Render
  imports Toast_Layout
begin

text \<open>
  What a Toast shows: the rows of \<open>src/toast.rs\<close>. The widths of text in terminal cells and its
  grapheme clusters come from the Unicode tables of two crates; they are parameters.
\<close>

section \<open>Data\<close>

datatype glyph_mode = GlyphUnicode | GlyphAscii

datatype color_mode = Ansi16 | Monochrome

record render_options =
  rn_body :: body_presentation
  rn_glyphs :: glyph_mode
  rn_color :: color_mode
  rn_show_jump_hint :: bool

definition render_options_default :: render_options where
  "render_options_default = \<lparr>rn_body = BodyFirstLine, rn_glyphs = GlyphUnicode, rn_color = Ansi16,
     rn_show_jump_hint = True\<rparr>"

record rendered_toast =
  rt_lines :: "ustring list"
  rt_styled_lines :: "ustring list"
  rt_interactive :: bool

record text_metrics =
  tx_width :: "ustring \<Rightarrow> nat"
  tx_graphemes :: "ustring \<Rightarrow> ustring list"

section \<open>Text\<close>

abbreviation space :: nat where "space \<equiv> 0x20"
abbreviation ellipsis :: nat where "ellipsis \<equiv> 0x2026"
abbreviation middle_dot :: nat where "middle_dot \<equiv> 0xb7"
abbreviation em_dash :: nat where "em_dash \<equiv> 0x2014"

definition trim_start :: "ustring \<Rightarrow> ustring" where
  "trim_start s = dropWhile is_whitespace s"

definition trim_end :: "ustring \<Rightarrow> ustring" where
  "trim_end s = rev (dropWhile is_whitespace (rev s))"

definition trim :: "ustring \<Rightarrow> ustring" where
  "trim s = trim_end (trim_start s)"

definition safe_char :: "nat \<Rightarrow> nat option" where
  "safe_char c =
     (if c = 0x1b \<or> 0x7f \<le> c \<and> c \<le> 0x9f then None
      else if c = 0x0a then Some 0x0a
      else if c = 0x09 then Some space
      else if is_control c then Some 0xfffd
      else if 0x202a \<le> c \<and> c \<le> 0x202e \<or> 0x2066 \<le> c \<and> c \<le> 0x2069 then Some 0xfffd
      else Some c)"

definition safe_plain_text :: "ustring \<Rightarrow> ustring" where
  "safe_plain_text s = List.map_filter safe_char s"

definition nonempty_lines :: "ustring \<Rightarrow> ustring list" where
  "nonempty_lines body = filter (\<lambda>l. l \<noteq> []) (map trim (rust_lines body))"

definition compact_body :: "ustring \<Rightarrow> ustring" where
  "compact_body body = (case nonempty_lines body of [] \<Rightarrow> [] | l # _ \<Rightarrow> l)"

definition joined_body :: "ustring \<Rightarrow> ustring" where
  "joined_body body = join_with space (nonempty_lines body)"

text \<open>The longest run of clusters within \<open>target\<close> cells, with the cells it takes.\<close>

fun take_cells :: "text_metrics \<Rightarrow> nat \<Rightarrow> nat \<Rightarrow> ustring list \<Rightarrow> ustring \<times> nat" where
  "take_cells tx target used [] = ([], used)"
| "take_cells tx target used (g # gs) =
     (if used + tx_width tx g > target then ([], used)
      else (case take_cells tx target (used + tx_width tx g) gs of (out, used') \<Rightarrow> (g @ out, used')))"

definition fit_line :: "text_metrics \<Rightarrow> ustring \<Rightarrow> nat \<Rightarrow> bool \<Rightarrow> ustring" where
  "fit_line tx value w force =
     (if w = 0 then []
      else if tx_width tx value \<le> w \<and> \<not> force then value @ replicate (w - tx_width tx value) space
      else
        (let (out, used) = take_cells tx (w - tx_width tx [ellipsis]) 0 (tx_graphemes tx value)
         in out @ [ellipsis] @ replicate (w - (used + 1)) space))"

text \<open>The loop over the words; the lines so far are not empty from the first word on.\<close>

fun wrap_words :: "text_metrics \<Rightarrow> nat \<Rightarrow> nat \<Rightarrow> ustring list \<Rightarrow> ustring list \<Rightarrow> ustring list" where
  "wrap_words tx w maximum [] ls = ls"
| "wrap_words tx w maximum (word # ws) ls =
     (if ls = [] then wrap_words tx w maximum ws [trim_end (fit_line tx word w False)]
      else
        (let l = last ls; gap = (if l = [] then [] else [space]) in
         if tx_width tx l + length gap + tx_width tx word \<le> w
         then wrap_words tx w maximum ws (butlast ls @ [l @ gap @ word])
         else if length ls < maximum
         then wrap_words tx w maximum ws (ls @ [trim_end (fit_line tx word w False)])
         else butlast ls @ [trim_end (fit_line tx l w True)]))"

definition wrap_lines :: "text_metrics \<Rightarrow> ustring \<Rightarrow> nat \<Rightarrow> nat \<Rightarrow> ustring list" where
  "wrap_lines tx value w maximum =
     (if w = 0 \<or> maximum = 0 then [] else wrap_words tx w maximum (split_whitespace value) [])"

definition body_lines :: "text_metrics \<Rightarrow> ustring \<Rightarrow> body_presentation \<Rightarrow> nat \<Rightarrow> nat \<Rightarrow> ustring list" where
  "body_lines tx body mode w rows =
     (if rows \<le> 1 \<or> w = 0 then []
      else case mode of
        BodyFirstLine \<Rightarrow>
          (case nonempty_lines body of
             [] \<Rightarrow> []
           | l # ls \<Rightarrow> [fit_line tx l w (ls \<noteq> [])])
      | BodyJoinLines \<Rightarrow>
          (if joined_body body = [] then [] else [fit_line tx (joined_body body) w False])
      | BodyWrap \<Rightarrow> wrap_lines tx body w (rows - 1))"

section \<open>Labels and styles\<close>

fun level_identity :: "level \<Rightarrow> glyph_mode \<Rightarrow> ustring \<times> ustring" where
  "level_identity Info GlyphUnicode = ([0x25cf], ustr ''info'')"
| "level_identity Success GlyphUnicode = ([0x2713], ustr ''ok'')"
| "level_identity Warning GlyphUnicode = ([0x25b2], ustr ''warning'')"
| "level_identity Error GlyphUnicode = ([0x2715], ustr ''error'')"
| "level_identity Info GlyphAscii = (ustr ''[i]'', ustr ''info'')"
| "level_identity Success GlyphAscii = (ustr ''[ok]'', ustr ''ok'')"
| "level_identity Warning GlyphAscii = (ustr ''[!]'', ustr ''warning'')"
| "level_identity Error GlyphAscii = (ustr ''[x]'', ustr ''error'')"

definition dot :: ustring where "dot = [space, middle_dot, space]"
definition dash :: ustring where "dash = [space, em_dash, space]"

definition status_text :: "toast \<Rightarrow> ustring" where
  "status_text t =
     (let base = (case to_age t of
            AgeNever \<Rightarrow> ustr ''persistent''
          | AgeFinite remaining \<Rightarrow>
              (let ms = as_millis remaining in
               if ms < 1000 then print_nat ms @ ustr ''ms'' else print_nat (remaining div 1000000000) @ ustr ''s''))
      in if to_updated t then ustr ''updated'' @ dot @ base else base)"

definition level_color :: "level \<Rightarrow> nat" where
  "level_color l = (case l of Info \<Rightarrow> 36 | Success \<Rightarrow> 32 | Warning \<Rightarrow> 33 | Error \<Rightarrow> 31)"

definition style_line :: "ustring \<Rightarrow> level \<Rightarrow> color_mode \<Rightarrow> ustring" where
  "style_line line l color =
     (if color = Monochrome then line
      else [0x1b] @ ustr ''['' @ print_nat (level_color l) @ ustr ''m'' @ line @ [0x1b] @ ustr ''[0m'')"

record frame_glyphs =
  fg_tl :: nat
  fg_tr :: nat
  fg_bl :: nat
  fg_br :: nat
  fg_horizontal :: nat
  fg_vertical :: nat

definition frame_of :: "glyph_mode \<Rightarrow> frame_glyphs" where
  "frame_of g =
     (case g of
        GlyphUnicode \<Rightarrow> \<lparr>fg_tl = 0x250c, fg_tr = 0x2510, fg_bl = 0x2514, fg_br = 0x2518,
                        fg_horizontal = 0x2500, fg_vertical = 0x2502\<rparr>
      | GlyphAscii \<Rightarrow> \<lparr>fg_tl = 0x2b, fg_tr = 0x2b, fg_bl = 0x2b, fg_br = 0x2b,
                      fg_horizontal = 0x2d, fg_vertical = 0x7c\<rparr>)"

section \<open>Rows\<close>

definition framed :: "glyph_mode \<Rightarrow> nat \<Rightarrow> ustring list \<Rightarrow> ustring list" where
  "framed g inner rows =
     (let f = frame_of g in
      [[fg_tl f] @ replicate inner (fg_horizontal f) @ [fg_tr f]]
      @ map (\<lambda>row. [fg_vertical f] @ row @ [fg_vertical f]) rows
      @ [[fg_bl f] @ replicate inner (fg_horizontal f) @ [fg_br f]])"

definition row_or_empty :: "ustring list \<Rightarrow> nat \<Rightarrow> ustring" where
  "row_or_empty content i = (if i < length content then content ! i else [])"

definition render_bordered ::
  "text_metrics \<Rightarrow> ustring \<Rightarrow> ustring \<Rightarrow> nat \<Rightarrow> nat \<Rightarrow> body_presentation \<Rightarrow> glyph_mode \<Rightarrow> ustring \<Rightarrow> ustring
    \<Rightarrow> ustring \<Rightarrow> ustring option \<Rightarrow> ustring list" where
  "render_bordered tx title body w h mode glyphs symbol label status hint =
     (if w < 2 \<or> h < 2 then replicate h (fit_line tx title w True)
      else
        (let iw = w - 2; ih = h - 2 in
         if ih = 1 then
           (let body' = (case mode of
                  BodyFirstLine \<Rightarrow> compact_body body | BodyWrap \<Rightarrow> compact_body body
                | BodyJoinLines \<Rightarrow> joined_body body);
                content = symbol @ [space] @ label @ dot @ status @ dot @ title @ dash @ body'
            in framed glyphs iw [fit_line tx content iw False])
         else
           (let heading = symbol @ [space] @ label @ dot @ title @ dot @ status;
                content = [heading] @ body_lines tx body mode iw ih @ (case hint of None \<Rightarrow> [] | Some t \<Rightarrow> [t])
            in framed glyphs iw (map (\<lambda>i. fit_line tx (row_or_empty content i) iw False) [0..<ih]))))"

definition render_toast :: "text_metrics \<Rightarrow> toast \<Rightarrow> rect \<Rightarrow> surface \<Rightarrow> render_options \<Rightarrow> rendered_toast" where
  "render_toast tx t r s opts =
     (let w = r_width r; h = r_height r in
      if w = 0 \<or> h = 0 then \<lparr>rt_lines = [], rt_styled_lines = [], rt_interactive = False\<rparr>
      else
        (let title = safe_plain_text (to_title t);
             body = safe_plain_text (to_body t);
             (symbol, label) = level_identity (to_level t) (rn_glyphs opts);
             status = status_text t;
             hint = (case to_notification_key t of
                       Some key \<Rightarrow> if rn_show_jump_hint opts
                                   then Some (ustr ''jump: tmnotify jump --key '' @ safe_plain_text key) else None
                     | None \<Rightarrow> None);
             ls = (case s of
                 Borderless \<Rightarrow> [fit_line tx (symbol @ [space] @ label @ dot @ title @ dash @ compact_body body) w True]
               | Bordered \<Rightarrow> render_bordered tx title body w h (rn_body opts) (rn_glyphs opts) symbol label status hint)
         in \<lparr>rt_lines = ls, rt_styled_lines = map (\<lambda>l. style_line l (to_level t) (rn_color opts)) ls,
             rt_interactive = False\<rparr>))"

definition render_waiting ::
  "text_metrics \<Rightarrow> nat \<Rightarrow> rect \<Rightarrow> surface \<Rightarrow> glyph_mode \<Rightarrow> color_mode \<Rightarrow> rendered_toast" where
  "render_waiting tx n r s glyphs color =
     (let marker = (case glyphs of GlyphUnicode \<Rightarrow> [ellipsis] | GlyphAscii \<Rightarrow> ustr ''+'');
          content = marker @ ustr '' +'' @ print_nat n @ ustr '' waiting'';
          w = r_width r;
          ls = (case s of
              Borderless \<Rightarrow> [fit_line tx content w False]
            | Bordered \<Rightarrow>
                framed glyphs (w - 2) (map (\<lambda>i. fit_line tx (if i = 0 then content else []) (w - 2) False) [0..<r_height r - 2]))
      in \<lparr>rt_lines = ls, rt_styled_lines = map (\<lambda>l. style_line l Info color) ls, rt_interactive = False\<rparr>)"

section \<open>Which characters appear\<close>

text \<open>What a terminal shows as itself, and does not reorder.\<close>

definition shown_char :: "nat \<Rightarrow> bool" where
  "shown_char c \<longleftrightarrow> \<not> is_control c \<and> \<not> (0x202a \<le> c \<and> c \<le> 0x202e) \<and> \<not> (0x2066 \<le> c \<and> c \<le> 0x2069)"

lemma shown_consts [simp]: "shown_char space" "shown_char 0xfffd" "shown_char ellipsis"
  by (simp_all add: shown_char_def is_control_def)

lemma if_Some: "(if b then x else y) = Some d \<longleftrightarrow> b \<and> x = Some d \<or> \<not> b \<and> y = Some d"
  by simp

lemma safe_char_shown: "safe_char c = Some d \<Longrightarrow> shown_char d \<or> d = 0x0a \<and> c = 0x0a"
proof -
  assume "safe_char c = Some d"
  then have "d = 0x0a \<and> c = 0x0a \<or> d = space \<or> d = 0xfffd
      \<or> d = c \<and> \<not> is_control c \<and> \<not> (0x202a \<le> c \<and> c \<le> 0x202e) \<and> \<not> (0x2066 \<le> c \<and> c \<le> 0x2069)"
    unfolding safe_char_def if_Some option.inject by blast
  then show ?thesis using shown_consts by (auto simp only: shown_char_def [of c])
qed

lemma safe_plain_text_chars: "set (safe_plain_text s) \<subseteq> Collect shown_char \<union> (set s \<inter> {0x0a})"
proof
  fix d
  assume "d \<in> set (safe_plain_text s)"
  then obtain c where "c \<in> set s" "safe_char c = Some d"
    by (auto simp: safe_plain_text_def List.map_filter_def)
  with safe_char_shown [of c d] show "d \<in> Collect shown_char \<union> (set s \<inter> {0x0a})" by auto
qed

lemma split_on_chars: "l \<in> set (split_on c s) \<Longrightarrow> set l \<subseteq> set s - {c}"
proof (induction s arbitrary: l)
  case (Cons x s)
  obtain h t where ht: "split_on c s = h # t" by (cases "split_on c s") auto
  have "set h \<subseteq> set s - {c}" "k \<in> set t \<Longrightarrow> set k \<subseteq> set s - {c}" for k
    using Cons.IH [of h] Cons.IH [of k] ht by auto
  with Cons.prems ht show ?case by (auto split: if_splits)
qed simp

lemma strip_cr_chars: "set (strip_cr l) \<subseteq> set l"
  by (auto simp: strip_cr_def strip_suffix_Some split: option.splits)

lemma rust_lines_chars: "l \<in> set (rust_lines s) \<Longrightarrow> set l \<subseteq> set s - {0x0a}"
proof -
  assume "l \<in> set (rust_lines s)"
  then obtain k where "k \<in> set (split_on 0x0a s)" "set l \<subseteq> set k"
  proof (cases "l \<in> strip_cr ` set (butlast (split_on 0x0a s))")
    case True
    then show ?thesis using strip_cr_chars that by (auto dest: in_set_butlastD)
  next
    case False
    with \<open>l \<in> set (rust_lines s)\<close> have "l = last (split_on 0x0a s)"
      by (auto simp: rust_lines_def Let_def split: if_splits)
    then show ?thesis using that [of l] by simp
  qed
  with split_on_chars [of k "0x0a" s] show ?thesis by auto
qed

lemma trim_end_chars: "set (trim_end s) \<subseteq> set s"
  by (auto simp: trim_end_def dest: set_dropWhileD)

lemma trim_chars: "set (trim s) \<subseteq> set s"
  using trim_end_chars by (fastforce simp: trim_def trim_start_def dest: set_dropWhileD)

lemma nonempty_lines_chars: "l \<in> set (nonempty_lines s) \<Longrightarrow> set l \<subseteq> set s - {0x0a}"
  using trim_chars rust_lines_chars by (fastforce simp: nonempty_lines_def)

lemma compact_body_chars: "set (compact_body s) \<subseteq> set s - {0x0a}"
proof (cases "nonempty_lines s")
  case (Cons l ls)
  then show ?thesis using nonempty_lines_chars [of l s] by (simp add: compact_body_def)
qed (simp add: compact_body_def)

lemma join_with_chars: "set (join_with c ls) \<subseteq> insert c (\<Union> (set ` set ls))"
  by (induction c ls rule: join_with.induct) auto

lemma joined_body_chars: "set (joined_body s) \<subseteq> insert space (set s - {0x0a})"
  using join_with_chars [of space "nonempty_lines s"] nonempty_lines_chars [of _ s]
  by (auto simp: joined_body_def)

lemma split_whitespace_chars: "l \<in> set (split_whitespace s) \<Longrightarrow> set l \<subseteq> {c \<in> set s. \<not> is_whitespace c}"
proof (induction s rule: split_whitespace.induct)
  case (1 s)
  show ?case
    using "1.prems" "1.IH"
    by (subst (asm) split_whitespace.simps)
      (auto simp: Let_def split: if_splits list.splits dest: set_dropWhileD set_takeWhileD)
qed

lemma take_cells_chars: "set (fst (take_cells tx target used gs)) \<subseteq> \<Union> (set ` set gs)"
proof (induction tx target used gs rule: take_cells.induct)
  case (2 tx target used g gs)
  obtain out n where "take_cells tx target (used + tx_width tx g) gs = (out, n)" by fastforce
  with 2 show ?case by (cases "used + tx_width tx g > target") auto
qed simp

text \<open>The law of the clusters: they are a splitting of the text.\<close>

definition splits_text :: "text_metrics \<Rightarrow> bool" where
  "splits_text tx \<longleftrightarrow> (\<forall>s. concat (tx_graphemes tx s) = s)"

lemma fit_line_chars:
  assumes "splits_text tx"
  shows "set (fit_line tx v w force) \<subseteq> set v \<union> {space, ellipsis}"
proof -
  have "set v = \<Union> (set ` set (tx_graphemes tx v))"
    using assms by (metis set_concat splits_text_def)
  moreover obtain out used where t: "take_cells tx (w - tx_width tx [ellipsis]) 0 (tx_graphemes tx v) = (out, used)"
    by fastforce
  ultimately have "set out \<subseteq> set v"
    using take_cells_chars [of tx "w - tx_width tx [ellipsis]" 0 "tx_graphemes tx v"] by simp
  moreover have "set (replicate n space) \<subseteq> {space}" for n by (induction n) auto
  ultimately show ?thesis
    by (simp add: fit_line_def t le_supI1 le_supI2 subset_insertI2 del: set_replicate)
      (metis insertI1 insert_subset order_trans bot_least insert_mono)
qed

text \<open>Everything a row is made of.\<close>

lemma fit_line_in: "splits_text tx \<Longrightarrow> set v \<subseteq> A \<Longrightarrow> {space, ellipsis} \<subseteq> A \<Longrightarrow> set (fit_line tx v w force) \<subseteq> A"
  by (rule order_trans [OF fit_line_chars]) simp_all

lemma if_all: "P x \<Longrightarrow> P y \<Longrightarrow> P (if c then x else y)"
  by simp

lemma wrap_words_in:
  assumes "splits_text tx" and "{space, ellipsis} \<subseteq> A"
    and "\<forall>x \<in> set ws. set x \<subseteq> A" and "\<forall>l \<in> set ls. set l \<subseteq> A"
  shows "\<forall>l \<in> set (wrap_words tx w maximum ws ls). set l \<subseteq> A"
  using assms(3,4)
proof (induction ws arbitrary: ls)
  case (Cons x ws)
  have fit: "set (trim_end (fit_line tx y w force)) \<subseteq> A" if "set y \<subseteq> A" for y force
    using trim_end_chars fit_line_in [OF assms(1) that assms(2)] by blast
  have old: "ls \<noteq> [] \<Longrightarrow> set (last ls) \<subseteq> A" "\<forall>l \<in> set (butlast ls). set l \<subseteq> A"
    using Cons.prems(2) by (auto dest: in_set_butlastD last_in_set)
  let ?l = "last ls" and ?gap = "if last ls = [] then [] else [space]"
  show ?case
  proof (cases "ls = []")
    case True
    then show ?thesis using Cons.IH [of "[trim_end (fit_line tx x w False)]"] Cons.prems(1) fit by simp
  next
    case False
    note old = old(1) [OF False] old(2)
    have joined: "\<forall>l \<in> set (butlast ls @ [?l @ ?gap @ x]). set l \<subseteq> A"
      using old Cons.prems(1) assms(2) by auto
    have added: "\<forall>l \<in> set (ls @ [trim_end (fit_line tx x w False)]). set l \<subseteq> A"
      using Cons.prems fit by simp
    have cut: "\<forall>l \<in> set (butlast ls @ [trim_end (fit_line tx ?l w True)]). set l \<subseteq> A"
      using old fit by simp
    have ws: "\<forall>y \<in> set ws. set y \<subseteq> A" using Cons.prems(1) by simp
    show ?thesis
      unfolding wrap_words.simps if_not_P [OF False] Let_def
      by (rule if_all [where P = "\<lambda>ls. \<forall>l \<in> set ls. set l \<subseteq> A", OF Cons.IH [OF ws joined]
        if_all [where P = "\<lambda>ls. \<forall>l \<in> set ls. set l \<subseteq> A", OF Cons.IH [OF ws added] cut]])
  qed
qed simp

lemma body_lines_in:
  assumes "splits_text tx" and "{space, ellipsis} \<subseteq> A" and "set body - {0x0a} \<subseteq> A"
  shows "\<forall>l \<in> set (body_lines tx body mode w rows). set l \<subseteq> A"
proof -
  have lines: "\<forall>l \<in> set (nonempty_lines body). set l \<subseteq> A"
    using nonempty_lines_chars assms(3) by blast
  have words: "\<forall>x \<in> set (split_whitespace body). set x \<subseteq> A"
  proof (intro ballI subsetI)
    fix x c
    assume "x \<in> set (split_whitespace body)" "c \<in> set x"
    then have "c \<in> set body" "\<not> is_whitespace c" using split_whitespace_chars [of x body] by auto
    then show "c \<in> A" using assms(3) by (cases "c = 0x0a") (auto simp: is_whitespace_def)
  qed
  have joined: "set (joined_body body) \<subseteq> A"
    using joined_body_chars [of body] assms(2,3) by (meson insert_subset order_trans)
  note fit = fit_line_in [OF assms(1) _ assms(2)]
  show ?thesis
  proof (cases mode)
    case BodyFirstLine
    then show ?thesis using lines fit by (cases "nonempty_lines body") (simp_all add: body_lines_def)
  next
    case BodyJoinLines
    then show ?thesis using fit [OF joined] by (simp add: body_lines_def)
  next
    case BodyWrap
    then show ?thesis
      using wrap_words_in [OF assms(1,2) words, of "[]"] by (simp add: body_lines_def wrap_lines_def)
  qed
qed

lemma row_or_empty_in: "\<forall>l \<in> set content. set l \<subseteq> A \<Longrightarrow> set (row_or_empty content i) \<subseteq> A"
  by (cases "i < length content") (simp_all add: row_or_empty_def)

definition frame_chars :: "nat set" where
  "frame_chars = {0x250c, 0x2510, 0x2514, 0x2518, 0x2500, 0x2502, 0x2b, 0x2d, 0x7c}"

lemma framed_in:
  assumes "frame_chars \<subseteq> A" and "\<forall>l \<in> set rows. set l \<subseteq> A"
  shows "\<forall>l \<in> set (framed g inner rows). set l \<subseteq> A"
  using assms by (cases g) (auto simp: framed_def frame_of_def frame_chars_def)

lemma framed_length: "length (framed g inner rows) = length rows + 2"
  by (simp add: framed_def Let_def)

section \<open>How many cells a row takes\<close>

text \<open>A row is put together from pieces whose widths add up to the given number of cells.\<close>

definition occupies :: "text_metrics \<Rightarrow> nat \<Rightarrow> ustring \<Rightarrow> bool" where
  "occupies tx w l \<longleftrightarrow> (\<exists>ps. concat ps = l \<and> sum_list (map (tx_width tx) ps) = w)"

lemma occupies_append: "occupies tx a s \<Longrightarrow> occupies tx b t \<Longrightarrow> occupies tx (a + b) (s @ t)"
  unfolding occupies_def by (metis concat_append map_append sum_list_append)

lemma occupies_Nil [simp]: "occupies tx 0 []"
  unfolding occupies_def by (intro exI [of _ "[]"]) simp

lemma occupies_text: "occupies tx (tx_width tx s) s"
  unfolding occupies_def by (intro exI [of _ "[s]"]) simp

lemma occupies_replicate: "tx_width tx [c] = 1 \<Longrightarrow> occupies tx n (replicate n c)"
  unfolding occupies_def by (intro exI [of _ "replicate n [c]"]) (induction n, simp_all)

lemma take_cells_occupies:
  "take_cells tx target used gs = (out, n) \<Longrightarrow> used \<le> target \<Longrightarrow> used \<le> n \<and> n \<le> target \<and> occupies tx (n - used) out"
proof (induction tx target used gs arbitrary: out n rule: take_cells.induct)
  case (1 tx target used)
  then show ?case by auto
next
  case (2 tx target used g gs)
  show ?case
  proof (cases "used + tx_width tx g > target")
    case True
    with 2 show ?thesis by auto
  next
    case False
    then obtain out' where rec: "take_cells tx target (used + tx_width tx g) gs = (out', n)" "out = g @ out'"
      using "2.prems"(1) by (auto split: prod.splits)
    from "2.IH" [OF False rec(1)] False
    have ih: "used + tx_width tx g \<le> n" "n \<le> target" "occupies tx (n - (used + tx_width tx g)) out'" by simp_all
    with occupies_append [OF occupies_text [of tx g] ih(3)] rec(2) show ?thesis by simp
  qed
qed

definition cell_wide :: "text_metrics \<Rightarrow> bool" where
  "cell_wide tx \<longleftrightarrow> (\<forall>c \<in> {space, ellipsis} \<union> frame_chars. tx_width tx [c] = 1)"

lemma fit_line_occupies:
  assumes "cell_wide tx"
  shows "occupies tx w (fit_line tx v w force)"
proof -
  have one: "tx_width tx [space] = 1" "tx_width tx [ellipsis] = 1" using assms by (simp_all add: cell_wide_def)
  show ?thesis
  proof (cases "w = 0")
    case True
    then show ?thesis by (simp add: fit_line_def)
  next
    case False
    show ?thesis
    proof (cases "tx_width tx v \<le> w \<and> \<not> force")
      case True
      with False occupies_append [OF occupies_text [of tx v] occupies_replicate [OF one(1)], of "w - tx_width tx v"]
      show ?thesis by (simp add: fit_line_def)
    next
      case cut: False
      obtain out used where t: "take_cells tx (w - 1) 0 (tx_graphemes tx v) = (out, used)" by fastforce
      note taken = take_cells_occupies [OF t, simplified]
      have "occupies tx (used + (1 + (w - (used + 1)))) (out @ [ellipsis] @ replicate (w - (used + 1)) space)"
        using taken occupies_text [of tx "[ellipsis]"] one
        by (intro occupies_append occupies_replicate) simp_all
      moreover have "used + (1 + (w - (used + 1))) = w" using taken False by linarith
      ultimately show ?thesis using t one(2) unfolding fit_line_def if_not_P [OF False] if_not_P [OF cut] by simp
    qed
  qed
qed

lemma framed_occupies:
  assumes "cell_wide tx" and "\<forall>l \<in> set rows. occupies tx inner l"
  shows "\<forall>l \<in> set (framed g inner rows). occupies tx (inner + 2) l"
proof -
  have one: "tx_width tx [c] = 1" if "c \<in> frame_chars" for c using assms(1) that by (simp add: cell_wide_def)
  have glyphs: "fg_tl (frame_of g) \<in> frame_chars" "fg_tr (frame_of g) \<in> frame_chars" "fg_bl (frame_of g) \<in> frame_chars"
    "fg_br (frame_of g) \<in> frame_chars" "fg_horizontal (frame_of g) \<in> frame_chars" "fg_vertical (frame_of g) \<in> frame_chars"
    by (cases g; simp add: frame_of_def frame_chars_def)+
  have edge: "occupies tx (inner + 2) ([a] @ s @ [b])" if "occupies tx inner s" "a \<in> frame_chars" "b \<in> frame_chars" for a b s
    using occupies_append [OF occupies_text [of tx "[a]"] occupies_append [OF that(1) occupies_text [of tx "[b]"]]]
      one [OF that(2)] one [OF that(3)] by simp
  show ?thesis
    unfolding framed_def Let_def
    using edge glyphs occupies_replicate [OF one [OF glyphs(5)]] assms(2) by simp
qed

section \<open>Properties\<close>

lemma level_identity_chars: "set (fst (level_identity l g)) \<subseteq> Collect shown_char" "set (snd (level_identity l g)) \<subseteq> Collect shown_char"
  by (cases l; cases g; simp add: shown_char_def is_control_def)+

lemma print_nat_shown: "set (print_nat n) \<subseteq> Collect shown_char"
  using print_nat_chars by (force simp: is_ascii_digit_def shown_char_def is_control_def)

lemma separators_shown: "set dot \<subseteq> Collect shown_char" "set dash \<subseteq> Collect shown_char"
  by (simp_all add: dot_def dash_def shown_char_def is_control_def)

lemma status_text_shown: "set (status_text t) \<subseteq> Collect shown_char"
proof -
  have "set (ustr ''persistent'') \<subseteq> Collect shown_char" "set (ustr ''ms'') \<subseteq> Collect shown_char"
    "set (ustr ''s'') \<subseteq> Collect shown_char" "set (ustr ''updated'') \<subseteq> Collect shown_char"
    by (simp_all add: shown_char_def is_control_def)
  then show ?thesis
    using print_nat_shown separators_shown
    by (simp add: status_text_def Let_def split: display_age.split)
qed

lemma frame_chars_shown: "frame_chars \<subseteq> Collect shown_char"
  by (simp add: frame_chars_def shown_char_def is_control_def)

lemma render_bordered_in:
  assumes "splits_text tx" and "{space, ellipsis} \<subseteq> A" and "frame_chars \<subseteq> A"
    and "set title \<subseteq> A" "set body - {0x0a} \<subseteq> A" "set symbol \<subseteq> A" "set label \<subseteq> A" "set status \<subseteq> A"
    and "\<forall>h. hint = Some h \<longrightarrow> set h \<subseteq> A" and "set dot \<subseteq> A" "set dash \<subseteq> A"
  shows "\<forall>l \<in> set (render_bordered tx title body w h mode glyphs symbol label status hint). set l \<subseteq> A"
proof -
  note fit = fit_line_in [OF assms(1) _ assms(2)]
  have sp: "space \<in> A" using assms(2) by simp
  have bodies: "set (compact_body body) \<subseteq> A" "set (joined_body body) \<subseteq> A"
    using compact_body_chars [of body] joined_body_chars [of body] assms(5) sp by (meson insert_subset order_trans)+
  show ?thesis
  proof (cases "w < 2 \<or> h < 2")
    case True
    then show ?thesis using fit [OF assms(4)] by (simp add: render_bordered_def)
  next
    case False
    show ?thesis
    proof (cases "h - 2 = 1")
      case True
      let ?b = "case mode of BodyFirstLine \<Rightarrow> compact_body body | BodyWrap \<Rightarrow> compact_body body | BodyJoinLines \<Rightarrow> joined_body body"
      have "set ?b \<subseteq> A" using bodies by (cases mode) simp_all
      then have "set (symbol @ [space] @ label @ dot @ status @ dot @ title @ dash @ ?b) \<subseteq> A"
        using assms sp by simp
      from fit [OF this] have "\<forall>l \<in> set [fit_line tx (symbol @ [space] @ label @ dot @ status @ dot @ title @ dash @ ?b) (w - 2) False].
          set l \<subseteq> A" by simp
      from framed_in [OF assms(3) this] show ?thesis
        using False True unfolding render_bordered_def Let_def by simp
    next
      case more: False
      let ?content = "[symbol @ [space] @ label @ dot @ title @ dot @ status] @ body_lines tx body mode (w - 2) (h - 2)
          @ (case hint of None \<Rightarrow> [] | Some t \<Rightarrow> [t])"
      have "\<forall>l \<in> set ?content. set l \<subseteq> A"
        using assms sp body_lines_in [OF assms(1,2,5), of mode "w - 2" "h - 2"] by (auto split: option.splits)
      then have "\<forall>l \<in> set (map (\<lambda>i. fit_line tx (row_or_empty ?content i) (w - 2) False) [0..<h - 2]). set l \<subseteq> A"
        using fit [OF row_or_empty_in] by simp
      from framed_in [OF assms(3) this] show ?thesis
        using False more unfolding render_bordered_def Let_def by simp
    qed
  qed
qed

lemma render_bordered_occupies:
  assumes "cell_wide tx"
  shows "\<forall>l \<in> set (render_bordered tx title body w h mode glyphs symbol label status hint). occupies tx w l"
    and "length (render_bordered tx title body w h mode glyphs symbol label status hint) = h"
proof -
  let ?rows = "render_bordered tx title body w h mode glyphs symbol label status hint"
  consider "w < 2 \<or> h < 2" | rows where "2 \<le> w" "?rows = framed glyphs (w - 2) rows" "length rows = h - 2" "2 \<le> h"
      "\<forall>l \<in> set rows. occupies tx (w - 2) l"
  proof (cases "w < 2 \<or> h < 2")
    case False
    have whole: "\<exists>rows. (if c then framed glyphs i [fit_line tx u i False]
        else framed glyphs i (map (\<lambda>k. fit_line tx (f k) i False) [0..<n])) = framed glyphs i rows
        \<and> length rows = n \<and> (\<forall>l \<in> set rows. occupies tx i l)" if "c \<longleftrightarrow> n = 1" for c u f i n
    proof (cases c)
      case True
      then show ?thesis using that fit_line_occupies [OF assms] by (intro exI [of _ "[fit_line tx u i False]"]) simp
    next
      case False
      then show ?thesis using fit_line_occupies [OF assms]
        by (intro exI [of _ "map (\<lambda>k. fit_line tx (f k) i False) [0..<n]"]) simp
    qed
    have "\<exists>rows. ?rows = framed glyphs (w - 2) rows \<and> length rows = h - 2 \<and> (\<forall>l \<in> set rows. occupies tx (w - 2) l)"
      unfolding render_bordered_def Let_def if_not_P [OF False] by (rule whole) simp
    with False that(2) show ?thesis by auto
  qed (rule that(1))
  then have "(\<forall>l \<in> set ?rows. occupies tx w l) \<and> length ?rows = h"
  proof cases
    case 1
    then show ?thesis using fit_line_occupies [OF assms] by (simp add: render_bordered_def)
  next
    case (2 rows)
    have "w - 2 + 2 = w" "h - 2 + 2 = h" using 2(1,4) by simp_all
    with framed_occupies [OF assms 2(5), of glyphs] 2(2,3) show ?thesis by (simp only: framed_length)
  qed
  then show "\<forall>l \<in> set ?rows. occupies tx w l" and "length ?rows = h" by simp_all
qed


text \<open>Metrics in which every character is a cluster of one cell.\<close>

definition demo_metrics :: text_metrics where
  "demo_metrics = \<lparr>tx_width = length, tx_graphemes = map (\<lambda>c. [c])\<rparr>"

lemma demo_metrics_ok: "splits_text demo_metrics" "cell_wide demo_metrics"
proof -
  have "concat (map (\<lambda>c. [c]) s) = s" for s :: ustring by (induction s) simp_all
  then show "splits_text demo_metrics" "cell_wide demo_metrics"
    by (simp_all add: demo_metrics_def splits_text_def cell_wide_def)
qed

definition demo_rect :: rect where
  "demo_rect = \<lparr>r_x = 0, r_y = 0, r_width = 42, r_height = 5\<rparr>"


text \<open>
  A line break in a title stays in the row it is shown in, which then is no single row of a terminal.
  The ASCII glyphs leave the separators of the row outside ASCII.
\<close>

lemma title_line_break_in_row:
  "\<exists>l \<in> set (rt_lines (render_toast demo_metrics ((demo_toast 1)\<lparr>to_title := [0x61, 0x0a, 0x62]\<rparr>) demo_rect Bordered
       render_options_default)). 0x0a \<in> set l"
  by (simp add: render_toast_def render_bordered_def framed_def demo_rect_def demo_toast_def demo_metrics_def
      render_options_default_def fit_line_def safe_plain_text_def List.map_filter_simps safe_char_def is_control_def
      status_text_def dot_def Let_def row_or_empty_def upt_rec split: prod.split)

lemma ascii_glyphs_not_ascii:
  "\<exists>l \<in> set (rt_lines (render_toast demo_metrics (demo_toast 1) demo_rect Bordered
       (render_options_default\<lparr>rn_glyphs := GlyphAscii\<rparr>))). \<exists>c \<in> set l. c > 0x7f"
  by (simp add: render_toast_def render_bordered_def framed_def demo_rect_def demo_toast_def demo_metrics_def
      render_options_default_def fit_line_def safe_plain_text_def List.map_filter_simps safe_char_def is_control_def
      status_text_def dot_def Let_def row_or_empty_def upt_rec split: prod.split)

end
