(* ===== verification/Toast_Motion.thy ===== *)
theory Toast_Motion
  imports Complex_Main Toast_Layout
begin

text \<open>
  The motion of Toasts: the frames that \<open>plan_frames\<close> of \<open>src/toast.rs\<close> plans, and where a motion
  starts or ends.

  The source interpolates in double precision. Here every floating-point operation is the exact
  rational operation followed by a rounding \<open>fl\<close>, which is a parameter; \<open>double_rounding\<close> says what is
  documented of it and used: it is monotone, and exact on the integers a double holds.
\<close>

section \<open>Data\<close>

definition MAX_ANIMATION_FPS :: nat where "MAX_ANIMATION_FPS = 120"
definition MAX_ANIMATION_DURATION :: duration where "MAX_ANIMATION_DURATION = from_secs 10"

datatype motion_phase = EnterPhase | StayPhase | ExitPhase

record motion_track =
  mt_window_id :: ustring
  mt_from :: rect
  mt_to :: rect
  mt_phase :: motion_phase
  mt_duration :: duration
  mt_easing :: easing

record frame_update =
  fu_window_id :: ustring
  fu_rect :: rect
  fu_phase :: motion_phase

record frame_batch =
  fb_at :: duration
  fb_updates :: "frame_update list"

section \<open>Floating-point steps\<close>

type_synonym rounding = "rat \<Rightarrow> rat"

definition double_rounding :: "rounding \<Rightarrow> bool" where
  "double_rounding fl \<longleftrightarrow> mono fl \<and> (\<forall>i :: int. \<bar>i\<bar> \<le> 2 ^ 53 \<longrightarrow> fl (of_int i) = of_int i)"

text \<open>\<open>Duration::as_secs_f64\<close>\<close>

definition secs_f64 :: "rounding \<Rightarrow> duration \<Rightarrow> rat" where
  "secs_f64 fl d = fl (fl (of_nat (d div 1000000000)) + fl (of_nat (d mod 1000000000) / 1000000000))"

definition ease :: "rounding \<Rightarrow> rat \<Rightarrow> easing \<Rightarrow> rat" where
  "ease fl progress e =
     (let p = min 1 (max 0 progress)
      in case e of
           EaseIn \<Rightarrow> fl (p * p)
         | EaseOut \<Rightarrow> fl (1 - fl (fl (1 - p) * fl (1 - p))))"

definition clamp_cell :: "int \<Rightarrow> nat" where
  "clamp_cell v = min (nat v) u16_max"

text \<open>\<open>f64::round\<close>: to the nearest integer, halves away from zero.\<close>

definition round_away :: "rat \<Rightarrow> int" where
  "round_away v = (if v \<ge> 0 then \<lfloor>v + 1 / 2\<rfloor> else \<lceil>v - 1 / 2\<rceil>)"

definition lerp :: "rounding \<Rightarrow> nat \<Rightarrow> nat \<Rightarrow> rat \<Rightarrow> nat" where
  "lerp fl from to progress =
     clamp_cell (round_away (fl (of_nat from + fl (fl (of_nat to - of_nat from) * progress))))"

definition interpolate :: "rounding \<Rightarrow> rect \<Rightarrow> rect \<Rightarrow> rat \<Rightarrow> rect" where
  "interpolate fl from to progress =
     \<lparr>r_x = lerp fl (r_x from) (r_x to) progress, r_y = lerp fl (r_y from) (r_y to) progress,
      r_width = r_width to, r_height = r_height to\<rparr>"

section \<open>Where a Toast is at a time\<close>

definition track_duration :: "motion_track \<Rightarrow> duration" where
  "track_duration t = min (mt_duration t) MAX_ANIMATION_DURATION"

definition rect_at :: "rounding \<Rightarrow> bool \<Rightarrow> duration \<Rightarrow> motion_track \<Rightarrow> rect" where
  "rect_at fl enabled now t =
     (let d = track_duration t;
          progress = (if \<not> enabled \<or> d = 0 \<or> now \<ge> d then 1 else fl (secs_f64 fl now / secs_f64 fl d))
      in interpolate fl (mt_from t) (mt_to t) (ease fl progress (mt_easing t)))"

section \<open>Planning\<close>

text \<open>
  \<open>Duration::from_secs_f64(1.0 / f64::from(fps))\<close> is the nearest nanosecond. For the frame rates
  allowed the exact quotient is nowhere near a half, so the rounding of the division cannot matter.
\<close>

definition frame_of_fps :: "nat \<Rightarrow> duration" where
  "frame_of_fps fps = (2 * 1000000000 + fps) div (2 * fps)"

text \<open>The loop that lists the frame times; it ends because a frame takes some time.\<close>

partial_function (option) frame_loop :: "duration \<Rightarrow> duration \<Rightarrow> duration \<Rightarrow> duration list \<Rightarrow> duration list option" where
  "frame_loop frame maximum now moments =
     (if now < maximum then frame_loop frame maximum (now + frame) (moments @ [now]) else Some moments)"

definition frame_times :: "motion_track list \<Rightarrow> nat \<Rightarrow> bool \<Rightarrow> duration list option" where
  "frame_times tracks fps enabled =
     (let frame = frame_of_fps fps;
          maximum = fold max (map track_duration tracks) 0
      in if enabled \<and> maximum \<noteq> 0 then
           (case frame_loop frame maximum frame [0] of
              None \<Rightarrow> None
            | Some moments \<Rightarrow> Some (remdups_adj (sort (moments @ map track_duration tracks))))
         else Some [0])"

fun frame_updates :: "rounding \<Rightarrow> bool \<Rightarrow> duration \<Rightarrow> motion_track list \<Rightarrow> rect option list
    \<Rightarrow> frame_update list \<times> rect option list" where
  "frame_updates fl enabled now (t # ts) (p # ps) =
     (let r = rect_at fl enabled now t;
          (us, ps') = frame_updates fl enabled now ts ps
      in if p \<noteq> Some r
         then (\<lparr>fu_window_id = mt_window_id t, fu_rect = r, fu_phase = mt_phase t\<rparr> # us, Some r # ps')
         else (us, p # ps'))"
| "frame_updates fl enabled now ts ps = ([], ps)"

fun frame_batches :: "rounding \<Rightarrow> bool \<Rightarrow> motion_track list \<Rightarrow> duration list \<Rightarrow> rect option list \<Rightarrow> frame_batch list" where
  "frame_batches fl enabled tracks [] previous = []"
| "frame_batches fl enabled tracks (now # moments) previous =
     (let (us, previous') = frame_updates fl enabled now tracks previous;
          rest = frame_batches fl enabled tracks moments previous'
      in if us = [] then rest else \<lparr>fb_at = now, fb_updates = us\<rparr> # rest)"

definition plan_frames :: "rounding \<Rightarrow> motion_track list \<Rightarrow> nat \<Rightarrow> bool \<Rightarrow> frame_batch list option" where
  "plan_frames fl tracks fps enabled =
     (if tracks = [] \<or> fps = 0 then Some []
      else case frame_times tracks (min fps MAX_ANIMATION_FPS) enabled of
        None \<Rightarrow> None
      | Some moments \<Rightarrow> Some (frame_batches fl enabled tracks moments (replicate (length tracks) None)))"

section \<open>Where a motion starts or ends\<close>

definition offscreen_rect :: "rect \<Rightarrow> viewport \<Rightarrow> cfg_placement \<Rightarrow> rect" where
  "offscreen_rect target v p =
     (let (x, y) = (case p of
              CfgTopLeft \<Rightarrow> (sat_add u16_max (r_x target) (r_width target), r_y target)
            | CfgBottomLeft \<Rightarrow> (sat_add u16_max (r_x target) (r_width target), r_y target)
            | CfgTopRight \<Rightarrow> (r_x target - r_width target, r_y target)
            | CfgBottomRight \<Rightarrow> (r_x target - r_width target, r_y target)
            | CfgTopCenter \<Rightarrow> (r_x target, sat_add u16_max (r_y target) (r_height target))
            | CfgBottomCenter \<Rightarrow> (r_x target, r_y target - r_height target))
      in target\<lparr>r_x := min x (vp_width v - r_width target), r_y := min y (vp_height v - r_height target)\<rparr>)"

lemma offscreen_inside:
  "r_width target \<le> vp_width v \<Longrightarrow> r_height target \<le> vp_height v \<Longrightarrow> inside_viewport v (offscreen_rect target v p)"
  by (auto simp: offscreen_rect_def inside_viewport_def Let_def split: prod.split)

section \<open>The frame times\<close>

lemma frame_loop_returns:
  assumes "0 < frame"
  shows "\<exists>new. frame_loop frame maximum now acc = Some (acc @ new) \<and> (\<forall>t \<in> set new. now \<le> t \<and> t < maximum)"
proof (induction "maximum - now" arbitrary: now acc rule: less_induct)
  case less
  show ?case
  proof (cases "now < maximum")
    case True
    then have "maximum - (now + frame) < maximum - now" using assms by linarith
    from less [OF this, of "acc @ [now]"] obtain new where
      "frame_loop frame maximum (now + frame) (acc @ [now]) = Some ((acc @ [now]) @ new)"
      "\<forall>t \<in> set new. now + frame \<le> t \<and> t < maximum" by blast
    then show ?thesis using True by (subst frame_loop.simps) (auto intro!: exI [of _ "now # new"])
  next
    case False
    then show ?thesis by (subst frame_loop.simps) simp
  qed
qed

lemma frame_of_fps_pos: "0 < fps \<Longrightarrow> fps \<le> MAX_ANIMATION_FPS \<Longrightarrow> 0 < frame_of_fps fps"
  by (simp add: frame_of_fps_def MAX_ANIMATION_FPS_def div_greater_zero_iff)

lemma maximum_duration:
  "\<forall>t \<in> set ts. track_duration t \<le> fold max (map track_duration ts) a"
  "fold max (map track_duration ts) a \<le> max a MAX_ANIMATION_DURATION"
  "a \<le> fold max (map track_duration ts) a"
proof -
  have a: "a \<le> fold max (map track_duration ts) a" for ts a
    by (induction ts arbitrary: a) (simp, force intro: order_trans [OF max.cobounded2])
  show "a \<le> fold max (map track_duration ts) a" by (rule a)
  show "\<forall>t \<in> set ts. track_duration t \<le> fold max (map track_duration ts) a"
    by (induction ts arbitrary: a) (auto intro: order_trans [OF max.cobounded1 a])
  have "fold max (map track_duration ts) a \<le> m" if "a \<le> m" "MAX_ANIMATION_DURATION \<le> m" for m
    using that by (induction ts arbitrary: a) (auto simp: track_duration_def)
  then show "fold max (map track_duration ts) a \<le> max a MAX_ANIMATION_DURATION" by simp
qed

lemma sorted_remdups_adj_strict: "sorted (xs :: nat list) \<Longrightarrow> sorted_wrt (<) (remdups_adj xs)"
  by (induction xs rule: remdups_adj.induct) (auto simp: less_le)

lemma sorted_hd_last:
  "sorted xs \<Longrightarrow> (0 :: nat) \<in> set xs \<Longrightarrow> hd xs = 0"
  "sorted xs \<Longrightarrow> (x :: nat) \<in> set xs \<Longrightarrow> x \<le> last xs"
  by (induction xs) (auto split: if_splits)

text \<open>
  The times of the frames: increasing from zero, and no earlier than the last motion is over.
\<close>

lemma frame_times_spec:
  assumes "0 < fps" and "fps \<le> MAX_ANIMATION_FPS" and "tracks \<noteq> []"
  obtains moments where "frame_times tracks fps enabled = Some moments" "sorted_wrt (<) moments"
    "moments \<noteq> []" "hd moments = 0" "\<forall>t \<in> set moments. t \<le> MAX_ANIMATION_DURATION"
    "enabled \<longrightarrow> (\<forall>t \<in> set tracks. track_duration t \<le> last moments)"
proof -
  let ?max = "fold max (map track_duration tracks) 0"
  have maximum: "\<forall>t \<in> set tracks. track_duration t \<le> ?max" "?max \<le> MAX_ANIMATION_DURATION"
    using maximum_duration(1,2) [where ts = tracks and a = 0] by auto
  show thesis
  proof (cases "enabled \<and> ?max \<noteq> 0")
    case True
    obtain new where new: "frame_loop (frame_of_fps fps) ?max (frame_of_fps fps) [0] = Some ([0] @ new)"
      "\<forall>t \<in> set new. frame_of_fps fps \<le> t \<and> t < ?max"
      using frame_loop_returns [OF frame_of_fps_pos [OF assms(1,2)]] by blast
    let ?all = "([0] @ new) @ map track_duration tracks"
    let ?ms = "remdups_adj (sort ?all)"
    have set: "set ?ms = set ?all" by (simp only: remdups_adj_set set_sort)
    have sorted: "sorted_wrt (<) ?ms"
      by (intro sorted_remdups_adj_strict sorted_sort)
    have bounded: "\<forall>t \<in> set ?ms. t \<le> MAX_ANIMATION_DURATION"
      using new(2) maximum unfolding set by (auto simp: track_duration_def)
    have ne: "?ms \<noteq> []" by (metis set empty_iff list.set(1) list.set_intros(1) append_Cons)
    have "sorted ?ms" using sorted by (simp only: strict_sorted_iff)
    note ends = sorted_hd_last [OF this]
    have zero: "hd ?ms = 0" by (rule ends(1)) (simp only: set, simp)
    have last: "\<forall>t \<in> set tracks. track_duration t \<le> last ?ms"
      by (intro ballI ends(2)) (simp only: set, simp)
    have "frame_times tracks fps enabled = Some ?ms" using True new(1) by (simp add: frame_times_def Let_def)
    from that [OF this sorted ne zero bounded] last show thesis by simp
  next
    case False
    then have "frame_times tracks fps enabled = Some [0]" by (auto simp: frame_times_def Let_def)
    then show thesis by (rule that) (use False maximum in auto)
  qed
qed

section \<open>Rounding\<close>

lemma fl_int: "double_rounding fl \<Longrightarrow> \<bar>i :: int\<bar> \<le> 65536 \<Longrightarrow> fl (of_int i) = of_int i"
  by (simp add: double_rounding_def)

lemma fl_exact:
  assumes "double_rounding fl"
  shows "fl 0 = 0" and "fl 1 = 1" and "\<And>n. n \<le> u16_max \<Longrightarrow> fl (of_nat n) = of_nat n"
    and "\<And>a b. a \<le> u16_max \<Longrightarrow> b \<le> u16_max \<Longrightarrow> fl (of_nat a - of_nat b) = of_nat a - of_nat b"
proof -
  show "fl 0 = 0" and "fl 1 = 1" using fl_int [OF assms, of 0] fl_int [OF assms, of 1] by simp_all
  show "fl (of_nat n) = of_nat n" if "n \<le> u16_max" for n
    using fl_int [OF assms, of "int n"] that by simp
  show "fl (of_nat a - of_nat b) = of_nat a - of_nat b" if "a \<le> u16_max" "b \<le> u16_max" for a b
    using fl_int [OF assms, of "int a - int b"] that by simp
qed

lemma fl_mono: "double_rounding fl \<Longrightarrow> x \<le> y \<Longrightarrow> fl x \<le> fl y"
  by (simp add: double_rounding_def monoD)

lemma fl_between:
  assumes "double_rounding fl" and "fl a = a" and "fl b = b" and "a \<le> x" and "x \<le> b"
  shows "a \<le> fl x \<and> fl x \<le> b"
  using fl_mono [OF assms(1,4)] fl_mono [OF assms(1,5)] assms(2,3) by simp

lemma ease_unit:
  assumes "double_rounding fl"
  shows "0 \<le> ease fl p e \<and> ease fl p e \<le> 1"
proof -
  note fl01 = fl_between [OF assms fl_exact(1,2) [OF assms]]
  define q where "q = min 1 (max 0 p)"
  have q: "0 \<le> q" "q \<le> 1" by (simp_all add: q_def)
  then have "0 \<le> fl (1 - q) \<and> fl (1 - q) \<le> 1" by (intro fl01) simp_all
  then have "0 \<le> fl (fl (1 - q) * fl (1 - q)) \<and> fl (fl (1 - q) * fl (1 - q)) \<le> 1"
    by (intro fl01) (simp_all add: mult_le_one)
  then have "0 \<le> fl (1 - fl (fl (1 - q) * fl (1 - q))) \<and> fl (1 - fl (fl (1 - q) * fl (1 - q))) \<le> 1"
    by (intro fl01) simp_all
  moreover have "0 \<le> fl (q * q) \<and> fl (q * q) \<le> 1" using q by (intro fl01) (simp_all add: mult_le_one)
  ultimately show ?thesis by (simp add: ease_def Let_def q_def split: easing.split)
qed

lemma ease_end: "double_rounding fl \<Longrightarrow> ease fl 1 e = 1"
  by (simp add: ease_def fl_exact split: easing.split)

lemma round_away_between:
  assumes "of_nat a \<le> v" and "v \<le> of_nat b" and "b \<le> u16_max"
  shows "a \<le> clamp_cell (round_away v) \<and> clamp_cell (round_away v) \<le> b"
proof -
  have v: "0 \<le> v" using assms(1) of_nat_0_le_iff order_trans by blast
  have "int a \<le> \<lfloor>v + 1 / 2\<rfloor>" using assms(1) by (simp add: le_floor_iff)
  moreover have "\<lfloor>v + 1 / 2\<rfloor> < int b + 1" 
  proof -
    have "v + 1 / 2 < of_int (int b + 1)" using assms(2) by simp
    then show ?thesis by (simp only: floor_less_iff)
  qed
  ultimately show ?thesis using v assms(3) by (auto simp: clamp_cell_def round_away_def)
qed

lemma lerp_between:
  assumes "double_rounding fl" and "a \<le> u16_max" and "b \<le> u16_max" and "0 \<le> p" and "p \<le> 1"
  shows "min a b \<le> lerp fl a b p \<and> lerp fl a b p \<le> max a b"
proof -
  note ex = fl_exact(1,3,4) [OF assms(1)]
  define d :: rat where "d = of_nat b - of_nat a"
  have d: "fl d = d" using ex(3) assms(2,3) by (simp add: d_def)
  show ?thesis
  proof (cases "a \<le> b")
    case True
    then have "0 \<le> d" by (simp add: d_def)
    then have "0 \<le> fl (d * p) \<and> fl (d * p) \<le> d"
      using assms(4,5) by (intro fl_between [OF assms(1) ex(1) d]) (simp_all add: mult_left_le)
    then have "of_nat a \<le> fl (of_nat a + fl (d * p)) \<and> fl (of_nat a + fl (d * p)) \<le> of_nat b"
      by (intro fl_between [OF assms(1) ex(2) [OF assms(2)] ex(2) [OF assms(3)]]) (simp_all add: d_def)
    then show ?thesis using round_away_between [of a _ b] assms(3) True d by (simp add: lerp_def d_def)
  next
    case False
    then have "d \<le> 0" by (simp add: d_def)
    then have "d \<le> fl (d * p) \<and> fl (d * p) \<le> 0"
      using assms(4,5) by (intro fl_between [OF assms(1) d ex(1)])
        (simp_all add: mult_le_cancel_left1 mult_nonpos_nonneg)
    then have "of_nat b \<le> fl (of_nat a + fl (d * p)) \<and> fl (of_nat a + fl (d * p)) \<le> of_nat a"
      by (intro fl_between [OF assms(1) ex(2) [OF assms(3)] ex(2) [OF assms(2)]]) (simp_all add: d_def)
    then show ?thesis using round_away_between [of b _ a] assms(2) False d by (simp add: lerp_def d_def)
  qed
qed

lemma lerp_end:
  assumes "double_rounding fl" and "a \<le> u16_max" and "b \<le> u16_max"
  shows "lerp fl a b 1 = b"
proof -
  have "fl (of_nat a + fl (fl (of_nat b - of_nat a) * 1)) = of_nat b"
    using fl_exact(3,4) [OF assms(1)] assms(2,3) by simp
  then show ?thesis using round_away_between [of b "of_nat b" b] assms(3) by (simp add: lerp_def)
qed

section \<open>The frames of a motion\<close>

text \<open>
  Reference: the positions of one motion, with consecutive repetitions dropped. \<open>emitted\<close> reads the
  same from the planned batches.
\<close>

fun position_changes :: "rect option \<Rightarrow> (duration \<times> rect) list \<Rightarrow> (duration \<times> rect) list" where
  "position_changes p [] = []"
| "position_changes p ((now, r) # xs) =
     (if p = Some r then position_changes p xs else (now, r) # position_changes (Some r) xs)"

definition emitted :: "frame_batch list \<Rightarrow> ustring \<Rightarrow> (duration \<times> rect) list" where
  "emitted batches w =
     concat (map (\<lambda>b. map (\<lambda>u. (fb_at b, fu_rect u)) (filter (\<lambda>u. fu_window_id u = w) (fb_updates b))) batches)"

lemma emitted_simps [simp]:
  "emitted [] w = []"
  "emitted (\<lparr>fb_at = a, fb_updates = us\<rparr> # bs) w =
     map (\<lambda>u. (a, fu_rect u)) (filter (\<lambda>u. fu_window_id u = w) us) @ emitted bs w"
  by (simp_all add: emitted_def)

lemma position_changes_last:
  "xs \<noteq> [] \<Longrightarrow>
     (if position_changes p xs = [] then p = Some (snd (last xs))
      else snd (last (position_changes p xs)) = snd (last xs))"
proof (induction p xs rule: position_changes.induct)
  case (2 p now r xs)
  then show ?case by (cases "xs = []") (auto split: if_splits)
qed simp

lemma position_changes_subset: "set (position_changes p xs) \<subseteq> set xs"
  by (induction p xs rule: position_changes.induct) auto

lemma frame_updates_other:
  "w \<notin> mt_window_id ` set ts \<Longrightarrow>
     filter (\<lambda>u. fu_window_id u = w) (fst (frame_updates fl enabled now ts ps)) = []"
  by (induction fl enabled now ts ps rule: frame_updates.induct) (auto simp: Let_def split: prod.splits)

lemma frame_updates_length: "length (snd (frame_updates fl enabled now ts ps)) = length ps"
  by (induction fl enabled now ts ps rule: frame_updates.induct) (auto simp: Let_def split: prod.splits)

lemma frame_updates_spec:
  assumes "length ts = length ps" and "distinct (map mt_window_id ts)" and "i < length ts"
  shows "snd (frame_updates fl enabled now ts ps) ! i = Some (rect_at fl enabled now (ts ! i))
    \<and> map (\<lambda>u. (now, fu_rect u))
           (filter (\<lambda>u. fu_window_id u = mt_window_id (ts ! i)) (fst (frame_updates fl enabled now ts ps)))
         = position_changes (ps ! i) [(now, rect_at fl enabled now (ts ! i))]"
  using assms
proof (induction ts ps arbitrary: i rule: list_induct2)
  case (Cons t ts p ps)
  obtain us ps' where u: "frame_updates fl enabled now ts ps = (us, ps')" by force
  show ?case
  proof (cases i)
    case 0
    then show ?thesis
      using frame_updates_other [of "mt_window_id t" ts fl enabled now ps] Cons.prems(1) by (simp add: Let_def u)
  next
    case (Suc j)
    then have "mt_window_id t \<noteq> mt_window_id (ts ! j)" using Cons.prems by auto
    with Suc Cons.IH [of j] Cons.prems show ?thesis by (auto simp: Let_def u split: if_splits)
  qed
qed simp

lemma emitted_batches:
  assumes "distinct (map mt_window_id ts)" and "length ps = length ts" and "i < length ts"
  shows "emitted (frame_batches fl enabled ts moments ps) (mt_window_id (ts ! i))
    = position_changes (ps ! i) (map (\<lambda>now. (now, rect_at fl enabled now (ts ! i))) moments)"
  using assms(2)
proof (induction moments arbitrary: ps)
  case (Cons now moments)
  obtain us ps' where u: "frame_updates fl enabled now ts ps = (us, ps')" by force
  note step = frame_updates_spec [OF Cons.prems [symmetric] assms(1,3), where fl = fl and enabled = enabled and now = now,
      unfolded u, simplified]
  have len: "length ps' = length ts" using frame_updates_length [of fl enabled now ts ps] Cons.prems by (simp add: u)
  let ?t = "ts ! i"
  have "emitted (frame_batches fl enabled ts (now # moments) ps) (mt_window_id ?t) =
      map (\<lambda>u. (now, fu_rect u)) (filter (\<lambda>u. fu_window_id u = mt_window_id ?t) us)
      @ emitted (frame_batches fl enabled ts moments ps') (mt_window_id ?t)"
    by (simp add: u Let_def)
  also have "\<dots> = position_changes (ps ! i) [(now, rect_at fl enabled now ?t)]
      @ position_changes (Some (rect_at fl enabled now ?t)) (map (\<lambda>now. (now, rect_at fl enabled now ?t)) moments)"
    using step Cons.IH [OF len] by simp
  finally show ?case by simp
qed simp

lemma batch_times:
  assumes "sorted_wrt (<) moments"
  shows "set (map fb_at (frame_batches fl enabled ts moments ps)) \<subseteq> set moments"
    and "sorted_wrt (<) (map fb_at (frame_batches fl enabled ts moments ps))"
    and "\<forall>b \<in> set (frame_batches fl enabled ts moments ps). fb_updates b \<noteq> []"
proof -
  show subset: "set (map fb_at (frame_batches fl enabled ts moments ps)) \<subseteq> set moments" for moments ps
  proof (induction moments arbitrary: ps)
    case (Cons now moments)
    obtain us ps' where u: "frame_updates fl enabled now ts ps = (us, ps')" by force
    from Cons [of ps'] show ?case by (auto simp: u Let_def)
  qed simp
  show "sorted_wrt (<) (map fb_at (frame_batches fl enabled ts moments ps))"
    using assms
  proof (induction moments arbitrary: ps)
    case (Cons now moments)
    obtain us ps' where u: "frame_updates fl enabled now ts ps = (us, ps')" by force
    from subset [of moments ps'] Cons show ?case by (auto simp: u Let_def)
  qed simp
  show "\<forall>b \<in> set (frame_batches fl enabled ts moments ps). fb_updates b \<noteq> []"
    by (induction moments arbitrary: ps) (auto simp: Let_def split: prod.splits)
qed

text \<open>A position on the way from one rectangle to another, with the size of the second.\<close>

definition on_the_way :: "rect \<Rightarrow> rect \<Rightarrow> rect \<Rightarrow> bool" where
  "on_the_way from to r \<longleftrightarrow> r_width r = r_width to \<and> r_height r = r_height to
     \<and> min (r_x from) (r_x to) \<le> r_x r \<and> r_x r \<le> max (r_x from) (r_x to)
     \<and> min (r_y from) (r_y to) \<le> r_y r \<and> r_y r \<le> max (r_y from) (r_y to)"

definition track_fits :: "motion_track \<Rightarrow> bool" where
  "track_fits t \<longleftrightarrow> r_x (mt_from t) \<le> u16_max \<and> r_y (mt_from t) \<le> u16_max \<and> r_x (mt_to t) \<le> u16_max \<and> r_y (mt_to t) \<le> u16_max"

lemma rect_at_on_the_way:
  "double_rounding fl \<Longrightarrow> track_fits t \<Longrightarrow> on_the_way (mt_from t) (mt_to t) (rect_at fl enabled now t)"
  using ease_unit [of fl] lerp_between [of fl]
  by (simp add: on_the_way_def rect_at_def interpolate_def track_fits_def Let_def)

lemma rect_at_end:
  assumes "double_rounding fl" and "track_fits t" and "enabled \<longrightarrow> track_duration t \<le> now"
  shows "rect_at fl enabled now t = mt_to t"
proof -
  have "interpolate fl (mt_from t) (mt_to t) (ease fl 1 (mt_easing t)) = mt_to t"
    using assms(2) by (intro rect.equality)
      (simp_all add: interpolate_def ease_end [OF assms(1)] lerp_end [OF assms(1)] track_fits_def)
  then show ?thesis using assms(3) by (simp add: rect_at_def Let_def)
qed

text \<open>
  Planning the frames of motions of distinct windows always ends. The batches come at
  strictly increasing times within the longest motion allowed, none is empty, and each window is sent
  exactly the positions its motion has at the frame times, with repetitions dropped: every one lies
  between start and target, and the last is the target.
\<close>

theorem plan_frames_correct:
  assumes "double_rounding fl" and "0 < fps" and "tracks \<noteq> []"
    and "distinct (map mt_window_id tracks)" and "\<forall>t \<in> set tracks. track_fits t"
  shows "\<exists>moments batches. frame_times tracks (min fps MAX_ANIMATION_FPS) enabled = Some moments
    \<and> plan_frames fl tracks fps enabled = Some batches
    \<and> sorted_wrt (<) moments \<and> hd moments = 0
    \<and> sorted_wrt (<) (map fb_at batches)
    \<and> (\<forall>b \<in> set batches. fb_at b \<le> MAX_ANIMATION_DURATION \<and> fb_updates b \<noteq> [])
    \<and> (\<forall>t \<in> set tracks.
          emitted batches (mt_window_id t) = position_changes None (map (\<lambda>now. (now, rect_at fl enabled now t)) moments)
        \<and> emitted batches (mt_window_id t) \<noteq> []
        \<and> snd (last (emitted batches (mt_window_id t))) = mt_to t
        \<and> (\<forall>p \<in> set (emitted batches (mt_window_id t)). on_the_way (mt_from t) (mt_to t) (snd p)))"
proof -
  obtain moments where ms: "frame_times tracks (min fps MAX_ANIMATION_FPS) enabled = Some moments" "sorted_wrt (<) moments"
    "moments \<noteq> []" "hd moments = 0" "\<forall>t \<in> set moments. t \<le> MAX_ANIMATION_DURATION"
    "enabled \<longrightarrow> (\<forall>t \<in> set tracks. track_duration t \<le> last moments)"
    by (rule frame_times_spec [of "min fps MAX_ANIMATION_FPS" tracks enabled])
      (use assms(2,3) in \<open>simp_all add: MAX_ANIMATION_FPS_def\<close>)
  define batches where "batches = frame_batches fl enabled tracks moments (replicate (length tracks) None)"
  have plan: "plan_frames fl tracks fps enabled = Some batches"
    using assms(2,3) ms(1) by (simp add: plan_frames_def batches_def)
  have track: "emitted batches (mt_window_id t) = position_changes None (map (\<lambda>now. (now, rect_at fl enabled now t)) moments)
      \<and> emitted batches (mt_window_id t) \<noteq> [] \<and> snd (last (emitted batches (mt_window_id t))) = mt_to t
      \<and> (\<forall>p \<in> set (emitted batches (mt_window_id t)). on_the_way (mt_from t) (mt_to t) (snd p))"
    if t: "t \<in> set tracks" for t
  proof -
    let ?xs = "map (\<lambda>now. (now, rect_at fl enabled now t)) moments"
    have fits: "track_fits t" using assms(5) t by blast
    from t obtain i where i: "i < length tracks" "tracks ! i = t" by (auto simp: in_set_conv_nth)
    have em: "emitted batches (mt_window_id t) = position_changes None ?xs"
      using emitted_batches [OF assms(4) _ i(1), of "replicate (length tracks) None"] i by (simp add: batches_def)
    have "snd (last ?xs) = mt_to t"
      using rect_at_end [OF assms(1) fits] ms(3,6) t by (simp add: last_map)
    with position_changes_last [of ?xs None] ms(3) em
    have "emitted batches (mt_window_id t) \<noteq> []" "snd (last (emitted batches (mt_window_id t))) = mt_to t"
      by (auto split: if_splits)
    moreover have "\<forall>p \<in> set (emitted batches (mt_window_id t)). on_the_way (mt_from t) (mt_to t) (snd p)"
      using position_changes_subset [of None ?xs] rect_at_on_the_way [OF assms(1) fits] unfolding em by auto
    ultimately show ?thesis using em by blast
  qed
  have "\<forall>b \<in> set batches. fb_at b \<le> MAX_ANIMATION_DURATION \<and> fb_updates b \<noteq> []"
    using batch_times(1,3) [OF ms(2)] ms(5) unfolding batches_def by fastforce
  then show ?thesis using ms(1,2,4) plan batch_times(2) [OF ms(2)] track unfolding batches_def by blast
qed

definition demo_track :: motion_track where
  "demo_track = \<lparr>mt_window_id = [0x61], mt_from = \<lparr>r_x = 38, r_y = 0, r_width = 42, r_height = 3\<rparr>,
     mt_to = \<lparr>r_x = 80, r_y = 0, r_width = 42, r_height = 3\<rparr>, mt_phase = ExitPhase,
     mt_duration = from_millis 150, mt_easing = EaseIn\<rparr>"

lemma exact_rounding: "double_rounding id"
  by (simp add: double_rounding_def mono_def)

lemma plan_frames_correct_witness:
  "\<exists>batches. plan_frames id [demo_track] 20 True = Some batches
    \<and> snd (last (emitted batches (mt_window_id demo_track))) = mt_to demo_track"
  using plan_frames_correct [OF exact_rounding, of 20 "[demo_track]" True]
  by (auto simp: track_fits_def demo_track_def)

end
