(* ===== verification/Reconciler.thy ===== *)
theory Reconciler
  imports Toast_Motion Tmux_Backend Scheduler Config "HOL-Library.AList"
begin

text \<open>
  The owner of the desired displays: \<open>src/daemon/reconcile.rs\<close>. Each tick reads the events and the
  topology of the backend, projects what the scheduler shows into the eligible windows, animates what
  comes and goes, has the backend apply it, and turns the result into retries, given-up
  Notifications and display availability.

  The backend (a trait of the source) is a record of its operations. The text of a Notification ID,
  the order in which a hash map yields its keys, and the rounding of double precision are parameters.
  A \<open>HashMap\<close> is an association list without repeated keys; wherever the source iterates over one and
  the order shows, the order is the parameter's. \<open>Panic\<close> stands for a panic and for not returning.
\<close>

section \<open>Data\<close>

definition MAX_EVENTS_PER_TICK :: nat where "MAX_EVENTS_PER_TICK = 128"
definition MAX_RENDER_ATTEMPTS :: nat where "MAX_RENDER_ATTEMPTS = 3"
definition INITIAL_RENDER_BACKOFF :: duration where "INITIAL_RENDER_BACKOFF = from_millis 50"
definition INITIAL_RECONNECT_BACKOFF :: duration where "INITIAL_RECONNECT_BACKOFF = from_millis 100"
definition MAX_RECONNECT_BACKOFF :: duration where "MAX_RECONNECT_BACKOFF = from_secs 5"

text \<open>The largest \<open>Duration\<close>, where its additions saturate.\<close>

definition duration_max :: duration where
  "duration_max = 18446744073709551615 * 1000000000 + 999999999"

record toast_animation_policy =
  ap_enabled :: bool
  ap_fps :: nat
  ap_enter_duration :: duration
  ap_exit_duration :: duration
  ap_enter_easing :: easing
  ap_exit_easing :: easing

record window_display_policy =
  wp_placement :: cfg_placement
  wp_toast_width :: nat
  wp_toast_height :: nat
  wp_toast_gap :: nat
  wp_max_visible_toasts :: nat
  wp_stack_order :: stack_order
  wp_body :: body_presentation
  wp_unicode :: bool
  wp_color :: bool
  wp_animation :: toast_animation_policy

definition animation_policy_default :: toast_animation_policy where
  "animation_policy_default = \<lparr>ap_enabled = True, ap_fps = 20, ap_enter_duration = from_millis 180,
     ap_exit_duration = from_millis 150, ap_enter_easing = EaseOut, ap_exit_easing = EaseIn\<rparr>"

definition display_policy_default :: window_display_policy where
  "display_policy_default = \<lparr>wp_placement = CfgTopRight, wp_toast_width = 42, wp_toast_height = 3,
     wp_toast_gap = 1, wp_max_visible_toasts = 4, wp_stack_order = OldestFirst,
     wp_body = BodyFirstLine, wp_unicode = True, wp_color = True, wp_animation = animation_policy_default\<rparr>"

definition frame_interval :: "toast_animation_policy \<Rightarrow> duration" where
  "frame_interval p = frame_of_fps (min (max (ap_fps p) 1) 120)"

record display_metadata =
  dm_notification_id :: notification_id
  dm_placement :: cfg_placement
  dm_viewport :: viewport

record motion =
  mo_started_at :: monotonic_time
  mo_phase :: motion_phase
  mo_frames :: "(duration \<times> rect) list"
  mo_current :: rect
  mo_finished_on_previous_tick :: bool

record motion_spec =
  sp_display_id :: ustring
  sp_from :: rect
  sp_to :: rect
  sp_phase :: motion_phase
  sp_duration :: duration
  sp_easing :: easing

record animation_runtime =
  an_motions :: "(ustring \<times> motion) list"
  an_exiting :: "(ustring \<times> window_id \<times> planned_display) list"
  an_paused_at :: "monotonic_time option"

datatype reconcile_status = Applied | WaitingForRetry | DisconnectedStatus

record reconcile_outcome =
  oc_status :: reconcile_status
  oc_visible_windows :: "window_id set"
  oc_render_failed :: "notification_id list"
  oc_next_wakeup :: "monotonic_time option"

datatype reconcile_error = ReconcileScheduler scheduler_error

record retry_state =
  rt_attempts :: nat
  rt_retry_at :: monotonic_time

record window_reconciler =
  wr_policy :: window_display_policy
  wr_topology :: topology
  wr_connected :: bool
  wr_dirty :: bool
  wr_successful_windows :: "window_id set"
  wr_retries :: "(window_id \<times> retry_state) list"
  wr_projected_notifications :: "notification_id set"
  wr_content_revision :: counter
  wr_next_reconnect_at :: monotonic_time
  wr_reconnect_backoff :: duration
  wr_target_plan :: tmux_display_plan
  wr_target_metadata :: "ustring \<rightharpoonup> display_metadata"
  wr_animation :: animation_runtime

datatype hash_site = TargetSite | PreviousSite | ExitingSite

record 'b reconcile_env =
  re_next_event :: "'b \<Rightarrow> (tmux_error + tmux_event option) \<times> 'b"
  re_topology :: "'b \<Rightarrow> (tmux_error + topology) \<times> 'b"
  re_reconcile :: "tmux_display_plan \<Rightarrow> 'b \<Rightarrow> (tmux_error + reconcile_report) \<times> 'b"
  re_id_text :: "notification_id \<Rightarrow> ustring"
  re_order :: "hash_site \<Rightarrow> ustring list \<Rightarrow> ustring list"
  re_rounding :: rounding

record 'b daemon_view =
  dv_reconciler :: window_reconciler
  dv_scheduler :: scheduler
  dv_backend :: 'b

type_synonym ('b, 'a) tick_op = "('b daemon_view, reconcile_error, 'a) op"

definition hash_iter :: "'b reconcile_env \<Rightarrow> hash_site \<Rightarrow> (ustring \<times> 'v) list \<Rightarrow> (ustring \<times> 'v) list" where
  "hash_iter env site m = List.map_filter (\<lambda>k. map_option (Pair k) (map_of m k)) (re_order env site (map fst m))"

section \<open>The animation runtime\<close>

definition animation_new :: animation_runtime where
  "animation_new = \<lparr>an_motions = [], an_exiting = [], an_paused_at = None\<rparr>"

definition animation_clear :: "animation_runtime \<Rightarrow> animation_runtime" where
  "animation_clear a = a\<lparr>an_motions := [], an_exiting := []\<rparr>"

definition animation_pause :: "monotonic_time \<Rightarrow> animation_runtime \<Rightarrow> animation_runtime" where
  "animation_pause now a = a\<lparr>an_paused_at := (case an_paused_at a of None \<Rightarrow> Some now | Some t \<Rightarrow> Some t)\<rparr>"

definition animation_resume :: "monotonic_time \<Rightarrow> animation_runtime \<Rightarrow> animation_runtime" where
  "animation_resume now a =
     (case an_paused_at a of
        None \<Rightarrow> a
      | Some paused_at \<Rightarrow>
          a\<lparr>an_paused_at := None,
            an_motions := map (\<lambda>(i, m). (i, m\<lparr>mo_started_at :=
              sat_add duration_max (mo_started_at m) (now - paused_at)\<rparr>)) (an_motions a)\<rparr>)"

definition track_of_spec :: "motion_spec \<Rightarrow> motion_track" where
  "track_of_spec s = \<lparr>mt_window_id = sp_display_id s, mt_from = sp_from s, mt_to = sp_to s,
     mt_phase = sp_phase s, mt_duration = sp_duration s, mt_easing = sp_easing s\<rparr>"

fun start_motions :: "(ustring \<Rightarrow> (duration \<times> rect) list) \<Rightarrow> monotonic_time \<Rightarrow> motion_spec list
    \<Rightarrow> (ustring \<times> motion) list \<Rightarrow> (ustring \<times> motion) list" where
  "start_motions planned now [] motions = motions"
| "start_motions planned now (s # specs) motions =
     start_motions (planned(sp_display_id s := [])) now specs
       (AList.update (sp_display_id s)
          \<lparr>mo_started_at = now, mo_phase = sp_phase s, mo_frames = planned (sp_display_id s),
           mo_current = sp_from s, mo_finished_on_previous_tick = False\<rparr> motions)"

text \<open>Starting motions; no result only if the frames are never planned.\<close>

definition animation_start ::
  "rounding \<Rightarrow> motion_spec list \<Rightarrow> nat \<Rightarrow> monotonic_time \<Rightarrow> animation_runtime \<Rightarrow> animation_runtime option" where
  "animation_start fl specs fps now a =
     (if specs = [] then Some a
      else case plan_frames fl (map track_of_spec specs) fps True of
        None \<Rightarrow> None
      | Some batches \<Rightarrow> Some (a\<lparr>an_motions := start_motions (emitted batches) now specs (an_motions a)\<rparr>))"

fun pop_frames :: "duration \<Rightarrow> (duration \<times> rect) list \<Rightarrow> rect \<Rightarrow> (duration \<times> rect) list \<times> rect \<times> bool" where
  "pop_frames elapsed [] current = ([], current, False)"
| "pop_frames elapsed ((moment, r) # frames) current =
     (if moment \<le> elapsed then
        (let (frames', current', changed) = pop_frames elapsed frames r
         in (frames', current', current \<noteq> r \<or> changed))
      else ((moment, r) # frames, current, False))"

text \<open>One motion: what is left of it (nothing when it is removed), and whether anything changed.\<close>

definition advance_motion :: "monotonic_time \<Rightarrow> motion \<Rightarrow> motion option \<times> bool" where
  "advance_motion now m =
     (if mo_finished_on_previous_tick m then (None, True)
      else
        let (frames, current, changed) = pop_frames (now - mo_started_at m) (mo_frames m) (mo_current m);
            m' = m\<lparr>mo_frames := frames, mo_current := current\<rparr>
        in if frames = [] then
             (case mo_phase m of
                EnterPhase \<Rightarrow> (None, changed)
              | ExitPhase \<Rightarrow> (Some (m'\<lparr>mo_finished_on_previous_tick := True\<rparr>), changed)
              | StayPhase \<Rightarrow> (None, changed))
           else (Some m', changed))"

definition animation_advance :: "monotonic_time \<Rightarrow> animation_runtime \<Rightarrow> bool \<times> animation_runtime" where
  "animation_advance now a =
     (let steps = map (\<lambda>(i, m). (i, advance_motion now m)) (an_motions a);
          removed = map fst (filter (\<lambda>(i, m', c). m' = None) steps)
      in (list_ex (\<lambda>(i, m', c). c) steps,
          a\<lparr>an_motions := List.map_filter (\<lambda>(i, m', c). map_option (Pair i) m') steps,
            an_exiting := filter (\<lambda>(i, e). i \<notin> set removed) (an_exiting a)\<rparr>))"

definition rect_from_geometry :: "geometry \<Rightarrow> rect" where
  "rect_from_geometry g = \<lparr>r_x = g_x g, r_y = g_y g, r_width = g_width g, r_height = g_height g\<rparr>"

definition geometry_from_rect :: "rect \<Rightarrow> nat \<Rightarrow> geometry" where
  "geometry_from_rect r z = \<lparr>g_x = r_x r, g_y = r_y r, g_width = r_width r, g_height = r_height r, g_z_index = z\<rparr>"

definition push_display :: "window_id \<Rightarrow> planned_display \<Rightarrow> tmux_display_plan \<Rightarrow> tmux_display_plan" where
  "push_display w d plan = bt_insert w ((case map_of plan w of None \<Rightarrow> [] | Some ds \<Rightarrow> ds) @ [d]) plan"

definition move_display :: "animation_runtime \<Rightarrow> planned_display \<Rightarrow> planned_display" where
  "move_display a d =
     (case map_of (an_motions a) (pd_display_id d) of
        None \<Rightarrow> d
      | Some m \<Rightarrow> d\<lparr>pd_geometry := geometry_from_rect (mo_current m) (g_z_index (pd_geometry d))\<rparr>)"

definition animation_apply ::
  "'b reconcile_env \<Rightarrow> animation_runtime \<Rightarrow> tmux_display_plan \<Rightarrow> tmux_display_plan" where
  "animation_apply env a plan =
     map (\<lambda>(w, ds). (w, map (move_display a) ds))
       (fold (\<lambda>(i, w, d). push_display w d) (hash_iter env ExitingSite (an_exiting a)) plan)"

section \<open>The planned displays\<close>

fun config_placement :: "placement \<Rightarrow> cfg_placement" where
  "config_placement TopLeft = CfgTopLeft"
| "config_placement TopCenter = CfgTopCenter"
| "config_placement TopRight = CfgTopRight"
| "config_placement BottomLeft = CfgBottomLeft"
| "config_placement BottomCenter = CfgBottomCenter"
| "config_placement BottomRight = CfgBottomRight"

fun placement_index :: "cfg_placement \<Rightarrow> nat" where
  "placement_index CfgTopLeft = 0"
| "placement_index CfgTopCenter = 1"
| "placement_index CfgTopRight = 2"
| "placement_index CfgBottomLeft = 3"
| "placement_index CfgBottomCenter = 4"
| "placement_index CfgBottomRight = 5"

definition toast_geometry ::
  "window_size \<Rightarrow> nat \<Rightarrow> nat \<Rightarrow> nat \<Rightarrow> nat \<Rightarrow> cfg_placement \<Rightarrow> nat \<Rightarrow> geometry" where
  "toast_geometry extent width height stride index p z_index =
     (let offset = sat_mul u16_max (min index u16_max) stride;
          x = (if p = CfgTopLeft \<or> p = CfgBottomLeft then 0
               else if p = CfgTopCenter \<or> p = CfgBottomCenter then (wsize_width extent - width) div 2
               else wsize_width extent - width);
          y = (if p = CfgTopLeft \<or> p = CfgTopCenter \<or> p = CfgTopRight then offset
               else wsize_height extent - height - offset)
      in \<lparr>g_x = x, g_y = y, g_width = width, g_height = height, g_z_index = min z_index u16_max\<rparr>)"

text \<open>\<open>expect\<close>: the content of a Notification that is not live panics (no result).\<close>

definition renderer_content_for ::
  "scheduler \<Rightarrow> notification_id \<Rightarrow> window_display_policy \<Rightarrow> renderer_content option" where
  "renderer_content_for sch i policy =
     map_option (\<lambda>n. with_display_options
         \<lparr>ro_body = (case wp_body policy of BodyFirstLine \<Rightarrow> FirstLine | BodyJoinLines \<Rightarrow> JoinLines | BodyWrap \<Rightarrow> WrapLines),
          ro_unicode = wp_unicode policy, ro_color = wp_color policy\<rparr> (renderer_content_from n))
       (live_notification sch i)"

definition display_id :: "'b reconcile_env \<Rightarrow> notification_id \<Rightarrow> window_id \<Rightarrow> ustring" where
  "display_id env i w = re_id_text env i @ of_char CHR '':'' # w"

definition desired_notification_ids :: "display_plan \<Rightarrow> notification_id list" where
  "desired_notification_ids p = (case dp_attention p of None \<Rightarrow> [] | Some i \<Rightarrow> [i]) @ dp_toasts p"

definition planned_attention ::
  "'b reconcile_env \<Rightarrow> window_id \<Rightarrow> notification_id \<Rightarrow> window_size \<Rightarrow> bool \<Rightarrow> renderer_content \<Rightarrow> planned_display" where
  "planned_attention env w i extent play content =
     (let width = (if wsize_width extent \<ge> 60 then max (wsize_width extent * 60 div 100) 32 else wsize_width extent);
          height = (if wsize_height extent \<ge> 10 then 7 else wsize_height extent)
      in \<lparr>pd_display_id = display_id env i w, pd_kind = AttentionDisplay,
          pd_geometry = \<lparr>g_x = (wsize_width extent - width) div 2, g_y = (wsize_height extent - height) div 2,
            g_width = width, g_height = height, g_z_index = 100\<rparr>,
          pd_content = content, pd_play_enter_animation = play\<rparr>)"

definition toast_placement :: "scheduler \<Rightarrow> window_display_policy \<Rightarrow> notification_id \<Rightarrow> cfg_placement" where
  "toast_placement sch policy i =
     (case Option.bind (live_notification sch i) (ov_position \<circ> n_overrides) of
        None \<Rightarrow> wp_placement policy
      | Some p \<Rightarrow> config_placement p)"

text \<open>One Toast after the other, with the number of Toasts so far at each of the six placements.\<close>

fun place_toasts ::
  "'b reconcile_env \<Rightarrow> window_display_policy \<Rightarrow> scheduler \<Rightarrow> window_id \<Rightarrow> window_size \<Rightarrow> nat \<Rightarrow> nat \<Rightarrow> nat
    \<Rightarrow> notification_id set \<Rightarrow> nat list \<Rightarrow> nat \<Rightarrow> notification_id list \<Rightarrow> (planned_display \<times> display_metadata) list option" where
  "place_toasts env policy sch w extent width height stride initial slots z [] = Some []"
| "place_toasts env policy sch w extent width height stride initial slots z (i # ids) =
     (let p = toast_placement sch policy i;
          k = placement_index p
      in case (renderer_content_for sch i policy,
               place_toasts env policy sch w extent width height stride initial (slots[k := slots ! k + 1]) (z + 1) ids) of
           (Some content, Some rest) \<Rightarrow>
             Some ((\<lparr>pd_display_id = display_id env i w, pd_kind = ToastDisplay,
                     pd_geometry = toast_geometry extent width height stride (slots ! k) p z,
                     pd_content = content, pd_play_enter_animation = i \<in> initial\<rparr>,
                   \<lparr>dm_notification_id = i, dm_placement = p,
                     dm_viewport = \<lparr>vp_width = wsize_width extent, vp_height = wsize_height extent\<rparr>\<rparr>) # rest)
         | _ \<Rightarrow> None)"

definition toast_extent :: "window_display_policy \<Rightarrow> window_size \<Rightarrow> nat \<times> nat" where
  "toast_extent policy extent =
     (if wsize_width extent < wp_toast_width policy then (wsize_width extent, 1)
      else (wp_toast_width policy, wp_toast_height policy))"

definition toast_stride :: "window_display_policy \<Rightarrow> window_size \<Rightarrow> nat" where
  "toast_stride policy extent = max (sat_add u16_max (snd (toast_extent policy extent)) (wp_toast_gap policy)) 1"

definition toast_capacity :: "window_display_policy \<Rightarrow> window_size \<Rightarrow> nat" where
  "toast_capacity policy extent =
     min (sat_add u16_max (wsize_height extent) (wp_toast_gap policy) div toast_stride policy extent)
       (wp_max_visible_toasts policy)"

definition chosen_toasts :: "window_display_policy \<Rightarrow> window_size \<Rightarrow> notification_id list \<Rightarrow> notification_id list" where
  "chosen_toasts policy extent ids =
     (case wp_stack_order policy of
        OldestFirst \<Rightarrow> take (toast_capacity policy extent) ids
      | NewestFirst \<Rightarrow> take (toast_capacity policy extent) (rev ids))"

definition planned_toasts ::
  "'b reconcile_env \<Rightarrow> window_display_policy \<Rightarrow> scheduler \<Rightarrow> window_id \<Rightarrow> notification_id list \<Rightarrow> window_size
    \<Rightarrow> notification_id set \<Rightarrow> (planned_display \<times> display_metadata) list option" where
  "planned_toasts env policy sch w ids extent initial =
     (if wsize_width extent < 24 \<or> wsize_height extent = 0 then Some []
      else place_toasts env policy sch w extent (fst (toast_extent policy extent)) (snd (toast_extent policy extent))
             (toast_stride policy extent) initial (replicate 6 0) 0 (chosen_toasts policy extent ids))"

text \<open>The displays of one window, with what is recorded about its Toasts.\<close>

definition plan_window ::
  "'b reconcile_env \<Rightarrow> window_reconciler \<Rightarrow> scheduler \<Rightarrow> display_plan \<Rightarrow> notification_id set \<Rightarrow> window_id
    \<Rightarrow> (planned_display list \<times> (ustring \<times> display_metadata) list) option" where
  "plan_window env r sch splan initial w =
     (let extent = (case topology_window_size (wr_topology r) w of
            None \<Rightarrow> \<lparr>wsize_width = 80, wsize_height = 24\<rparr> | Some sz \<Rightarrow> sz)
      in case dp_attention splan of
           Some i \<Rightarrow>
             map_option (\<lambda>content. ([planned_attention env w i extent (i \<in> initial) content], []))
               (renderer_content_for sch i (wr_policy r))
         | None \<Rightarrow>
             map_option (\<lambda>ps. (map fst ps, map (\<lambda>(d, m). (pd_display_id d, m)) ps))
               (planned_toasts env (wr_policy r) sch w (dp_toasts splan) extent initial))"

fun plan_windows ::
  "'b reconcile_env \<Rightarrow> window_reconciler \<Rightarrow> scheduler \<Rightarrow> display_plan \<Rightarrow> notification_id set \<Rightarrow> window_id list
    \<Rightarrow> tmux_display_plan \<Rightarrow> (ustring \<rightharpoonup> display_metadata) \<Rightarrow> (tmux_display_plan \<times> (ustring \<rightharpoonup> display_metadata)) option" where
  "plan_windows env r sch splan initial [] plan metadata = Some (plan, metadata)"
| "plan_windows env r sch splan initial (w # ws) plan metadata =
     (case plan_window env r sch splan initial w of
        None \<Rightarrow> None
      | Some (ds, ms) \<Rightarrow>
          plan_windows env r sch splan initial ws (bt_insert w ds plan) (fold (\<lambda>(i, m) f. f(i \<mapsto> m)) ms metadata))"

definition build_plan ::
  "'b reconcile_env \<Rightarrow> scheduler \<Rightarrow> display_plan \<Rightarrow> window_id list \<Rightarrow> window_reconciler
    \<Rightarrow> (tmux_display_plan \<times> (ustring \<rightharpoonup> display_metadata) \<times> window_reconciler) option" where
  "build_plan env sch splan eligible r =
     (let ids = set (desired_notification_ids splan);
          initial = ids - wr_projected_notifications r
      in case plan_windows env r sch splan initial eligible [] Map.empty of
           None \<Rightarrow> None
         | Some (plan, metadata) \<Rightarrow>
             Some (plan, metadata, r\<lparr>wr_projected_notifications := wr_projected_notifications r \<union> ids\<rparr>))"

section \<open>Motions of the displays that come and go\<close>

definition displays_by_id :: "tmux_display_plan \<Rightarrow> (ustring \<times> window_id \<times> planned_display) list" where
  "displays_by_id plan =
     fold (\<lambda>(w, ds) m. fold (\<lambda>d. AList.update (pd_display_id d) (w, d)) ds m) plan []"

definition clear_enter_hints :: "tmux_display_plan \<Rightarrow> tmux_display_plan" where
  "clear_enter_hints = map (\<lambda>(w, ds). (w, map (\<lambda>d. d\<lparr>pd_play_enter_animation := False\<rparr>) ds))"

text \<open>The motion of a display that left the plan alive, or moved within it, is dropped.\<close>

definition motion_obsolete ::
  "scheduler \<Rightarrow> (ustring \<times> window_id \<times> planned_display) list \<Rightarrow> (ustring \<rightharpoonup> display_metadata)
    \<Rightarrow> ustring \<times> window_id \<times> planned_display \<Rightarrow> bool" where
  "motion_obsolete sch target metadata = (\<lambda>(i, w, previous).
     case map_of target i of
       None \<Rightarrow> (case metadata i of
           None \<Rightarrow> False | Some meta \<Rightarrow> live_notification sch (dm_notification_id meta) \<noteq> None)
     | Some (w', current) \<Rightarrow> pd_geometry current \<noteq> pd_geometry previous)"

definition drop_motion :: "ustring \<Rightarrow> animation_runtime \<Rightarrow> animation_runtime" where
  "drop_motion i a = a\<lparr>an_motions := AList.delete i (an_motions a), an_exiting := AList.delete i (an_exiting a)\<rparr>"

definition enter_specs ::
  "toast_animation_policy \<Rightarrow> (ustring \<times> window_id \<times> planned_display) list \<Rightarrow> (ustring \<rightharpoonup> display_metadata)
    \<Rightarrow> (ustring \<times> window_id \<times> planned_display) list \<Rightarrow> motion_spec list" where
  "enter_specs policy previous metadata =
     List.map_filter (\<lambda>(i, w, d).
       if map_of previous i = None \<and> pd_kind d = ToastDisplay \<and> pd_play_enter_animation d then
         map_option (\<lambda>meta.
           let r = rect_from_geometry (pd_geometry d) in
           \<lparr>sp_display_id = i, sp_from = offscreen_rect r (dm_viewport meta) (dm_placement meta), sp_to = r,
            sp_phase = EnterPhase, sp_duration = ap_enter_duration policy, sp_easing = ap_enter_easing policy\<rparr>)
           (metadata i)
       else None)"

text \<open>What leaves because its Notification is gone: the frozen display and its motion.\<close>

definition exit_motion ::
  "toast_animation_policy \<Rightarrow> scheduler \<Rightarrow> (ustring \<times> window_id \<times> planned_display) list
    \<Rightarrow> (ustring \<rightharpoonup> display_metadata) \<Rightarrow> animation_runtime \<Rightarrow> ustring \<times> window_id \<times> planned_display
    \<Rightarrow> ((window_id \<times> planned_display) \<times> motion_spec) option" where
  "exit_motion policy sch target metadata a = (\<lambda>(i, w, d).
     case metadata i of
       None \<Rightarrow> None
     | Some meta \<Rightarrow>
         if map_of target i \<noteq> None \<or> pd_kind d \<noteq> ToastDisplay \<or> live_notification sch (dm_notification_id meta) \<noteq> None
         then None
         else
           let from = (case map_of (an_motions a) i of
                 None \<Rightarrow> rect_from_geometry (pd_geometry d) | Some m \<Rightarrow> mo_current m)
           in Some ((w, d\<lparr>pd_geometry := geometry_from_rect from (g_z_index (pd_geometry d)),
                         pd_play_enter_animation := False\<rparr>),
                    \<lparr>sp_display_id = i, sp_from = from,
                     sp_to = offscreen_rect from (dm_viewport meta) (dm_placement meta), sp_phase = ExitPhase,
                     sp_duration = ap_exit_duration policy, sp_easing = ap_exit_easing policy\<rparr>))"

fun exit_specs ::
  "toast_animation_policy \<Rightarrow> scheduler \<Rightarrow> (ustring \<times> window_id \<times> planned_display) list
    \<Rightarrow> (ustring \<rightharpoonup> display_metadata) \<Rightarrow> (ustring \<times> window_id \<times> planned_display) list
    \<Rightarrow> animation_runtime \<Rightarrow> motion_spec list \<times> animation_runtime" where
  "exit_specs policy sch target metadata [] a = ([], a)"
| "exit_specs policy sch target metadata (x # xs) a =
     (case exit_motion policy sch target metadata a x of
        None \<Rightarrow> exit_specs policy sch target metadata xs a
      | Some (display, spec) \<Rightarrow>
          (let (specs, a') = exit_specs policy sch target metadata xs
                 (a\<lparr>an_exiting := AList.update (fst x) display (an_exiting a)\<rparr>)
           in (spec # specs, a')))"

definition update_animations ::
  "'b reconcile_env \<Rightarrow> scheduler \<Rightarrow> tmux_display_plan \<Rightarrow> (ustring \<rightharpoonup> display_metadata) \<Rightarrow> monotonic_time
    \<Rightarrow> window_reconciler \<Rightarrow> window_reconciler option" where
  "update_animations env sch target metadata now r =
     (let policy = wp_animation (wr_policy r) in
      if \<not> ap_enabled policy then Some (r\<lparr>wr_animation := animation_clear (wr_animation r)\<rparr>)
      else
        let targets = displays_by_id target;
            previous = displays_by_id (wr_target_plan r);
            a = fold (\<lambda>x. if motion_obsolete sch targets (wr_target_metadata r) x then drop_motion (fst x) else id)
                  (hash_iter env PreviousSite previous) (wr_animation r);
            entering = (if ap_enter_duration policy = 0 then []
                        else enter_specs policy previous metadata (hash_iter env TargetSite targets));
            (leaving, a') = (if ap_exit_duration policy = 0 then ([], a)
                        else exit_specs policy sch targets (wr_target_metadata r) (hash_iter env PreviousSite previous) a)
        in map_option (\<lambda>a''. r\<lparr>wr_animation := a''\<rparr>)
             (animation_start (re_rounding env) (entering @ leaving) (ap_fps policy) now a'))"

section \<open>Results, retries and connection loss\<close>

definition add_time :: "monotonic_time \<Rightarrow> duration \<Rightarrow> monotonic_time" where
  "add_time t d = sat_add duration_max t d"

definition render_backoff :: "nat \<Rightarrow> duration" where
  "render_backoff attempts = sat_mul duration_max INITIAL_RENDER_BACKOFF (max attempts 1)"

definition record_failure :: "monotonic_time \<Rightarrow> window_id \<Rightarrow> window_reconciler \<Rightarrow> window_reconciler" where
  "record_failure now w r =
     (let attempts = sat_add 255 (case map_of (wr_retries r) w of None \<Rightarrow> 0 | Some rt \<Rightarrow> rt_attempts rt) 1
      in r\<lparr>wr_retries := bt_insert w
             \<lparr>rt_attempts = attempts, rt_retry_at = add_time now (render_backoff attempts)\<rparr> (wr_retries r)\<rparr>)"

definition apply_window_report ::
  "tmux_display_plan \<Rightarrow> reconcile_report \<Rightarrow> monotonic_time \<Rightarrow> window_id \<Rightarrow> window_reconciler \<Rightarrow> window_reconciler" where
  "apply_window_report desired rep now w r =
     (if w \<in> rp_applied rep then
        r\<lparr>wr_retries := bt_remove w (wr_retries r),
          wr_successful_windows :=
            (if (case map_of desired w of None \<Rightarrow> False | Some ds \<Rightarrow> ds \<noteq> [])
             then insert w (wr_successful_windows r) else wr_successful_windows r - {w})\<rparr>
      else record_failure now w r)"

text \<open>The windows of a report that failed, in the order of the map.\<close>

definition failed_windows :: "reconcile_report \<Rightarrow> window_id list" where
  "failed_windows rep = sorted_list_of_set (dom (rp_failed rep))"

definition apply_report ::
  "window_id list \<Rightarrow> tmux_display_plan \<Rightarrow> reconcile_report \<Rightarrow> monotonic_time \<Rightarrow> window_reconciler \<Rightarrow> window_reconciler" where
  "apply_report eligible desired rep now r =
     fold (record_failure now) (filter (\<lambda>w. w \<notin> set eligible) (failed_windows rep))
       (fold (apply_window_report desired rep now) eligible
         (r\<lparr>wr_successful_windows := wr_successful_windows r \<inter> set eligible\<rparr>))"

definition schedule_reconnect :: "monotonic_time \<Rightarrow> window_reconciler \<Rightarrow> window_reconciler" where
  "schedule_reconnect now r =
     r\<lparr>wr_connected := False,
       wr_animation := animation_pause now (wr_animation r),
       wr_next_reconnect_at := add_time now (wr_reconnect_backoff r),
       wr_reconnect_backoff := min (sat_mul duration_max (wr_reconnect_backoff r) 2) MAX_RECONNECT_BACKOFF\<rparr>"

definition disconnect :: "monotonic_time \<Rightarrow> window_reconciler \<Rightarrow> window_reconciler" where
  "disconnect now r =
     r\<lparr>wr_connected := False,
       wr_animation := animation_pause now (wr_animation r),
       wr_successful_windows := {},
       wr_next_reconnect_at := add_time now (wr_reconnect_backoff r),
       wr_reconnect_backoff := min (sat_mul duration_max (wr_reconnect_backoff r) 2) MAX_RECONNECT_BACKOFF\<rparr>"

definition waiting_retries :: "window_reconciler \<Rightarrow> retry_state list" where
  "waiting_retries r = filter (\<lambda>rt. rt_attempts rt < MAX_RENDER_ATTEMPTS) (map snd (wr_retries r))"

definition reconciler_outcome ::
  "window_reconciler \<Rightarrow> reconcile_status \<Rightarrow> notification_id list \<Rightarrow> reconcile_outcome" where
  "reconciler_outcome r status failed =
     \<lparr>oc_status = status, oc_visible_windows = wr_successful_windows r, oc_render_failed = failed,
      oc_next_wakeup =
        (if \<not> wr_connected r then Some (wr_next_reconnect_at r)
         else case map rt_retry_at (waiting_retries r) of
           [] \<Rightarrow> None | t # ts \<Rightarrow> Some (fold min ts t))\<rparr>"

definition retry_due :: "monotonic_time \<Rightarrow> window_reconciler \<Rightarrow> bool" where
  "retry_due now r \<longleftrightarrow> list_ex (\<lambda>rt. rt_retry_at rt \<le> now) (waiting_retries r)"

definition retry_status :: "window_reconciler \<Rightarrow> reconcile_status" where
  "retry_status r = (if wr_retries r = [] then Applied else WaitingForRetry)"

section \<open>Creating and steering\<close>

definition reconciler_new :: "window_display_policy \<Rightarrow> monotonic_time \<Rightarrow> window_reconciler" where
  "reconciler_new policy now =
     \<lparr>wr_policy = policy, wr_topology = \<lparr>topo_clients = [], topo_panes = []\<rparr>, wr_connected = False, wr_dirty = True,
      wr_successful_windows = {}, wr_retries = [], wr_projected_notifications = {}, wr_content_revision = 0,
      wr_next_reconnect_at = now, wr_reconnect_backoff = INITIAL_RECONNECT_BACKOFF,
      wr_target_plan = [], wr_target_metadata = Map.empty, wr_animation = animation_new\<rparr>"

definition request_full_reconciliation :: "window_reconciler \<Rightarrow> window_reconciler" where
  "request_full_reconciliation r = r\<lparr>wr_dirty := True\<rparr>"

definition update_policy :: "window_display_policy \<Rightarrow> window_reconciler \<Rightarrow> window_reconciler" where
  "update_policy policy r =
     (if wr_policy r \<noteq> policy
      then r\<lparr>wr_policy := policy, wr_animation := animation_clear (wr_animation r), wr_dirty := True\<rparr>
      else r)"

section \<open>One tick\<close>

definition on_reconciler :: "(window_reconciler \<Rightarrow> window_reconciler) \<Rightarrow> ('b, unit) tick_op" where
  "on_reconciler f = modify (\<lambda>v. v\<lparr>dv_reconciler := f (dv_reconciler v)\<rparr>)"

text \<open>Asking the backend: its errors are results here.\<close>

definition ask_backend :: "('b \<Rightarrow> 'a \<times> 'b) \<Rightarrow> ('b, 'a) tick_op" where
  "ask_backend f v = (case f (dv_backend v) of (a, b) \<Rightarrow> (Inr a, v\<lparr>dv_backend := b\<rparr>))"

definition on_scheduler :: "'a sched_op \<Rightarrow> ('b, 'a) tick_op" where
  "on_scheduler m v =
     (case m (dv_scheduler v) of
        (Inl Panic, s) \<Rightarrow> (Inl Panic, v\<lparr>dv_scheduler := s\<rparr>)
      | (Inl (Fail e), s) \<Rightarrow> (Inl (Fail (ReconcileScheduler e)), v\<lparr>dv_scheduler := s\<rparr>)
      | (Inr a, s) \<Rightarrow> (Inr a, v\<lparr>dv_scheduler := s\<rparr>))"

definition report_outcome :: "reconcile_status \<Rightarrow> notification_id list \<Rightarrow> ('b, reconcile_outcome) tick_op" where
  "report_outcome status failed = with_state (\<lambda>v. ret (reconciler_outcome (dv_reconciler v) status failed))"

text \<open>The status is that of the retries left.\<close>

definition report_retries :: "notification_id list \<Rightarrow> ('b, reconcile_outcome) tick_op" where
  "report_retries failed = with_state (\<lambda>v. report_outcome (retry_status (dv_reconciler v)) failed)"

primrec drain_events :: "'b reconcile_env \<Rightarrow> monotonic_time \<Rightarrow> nat \<Rightarrow> ('b, unit) tick_op" where
  "drain_events env now 0 = ret ()"
| "drain_events env now (Suc n) =
     bind_op (ask_backend (re_next_event env)) (\<lambda>event.
       case event of
         Inl _ \<Rightarrow> on_reconciler (disconnect now)
       | Inr None \<Rightarrow> ret ()
       | Inr (Some Disconnected) \<Rightarrow> on_reconciler (disconnect now)
       | Inr (Some TopologyChanged) \<Rightarrow>
           then_op (on_reconciler (\<lambda>r. r\<lparr>wr_dirty := True, wr_retries := []\<rparr>)) (drain_events env now n))"

definition report_disconnected :: "monotonic_time \<Rightarrow> wall_time \<Rightarrow> ('b, reconcile_outcome option) tick_op" where
  "report_disconnected now wall =
     then_op (on_scheduler (set_display_available False now wall))
     (bind_op (report_outcome DisconnectedStatus []) (\<lambda>out. ret (Some out)))"

text \<open>The outcome of the tick when there is no topology to go on with.\<close>

definition refresh_topology ::
  "'b reconcile_env \<Rightarrow> monotonic_time \<Rightarrow> wall_time \<Rightarrow> ('b, reconcile_outcome option) tick_op" where
  "refresh_topology env now wall = with_state (\<lambda>v.
     let r = dv_reconciler v in
     if \<not> wr_connected r then
       if now < wr_next_reconnect_at r then report_disconnected now wall
       else bind_op (ask_backend (re_topology env)) (\<lambda>res.
         case res of
           Inr t \<Rightarrow>
             then_op (on_reconciler (\<lambda>r. r\<lparr>wr_topology := t, wr_connected := True,
               wr_animation := animation_resume now (wr_animation r), wr_dirty := True, wr_retries := [],
               wr_reconnect_backoff := INITIAL_RECONNECT_BACKOFF\<rparr>)) (ret None)
         | Inl _ \<Rightarrow> then_op (on_reconciler (schedule_reconnect now)) (report_disconnected now wall))
     else if wr_dirty r then
       bind_op (ask_backend (re_topology env)) (\<lambda>res.
         case res of
           Inr t \<Rightarrow>
             then_op (on_reconciler (\<lambda>r. if t \<noteq> wr_topology r then r\<lparr>wr_topology := t, wr_retries := []\<rparr> else r)) (ret None)
         | Inl _ \<Rightarrow> then_op (on_reconciler (disconnect now)) (report_disconnected now wall))
     else ret None)"

definition tick_without_windows ::
  "'b reconcile_env \<Rightarrow> monotonic_time \<Rightarrow> wall_time \<Rightarrow> ('b, reconcile_outcome) tick_op" where
  "tick_without_windows env now wall =
     (let finish = then_op (on_reconciler (\<lambda>r. r\<lparr>wr_successful_windows := {}, wr_dirty := False\<rparr>)) (report_retries []) in
      then_op (on_reconciler (\<lambda>r. r\<lparr>wr_animation := animation_clear (wr_animation r)\<rparr>))
      (then_op (on_scheduler (set_display_available False now wall))
      (with_state (\<lambda>v.
         let r = dv_reconciler v in
         if wr_dirty r \<or> wr_successful_windows r \<noteq> {} \<or> retry_due now r then
           bind_op (ask_backend (re_reconcile env [])) (\<lambda>res.
             case res of
               Inr rep \<Rightarrow>
                 then_op (on_reconciler (\<lambda>r. if rp_failed rep = Map.empty then r\<lparr>wr_retries := []\<rparr>
                   else fold (record_failure now) (failed_windows rep) r)) finish
             | Inl _ \<Rightarrow> then_op (on_reconciler (disconnect now)) (report_outcome DisconnectedStatus []))
         else finish))))"

text \<open>
  What the scheduler shows, as the desired displays of the eligible windows with the motions in them;
  the reconciler remembers the target without its motions.
\<close>

definition project ::
  "'b reconcile_env \<Rightarrow> window_id list \<Rightarrow> monotonic_time \<Rightarrow> ('b, tmux_display_plan) tick_op" where
  "project env eligible now = with_state (\<lambda>v.
     let sch = dv_scheduler v;
         r0 = dv_reconciler v;
         r1 = (if content_revision sch \<noteq> wr_content_revision r0
               then r0\<lparr>wr_content_revision := content_revision sch, wr_retries := [], wr_dirty := True\<rparr> else r0)
     in case build_plan env sch (scheduler_display_plan sch) eligible r1 of
          None \<Rightarrow> panic
        | Some (target, metadata, r2) \<Rightarrow>
            (case update_animations env sch target metadata now r2 of
               None \<Rightarrow> panic
             | Some r3 \<Rightarrow>
                 let (changed, a) = animation_advance now (wr_animation r3);
                     r4 = r3\<lparr>wr_dirty := (wr_dirty r3 \<or> target \<noteq> wr_target_plan r3 \<or> changed),
                             wr_target_plan := clear_enter_hints target,
                             wr_target_metadata := metadata, wr_animation := a\<rparr>
                 in then_op (on_reconciler (\<lambda>_. r4)) (ret (animation_apply env a target))))"

definition all_exhausted :: "tmux_display_plan \<Rightarrow> window_reconciler \<Rightarrow> bool" where
  "all_exhausted desired r =
     (let content = map fst (filter (\<lambda>(w, ds). ds \<noteq> []) desired)
      in content \<noteq> [] \<and> wr_successful_windows r = {}
         \<and> list_all (\<lambda>w. case map_of (wr_retries r) w of
              None \<Rightarrow> False | Some rt \<Rightarrow> rt_attempts rt \<ge> MAX_RENDER_ATTEMPTS) content)"

text \<open>The Notifications given up are those whose closing the scheduler accepts.\<close>

primrec give_up :: "monotonic_time \<Rightarrow> wall_time \<Rightarrow> notification_id list \<Rightarrow> ('b, notification_id list) tick_op" where
  "give_up now wall [] = ret []"
| "give_up now wall (i # ids) = (\<lambda>v.
     case render_failed i now wall (dv_scheduler v) of
       (Inl Panic, s) \<Rightarrow> (Inl Panic, v\<lparr>dv_scheduler := s\<rparr>)
     | (Inl (Fail e), s) \<Rightarrow> give_up now wall ids (v\<lparr>dv_scheduler := s\<rparr>)
     | (Inr _, s) \<Rightarrow> bind_op (give_up now wall ids) (\<lambda>failed. ret (i # failed)) (v\<lparr>dv_scheduler := s\<rparr>))"

definition keep_live_projected :: "('b, unit) tick_op" where
  "keep_live_projected = modify (\<lambda>v. v\<lparr>dv_reconciler := (dv_reconciler v)\<lparr>wr_projected_notifications :=
     {i \<in> wr_projected_notifications (dv_reconciler v). live_notification (dv_scheduler v) i \<noteq> None}\<rparr>\<rparr>)"

definition settle_availability :: "monotonic_time \<Rightarrow> wall_time \<Rightarrow> ('b, unit) tick_op" where
  "settle_availability now wall = with_state (\<lambda>v.
     on_scheduler (set_display_available (wr_successful_windows (dv_reconciler v) \<noteq> {}) now wall))"

text \<open>Giving up what no window could show, after the last attempt.\<close>

definition give_up_exhausted ::
  "'b reconcile_env \<Rightarrow> display_plan \<Rightarrow> tmux_display_plan \<Rightarrow> monotonic_time \<Rightarrow> wall_time
    \<Rightarrow> ('b, notification_id list) tick_op" where
  "give_up_exhausted env splan desired now wall = with_state (\<lambda>v.
     if all_exhausted desired (dv_reconciler v) then
       bind_op (give_up now wall (desired_notification_ids splan)) (\<lambda>failed.
       bind_op (ask_backend (re_reconcile env [])) (\<lambda>_.
       then_op (on_reconciler (\<lambda>r. r\<lparr>wr_retries := []\<rparr>))
       (then_op keep_live_projected (ret failed))))
     else ret [])"

definition tick_windows ::
  "'b reconcile_env \<Rightarrow> window_id list \<Rightarrow> monotonic_time \<Rightarrow> wall_time \<Rightarrow> ('b, reconcile_outcome) tick_op" where
  "tick_windows env eligible now wall =
     then_op (on_scheduler (set_display_available True now wall))
     (with_state (\<lambda>v.
        let splan = scheduler_display_plan (dv_scheduler v) in
        bind_op (project env eligible now) (\<lambda>desired.
        with_state (\<lambda>v.
          if \<not> wr_dirty (dv_reconciler v) \<and> \<not> retry_due now (dv_reconciler v) then
            then_op (settle_availability now wall) (report_retries [])
          else
            bind_op (ask_backend (re_reconcile env desired)) (\<lambda>res.
            case res of
              Inl _ \<Rightarrow>
                then_op (on_reconciler (disconnect now))
                (then_op (on_scheduler (set_display_available False now wall)) (report_outcome DisconnectedStatus []))
            | Inr rep \<Rightarrow>
                then_op (on_reconciler (\<lambda>r. (apply_report eligible desired rep now r)\<lparr>wr_dirty := False\<rparr>))
                (bind_op (give_up_exhausted env splan desired now wall) (\<lambda>failed.
                then_op (settle_availability now wall) (report_retries failed))))))))"

definition reconciler_tick ::
  "'b reconcile_env \<Rightarrow> monotonic_time \<Rightarrow> wall_time \<Rightarrow> ('b, reconcile_outcome) tick_op" where
  "reconciler_tick env now wall =
     then_op (with_state (\<lambda>v.
        if wr_connected (dv_reconciler v) then drain_events env now MAX_EVENTS_PER_TICK else ret ()))
     (bind_op (refresh_topology env now wall) (\<lambda>early.
        case early of
          Some out \<Rightarrow> ret out
        | None \<Rightarrow>
            then_op keep_live_projected
            (with_state (\<lambda>v.
               let eligible = eligible_windows (wr_topology (dv_reconciler v)) in
               if eligible = [] then tick_without_windows env now wall
               else tick_windows env eligible now wall))))"

end
