(* ===== verification/Reconciler_Motion.thy ===== *)
theory Reconciler_Motion
  imports Reconciler
begin

text \<open>
  The motions in flight: what advancing one does, that it does not matter how often it is advanced,
  that a pause takes no time from it, and that a starting motion gets the planned frames.
\<close>

section \<open>Frames due\<close>

definition due :: "duration \<Rightarrow> (duration \<times> rect) list \<Rightarrow> (duration \<times> rect) list" where
  "due elapsed frames = takeWhile (\<lambda>(t, r). t \<le> elapsed) frames"

definition coming :: "duration \<Rightarrow> (duration \<times> rect) list \<Rightarrow> (duration \<times> rect) list" where
  "coming elapsed frames = dropWhile (\<lambda>(t, r). t \<le> elapsed) frames"

definition position_after :: "rect \<Rightarrow> (duration \<times> rect) list \<Rightarrow> rect" where
  "position_after current frames = last (current # map snd frames)"

lemma pop_frames_eq:
  "pop_frames elapsed frames current =
     (coming elapsed frames, position_after current (due elapsed frames),
      remdups_adj (current # map snd (due elapsed frames)) \<noteq> [current])"
proof (induction frames arbitrary: current)
  case (Cons f frames)
  obtain t r where f: "f = (t, r)" by force
  have adj: "remdups_adj (r # xs) \<noteq> []" for xs :: "rect list" by (simp add: remdups_adj_Nil_iff)
  show ?case
    using Cons.IH [of r] adj
    by (auto simp: f coming_def due_def position_after_def)
qed (simp add: coming_def due_def position_after_def)

lemma due_coming: "e \<le> e' \<Longrightarrow> due e' frames = due e frames @ due e' (coming e frames)"
  "e \<le> e' \<Longrightarrow> coming e' (coming e frames) = coming e' frames"
  by (induction frames) (auto simp: due_def coming_def)

lemma position_append: "position_after (position_after c xs) ys = position_after c (xs @ ys)"
  by (simp add: position_after_def last_append split: if_splits)

lemma due_all: "sorted_wrt (<) (map fst frames) \<Longrightarrow> coming e frames = [] \<longleftrightarrow> (\<forall>f \<in> set frames. fst f \<le> e)"
  by (auto simp: coming_def dropWhile_eq_Nil_conv)

lemma due_sorted:
  "sorted_wrt (<) (map fst fs) \<Longrightarrow>
     coming x fs = filter (\<lambda>f. x < fst f) fs \<and> due x fs = filter (\<lambda>f. fst f \<le> x) fs"
proof (induction fs)
  case (Cons f fs)
  obtain t r where f: "f = (t, r)" by force
  show ?case
  proof (cases "x < t")
    case True
    then have later: "\<forall>g \<in> set fs. x < fst g" using Cons.prems f by fastforce
    then have "filter (\<lambda>f. x < fst f) fs = fs" "filter (\<lambda>f. fst f \<le> x) fs = []"
      by (auto simp: filter_id_conv filter_empty_conv)
    with True show ?thesis by (simp add: f coming_def due_def)
  next
    case False
    with Cons show ?thesis by (simp add: f coming_def due_def)
  qed
qed (simp add: coming_def due_def)

section \<open>One motion\<close>

definition elapsed_in :: "motion \<Rightarrow> monotonic_time \<Rightarrow> duration" where
  "elapsed_in m now = now - mo_started_at m"

lemma advance_motion_eq:
  fixes m now
  assumes "\<not> mo_finished_on_previous_tick m"
  defines "frames \<equiv> coming (elapsed_in m now) (mo_frames m)"
    and "current \<equiv> position_after (mo_current m) (due (elapsed_in m now) (mo_frames m))"
  shows "fst (advance_motion now m) =
    (if frames \<noteq> [] then Some (m\<lparr>mo_frames := frames, mo_current := current\<rparr>)
     else if mo_phase m = ExitPhase
       then Some (m\<lparr>mo_frames := [], mo_current := current, mo_finished_on_previous_tick := True\<rparr>)
     else None)"
  using assms by (auto simp: advance_motion_def pop_frames_eq elapsed_in_def Let_def split: motion_phase.split)

text \<open>
  Advancing a motion moves it to the last of its frames that is due and keeps the later
  ones; how often it is advanced on the way does not matter. When the last frame is reached an
  entering motion is over, and a leaving one stays for exactly one more tick at its last position;
  a pause shifts its start, so that as much of it has elapsed after the pause as before.
\<close>

theorem motion_advance_correct:
  assumes "\<not> mo_finished_on_previous_tick m" and "sorted_wrt (<) (map fst (mo_frames m))"
    and "mo_started_at m \<le> t1" and "t1 \<le> t2" and "t2 \<le> duration_max"
  shows "(\<forall>m1. fst (advance_motion t1 m) = Some m1 \<longrightarrow>
        mo_frames m1 = filter (\<lambda>f. elapsed_in m t1 < fst f) (mo_frames m)
        \<and> mo_current m1 = last (mo_current m # map snd (filter (\<lambda>f. fst f \<le> elapsed_in m t1) (mo_frames m)))
        \<and> (\<not> mo_finished_on_previous_tick m1 \<longrightarrow> fst (advance_motion t2 m1) = fst (advance_motion t2 m)))
    \<and> (fst (advance_motion t1 m) = None \<longleftrightarrow>
         mo_phase m \<noteq> ExitPhase \<and> (\<forall>f \<in> set (mo_frames m). fst f \<le> elapsed_in m t1))
    \<and> (mo_phase m = ExitPhase \<and> (\<forall>f \<in> set (mo_frames m). fst f \<le> elapsed_in m t1) \<longrightarrow>
         (\<exists>m1. fst (advance_motion t1 m) = Some m1
            \<and> mo_current m1 = last (mo_current m # map snd (mo_frames m)) \<and> advance_motion t2 m1 = (None, True)))
    \<and> (\<forall>a. an_paused_at a = None \<longrightarrow> (\<forall>(i, m) \<in> set (an_motions a). mo_started_at m \<le> t1) \<longrightarrow>
         an_paused_at (animation_resume t2 (animation_pause t1 a)) = None
         \<and> list_all2 (\<lambda>(i, m) (j, m'). j = i \<and> m' = m\<lparr>mo_started_at := mo_started_at m'\<rparr> \<and> elapsed_in m' t2 = elapsed_in m t1)
             (an_motions a) (an_motions (animation_resume t2 (animation_pause t1 a))))"
proof (intro conjI)
  let ?e1 = "elapsed_in m t1" and ?e2 = "elapsed_in m t2"
  have e: "?e1 \<le> ?e2" using assms(4) by (simp add: elapsed_in_def)
  note parts = due_sorted [OF assms(2)]
  note step = advance_motion_eq [OF assms(1)]
  have all: "coming x (mo_frames m) = [] \<longleftrightarrow> (\<forall>f \<in> set (mo_frames m). fst f \<le> x)" for x
    by (rule due_all [OF assms(2)])
  have whole: "due x (mo_frames m) = mo_frames m" if "\<forall>f \<in> set (mo_frames m). fst f \<le> x" for x
    using that by (auto simp: due_def takeWhile_eq_all_conv)
  show "\<forall>m1. fst (advance_motion t1 m) = Some m1 \<longrightarrow>
        mo_frames m1 = filter (\<lambda>f. ?e1 < fst f) (mo_frames m)
        \<and> mo_current m1 = last (mo_current m # map snd (filter (\<lambda>f. fst f \<le> ?e1) (mo_frames m)))
        \<and> (\<not> mo_finished_on_previous_tick m1 \<longrightarrow> fst (advance_motion t2 m1) = fst (advance_motion t2 m))"
  proof (intro allI impI)
    fix m1
    assume m1: "fst (advance_motion t1 m) = Some m1"
    show "mo_frames m1 = filter (\<lambda>f. ?e1 < fst f) (mo_frames m)
        \<and> mo_current m1 = last (mo_current m # map snd (filter (\<lambda>f. fst f \<le> ?e1) (mo_frames m)))
        \<and> (\<not> mo_finished_on_previous_tick m1 \<longrightarrow> fst (advance_motion t2 m1) = fst (advance_motion t2 m))"
    proof (cases "coming ?e1 (mo_frames m) = []")
      case True
      with m1 step [of t1] parts [of ?e1] show ?thesis by (auto simp: position_after_def split: if_splits)
    next
      case False
      then have eq: "m1 = m\<lparr>mo_frames := coming ?e1 (mo_frames m),
          mo_current := position_after (mo_current m) (due ?e1 (mo_frames m))\<rparr>"
        using m1 step [of t1] by simp
      then have "\<not> mo_finished_on_previous_tick m1" "elapsed_in m1 t2 = ?e2" using assms(1) by (simp_all add: elapsed_in_def)
      from advance_motion_eq [OF this(1), of t2] this(2)
      have "fst (advance_motion t2 m1) = fst (advance_motion t2 m)"
        using step [of t2] due_coming [OF e, of "mo_frames m"] by (simp add: eq position_append)
      with parts [of ?e1] show ?thesis by (simp add: eq position_after_def)
    qed
  qed
  show "fst (advance_motion t1 m) = None \<longleftrightarrow>
      mo_phase m \<noteq> ExitPhase \<and> (\<forall>f \<in> set (mo_frames m). fst f \<le> ?e1)"
    using step [of t1] all [of ?e1] by auto
  show "mo_phase m = ExitPhase \<and> (\<forall>f \<in> set (mo_frames m). fst f \<le> ?e1) \<longrightarrow>
      (\<exists>m1. fst (advance_motion t1 m) = Some m1
        \<and> mo_current m1 = last (mo_current m # map snd (mo_frames m)) \<and> advance_motion t2 m1 = (None, True))"
    using step [of t1] all [of ?e1] whole [of ?e1] by (auto simp: position_after_def advance_motion_def)
  show "\<forall>a. an_paused_at a = None \<longrightarrow> (\<forall>(i, m) \<in> set (an_motions a). mo_started_at m \<le> t1) \<longrightarrow>
      an_paused_at (animation_resume t2 (animation_pause t1 a)) = None
      \<and> list_all2 (\<lambda>(i, m) (j, m'). j = i \<and> m' = m\<lparr>mo_started_at := mo_started_at m'\<rparr> \<and> elapsed_in m' t2 = elapsed_in m t1)
          (an_motions a) (an_motions (animation_resume t2 (animation_pause t1 a)))"
    using assms(4,5) by (auto simp: animation_resume_def animation_pause_def elapsed_in_def sat_add_def
        list.rel_map intro!: list.rel_refl_strong)
qed

definition demo_motion :: motion where
  "demo_motion = \<lparr>mo_started_at = 10, mo_phase = ExitPhase,
     mo_frames = [(0, \<lparr>r_x = 1, r_y = 0, r_width = 42, r_height = 3\<rparr>), (50, \<lparr>r_x = 2, r_y = 0, r_width = 42, r_height = 3\<rparr>)],
     mo_current = \<lparr>r_x = 0, r_y = 0, r_width = 42, r_height = 3\<rparr>, mo_finished_on_previous_tick = False\<rparr>"

lemma motion_advance_correct_witness:
  "\<exists>m1. fst (advance_motion 60 demo_motion) = Some m1 \<and> r_x (mo_current m1) = 2 \<and> advance_motion 70 m1 = (None, True)"
proof -
  have "mo_phase demo_motion = ExitPhase \<and> (\<forall>f \<in> set (mo_frames demo_motion). fst f \<le> elapsed_in demo_motion 60)"
    by (simp add: demo_motion_def elapsed_in_def)
  moreover have "r_x (last (mo_current demo_motion # map snd (mo_frames demo_motion))) = 2"
    by (simp add: demo_motion_def)
  moreover have "\<not> mo_finished_on_previous_tick demo_motion" "sorted_wrt (<) (map fst (mo_frames demo_motion))"
    "mo_started_at demo_motion \<le> 60" "(70 :: nat) \<le> duration_max" "(60 :: nat) \<le> 70"
    by (simp_all add: demo_motion_def duration_max_def)
  ultimately show ?thesis using motion_advance_correct [of demo_motion 60 70] by fastforce
qed

end
