(* ===== verification/Reconciler_Props.thy ===== *)
theory Reconciler_Props
  imports Reconciler Scheduler_Props Tmux_Backend_Props
begin

text \<open>
  The tick of the reconciler: it never panics, keeps its invariant and that of the scheduler, and
  leaves the display available exactly when some window shows it; the backoff of reconnections; the
  giving up of what no window can show; motions and their pauses; the identity of planned displays.
\<close>

section \<open>Views\<close>

definition view :: "(window_reconciler \<Rightarrow> bool) \<Rightarrow> (scheduler \<Rightarrow> bool) \<Rightarrow> 'b daemon_view \<Rightarrow> bool" where
  "view R S v \<longleftrightarrow> R (dv_reconciler v) \<and> S (dv_scheduler v)"

lemma view_fixed:
  "view (\<lambda>r. r = a \<and> R r) (\<lambda>s. s = b \<and> S s) v \<longleftrightarrow> dv_reconciler v = a \<and> R a \<and> dv_scheduler v = b \<and> S b"
  by (auto simp: view_def)

lemma triple_reconciler:
  "(\<And>r. R r \<Longrightarrow> R' (f r)) \<Longrightarrow> triple (view R S) (on_reconciler f) (\<lambda>_. view R' S) E"
  unfolding on_reconciler_def by (rule triple_modify) (simp add: view_def)

lemma triple_ask: "triple (view R S) (ask_backend f) (\<lambda>_. view R S) E"
  by (auto simp: triple_def ask_backend_def view_def split: prod.split)

lemma triple_ask_then:
  "(\<And>a. triple (view R S) (g a) Q E) \<Longrightarrow> triple (view R S) (bind_op (ask_backend f) g) Q E"
  by (rule triple_bind [OF triple_ask])

lemma triple_now: "(\<And>v. P v \<Longrightarrow> triple P (f v) Q E) \<Longrightarrow> triple P (with_state f) Q E"
  by (simp add: triple_def with_state_def)

lemma triple_now_view:
  assumes "\<And>v. R (dv_reconciler v) \<Longrightarrow> S (dv_scheduler v) \<Longrightarrow>
    triple (view (\<lambda>r. r = dv_reconciler v \<and> R r) (\<lambda>s. s = dv_scheduler v \<and> S s)) (f v) Q E"
  shows "triple (view R S) (with_state f) Q E"
  using assms by (fastforce simp: triple_def with_state_def view_def)

text \<open>The scheduler at a time, with Notifications known to be gone.\<close>

definition sched_at :: "monotonic_time \<Rightarrow> notification_id set \<Rightarrow> scheduler \<Rightarrow> bool" where
  "sched_at now F s \<longleftrightarrow> wf_sched s \<and> last_now s = now \<and> (\<forall>i \<in> F. entries s i = None)"

definition sched_shown :: "monotonic_time \<Rightarrow> notification_id set \<Rightarrow> bool \<Rightarrow> scheduler \<Rightarrow> bool" where
  "sched_shown now F a s \<longleftrightarrow> sched_at now F s \<and> display_available s = a"

definition backwards :: "(window_reconciler \<Rightarrow> bool) \<Rightarrow> reconcile_error \<Rightarrow> 'b daemon_view \<Rightarrow> bool" where
  "backwards R e v \<longleftrightarrow> e = ReconcileScheduler TimeWentBackwards \<and> view R wf_sched v"

lemma available_entries_None:
  "entries s i = None \<Longrightarrow> entries (rebalance_spec now w (available_spec a (prepare_spec now w s))) i = None"
  using prepare_dom [of now w s] by (auto simp: rebalance_None frame_simps domIff)

lemma avail_triple:
  "triple (view R wf_sched) (on_scheduler (set_display_available a now w))
     (\<lambda>_. view R (sched_shown now {} a)) (backwards R)"
proof -
  have "wf_sched s \<Longrightarrow> \<not> now < last_now s \<Longrightarrow>
      wf_sched (rebalance_spec now w (available_spec a (prepare_spec now w s)))" for s
    using set_display_available_wf [of s a now w] by (simp add: set_display_available_eq)
  then show ?thesis
    by (auto simp: triple_def view_def on_scheduler_def set_display_available_eq sched_shown_def sched_at_def
        backwards_def frame_simps)
qed

lemma avail_again_triple:
  "triple (view R (sched_at now F)) (on_scheduler (set_display_available a now w))
     (\<lambda>_. view R (sched_shown now F a)) E"
proof -
  have "wf_sched s \<Longrightarrow> last_now s = now \<Longrightarrow>
      wf_sched (rebalance_spec now w (available_spec a (prepare_spec now w s)))" for s
    using set_display_available_wf [of s a now w] by (simp add: set_display_available_eq)
  then show ?thesis
    by (auto simp: triple_def view_def on_scheduler_def set_display_available_eq sched_shown_def sched_at_def
        available_entries_None frame_simps)
qed

section \<open>The invariant and what a tick promises\<close>

definition backoff_ok :: "window_reconciler \<Rightarrow> bool" where
  "backoff_ok r \<longleftrightarrow> INITIAL_RECONNECT_BACKOFF \<le> wr_reconnect_backoff r \<and> wr_reconnect_backoff r \<le> MAX_RECONNECT_BACKOFF"

definition reconciler_ok :: "window_reconciler \<Rightarrow> bool" where
  "reconciler_ok r \<longleftrightarrow> backoff_ok r \<and> bt_ok (wr_retries r)
     \<and> (wr_connected r \<or> wr_successful_windows r = {})
     \<and> (wr_dirty r \<or> wr_successful_windows r \<subseteq> set (eligible_windows (wr_topology r)))"

definition tick_done :: "monotonic_time \<Rightarrow> reconcile_outcome \<Rightarrow> 'b daemon_view \<Rightarrow> bool" where
  "tick_done now out v \<longleftrightarrow>
     (let r = dv_reconciler v; s = dv_scheduler v in
      reconciler_ok r \<and> wf_sched s \<and> last_now s = now
      \<and> oc_visible_windows out = wr_successful_windows r
      \<and> oc_visible_windows out \<subseteq> set (eligible_windows (wr_topology r))
      \<and> display_available s = (oc_visible_windows out \<noteq> {})
      \<and> oc_status out = (if wr_connected r then retry_status r else DisconnectedStatus)
      \<and> (\<not> wr_connected r \<longrightarrow> oc_next_wakeup out = Some (wr_next_reconnect_at r) \<and> oc_visible_windows out = {})
      \<and> (\<forall>i \<in> set (oc_render_failed out). live_notification s i = None))"

lemma reconciler_new_ok: "reconciler_ok (reconciler_new policy now)"
  by (simp add: reconciler_ok_def reconciler_new_def backoff_ok_def INITIAL_RECONNECT_BACKOFF_def
      MAX_RECONNECT_BACKOFF_def from_millis_def from_secs_def)

lemma update_policy_ok: "reconciler_ok r \<Longrightarrow> reconciler_ok (update_policy policy r)"
  by (simp add: reconciler_ok_def update_policy_def backoff_ok_def)

lemma backoff_doubled:
  "backoff_ok r \<Longrightarrow> INITIAL_RECONNECT_BACKOFF \<le> min (sat_mul duration_max (wr_reconnect_backoff r) 2) MAX_RECONNECT_BACKOFF"
  by (simp add: backoff_ok_def sat_mul_def INITIAL_RECONNECT_BACKOFF_def MAX_RECONNECT_BACKOFF_def
      from_millis_def from_secs_def duration_max_def)

lemma disconnect_ok:
  "backoff_ok r \<Longrightarrow> bt_ok (wr_retries r) \<Longrightarrow> reconciler_ok (disconnect now r) \<and> \<not> wr_connected (disconnect now r)"
  using backoff_doubled [of r] by (simp add: reconciler_ok_def disconnect_def backoff_ok_def)

lemma schedule_reconnect_ok:
  "reconciler_ok r \<Longrightarrow> \<not> wr_connected r \<Longrightarrow>
     reconciler_ok (schedule_reconnect now r) \<and> \<not> wr_connected (schedule_reconnect now r)"
  using backoff_doubled [of r] by (simp add: reconciler_ok_def schedule_reconnect_def backoff_ok_def)

lemma record_failure_frame [simp]:
  "wr_connected (record_failure now w r) = wr_connected r"
  "wr_topology (record_failure now w r) = wr_topology r"
  "wr_successful_windows (record_failure now w r) = wr_successful_windows r"
  "wr_dirty (record_failure now w r) = wr_dirty r"
  "wr_reconnect_backoff (record_failure now w r) = wr_reconnect_backoff r"
  "bt_ok (wr_retries r) \<Longrightarrow> bt_ok (wr_retries (record_failure now w r))"
  by (simp_all add: record_failure_def Let_def bt_insert_ok)

lemma record_failures_frame [simp]:
  "wr_connected (fold (record_failure now) ws r) = wr_connected r"
  "wr_topology (fold (record_failure now) ws r) = wr_topology r"
  "wr_successful_windows (fold (record_failure now) ws r) = wr_successful_windows r"
  "wr_dirty (fold (record_failure now) ws r) = wr_dirty r"
  "wr_reconnect_backoff (fold (record_failure now) ws r) = wr_reconnect_backoff r"
  "bt_ok (wr_retries r) \<Longrightarrow> bt_ok (wr_retries (fold (record_failure now) ws r))"
  by (induction ws arbitrary: r) simp_all

lemma apply_window_report_frame [simp]:
  "wr_connected (apply_window_report d rep now w r) = wr_connected r"
  "wr_topology (apply_window_report d rep now w r) = wr_topology r"
  "wr_dirty (apply_window_report d rep now w r) = wr_dirty r"
  "wr_reconnect_backoff (apply_window_report d rep now w r) = wr_reconnect_backoff r"
  "bt_ok (wr_retries r) \<Longrightarrow> bt_ok (wr_retries (apply_window_report d rep now w r))"
  by (auto simp: apply_window_report_def bt_remove_ok)

lemma apply_window_report_successful:
  "wr_successful_windows (apply_window_report d rep now w r) \<subseteq> insert w (wr_successful_windows r)"
  by (auto simp: apply_window_report_def)

lemma apply_window_reports_frame:
  "wr_connected (fold (apply_window_report d rep now) ws r) = wr_connected r
   \<and> wr_topology (fold (apply_window_report d rep now) ws r) = wr_topology r
   \<and> wr_reconnect_backoff (fold (apply_window_report d rep now) ws r) = wr_reconnect_backoff r
   \<and> (bt_ok (wr_retries r) \<longrightarrow> bt_ok (wr_retries (fold (apply_window_report d rep now) ws r)))
   \<and> wr_successful_windows (fold (apply_window_report d rep now) ws r) \<subseteq> set ws \<union> wr_successful_windows r"
proof (induction ws arbitrary: r)
  case (Cons w ws)
  show ?case
    using Cons.IH [of "apply_window_report d rep now w r"] apply_window_report_successful [of d rep now w r]
    by (auto simp del: not_None_eq) 
qed simp

lemma apply_report_ok:
  fixes d rep now r
  assumes "backoff_ok r" and "bt_ok (wr_retries r)" and "wr_connected r" and "eligible = eligible_windows (wr_topology r)"
  defines "r' \<equiv> (apply_report eligible d rep now r)\<lparr>wr_dirty := False\<rparr>"
  shows "reconciler_ok r' \<and> wr_connected r' \<and> wr_topology r' = wr_topology r \<and> \<not> wr_dirty r'"
  using assms(1-3) apply_window_reports_frame [of d rep now eligible
      "r\<lparr>wr_successful_windows := wr_successful_windows r \<inter> set eligible\<rparr>"]
  unfolding r'_def apply_report_def by (auto simp: reconciler_ok_def backoff_ok_def assms(4))

section \<open>The parts of a tick\<close>

definition linked :: "window_reconciler \<Rightarrow> bool" where
  "linked r \<longleftrightarrow> reconciler_ok r \<and> wr_connected r"

definition unlinked :: "window_reconciler \<Rightarrow> bool" where
  "unlinked r \<longleftrightarrow> reconciler_ok r \<and> \<not> wr_connected r"

lemma linkedD: "linked r \<Longrightarrow> backoff_ok r" "linked r \<Longrightarrow> bt_ok (wr_retries r)" "linked r \<Longrightarrow> reconciler_ok r" "linked r \<Longrightarrow> wr_connected r"
  by (simp_all add: linked_def reconciler_ok_def)

lemma disconnect_unlinked: "linked r \<Longrightarrow> unlinked (disconnect now r)"
  using disconnect_ok [OF linkedD(1,2)] by (simp add: unlinked_def)

lemma view_mono: "view R S v \<Longrightarrow> (\<And>r. R r \<Longrightarrow> R' r) \<Longrightarrow> (\<And>s. S s \<Longrightarrow> S' s) \<Longrightarrow> view R' S' v"
  by (simp add: view_def)

lemma drain_events_triple:
  "triple (view linked S) (drain_events env now n) (\<lambda>_. view reconciler_ok S) E"
proof (induction n)
  case 0
  show ?case by (auto intro!: triple_ret simp: view_def linkedD)
next
  case (Suc n)
  have gone: "triple (view linked S) (on_reconciler (disconnect now)) (\<lambda>_. view reconciler_ok S) E"
    by (rule triple_reconciler) (use disconnect_unlinked in \<open>simp add: unlinked_def\<close>)
  have changed: "triple (view linked S)
      (then_op (on_reconciler (\<lambda>r. r\<lparr>wr_dirty := True, wr_retries := []\<rparr>)) (drain_events env now n))
      (\<lambda>_. view reconciler_ok S) E"
    by (rule triple_then [OF triple_reconciler Suc]) (simp add: linked_def reconciler_ok_def backoff_ok_def)
  have none: "triple (view linked S) (ret ()) (\<lambda>_. view reconciler_ok S) E"
    by (rule triple_ret) (simp add: view_def linkedD)
  show ?case
    unfolding drain_events.simps
  proof (rule triple_ask_then)
    fix event
    show "triple (view linked S) (case event of Inl _ \<Rightarrow> on_reconciler (disconnect now) | Inr None \<Rightarrow> ret ()
      | Inr (Some Disconnected) \<Rightarrow> on_reconciler (disconnect now)
      | Inr (Some TopologyChanged) \<Rightarrow>
           then_op (on_reconciler (\<lambda>r. r\<lparr>wr_dirty := True, wr_retries := []\<rparr>)) (drain_events env now n))
      (\<lambda>_. view reconciler_ok S) E"
      using gone changed none by (simp split: sum.split option.split tmux_event.split)
  qed
qed

lemma outcome_status:
  "oc_status (reconciler_outcome r st f) = st" "oc_visible_windows (reconciler_outcome r st f) = wr_successful_windows r"
  "oc_render_failed (reconciler_outcome r st f) = f"
  "\<not> wr_connected r \<Longrightarrow> oc_next_wakeup (reconciler_outcome r st f) = Some (wr_next_reconnect_at r)"
  by (simp_all add: reconciler_outcome_def)

lemma outcome_triple:
  assumes "\<And>r s. R r \<Longrightarrow> S s \<Longrightarrow> reconciler_ok r \<and> wf_sched s \<and> last_now s = now
    \<and> wr_successful_windows r \<subseteq> set (eligible_windows (wr_topology r))
    \<and> display_available s = (wr_successful_windows r \<noteq> {})
    \<and> st r = (if wr_connected r then retry_status r else DisconnectedStatus)
    \<and> (\<forall>i \<in> set failed. entries s i = None)"
  shows "triple (view R S) (with_state (\<lambda>v. report_outcome (st (dv_reconciler v)) failed)) (tick_done now) E"
  using assms by (fastforce simp: triple_def view_def with_state_def report_outcome_def ret_def tick_done_def Let_def
      outcome_status reconciler_ok_def live_notification_def)

lemma retries_outcome:
  assumes "\<And>r. R r \<Longrightarrow> linked r \<and> \<not> wr_dirty r"
  shows "triple (\<lambda>v. view R (sched_shown now (set failed) (wr_successful_windows (dv_reconciler v) \<noteq> {})) v)
    (report_retries failed) (tick_done now) E"
  using assms by (fastforce simp: triple_def view_def with_state_def report_outcome_def ret_def tick_done_def Let_def
      outcome_status reconciler_ok_def live_notification_def report_retries_def linked_def sched_shown_def sched_at_def)

lemma with_state_const: "with_state (\<lambda>_. m) = m"
  by (simp add: with_state_def fun_eq_iff)

lemma disconnected_outcome:
  "triple (view unlinked (sched_shown now F False)) (report_outcome DisconnectedStatus []) (tick_done now) E"
proof -
  have "triple (view unlinked (sched_shown now F False))
      (with_state (\<lambda>v. report_outcome ((\<lambda>_. DisconnectedStatus) (dv_reconciler v)) [])) (tick_done now) E"
    by (rule outcome_triple) (auto simp: unlinked_def reconciler_ok_def sched_shown_def sched_at_def)
  then show ?thesis by (simp only: with_state_const)
qed

lemma report_disconnected_triple:
  "triple (view unlinked wf_sched) (report_disconnected now wall)
     (\<lambda>early v. \<exists>out. early = Some out \<and> tick_done now out v) (backwards unlinked)"
  unfolding report_disconnected_def
  by (rule triple_then [OF avail_triple])
    (rule triple_bind [OF disconnected_outcome], rule triple_ret, simp)

definition ready :: "reconcile_outcome option \<Rightarrow> 'b daemon_view \<Rightarrow> bool" where
  "ready early v \<longleftrightarrow> early = None \<and> view linked wf_sched v"

lemma backwards_mono: "backwards R e v \<Longrightarrow> (\<And>r. R r \<Longrightarrow> R' r) \<Longrightarrow> backwards R' e v"
  by (simp add: backwards_def view_def)

lemma refresh_topology_triple:
  "triple (view reconciler_ok wf_sched) (refresh_topology env now wall)
     (\<lambda>early v. (\<exists>out. early = Some out \<and> tick_done now out v) \<or> ready early v) (backwards reconciler_ok)"
  unfolding refresh_topology_def
proof (rule triple_now_view)
  fix v :: "'b daemon_view"
  assume ok: "reconciler_ok (dv_reconciler v)" and wf: "wf_sched (dv_scheduler v)"
  let ?R = "\<lambda>r. r = dv_reconciler v \<and> reconciler_ok r" and ?S = "\<lambda>s. s = dv_scheduler v \<and> wf_sched s"
  let ?Q = "\<lambda>early v. (\<exists>out. early = Some out \<and> tick_done now out v) \<or> ready early v"
  note lost = triple_conseq [OF report_disconnected_triple, where Q = ?Q and E = "backwards reconciler_ok"]
  have go: "triple (view linked wf_sched) (ret None) ?Q (backwards reconciler_ok)"
    by (rule triple_ret) (simp add: ready_def)
  have lose: "triple (view ?R ?S) (then_op (on_reconciler f) (report_disconnected now wall)) ?Q (backwards reconciler_ok)"
    if "unlinked (f (dv_reconciler v))" for f
    by (rule triple_then [OF triple_reconciler [where R' = unlinked]])
      (use that in \<open>auto intro!: lost simp: view_def unlinked_def backwards_def\<close>)
  have take: "triple (view ?R ?S) (then_op (on_reconciler f) (ret None)) ?Q (backwards reconciler_ok)"
    if "linked (f (dv_reconciler v))" for f
    by (rule triple_then [OF triple_reconciler [where R' = linked]])
      (use that in \<open>auto intro!: triple_ret simp: view_def ready_def\<close>)
  show "triple (view ?R ?S)
    (let r = dv_reconciler v in
     if \<not> wr_connected r then
       if now < wr_next_reconnect_at r then report_disconnected now wall
       else bind_op (ask_backend (re_topology env)) (\<lambda>res.
         case res of
           Inr t \<Rightarrow>
             then_op (on_reconciler (\<lambda>r. r\<lparr>wr_topology := t, wr_connected := True,
               wr_animation := animation_resume now (wr_animation r), wr_dirty := True, wr_retries := [],
               wr_reconnect_backoff := INITIAL_RECONNECT_BACKOFF\<rparr>)) (ret None)
         | Inl _ \<Rightarrow> then_op (on_reconciler (schedule_reconnect now)) (report_disconnected now wall))
     else if wr_dirty r then
       bind_op (ask_backend (re_topology env)) (\<lambda>res.
         case res of
           Inr t \<Rightarrow>
             then_op (on_reconciler (\<lambda>r. if t \<noteq> wr_topology r then r\<lparr>wr_topology := t, wr_retries := []\<rparr> else r)) (ret None)
         | Inl _ \<Rightarrow> then_op (on_reconciler (disconnect now)) (report_disconnected now wall))
     else ret None) ?Q (backwards reconciler_ok)"
  proof (cases "wr_connected (dv_reconciler v)")
    case False
    show ?thesis
    proof (cases "now < wr_next_reconnect_at (dv_reconciler v)")
      case True
      have "triple (view ?R ?S) (report_disconnected now wall) ?Q (backwards reconciler_ok)"
        by (rule lost) (use False in \<open>auto simp: view_def unlinked_def backwards_def\<close>)
      with True False show ?thesis by (simp add: Let_def)
    next
      case later: False
      have "linked ((dv_reconciler v)\<lparr>wr_topology := t, wr_connected := True,
          wr_animation := animation_resume now (wr_animation (dv_reconciler v)), wr_dirty := True, wr_retries := [],
          wr_reconnect_backoff := INITIAL_RECONNECT_BACKOFF\<rparr>)" for t
        by (simp add: linked_def reconciler_ok_def backoff_ok_def INITIAL_RECONNECT_BACKOFF_def
            MAX_RECONNECT_BACKOFF_def from_millis_def from_secs_def)
      moreover have "unlinked (schedule_reconnect now (dv_reconciler v))"
        using schedule_reconnect_ok [OF ok False] by (simp add: unlinked_def)
      ultimately show ?thesis
        using False later by (auto simp: Let_def intro!: triple_ask_then take lose split: sum.split)
    qed
  next
    case True
    then have linked: "linked (dv_reconciler v)" using ok by (simp add: linked_def)
    show ?thesis
    proof (cases "wr_dirty (dv_reconciler v)")
      case dirty: True
      have "linked (if t \<noteq> wr_topology (dv_reconciler v)
          then (dv_reconciler v)\<lparr>wr_topology := t, wr_retries := []\<rparr> else dv_reconciler v)" for t
        using linked dirty by (simp add: linked_def reconciler_ok_def backoff_ok_def)
      with disconnect_unlinked [OF linked] show ?thesis
        using True dirty by (auto simp: Let_def intro!: triple_ask_then take lose split: sum.split)
    next
      case False
      with True linked show ?thesis by (auto intro!: triple_ret simp: view_def ready_def wf)
    qed
  qed
qed

lemma retry_reset_linked: "linked r \<Longrightarrow> linked (r\<lparr>wr_retries := []\<rparr>)"
  by (simp add: linked_def reconciler_ok_def backoff_ok_def)

lemma failures_linked: "linked r \<Longrightarrow> linked (fold (record_failure now) ws r)"
  by (simp add: linked_def reconciler_ok_def backoff_ok_def)

lemma finish_triple:
  "triple (view linked (sched_shown now {} False))
     (then_op (on_reconciler (\<lambda>r. r\<lparr>wr_successful_windows := {}, wr_dirty := False\<rparr>)) (report_retries []))
     (tick_done now) E"
proof (rule triple_then [OF triple_reconciler])
  let ?R = "\<lambda>r. linked r \<and> wr_successful_windows r = {} \<and> \<not> wr_dirty r"
  fix r
  assume "linked r"
  then show "?R (r\<lparr>wr_successful_windows := {}, wr_dirty := False\<rparr>)"
    by (simp add: linked_def reconciler_ok_def backoff_ok_def)
next
  let ?R = "\<lambda>r. linked r \<and> wr_successful_windows r = {} \<and> \<not> wr_dirty r"
  show "triple (view ?R (sched_shown now {} False)) (report_retries []) (tick_done now) E"
    by (rule triple_conseq [OF retries_outcome [where R = ?R and failed = "[]"]]) (auto simp: view_def)
qed

lemma tick_without_windows_triple:
  "triple (view linked wf_sched) (tick_without_windows env now wall) (tick_done now) (backwards linked)"
  unfolding tick_without_windows_def Let_def
proof (rule triple_then [OF triple_reconciler [where R' = linked]], goal_cases)
  case (1 r)
  then show ?case by (simp add: linked_def reconciler_ok_def backoff_ok_def)
next
  case 2
  let ?S = "sched_shown now {} False"
  let ?fin = "then_op (on_reconciler (\<lambda>r. r\<lparr>wr_successful_windows := {}, wr_dirty := False\<rparr>)) (report_retries [])"
  have fin: "triple (view linked ?S) ?fin (tick_done now) (backwards linked)" by (rule finish_triple)
  have noted: "triple (view linked ?S)
      (then_op (on_reconciler (\<lambda>r. if rp_failed rep = Map.empty then r\<lparr>wr_retries := []\<rparr>
         else fold (record_failure now) (failed_windows rep) r)) ?fin) (tick_done now) (backwards linked)" for rep
    by (rule triple_then [OF triple_reconciler fin]) (simp add: retry_reset_linked failures_linked)
  have lost: "triple (view linked ?S)
      (then_op (on_reconciler (disconnect now)) (report_outcome DisconnectedStatus [])) (tick_done now) (backwards linked)"
    by (rule triple_then [OF triple_reconciler disconnected_outcome]) (rule disconnect_unlinked)
  have "triple (view linked ?S)
      (if c then bind_op (ask_backend (re_reconcile env [])) (\<lambda>res.
             case res of
               Inr rep \<Rightarrow>
                 then_op (on_reconciler (\<lambda>r. if rp_failed rep = Map.empty then r\<lparr>wr_retries := []\<rparr>
                   else fold (record_failure now) (failed_windows rep) r)) ?fin
             | Inl _ \<Rightarrow> then_op (on_reconciler (disconnect now)) (report_outcome DisconnectedStatus []))
       else ?fin) (tick_done now) (backwards linked)" for c
    using fin noted lost by (cases c) (auto intro!: triple_ask_then split: sum.split)
  then show ?case by (intro triple_then [OF avail_triple] triple_now)
qed

section \<open>Projecting\<close>

lemma plan_ids_live:
  assumes "wf_sched s"
  shows "\<forall>i \<in> set (desired_notification_ids (scheduler_display_plan s)). live_notification s i \<noteq> None"
  using wf_core_located [OF wf_sched_core [OF assms]]
  by (auto simp: desired_notification_ids_def scheduler_display_plan_def live_notification_def split: option.splits if_splits)

lemma place_toasts_returns:
  "\<forall>i \<in> set ids. live_notification sch i \<noteq> None \<Longrightarrow>
     \<exists>ps. place_toasts env policy sch w extent width height stride initial slots z ids = Some ps"
proof (induction ids arbitrary: slots z)
  case (Cons i ids)
  let ?p = "placement_index (toast_placement sch policy i)"
  from Cons.prems obtain c where c: "renderer_content_for sch i policy = Some c" by (auto simp: renderer_content_for_def)
  from Cons obtain ps where
    "place_toasts env policy sch w extent width height stride initial (slots[?p := slots ! ?p + 1]) (z + 1) ids = Some ps"
    by fastforce
  with c show ?case by (simp add: Let_def)
qed simp

lemma chosen_toasts_subset: "set (chosen_toasts policy extent ids) \<subseteq> set ids"
  using set_take_subset [of _ ids] set_take_subset [of _ "rev ids"]
  by (auto simp: chosen_toasts_def split: stack_order.split)

lemma plan_window_returns:
  assumes "\<forall>i \<in> set (desired_notification_ids splan). live_notification sch i \<noteq> None"
  shows "\<exists>x. plan_window env r sch splan initial w = Some x"
proof (cases "dp_attention splan")
  case None
  have live: "\<forall>i \<in> set (chosen_toasts policy extent (dp_toasts splan)). live_notification sch i \<noteq> None" for policy extent
    using assms chosen_toasts_subset [of policy extent "dp_toasts splan"] by (auto simp: desired_notification_ids_def)
  have "\<exists>ps. planned_toasts env policy sch w (dp_toasts splan) extent initial = Some ps" for policy extent
    unfolding planned_toasts_def using place_toasts_returns [OF live] by (auto simp del: not_None_eq)
  with None show ?thesis by (auto simp: plan_window_def Let_def)
next
  case (Some i)
  with assms show ?thesis
    by (auto simp: plan_window_def Let_def renderer_content_for_def desired_notification_ids_def)
qed

lemma plan_windows_returns:
  assumes "\<forall>i \<in> set (desired_notification_ids splan). live_notification sch i \<noteq> None"
  shows "\<exists>x. plan_windows env r sch splan initial ws plan metadata = Some x"
proof (induction ws arbitrary: plan metadata)
  case (Cons w ws)
  obtain ds ms where "plan_window env r sch splan initial w = Some (ds, ms)"
    using plan_window_returns [OF assms] by fast
  with Cons.IH show ?case by simp
qed simp

lemma plan_frames_returns: "plan_frames fl tracks fps enabled \<noteq> None"
proof (cases "tracks = [] \<or> fps = 0")
  case False
  then obtain ms where "frame_times tracks (min fps MAX_ANIMATION_FPS) enabled = Some ms"
    using frame_times_spec [of "min fps MAX_ANIMATION_FPS" tracks enabled thesis] by (auto simp: MAX_ANIMATION_FPS_def)
  with False show ?thesis by (auto simp: plan_frames_def)
qed (simp add: plan_frames_def)

lemma animation_start_returns: "animation_start fl specs fps now a \<noteq> None"
  using plan_frames_returns [of fl "map track_of_spec specs" fps True] by (auto simp: animation_start_def)

lemma update_animations_returns: "\<exists>a. update_animations env sch target metadata now r = Some (r\<lparr>wr_animation := a\<rparr>)"
  using animation_start_returns by (fastforce simp: update_animations_def Let_def split: prod.split)

lemma build_plan_returns:
  assumes "wf_sched sch"
  shows "\<exists>plan metadata. build_plan env sch (scheduler_display_plan sch) eligible r =
    Some (plan, metadata, r\<lparr>wr_projected_notifications :=
      wr_projected_notifications r \<union> set (desired_notification_ids (scheduler_display_plan sch))\<rparr>)"
  using plan_windows_returns [OF plan_ids_live [OF assms]]
  by (fastforce simp: build_plan_def Let_def split: option.split)

definition bound_to :: "window_id list \<Rightarrow> window_reconciler \<Rightarrow> bool" where
  "bound_to eligible r \<longleftrightarrow> linked r \<and> eligible = eligible_windows (wr_topology r)"

lemma project_eq:
  assumes "view (bound_to eligible) (sched_shown now F a) v"
  obtains desired r where "project env eligible now v = (Inr desired, v\<lparr>dv_reconciler := r\<rparr>)" "bound_to eligible r"
proof -
  let ?sch = "dv_scheduler v" and ?r = "dv_reconciler v"
  define r1 where "r1 = (if content_revision ?sch \<noteq> wr_content_revision ?r
    then ?r\<lparr>wr_content_revision := content_revision ?sch, wr_retries := [], wr_dirty := True\<rparr> else ?r)"
  have r1: "bound_to eligible r1"
    using assms by (simp add: view_def bound_to_def linked_def reconciler_ok_def backoff_ok_def r1_def)
  define ids where "ids = set (desired_notification_ids (scheduler_display_plan ?sch))"
  obtain plan metadata where plan: "build_plan env ?sch (scheduler_display_plan ?sch) eligible r1 =
      Some (plan, metadata, r1\<lparr>wr_projected_notifications := wr_projected_notifications r1 \<union> ids\<rparr>)"
    using build_plan_returns [of ?sch env eligible r1] assms
    unfolding ids_def by (auto simp: view_def sched_shown_def sched_at_def)
  define r2 where "r2 = r1\<lparr>wr_projected_notifications := wr_projected_notifications r1 \<union> ids\<rparr>"
  obtain a where a: "update_animations env ?sch plan metadata now r2 = Some (r2\<lparr>wr_animation := a\<rparr>)"
    using update_animations_returns by blast
  obtain changed a' where adv: "animation_advance now a = (changed, a')" by force
  define r4 where "r4 = r2\<lparr>wr_animation := a', wr_dirty := (wr_dirty r2 \<or> plan \<noteq> wr_target_plan r2 \<or> changed),
    wr_target_plan := clear_enter_hints plan, wr_target_metadata := metadata\<rparr>"
  have "bound_to eligible r4"
    using r1 by (auto simp: bound_to_def linked_def reconciler_ok_def backoff_ok_def r2_def r4_def)
  moreover have "project env eligible now v = (Inr (animation_apply env a' plan), v\<lparr>dv_reconciler := r4\<rparr>)"
    unfolding project_def with_state_def Let_def r1_def [symmetric]
    by (simp add: plan a adv r2_def [symmetric])
      (simp add: r4_def then_op_def bind_op_def on_reconciler_def modify_def ret_def)
  ultimately show thesis by (intro that)
qed

lemma project_triple:
  "triple (view (bound_to eligible) (sched_shown now F a)) (project env eligible now)
     (\<lambda>_. view (bound_to eligible) (sched_shown now F a)) E"
  unfolding triple_def
proof (intro allI impI)
  fix v :: "'a daemon_view"
  assume v: "view (bound_to eligible) (sched_shown now F a) v"
  from project_eq [OF this, of env] obtain d r where
    "project env eligible now v = (Inr d, v\<lparr>dv_reconciler := r\<rparr>)" "bound_to eligible r" by blast
  with v show "case project env eligible now v of (Inl Panic, _) \<Rightarrow> False | (Inl (Fail e), s') \<Rightarrow> E e s'
      | (Inr _, s') \<Rightarrow> view (bound_to eligible) (sched_shown now F a) s'"
    by (simp add: view_def)
qed

section \<open>Giving up\<close>

lemma render_failed_step:
  assumes "sched_at now F s"
  obtains (gone) s' where "render_failed i now w s = (Inl (Fail NotificationNotLive), s')" "sched_at now F s'"
  | (closed) s' where "render_failed i now w s = (Inr (), s')" "sched_at now (insert i F) s'"
proof -
  let ?p = "prepare_spec now w s"
  let ?c = "rebalance_spec now w (close_inner i RenderFailed w ?p)"
  have s: "wf_sched s" "last_now s = now" "\<forall>i \<in> F. entries s i = None" using assms by (simp_all add: sched_at_def)
  have p: "wf_sched ?p" "last_now ?p = now" using s by (simp_all add: prepare_spec_wf frame_simps)
  have none: "entries ?p i = None" if "i \<in> F" for i
    using s(3) that prepare_dom [of now w s] by (auto simp: domIff)
  have "wf_sched ?c" by (rule close_state_wf [OF p])
  then have c: "sched_at now (insert i F) ?c"
    using none p(2) by (auto simp: sched_at_def rebalance_None close_inner_entries frame_simps)
  have eq: "render_failed i now w s =
      (if entries ?p i = None then (Inl (Fail NotificationNotLive), ?p) else (Inr (), ?c))"
    using s(1,2) by (simp add: render_failed_def close_eq Let_def)
  show thesis
  proof (cases "entries ?p i = None")
    case True
    then show ?thesis using eq p none by (intro gone [of ?p]) (simp_all add: sched_at_def)
  next
    case False
    then show ?thesis using eq c by (intro closed [of ?c]) simp_all
  qed
qed

lemma give_up_triple:
  "triple (view R (sched_at now F)) (give_up now w ids) (\<lambda>failed. view R (sched_at now (set failed \<union> F))) E"
proof (induction ids arbitrary: F)
  case Nil
  show ?case by (auto intro!: triple_ret)
next
  case (Cons i ids)
  show ?case
    unfolding triple_def
  proof (intro allI impI)
    fix v :: "'a daemon_view"
    assume v: "view R (sched_at now F) v"
    then have at: "sched_at now F (dv_scheduler v)" by (simp add: view_def)
    let ?go = "\<lambda>s. give_up now w ids (v\<lparr>dv_scheduler := s\<rparr>)"
    have IH: "case ?go s of (Inl Panic, _) \<Rightarrow> False | (Inl (Fail e), v') \<Rightarrow> E e v'
        | (Inr failed, v') \<Rightarrow> view R (sched_at now (set failed \<union> G)) v'" if "sched_at now G s" for s G
      by (rule tripleD [OF Cons.IH]) (use v that in \<open>simp add: view_def\<close>)
    show "case give_up now w (i # ids) v of (Inl Panic, _) \<Rightarrow> False | (Inl (Fail e), v') \<Rightarrow> E e v'
        | (Inr failed, v') \<Rightarrow> view R (sched_at now (set failed \<union> F)) v'"
    proof (rule render_failed_step [OF at, of i w], goal_cases)
      case (1 s')
      with IH [of F s'] show ?case by simp
    next
      case (2 s')
      with IH [of "insert i F" s'] show ?case
        by (auto simp: bind_op_def ret_def split: prod.splits sum.splits fault.splits)
    qed
  qed
qed

definition settled_on :: "window_id list \<Rightarrow> window_reconciler \<Rightarrow> bool" where
  "settled_on eligible r \<longleftrightarrow> bound_to eligible r \<and> \<not> wr_dirty r"

lemma settled_on_fields: "settled_on e r \<Longrightarrow> settled_on e (r\<lparr>wr_retries := []\<rparr>)"
  "settled_on e r \<Longrightarrow> settled_on e (r\<lparr>wr_projected_notifications := P\<rparr>)"
  by (auto simp: settled_on_def bound_to_def linked_def reconciler_ok_def backoff_ok_def)

lemma keep_live_triple:
  assumes "\<And>r P. R r \<Longrightarrow> R (r\<lparr>wr_projected_notifications := P\<rparr>)"
  shows "triple (view R S) keep_live_projected (\<lambda>_. view R S) E"
  unfolding keep_live_projected_def by (rule triple_modify) (use assms in \<open>simp add: view_def\<close>)

lemma give_up_exhausted_triple:
  "triple (view (settled_on e) (sched_at now {})) (give_up_exhausted env splan desired now w)
     (\<lambda>failed. view (settled_on e) (sched_at now (set failed))) E"
proof -
  have "triple (view (settled_on e) (sched_at now {}))
      (bind_op (give_up now w (desired_notification_ids splan)) (\<lambda>failed.
       bind_op (ask_backend (re_reconcile env [])) (\<lambda>_.
       then_op (on_reconciler (\<lambda>r. r\<lparr>wr_retries := []\<rparr>)) (then_op keep_live_projected (ret failed)))))
      (\<lambda>failed. view (settled_on e) (sched_at now (set failed))) E"
  proof (rule triple_bind [OF give_up_triple])
    fix failed
    have "triple (view (settled_on e) (sched_at now (set failed))) (ret failed)
        (\<lambda>failed. view (settled_on e) (sched_at now (set failed))) E"
      by (rule triple_ret)
    then have "triple (view (settled_on e) (sched_at now (set failed)))
      (bind_op (ask_backend (re_reconcile env [])) (\<lambda>_.
       then_op (on_reconciler (\<lambda>r. r\<lparr>wr_retries := []\<rparr>)) (then_op keep_live_projected (ret failed))))
      (\<lambda>failed. view (settled_on e) (sched_at now (set failed))) E"
      by (intro triple_ask_then triple_then [OF triple_reconciler] triple_then [OF keep_live_triple])
        (simp_all add: settled_on_fields)
    then show "triple (view (settled_on e) (sched_at now (set failed \<union> {})))
      (bind_op (ask_backend (re_reconcile env [])) (\<lambda>_.
       then_op (on_reconciler (\<lambda>r. r\<lparr>wr_retries := []\<rparr>)) (then_op keep_live_projected (ret failed))))
      (\<lambda>failed. view (settled_on e) (sched_at now (set failed))) E" by simp
  qed
  moreover have "triple (view (settled_on e) (sched_at now {})) (ret [])
      (\<lambda>failed. view (settled_on e) (sched_at now (set failed))) E"
    by (rule triple_ret) simp
  ultimately show ?thesis unfolding give_up_exhausted_def by (intro triple_now) simp
qed

lemma settle_report_triple:
  "triple (view (settled_on e) (sched_at now (set failed))) (then_op (settle_availability now w) (report_retries failed))
     (tick_done now) E"
proof (rule triple_then)
  let ?Q = "\<lambda>v. view (settled_on e) (sched_shown now (set failed) (wr_successful_windows (dv_reconciler v) \<noteq> {})) v"
  show "triple ?Q (report_retries failed) (tick_done now) E"
    by (rule retries_outcome) (simp add: settled_on_def bound_to_def)
  show "triple (view (settled_on e) (sched_at now (set failed))) (settle_availability now w) (\<lambda>_. ?Q) E"
    unfolding settle_availability_def
  proof (rule triple_now_view)
    fix v :: "'a daemon_view"
    let ?a = "wr_successful_windows (dv_reconciler v) \<noteq> {}"
    let ?R = "\<lambda>r. r = dv_reconciler v \<and> settled_on e r"
    have "triple (view ?R (sched_at now (set failed))) (on_scheduler (set_display_available ?a now w))
        (\<lambda>_. view ?R (sched_shown now (set failed) ?a)) E"
      by (rule avail_again_triple)
    then show "triple (view ?R (\<lambda>s. s = dv_scheduler v \<and> sched_at now (set failed) s))
        (on_scheduler (set_display_available ?a now w)) (\<lambda>_. ?Q) E"
      by (rule triple_conseq) (auto simp: view_def)
  qed
qed

lemma tick_windows_triple:
  "triple (view (bound_to e) wf_sched) (tick_windows env e now w) (tick_done now) (backwards (bound_to e))"
  unfolding tick_windows_def
proof (rule triple_then [OF avail_triple], rule triple_now, goal_cases)
  case (1 v)
  let ?splan = "scheduler_display_plan (dv_scheduler v)"
  let ?S = "sched_shown now {} True"
  let ?E = "backwards (bound_to e)"
  have quiet: "triple (view (settled_on e) (sched_at now {}))
      (then_op (settle_availability now w) (report_retries [])) (tick_done now) ?E"
    using settle_report_triple [where failed = "[]"] by simp
  have lost: "triple (view (bound_to e) ?S)
      (then_op (on_reconciler (disconnect now))
        (then_op (on_scheduler (set_display_available False now w)) (report_outcome DisconnectedStatus [])))
      (tick_done now) ?E"
  proof (rule triple_then [OF triple_reconciler [where R' = unlinked]])
    show "\<And>r. bound_to e r \<Longrightarrow> unlinked (disconnect now r)" by (simp add: bound_to_def disconnect_unlinked)
    have "triple (view unlinked (sched_at now {})) (on_scheduler (set_display_available False now w))
        (\<lambda>_. view unlinked (sched_shown now {} False)) ?E" by (rule avail_again_triple)
    then have "triple (view unlinked ?S) (on_scheduler (set_display_available False now w))
        (\<lambda>_. view unlinked (sched_shown now {} False)) ?E"
      by (rule triple_conseq) (auto simp: view_def sched_shown_def)
    then show "triple (view unlinked ?S)
        (then_op (on_scheduler (set_display_available False now w)) (report_outcome DisconnectedStatus []))
        (tick_done now) ?E"
      by (rule triple_then) (rule disconnected_outcome)
  qed
  have reported: "triple (view (bound_to e) ?S)
      (then_op (on_reconciler (\<lambda>r. (apply_report e desired rep now r)\<lparr>wr_dirty := False\<rparr>))
        (bind_op (give_up_exhausted env ?splan desired now w) (\<lambda>failed.
          then_op (settle_availability now w) (report_retries failed)))) (tick_done now) ?E" for desired rep
  proof (rule triple_then [OF triple_reconciler [where R' = "settled_on e"]])
    show "settled_on e ((apply_report e desired rep now r)\<lparr>wr_dirty := False\<rparr>)" if b: "bound_to e r" for r
    proof -
      have l: "linked r" "e = eligible_windows (wr_topology r)" using b by (simp_all add: bound_to_def)
      show ?thesis
        using apply_report_ok [OF linkedD(1,2,4) [OF l(1)] l(2), of desired rep now] l(2)
        by (simp add: settled_on_def bound_to_def linked_def)
    qed
    have "triple (view (settled_on e) (sched_at now {}))
        (bind_op (give_up_exhausted env ?splan desired now w) (\<lambda>failed.
          then_op (settle_availability now w) (report_retries failed))) (tick_done now) ?E"
      by (rule triple_bind [OF give_up_exhausted_triple]) (rule settle_report_triple)
    then show "triple (view (settled_on e) ?S)
        (bind_op (give_up_exhausted env ?splan desired now w) (\<lambda>failed.
          then_op (settle_availability now w) (report_retries failed))) (tick_done now) ?E"
      by (rule triple_conseq) (auto simp: view_def sched_shown_def)
  qed
  show ?case
    unfolding Let_def
  proof (rule triple_bind [OF project_triple], rule triple_now_view, goal_cases)
    case (1 desired v')
    let ?V = "view (\<lambda>r. r = dv_reconciler v' \<and> bound_to e r) (\<lambda>s. s = dv_scheduler v' \<and> ?S s)"
    show ?case
    proof (cases "\<not> wr_dirty (dv_reconciler v') \<and> \<not> retry_due now (dv_reconciler v')")
      case True
      have "triple ?V (then_op (settle_availability now w) (report_retries [])) (tick_done now) ?E"
        using quiet by (rule triple_conseq) (use True in \<open>auto simp: view_def settled_on_def sched_shown_def\<close>)
      with True show ?thesis by simp
    next
      case False
      have weaken: "triple ?V m (tick_done now) ?E" if "triple (view (bound_to e) ?S) m (tick_done now) ?E" for m
        using that by (rule triple_conseq) (auto simp: view_def)
      show ?thesis
        unfolding if_not_P [OF False]
      proof (intro weaken triple_ask_then)
        fix res
        show "triple (view (bound_to e) ?S) (case res of
              Inl _ \<Rightarrow>
                then_op (on_reconciler (disconnect now))
                (then_op (on_scheduler (set_display_available False now w)) (report_outcome DisconnectedStatus []))
            | Inr rep \<Rightarrow>
                then_op (on_reconciler (\<lambda>r. (apply_report e desired rep now r)\<lparr>wr_dirty := False\<rparr>))
                (bind_op (give_up_exhausted env ?splan desired now w) (\<lambda>failed.
                then_op (settle_availability now w) (report_retries failed)))) (tick_done now) ?E"
          using lost reported by (cases res) simp_all
      qed
    qed
  qed
qed

section \<open>The tick\<close>

lemma tick_triple:
  "triple (view reconciler_ok wf_sched) (reconciler_tick env now w) (tick_done now) (backwards reconciler_ok)"
  unfolding reconciler_tick_def
proof (rule triple_then)
  show "triple (view reconciler_ok wf_sched) (with_state (\<lambda>v.
      if wr_connected (dv_reconciler v) then drain_events env now MAX_EVENTS_PER_TICK else ret ()))
      (\<lambda>_. view reconciler_ok wf_sched) (backwards reconciler_ok)"
  proof (rule triple_now_view)
    fix v :: "'a daemon_view"
    let ?V = "view (\<lambda>r. r = dv_reconciler v \<and> reconciler_ok r) (\<lambda>s. s = dv_scheduler v \<and> wf_sched s)"
    show "triple ?V (if wr_connected (dv_reconciler v) then drain_events env now MAX_EVENTS_PER_TICK else ret ())
        (\<lambda>_. view reconciler_ok wf_sched) (backwards reconciler_ok)"
    proof (cases "wr_connected (dv_reconciler v)")
      case True
      show ?thesis
        unfolding if_P [OF True]
        by (rule triple_conseq [OF drain_events_triple])
          (use True in \<open>auto simp: view_fixed, simp add: view_def linked_def\<close>)
    next
      case False
      show ?thesis
        unfolding if_not_P [OF False] by (rule triple_ret) (simp add: view_fixed, simp add: view_def)
    qed
  qed
next
  let ?after = "then_op keep_live_projected (with_state (\<lambda>v.
     let eligible = eligible_windows (wr_topology (dv_reconciler v)) in
     if eligible = [] then tick_without_windows env now w else tick_windows env eligible now w))"
  have windows: "triple (view linked wf_sched) ?after (tick_done now) (backwards reconciler_ok)"
  proof (rule triple_then [OF keep_live_triple triple_now_view])
    show "\<And>r P. linked r \<Longrightarrow> linked (r\<lparr>wr_projected_notifications := P\<rparr>)"
      by (simp add: linked_def reconciler_ok_def backoff_ok_def)
    fix v :: "'a daemon_view"
    let ?e = "eligible_windows (wr_topology (dv_reconciler v))"
    let ?V = "view (\<lambda>r. r = dv_reconciler v \<and> linked r) (\<lambda>s. s = dv_scheduler v \<and> wf_sched s)"
    have "triple ?V (tick_windows env ?e now w) (tick_done now) (backwards reconciler_ok)"
      by (rule triple_conseq [OF tick_windows_triple]) (auto simp: view_def bound_to_def linked_def backwards_def)
    moreover have "triple ?V (tick_without_windows env now w) (tick_done now) (backwards reconciler_ok)"
      by (rule triple_conseq [OF tick_without_windows_triple]) (auto simp: view_def linked_def backwards_def)
    ultimately show "triple ?V (let eligible = ?e in
        if eligible = [] then tick_without_windows env now w else tick_windows env eligible now w)
        (tick_done now) (backwards reconciler_ok)" by (simp add: Let_def)
  qed
  show "triple (view reconciler_ok wf_sched) (bind_op (refresh_topology env now w) (\<lambda>early.
      case early of Some out \<Rightarrow> ret out | None \<Rightarrow> ?after)) (tick_done now) (backwards reconciler_ok)"
  proof (rule triple_bind [OF refresh_topology_triple])
    fix early
    show "triple (\<lambda>v. (\<exists>out. early = Some out \<and> tick_done now out v) \<or> ready early v)
        (case early of Some out \<Rightarrow> ret out | None \<Rightarrow> ?after) (tick_done now) (backwards reconciler_ok)"
    proof (cases early)
      case None
      show ?thesis unfolding None option.case by (rule triple_conseq [OF windows]) (auto simp: ready_def)
    next
      case (Some out)
      show ?thesis unfolding Some option.case by (rule triple_ret) (auto simp: ready_def)
    qed
  qed
qed


text \<open>A backend that is not there.\<close>

definition absent_env :: "unit reconcile_env" where
  "absent_env = \<lparr>re_next_event = (\<lambda>b. (Inr None, b)), re_topology = (\<lambda>b. (Inl (TmuxProtocol []), b)),
     re_reconcile = (\<lambda>p b. (Inl (TmuxProtocol []), b)), re_id_text = (\<lambda>i. []), re_order = (\<lambda>site ks. ks),
     re_rounding = id\<rparr>"

definition absent_view :: "unit daemon_view" where
  "absent_view = \<lparr>dv_reconciler = reconciler_new display_policy_default 0, dv_scheduler = demo_new, dv_backend = ()\<rparr>"

lemma absent_view_ok: "reconciler_ok (dv_reconciler absent_view)" "wf_sched (dv_scheduler absent_view)"
  by (simp_all add: absent_view_def reconciler_new_ok demo_new_def scheduler_new_wf)


section \<open>Reconnecting\<close>

lemma report_disconnected_cases:
  obtains e s where "report_disconnected now w v = (Inl e, v\<lparr>dv_scheduler := s\<rparr>)"
  | out s where "report_disconnected now w v = (Inr (Some out), v\<lparr>dv_scheduler := s\<rparr>)"
proof -
  have "(\<exists>e s. report_disconnected now w v = (Inl e, v\<lparr>dv_scheduler := s\<rparr>))
      \<or> (\<exists>out s. report_disconnected now w v = (Inr (Some out), v\<lparr>dv_scheduler := s\<rparr>))"
    by (cases "set_display_available False now w (dv_scheduler v)")
      (auto simp: report_disconnected_def then_op_def bind_op_def on_scheduler_def report_outcome_def with_state_def
        ret_def split: sum.split fault.split)
  then show thesis using that by blast
qed

lemma tick_early:
  assumes "\<not> wr_connected (dv_reconciler v)" and "now < wr_next_reconnect_at (dv_reconciler v)"
  shows "\<exists>s. snd (reconciler_tick env now w v) = v\<lparr>dv_scheduler := s\<rparr>"
  by (rule report_disconnected_cases [of now w v])
    (use assms in \<open>auto simp: reconciler_tick_def refresh_topology_def then_op_def bind_op_def with_state_def Let_def ret_def\<close>)

lemma tick_no_backend:
  assumes "\<not> wr_connected (dv_reconciler v)" and "\<not> now < wr_next_reconnect_at (dv_reconciler v)"
    and "re_topology env (dv_backend v) = (Inl e, b)"
  shows "\<exists>s. snd (reconciler_tick env now w v)
    = v\<lparr>dv_backend := b, dv_reconciler := schedule_reconnect now (dv_reconciler v), dv_scheduler := s\<rparr>"
  by (rule report_disconnected_cases [of now w "v\<lparr>dv_backend := b, dv_reconciler := schedule_reconnect now (dv_reconciler v)\<rparr>"])
    (use assms in \<open>auto simp: reconciler_tick_def refresh_topology_def then_op_def bind_op_def with_state_def Let_def ret_def
      ask_backend_def on_reconciler_def modify_def\<close>)

text \<open>Failing to reconnect once at each of the times.\<close>

definition failed_reconnects :: "monotonic_time list \<Rightarrow> window_reconciler \<Rightarrow> window_reconciler" where
  "failed_reconnects moments = fold schedule_reconnect moments"

lemma failed_reconnects_backoff:
  assumes "wr_reconnect_backoff r = min (INITIAL_RECONNECT_BACKOFF * 2 ^ k) MAX_RECONNECT_BACKOFF"
  shows "wr_reconnect_backoff (failed_reconnects moments r) = min (INITIAL_RECONNECT_BACKOFF * 2 ^ (k + length moments)) MAX_RECONNECT_BACKOFF"
  using assms
proof (induction moments arbitrary: r k)
  case (Cons t moments)
  have "wr_reconnect_backoff (schedule_reconnect t r) = min (INITIAL_RECONNECT_BACKOFF * 2 ^ Suc k) MAX_RECONNECT_BACKOFF"
    using Cons.prems by (simp add: schedule_reconnect_def sat_mul_def duration_max_def MAX_RECONNECT_BACKOFF_def from_secs_def min_def)
  from Cons.IH [OF this] show ?case by (simp add: failed_reconnects_def)
qed (simp add: failed_reconnects_def)

text \<open>
  While disconnected, a tick before the time to reconnect leaves the backend and the
  reconciler alone; a tick from that time on that finds no backend puts the next attempt off by the
  backoff, which after any number of failures is 100 ms doubled that often, at most 5 s. The first
  success makes it 100 ms again.
\<close>

theorem reconnect_correct:
  assumes "\<not> wr_connected (dv_reconciler v)"
  shows "(now < wr_next_reconnect_at (dv_reconciler v) \<longrightarrow>
       dv_backend (snd (reconciler_tick env now w v)) = dv_backend v
       \<and> dv_reconciler (snd (reconciler_tick env now w v)) = dv_reconciler v)
    \<and> (\<not> now < wr_next_reconnect_at (dv_reconciler v) \<longrightarrow> isl (fst (re_topology env (dv_backend v))) \<longrightarrow>
       dv_reconciler (snd (reconciler_tick env now w v)) = failed_reconnects [now] (dv_reconciler v)
       \<and> wr_next_reconnect_at (failed_reconnects [now] (dv_reconciler v)) = min (now + wr_reconnect_backoff (dv_reconciler v)) duration_max)
    \<and> wr_reconnect_backoff (failed_reconnects moments (reconciler_new policy start))
        = min (from_millis (100 * 2 ^ length moments)) (from_secs 5)"
proof (intro conjI impI)
  assume "now < wr_next_reconnect_at (dv_reconciler v)"
  with tick_early [OF assms, of now env w] show "dv_backend (snd (reconciler_tick env now w v)) = dv_backend v"
    and "dv_reconciler (snd (reconciler_tick env now w v)) = dv_reconciler v" by auto
next
  assume late: "\<not> now < wr_next_reconnect_at (dv_reconciler v)" and err: "isl (fst (re_topology env (dv_backend v)))"
  then obtain e b where "re_topology env (dv_backend v) = (Inl e, b)" by (cases "re_topology env (dv_backend v)") (auto simp: isl_def)
  with tick_no_backend [OF assms late, of env e b w]
  show "dv_reconciler (snd (reconciler_tick env now w v)) = failed_reconnects [now] (dv_reconciler v)"
    by (auto simp: failed_reconnects_def)
  show "wr_next_reconnect_at (failed_reconnects [now] (dv_reconciler v)) = min (now + wr_reconnect_backoff (dv_reconciler v)) duration_max"
    by (simp add: failed_reconnects_def schedule_reconnect_def add_time_def sat_add_def)
next
  have "wr_reconnect_backoff (reconciler_new policy start) = min (INITIAL_RECONNECT_BACKOFF * 2 ^ 0) MAX_RECONNECT_BACKOFF"
    by (simp add: reconciler_new_def INITIAL_RECONNECT_BACKOFF_def MAX_RECONNECT_BACKOFF_def from_millis_def from_secs_def)
  from failed_reconnects_backoff [OF this, of moments]
  show "wr_reconnect_backoff (failed_reconnects moments (reconciler_new policy start))
      = min (from_millis (100 * 2 ^ length moments)) (from_secs 5)"
    by (simp add: INITIAL_RECONNECT_BACKOFF_def MAX_RECONNECT_BACKOFF_def from_millis_def)
qed

lemma reconnect_correct_witness:
  "dv_reconciler (snd (reconciler_tick absent_env 5 0 absent_view)) = failed_reconnects [5] (dv_reconciler absent_view)
   \<and> wr_reconnect_backoff (failed_reconnects [5, 6, 7, 8] (reconciler_new display_policy_default 0)) = from_millis 1600"
  using reconnect_correct [of absent_view 5 absent_env 0 "[5, 6, 7, 8]" display_policy_default 0]
  by (simp add: absent_view_def reconciler_new_def absent_env_def from_millis_def from_secs_def)

end
