(* ===== verification/Reconciler_Plan.thy ===== *)
theory Reconciler_Plan
  imports Reconciler_Props
begin

text \<open>
  The displays planned for a window: which Toasts it shows, and that they lie inside it and apart from
  each other as long as they keep to different columns.
\<close>

section \<open>The placed Toasts\<close>

definition earlier_at :: "(notification_id \<Rightarrow> cfg_placement) \<Rightarrow> notification_id list \<Rightarrow> nat \<Rightarrow> nat" where
  "earlier_at pl ids k = length (filter (\<lambda>j. pl j = pl (ids ! k)) (take k ids))"

lemma placement_index_less: "placement_index p < 6"
  by (cases p) simp_all

lemma placement_index_inj: "placement_index p = placement_index q \<longleftrightarrow> p = q"
  by (cases p; cases q) simp_all

lemma place_toasts_nth:
  assumes "place_toasts env policy sch w extent width height stride initial slots z ids = Some ps" and "length slots = 6"
  shows "length ps = length ids \<and> (\<forall>k < length ids.
      dm_notification_id (snd (ps ! k)) = ids ! k
    \<and> pd_display_id (fst (ps ! k)) = display_id env (ids ! k) w
    \<and> renderer_content_for sch (ids ! k) policy = Some (pd_content (fst (ps ! k)))
    \<and> pd_geometry (fst (ps ! k)) = (let p = toast_placement sch policy (ids ! k) in
        toast_geometry extent width height stride
          (slots ! placement_index p + earlier_at (toast_placement sch policy) ids k) p (z + k)))"
  using assms
proof (induction ids arbitrary: slots z ps)
  case (Cons i ids)
  let ?pl = "toast_placement sch policy"
  let ?p = "?pl i"
  let ?slots = "slots[placement_index ?p := slots ! placement_index ?p + 1]"
  from Cons.prems obtain content rest where c: "renderer_content_for sch i policy = Some content"
    and rest: "place_toasts env policy sch w extent width height stride initial ?slots (z + 1) ids = Some rest"
    by (auto simp: Let_def split: option.splits)
  obtain x where ps: "ps = x # rest" and x: "dm_notification_id (snd x) = i" "pd_display_id (fst x) = display_id env i w"
    "pd_content (fst x) = content"
    "pd_geometry (fst x) = toast_geometry extent width height stride (slots ! placement_index ?p) ?p z"
    using Cons.prems(1) c rest by (auto simp: Let_def)
  note IH = Cons.IH [OF rest]
  have slot: "?slots ! placement_index (?pl j) = slots ! placement_index (?pl j) + (if ?pl j = ?p then 1 else 0)" for j
    using Cons.prems(2) placement_index_less [of ?p] by (auto simp: nth_list_update placement_index_inj)
  show ?case
  proof (intro conjI allI impI)
    show "length ps = length (i # ids)" using IH Cons.prems(2) ps by simp
    fix k
    assume k: "k < length (i # ids)"
    have "dm_notification_id (snd (ps ! k)) = (i # ids) ! k
      \<and> pd_display_id (fst (ps ! k)) = display_id env ((i # ids) ! k) w
      \<and> renderer_content_for sch ((i # ids) ! k) policy = Some (pd_content (fst (ps ! k)))
      \<and> pd_geometry (fst (ps ! k)) = toast_geometry extent width height stride
          (slots ! placement_index (?pl ((i # ids) ! k)) + earlier_at ?pl (i # ids) k) (?pl ((i # ids) ! k)) (z + k)"
    proof (cases k)
      case 0
      then show ?thesis by (simp add: ps x c earlier_at_def)
    next
      case (Suc j)
      have "earlier_at ?pl (i # ids) (Suc j) = (if ?p = ?pl (ids ! j) then 1 else 0) + earlier_at ?pl ids j"
        by (simp add: earlier_at_def)
      with IH Cons.prems(2) k Suc slot [of "ids ! j"] show ?thesis by (simp add: ps Let_def)
    qed
    then show "dm_notification_id (snd (ps ! k)) = (i # ids) ! k"
      and "pd_display_id (fst (ps ! k)) = display_id env ((i # ids) ! k) w"
      and "renderer_content_for sch ((i # ids) ! k) policy = Some (pd_content (fst (ps ! k)))"
      and "pd_geometry (fst (ps ! k)) = (let p = ?pl ((i # ids) ! k) in toast_geometry extent width height stride
          (slots ! placement_index p + earlier_at ?pl (i # ids) k) p (z + k))"
      by (simp_all add: Let_def)
  qed
qed simp

section \<open>Slots\<close>

lemma earlier_less:
  "k < length ids \<Longrightarrow> earlier_at pl ids k < length (filter (\<lambda>j. pl j = pl (ids ! k)) ids)"
proof -
  assume k: "k < length ids"
  have "length (filter P (take (Suc k) ids)) \<le> length (filter P ids)" for P
    by (metis append_take_drop_id filter_append length_append le_add1)
  from this [of "\<lambda>j. pl j = pl (ids ! k)"] k show ?thesis
    by (simp add: earlier_at_def take_Suc_conv_app_nth)
qed

lemma earlier_total: "k < length ids \<Longrightarrow> earlier_at pl ids k < length ids"
  using earlier_less [of k ids pl] length_filter_le [of "\<lambda>j. pl j = pl (ids ! k)" ids] by linarith

lemma earlier_grows:
  assumes "i < j" and "j < length ids" and "pl (ids ! i) = pl (ids ! j)"
  shows "earlier_at pl ids i < earlier_at pl ids j"
proof -
  have "earlier_at pl (take j ids) i < length (filter (\<lambda>k. pl k = pl (take j ids ! i)) (take j ids))"
    using assms by (intro earlier_less) simp
  then show ?thesis using assms by (simp add: earlier_at_def min_def)
qed

lemma filters_apart:
  "\<forall>x. \<not> (P x \<and> Q x) \<Longrightarrow> length (filter P xs) + length (filter Q xs) \<le> length xs"
  by (induction xs) auto

lemma earlier_apart:
  assumes "i < length ids" and "j < length ids" and "pl (ids ! i) \<noteq> pl (ids ! j)"
  shows "earlier_at pl ids i + earlier_at pl ids j + 2 \<le> length ids"
  using earlier_less [OF assms(1), of pl] earlier_less [OF assms(2), of pl]
    filters_apart [of "\<lambda>k. pl k = pl (ids ! i)" "\<lambda>k. pl k = pl (ids ! j)" ids] assms(3) by force

text \<open>The column of a placement, and whether it grows from the top.\<close>

definition column_of :: "cfg_placement \<Rightarrow> nat" where
  "column_of p = placement_index p mod 3"

definition from_top :: "cfg_placement \<Rightarrow> bool" where
  "from_top p \<longleftrightarrow> placement_index p < 3"

lemma column_side: "column_of p = column_of q \<Longrightarrow> from_top p = from_top q \<Longrightarrow> p = q"
  by (cases p; cases q) (simp_all add: column_of_def from_top_def)

lemma toast_geometry_fields:
  assumes "index * stride \<le> u16_max" and "stride > 0"
  shows "g_width (toast_geometry extent width height stride index p z) = width"
    and "g_height (toast_geometry extent width height stride index p z) = height"
    and "g_y (toast_geometry extent width height stride index p z) =
      (if from_top p then index * stride else wsize_height extent - height - index * stride)"
    and "width \<le> wsize_width extent \<Longrightarrow> g_x (toast_geometry extent width height stride index p z) + width \<le> wsize_width extent"
proof -
  have "index \<le> u16_max" using assms by (metis le_trans mult.right_neutral mult_le_mono2 Suc_leI One_nat_def)
  then have "sat_mul u16_max (min index u16_max) stride = index * stride" using assms(1) by (simp add: sat_mul_def)
  then show "g_width (toast_geometry extent width height stride index p z) = width"
    and "g_height (toast_geometry extent width height stride index p z) = height"
    and "g_y (toast_geometry extent width height stride index p z) =
      (if from_top p then index * stride else wsize_height extent - height - index * stride)"
    and "width \<le> wsize_width extent \<Longrightarrow> g_x (toast_geometry extent width height stride index p z) + width \<le> wsize_width extent"
    by (cases p; simp add: toast_geometry_def Let_def from_top_def)+
qed

section \<open>The Toasts of a window\<close>

definition rows_disjoint :: "geometry \<Rightarrow> geometry \<Rightarrow> bool" where
  "rows_disjoint g h \<longleftrightarrow> g_y g + g_height g \<le> g_y h \<or> g_y h + g_height h \<le> g_y g"

lemma capacity_fits:
  assumes "s < toast_capacity policy extent"
    and "wp_toast_height policy + wp_toast_gap policy \<le> u16_max" and "0 < wp_toast_height policy"
  shows "toast_stride policy extent = snd (toast_extent policy extent) + wp_toast_gap policy"
    and "(s + 1) * toast_stride policy extent \<le> wsize_height extent + wp_toast_gap policy"
proof -
  have h: "0 < snd (toast_extent policy extent)" "snd (toast_extent policy extent) + wp_toast_gap policy \<le> u16_max"
    using assms(2,3) by (auto simp: toast_extent_def)
  then show stride: "toast_stride policy extent = snd (toast_extent policy extent) + wp_toast_gap policy"
    by (simp add: toast_stride_def sat_add_def)
  have "s + 1 \<le> sat_add u16_max (wsize_height extent) (wp_toast_gap policy) div toast_stride policy extent"
    using assms(1) by (simp add: toast_capacity_def)
  moreover have "0 < toast_stride policy extent" using stride h by simp
  ultimately have "(s + 1) * toast_stride policy extent \<le> sat_add u16_max (wsize_height extent) (wp_toast_gap policy)"
    by (simp add: less_eq_div_iff_mult_less_eq)
  then show "(s + 1) * toast_stride policy extent \<le> wsize_height extent + wp_toast_gap policy"
    by (simp add: sat_add_def)
qed

lemma stacked_rows:
  fixes a b h step height :: nat
  assumes "a + step \<le> b" and "b + h \<le> height" and "h \<le> step"
  shows "a + h \<le> b" and "height - h - b + h \<le> height - h - a"
  using assms by linarith+

text \<open>
  Claim C21. A window too small shows no Toast; any other shows the configured end of the line of
  Toasts, as many as fit, each with the current content of its Notification. Every Toast lies inside
  the window, and two Toasts in the same column - even when one stack grows from the top and the
  other from the bottom - never share a row.
\<close>

theorem planned_toasts_correct:
  assumes plan: "planned_toasts env policy sch w ids extent initial = Some ps"
    and height: "wsize_height extent \<le> u16_max"
    and policy: "0 < wp_toast_height policy" "wp_toast_height policy + wp_toast_gap policy \<le> u16_max"
  shows "map (dm_notification_id \<circ> snd) ps =
      (if wsize_width extent < 24 \<or> wsize_height extent = 0 then [] else chosen_toasts policy extent ids)
    \<and> (\<forall>(d, m) \<in> set ps.
         renderer_content_for sch (dm_notification_id m) policy = Some (pd_content d)
         \<and> g_x (pd_geometry d) + g_width (pd_geometry d) \<le> wsize_width extent
         \<and> g_y (pd_geometry d) + g_height (pd_geometry d) \<le> wsize_height extent)
    \<and> (\<forall>i j. i < j \<longrightarrow> j < length ps \<longrightarrow>
         column_of (toast_placement sch policy (dm_notification_id (snd (ps ! i))))
           = column_of (toast_placement sch policy (dm_notification_id (snd (ps ! j)))) \<longrightarrow>
         rows_disjoint (pd_geometry (fst (ps ! i))) (pd_geometry (fst (ps ! j))))"
proof (cases "wsize_width extent < 24 \<or> wsize_height extent = 0")
  case True
  with plan show ?thesis by (simp add: planned_toasts_def)
next
  case False
  let ?ids = "chosen_toasts policy extent ids" and ?pl = "toast_placement sch policy"
  let ?w = "fst (toast_extent policy extent)" and ?h = "snd (toast_extent policy extent)"
  let ?stride = "toast_stride policy extent"
  let ?s = "earlier_at ?pl ?ids"
  have "place_toasts env policy sch w extent ?w ?h ?stride initial (replicate 6 0) 0 ?ids = Some ps"
    using plan False by (simp add: planned_toasts_def)
  from place_toasts_nth [OF this] placement_index_less
  have len: "length ps = length ?ids" and nth: "\<And>k. k < length ?ids \<Longrightarrow> dm_notification_id (snd (ps ! k)) = ?ids ! k
      \<and> renderer_content_for sch (?ids ! k) policy = Some (pd_content (fst (ps ! k)))
      \<and> pd_geometry (fst (ps ! k)) = toast_geometry extent ?w ?h ?stride (?s k) (?pl (?ids ! k)) k"
    by (simp_all add: Let_def)
  have cap: "length ?ids \<le> toast_capacity policy extent"
    by (simp add: chosen_toasts_def split: stack_order.split)
  have pos: "0 < ?h" "?w \<le> wsize_width extent" using policy by (auto simp: toast_extent_def)
  have fits: "?s k * ?stride + ?h \<le> wsize_height extent \<and> ?stride = ?h + wp_toast_gap policy" if "k < length ?ids" for k
    using capacity_fits [of "?s k" policy extent, OF _ policy(2,1)] earlier_total [OF that, of ?pl] cap by simp
  have geo: "g_height (pd_geometry (fst (ps ! k))) = ?h"
    "g_y (pd_geometry (fst (ps ! k))) = (if from_top (?pl (?ids ! k)) then ?s k * ?stride else wsize_height extent - ?h - ?s k * ?stride)"
    "g_x (pd_geometry (fst (ps ! k))) + g_width (pd_geometry (fst (ps ! k))) \<le> wsize_width extent"
    if "k < length ?ids" for k
  proof -
    have "?s k * ?stride \<le> u16_max" "0 < ?stride" using fits [OF that] height pos(1) by linarith+
    from toast_geometry_fields [OF this] nth [OF that] pos(2)
    show "g_height (pd_geometry (fst (ps ! k))) = ?h"
      "g_y (pd_geometry (fst (ps ! k))) = (if from_top (?pl (?ids ! k)) then ?s k * ?stride else wsize_height extent - ?h - ?s k * ?stride)"
      "g_x (pd_geometry (fst (ps ! k))) + g_width (pd_geometry (fst (ps ! k))) \<le> wsize_width extent" by simp_all
  qed
  have "\<forall>(d, m) \<in> set ps. renderer_content_for sch (dm_notification_id m) policy = Some (pd_content d)
         \<and> g_x (pd_geometry d) + g_width (pd_geometry d) \<le> wsize_width extent
         \<and> g_y (pd_geometry d) + g_height (pd_geometry d) \<le> wsize_height extent"
  proof (clarsimp simp: in_set_conv_nth len)
    fix k d m
    assume k: "k < length ?ids" and eq: "ps ! k = (d, m)"
    show "renderer_content_for sch (dm_notification_id m) policy = Some (pd_content d)
         \<and> g_x (pd_geometry d) + g_width (pd_geometry d) \<le> wsize_width extent
         \<and> g_y (pd_geometry d) + g_height (pd_geometry d) \<le> wsize_height extent"
      using nth [OF k] geo [OF k] fits [OF k] eq by auto
  qed
  moreover have "rows_disjoint (pd_geometry (fst (ps ! i))) (pd_geometry (fst (ps ! j)))"
    if ij: "i < j" "j < length ?ids" and col: "column_of (?pl (?ids ! i)) = column_of (?pl (?ids ! j))" for i j
  proof (cases "?pl (?ids ! i) = ?pl (?ids ! j)")
    case True
    have "(?s i + 1) * ?stride \<le> ?s j * ?stride" using earlier_grows [OF ij, of ?pl, OF True] by (intro mult_le_mono1) simp
    then have "?s i * ?stride + ?stride \<le> ?s j * ?stride" by (simp only: add_mult_distrib mult_1)
    then have step: "?s i * ?stride + ?stride \<le> ?s j * ?stride" .
    have i: "i < length ?ids" using ij by simp
    have "?h \<le> ?stride" using fits [OF ij(2)] by (metis le_add1)
    note rows = stacked_rows [OF step conjunct1 [OF fits [OF ij(2)]] this]
    show ?thesis
    proof (cases "from_top (?pl (?ids ! j))")
      case t: True
      show ?thesis
        unfolding rows_disjoint_def geo(1,2) [OF i] geo(1,2) [OF ij(2)] True if_P [OF t] by (rule disjI1 [OF rows(1)])
    next
      case f: False
      show ?thesis
        unfolding rows_disjoint_def geo(1,2) [OF i] geo(1,2) [OF ij(2)] True if_not_P [OF f] by (rule disjI2 [OF rows(2)])
    qed
  next
    case False
    have i: "i < length ?ids" using ij by simp
    from earlier_apart [OF i ij(2) False] cap have "?s i + ?s j + 1 < toast_capacity policy extent" by simp
    from capacity_fits(2) [OF this policy(2,1)] have
      "?s i * ?stride + ?s j * ?stride + 2 * ?stride \<le> wsize_height extent + wp_toast_gap policy"
      by (simp add: algebra_simps)
    then have room: "?s i * ?stride + ?h + ?s j * ?stride + ?h \<le> wsize_height extent" using fits [OF i] by simp
    have "from_top (?pl (?ids ! i)) \<noteq> from_top (?pl (?ids ! j))" using column_side [OF col] False by blast
    then show ?thesis
      using geo(1,2) [OF i] geo(1,2) [OF ij(2)] room by (cases "from_top (?pl (?ids ! i))") (auto simp: rows_disjoint_def)
  qed
  moreover have "map (dm_notification_id \<circ> snd) ps = ?ids" using len nth by (intro nth_equalityI) simp_all
  ultimately show ?thesis using False len nth by simp
qed

text \<open>Two Toasts, one of which asks for the other side.\<close>

definition two_toasts :: scheduler where
  "two_toasts = demo_new\<lparr>entries := [1 \<mapsto> \<lparr>le_notification = from_draft 1 (demo_draft Toast None) 0, le_sequence = 0,
       le_timeout = TimerNever, le_jump_nonce = None\<rparr>,
     2 \<mapsto> \<lparr>le_notification = (from_draft 2 (demo_draft Toast None) 0)\<lparr>n_overrides := \<lparr>ov_position = Some TopLeft\<rparr>\<rparr>,
       le_sequence = 1, le_timeout = TimerNever, le_jump_nonce = None\<rparr>]\<rparr>"

definition narrow_window :: window_size where
  "narrow_window = \<lparr>wsize_width = 30, wsize_height = 10\<rparr>"

lemma narrow_run:
  "toast_extent display_policy_default narrow_window = (30, 1)"
  "toast_stride display_policy_default narrow_window = 2"
  "toast_capacity display_policy_default narrow_window = 4"
  "chosen_toasts display_policy_default narrow_window [1, 2 :: notification_id] = [1, 2]"
proof -
  show extent: "toast_extent display_policy_default narrow_window = (30, 1)"
    by (simp add: toast_extent_def narrow_window_def display_policy_default_def)
  show stride: "toast_stride display_policy_default narrow_window = 2"
    unfolding toast_stride_def extent by (simp add: sat_add_def display_policy_default_def)
  show capacity: "toast_capacity display_policy_default narrow_window = 4"
    unfolding toast_capacity_def stride by (simp add: sat_add_def display_policy_default_def narrow_window_def)
  show "chosen_toasts display_policy_default narrow_window [1, 2 :: notification_id] = [1, 2]"
    unfolding chosen_toasts_def capacity by (simp add: display_policy_default_def)
qed

lemma two_live:
  "\<exists>n. live_notification two_toasts 1 = Some n \<and> ov_position (n_overrides n) = None"
  "\<exists>n. live_notification two_toasts 2 = Some n \<and> ov_position (n_overrides n) = Some TopLeft"
  by (simp_all add: two_toasts_def live_notification_def from_draft_def demo_draft_def overrides_default_def)

lemma two_planned:
  "\<exists>ps. planned_toasts absent_env display_policy_default two_toasts [] [1, 2] narrow_window {} = Some ps
    \<and> map (pd_geometry \<circ> fst) ps = [\<lparr>g_x = 0, g_y = 0, g_width = 30, g_height = 1, g_z_index = 0\<rparr>,
        \<lparr>g_x = 0, g_y = 0, g_width = 30, g_height = 1, g_z_index = 1\<rparr>]"
proof -
  have p: "toast_placement two_toasts display_policy_default 1 = CfgTopRight"
    "toast_placement two_toasts display_policy_default 2 = CfgTopLeft"
    using two_live by (auto simp: toast_placement_def display_policy_default_def)
  obtain c d where c: "renderer_content_for two_toasts 1 display_policy_default = Some c"
    "renderer_content_for two_toasts 2 display_policy_default = Some d"
    using two_live by (auto simp: renderer_content_for_def)
  have large: "\<not> (wsize_width narrow_window < 24 \<or> wsize_height narrow_window = 0)" by (simp add: narrow_window_def)
  show ?thesis
    unfolding planned_toasts_def if_not_P [OF large] narrow_run
    by (simp add: p c Let_def toast_geometry_def sat_mul_def narrow_window_def)
qed

lemma planned_toasts_correct_witness:
  "\<exists>ps. planned_toasts absent_env display_policy_default two_toasts [] [1, 2] narrow_window {} = Some ps
    \<and> map (dm_notification_id \<circ> snd) ps = [1, 2]"
proof -
  obtain ps where ps: "planned_toasts absent_env display_policy_default two_toasts [] [1, 2] narrow_window {} = Some ps"
    using two_planned by blast
  have "wsize_height narrow_window \<le> u16_max" "0 < wp_toast_height display_policy_default"
    "wp_toast_height display_policy_default + wp_toast_gap display_policy_default \<le> u16_max"
    by (simp_all add: narrow_window_def display_policy_default_def)
  from planned_toasts_correct [OF ps this] narrow_run(4) ps show ?thesis by (simp add: narrow_window_def)
qed

text \<open>
  In a window narrower than a Toast every column is the whole window, yet each placement has rows of its
  own: Toasts with different horizontal placements lie on top of each other.
\<close>

lemma narrow_toasts_overlap:
  "\<exists>ps a b. planned_toasts absent_env display_policy_default two_toasts [] [1, 2] narrow_window {} = Some ps
    \<and> map (pd_geometry \<circ> fst) ps = [a, b]
    \<and> g_x a = g_x b \<and> g_y a = g_y b \<and> g_width a = g_width b \<and> g_height a = g_height b"
  using two_planned by fastforce

end
