(* ===== verification/Reconciler_Retry.thy ===== *)
theory Reconciler_Retry
  imports Reconciler_Props
begin

text \<open>
  How a report changes the retries and the windows that show something.
\<close>

definition failed_again :: "monotonic_time \<Rightarrow> retry_state option \<Rightarrow> retry_state" where
  "failed_again now old =
     (let attempts = min ((case old of None \<Rightarrow> 0 | Some rt \<Rightarrow> rt_attempts rt) + 1) 255
      in \<lparr>rt_attempts = attempts, rt_retry_at = min (now + from_millis (50 * attempts)) duration_max\<rparr>)"

lemma record_failure_lookup:
  assumes "bt_ok (wr_retries r)"
  shows "map_of (wr_retries (record_failure now w r))
    = (map_of (wr_retries r))(w \<mapsto> failed_again now (map_of (wr_retries r) w))"
proof -
  have eq: "add_time now (render_backoff (min (a + 1) 255)) = min (now + from_millis (50 * min (a + 1) 255)) duration_max" for a
    by (simp add: add_time_def render_backoff_def sat_add_def sat_mul_def INITIAL_RENDER_BACKOFF_def from_millis_def
        duration_max_def)
  show ?thesis
    using eq by (simp add: record_failure_def Let_def bt_insert_lookup [OF assms] failed_again_def sat_add_def)
qed

lemma record_failures_lookup:
  "bt_ok (wr_retries r) \<Longrightarrow> distinct ws \<Longrightarrow>
     map_of (wr_retries (fold (record_failure now) ws r)) x =
       (if x \<in> set ws then Some (failed_again now (map_of (wr_retries r) x)) else map_of (wr_retries r) x)"
  by (induction ws arbitrary: r) (auto simp: record_failure_lookup)

lemma failed_windows_set:
  "finite (dom (rp_failed rep)) \<Longrightarrow> w \<in> set (failed_windows rep) \<longleftrightarrow> rp_failed rep w \<noteq> None"
  by (auto simp: failed_windows_def)

definition shows_something :: "tmux_display_plan \<Rightarrow> window_id \<Rightarrow> bool" where
  "shows_something plan w \<longleftrightarrow> (\<exists>ds. map_of plan w = Some ds \<and> ds \<noteq> [])"

lemma apply_window_report_step:
  assumes "bt_ok (wr_retries r)"
  shows "map_of (wr_retries (apply_window_report d rep now w r)) = (map_of (wr_retries r))(w :=
      (if w \<in> rp_applied rep then None else Some (failed_again now (map_of (wr_retries r) w))))"
    and "wr_successful_windows (apply_window_report d rep now w r) =
      (if w \<in> rp_applied rep then (if shows_something d w then insert w (wr_successful_windows r) else wr_successful_windows r - {w})
       else wr_successful_windows r)"
  using assms
  by (auto simp: apply_window_report_def bt_remove_lookup record_failure_lookup shows_something_def split: option.split)

lemma apply_window_reports_lookup:
  "bt_ok (wr_retries r) \<Longrightarrow> distinct ws \<Longrightarrow>
     map_of (wr_retries (fold (apply_window_report d rep now) ws r)) x =
       (if x \<in> set ws then (if x \<in> rp_applied rep then None else Some (failed_again now (map_of (wr_retries r) x)))
        else map_of (wr_retries r) x)
   \<and> (x \<in> wr_successful_windows (fold (apply_window_report d rep now) ws r) \<longleftrightarrow>
        (if x \<in> set ws \<and> x \<in> rp_applied rep then shows_something d x else x \<in> wr_successful_windows r))"
proof (induction ws arbitrary: r)
  case (Cons w ws)
  have ok: "bt_ok (wr_retries (apply_window_report d rep now w r))" using Cons.prems(1) by simp
  from Cons.IH [OF ok] Cons.prems show ?case
    by (auto simp: apply_window_report_step [OF Cons.prems(1)])
qed simp

text \<open>
  A report settles every eligible window: an applied one has no retry left and counts as
  showing something exactly when the plan has displays for it; one that was not applied keeps what it
  showed before and is due again 50 ms times the number of its failures later. Windows that are not
  eligible show nothing, and get a failure for each report that names them.
\<close>

theorem apply_report_correct:
  fixes d now r
  assumes "bt_ok (wr_retries r)" and "distinct eligible" and "finite (dom (rp_failed rep))"
  defines "r' \<equiv> apply_report eligible d rep now r"
  shows "(\<forall>w \<in> set eligible. w \<in> rp_applied rep \<longrightarrow>
        map_of (wr_retries r') w = None \<and> (w \<in> wr_successful_windows r' \<longleftrightarrow> shows_something d w))
    \<and> (\<forall>w \<in> set eligible. w \<notin> rp_applied rep \<longrightarrow>
        map_of (wr_retries r') w = Some (failed_again now (map_of (wr_retries r) w))
        \<and> (w \<in> wr_successful_windows r' \<longleftrightarrow> w \<in> wr_successful_windows r))
    \<and> (\<forall>w. w \<notin> set eligible \<longrightarrow> w \<notin> wr_successful_windows r'
        \<and> map_of (wr_retries r') w = (if rp_failed rep w = None then map_of (wr_retries r) w
              else Some (failed_again now (map_of (wr_retries r) w))))
    \<and> bt_ok (wr_retries r')"
proof -
  let ?r0 = "r\<lparr>wr_successful_windows := wr_successful_windows r \<inter> set eligible\<rparr>"
  let ?r1 = "fold (apply_window_report d rep now) eligible ?r0"
  let ?others = "filter (\<lambda>w. w \<notin> set eligible) (failed_windows rep)"
  have ok0: "bt_ok (wr_retries ?r0)" using assms(1) by simp
  have ok1: "bt_ok (wr_retries ?r1)" using apply_window_reports_frame [of d rep now eligible ?r0] ok0 by blast
  have others: "distinct ?others" "w \<in> set ?others \<longleftrightarrow> rp_failed rep w \<noteq> None \<and> w \<notin> set eligible" for w
    using failed_windows_set [OF assms(3)] by (auto simp: failed_windows_def)
  have r': "r' = fold (record_failure now) ?others ?r1" by (simp add: r'_def apply_report_def)
  have succ: "wr_successful_windows r' = wr_successful_windows ?r1" by (simp add: r')
  note one = apply_window_reports_lookup [OF ok0 assms(2), of d rep now]
  have two: "map_of (wr_retries r') w = (if w \<in> set ?others then Some (failed_again now (map_of (wr_retries ?r1) w))
      else map_of (wr_retries ?r1) w)" for w
    unfolding r' by (rule record_failures_lookup [OF ok1 others(1)])
  note two = two [unfolded others(2)]
  have "bt_ok (wr_retries r')" unfolding r' using ok1 by simp
  moreover have "\<forall>w \<in> set eligible. w \<in> rp_applied rep \<longrightarrow>
        map_of (wr_retries r') w = None \<and> (w \<in> wr_successful_windows r' \<longleftrightarrow> shows_something d w)"
    using one two by (simp add: succ)
  moreover have "\<forall>w \<in> set eligible. w \<notin> rp_applied rep \<longrightarrow>
        map_of (wr_retries r') w = Some (failed_again now (map_of (wr_retries r) w))
        \<and> (w \<in> wr_successful_windows r' \<longleftrightarrow> w \<in> wr_successful_windows r)"
    using one two by (simp add: succ)
  moreover have "\<forall>w. w \<notin> set eligible \<longrightarrow> w \<notin> wr_successful_windows r'
        \<and> map_of (wr_retries r') w = (if rp_failed rep w = None then map_of (wr_retries r) w
              else Some (failed_again now (map_of (wr_retries r) w)))"
    using one two by (simp add: succ)
  ultimately show ?thesis by blast
qed

definition demo_report :: reconcile_report where
  "demo_report = \<lparr>rp_applied = {}, rp_failed = [[0x40] \<mapsto> TmuxProtocol []]\<rparr>"

lemma apply_report_correct_witness:
  "map_of (wr_retries (apply_report [[0x40]] [] demo_report 7 (reconciler_new display_policy_default 0))) [0x40]
    = Some \<lparr>rt_attempts = 1, rt_retry_at = 7 + from_millis 50\<rparr>"
  using apply_report_correct [of "reconciler_new display_policy_default 0" "[[0x40]]" demo_report "[]" 7]
  by (simp add: demo_report_def reconciler_new_def failed_again_def duration_max_def from_millis_def)

text \<open>
  A window that is no longer eligible and failed to be cleaned up once keeps its retry, also when the
  next report has no failure: it stays due, and asks for another tick at a time that is already over.
\<close>

lemma stale_retry_stays_due:
  assumes "bt_ok (wr_retries r)" and "distinct eligible" and "finite (dom (rp_failed rep))"
    and "map_of (wr_retries r) w = Some rt" and "rt_attempts rt < MAX_RENDER_ATTEMPTS" and "rt_retry_at rt \<le> now"
    and "w \<notin> set eligible" and "rp_failed rep w = None"
  shows "retry_due now (apply_report eligible d rep now r)"
proof -
  let ?r0 = "r\<lparr>wr_successful_windows := wr_successful_windows r \<inter> set eligible\<rparr>"
  let ?r1 = "fold (apply_window_report d rep now) eligible ?r0"
  have ok1: "bt_ok (wr_retries ?r1)" using apply_window_reports_frame [of d rep now eligible ?r0] assms(1) by simp
  have "map_of (wr_retries ?r1) w = Some rt"
    using apply_window_reports_lookup [of ?r0 eligible d rep now w] assms by simp
  moreover have "w \<notin> set (filter (\<lambda>w. w \<notin> set eligible) (failed_windows rep))"
    using failed_windows_set [OF assms(3)] assms(8) by simp
  moreover have "distinct (filter (\<lambda>w. w \<notin> set eligible) (failed_windows rep))" by (simp add: failed_windows_def)
  ultimately have "map_of (wr_retries (apply_report eligible d rep now r)) w = Some rt"
    unfolding apply_report_def by (subst record_failures_lookup [OF ok1]) auto
  then have "(w, rt) \<in> set (wr_retries (apply_report eligible d rep now r))" by (rule map_of_SomeD)
  with assms(5,6) show ?thesis by (force simp: retry_due_def waiting_retries_def list_ex_iff)
qed

end
