(* ===== verification/Daemon_Service.thy ===== *)
theory Daemon_Service
  imports Scheduler_Props Protocol
begin

text \<open>
  Request handling of one daemon: \<open>src/daemon/service.rs\<close>. A request decodes its arguments, changes the
  scheduler under its lock, hands the changed and closed Notifications to History, and answers.

  History (a database worker) and the jump executor are parameters. While a jump is awaited the
  scheduler is not locked, so the executor's parameter also yields the scheduler as the other tasks
  left it. What is awaited after the last use of the scheduler does not matter to it. Where the code
  takes the lock twice with nothing awaited in between but the lock itself, the model takes both
  sections together: a renderer action looks the Notification up and then acts on it.
\<close>

section \<open>Responses, errors and the environment\<close>

datatype disposition = DispQueued | DispVisible | DispUpdated | DispDuplicate | DispSuppressed

datatype 'v service_data = HistoryEntries 'v | AttentionInactive | Jumped_to_source | DeletedEntries nat

record 'v service_response =
  sr_accepted :: bool
  sr_notification_id :: "notification_id option"
  sr_history_persisted :: "bool option"
  sr_disposition :: "disposition option"
  sr_data :: "'v service_data option"

definition notification_response :: "notification_id \<Rightarrow> disposition \<Rightarrow> bool \<Rightarrow> 'v service_response" where
  "notification_response i d persisted =
     \<lparr>sr_accepted = True, sr_notification_id = Some i, sr_history_persisted = Some persisted,
      sr_disposition = Some d, sr_data = None\<rparr>"

definition data_response :: "'v service_data \<Rightarrow> 'v service_response" where
  "data_response d = \<lparr>sr_accepted = True, sr_notification_id = None, sr_history_persisted = None,
     sr_disposition = None, sr_data = Some d\<rparr>"

datatype ('j, 'e) service_error =
    ServiceProtocol "'j protocol_error"
  | ServiceScheduler scheduler_error
  | ServiceHistory 'e
  | ServiceJump ustring
  | InvalidClearTimestamp
  | InvalidWindowDisplay
  | RendererActionNotAttention
  | HistoryAttentionActive
  | HistoryServerMismatch
  | ConfigReloadBoundary

datatype clear_filter = FilterHidden | FilterBefore wall_time | FilterAll

record ('h, 'w, 'v, 'e) service_env =
  se_uuid :: uuid_ops
  se_persist :: "notification \<Rightarrow> 'h \<Rightarrow> bool \<times> 'h"
  se_list :: "bool \<Rightarrow> bool \<Rightarrow> nat \<Rightarrow> 'h \<Rightarrow> ('e + 'v) \<times> 'h"
  se_clear :: "clear_filter \<Rightarrow> bool \<Rightarrow> 'h \<Rightarrow> ('e + nat) \<times> 'h"
  se_current_server :: tmux_server_id
  se_timestamp :: "int \<Rightarrow> wall_time option"
  se_jump :: "source_context \<Rightarrow> ustring option \<Rightarrow> scheduler \<Rightarrow> 'w \<Rightarrow> (ustring + unit) \<times> scheduler \<times> 'w"

record ('h, 'w) daemon_state =
  dn_scheduler :: scheduler
  dn_history :: 'h
  dn_world :: 'w

type_synonym ('h, 'w, 'j, 'e, 'a) service_op = "(('h, 'w) daemon_state, ('j, 'e) service_error, 'a) op"

definition locked :: "'a sched_op \<Rightarrow> ('h, 'w, 'j, 'e, 'a) service_op" where
  "locked m d =
     (case m (dn_scheduler d) of
        (Inl Panic, s) \<Rightarrow> (Inl Panic, d\<lparr>dn_scheduler := s\<rparr>)
      | (Inl (Fail e), s) \<Rightarrow> (Inl (Fail (ServiceScheduler e)), d\<lparr>dn_scheduler := s\<rparr>)
      | (Inr a, s) \<Rightarrow> (Inr a, d\<lparr>dn_scheduler := s\<rparr>))"

definition service_result :: "('j, 'e) service_error + 'a \<Rightarrow> ('h, 'w, 'j, 'e, 'a) service_op" where
  "service_result r = (case r of Inl e \<Rightarrow> raise e | Inr a \<Rightarrow> ret a)"

definition decoded :: "'j protocol_error + 'a \<Rightarrow> ('h, 'w, 'j, 'e, 'a) service_op" where
  "decoded r = service_result (map_sum ServiceProtocol id r)"

definition submit_disposition_of :: "submit_disposition \<Rightarrow> disposition" where
  "submit_disposition_of d = (case d of Queued \<Rightarrow> DispQueued | ShownNow \<Rightarrow> DispVisible | Updated \<Rightarrow> DispUpdated
     | Duplicate \<Rightarrow> DispDuplicate | Suppressed \<Rightarrow> DispSuppressed)"

definition update_disposition_of :: "update_disposition \<Rightarrow> disposition" where
  "update_disposition_of d = (case d of UpdateApplied \<Rightarrow> DispUpdated | UpdateDuplicate \<Rightarrow> DispDuplicate)"

section \<open>History\<close>

text \<open>Every snapshot is handed over, also after one failed.\<close>

primrec persist_each :: "(notification \<Rightarrow> 'h \<Rightarrow> bool \<times> 'h) \<Rightarrow> notification list \<Rightarrow> 'h \<Rightarrow> bool \<times> 'h" where
  "persist_each p [] h = (True, h)"
| "persist_each p (n # ns) h =
     (let (ok, h') = p n h; (rest, h'') = persist_each p ns h' in (ok \<and> rest, h''))"

definition persist_snapshots ::
  "('h, 'w, 'v, 'e) service_env \<Rightarrow> notification list \<Rightarrow> ('h, 'w, 'j, 'e, bool) service_op" where
  "persist_snapshots env ns d =
     (let (ok, h) = persist_each (se_persist env) ns (dn_history d) in (Inr ok, d\<lparr>dn_history := h\<rparr>))"

text \<open>The Notification if it is live, and those closed since the last time.\<close>

definition take_snapshots :: "notification_id \<Rightarrow> notification list sched_op" where
  "take_snapshots i = with_state (\<lambda>s.
     bind_op drain_closed (\<lambda>closed. ret ((case live_notification s i of None \<Rightarrow> [] | Some n \<Rightarrow> [n]) @ closed)))"

section \<open>Requests\<close>

definition handle_send ::
  "('h, 'w, 'v, 'e) service_env \<Rightarrow> notification_id \<Rightarrow> wire_notification_draft \<Rightarrow> monotonic_time \<Rightarrow> wall_time
    \<Rightarrow> ('h, 'w, 'j, 'e, 'v service_response) service_op" where
  "handle_send env new_id wire now wall =
     bind_op (decoded (wire_draft_into wire)) (\<lambda>draft.
     bind_op (locked (bind_op (submit new_id draft now wall) (\<lambda>out.
         bind_op (take_snapshots (so_id out)) (\<lambda>ns. ret (out, ns))))) (\<lambda>(out, ns).
     bind_op (persist_snapshots env ns) (\<lambda>ok.
     ret (notification_response (so_id out) (submit_disposition_of (so_disposition out)) ok))))"

definition update_selected ::
  "target_selector \<Rightarrow> notification_update \<Rightarrow> monotonic_time \<Rightarrow> wall_time
    \<Rightarrow> (notification_id \<times> update_disposition) sched_op" where
  "update_selected sel u now wall =
     (case sel of
        SelectId i \<Rightarrow> bind_op (update i u now wall) (\<lambda>d. ret (i, d))
      | SelectKey key \<Rightarrow> with_state (\<lambda>s.
          case id_for_key s key of
            None \<Rightarrow> raise KeyNotLive
          | Some i \<Rightarrow> bind_op (update_by_key key u now wall) (\<lambda>d. ret (i, d))))"

definition handle_update ::
  "('h, 'w, 'v, 'e) service_env \<Rightarrow> wire_selector \<Rightarrow> wire_notification_update \<Rightarrow> monotonic_time \<Rightarrow> wall_time
    \<Rightarrow> ('h, 'w, 'j, 'e, 'v service_response) service_op" where
  "handle_update env wsel wu now wall =
     bind_op (decoded (wire_selector_into (se_uuid env) wsel)) (\<lambda>sel.
     bind_op (decoded (wire_update_into wu)) (\<lambda>u.
     if update_is_empty u then raise (ServiceProtocol EmptyUpdate)
     else
       bind_op (locked (bind_op (update_selected sel u now wall) (\<lambda>(i, d).
           bind_op (take_snapshots i) (\<lambda>ns. ret (i, d, ns))))) (\<lambda>(i, d, ns).
       bind_op (persist_snapshots env ns) (\<lambda>ok.
       ret (notification_response i (update_disposition_of d) ok)))))"

definition dismiss_selected ::
  "target_selector \<Rightarrow> monotonic_time \<Rightarrow> wall_time \<Rightarrow> notification_id sched_op" where
  "dismiss_selected sel now wall =
     (case sel of
        SelectId i \<Rightarrow> then_op (dismiss i now wall) (ret i)
      | SelectKey key \<Rightarrow> dismiss_by_key key now wall)"

definition handle_dismiss ::
  "('h, 'w, 'v, 'e) service_env \<Rightarrow> wire_selector \<Rightarrow> monotonic_time \<Rightarrow> wall_time
    \<Rightarrow> ('h, 'w, 'j, 'e, 'v service_response) service_op" where
  "handle_dismiss env wsel now wall =
     bind_op (decoded (wire_selector_into (se_uuid env) wsel)) (\<lambda>sel.
     bind_op (locked (bind_op (dismiss_selected sel now wall) (\<lambda>i. bind_op drain_closed (\<lambda>ns. ret (i, ns))))) (\<lambda>(i, ns).
     bind_op (persist_snapshots env ns) (\<lambda>ok.
     ret (notification_response i DispUpdated ok))))"

text \<open>The jump itself, unlocked; and what follows it, with the time the request came in at.\<close>

definition execute_jump ::
  "('h, 'w, 'v, 'e) service_env \<Rightarrow> source_context \<Rightarrow> ustring option \<Rightarrow> ('h, 'w, 'j, 'e, ustring + unit) service_op" where
  "execute_jump env source window d =
     (case se_jump env source window (dn_scheduler d) (dn_world d) of
        (r, s, w) \<Rightarrow> (Inr r, d\<lparr>dn_scheduler := s, dn_world := w\<rparr>))"

definition finish_jump ::
  "('h, 'w, 'v, 'e) service_env \<Rightarrow> jump_intent \<Rightarrow> monotonic_time \<Rightarrow> wall_time \<Rightarrow> ustring + unit
    \<Rightarrow> ('h, 'w, 'j, 'e, bool) service_op" where
  "finish_jump env intent now wall result =
     (case result of
        Inr _ \<Rightarrow>
          bind_op (locked (then_op (commit_jump intent now wall) drain_closed)) (persist_snapshots env)
      | Inl message \<Rightarrow>
          then_op (locked (cancel_jump intent now wall)) (raise (ServiceJump message)))"

definition handle_jump ::
  "('h, 'w, 'v, 'e) service_env \<Rightarrow> ustring \<Rightarrow> monotonic_time \<Rightarrow> wall_time
    \<Rightarrow> ('h, 'w, 'j, 'e, 'v service_response) service_op" where
  "handle_jump env key now wall =
     bind_op (decoded (from_ingress (notification_key_new key))) (\<lambda>k.
     bind_op (locked (begin_jump_by_key k now wall)) (\<lambda>intent.
     bind_op (execute_jump env (ji_source intent) None) (\<lambda>r.
     bind_op (finish_jump env intent now wall r) (\<lambda>ok.
     ret (notification_response (ji_notification_id intent) DispUpdated ok)))))"

definition ensure_history_action_allowed :: "('h, 'w, 'j, 'e, unit) service_op" where
  "ensure_history_action_allowed = with_state (\<lambda>d.
     if has_active_attention (dn_scheduler d) then raise HistoryAttentionActive else ret ())"

definition on_history :: "('h \<Rightarrow> ('e + 'a) \<times> 'h) \<Rightarrow> ('h, 'w, 'j, 'e, 'a) service_op" where
  "on_history f d =
     (case f (dn_history d) of
        (Inl e, h) \<Rightarrow> (Inl (Fail (ServiceHistory e)), d\<lparr>dn_history := h\<rparr>)
      | (Inr a, h) \<Rightarrow> (Inr a, d\<lparr>dn_history := h\<rparr>))"

definition handle_history ::
  "('h, 'w, 'v, 'e) service_env \<Rightarrow> bool \<Rightarrow> bool \<Rightarrow> nat \<Rightarrow> ('h, 'w, 'j, 'e, 'v service_response) service_op" where
  "handle_history env include_hidden all_servers limit =
     (if limit = 0 \<or> limit > 100000 then raise (ServiceProtocol InvalidHistoryLimit)
      else bind_op (on_history (se_list env include_hidden all_servers limit)) (\<lambda>entries.
        ret (data_response (HistoryEntries entries))))"

definition handle_history_jump ::
  "('h, 'w, 'v, 'e) service_env \<Rightarrow> wire_source_context \<Rightarrow> ('h, 'w, 'j, 'e, 'v service_response) service_op" where
  "handle_history_jump env wire =
     bind_op (decoded (wire_source_into wire)) (\<lambda>source.
     if src_tmux_server_id source \<noteq> se_current_server env then raise HistoryServerMismatch
     else
       then_op ensure_history_action_allowed
       (bind_op (execute_jump env source None) (\<lambda>r.
        bind_op (service_result (map_sum ServiceJump id r)) (\<lambda>_. ret (data_response Jumped_to_source)))))"

definition handle_history_clear ::
  "('h, 'w, 'v, 'e) service_env \<Rightarrow> wire_history_clear \<Rightarrow> bool \<Rightarrow> ('h, 'w, 'j, 'e, 'v service_response) service_op" where
  "handle_history_clear env sel all_servers =
     bind_op (case sel of
         ClearHidden \<Rightarrow> ret FilterHidden
       | ClearBeforeMillis v \<Rightarrow>
           (case se_timestamp env v of None \<Rightarrow> raise InvalidClearTimestamp | Some t \<Rightarrow> ret (FilterBefore t))
       | ClearAll \<Rightarrow> ret FilterAll) (\<lambda>f.
     bind_op (on_history (se_clear env f all_servers)) (\<lambda>count. ret (data_response (DeletedEntries count))))"

fun service_handle ::
  "('h, 'w, 'v, 'e) service_env \<Rightarrow> notification_id \<Rightarrow> client_command \<Rightarrow> monotonic_time \<Rightarrow> wall_time
    \<Rightarrow> ('h, 'w, 'j, 'e, 'v service_response) service_op" where
  "service_handle env new_id (SendCmd wire) now wall = handle_send env new_id wire now wall"
| "service_handle env new_id (UpdateCmd sel u) now wall = handle_update env sel u now wall"
| "service_handle env new_id (DismissCmd sel) now wall = handle_dismiss env sel now wall"
| "service_handle env new_id (JumpCmd key) now wall = handle_jump env key now wall"
| "service_handle env new_id (HistoryCmd hidden servers n) now wall = handle_history env hidden servers n"
| "service_handle env new_id HistoryGuardCmd now wall =
     then_op ensure_history_action_allowed (ret (data_response AttentionInactive))"
| "service_handle env new_id (HistoryJumpCmd source) now wall = handle_history_jump env source"
| "service_handle env new_id (HistoryClearCmd sel servers) now wall = handle_history_clear env sel servers"
| "service_handle env new_id ConfigReloadCmd now wall = raise ConfigReloadBoundary"

section \<open>Actions of a renderer\<close>

text \<open>\<open>split_once\<close> at the first colon.\<close>

definition split_once :: "nat \<Rightarrow> ustring \<Rightarrow> (ustring \<times> ustring) option" where
  "split_once c s = (if c \<in> set s then Some (takeWhile (\<lambda>x. x \<noteq> c) s, tl (dropWhile (\<lambda>x. x \<noteq> c) s)) else None)"

definition parse_window_display_id ::
  "uuid_ops \<Rightarrow> ustring \<Rightarrow> ('j, 'e) service_error + (notification_id \<times> ustring)" where
  "parse_window_display_id uuid value =
     (case split_once (of_char CHR '':'') value of
        None \<Rightarrow> Inl InvalidWindowDisplay
      | Some (notification, window) \<Rightarrow>
          (case notification_id_from_str (uuid_parse uuid) (uuid_version uuid) notification of
             Inl _ \<Rightarrow> Inl InvalidWindowDisplay
           | Inr i \<Rightarrow>
               (case window of
                  [] \<Rightarrow> Inl InvalidWindowDisplay
                | c # suffix \<Rightarrow>
                    if c = of_char CHR ''@'' \<and> suffix \<noteq> [] \<and> list_all is_ascii_digit suffix then Inr (i, window)
                    else Inl InvalidWindowDisplay)))"

definition handle_renderer_action ::
  "('h, 'w, 'v, 'e) service_env \<Rightarrow> ustring \<Rightarrow> renderer_action \<Rightarrow> monotonic_time \<Rightarrow> wall_time
    \<Rightarrow> ('h, 'w, 'j, 'e, unit) service_op" where
  "handle_renderer_action env display_id action now wall =
     bind_op (service_result (parse_window_display_id (se_uuid env) display_id)) (\<lambda>(i, window).
     with_state (\<lambda>d.
     case live_notification (dn_scheduler d) i of
       None \<Rightarrow> raise (ServiceScheduler NotificationNotLive)
     | Some live \<Rightarrow>
         if n_presentation live \<noteq> Attention then raise RendererActionNotAttention
         else (case action of
             DismissAction \<Rightarrow>
               bind_op (locked (then_op (dismiss i now wall) drain_closed)) (\<lambda>ns.
               bind_op (persist_snapshots env ns) (\<lambda>_. ret ()))
           | JumpAction \<Rightarrow>
               bind_op (locked (begin_jump i now wall)) (\<lambda>intent.
               bind_op (execute_jump env (ji_source intent) (Some window)) (\<lambda>r.
               bind_op (finish_jump env intent now wall r) (\<lambda>_. ret ()))))))"

end
