(* ===== verification/Daemon_Service_Props.thy ===== *)
theory Daemon_Service_Props
  imports Daemon_Service
begin

text \<open>
  Requests and renderer actions: they never panic and keep the scheduler well formed; what is closed is
  handed to History; what a jump does to its Notification, and when it does not.
\<close>

section \<open>Contracts of the scheduler's operations\<close>

lemma triple_keep:
  assumes "\<And>s. P s \<Longrightarrow> fst (m s) \<noteq> Inl Panic" and "\<And>s. P s \<Longrightarrow> wf_sched (snd (m s))"
    and "\<And>s a s'. P s \<Longrightarrow> m s = (Inr a, s') \<Longrightarrow> Q a s'"
  shows "triple P m (\<lambda>a s. wf_sched s \<and> Q a s) (\<lambda>_. wf_sched)"
  unfolding triple_def
proof (intro allI impI)
  fix s
  assume "P s"
  obtain r s' where m: "m s = (r, s')" by force
  with assms(1,2) [OF \<open>P s\<close>] have "r \<noteq> Inl Panic" "wf_sched s'" by simp_all
  with assms(3) [OF \<open>P s\<close>] m show "case m s of (Inl Panic, _) \<Rightarrow> False | (Inl (Fail e), s') \<Rightarrow> wf_sched s'
      | (Inr a, s') \<Rightarrow> wf_sched s' \<and> Q a s'"
    by (cases r) (auto split: fault.split)
qed

lemma triple_plain:
  assumes "\<And>s. P s \<Longrightarrow> fst (m s) \<noteq> Inl Panic" and "\<And>s. P s \<Longrightarrow> wf_sched (snd (m s))"
  shows "triple P m (\<lambda>_. wf_sched) (\<lambda>_. wf_sched)"
  using triple_keep [OF assms, where Q = "\<lambda>_ _. True"] by simp

lemma call_triple:
  assumes "\<And>s. sched_guard s (c, now, w)" and "\<And>s. call_result s c now w = outcome (m s)"
  shows "triple wf_sched m (\<lambda>_. wf_sched) (\<lambda>_. wf_sched)"
proof (rule triple_plain)
  fix s
  assume "wf_sched s"
  from call_no_panic [OF this assms(1)] call_wf [OF this assms(1)]
  show "fst (m s) \<noteq> Inl Panic" and "wf_sched (snd (m s))" by (simp_all add: assms(2))
qed

definition may_submit :: "notification_id \<Rightarrow> scheduler \<Rightarrow> bool" where
  "may_submit new_id s \<longleftrightarrow> wf_sched s \<and> entries s new_id = None \<and> jumps_in_flight s \<le> max_pending (limits s)"

lemma submit_triple:
  "wf_draft draft \<Longrightarrow> triple (may_submit i) (submit i draft now w) (\<lambda>_. wf_sched) (\<lambda>_. wf_sched)"
  by (rule triple_plain) (auto simp: may_submit_def submit_wf jumps_in_flight_card wf_sched_core)

lemma update_triple:
  "wf_update u \<Longrightarrow> triple wf_sched (update i u now w) (\<lambda>_. wf_sched) (\<lambda>_. wf_sched)"
  by (rule call_triple [where c = "UpdateCall i u" and now = now and w = w]) simp_all

lemma update_by_key_triple:
  "wf_update u \<Longrightarrow> triple wf_sched (update_by_key k u now w) (\<lambda>_. wf_sched) (\<lambda>_. wf_sched)"
  by (rule call_triple [where c = "UpdateByKeyCall k u" and now = now and w = w]) simp_all

lemma begin_by_key_triple:
  "triple wf_sched (begin_jump_by_key k now w) (\<lambda>_. wf_sched) (\<lambda>_. wf_sched)"
  by (rule call_triple [where c = "BeginJumpByKeyCall k" and now = now and w = w]) simp_all

lemma begin_triple:
  "triple wf_sched (begin_jump i now w) (\<lambda>_. wf_sched) (\<lambda>_. wf_sched)"
  by (rule call_triple [where c = "BeginJumpCall i" and now = now and w = w]) simp_all

lemma cancel_triple:
  "triple wf_sched (cancel_jump intent now w) (\<lambda>_. wf_sched) (\<lambda>_. wf_sched)"
  by (rule call_triple [where c = "CancelJumpCall intent" and now = now and w = w]) simp_all

lemma close_removes:
  assumes "wf_sched s" and "close i r now w s = (Inr (), s')"
  shows "entries s' i = None"
  using assms by (auto simp: close_eq Let_def rebalance_None close_inner_entries split: if_splits)

lemma close_triple:
  "triple wf_sched (close i r now w) (\<lambda>_ s. wf_sched s \<and> entries s i = None) (\<lambda>_. wf_sched)"
  by (rule triple_keep) (simp_all add: close_no_panic close_wf close_removes)

lemma dismiss_by_key_triple:
  "triple wf_sched (dismiss_by_key k now w) (\<lambda>i s. wf_sched s \<and> entries s i = None) (\<lambda>_. wf_sched)"
proof -
  have "entries s' i = None" if "wf_sched s" "dismiss_by_key k now w s = (Inr i, s')" for s i s'
    using that close_removes [of s i Dismissed now w s']
    by (auto simp: dismiss_by_key_eq split: option.splits prod.splits sum.splits)
  then show ?thesis
    using call_no_panic [where c = "DismissByKeyCall k" and now = now and w = w] call_wf [where c = "DismissByKeyCall k" and now = now and w = w]
    by (intro triple_keep) simp_all
qed

lemma commit_triple:
  "triple wf_sched (commit_jump intent now w)
     (\<lambda>_ s. wf_sched s \<and> entries s (ji_notification_id intent) = None) (\<lambda>_. wf_sched)"
proof -
  have "entries s' (ji_notification_id intent) = None"
    if "wf_sched s" "commit_jump intent now w s = (Inr x, s')" for s x s'
    using that close_removes [of s "ji_notification_id intent" Jumped now w s'] by (auto simp: commit_jump_eq split: if_splits)
  then show ?thesis
    using call_no_panic [where c = "CommitJumpCall intent" and now = now and w = w]
    by (intro triple_keep) (simp_all add: commit_jump_wf)
qed

text \<open>Draining: the log is empty, and nothing else changed.\<close>

definition drained :: "scheduler \<Rightarrow> bool" where
  "drained s \<longleftrightarrow> wf_sched s \<and> closed s = []"

lemma drain_triple:
  "triple (\<lambda>s. wf_sched s \<and> entries s i = None) drain_closed (\<lambda>_ s. drained s \<and> entries s i = None) E"
  by (simp add: triple_def drain_closed_eq drained_def drain_closed_wf)

lemma take_snapshots_triple:
  "triple wf_sched (take_snapshots i)
     (\<lambda>ns s. drained s \<and> (\<forall>n. live_notification s i = Some n \<longrightarrow> n \<in> set ns)) E"
  by (auto simp: triple_def take_snapshots_def drain_closed_eq drained_def drain_closed_wf with_state_def bind_op_def
      ret_def live_notification_def)

section \<open>The service\<close>

text \<open>What the executor owes: whatever other tasks did in the meantime kept the scheduler well formed.\<close>

definition executor_ok :: "('h, 'w, 'v, 'e) service_env \<Rightarrow> bool" where
  "executor_ok env \<longleftrightarrow> (\<forall>source window s x. wf_sched s \<longrightarrow> wf_sched (fst (snd (se_jump env source window s x))))"

definition service_at :: "(scheduler \<Rightarrow> bool) \<Rightarrow> 'h \<Rightarrow> ('h, 'w) daemon_state \<Rightarrow> bool" where
  "service_at S h d \<longleftrightarrow> S (dn_scheduler d) \<and> dn_history d = h"

definition service_safe :: "('j, 'e) service_error \<Rightarrow> ('h, 'w) daemon_state \<Rightarrow> bool" where
  "service_safe e d \<longleftrightarrow> wf_sched (dn_scheduler d)"

lemma locked_triple:
  assumes "triple S m Q (\<lambda>_. wf_sched)"
  shows "triple (service_at S h) (locked m) (\<lambda>a. service_at (Q a) h) service_safe"
  using assms by (fastforce simp: triple_def locked_def service_at_def service_safe_def
      split: prod.splits sum.splits fault.splits)

lemma decoded_triple:
  "(\<And>d. P d \<Longrightarrow> wf_sched (dn_scheduler d)) \<Longrightarrow> triple P (decoded r) (\<lambda>a d. r = Inr a \<and> P d) service_safe"
  by (cases r) (auto simp: triple_def decoded_def service_result_def raise_def ret_def service_safe_def)

lemma triple_fact: "(F \<Longrightarrow> triple P m Q E) \<Longrightarrow> triple (\<lambda>s. F \<and> P s) m Q E"
  by (auto simp: triple_def)

text \<open>What an answer about a Notification tells.\<close>

definition answered ::
  "('h, 'w, 'v, 'e) service_env \<Rightarrow> 'h \<Rightarrow> (notification_id \<Rightarrow> notification list \<Rightarrow> scheduler \<Rightarrow> bool)
    \<Rightarrow> 'v service_response \<Rightarrow> ('h, 'w) daemon_state \<Rightarrow> bool" where
  "answered env h about resp d \<longleftrightarrow>
     (\<exists>i ns. sr_notification_id resp = Some i \<and> drained (dn_scheduler d) \<and> about i ns (dn_scheduler d)
        \<and> dn_history d = snd (persist_each (se_persist env) ns h)
        \<and> sr_history_persisted resp = Some (fst (persist_each (se_persist env) ns h)))"

lemma persisted_triple:
  assumes "\<And>s. S s \<Longrightarrow> drained s \<and> about i ns s"
  shows "triple (service_at S h)
    (bind_op (persist_snapshots env ns) (\<lambda>ok. ret (notification_response i disp ok))) (answered env h about) E"
  using assms by (force simp: triple_def bind_op_def persist_snapshots_def ret_def answered_def service_at_def
      notification_response_def Let_def intro!: exI [of _ ns] split: prod.splits)

definition shown_or_gone :: "notification_id \<Rightarrow> notification list \<Rightarrow> scheduler \<Rightarrow> bool" where
  "shown_or_gone i ns s \<longleftrightarrow> (\<forall>n. live_notification s i = Some n \<longrightarrow> n \<in> set ns)"

definition gone :: "notification_id \<Rightarrow> notification list \<Rightarrow> scheduler \<Rightarrow> bool" where
  "gone i ns s \<longleftrightarrow> live_notification s i = None"

lemma send_triple:
  "triple (service_at (may_submit new_id) h) (handle_send env new_id wire now w)
     (answered env h shown_or_gone) service_safe"
  unfolding handle_send_def
proof (rule triple_bind [OF decoded_triple], goal_cases)
  case (1 d)
  then show ?case by (simp add: service_at_def may_submit_def)
next
  case (2 draft)
  show ?case
  proof (rule triple_fact)
    assume "wire_draft_into wire = (Inr draft :: _ protocol_error + _)"
    then have "wf_draft draft" by (rule draft_codec.decode_valid)
    have "triple (may_submit new_id)
        (bind_op (submit new_id draft now w) (\<lambda>out. bind_op (take_snapshots (so_id out)) (\<lambda>ns. ret (out, ns))))
        (\<lambda>(out, ns) s. drained s \<and> shown_or_gone (so_id out) ns s) (\<lambda>_. wf_sched)"
      by (rule triple_bind [OF submit_triple [OF \<open>wf_draft draft\<close>] triple_bind [OF take_snapshots_triple triple_ret]])
        (simp add: shown_or_gone_def)
    then show "triple (service_at (may_submit new_id) h)
      (bind_op (locked (bind_op (submit new_id draft now w) (\<lambda>out.
           bind_op (take_snapshots (so_id out)) (\<lambda>ns. ret (out, ns))))) (\<lambda>(out, ns).
       bind_op (persist_snapshots env ns) (\<lambda>ok.
       ret (notification_response (so_id out) (submit_disposition_of (so_disposition out)) ok))))
      (answered env h shown_or_gone) service_safe"
      by (intro triple_bind [OF locked_triple]) (auto intro!: persisted_triple)
  qed
qed

lemma update_selected_triple:
  assumes "wf_update u"
  shows "triple wf_sched (update_selected sel u now w) (\<lambda>_. wf_sched) (\<lambda>_. wf_sched)"
proof (cases sel)
  case (SelectId i)
  show ?thesis unfolding SelectId update_selected_def target_selector.case
    by (rule triple_bind [OF update_triple [OF assms] triple_ret])
next
  case (SelectKey key)
  have keyed: "triple (\<lambda>s. s = s0) (bind_op (update_by_key key u now w) (\<lambda>d. ret (i, d))) (\<lambda>_. wf_sched) (\<lambda>_. wf_sched)"
    if "wf_sched s0" for s0 i
    by (rule triple_conseq [OF triple_bind [OF update_by_key_triple [OF assms] triple_ret]]) (use that in auto)
  have "triple (\<lambda>s. s = s0) (case x of None \<Rightarrow> raise KeyNotLive
      | Some i \<Rightarrow> bind_op (update_by_key key u now w) (\<lambda>d. ret (i, d))) (\<lambda>_. wf_sched) (\<lambda>_. wf_sched)"
    if "wf_sched s0" for s0 x
    using that keyed [OF that] by (cases x) (auto intro!: triple_raise)
  then show ?thesis unfolding SelectKey update_selected_def target_selector.case by (rule triple_with_state)
qed

lemma update_body_triple:
  assumes "wf_update u"
  shows "triple (service_at wf_sched h)
    (bind_op (locked (bind_op (update_selected sel u now w) (\<lambda>(i, d).
         bind_op (take_snapshots i) (\<lambda>ns. ret (i, d, ns))))) (\<lambda>(i, d, ns).
     bind_op (persist_snapshots env ns) (\<lambda>ok. ret (notification_response i (update_disposition_of d) ok))))
    (answered env h shown_or_gone) service_safe"
proof -
  have "triple wf_sched
      (bind_op (update_selected sel u now w) (\<lambda>(i, d). bind_op (take_snapshots i) (\<lambda>ns. ret (i, d, ns))))
      (\<lambda>(i, d, ns) s. drained s \<and> shown_or_gone i ns s) (\<lambda>_. wf_sched)"
    by (rule triple_bind [OF update_selected_triple [OF assms]])
      (auto intro!: triple_bind [OF take_snapshots_triple triple_ret] simp: shown_or_gone_def split: prod.split)
  then show ?thesis by (intro triple_bind [OF locked_triple]) (auto intro!: persisted_triple)
qed

lemma update_request_triple:
  "triple (service_at wf_sched h) (handle_update env wsel wu now w) (answered env h shown_or_gone) service_safe"
  unfolding handle_update_def
proof (rule triple_bind [OF decoded_triple], goal_cases)
  case (1 d)
  then show ?case by (simp add: service_at_def)
next
  case (2 sel)
  show ?case
  proof (rule triple_fact, rule triple_bind [OF decoded_triple], goal_cases)
    case (1 d)
    then show ?case by (simp add: service_at_def)
  next
    case (2 u)
    show ?case
    proof (rule triple_fact)
      assume "wire_update_into wu = Inr u"
      then have "wf_update u" by (rule update_codec.decode_valid)
      then show "triple (service_at wf_sched h) (if update_is_empty u then raise (ServiceProtocol EmptyUpdate)
        else bind_op (locked (bind_op (update_selected sel u now w) (\<lambda>(i, d).
             bind_op (take_snapshots i) (\<lambda>ns. ret (i, d, ns))))) (\<lambda>(i, d, ns).
         bind_op (persist_snapshots env ns) (\<lambda>ok. ret (notification_response i (update_disposition_of d) ok))))
        (answered env h shown_or_gone) service_safe"
        by (cases "update_is_empty u") (auto intro: update_body_triple triple_raise simp: service_at_def service_safe_def)
    qed
  qed
qed

lemma dismiss_selected_triple:
  "triple wf_sched (dismiss_selected sel now w) (\<lambda>i s. wf_sched s \<and> entries s i = None) (\<lambda>_. wf_sched)"
  by (cases sel)
    (simp_all add: dismiss_selected_def dismiss_def dismiss_by_key_triple triple_then [OF close_triple triple_ret])

lemma gone_iff: "gone i ns s \<longleftrightarrow> entries s i = None"
  by (simp add: gone_def live_notification_def)

lemma dismiss_request_triple:
  "triple (service_at wf_sched h) (handle_dismiss env wsel now w) (answered env h gone) service_safe"
  unfolding handle_dismiss_def
proof (rule triple_bind [OF decoded_triple], goal_cases)
  case (1 d)
  then show ?case by (simp add: service_at_def)
next
  case (2 sel)
  show ?case
  proof (rule triple_fact)
    have "triple wf_sched (bind_op (dismiss_selected sel now w) (\<lambda>i. bind_op drain_closed (\<lambda>ns. ret (i, ns))))
        (\<lambda>(i, ns) s. drained s \<and> entries s i = None) (\<lambda>_. wf_sched)"
      by (rule triple_bind [OF dismiss_selected_triple triple_bind [OF drain_triple triple_ret]]) simp
    then show "triple (service_at wf_sched h)
      (bind_op (locked (bind_op (dismiss_selected sel now w) (\<lambda>i. bind_op drain_closed (\<lambda>ns. ret (i, ns))))) (\<lambda>(i, ns).
       bind_op (persist_snapshots env ns) (\<lambda>ok. ret (notification_response i DispUpdated ok))))
      (answered env h gone) service_safe"
      by (intro triple_bind [OF locked_triple]) (auto intro!: persisted_triple simp: gone_iff)
  qed
qed

lemma execute_triple:
  "executor_ok env \<Longrightarrow>
     triple (service_at wf_sched h) (execute_jump env source window) (\<lambda>_. service_at wf_sched h) E"
  unfolding triple_def execute_jump_def service_at_def executor_ok_def
  by (auto split: prod.splits) (metis fst_conv snd_conv)

lemma persist_triple:
  assumes "\<And>s. S s \<Longrightarrow> drained s \<and> entries s i = None"
  shows "triple (service_at S h) (persist_snapshots env ns)
    (\<lambda>ok d. \<exists>ns. drained (dn_scheduler d) \<and> gone i ns (dn_scheduler d)
        \<and> dn_history d = snd (persist_each (se_persist env) ns h) \<and> ok = fst (persist_each (se_persist env) ns h)) E"
  using assms by (force simp: triple_def persist_snapshots_def service_at_def gone_iff Let_def intro!: exI [of _ ns]
      split: prod.splits)

text \<open>What finishing a jump hands to History.\<close>

lemma finish_jump_triple:
  "triple (service_at wf_sched h) (finish_jump env intent now w result)
     (\<lambda>ok d. \<exists>ns. drained (dn_scheduler d) \<and> gone (ji_notification_id intent) ns (dn_scheduler d)
        \<and> dn_history d = snd (persist_each (se_persist env) ns h) \<and> ok = fst (persist_each (se_persist env) ns h))
     service_safe"
proof (cases result)
  case (Inl message)
  have "triple (service_at wf_sched h) (then_op (locked (cancel_jump intent now w)) (raise (ServiceJump message)))
      Q service_safe" for Q :: "bool \<Rightarrow> ('a, 'b) daemon_state \<Rightarrow> bool"
    by (rule triple_then [OF locked_triple [OF cancel_triple] triple_raise]) (simp add: service_at_def service_safe_def)
  then show ?thesis by (simp add: finish_jump_def Inl)
next
  case (Inr x)
  have "triple wf_sched (then_op (commit_jump intent now w) drain_closed)
      (\<lambda>_ s. drained s \<and> entries s (ji_notification_id intent) = None) (\<lambda>_. wf_sched)"
    by (rule triple_then [OF commit_triple drain_triple])
  then have "triple (service_at wf_sched h)
      (bind_op (locked (then_op (commit_jump intent now w) drain_closed)) (persist_snapshots env))
      (\<lambda>ok d. \<exists>ns. drained (dn_scheduler d) \<and> gone (ji_notification_id intent) ns (dn_scheduler d)
        \<and> dn_history d = snd (persist_each (se_persist env) ns h) \<and> ok = fst (persist_each (se_persist env) ns h))
      service_safe"
    by (rule triple_bind [OF locked_triple]) (rule persist_triple, assumption)
  then show ?thesis by (simp add: finish_jump_def Inr)
qed

lemma jump_request_triple:
  assumes "executor_ok env"
  shows "triple (service_at wf_sched h) (handle_jump env key now w) (answered env h gone) service_safe"
  unfolding handle_jump_def
proof (rule triple_bind [OF decoded_triple], goal_cases)
  case (1 d)
  then show ?case by (simp add: service_at_def)
next
  case (2 k)
  show ?case
    by (rule triple_fact, rule triple_bind [OF locked_triple [OF begin_by_key_triple]],
        rule triple_bind [OF execute_triple [OF assms]], rule triple_bind [OF finish_jump_triple], rule triple_ret)
      (force simp: answered_def notification_response_def)
qed

lemma guard_triple:
  "triple (service_at wf_sched h) ensure_history_action_allowed
     (\<lambda>_ d. service_at wf_sched h d \<and> \<not> has_active_attention (dn_scheduler d)) service_safe"
  by (auto simp: triple_def ensure_history_action_allowed_def with_state_def raise_def ret_def service_at_def service_safe_def)

definition well_formed :: "'a \<Rightarrow> ('h, 'w) daemon_state \<Rightarrow> bool" where
  "well_formed a d \<longleftrightarrow> wf_sched (dn_scheduler d)"

lemma on_history_triple:
  "triple (service_at wf_sched h) (on_history f) (\<lambda>_ d. wf_sched (dn_scheduler d)) service_safe"
  by (auto simp: triple_def on_history_def service_at_def service_safe_def split: prod.splits sum.splits)

lemma history_triple:
  "triple (service_at wf_sched h) (handle_history env hidden servers n)
     (\<lambda>resp d. wf_sched (dn_scheduler d) \<and> sr_notification_id resp = None) service_safe"
  by (auto simp: handle_history_def service_at_def service_safe_def data_response_def
      intro!: triple_raise triple_bind [OF on_history_triple triple_ret])

lemma history_clear_triple:
  "triple (service_at wf_sched h) (handle_history_clear env sel servers)
     (\<lambda>resp d. wf_sched (dn_scheduler d) \<and> sr_notification_id resp = None) service_safe"
proof -
  have filter: "triple (service_at wf_sched h) (case sel of
         ClearHidden \<Rightarrow> ret FilterHidden
       | ClearBeforeMillis v \<Rightarrow>
           (case se_timestamp env v of None \<Rightarrow> raise InvalidClearTimestamp | Some t \<Rightarrow> ret (FilterBefore t))
       | ClearAll \<Rightarrow> ret FilterAll) (\<lambda>_. service_at wf_sched h) service_safe"
    by (auto simp: service_at_def service_safe_def intro!: triple_ret triple_raise
        split: wire_history_clear.split option.split)
  show ?thesis
    unfolding handle_history_clear_def
    by (rule triple_bind [OF filter triple_bind [OF on_history_triple triple_ret]]) (simp add: data_response_def)
qed

lemma history_jump_triple:
  assumes "executor_ok env"
  shows "triple (service_at wf_sched h) (handle_history_jump env wire)
    (\<lambda>resp d. wf_sched (dn_scheduler d) \<and> sr_notification_id resp = None) service_safe"
  unfolding handle_history_jump_def
proof (rule triple_bind [OF decoded_triple], goal_cases)
  case (1 d)
  then show ?case by (simp add: service_at_def)
next
  case (2 source)
  have report: "triple (service_at wf_sched h)
      (bind_op (service_result (map_sum ServiceJump id r)) (\<lambda>_. ret (data_response Jumped_to_source)))
      (\<lambda>resp d. wf_sched (dn_scheduler d) \<and> sr_notification_id resp = None) service_safe" for r
    by (cases r) (auto simp: triple_def bind_op_def service_result_def raise_def ret_def service_at_def service_safe_def
        data_response_def)
  have run: "triple (service_at wf_sched h)
      (then_op ensure_history_action_allowed (bind_op (execute_jump env source None) (\<lambda>r.
        bind_op (service_result (map_sum ServiceJump id r)) (\<lambda>_. ret (data_response Jumped_to_source)))))
      (\<lambda>resp d. wf_sched (dn_scheduler d) \<and> sr_notification_id resp = None) service_safe"
    by (rule triple_then [OF triple_conseq [OF guard_triple] triple_bind [OF execute_triple [OF assms] report]]) auto
  show ?case
  proof (rule triple_fact, cases "src_tmux_server_id source \<noteq> se_current_server env")
    case True
    show "triple (service_at wf_sched h) (if src_tmux_server_id source \<noteq> se_current_server env then raise HistoryServerMismatch
      else then_op ensure_history_action_allowed (bind_op (execute_jump env source None) (\<lambda>r.
        bind_op (service_result (map_sum ServiceJump id r)) (\<lambda>_. ret (data_response Jumped_to_source)))))
      (\<lambda>resp d. wf_sched (dn_scheduler d) \<and> sr_notification_id resp = None) service_safe"
      unfolding if_P [OF True] by (rule triple_raise) (simp add: service_at_def service_safe_def)
  next
    case False
    show "triple (service_at wf_sched h) (if src_tmux_server_id source \<noteq> se_current_server env then raise HistoryServerMismatch
      else then_op ensure_history_action_allowed (bind_op (execute_jump env source None) (\<lambda>r.
        bind_op (service_result (map_sum ServiceJump id r)) (\<lambda>_. ret (data_response Jumped_to_source)))))
      (\<lambda>resp d. wf_sched (dn_scheduler d) \<and> sr_notification_id resp = None) service_safe"
      unfolding if_not_P [OF False] by (rule run)
  qed
qed

section \<open>Every request\<close>

fun names_notification :: "client_command \<Rightarrow> (notification_id \<Rightarrow> notification list \<Rightarrow> scheduler \<Rightarrow> bool) option" where
  "names_notification (SendCmd d) = Some shown_or_gone"
| "names_notification (UpdateCmd sel u) = Some shown_or_gone"
| "names_notification (DismissCmd sel) = Some gone"
| "names_notification (JumpCmd key) = Some gone"
| "names_notification c = None"

definition request_done ::
  "('h, 'w, 'v, 'e) service_env \<Rightarrow> client_command \<Rightarrow> 'h \<Rightarrow> 'v service_response \<Rightarrow> ('h, 'w) daemon_state \<Rightarrow> bool" where
  "request_done env cmd h resp d \<longleftrightarrow>
     wf_sched (dn_scheduler d)
     \<and> (case names_notification cmd of
          None \<Rightarrow> sr_notification_id resp = None
        | Some about \<Rightarrow> answered env h about resp d)"

lemma answered_wf: "answered env h about resp d \<Longrightarrow> wf_sched (dn_scheduler d)"
  by (auto simp: answered_def drained_def)

lemma named_done:
  assumes "triple (service_at S h) m (answered env h about) service_safe" and "names_notification cmd = Some about"
    and "\<And>s. may_submit new_id s \<Longrightarrow> S s"
  shows "triple (service_at (may_submit new_id) h) m (request_done env cmd h) service_safe"
  by (rule triple_conseq [OF assms(1)])
    (use assms(3) in \<open>simp_all add: request_done_def assms(2) answered_wf service_at_def\<close>)

lemma unnamed_done:
  assumes "triple (service_at wf_sched h) m (\<lambda>resp d. wf_sched (dn_scheduler d) \<and> sr_notification_id resp = None) service_safe"
    and "names_notification cmd = None"
  shows "triple (service_at (may_submit new_id) h) m (request_done env cmd h) service_safe"
  by (rule triple_conseq [OF assms(1)]) (simp_all add: request_done_def assms(2) service_at_def may_submit_def)

lemma may_submit_wf: "may_submit i s \<Longrightarrow> wf_sched s"
  by (simp add: may_submit_def)

lemma guard_request_triple:
  "triple (service_at wf_sched h) (then_op ensure_history_action_allowed (ret (data_response AttentionInactive)))
     (\<lambda>resp d. wf_sched (dn_scheduler d) \<and> sr_notification_id resp = None) service_safe"
  by (rule triple_then [OF guard_triple triple_ret]) (simp add: service_at_def data_response_def)

lemma service_triple:
  assumes "executor_ok env"
  shows "triple (service_at (may_submit new_id) h) (service_handle env new_id cmd now w) (request_done env cmd h) service_safe"
proof (cases cmd)
  case (SendCmd d)
  show ?thesis unfolding SendCmd service_handle.simps by (rule named_done [OF send_triple]) simp_all
next
  case (UpdateCmd sel u)
  show ?thesis unfolding UpdateCmd service_handle.simps
    by (rule named_done [OF update_request_triple]) (simp_all add: may_submit_wf)
next
  case (DismissCmd sel)
  show ?thesis unfolding DismissCmd service_handle.simps
    by (rule named_done [OF dismiss_request_triple]) (simp_all add: may_submit_wf)
next
  case (JumpCmd key)
  show ?thesis unfolding JumpCmd service_handle.simps
    by (rule named_done [OF jump_request_triple [OF assms]]) (simp_all add: may_submit_wf)
next
  case (HistoryCmd hidden servers n)
  show ?thesis unfolding HistoryCmd service_handle.simps by (rule unnamed_done [OF history_triple]) simp
next
  case HistoryGuardCmd
  show ?thesis unfolding HistoryGuardCmd service_handle.simps by (rule unnamed_done [OF guard_request_triple]) simp
next
  case (HistoryJumpCmd source)
  show ?thesis unfolding HistoryJumpCmd service_handle.simps
    by (rule unnamed_done [OF history_jump_triple [OF assms]]) simp
next
  case (HistoryClearCmd sel servers)
  show ?thesis unfolding HistoryClearCmd service_handle.simps by (rule unnamed_done [OF history_clear_triple]) simp
next
  case ConfigReloadCmd
  show ?thesis unfolding ConfigReloadCmd service_handle.simps
    by (rule triple_raise) (simp add: service_at_def may_submit_def service_safe_def)
qed


definition demo_service_env :: "source_context list \<Rightarrow> (notification list, source_context list, unit, unit) service_env" where
  "demo_service_env unreachable = \<lparr>se_uuid = demo_uuid, se_persist = (\<lambda>n h. (True, n # h)),
     se_list = (\<lambda>_ _ _ h. (Inr (), h)), se_clear = (\<lambda>_ _ h. (Inr (length h), [])),
     se_current_server = src_tmux_server_id demo_source, se_timestamp = (\<lambda>_. None),
     se_jump = (\<lambda>source _ s world. if source \<in> set unreachable then (Inl [], s, world)
        else (Inr (), s, source # world))\<rparr>"

definition demo_daemon :: "(notification list, source_context list) daemon_state" where
  "demo_daemon = \<lparr>dn_scheduler = run_machine sched_step demo_new demo_calls, dn_history = [], dn_world = []\<rparr>"

lemma demo_executor: "executor_ok (demo_service_env unreachable)"
  by (simp add: executor_ok_def demo_service_env_def)


section \<open>Jumps\<close>

definition after_jump :: "('h, 'w) daemon_state \<Rightarrow> scheduler \<Rightarrow> 'w \<Rightarrow> ('h, 'w) daemon_state" where
  "after_jump d s w = d\<lparr>dn_scheduler := s, dn_world := w\<rparr>"

lemma handle_jump_run:
  assumes "notification_key_new key = Inr k" and "begin_jump_by_key k now w (dn_scheduler d) = (Inr intent, s1)"
    and "se_jump env (ji_source intent) None s1 (dn_world d) = (r, s2, w2)"
  shows "handle_jump env key now w d =
    (case finish_jump env intent now w r (after_jump d s2 w2) of
       (Inl f, d') \<Rightarrow> (Inl f, d')
     | (Inr ok, d') \<Rightarrow> (Inr (notification_response (ji_notification_id intent) DispUpdated ok), d'))"
  using assms by (simp add: handle_jump_def decoded_def service_result_def from_ingress_def bind_op_def locked_def
      execute_jump_def after_jump_def ret_def split: sum.splits prod.splits)

lemma locked_Inr: "m (dn_scheduler d) = (Inr a, s) \<Longrightarrow> locked m d = (Inr a, d\<lparr>dn_scheduler := s\<rparr>)"
  by (simp add: locked_def)

lemma locked_Fail: "m (dn_scheduler d) = (Inl (Fail e), s) \<Longrightarrow>
    locked m d = (Inl (Fail (ServiceScheduler e)), d\<lparr>dn_scheduler := s\<rparr>)"
  by (simp add: locked_def)

text \<open>What the wait for the executor leaves of the pinned Notification.\<close>

definition still_pinned :: "jump_intent \<Rightarrow> scheduler \<Rightarrow> bool" where
  "still_pinned intent s \<longleftrightarrow> wf_sched s \<and> (\<exists>e. entries s (ji_notification_id intent) = Some e
     \<and> le_jump_nonce e = Some (ji_nonce intent) \<and> timer_paused (le_timeout e))"

lemma still_pinned_holds: "still_pinned intent s \<Longrightarrow> holds_intent s intent"
  by (auto simp: still_pinned_def holds_intent_def)

lemma still_pinned_prepare:
  assumes "still_pinned intent s"
  obtains f where "entries (prepare_spec now w s) (ji_notification_id intent) = Some f"
    and "le_jump_nonce f = Some (ji_nonce intent)"
proof -
  from assms obtain e where e: "entries s (ji_notification_id intent) = Some e"
      "le_jump_nonce e = Some (ji_nonce intent)" "timer_paused (le_timeout e)"
    by (auto simp: still_pinned_def)
  from prepare_keeps [OF e(1,3)] e(2) that show thesis by metis
qed

lemma pinned_refuses:
  assumes "still_pinned intent s" and "last_now s \<le> now"
  shows "fst (begin_jump (ji_notification_id intent) now w s) = Inl (Fail JumpAlreadyPending)"
proof -
  have "wf_sched s" using assms(1) by (simp add: still_pinned_def)
  obtain f where "entries (prepare_spec now w s) (ji_notification_id intent) = Some f" "le_jump_nonce f = Some (ji_nonce intent)"
    by (rule still_pinned_prepare [OF assms(1)])
  with assms(2) \<open>wf_sched s\<close> show ?thesis by (simp add: begin_jump_eq begin_spec_def)
qed

lemma pinned_commits:
  assumes "still_pinned intent s" and "last_now s \<le> now"
  shows "\<exists>u. commit_jump intent now w s = (Inr (), u) \<and> entries u (ji_notification_id intent) = None
    \<and> (\<exists>n. last (closed u) = n \<and> closed u \<noteq> [] \<and> n_id n = ji_notification_id intent \<and> n_close_reason n = Some Jumped)"
proof -
  let ?i = "ji_notification_id intent" and ?p = "prepare_spec now w s"
  have wf: "wf_sched s" using assms(1) by (simp add: still_pinned_def)
  obtain f where f: "entries ?p ?i = Some f" by (rule still_pinned_prepare [OF assms(1)])
  let ?u = "rebalance_spec now w (close_inner ?i Jumped w ?p)"
  have commit: "commit_jump intent now w s = (Inr (), ?u)"
    using still_pinned_holds [OF assms(1)] wf assms(2) f by (simp add: commit_jump_eq close_eq)
  have log: "closed ?u = closed (close_inner ?i Jumped w ?p)" by (simp add: frame_simps)
  have "n_id (le_notification f) = ?i"
    using entry_facts(4) [OF wf_sched_core f] wf assms(2) by (simp add: prepare_spec_wf)
  then show ?thesis
    using f by (auto simp: commit log close_inner_closed rebalance_None close_inner_entries close_notification_def Let_def)
qed

lemma pinned_cancels:
  assumes "still_pinned intent s" and "last_now s \<le> now"
  shows "\<exists>u e. cancel_jump intent now w s = (Inr (), u) \<and> entries u (ji_notification_id intent) = Some e
    \<and> le_jump_nonce e = None"
proof -
  have wf: "wf_sched s" using assms(1) by (simp add: still_pinned_def)
  obtain f where f: "entries (prepare_spec now w s) (ji_notification_id intent) = Some f" "le_jump_nonce f = Some (ji_nonce intent)"
    by (rule still_pinned_prepare [OF assms(1)])
  with wf assms(2) show ?thesis
    by (simp add: cancel_jump_eq cancel_spec_def holds_intent_def unpinned_entry_def)
qed

lemma late_finish:
  assumes "still_pinned intent s" and "now < last_now s"
  shows "cancel_jump intent now w s = (Inl (Fail TimeWentBackwards), s)"
    and "commit_jump intent now w s = (Inl (Fail TimeWentBackwards), s)"
  using assms still_pinned_holds [OF assms(1)]
  by (simp_all add: cancel_jump_eq commit_jump_eq close_eq still_pinned_def)

text \<open>
  Claim C12. A jump by key whose executor is awaited while other tasks move the scheduler from
  \<open>s1\<close> to \<open>s2\<close>, the Notification still pinned. If the scheduler's clock has not passed the time the
  request came in at, a jump that succeeded closes the Notification as \<open>Jumped\<close>, hands the log to
  History and answers with it, and one that failed unpins it and answers the executor's message. If
  the clock has passed (the display loop advances it on its own), either outcome is answered with
  \<open>TimeWentBackwards\<close> and the Notification stays pinned: no jump to it is accepted any more.
\<close>

theorem jump_correct:
  assumes "notification_key_new key = Inr k" and "begin_jump_by_key k now w (dn_scheduler d) = (Inr intent, s1)"
    and "se_jump env (ji_source intent) None s1 (dn_world d) = (r, s2, world)" and "still_pinned intent s2"
  shows "if now < last_now s2
    then handle_jump env key now w d = (Inl (Fail (ServiceScheduler TimeWentBackwards)), after_jump d s2 world)
      \<and> (\<forall>now' w'. last_now s2 \<le> now' \<longrightarrow>
           fst (begin_jump (ji_notification_id intent) now' w' s2) = Inl (Fail JumpAlreadyPending))
    else case r of
        Inr _ \<Rightarrow> \<exists>u ok h. commit_jump intent now w s2 = (Inr (), u)
            \<and> n_id (last (closed u)) = ji_notification_id intent \<and> n_close_reason (last (closed u)) = Some Jumped
            \<and> persist_each (se_persist env) (closed u) (dn_history d) = (ok, h)
            \<and> handle_jump env key now w d =
                (Inr (notification_response (ji_notification_id intent) DispUpdated ok),
                 \<lparr>dn_scheduler = u\<lparr>closed := []\<rparr>, dn_history = h, dn_world = world\<rparr>)
            \<and> entries u (ji_notification_id intent) = None
      | Inl message \<Rightarrow> \<exists>u e. handle_jump env key now w d = (Inl (Fail (ServiceJump message)), after_jump d u world)
            \<and> entries u (ji_notification_id intent) = Some e \<and> le_jump_nonce e = None"
proof (cases "now < last_now s2")
  case True
  note late = late_finish [OF assms(4) True]
  have "handle_jump env key now w d = (Inl (Fail (ServiceScheduler TimeWentBackwards)), after_jump d s2 world)"
    by (cases r) (simp_all add: handle_jump_run [OF assms(1-3)] finish_jump_def then_op_def bind_op_def locked_def late after_jump_def)
  with True pinned_refuses [OF assms(4)] show ?thesis by simp
next
  case False
  then have now: "last_now s2 \<le> now" by simp
  show ?thesis
  proof (cases r)
    case (Inl message)
    from pinned_cancels [OF assms(4) now, of w]
    obtain u e where u: "cancel_jump intent now w s2 = (Inr (), u)"
      and e: "entries u (ji_notification_id intent) = Some e" "le_jump_nonce e = None" by blast
    have "handle_jump env key now w d = (Inl (Fail (ServiceJump message)), after_jump d u world)"
      by (simp add: Inl handle_jump_run [OF assms(1-3)] finish_jump_def then_op_def bind_op_def locked_def raise_def
          after_jump_def u)
    with e False show ?thesis unfolding Inl by auto
  next
    case (Inr x)
    from pinned_commits [OF assms(4) now, of w] False show ?thesis
      by (auto simp: Inr handle_jump_run [OF assms(1-3)] finish_jump_def then_op_def bind_op_def locked_def after_jump_def
          persist_snapshots_def drain_closed_eq Let_def split: prod.splits)
  qed
qed


definition demo_intent :: jump_intent where
  "demo_intent = \<lparr>ji_notification_id = 1, ji_nonce = 0, ji_source = demo_source\<rparr>"

lemma jump_correct_witness:
  "\<exists>u ok h. handle_jump (demo_service_env []) (ustr ''k'') 3 3 demo_daemon =
      (Inr (notification_response 1 DispUpdated ok), \<lparr>dn_scheduler = u\<lparr>closed := []\<rparr>, dn_history = h, dn_world = [demo_source]\<rparr>)
    \<and> entries u 1 = None"
proof -
  let ?s = "run_machine sched_step demo_new demo_calls"
  let ?s1 = "snd (begin_jump_by_key demo_key 3 3 ?s)"
  have key: "notification_key_new (ustr ''k'') = Inr demo_key"
    by (simp add: demo_key_def notification_key_new_def normalize_required_def normalize_bounded_def normalize_step_def
        is_display_control_def is_control_def limit_defs char_len_def)
  have run: "begin_jump_by_key demo_key 3 3 (dn_scheduler demo_daemon) = (Inr demo_intent, ?s1)"
    by (simp add: demo_daemon_def demo_intent_def demo_calls_def run_defs begin_jump_by_key_def begin_jump_inner_def key_or_fail_def)
  have wf: "wf_sched ?s1"
    using call_wf [OF demo_wf, of "BeginJumpByKeyCall demo_key" 3 3] by simp
  have "\<exists>e. entries ?s1 1 = Some e \<and> le_jump_nonce e = Some 0 \<and> timer_paused (le_timeout e)"
    by (simp add: demo_calls_def run_defs begin_jump_by_key_def begin_jump_inner_def key_or_fail_def)
  with wf have pinned: "still_pinned demo_intent ?s1" by (simp add: still_pinned_def demo_intent_def)
  have now: "\<not> 3 < last_now ?s1"
    by (simp add: demo_calls_def run_defs begin_jump_by_key_def begin_jump_inner_def key_or_fail_def)
  have jump: "se_jump (demo_service_env []) (ji_source demo_intent) None ?s1 (dn_world demo_daemon) = (Inr (), ?s1, [demo_source])"
    by (simp add: demo_service_env_def demo_intent_def demo_daemon_def)
  have "ji_notification_id demo_intent = 1" by (simp add: demo_intent_def)
  with jump_correct [OF key run jump pinned] now show ?thesis by auto
qed

section \<open>Actions of a renderer\<close>

lemma renderer_dismiss_triple:
  "triple (service_at wf_sched h)
     (bind_op (locked (then_op (dismiss i now w) drain_closed)) (\<lambda>ns. bind_op (persist_snapshots env ns) (\<lambda>_. ret ())))
     (\<lambda>_ d. \<exists>ns. drained (dn_scheduler d) \<and> gone i ns (dn_scheduler d)
        \<and> dn_history d = snd (persist_each (se_persist env) ns h)) service_safe"
proof -
  have "triple wf_sched (then_op (dismiss i now w) drain_closed) (\<lambda>_ s. drained s \<and> entries s i = None) (\<lambda>_. wf_sched)"
    unfolding dismiss_def by (rule triple_then [OF close_triple drain_triple])
  then show ?thesis
  proof (rule triple_bind [OF locked_triple])
    show "triple (service_at (\<lambda>s. drained s \<and> entries s i = None) h) (bind_op (persist_snapshots env ns) (\<lambda>_. ret ()))
        (\<lambda>_ d. \<exists>ns. drained (dn_scheduler d) \<and> gone i ns (dn_scheduler d)
          \<and> dn_history d = snd (persist_each (se_persist env) ns h)) service_safe" for ns
      by (rule triple_bind [OF persist_triple triple_ret]) auto
  qed
qed

lemma renderer_jump_triple:
  assumes "executor_ok env"
  shows "triple (service_at wf_sched h)
     (bind_op (locked (begin_jump i now w)) (\<lambda>intent.
      bind_op (execute_jump env (ji_source intent) window) (\<lambda>r.
      bind_op (finish_jump env intent now w r) (\<lambda>_. ret ()))))
     (\<lambda>_ d. drained (dn_scheduler d)) service_safe"
  by (rule triple_bind [OF locked_triple [OF begin_triple]], rule triple_bind [OF execute_triple [OF assms]],
      rule triple_bind [OF finish_jump_triple], rule triple_ret) blast

text \<open>
  What a renderer may do. A display ID that does not parse, one that names no live
  Notification and one that names a Toast are refused and nothing changes: only the live Attention is
  acted on, and only by its own display. Dismissing it there takes it off the screen and hands it to
  History; jumping to it never panics and keeps the scheduler well formed.
\<close>

theorem renderer_action_correct:
  fixes env :: "('h, 'w, 'v, 'e) service_env"
  assumes "executor_ok env" and "wf_sched (dn_scheduler d)"
  shows "let answer = (handle_renderer_action env display action now w d :: (('j, 'e) service_error fault + unit) \<times> _) in
    case parse_window_display_id (se_uuid env) display of
      Inl e \<Rightarrow> answer = (Inl (Fail e), d)
    | Inr (i, window) \<Rightarrow>
        (case live_notification (dn_scheduler d) i of
           None \<Rightarrow> answer = (Inl (Fail (ServiceScheduler NotificationNotLive)), d)
         | Some n \<Rightarrow>
             if n_presentation n \<noteq> Attention then answer = (Inl (Fail RendererActionNotAttention), d)
             else (case answer of
                 (Inl Panic, d') \<Rightarrow> False
               | (Inl (Fail e), d') \<Rightarrow> wf_sched (dn_scheduler d')
               | (Inr _, d') \<Rightarrow> drained (dn_scheduler d')
                   \<and> (action = DismissAction \<longrightarrow> live_notification (dn_scheduler d') i = None
                       \<and> (\<exists>ns. dn_history d' = snd (persist_each (se_persist env) ns (dn_history d))))))"
proof (cases "parse_window_display_id (se_uuid env) display :: ('j, 'e) service_error + _")
  case (Inl e)
  then show ?thesis
    by (simp add: Let_def handle_renderer_action_def service_result_def bind_op_def raise_def)
next
  case (Inr x)
  then obtain i window
    where parsed: "parse_window_display_id (se_uuid env) display = (Inr (i, window) :: ('j, 'e) service_error + _)" by (cases x) auto
  show ?thesis
  proof (cases "live_notification (dn_scheduler d) i")
    case None
    then show ?thesis by (simp add: Let_def handle_renderer_action_def service_result_def bind_op_def ret_def with_state_def raise_def parsed)
  next
    case (Some n)
    show ?thesis
    proof (cases "n_presentation n = Attention")
      case False
      with Some show ?thesis
        by (simp add: Let_def handle_renderer_action_def service_result_def bind_op_def ret_def with_state_def raise_def parsed)
    next
      case True
      have d: "service_at wf_sched (dn_history d) d" using assms(2) by (simp add: service_at_def)
      have run: "(handle_renderer_action env display action now w d :: (('j, 'e) service_error fault + unit) \<times> _) = (case action of
             DismissAction \<Rightarrow>
               bind_op (locked (then_op (dismiss i now w) drain_closed)) (\<lambda>ns.
               bind_op (persist_snapshots env ns) (\<lambda>_. ret ()))
           | JumpAction \<Rightarrow>
               bind_op (locked (begin_jump i now w)) (\<lambda>intent.
               bind_op (execute_jump env (ji_source intent) (Some window)) (\<lambda>r.
               bind_op (finish_jump env intent now w r) (\<lambda>_. ret ())))) d"
        using Some True
        by (simp add: Let_def handle_renderer_action_def service_result_def bind_op_def [of "ret _"] ret_def with_state_def parsed)
      let ?Q = "\<lambda>(_ :: unit) d' :: ('h, 'w) daemon_state. drained (dn_scheduler d')
          \<and> (action = DismissAction \<longrightarrow> live_notification (dn_scheduler d') i = None
              \<and> (\<exists>ns. dn_history d' = snd (persist_each (se_persist env) ns (dn_history d))))"
      let ?m = "(case action of
             DismissAction \<Rightarrow>
               bind_op (locked (then_op (dismiss i now w) drain_closed)) (\<lambda>ns.
               bind_op (persist_snapshots env ns) (\<lambda>_. ret ()))
           | JumpAction \<Rightarrow>
               bind_op (locked (begin_jump i now w)) (\<lambda>intent.
               bind_op (execute_jump env (ji_source intent) (Some window)) (\<lambda>r.
               bind_op (finish_jump env intent now w r) (\<lambda>_. ret ()))))"
      have triple: "triple (service_at wf_sched (dn_history d)) ?m ?Q
          (service_safe :: ('j, 'e) service_error \<Rightarrow> ('h, 'w) daemon_state \<Rightarrow> bool)"
      proof (cases action)
        case JumpAction
        show ?thesis unfolding JumpAction renderer_action.case
          by (rule triple_conseq [OF renderer_jump_triple [OF assms(1)]]) simp_all
      next
        case DismissAction
        show ?thesis unfolding DismissAction renderer_action.case
          by (rule triple_conseq [OF renderer_dismiss_triple [where i = i]]) (auto simp: gone_def)
      qed
      from tripleD [OF triple d, unfolded service_safe_def] show ?thesis
        by (simp add: Let_def parsed Some True run)
    qed
  qed
qed

lemma renderer_action_correct_witness:
  "handle_renderer_action (demo_service_env []) (ustr ''id:@1'') DismissAction 4 4 demo_daemon
     = (Inl (Fail (ServiceScheduler NotificationNotLive) :: (unit, unit) service_error fault), demo_daemon)"
proof -
  have "parse_window_display_id (se_uuid (demo_service_env [])) (ustr ''id:@1'') = (Inr (7, ustr ''@1'') :: (unit, unit) service_error + _)"
    by (simp add: parse_window_display_id_def split_once_def demo_service_env_def demo_uuid_def notification_id_from_str_def is_ascii_digit_def)
  moreover have "live_notification (dn_scheduler demo_daemon) 7 = None"
    by (simp add: demo_daemon_def demo_calls_def run_defs live_notification_def)
  moreover have "wf_sched (dn_scheduler demo_daemon)" using demo_wf by (simp add: demo_daemon_def)
  ultimately show ?thesis
    using renderer_action_correct [where ?'j = unit and display = "ustr ''id:@1''" and action = DismissAction and now = 4 and w = 4, OF demo_executor, of demo_daemon "[]"] by (simp add: Let_def)
qed

end
