(* ===== verification/Runtime_Requests.thy ===== *)
theory Runtime_Requests
  imports Protocol Config
begin

text \<open>
  The request path of \<open>src/daemon/runtime.rs\<close>: \<open>process_frame\<close> and what it shares between the
  connections, the result cache and the striped locks. Requests of one stripe wait for each other;
  all others interleave, so the shared state is a step relation.
\<close>

section \<open>One request\<close>

text \<open>The kinds of I/O errors the code distinguishes; paths are texts.\<close>

datatype io_kind = IoNotFound | IoConnectionRefused | IoAddrInUse | IoOther ustring

datatype 'j runtime_error =
    AlreadyRunning
  | InvalidRuntimeLimits
  | InvalidSocketPath ustring
  | SocketChanged
  | RequestTooLarge
  | RuntimeResponseTooLarge
  | StartupTimedOut
  | ShutdownTimedOut
  | ForcedShutdown
  | ResponseTimedOut
  | ConnectionClosed
  | ExecutableNotAbsolute
  | ConnectFailed io_kind
  | RuntimeIo ustring io_kind
  | RuntimePath path_error
  | RuntimeProtocol "'j protocol_error"
  | RuntimeJson 'j

definition IDEMPOTENCY_LOCK_STRIPES :: nat where "IDEMPOTENCY_LOCK_STRIPES = 64"

unbundle bit_operations_syntax

text \<open>The bytes of a UUID, most significant first, and the stripe of its lock.\<close>

definition uuid_bytes :: "notification_id \<Rightarrow> byte list" where
  "uuid_bytes i = map (\<lambda>k. ucast (drop_bit (8 * (15 - k)) i)) [0..<16]"

definition stripe_hash :: "byte list \<Rightarrow> 64 word" where
  "stripe_hash bytes = foldl (\<lambda>hash b. (hash * 31) XOR ucast b) 0 bytes"

definition stripe_of :: "notification_id \<Rightarrow> nat" where
  "stripe_of i = unat (stripe_hash (uuid_bytes i)) mod IDEMPOTENCY_LOCK_STRIPES"

text \<open>The writers of the two response objects are serde's.\<close>

record ('v, 'j) runtime_env =
  rt_json :: "('v, 'j) json_ops"
  rt_uuid :: uuid_ops
  rt_success :: "notification_id \<Rightarrow> 'v \<Rightarrow> 'j + byte list"
  rt_error :: "notification_id \<Rightarrow> ustring \<Rightarrow> 'j + byte list"

definition encode_error ::
  "('v, 'j) runtime_env \<Rightarrow> notification_id \<Rightarrow> ustring \<Rightarrow> 'j runtime_error + byte list" where
  "encode_error env i message = map_sum RuntimeJson id (rt_error env i message)"

text \<open>Up to the handler: an answer from the cache, or none yet.\<close>

definition begin_request ::
  "('v, 'j) runtime_env \<Rightarrow> 'v request_envelope \<Rightarrow> nat \<Rightarrow> ('v, byte list) request_cache
    \<Rightarrow> ('j runtime_error + byte list) option \<times> ('v, byte list) request_cache" where
  "begin_request env r now c =
     (case cache_lookup (re_request_id r) (re_value r) now c of
        (Replay response, c') \<Rightarrow> (Some (Inr response), c')
      | (PayloadMismatch, c') \<Rightarrow>
          (Some (encode_error env (re_request_id r) (ustr ''request ID reused with different payload'')), c')
      | (Miss, c') \<Rightarrow> (None, c'))"

definition response_of ::
  "('v, 'j) runtime_env \<Rightarrow> notification_id \<Rightarrow> ustring + 'v \<Rightarrow> 'j runtime_error + byte list" where
  "response_of env i result =
     bind_sum (case result of
         Inr v \<Rightarrow> map_sum RuntimeJson id (rt_success env i v)
       | Inl message \<Rightarrow> encode_error env i message) (\<lambda>response.
     if length response > MAX_REQUEST_BYTES then Inl RuntimeResponseTooLarge else Inr response)"

text \<open>
  After the handler, with the time of the lookup. A response that cannot be written or is too large
  is not cached. \<open>None\<close> is an insertion that does not return.
\<close>

definition finish_request ::
  "('v, 'j) runtime_env \<Rightarrow> 'v request_envelope \<Rightarrow> nat \<Rightarrow> ustring + 'v \<Rightarrow> ('v, byte list) request_cache
    \<Rightarrow> (('j runtime_error + byte list) \<times> ('v, byte list) request_cache) option" where
  "finish_request env r now result c =
     (case response_of env (re_request_id r) result of
        Inl e \<Rightarrow> Some (Inl e, c)
      | Inr response \<Rightarrow>
          map_option (\<lambda>c'. (Inr response, c')) (cache_insert (re_request_id r) (re_value r) response now c))"

text \<open>A frame that nothing else interleaves with; \<open>now\<close> is read once the stripe is held.\<close>

definition process_frame ::
  "('v, 'j) runtime_env \<Rightarrow> ('v request_envelope \<Rightarrow> 'w \<Rightarrow> (ustring + 'v) \<times> 'w) \<Rightarrow> byte list \<Rightarrow> nat
    \<Rightarrow> ('v, byte list) request_cache \<Rightarrow> 'w
    \<Rightarrow> (('j runtime_error + byte list) \<times> ('v, byte list) request_cache \<times> 'w) option" where
  "process_frame env handler frame now c w =
     (case envelope_decode (rt_json env) (rt_uuid env) frame of
        Inl e \<Rightarrow> Some (Inl (RuntimeProtocol e), c, w)
      | Inr r \<Rightarrow>
          (case begin_request env r now c of
             (Some a, c') \<Rightarrow> Some (a, c', w)
           | (None, c') \<Rightarrow>
               (case handler r w of
                  (result, w') \<Rightarrow> map_option (\<lambda>(a, c''). (a, c'', w')) (finish_request env r now result c'))))"

section \<open>Interleaved requests\<close>

text \<open>
  \<open>rq_running\<close> are the requests inside the handler, by the stripe they hold, with the time of their
  lookup. The last components record what happened: every call of the handler, every call that was
  dropped while the handler ran (its connection returned early, or the daemon stopped), and every
  answer with how it came about.
\<close>

datatype answer_source = FromCache | FromHandler

record ('v, 'j) requests =
  rq_cache :: "('v, byte list) request_cache"
  rq_running :: "nat \<rightharpoonup> 'v request_envelope \<times> nat"
  rq_clock :: nat
  rq_runs :: "'v request_envelope list"
  rq_dropped :: "'v request_envelope list"
  rq_answers :: "(answer_source \<times> 'v request_envelope \<times> ('j runtime_error + byte list)) list"

definition requests_new :: "nat \<Rightarrow> nat \<Rightarrow> nat \<Rightarrow> ('v, 'j) requests" where
  "requests_new capacity ttl t =
     \<lparr>rq_cache = request_cache_new capacity ttl, rq_running = Map.empty, rq_clock = t, rq_runs = [], rq_dropped = [],
      rq_answers = []\<rparr>"

inductive request_step :: "('v, 'j) runtime_env \<Rightarrow> ('v, 'j) requests \<Rightarrow> ('v, 'j) requests \<Rightarrow> bool"
  for env where
  Clock: "rq_clock s \<le> t \<Longrightarrow> request_step env s (s\<lparr>rq_clock := t\<rparr>)"
| Answered: "rq_running s (stripe_of (re_request_id r)) = None \<Longrightarrow>
    begin_request env r (rq_clock s) (rq_cache s) = (Some a, c) \<Longrightarrow>
    request_step env s (s\<lparr>rq_cache := c, rq_answers := rq_answers s @ [(FromCache, r, a)]\<rparr>)"
| Called: "rq_running s (stripe_of (re_request_id r)) = None \<Longrightarrow>
    begin_request env r (rq_clock s) (rq_cache s) = (None, c) \<Longrightarrow>
    request_step env s (s\<lparr>rq_cache := c, rq_running := (rq_running s)(stripe_of (re_request_id r) \<mapsto> (r, rq_clock s)),
      rq_runs := rq_runs s @ [r]\<rparr>)"
| Returned: "rq_running s k = Some (r, t) \<Longrightarrow> finish_request env r t result (rq_cache s) = Some (a, c) \<Longrightarrow>
    request_step env s (s\<lparr>rq_cache := c, rq_running := (rq_running s)(k := None),
      rq_answers := rq_answers s @ [(FromHandler, r, a)]\<rparr>)"
| Dropped: "rq_running s k = Some (r, t) \<Longrightarrow>
    request_step env s (s\<lparr>rq_running := (rq_running s)(k := None), rq_dropped := rq_dropped s @ [r]\<rparr>)"

inductive requests_reachable :: "('v, 'j) runtime_env \<Rightarrow> ('v, 'j) requests \<Rightarrow> ('v, 'j) requests \<Rightarrow> bool"
  for env s0 where
  Start: "requests_reachable env s0 s0"
| Step: "requests_reachable env s0 s \<Longrightarrow> request_step env s t \<Longrightarrow> requests_reachable env s0 t"

section \<open>The cache when its times are not in order\<close>

text \<open>
  A handler's answer is inserted with the time of its lookup, which other requests may have passed:
  the recency list need not be sorted by time. What holds regardless of the times:
\<close>

definition cache_order_ok :: "('v, 't) request_cache \<Rightarrow> bool" where
  "cache_order_ok c \<longleftrightarrow> distinct (rc_order c) \<and> set (rc_order c) = dom (rc_entries c) \<and> 0 < rc_capacity c
     \<and> length (rc_order c) \<le> rc_capacity c"

lemma order_len: "distinct (rc_order c) \<Longrightarrow> set (rc_order c) = dom (rc_entries c) \<Longrightarrow> cache_len c = length (rc_order c)"
  by (metis cache_len_def distinct_card)

lemma order_ok_tl:
  assumes "cache_order_ok c" and "rc_order c = i # rest"
  shows "cache_order_ok (c\<lparr>rc_order := rest, rc_entries := (rc_entries c)(i := None)\<rparr>)"
  using assms by (auto simp: cache_order_ok_def)

lemma expire_order_ok:
  "cache_order_ok c \<Longrightarrow> cache_order_ok (expire now c) \<and> rc_capacity (expire now c) = rc_capacity c \<and> rc_ttl (expire now c) = rc_ttl c"
proof (induction now c rule: expire.induct)
  case (1 now c)
  show ?case
  proof (cases "rc_order c")
    case Nil
    with "1.prems" show ?thesis by (subst (1 2 3) expire.simps) simp
  next
    case (Cons i rest)
    then obtain e where e: "rc_entries c i = Some e" using "1.prems" by (force simp: cache_order_ok_def)
    show ?thesis
    proof (cases "now - ce_touched_at e < rc_ttl c")
      case True
      with Cons e "1.prems" show ?thesis by (subst (1 2 3) expire.simps) simp
    next
      case False
      from "1.IH"(2) [OF Cons e False order_ok_tl [OF "1.prems" Cons]] Cons e False show ?thesis
        by (subst (1 2 3) expire.simps) simp
    qed
  qed
qed

text \<open>While nothing reaches its time to live, nothing expires.\<close>

lemma expire_fresh:
  assumes "\<And>i e. rc_entries c i = Some e \<Longrightarrow> now - ce_touched_at e < rc_ttl c" and "cache_order_ok c"
  shows "expire now c = c"
proof (cases "rc_order c")
  case Nil
  then show ?thesis by (subst expire.simps) simp
next
  case (Cons i rest)
  then obtain e where "rc_entries c i = Some e" using assms(2) by (force simp: cache_order_ok_def)
  with assms(1) [OF this] Cons show ?thesis by (subst expire.simps) simp
qed

lemma evict_at_most_one:
  assumes "distinct (rc_order c)" and "set (rc_order c) = dom (rc_entries c)" and "0 < rc_capacity c"
    and "length (rc_order c) \<le> Suc (rc_capacity c)"
  shows "\<exists>d. evict c = Some d \<and> cache_order_ok d \<and> rc_capacity d = rc_capacity c \<and> rc_ttl d = rc_ttl c
    \<and> (length (rc_order c) \<le> rc_capacity c \<longrightarrow> d = c)"
proof (cases "length (rc_order c) \<le> rc_capacity c")
  case True
  then have "evict c = Some c" using order_len [OF assms(1,2)] by (subst evict.simps) simp
  with True assms show ?thesis by (auto simp: cache_order_ok_def)
next
  case False
  then obtain i rest where Cons: "rc_order c = i # rest" by (cases "rc_order c") auto
  let ?d = "c\<lparr>rc_order := rest, rc_entries := (rc_entries c)(i := None)\<rparr>"
  have d: "cache_order_ok ?d" using assms Cons by (auto simp: cache_order_ok_def)
  then have "evict ?d = Some ?d" by (subst evict.simps) (simp add: order_len cache_order_ok_def)
  moreover have "evict c = evict ?d" using False Cons order_len [OF assms(1,2)] by (subst evict.simps) simp
  ultimately show ?thesis using False d by auto
qed

lemma lookup_order_ok:
  assumes "cache_order_ok c"
  shows "cache_order_ok (snd (cache_lookup i v now c))" "rc_capacity (snd (cache_lookup i v now c)) = rc_capacity c"
proof -
  let ?x = "expire now c"
  have x: "cache_order_ok ?x" "rc_capacity ?x = rc_capacity c" using expire_order_ok [OF assms] by blast+
  have "cache_order_ok (touch i (?x\<lparr>rc_entries := (rc_entries ?x)(i \<mapsto> e')\<rparr>))" if e: "rc_entries ?x i = Some e" for e e'
  proof -
    have "i \<in> set (rc_order ?x)" using x(1) e by (auto simp: cache_order_ok_def)
    then have "length (remove1 i (rc_order ?x)) + 1 = length (rc_order ?x)"
      using length_pos_if_in_set [of i "rc_order ?x"] by (simp add: length_remove1)
    with x(1) \<open>i \<in> set (rc_order ?x)\<close> show ?thesis by (auto simp: cache_order_ok_def touch_def)
  qed
  with x show "cache_order_ok (snd (cache_lookup i v now c))" "rc_capacity (snd (cache_lookup i v now c)) = rc_capacity c"
    by (auto simp: cache_lookup_def Let_def touch_def split: option.splits)
qed

lemma insert_returns:
  assumes "cache_order_ok c"
  shows "\<exists>d. cache_insert i v t now c = Some d \<and> cache_order_ok d"
proof -
  let ?x = "expire now c"
  let ?w = "touch i (?x\<lparr>rc_entries := (rc_entries ?x)(i \<mapsto> \<lparr>ce_payload = v, ce_response = t, ce_touched_at = now\<rparr>)\<rparr>)"
  have x: "cache_order_ok ?x" using expire_order_ok [OF assms] by blast
  have "length (rc_order ?w) \<le> Suc (rc_capacity ?w)"
    using x by (auto simp: touch_def cache_order_ok_def length_remove1)
  moreover have "distinct (rc_order ?w)" "set (rc_order ?w) = dom (rc_entries ?w)" "0 < rc_capacity ?w"
    using x by (auto simp: touch_def cache_order_ok_def)
  ultimately show ?thesis using evict_at_most_one [of ?w] by (auto simp: cache_insert_def Let_def)
qed

section \<open>No request waits for ever\<close>

definition requests_ok :: "('v, 'j) requests \<Rightarrow> bool" where
  "requests_ok s \<longleftrightarrow> cache_order_ok (rq_cache s)
     \<and> (\<forall>k r t. rq_running s k = Some (r, t) \<longrightarrow> stripe_of (re_request_id r) = k \<and> t \<le> rq_clock s)"

lemma begin_order_ok:
  "begin_request env r now c = (a, d) \<Longrightarrow> cache_order_ok c \<Longrightarrow> cache_order_ok d \<and> rc_capacity d = rc_capacity c"
  using lookup_order_ok [of c "re_request_id r" "re_value r" now]
  by (auto simp: begin_request_def split: prod.splits cache_lookup.splits)

lemma insert_order_ok: "cache_insert i v response now c = Some d \<Longrightarrow> cache_order_ok c \<Longrightarrow> cache_order_ok d"
  using insert_returns [of c i v response now] by auto

lemma finish_order_ok:
  "finish_request env r now result c = Some (a, d) \<Longrightarrow> cache_order_ok c \<Longrightarrow> cache_order_ok d"
  by (auto simp: finish_request_def insert_order_ok split: sum.splits)

lemma finish_returns:
  "cache_order_ok c \<Longrightarrow> \<exists>a d. finish_request env r now result c = Some (a, d)"
  using insert_returns [of c "re_request_id r" "re_value r" _ now]
  by (fastforce simp: finish_request_def split: sum.splits)

lemma step_requests_ok: "request_step env s t \<Longrightarrow> requests_ok s \<Longrightarrow> requests_ok t"
  by (induction rule: request_step.induct)
    (fastforce simp: requests_ok_def dest: begin_order_ok finish_order_ok split: if_splits)+

lemma reachable_requests_ok: "requests_reachable env s t \<Longrightarrow> requests_ok s \<Longrightarrow> requests_ok t"
  by (induction rule: requests_reachable.induct) (auto intro: step_requests_ok)

lemma requests_new_ok: "0 < capacity \<Longrightarrow> requests_ok (requests_new capacity ttl t)"
  by (simp add: requests_ok_def requests_new_def cache_order_ok_def request_cache_new_def)

text \<open>
  Claim C16. No request waits for ever, however requests interleave and whatever their handlers
  answer. When the stripe of a request is free, it is answered from the cache or handed to the
  handler at once; otherwise the stripe is held by a request inside the handler, and as soon as the
  handler returns, with whatever result, the answer is given and the stripe is free.
\<close>

theorem requests_progress:
  assumes "0 < capacity" and "requests_reachable env (requests_new capacity ttl t0) s"
  shows "case rq_running s (stripe_of (re_request_id r)) of
      None \<Rightarrow> (\<exists>t. request_step env s t
         \<and> ((\<exists>a. rq_answers t = rq_answers s @ [(FromCache, r, a)] \<and> rq_runs t = rq_runs s)
           \<or> (rq_answers t = rq_answers s \<and> rq_runs t = rq_runs s @ [r]
               \<and> rq_running t (stripe_of (re_request_id r)) = Some (r, rq_clock s))))
    | Some (r', t') \<Rightarrow> stripe_of (re_request_id r') = stripe_of (re_request_id r)
         \<and> (\<forall>result. \<exists>a c. finish_request env r' t' result (rq_cache s) = Some (a, c)
             \<and> request_step env s (s\<lparr>rq_cache := c, rq_running := (rq_running s)(stripe_of (re_request_id r) := None),
                  rq_answers := rq_answers s @ [(FromHandler, r', a)]\<rparr>))"
proof -
  have ok: "requests_ok s" by (rule reachable_requests_ok [OF assms(2) requests_new_ok [OF assms(1)]])
  show ?thesis
  proof (cases "rq_running s (stripe_of (re_request_id r))")
    case None
    obtain a c where run: "begin_request env r (rq_clock s) (rq_cache s) = (a, c)" by force
    then show ?thesis
      using Answered [OF None, of env] Called [OF None, of env] None by (cases a) fastforce+
  next
    case (Some x)
    obtain r' t' where x: "x = (r', t')" by force
    have "\<exists>a c. finish_request env r' t' result (rq_cache s) = Some (a, c)" for result
      by (rule finish_returns) (use ok in \<open>simp add: requests_ok_def\<close>)
    with Some x ok Returned [of s "stripe_of (re_request_id r)" r' t' env] show ?thesis
      by (fastforce simp: requests_ok_def)
  qed
qed

section \<open>A request is executed once\<close>

definition runs_of :: "('v, 'j) requests \<Rightarrow> notification_id \<Rightarrow> nat" where
  "runs_of s i = length (filter (\<lambda>r. re_request_id r = i) (rq_runs s))"

text \<open>Calls of the handler whose response could not be sent.\<close>

definition unsent :: "notification_id \<Rightarrow> answer_source \<times> 'v request_envelope \<times> ('j runtime_error + byte list) \<Rightarrow> bool" where
  "unsent i x = (case x of (source, r, a) \<Rightarrow> source = FromHandler \<and> re_request_id r = i \<and> isl a)"

definition unsent_of :: "('v, 'j) requests \<Rightarrow> notification_id \<Rightarrow> nat" where
  "unsent_of s i = length (filter (unsent i) (rq_answers s))"

definition dropped_of :: "('v, 'j) requests \<Rightarrow> notification_id \<Rightarrow> nat" where
  "dropped_of s i = length (filter (\<lambda>r. re_request_id r = i) (rq_dropped s))"

definition running_id :: "('v, 'j) requests \<Rightarrow> notification_id \<Rightarrow> bool" where
  "running_id s i \<longleftrightarrow> (\<exists>r t. rq_running s (stripe_of i) = Some (r, t) \<and> re_request_id r = i)"

definition run_ids :: "('v, 'j) requests \<Rightarrow> notification_id set" where
  "run_ids s = re_request_id ` set (rq_runs s)"

text \<open>The time to live of the first answer is not over, and the cache has room for all IDs.\<close>

definition within_cache :: "nat \<Rightarrow> nat \<Rightarrow> nat \<Rightarrow> ('v, 'j) requests \<Rightarrow> bool" where
  "within_cache capacity ttl t0 s \<longleftrightarrow> rq_clock s - t0 < ttl \<and> card (run_ids s) \<le> capacity"

definition entry_of :: "('v, 'j) requests \<Rightarrow> notification_id \<Rightarrow> ('v, byte list) cache_entry option" where
  "entry_of s i = rc_entries (rq_cache s) i"

definition mismatch_answer :: "('v, 'j) runtime_env \<Rightarrow> 'v request_envelope \<Rightarrow> 'j runtime_error + byte list" where
  "mismatch_answer env r = encode_error env (re_request_id r) (ustr ''request ID reused with different payload'')"

definition answer_ok :: "('v, 'j) runtime_env \<Rightarrow> ('v, 'j) requests
    \<Rightarrow> answer_source \<times> 'v request_envelope \<times> ('j runtime_error + byte list) \<Rightarrow> bool" where
  "answer_ok env s x = (case x of (source, r, a) \<Rightarrow> source = FromHandler \<and> isl a
     \<or> (\<exists>e. entry_of s (re_request_id r) = Some e
          \<and> a = (if ce_payload e = re_value r then Inr (ce_response e) else mismatch_answer env r)))"

definition exact :: "('v, 'j) runtime_env \<Rightarrow> nat \<Rightarrow> nat \<Rightarrow> nat \<Rightarrow> ('v, 'j) requests \<Rightarrow> bool" where
  "exact env capacity ttl t0 s \<longleftrightarrow> requests_ok s
     \<and> rc_capacity (rq_cache s) = capacity \<and> rc_ttl (rq_cache s) = ttl \<and> t0 \<le> rq_clock s
     \<and> (\<forall>i e. entry_of s i = Some e \<longrightarrow> t0 \<le> ce_touched_at e)
     \<and> (\<forall>k r t. rq_running s k = Some (r, t) \<longrightarrow> t0 \<le> t)
     \<and> (\<forall>i. running_id s i \<longrightarrow> entry_of s i = None)
     \<and> (\<forall>i. runs_of s i = of_bool (entry_of s i \<noteq> None) + of_bool (running_id s i) + unsent_of s i + dropped_of s i)
     \<and> (\<forall>x \<in> set (rq_answers s). answer_ok env s x)"

text \<open>What the two halves of a request do to a cache in which nothing expires.\<close>

lemma begin_fresh:
  assumes "expire now c = c" and "begin_request env r now c = (a, d)"
  shows "(a = None \<and> rc_entries c (re_request_id r) = None \<and> d = c)
    \<or> (\<exists>e. rc_entries c (re_request_id r) = Some e \<and> ce_payload e \<noteq> re_value r \<and> a = Some (mismatch_answer env r) \<and> d = c)
    \<or> (\<exists>e. rc_entries c (re_request_id r) = Some e \<and> ce_payload e = re_value r \<and> a = Some (Inr (ce_response e))
         \<and> rc_entries d = (rc_entries c)(re_request_id r \<mapsto> e\<lparr>ce_touched_at := now\<rparr>) \<and> rc_ttl d = rc_ttl c)"
  using assms by (auto simp: begin_request_def cache_lookup_def Let_def mismatch_answer_def touch_def
      split: option.splits if_splits)

lemma insert_fresh:
  assumes "expire now c = c" and "cache_order_ok c" and "rc_entries c i = None" and "card (dom (rc_entries c)) < rc_capacity c"
  shows "\<exists>d. cache_insert i v t now c = Some d \<and> cache_order_ok d \<and> rc_capacity d = rc_capacity c \<and> rc_ttl d = rc_ttl c
    \<and> rc_entries d = (rc_entries c)(i \<mapsto> \<lparr>ce_payload = v, ce_response = t, ce_touched_at = now\<rparr>)"
proof -
  let ?w = "touch i (c\<lparr>rc_entries := (rc_entries c)(i \<mapsto> \<lparr>ce_payload = v, ce_response = t, ce_touched_at = now\<rparr>)\<rparr>)"
  have len: "length (rc_order c) = card (dom (rc_entries c))"
    using assms(2) order_len [of c] by (simp add: cache_order_ok_def cache_len_def)
  have "i \<notin> set (rc_order c)" using assms(2,3) by (auto simp: cache_order_ok_def)
  then have "rc_order ?w = rc_order c @ [i]" by (simp add: touch_def remove1_idem)
  moreover have "rc_entries ?w = (rc_entries c)(i \<mapsto> \<lparr>ce_payload = v, ce_response = t, ce_touched_at = now\<rparr>)"
    "rc_capacity ?w = rc_capacity c" "rc_ttl ?w = rc_ttl c" by (simp_all add: touch_def)
  moreover have "distinct (rc_order c @ [i])" "set (rc_order c @ [i]) = dom (rc_entries ?w)" "0 < rc_capacity c"
    using assms(2,3) \<open>i \<notin> set (rc_order c)\<close> by (auto simp: cache_order_ok_def touch_def)
  ultimately show ?thesis
    using evict_at_most_one [of ?w] len assms(1,4) by (auto simp: cache_insert_def)
qed

lemma exact_fresh:
  assumes "exact env capacity ttl t0 s" and "now \<le> rq_clock s" and "rq_clock s - t0 < ttl"
  shows "expire now (rq_cache s) = rq_cache s"
proof (rule expire_fresh)
  show "cache_order_ok (rq_cache s)" using assms(1) by (simp add: exact_def requests_ok_def)
  fix i e
  assume "rc_entries (rq_cache s) i = Some e"
  with assms(1) have "t0 \<le> ce_touched_at e" "rc_ttl (rq_cache s) = ttl" by (auto simp: exact_def entry_of_def)
  with assms(2,3) show "now - ce_touched_at e < rc_ttl (rq_cache s)" by linarith
qed

lemma exact_answer: "exact env capacity ttl t0 s \<Longrightarrow> x \<in> set (rq_answers s) \<Longrightarrow> answer_ok env s x"
  by (simp add: exact_def)

text \<open>The entries stay, with what was executed and answered.\<close>

lemma answer_ok_mono:
  assumes "answer_ok env s x" and "\<And>i e. entry_of s i = Some e \<Longrightarrow>
      \<exists>e'. entry_of t i = Some e' \<and> ce_payload e' = ce_payload e \<and> ce_response e' = ce_response e"
  shows "answer_ok env t x"
  using assms by (cases x) (fastforce simp: answer_ok_def)

lemma runs_of_append: "rq_runs t = rq_runs s @ [r] \<Longrightarrow> runs_of t i = runs_of s i + of_bool (re_request_id r = i)"
  by (simp add: runs_of_def)

lemma unsent_of_append: "rq_answers t = rq_answers s @ [x] \<Longrightarrow> unsent_of t i = unsent_of s i + of_bool (unsent i x)"
  by (simp add: unsent_of_def)

lemma exact_clock: "exact env capacity ttl t0 s \<Longrightarrow> rq_clock s \<le> t \<Longrightarrow> exact env capacity ttl t0 (s\<lparr>rq_clock := t\<rparr>)"
  by (fastforce simp: exact_def requests_ok_def entry_of_def running_id_def runs_of_def unsent_of_def dropped_of_def answer_ok_def)

lemma exact_answered:
  assumes "exact env capacity ttl t0 s" and "rq_clock s - t0 < ttl"
    and "begin_request env r (rq_clock s) (rq_cache s) = (Some a, c)"
  shows "exact env capacity ttl t0 (s\<lparr>rq_cache := c, rq_answers := rq_answers s @ [(FromCache, r, a)]\<rparr>)"
proof -
  let ?t = "s\<lparr>rq_cache := c, rq_answers := rq_answers s @ [(FromCache, r, a)]\<rparr>"
  have ok: "cache_order_ok c" "rc_capacity c = capacity"
    using begin_order_ok [OF assms(3)] assms(1) by (auto simp: exact_def requests_ok_def)
  obtain e where e: "entry_of s (re_request_id r) = Some e"
    and a: "a = (if ce_payload e = re_value r then Inr (ce_response e) else mismatch_answer env r)"
    and c: "c = rq_cache s \<or> rc_entries c = (rc_entries (rq_cache s))(re_request_id r \<mapsto> e\<lparr>ce_touched_at := rq_clock s\<rparr>)
      \<and> rc_ttl c = rc_ttl (rq_cache s)"
    using begin_fresh [OF exact_fresh [OF assms(1) order_refl assms(2)] assms(3)] by (auto simp: entry_of_def)
  have none: "entry_of ?t i = None \<longleftrightarrow> entry_of s i = None" for i
    using c e by (auto simp: entry_of_def split: if_splits)
  have same: "\<exists>e'. entry_of ?t i = Some e' \<and> ce_payload e' = ce_payload x \<and> ce_response e' = ce_response x
      \<and> (e' = x \<or> ce_touched_at e' = rq_clock s)" if "entry_of s i = Some x" for i x
    using that c e by (auto simp: entry_of_def)
  have run: "running_id ?t i = running_id s i" "runs_of ?t i = runs_of s i" "unsent_of ?t i = unsent_of s i"
      "dropped_of ?t i = dropped_of s i" for i
    by (simp_all add: running_id_def runs_of_def unsent_of_def unsent_def dropped_of_def)
  have "answer_ok env ?t (FromCache, r, a)"
    using same [OF e] a by (auto simp: answer_ok_def)
  moreover have "answer_ok env ?t x" if "x \<in> set (rq_answers s)" for x
    by (rule answer_ok_mono [OF exact_answer [OF assms(1) that]]) (use same in blast)
  moreover have "t0 \<le> ce_touched_at e'" if "entry_of ?t i = Some e'" for i e'
  proof -
    have "entry_of s i \<noteq> None" using none [of i] that by (metis option.distinct(1))
    then obtain x where "entry_of s i = Some x" by blast
    with same [OF this] that assms(1) show ?thesis by (fastforce simp: exact_def)
  qed
  moreover have "requests_ok ?t" using assms(1) ok(1) by (simp add: exact_def requests_ok_def)
  moreover have "rc_ttl c = ttl" using c assms(1) by (auto simp: exact_def)
  ultimately show ?thesis using assms(1) ok(2) unfolding exact_def run none by simp
qed


lemma exact_called:
  assumes "exact env capacity ttl t0 s" and "rq_clock s - t0 < ttl"
    and "rq_running s (stripe_of (re_request_id r)) = None"
    and "begin_request env r (rq_clock s) (rq_cache s) = (None, c)"
  shows "exact env capacity ttl t0 (s\<lparr>rq_cache := c,
      rq_running := (rq_running s)(stripe_of (re_request_id r) \<mapsto> (r, rq_clock s)), rq_runs := rq_runs s @ [r]\<rparr>)"
proof -
  let ?t = "s\<lparr>rq_cache := c, rq_running := (rq_running s)(stripe_of (re_request_id r) \<mapsto> (r, rq_clock s)),
      rq_runs := rq_runs s @ [r]\<rparr>"
  have c: "c = rq_cache s" and none: "entry_of s (re_request_id r) = None"
    using begin_fresh [OF exact_fresh [OF assms(1) order_refl assms(2)] assms(4)] by (auto simp: entry_of_def)
  have entry: "entry_of ?t i = entry_of s i" for i by (simp add: entry_of_def c)
  have not_running: "\<not> running_id s i" if "stripe_of i = stripe_of (re_request_id r)" for i
    using assms(3) that by (simp add: running_id_def)
  have run: "running_id ?t i \<longleftrightarrow> running_id s i \<or> i = re_request_id r" for i
    using not_running [of i] by (cases "stripe_of i = stripe_of (re_request_id r)") (auto simp: running_id_def)
  have "runs_of ?t i = of_bool (entry_of ?t i \<noteq> None) + of_bool (running_id ?t i) + unsent_of ?t i + dropped_of ?t i" for i
    using assms(1) none not_running [of i]
    by (cases "i = re_request_id r") (simp_all add: exact_def entry run runs_of_append [of ?t s r] unsent_of_def dropped_of_def)
  moreover have "answer_ok env ?t x" if "x \<in> set (rq_answers s)" for x
    by (rule answer_ok_mono [OF exact_answer [OF assms(1) that]]) (simp add: entry)
  moreover have "requests_ok ?t" using assms(1) by (auto simp: exact_def requests_ok_def c)
  ultimately show ?thesis using assms(1) none unfolding exact_def entry run by (auto simp: c)
qed

lemma run_ids_exact:
  assumes "exact env capacity ttl t0 s"
  shows "dom (rc_entries (rq_cache s)) \<union> {i. running_id s i} \<subseteq> run_ids s"
proof
  fix i
  assume "i \<in> dom (rc_entries (rq_cache s)) \<union> {i. running_id s i}"
  then have "0 < runs_of s i" using assms by (auto simp: exact_def entry_of_def)
  then show "i \<in> run_ids s" unfolding runs_of_def run_ids_def by (auto simp: filter_empty_conv)
qed

lemma exact_returned:
  assumes "exact env capacity ttl t0 s" and "within_cache capacity ttl t0 s"
    and "rq_running s k = Some (r, t)" and "finish_request env r t result (rq_cache s) = Some (a, c)"
  shows "exact env capacity ttl t0 (s\<lparr>rq_cache := c, rq_running := (rq_running s)(k := None),
      rq_answers := rq_answers s @ [(FromHandler, r, a)]\<rparr>)"
proof -
  let ?t = "s\<lparr>rq_cache := c, rq_running := (rq_running s)(k := None), rq_answers := rq_answers s @ [(FromHandler, r, a)]\<rparr>"
  let ?i = "re_request_id r"
  have k: "stripe_of ?i = k" and t: "t0 \<le> t" "t \<le> rq_clock s"
    using assms(1,3) by (auto simp: exact_def requests_ok_def)
  have running: "running_id s ?i" using assms(3) k by (simp add: running_id_def)
  then have none: "entry_of s ?i = None" using assms(1) by (simp add: exact_def)
  have other: "running_id s i \<longleftrightarrow> i = ?i \<or> running_id ?t i" and gone: "\<not> running_id ?t ?i" for i
    using assms(3) k by (auto simp: running_id_def)
  have ok: "cache_order_ok (rq_cache s)" using assms(1) by (simp add: exact_def requests_ok_def)
  have c: "(isl a \<and> c = rq_cache s) \<or> (\<exists>response. a = Inr response \<and> cache_order_ok c \<and> rc_capacity c = rc_capacity (rq_cache s)
      \<and> rc_ttl c = rc_ttl (rq_cache s) \<and> rc_entries c = (rc_entries (rq_cache s))(?i \<mapsto>
          \<lparr>ce_payload = re_value r, ce_response = response, ce_touched_at = t\<rparr>))"
  proof (cases "response_of env ?i result")
    case (Inr response)
    have "finite (run_ids s)" by (simp add: run_ids_def)
    then have "card (insert ?i (dom (rc_entries (rq_cache s)))) \<le> card (run_ids s)"
      using run_ids_exact [OF assms(1)] running by (intro card_mono) auto
    moreover have "finite (dom (rc_entries (rq_cache s)))" using ok by (metis List.finite_set cache_order_ok_def)
    moreover have "?i \<notin> dom (rc_entries (rq_cache s))" using none by (simp add: entry_of_def domIff)
    ultimately have room: "card (dom (rc_entries (rq_cache s))) < rc_capacity (rq_cache s)"
      using assms(1,2) by (simp add: exact_def within_cache_def)
    have fresh: "expire t (rq_cache s) = rq_cache s"
      using exact_fresh [OF assms(1) t(2)] assms(2) by (simp add: within_cache_def)
    have absent: "rc_entries (rq_cache s) ?i = None" using none by (simp add: entry_of_def)
    obtain d where "cache_insert ?i (re_value r) response t (rq_cache s) = Some d"
      and d: "cache_order_ok d" "rc_capacity d = rc_capacity (rq_cache s)" "rc_ttl d = rc_ttl (rq_cache s)"
        "rc_entries d = (rc_entries (rq_cache s))(?i \<mapsto>
          \<lparr>ce_payload = re_value r, ce_response = response, ce_touched_at = t\<rparr>)"
      using insert_fresh [OF fresh ok absent room] by blast
    then have "a = Inr response" "c = d" using assms(4) Inr by (simp_all add: finish_request_def)
    with d show ?thesis by simp
  next
    case (Inl e)
    then have "a = Inl e" "c = rq_cache s" using assms(4) by (simp_all add: finish_request_def)
    then show ?thesis by simp
  qed
  have entry: "entry_of ?t i = (if isl a \<or> i \<noteq> ?i then entry_of s i
      else Some \<lparr>ce_payload = re_value r, ce_response = projr a, ce_touched_at = t\<rparr>)" for i
    using c by (auto simp: entry_of_def)
  have grown: "\<exists>e'. entry_of ?t i = Some e' \<and> ce_payload e' = ce_payload e \<and> ce_response e' = ce_response e"
    if "entry_of s i = Some e" for i e
    using that none by (auto simp: entry)
  have "runs_of ?t i = of_bool (entry_of ?t i \<noteq> None) + of_bool (running_id ?t i) + unsent_of ?t i + dropped_of ?t i" for i
  proof -
    have "runs_of s i = of_bool (entry_of s i \<noteq> None) + of_bool (running_id s i) + unsent_of s i + dropped_of s i"
      using assms(1) by (simp add: exact_def)
    moreover have "runs_of ?t i = runs_of s i" "dropped_of ?t i = dropped_of s i"
      by (simp_all add: runs_of_def dropped_of_def)
    moreover have "unsent_of ?t i = unsent_of s i + of_bool (?i = i \<and> isl a)"
      by (simp add: unsent_of_append [of ?t s "(FromHandler, r, a)"] unsent_def)
    ultimately show ?thesis using none other [of i] gone running by (cases "i = ?i") (auto simp: entry)
  qed
  moreover have "answer_ok env ?t x" if "x \<in> set (rq_answers s)" for x
    by (rule answer_ok_mono [OF exact_answer [OF assms(1) that]]) (rule grown)
  moreover have "answer_ok env ?t (FromHandler, r, a)" using c by (auto simp: answer_ok_def entry)
  moreover have "requests_ok ?t" using assms(1) c by (auto simp: exact_def requests_ok_def)
  moreover have "running_id ?t i \<Longrightarrow> entry_of ?t i = None" for i
    using other [of i] gone assms(1) by (auto simp: entry exact_def)
  moreover have "t0 \<le> ce_touched_at e" if "entry_of ?t i = Some e" for i e
    using that t(1) assms(1) by (auto simp: entry exact_def split: if_splits)
  ultimately show ?thesis using assms(1) c unfolding exact_def by auto
qed

lemma exact_dropped:
  assumes "exact env capacity ttl t0 s" and "rq_running s k = Some (r, t)"
  shows "exact env capacity ttl t0 (s\<lparr>rq_running := (rq_running s)(k := None), rq_dropped := rq_dropped s @ [r]\<rparr>)"
proof -
  let ?t = "s\<lparr>rq_running := (rq_running s)(k := None), rq_dropped := rq_dropped s @ [r]\<rparr>"
  let ?i = "re_request_id r"
  have k: "stripe_of ?i = k" using assms by (auto simp: exact_def requests_ok_def)
  have running: "running_id s ?i" using assms(2) k by (simp add: running_id_def)
  have other: "running_id s i \<longleftrightarrow> i = ?i \<or> running_id ?t i" and gone: "\<not> running_id ?t ?i" for i
    using assms(2) k by (auto simp: running_id_def)
  have entry: "entry_of ?t i = entry_of s i" for i by (simp add: entry_of_def)
  have "runs_of ?t i = of_bool (entry_of ?t i \<noteq> None) + of_bool (running_id ?t i) + unsent_of ?t i + dropped_of ?t i" for i
  proof -
    have "runs_of s i = of_bool (entry_of s i \<noteq> None) + of_bool (running_id s i) + unsent_of s i + dropped_of s i"
      using assms(1) by (simp add: exact_def)
    moreover have "runs_of ?t i = runs_of s i" "unsent_of ?t i = unsent_of s i"
      "dropped_of ?t i = dropped_of s i + of_bool (?i = i)"
      by (simp_all add: runs_of_def unsent_of_def dropped_of_def)
    ultimately show ?thesis using other [of i] gone running by (cases "i = ?i") (auto simp: entry)
  qed
  moreover have "answer_ok env ?t x" if "x \<in> set (rq_answers s)" for x
    by (rule answer_ok_mono [OF exact_answer [OF assms(1) that]]) (simp add: entry)
  moreover have "requests_ok ?t" using assms(1) by (auto simp: exact_def requests_ok_def)
  ultimately show ?thesis using assms(1) other unfolding exact_def entry by auto
qed

lemma within_mono:
  assumes "request_step env s t" and "within_cache capacity ttl t0 t"
  shows "within_cache capacity ttl t0 s"
  using assms
proof (induction rule: request_step.induct)
  case (Called s r c)
  have "card (run_ids s) \<le> card (insert (re_request_id r) (run_ids s))"
    by (rule card_mono) (auto simp: run_ids_def)
  with Called.prems show ?case by (simp add: within_cache_def run_ids_def)
qed (auto simp: within_cache_def run_ids_def)

lemma step_exact:
  assumes "request_step env s t" and "exact env capacity ttl t0 s" and "within_cache capacity ttl t0 t"
  shows "exact env capacity ttl t0 t"
  using assms(1) within_mono [OF assms(1,3)] assms(2)
  by (induction rule: request_step.induct)
    (simp_all add: exact_clock exact_answered exact_called exact_returned exact_dropped within_cache_def)

lemma reachable_exact:
  "requests_reachable env s t \<Longrightarrow> exact env capacity ttl t0 s \<Longrightarrow> within_cache capacity ttl t0 t \<Longrightarrow> exact env capacity ttl t0 t"
  by (induction rule: requests_reachable.induct) (auto intro: step_exact within_mono)

lemma requests_new_exact: "0 < capacity \<Longrightarrow> exact env capacity ttl t0 (requests_new capacity ttl t0)"
  using requests_new_ok [of capacity ttl t0]
  by (simp add: exact_def) (simp add: requests_new_def request_cache_new_def entry_of_def running_id_def runs_of_def unsent_of_def dropped_of_def)


text \<open>A request that is executed and then asked for again.\<close>

definition demo_runtime :: "(demo_json, unit) runtime_env" where
  "demo_runtime = \<lparr>rt_json = demo_json demo_request, rt_uuid = demo_uuid,
     rt_success = (\<lambda>i v. Inr [1]), rt_error = (\<lambda>i message. Inr [2])\<rparr>"

definition demo_envelope :: "demo_json request_envelope" where
  "demo_envelope = \<lparr>re_request_id = 7, re_kind = JumpKind, re_value = DemoNull\<rparr>"

lemma demo_miss: "begin_request demo_runtime demo_envelope 0 (request_cache_new 2 10) = (None, request_cache_new 2 10)"
  by (simp add: begin_request_def cache_lookup_def request_cache_new_def expire.simps)

lemma requests_progress_witness:
  "\<exists>t. request_step demo_runtime (requests_new 2 10 0) t
     \<and> ((\<exists>a. rq_answers t = [(FromCache, demo_envelope, a)] \<and> rq_runs t = [])
       \<or> (rq_answers t = [] \<and> rq_runs t = [demo_envelope]
           \<and> rq_running t (stripe_of (re_request_id demo_envelope)) = Some (demo_envelope, 0)))"
  using requests_progress [OF _ Start, of 2 demo_runtime 10 0 demo_envelope]
  by (simp add: requests_new_def)


end
