(* ===== verification/Daemon_Runtime.thy ===== *)
theory Daemon_Runtime
  imports Runtime_Requests Renderer_Sessions
begin

text \<open>
  The rest of \<open>src/daemon/runtime.rs\<close>: limits, reconnection policy, the accept loop and its shutdown,
  the loop of a connection and of a renderer's connection, and the client's side of an exchange.
  Sockets are the events they deliver, in order; time is in nanoseconds.
\<close>

section \<open>Limits and reconnection\<close>

record runtime_limits =
  rl_max_connections :: nat
  rl_max_inflight :: nat
  rl_max_inflight_per_connection :: nat
  rl_connection_idle :: duration
  rl_shutdown_timeout :: duration

definition runtime_limits_default :: runtime_limits where
  "runtime_limits_default = \<lparr>rl_max_connections = 64, rl_max_inflight = 128, rl_max_inflight_per_connection = 16,
     rl_connection_idle = from_secs 30, rl_shutdown_timeout = from_secs 2\<rparr>"

definition runtime_limits_validate :: "runtime_limits \<Rightarrow> 'j runtime_error + runtime_limits" where
  "runtime_limits_validate l =
     (if rl_max_connections l = 0 \<or> rl_max_inflight l = 0 \<or> rl_max_inflight_per_connection l = 0
         \<or> rl_connection_idle l = 0 \<or> rl_shutdown_timeout l = 0
      then Inl InvalidRuntimeLimits else Inr l)"

record control_reconnect =
  rcn_attempts :: nat
  rcn_initial :: duration
  rcn_maximum :: duration

definition control_reconnect_default :: control_reconnect where
  "control_reconnect_default = \<lparr>rcn_attempts = 0, rcn_initial = from_millis 100, rcn_maximum = from_secs 5\<rparr>"

text \<open>The counter is a \<open>u8\<close>; a duration that overflows saturates, far above the maximum.\<close>

definition reconnect_disconnected :: "control_reconnect \<Rightarrow> duration \<times> control_reconnect" where
  "reconnect_disconnected c =
     (min (rcn_initial c * 2 ^ min (rcn_attempts c) 10) (rcn_maximum c),
      c\<lparr>rcn_attempts := sat_add 255 (rcn_attempts c) 1\<rparr>)"

definition reconnect_connected :: "control_reconnect \<Rightarrow> control_reconnect" where
  "reconnect_connected c = c\<lparr>rcn_attempts := 0\<rparr>"

section \<open>Accepting and shutting down\<close>

datatype runtime_shutdown = ShutdownSignal | ServerGone

definition REQUEST_SHUTDOWN_GRACE :: duration where "REQUEST_SHUTDOWN_GRACE = from_millis 100"

datatype serve_event =
    ForceRequested
  | ShutdownRequested runtime_shutdown
  | ConnectionAccepted
  | AcceptFailed io_kind
  | ConnectionFinished

text \<open>
  The accept loop, until it ends: with an error or a reason, and the connections then open. A
  connection above the limit is closed at once.
\<close>

fun accept_loop ::
  "runtime_limits \<Rightarrow> ustring \<Rightarrow> serve_event list \<Rightarrow> nat \<Rightarrow> ('j runtime_error + runtime_shutdown \<times> nat) option" where
  "accept_loop l path [] active = None"
| "accept_loop l path (ForceRequested # es) active = Some (Inl ForcedShutdown)"
| "accept_loop l path (ShutdownRequested reason # es) active = Some (Inr (reason, active))"
| "accept_loop l path (AcceptFailed k # es) active = Some (Inl (RuntimeIo path k))"
| "accept_loop l path (ConnectionAccepted # es) active =
     accept_loop l path es (if active < rl_max_connections l then active + 1 else active)"
| "accept_loop l path (ConnectionFinished # es) active = accept_loop l path es (active - 1)"

definition connection_budget :: "runtime_limits \<Rightarrow> duration" where
  "connection_budget l =
     min (max (min REQUEST_SHUTDOWN_GRACE (rl_shutdown_timeout l div 2)) 1) (rl_shutdown_timeout l)"

definition cleanup_budget :: "runtime_limits \<Rightarrow> duration" where
  "cleanup_budget l = rl_shutdown_timeout l - connection_budget l"

text \<open>
  What follows the accept loop, with the result and the time it takes: the connections end after
  \<open>drain\<close> and the cleanup after \<open>cleanup\<close> (\<open>None\<close>: never), a second interrupt arrives at \<open>force\<close>.
  The flag says whether the cleanup was started.
\<close>

definition finished_within :: "duration option \<Rightarrow> duration \<Rightarrow> bool" where
  "finished_within d budget \<longleftrightarrow> (case d of None \<Rightarrow> False | Some t \<Rightarrow> t \<le> budget)"

definition waited :: "duration option \<Rightarrow> duration \<Rightarrow> duration" where
  "waited d budget = (case d of None \<Rightarrow> budget | Some t \<Rightarrow> min t budget)"

definition forced_by :: "duration option \<Rightarrow> duration \<Rightarrow> bool" where
  "forced_by f t \<longleftrightarrow> (case f of None \<Rightarrow> False | Some x \<Rightarrow> x \<le> t)"

definition serve_shutdown ::
  "runtime_limits \<Rightarrow> runtime_shutdown \<Rightarrow> duration option \<Rightarrow> duration option \<Rightarrow> duration option
    \<Rightarrow> ('j runtime_error + runtime_shutdown) \<times> duration \<times> bool" where
  "serve_shutdown l reason drain cleanup force =
     (let drained = waited drain (connection_budget l);
          cleaned = drained + waited cleanup (cleanup_budget l)
      in if forced_by force drained then (Inl ForcedShutdown, the force, False)
         else if forced_by force cleaned then (Inl ForcedShutdown, the force, True)
         else if \<not> finished_within cleanup (cleanup_budget l) then (Inl ShutdownTimedOut, cleaned, True)
         else if \<not> finished_within drain (connection_budget l) then (Inl ShutdownTimedOut, cleaned, True)
         else (Inr reason, cleaned, True))"

section \<open>The loop of a connection\<close>

text \<open>
  Reads in order; with each chunk, for each of its frames, whether both permits were acquired before
  the shutdown (missing: they were).
\<close>

datatype read_event = ReadShutdown | ReadIdle | ReadFailed | ReadBytes "byte list" "bool list"

text \<open>
  How a connection ends. After \<open>Completing\<close> the accepted requests run to their end; \<open>Dropping\<close> drops
  the ones still running with the set that holds them.
\<close>

datatype 'b connection_end = StillOpen | Completing | Dropping | Rendering renderer_redemption 'b

record ('v, 'j, 'b) connection_env =
  ce_json :: "('v, 'j) json_ops"
  ce_uuid :: uuid_ops
  ce_redeem :: "(ustring \<Rightarrow> ustring \<Rightarrow> ustring + 'b) option"

text \<open>The redemption a frame asks for, when the daemon has a renderer broker.\<close>

definition renderer_frame :: "('v, 'j, 'b) connection_env \<Rightarrow> byte list \<Rightarrow> 'v request_envelope option" where
  "renderer_frame env frame =
     (case ce_redeem env of
        None \<Rightarrow> None
      | Some _ \<Rightarrow>
          (case envelope_decode (ce_json env) (ce_uuid env) frame of
             Inl _ \<Rightarrow> None
           | Inr e \<Rightarrow> if re_kind e = RendererRedeemKind then Some e else None))"

definition redeem_frame :: "('v, 'j, 'b) connection_env \<Rightarrow> 'v request_envelope \<Rightarrow> 'b connection_end" where
  "redeem_frame env e =
     (case envelope_redemption (ce_json env) e of
        Inl _ \<Rightarrow> Dropping
      | Inr r \<Rightarrow>
          (case the (ce_redeem env) (rr_window_display_id r) (rr_token r) of
             Inl _ \<Rightarrow> Dropping
           | Inr stream \<Rightarrow> Rendering r stream))"

text \<open>The frames of one chunk: what is handed to \<open>process_frame\<close>, and how the connection goes on.\<close>

fun connection_frames ::
  "('v, 'j, 'b) connection_env \<Rightarrow> bool \<Rightarrow> byte list list \<Rightarrow> bool list \<Rightarrow> byte list list \<times> 'b connection_end" where
  "connection_frames env is_first [] permits = ([], StillOpen)"
| "connection_frames env is_first (frame # frames) permits =
     (case renderer_frame env frame of
        Some e \<Rightarrow> ([], if is_first then redeem_frame env e else Dropping)
      | None \<Rightarrow>
          (case permits of
             False # _ \<Rightarrow> ([], Dropping)
           | _ \<Rightarrow> (case connection_frames env False frames (tl permits) of (spawned, e) \<Rightarrow> (frame # spawned, e))))"

fun connection_loop ::
  "('v, 'j, 'b) connection_env \<Rightarrow> frame_decoder \<Rightarrow> bool \<Rightarrow> read_event list \<Rightarrow> byte list list \<times> 'b connection_end" where
  "connection_loop env d is_first [] = ([], StillOpen)"
| "connection_loop env d is_first (ReadShutdown # es) = ([], Completing)"
| "connection_loop env d is_first (ReadIdle # es) = ([], Completing)"
| "connection_loop env d is_first (ReadFailed # es) = ([], Completing)"
| "connection_loop env d is_first (ReadBytes bytes permits # es) =
     (if bytes = [] then ([], Completing)
      else case decoder_push bytes d :: 'j frames_result of
        (Inl _, _) \<Rightarrow> ([], Completing)
      | (Inr frames, d') \<Rightarrow>
          (case connection_frames env is_first frames permits of
             (spawned, StillOpen) \<Rightarrow>
               (case connection_loop env d' (is_first \<and> frames = []) es of (later, e) \<Rightarrow> (spawned @ later, e))
           | (spawned, e) \<Rightarrow> (spawned, e)))"

section \<open>The loop of a renderer's connection\<close>

definition bounded_error :: "ustring \<Rightarrow> ustring" where
  "bounded_error message = take 512 (filter (\<lambda>c. \<not> is_control c) message)"

definition MAX_MESSAGES_PER_TICK :: nat where "MAX_MESSAGES_PER_TICK = 16"

text \<open>
  The channel's queue, whether its sender is alive, the decoder, everything sent (with whether it came
  from the channel) and the world the actions change. \<open>rce_write\<close> says whether the next write works.
\<close>

record ('j, 'w) renderer_env =
  rce_encode :: "renderer_message \<Rightarrow> 'j protocol_error + byte list"
  rce_decode :: "byte list \<Rightarrow> 'j protocol_error + renderer_action"
  rce_action :: "ustring \<Rightarrow> 64 word \<Rightarrow> renderer_action \<Rightarrow> 'w \<Rightarrow> (ustring + unit) \<times> 'w"
  rce_write :: "(bool \<times> renderer_message) list \<Rightarrow> bool"
  rce_display :: ustring
  rce_generation :: "64 word"

record 'w renderer_connection =
  rcs_queue :: "renderer_message list"
  rcs_sender :: bool
  rcs_decoder :: frame_decoder
  rcs_sent :: "(bool \<times> renderer_message) list"
  rcs_world :: 'w

definition send_message ::
  "('j, 'w) renderer_env \<Rightarrow> bool \<Rightarrow> renderer_message \<Rightarrow> 'w renderer_connection \<Rightarrow> bool \<times> 'w renderer_connection" where
  "send_message env queued m c =
     (case rce_encode env m of
        Inl _ \<Rightarrow> (False, c)
      | Inr line \<Rightarrow>
          if rce_write env (rcs_sent c) then (True, c\<lparr>rcs_sent := rcs_sent c @ [(queued, m)]\<rparr>) else (False, c))"

definition is_terminate :: "renderer_message \<Rightarrow> bool" where
  "is_terminate m = (case m of TerminateMessage _ \<Rightarrow> True | _ \<Rightarrow> False)"

text \<open>One tick; \<open>False\<close>: the connection returns.\<close>

fun drain_queue :: "('j, 'w) renderer_env \<Rightarrow> nat \<Rightarrow> 'w renderer_connection \<Rightarrow> bool \<times> 'w renderer_connection" where
  "drain_queue env 0 c = (True, c)"
| "drain_queue env (Suc n) c =
     (case rcs_queue c of
        [] \<Rightarrow> (rcs_sender c, c)
      | m # queue \<Rightarrow>
          (case send_message env True m (c\<lparr>rcs_queue := queue\<rparr>) of
             (False, c') \<Rightarrow> (False, c')
           | (True, c') \<Rightarrow> if is_terminate m then (False, c') else drain_queue env n c'))"

fun run_actions :: "('j, 'w) renderer_env \<Rightarrow> byte list list \<Rightarrow> 'w renderer_connection \<Rightarrow> bool \<times> 'w renderer_connection" where
  "run_actions env [] c = (True, c)"
| "run_actions env (frame # frames) c =
     (case rce_decode env frame of
        Inl _ \<Rightarrow> (False, c)
      | Inr action \<Rightarrow>
          (case rce_action env (rce_display env) (rce_generation env) action (rcs_world c) of
             (Inr _, w) \<Rightarrow> run_actions env frames (c\<lparr>rcs_world := w\<rparr>)
           | (Inl message, w) \<Rightarrow>
               (case send_message env False (ErrorMessage (bounded_error message)) (c\<lparr>rcs_world := w\<rparr>) of
                  (False, c') \<Rightarrow> (False, c')
                | (True, c') \<Rightarrow> run_actions env frames c')))"

datatype renderer_event =
    MessageQueued renderer_message
  | SenderDropped
  | StreamTick
  | RendererRead "byte list"
  | RendererReadFailed
  | RendererShutdown

fun renderer_step :: "('j, 'w) renderer_env \<Rightarrow> renderer_event \<Rightarrow> 'w renderer_connection \<Rightarrow> bool \<times> 'w renderer_connection" where
  "renderer_step env (MessageQueued m) c = (True, c\<lparr>rcs_queue := rcs_queue c @ [m]\<rparr>)"
| "renderer_step env SenderDropped c = (True, c\<lparr>rcs_sender := False\<rparr>)"
| "renderer_step env StreamTick c = drain_queue env MAX_MESSAGES_PER_TICK c"
| "renderer_step env (RendererRead bytes) c =
     (if bytes = [] then (False, c)
      else case decoder_push bytes (rcs_decoder c) :: 'j frames_result of
        (Inl _, d) \<Rightarrow> (False, c\<lparr>rcs_decoder := d\<rparr>)
      | (Inr frames, d) \<Rightarrow>
          if length frames > MAX_MESSAGES_PER_TICK then (False, c\<lparr>rcs_decoder := d\<rparr>)
          else run_actions env frames (c\<lparr>rcs_decoder := d\<rparr>))"
| "renderer_step env RendererReadFailed c = (False, c)"
| "renderer_step env RendererShutdown c = (False, c)"

fun renderer_connection_loop ::
  "('j, 'w) renderer_env \<Rightarrow> renderer_event list \<Rightarrow> 'w renderer_connection \<Rightarrow> bool \<times> 'w renderer_connection" where
  "renderer_connection_loop env [] c = (True, c)"
| "renderer_connection_loop env (e # es) c =
     (case renderer_step env e c of
        (False, c') \<Rightarrow> (False, c')
      | (True, c') \<Rightarrow> renderer_connection_loop env es c')"

text \<open>The broker over the renderer sessions.\<close>

datatype broker_error = BrokerSession session_error | StaleRendererGeneration

definition broker_redeem ::
  "token_order \<Rightarrow> ustring \<Rightarrow> token \<Rightarrow> instant \<Rightarrow> 'g renderer_sessions
    \<Rightarrow> (broker_error + renderer_stream) \<times> 'g renderer_sessions" where
  "broker_redeem order display t now s =
     (case window_display_id_new display of
        Inl e \<Rightarrow> (Inl (BrokerSession e), s)
      | Inr w \<Rightarrow> map_prod (map_sum BrokerSession id) id (sessions_redeem order w t now s))"

definition broker_action ::
  "'g renderer_sessions \<Rightarrow> (ustring \<Rightarrow> renderer_action \<Rightarrow> 'w \<Rightarrow> (ustring + unit) \<times> 'w) \<Rightarrow> (broker_error \<Rightarrow> ustring)
    \<Rightarrow> ustring \<Rightarrow> 64 word \<Rightarrow> renderer_action \<Rightarrow> 'w \<Rightarrow> (ustring + unit) \<times> 'w" where
  "broker_action sessions execute show display generation action w =
     (case window_display_id_new display of
        Inl e \<Rightarrow> (Inl (show (BrokerSession e)), w)
      | Inr d \<Rightarrow>
          if \<not> is_current_generation d generation sessions then (Inl (show StaleRendererGeneration), w)
          else execute display action w)"

section \<open>The client's side\<close>

datatype exchange_read = ExchangeTimeout | ExchangeFailed io_kind | ExchangeBytes "byte list"

record exchange_env =
  ex_connect :: "io_kind + unit"
  ex_write_request :: "io_kind + unit"
  ex_write_newline :: "io_kind + unit"
  ex_reads :: "exchange_read list"

text \<open>\<open>None\<close>: the reads given do not decide the exchange yet.\<close>

fun exchange_reads :: "frame_decoder \<Rightarrow> exchange_read list \<Rightarrow> ('j runtime_error + byte list) option" where
  "exchange_reads d [] = None"
| "exchange_reads d (ExchangeTimeout # rs) = Some (Inl ResponseTimedOut)"
| "exchange_reads d (ExchangeFailed k # rs) = Some (Inl (ConnectFailed k))"
| "exchange_reads d (ExchangeBytes bytes # rs) =
     (if bytes = [] then Some (Inl ConnectionClosed)
      else case decoder_push bytes d of
        (Inl e, _) \<Rightarrow> Some (Inl (RuntimeProtocol e))
      | (Inr frames, d') \<Rightarrow> if frames = [] then exchange_reads d' rs else Some (Inr (last frames)))"

definition exchange :: "exchange_env \<Rightarrow> ('j runtime_error + byte list) option" where
  "exchange x =
     (case ex_connect x of
        Inl k \<Rightarrow> Some (Inl (ConnectFailed k))
      | Inr _ \<Rightarrow>
          (case ex_write_request x of
             Inl k \<Rightarrow> Some (Inl (ConnectFailed k))
           | Inr _ \<Rightarrow>
               (case ex_write_newline x of
                  Inl k \<Rightarrow> Some (Inl (ConnectFailed k))
                | Inr _ \<Rightarrow> exchange_reads (frame_decoder_new MAX_REQUEST_BYTES) (ex_reads x))))"

definition daemon_absent :: "'j runtime_error \<Rightarrow> bool" where
  "daemon_absent e \<longleftrightarrow> e = ConnectFailed IoNotFound \<or> e = ConnectFailed IoConnectionRefused"

definition DAEMON_COLD_START_TIMEOUT :: duration where "DAEMON_COLD_START_TIMEOUT = from_secs 10"
definition DAEMON_START_INITIAL_DELAY :: duration where "DAEMON_START_INITIAL_DELAY = from_millis 10"
definition DAEMON_START_DELAY_STEP :: duration where "DAEMON_START_DELAY_STEP = from_millis 5"
definition DAEMON_START_MAX_DELAY_STEPS :: nat where "DAEMON_START_MAX_DELAY_STEPS = 20"

definition start_delay :: "nat \<Rightarrow> duration" where
  "start_delay n = DAEMON_START_INITIAL_DELAY + DAEMON_START_DELAY_STEP * min n DAEMON_START_MAX_DELAY_STEPS"

text \<open>
  \<open>attempts\<close> are the exchanges in order, \<open>clock\<close> the time after each of them. The counter of the code
  is a saturating \<open>u32\<close>; only its first twenty values matter. \<open>None\<close>: it never returns.
\<close>

partial_function (option) retry_from ::
  "duration \<Rightarrow> (nat \<Rightarrow> 'j runtime_error + byte list) \<Rightarrow> (nat \<Rightarrow> duration) \<Rightarrow> nat \<Rightarrow> ('j runtime_error + byte list) option" where
  "retry_from deadline tries clock n =
     (case tries n of
        Inr response \<Rightarrow> Some (Inr response)
      | Inl e \<Rightarrow>
          if daemon_absent e
          then (if deadline < clock n then Some (Inl StartupTimedOut) else retry_from deadline tries clock (Suc n))
          else Some (Inl e))"

definition retry_wait :: "duration \<Rightarrow> duration \<Rightarrow> nat \<Rightarrow> duration" where
  "retry_wait deadline now n = min (start_delay n) (deadline - now)"

definition retry_daemon_start ::
  "duration \<Rightarrow> duration \<Rightarrow> (nat \<Rightarrow> 'j runtime_error + byte list) \<Rightarrow> (nat \<Rightarrow> duration)
    \<Rightarrow> ('j runtime_error + byte list) option" where
  "retry_daemon_start start timeout tries clock = retry_from (start + timeout) tries clock 0"

text \<open>Connect first; only an absent daemon is started. Other failures of the first exchange are reported.\<close>

definition submit_lazy ::
  "byte list \<Rightarrow> 'j runtime_error + byte list \<Rightarrow> 'j runtime_error + unit \<Rightarrow> duration
    \<Rightarrow> (nat \<Rightarrow> 'j runtime_error + byte list) \<Rightarrow> (nat \<Rightarrow> duration) \<Rightarrow> ('j runtime_error + byte list) option" where
  "submit_lazy request first_exchange spawn start tries clock =
     (if length request > MAX_REQUEST_BYTES then Some (Inl RequestTooLarge)
      else case first_exchange of
        Inr response \<Rightarrow> Some (Inr response)
      | Inl e \<Rightarrow>
          if daemon_absent e
          then (case spawn of
                  Inl e' \<Rightarrow> Some (Inl e')
                | Inr _ \<Rightarrow> retry_daemon_start start DAEMON_COLD_START_TIMEOUT tries clock)
          else Some (Inl e))"

definition submit_existing ::
  "byte list \<Rightarrow> exchange_env \<Rightarrow> ('j runtime_error + byte list) option" where
  "submit_existing request x =
     (if length request > MAX_REQUEST_BYTES then Some (Inl RequestTooLarge) else exchange x)"

end
