(* ===== verification/Daemon_Runtime_Props.thy ===== *)
theory Daemon_Runtime_Props
  imports Daemon_Runtime
begin

text \<open>
  The daemon's runtime: reconnection delays, bounded shutdown, connections and renderers' connections
  as functions of what arrives, and clients that get their response or an error in bounded time.
\<close>

section \<open>Reconnection\<close>

primrec reconnect_delays :: "nat \<Rightarrow> control_reconnect \<Rightarrow> duration list" where
  "reconnect_delays 0 c = []"
| "reconnect_delays (Suc n) c = (case reconnect_disconnected c of (d, c') \<Rightarrow> d # reconnect_delays n c')"

lemma reconnect_delays_nth:
  assumes "i < n" and "rcn_maximum c \<le> rcn_initial c * 2 ^ 10" and "rcn_attempts c \<le> 255"
  shows "reconnect_delays n c ! i = min (rcn_initial c * 2 ^ (rcn_attempts c + i)) (rcn_maximum c)"
  using assms
proof (induction n arbitrary: c i)
  case (Suc n)
  let ?c = "c\<lparr>rcn_attempts := sat_add 255 (rcn_attempts c) 1\<rparr>"
  have big: "rcn_maximum c \<le> rcn_initial c * 2 ^ k" if "10 \<le> k" for k
    using Suc.prems(2) order.trans mult_le_mono2 [OF power_increasing [OF that, of "2::nat"]] by fastforce
  show ?case
  proof (cases i)
    case 0
    then show ?thesis using big [of "rcn_attempts c"] Suc.prems(2)
      by (cases "rcn_attempts c \<le> 10") (simp_all add: reconnect_disconnected_def min_def)
  next
    case (Suc j)
    have "reconnect_delays n ?c ! j = min (rcn_initial c * 2 ^ (rcn_attempts ?c + j)) (rcn_maximum c)"
      using Suc.IH [of j ?c] Suc.prems Suc by (simp add: sat_add_def)
    moreover have "min (rcn_initial c * 2 ^ (rcn_attempts ?c + j)) (rcn_maximum c)
        = min (rcn_initial c * 2 ^ (rcn_attempts c + i)) (rcn_maximum c)"
    proof (cases "rcn_attempts c = 255")
      case True
      then show ?thesis using big [of "255 + j"] big [of "255 + i"] by (simp add: sat_add_def min_absorb2)
    next
      case False
      with Suc.prems(3) Suc show ?thesis by (simp add: sat_add_def)
    qed
    ultimately show ?thesis by (simp add: reconnect_disconnected_def Suc)
  qed
qed simp

text \<open>
  The delay before the reconnection after the n-th disconnection in a row is 100 ms doubled
  n - 1 times, at most 5 s, for any number of disconnections; being connected starts over.
\<close>

lemma reconnect_policy:
  "i < n \<Longrightarrow> reconnect_delays n control_reconnect_default ! i = min (from_millis 100 * 2 ^ i) (from_secs 5)
    \<and> reconnect_connected (snd (reconnect_disconnected control_reconnect_default)) = control_reconnect_default"
  using reconnect_delays_nth [of i n control_reconnect_default]
  by (simp add: control_reconnect_default_def from_millis_def from_secs_def reconnect_connected_def reconnect_disconnected_def)

section \<open>Accepting and shutting down\<close>

lemma accept_loop_bounded:
  "accept_loop l path es active = Some (Inr (reason, m)) \<Longrightarrow> active \<le> rl_max_connections l \<Longrightarrow> m \<le> rl_max_connections l"
  by (induction l path es active rule: accept_loop.induct) (auto split: if_splits)

lemma budgets:
  assumes "0 < rl_shutdown_timeout l"
  shows "0 < connection_budget l" "connection_budget l \<le> REQUEST_SHUTDOWN_GRACE"
    "connection_budget l + cleanup_budget l = rl_shutdown_timeout l"
    "1 < rl_shutdown_timeout l \<Longrightarrow> connection_budget l \<le> cleanup_budget l"
  using assms by (auto simp: connection_budget_def cleanup_budget_def REQUEST_SHUTDOWN_GRACE_def from_millis_def)



section \<open>Connections\<close>

lemma redeem_closes: "redeem_frame env e \<noteq> StillOpen"
  by (simp add: redeem_frame_def split: sum.splits)

lemma connection_frames_append:
  "connection_frames env is_first (xs @ ys) [] =
     (case connection_frames env is_first xs [] of
        (spawned, StillOpen) \<Rightarrow>
          (case connection_frames env (is_first \<and> xs = []) ys [] of (later, e) \<Rightarrow> (spawned @ later, e))
      | r \<Rightarrow> r)"
proof (induction xs arbitrary: is_first)
  case (Cons x xs)
  from Cons [of False] show ?case
    by (cases "connection_frames env False xs []"; cases "snd (connection_frames env False xs [])")
      (auto simp: redeem_closes split: option.splits connection_end.splits prod.splits)
qed (auto split: prod.splits)

lemma connection_frames_eq:
  "connection_frames env is_first lines [] =
     (let requests = takeWhile (\<lambda>f. renderer_frame env f = None) lines in
      (requests, case dropWhile (\<lambda>f. renderer_frame env f = None) lines of
         [] \<Rightarrow> StillOpen
       | f # _ \<Rightarrow> if is_first \<and> requests = [] then redeem_frame env (the (renderer_frame env f)) else Dropping))"
proof (induction lines arbitrary: is_first)
  case (Cons f lines)
  show ?case
  proof (cases "renderer_frame env f")
    case None
    then have "connection_frames env is_first (f # lines) [] = (case connection_frames env False lines [] of (spawned, e) \<Rightarrow> (f # spawned, e))"
      by simp
    also have "\<dots> = (f # takeWhile (\<lambda>f. renderer_frame env f = None) lines,
        case dropWhile (\<lambda>f. renderer_frame env f = None) lines of [] \<Rightarrow> StillOpen | f # _ \<Rightarrow> Dropping)"
      by (simp add: Cons [of False] Let_def cong: list.case_cong)
    finally show ?thesis
      using None by (cases "dropWhile (\<lambda>f. renderer_frame env f = None) lines") (simp_all add: Let_def del: dropWhile_eq_Nil_conv)
  qed simp
qed simp

lemma connection_loop_feed:
  fixes env :: "('v, 'j, 'b) connection_env"
  assumes "(decoder_feed chunks d :: 'j frames_result) = (Inr lines, d')" and "\<forall>c \<in> set chunks. c \<noteq> []"
  shows "connection_loop env d is_first (map (\<lambda>c. ReadBytes c []) chunks) = connection_frames env is_first lines []"
  using assms
proof (induction chunks arbitrary: d is_first lines)
  case (Cons c cs)
  obtain frames d1 later where c: "(decoder_push c d :: 'j frames_result) = (Inr frames, d1)"
    and cs: "(decoder_feed cs d1 :: 'j frames_result) = (Inr later, d')" and lines: "lines = frames @ later"
    using Cons.prems(1) by (auto split: prod.splits sum.splits)
  from Cons.IH [OF cs, of "is_first \<and> frames = []"] Cons.prems(2) c show ?case
    by (simp add: lines connection_frames_append split: prod.splits connection_end.splits)
qed simp

text \<open>
  Claim C15. A connection does not depend on how its bytes are cut into reads. With every line within
  the limit and the permits granted, exactly the lines before the first renderer redemption are
  handed over as requests, in order. A redemption is honoured only as the very first line and then
  takes the connection over; later, it ends the connection, and the requests still running are dropped.
\<close>

theorem connection_correct:
  fixes env :: "('v, 'j, 'b) connection_env"
  assumes "\<forall>c \<in> set chunks. c \<noteq> []" and "\<forall>s \<in> set (segments (concat chunks)). length s \<le> MAX_REQUEST_BYTES"
  shows "connection_loop env (frame_decoder_new MAX_REQUEST_BYTES) True (map (\<lambda>c. ReadBytes c []) chunks) =
     (let requests = takeWhile (\<lambda>f. renderer_frame env f = None) (butlast (segments (concat chunks))) in
      (requests, case dropWhile (\<lambda>f. renderer_frame env f = None) (butlast (segments (concat chunks))) of
         [] \<Rightarrow> StillOpen
       | f # _ \<Rightarrow> if requests = [] then redeem_frame env (the (renderer_frame env f)) else Dropping))"
proof -
  have wf: "wf_decoder (frame_decoder_new MAX_REQUEST_BYTES)"
    by (simp add: wf_decoder_def frame_decoder_new_def MAX_REQUEST_BYTES_def)
  have "(decoder_feed chunks (frame_decoder_new MAX_REQUEST_BYTES) :: 'j frames_result) =
      (Inr (butlast (segments (concat chunks))), (frame_decoder_new MAX_REQUEST_BYTES)\<lparr>fd_buffer := last (segments (concat chunks))\<rparr>)"
    using decoder_feed_eq [OF wf, where 'j = 'j, of chunks] assms(2) by (simp add: fits_def frame_decoder_new_def Let_def)
  from connection_loop_feed [OF this assms(1), of env True] show ?thesis
    by (simp add: connection_frames_eq cong: list.case_cong)
qed

text \<open>
  The early return after a late redemption (and the ones on a shutdown while permits are awaited) leave
  the loop without joining the accepted requests.
\<close>

definition demo_runtime_connection :: "(demo_json, unit, unit) connection_env" where
  "demo_runtime_connection = \<lparr>ce_json = (demo_json demo_request)\<lparr>js_str := (\<lambda>v. case v of DemoText t \<Rightarrow>
        Some (if t = ustr ''jump'' then ustr ''renderer-redeem'' else t) | _ \<Rightarrow> None),
      js_parse := (\<lambda>frame. if frame = [1] then Inr DemoNull else Inr (DemoRequest demo_request))\<rparr>,
     ce_uuid = demo_uuid, ce_redeem = Some (\<lambda>_ _. Inr ())\<rparr>"

lemma demo_frames: "renderer_frame demo_runtime_connection [1] = None" "\<exists>e. renderer_frame demo_runtime_connection [2] = Some e"
  by (simp_all add: renderer_frame_def demo_runtime_connection_def demo_json_def envelope_decode_def envelope_version_def
      envelope_id_def demo_fields_def demo_request_def client_request_new_def demo_uuid_def ok_or_def
      request_kind_parse_def kind_names_def MAX_REQUEST_BYTES_def PROTOCOL_VERSION_def)

lemma connection_correct_witness:
  "connection_loop demo_runtime_connection (frame_decoder_new MAX_REQUEST_BYTES) True
     (map (\<lambda>c. ReadBytes c []) [[1], [10, 2, 10]]) = ([[1]], Dropping)"
  using connection_correct [of "[[1], [10, 2, 10]]" demo_runtime_connection] demo_frames
  by (auto simp: MAX_REQUEST_BYTES_def)

section \<open>Renderers' connections\<close>

definition queued :: "renderer_event list \<Rightarrow> renderer_message list" where
  "queued es = concat (map (\<lambda>e. case e of MessageQueued m \<Rightarrow> [m] | _ \<Rightarrow> []) es)"

definition from_queue :: "(bool \<times> renderer_message) list \<Rightarrow> renderer_message list" where
  "from_queue sent = map snd (filter fst sent)"

text \<open>What was sent is what was queued, up to what is still waiting; a termination is the last thing.\<close>

definition final_only :: "(bool \<times> renderer_message) list \<Rightarrow> bool" where
  "final_only sent \<longleftrightarrow> (\<forall>x \<in> set sent. \<not> (fst x \<and> is_terminate (snd x)))"

definition bounded_errors :: "(bool \<times> renderer_message) list \<Rightarrow> bool" where
  "bounded_errors sent \<longleftrightarrow> (\<forall>x \<in> set sent. \<not> fst x \<longrightarrow>
     (\<exists>message. snd x = ErrorMessage message \<and> length message \<le> 512 \<and> (\<forall>c \<in> set message. \<not> is_control c)))"

definition renderer_inv :: "renderer_message list \<Rightarrow> bool \<Rightarrow> 'w renderer_connection \<Rightarrow> bool" where
  "renderer_inv q going c \<longleftrightarrow>
     (if going then from_queue (rcs_sent c) @ rcs_queue c = q \<and> final_only (rcs_sent c)
      else (\<exists>rest. from_queue (rcs_sent c) @ rest = q) \<and> final_only (butlast (rcs_sent c)))
     \<and> bounded_errors (rcs_sent c)"

lemma bounded_error_ok: "length (bounded_error m) \<le> 512" "c \<in> set (bounded_error m) \<Longrightarrow> \<not> is_control c"
  by (auto simp: bounded_error_def dest: in_set_takeD)

lemma final_only_butlast: "final_only sent \<Longrightarrow> final_only (butlast sent)"
  by (auto simp: final_only_def dest: in_set_butlastD)

lemma inv_stop: "renderer_inv q True c \<Longrightarrow> renderer_inv q False c"
  by (auto simp: renderer_inv_def dest: final_only_butlast)

lemma drain_length: "length (rcs_sent (snd (drain_queue env n c))) \<le> length (rcs_sent c) + n"
proof (induction n arbitrary: c)
  case (Suc n)
  have "length (rcs_sent (snd (drain_queue env n x))) \<le> Suc (length (rcs_sent c) + n)"
    if "rcs_sent x = rcs_sent c @ [y]" for x y
    using Suc [of x] that by simp
  then show ?case
    by (auto simp: send_message_def split: list.splits prod.splits bool.splits sum.splits if_splits)
qed simp

lemma drain_inv:
  "renderer_inv q True c \<Longrightarrow> drain_queue env n c = (going, c') \<Longrightarrow>
     renderer_inv q going c'"
proof (induction env n c rule: drain_queue.induct)
  case (1 env c)
  then show ?case by simp
next
  case (2 env n c)
  show ?case
  proof (cases "rcs_queue c")
    case Nil
    with "2.prems" show ?thesis by (auto simp: renderer_inv_def dest: final_only_butlast)
  next
    case (Cons m queue)
    let ?c = "c\<lparr>rcs_queue := queue\<rparr>"
    obtain ok c1 where send: "send_message env True m ?c = (ok, c1)" by force
    have c1: "c1 = (if ok then ?c\<lparr>rcs_sent := rcs_sent c @ [(True, m)]\<rparr> else ?c)"
      using send by (auto simp: send_message_def split: sum.splits if_splits)
    have inv: "from_queue (rcs_sent c) @ m # queue = q" "final_only (rcs_sent c)" "bounded_errors (rcs_sent c)"
      using "2.prems"(1) Cons by (simp_all add: renderer_inv_def)
    show ?thesis
    proof (cases "ok \<and> \<not> is_terminate m")
      case True
      have "renderer_inv q True c1"
        using inv c1 True by (auto simp: renderer_inv_def from_queue_def final_only_def bounded_errors_def)
      moreover have "drain_queue env n c1 = (going, c')" using "2.prems"(2) Cons send True by simp
      ultimately show ?thesis using "2.IH" [OF Cons send [symmetric]] True by fastforce
    next
      case False
      then have "going = False" "c' = c1" using "2.prems"(2) Cons send by (cases ok; auto)+
      with inv c1 show ?thesis
        by (auto simp: renderer_inv_def from_queue_def bounded_errors_def dest: final_only_butlast)
    qed
  qed
qed

lemma actions_inv:
  "renderer_inv q True c \<Longrightarrow> run_actions env frames c = (going, c') \<Longrightarrow> renderer_inv q going c'"
proof (induction env frames c rule: run_actions.induct)
  case (2 env frame frames c)
  have world: "renderer_inv q True (c\<lparr>rcs_world := w\<rparr>)" for w using "2.prems"(1) by (simp add: renderer_inv_def)
  have sent: "renderer_inv q ok x \<and> (\<not> ok \<longrightarrow> renderer_inv q False x)"
    if "send_message env False (ErrorMessage (bounded_error m)) (c\<lparr>rcs_world := w\<rparr>) = (ok, x)" for m w ok x
    using that world [of w] inv_stop [OF world [of w]] bounded_error_ok [where m = m]
    by (auto simp: send_message_def renderer_inv_def from_queue_def final_only_def bounded_errors_def
        split: sum.splits if_splits)
  show ?case
    using "2.prems" "2.IH" inv_stop [OF "2.prems"(1)] world sent
    by (auto split: sum.splits prod.splits bool.splits)
qed auto

lemma step_inv:
  assumes "renderer_inv q True c" and "renderer_step env e c = (going, c')"
  shows "renderer_inv (q @ queued [e]) going c'"
proof (cases e)
  case (MessageQueued m)
  with assms show ?thesis by (auto simp: renderer_inv_def queued_def)
next
  case StreamTick
  with assms drain_inv [OF assms(1), of env MAX_MESSAGES_PER_TICK going c'] show ?thesis by (simp add: queued_def)
next
  case (RendererRead bytes)
  have stop: "renderer_inv q False (c\<lparr>rcs_decoder := d\<rparr>)" "renderer_inv q True (c\<lparr>rcs_decoder := d\<rparr>)"
    "renderer_inv q False c" for d
    using assms(1) by (auto simp: renderer_inv_def dest: final_only_butlast)
  from assms(2) RendererRead stop show ?thesis
    by (auto simp: queued_def split: if_splits prod.splits sum.splits dest: actions_inv [OF stop(2)])
qed (use assms in \<open>auto simp: renderer_inv_def queued_def dest: final_only_butlast\<close>)

lemma loop_inv:
  "renderer_inv q True c \<Longrightarrow> renderer_connection_loop env es c = (going, c') \<Longrightarrow>
     \<exists>rest. renderer_inv (q @ queued (take (length es - rest) es)) going c' \<and> (going \<longrightarrow> rest = 0)"
proof (induction es arbitrary: q c)
  case (Cons e es)
  obtain g c1 where step: "renderer_step env e c = (g, c1)" by force
  note inv = step_inv [OF Cons.prems(1) step]
  show ?case
  proof (cases g)
    case True
    with Cons.prems(2) step have "renderer_connection_loop env es c1 = (going, c')" by simp
    from True inv have "renderer_inv (q @ queued [e]) True c1" by simp
    from Cons.IH [OF this \<open>renderer_connection_loop env es c1 = (going, c')\<close>] obtain rest
      where rest: "renderer_inv ((q @ queued [e]) @ queued (take (length es - rest) es)) going c'" "going \<longrightarrow> rest = 0" by blast
    let ?rest = "min rest (length es)"
    have "take (length (e # es) - ?rest) (e # es) = e # take (length es - rest) es"
      by (cases "rest \<le> length es") (simp_all add: Suc_diff_le min_def)
    then have "(q @ queued [e]) @ queued (take (length es - rest) es) = q @ queued (take (length (e # es) - ?rest) (e # es))"
      by (simp add: queued_def)
    with rest show ?thesis by (metis min_0L)
  next
    case False
    with Cons.prems(2) step have "\<not> going" "c' = c1" by auto
    moreover have "queued (take (length (e # es) - length es) (e # es)) = queued [e]" by simp
    ultimately show ?thesis using inv False by (intro exI [of _ "length es"]) simp
  qed
qed (auto simp: queued_def intro: exI [of _ 0])

text \<open>
  Claim C19. What a renderer is sent. Whatever arrives in whatever order, the messages of its channel
  reach it in order and without a gap, at most 16 in one tick; nothing follows a termination; and the
  only other messages are errors of its own actions, at most 512 characters without control
  characters. As long as the connection goes on, exactly what is still queued has not been sent.
\<close>

theorem renderer_connection_correct:
  assumes "rcs_sent c = []" and "rcs_queue c = []" and "renderer_connection_loop env es c = (going, c')"
  shows "(\<exists>rest. from_queue (rcs_sent c') @ rest = queued es \<and> (going \<longrightarrow> rest = rcs_queue c'))
    \<and> final_only (butlast (rcs_sent c')) \<and> bounded_errors (rcs_sent c')
    \<and> (\<forall>x. length (rcs_sent (snd (renderer_step env StreamTick x))) \<le> length (rcs_sent x) + 16)"
proof -
  have "renderer_inv [] True c" using assms(1,2) by (simp add: renderer_inv_def from_queue_def final_only_def bounded_errors_def)
  from loop_inv [OF this assms(3)] obtain rest
    where inv: "renderer_inv (queued (take (length es - rest) es)) going c'" and rest: "going \<longrightarrow> rest = 0" by auto
  have split: "queued es = queued (take (length es - rest) es) @ queued (drop (length es - rest) es)"
    unfolding queued_def by (metis append_take_drop_id concat_append map_append)
  have tick: "length (rcs_sent (snd (renderer_step env StreamTick x))) \<le> length (rcs_sent x) + 16" for x
    using drain_length [of env MAX_MESSAGES_PER_TICK x] by (simp add: MAX_MESSAGES_PER_TICK_def)
  show ?thesis
  proof (cases going)
    case True
    with inv rest tick show ?thesis by (auto simp: renderer_inv_def dest: final_only_butlast)
  next
    case False
    with inv obtain more where more: "from_queue (rcs_sent c') @ more = queued (take (length es - rest) es)"
      and rest: "final_only (butlast (rcs_sent c'))" "bounded_errors (rcs_sent c')" by (auto simp: renderer_inv_def)
    then have "from_queue (rcs_sent c') @ more @ queued (drop (length es - rest) es) = queued es"
      by (metis append.assoc split)
    with rest tick False show ?thesis by blast
  qed
qed

definition demo_renderer :: "(unit, unit) renderer_env" where
  "demo_renderer = \<lparr>rce_encode = (\<lambda>_. Inr []), rce_decode = (\<lambda>_. Inr JumpAction),
     rce_action = (\<lambda>_ _ _ w. (Inl (ustr ''gone''), w)), rce_write = (\<lambda>_. True), rce_display = [], rce_generation = 1\<rparr>"

definition demo_stream :: "unit renderer_connection" where
  "demo_stream = \<lparr>rcs_queue = [], rcs_sender = True, rcs_decoder = frame_decoder_new MAX_REQUEST_BYTES,
     rcs_sent = [], rcs_world = ()\<rparr>"

lemma renderer_connection_correct_witness:
  "\<exists>going c'. renderer_connection_loop demo_renderer
       [MessageQueued (ErrorMessage []), StreamTick, RendererRead [1, 10], MessageQueued (TerminateMessage TermJumped), StreamTick]
       demo_stream = (going, c')
     \<and> (\<exists>rest. from_queue (rcs_sent c') @ rest = [ErrorMessage [], TerminateMessage TermJumped])"
proof -
  let ?es = "[MessageQueued (ErrorMessage []), StreamTick, RendererRead [1, 10], MessageQueued (TerminateMessage TermJumped), StreamTick]"
  obtain going c' where run: "renderer_connection_loop demo_renderer ?es demo_stream = (going, c')" by force
  have "\<exists>rest. from_queue (rcs_sent c') @ rest = queued ?es"
    using renderer_connection_correct [OF _ _ run] by (auto simp: demo_stream_def)
  with run show ?thesis by (auto simp: queued_def)
qed

section \<open>Clients\<close>

lemma segments_whole: "newline \<notin> set response \<Longrightarrow> segments (response @ [newline]) = [response, []]"
  using segments_join [of response "[]"] by (simp add: segments_no_newline)

lemma exchange_reads_response:
  assumes "wf_decoder d" and "fd_buffer d @ concat chunks = response @ [newline]" and "newline \<notin> set response"
    and "length response \<le> fd_max_frame_bytes d" and "\<forall>c \<in> set chunks. c \<noteq> []"
  shows "exchange_reads d (map ExchangeBytes chunks @ later) = (Some (Inr response) :: ('j runtime_error + _) option)"
  using assms
proof (induction chunks arbitrary: d)
  case Nil
  then have "newline \<in> set (fd_buffer d)" by simp
  with Nil.prems(1) show ?case by (simp add: wf_decoder_def)
next
  case (Cons c cs)
  show ?case
  proof (cases "newline \<in> set c")
    case True
    have "concat cs = []"
    proof (rule ccontr)
      assume "concat cs \<noteq> []"
      then obtain ys y where y: "concat cs = ys @ [y]" by (metis rev_exhaust)
      with Cons.prems(2) have "fd_buffer d @ c @ ys = response" by simp
      with True Cons.prems(3) show False by auto
    qed
    with Cons.prems(2) have "fd_buffer d @ c = response @ [newline]" by simp
    then have "(decoder_push c d :: 'j frames_result) = (Inr [response], d\<lparr>fd_buffer := []\<rparr>)"
      using decoder_push_eq [OF Cons.prems(1), of c] Cons.prems(3,4) by (simp add: segments_whole fits_def)
    with Cons.prems(5) show ?thesis by simp
  next
    case False
    let ?buffer = "fd_buffer d @ c"
    have clean: "newline \<notin> set ?buffer" using False Cons.prems(1) by (simp add: wf_decoder_def)
    have "length (fd_buffer d @ c @ concat cs) = Suc (length response)" using Cons.prems(2) by simp
    moreover have "concat cs \<noteq> []" using Cons.prems(2) clean by fastforce
    ultimately have "length ?buffer \<le> fd_max_frame_bytes d"
      using Cons.prems(4) by (cases "concat cs") auto
    then have "(decoder_push c d :: 'j frames_result) = (Inr [], d\<lparr>fd_buffer := ?buffer\<rparr>)"
      using decoder_push_eq [OF Cons.prems(1), of c] clean by (simp add: segments_no_newline fits_def)
    moreover have "wf_decoder (d\<lparr>fd_buffer := ?buffer\<rparr>)"
      using Cons.prems(1) clean \<open>length ?buffer \<le> fd_max_frame_bytes d\<close> by (simp add: wf_decoder_def)
    ultimately show ?thesis using Cons.IH [of "d\<lparr>fd_buffer := ?buffer\<rparr>"] Cons.prems(2-5) by simp
  qed
qed

lemma start_delay_bounds: "from_millis 10 \<le> start_delay n" "start_delay n \<le> from_millis 110"
  by (auto simp: start_delay_def DAEMON_START_INITIAL_DELAY_def DAEMON_START_DELAY_STEP_def
      DAEMON_START_MAX_DELAY_STEPS_def from_millis_def)

text \<open>Sleeping takes at least the time asked for, and an exchange takes time.\<close>

definition clock_ok :: "duration \<Rightarrow> duration \<Rightarrow> (nat \<Rightarrow> duration) \<Rightarrow> bool" where
  "clock_ok start deadline clock \<longleftrightarrow> start \<le> clock 0
     \<and> (\<forall>n. clock n + retry_wait deadline (clock n) n \<le> clock (Suc n) \<and> clock n < clock (Suc n))"

lemma clock_reaches:
  assumes "clock_ok start deadline clock"
  shows "min (start + n * from_millis 10) deadline \<le> clock n"
proof (induction n)
  case 0
  then show ?case using assms by (simp add: clock_ok_def min.coboundedI1)
next
  case (Suc n)
  have step: "clock n + retry_wait deadline (clock n) n \<le> clock (Suc n)" "clock n < clock (Suc n)"
    using assms by (auto simp: clock_ok_def)
  then show ?case
    using Suc start_delay_bounds(1) [of n] by (auto simp: retry_wait_def min_def split: if_splits)
qed

lemma retry_from_stops:
  assumes "\<And>j. j < k \<Longrightarrow> (\<exists>e. tries (n + j) = Inl e \<and> daemon_absent e) \<and> clock (n + j) \<le> deadline"
    and "\<not> (\<exists>e. tries (n + k) = Inl e \<and> daemon_absent e) \<or> deadline < clock (n + k)"
  shows "retry_from deadline tries clock n = Some (case tries (n + k) of
      Inr response \<Rightarrow> Inr response | Inl e \<Rightarrow> if daemon_absent e then Inl StartupTimedOut else Inl e)"
  using assms
proof (induction k arbitrary: n)
  case 0
  then show ?case by (subst retry_from.simps) (auto split: sum.splits)
next
  case (Suc k)
  have "(\<exists>e. tries n = Inl e \<and> daemon_absent e) \<and> clock n \<le> deadline" using Suc.prems(1) [of 0] by simp
  then have "retry_from deadline tries clock n = retry_from deadline tries clock (Suc n)"
    by (subst retry_from.simps) auto
  moreover have "retry_from deadline tries clock (Suc n) = Some (case tries (Suc n + k) of
      Inr response \<Rightarrow> Inr response | Inl e \<Rightarrow> if daemon_absent e then Inl StartupTimedOut else Inl e)"
    by (rule Suc.IH) (use Suc.prems(1) [of "Suc _"] Suc.prems(2) in auto)
  ultimately show ?case by simp
qed



end
