(* ===== verification/Daemon_Socket.thy ===== *)
theory Daemon_Socket
  imports Runtime_Requests
begin

text \<open>
  Ownership of the daemon's socket in \<open>src/daemon/runtime.rs\<close> (\<open>OwnedSocket\<close>, \<open>recover_stale_socket\<close>,
  with \<open>validate_runtime_socket\<close> of \<open>src/platform.rs\<close>): the system calls of one binding process as steps
  on the node at the socket's path, so that processes interleave between any two of them.
\<close>

section \<open>The node at the path\<close>

datatype node_kind = SocketNode | LinkNode | OtherNode

record fs_node =
  fn_kind :: node_kind
  fn_identity :: nat \<comment> \<open>device and inode\<close>
  fn_owner :: nat
  fn_mode :: nat

text \<open>The node, the next identity not used yet, and the identities somebody listens on.\<close>

record socket_fs =
  sf_node :: "fs_node option"
  sf_next :: nat
  sf_listening :: "nat set"

definition fs_connect :: "socket_fs \<Rightarrow> bool" where
  "fs_connect f \<longleftrightarrow> (case sf_node f of
     None \<Rightarrow> False | Some n \<Rightarrow> fn_kind n = SocketNode \<and> fn_identity n \<in> sf_listening f)"

text \<open>\<open>UnixListener::bind\<close>: the path must be free; the new node's mode comes from the umask.\<close>

definition fs_bind :: "nat \<Rightarrow> nat \<Rightarrow> socket_fs \<Rightarrow> (io_kind + nat) \<times> socket_fs" where
  "fs_bind user umask_mode f =
     (case sf_node f of
        Some _ \<Rightarrow> (Inl IoAddrInUse, f)
      | None \<Rightarrow> (Inr (sf_next f),
          f\<lparr>sf_node := Some \<lparr>fn_kind = SocketNode, fn_identity = sf_next f, fn_owner = user, fn_mode = umask_mode\<rparr>,
            sf_next := Suc (sf_next f), sf_listening := insert (sf_next f) (sf_listening f)\<rparr>))"

definition SOCKET_MODE :: nat where "SOCKET_MODE = 384"

definition validate_owner_and_mode :: "nat \<Rightarrow> nat \<Rightarrow> fs_node \<Rightarrow> path_error option" where
  "validate_owner_and_mode user expected n =
     (if fn_owner n \<noteq> user then Some WrongOwner
      else if fn_mode n mod 512 \<noteq> expected then Some InsecurePermissions else None)"

text \<open>A missing socket is valid; \<open>Some\<close> is the error's kind.\<close>

definition validate_runtime_socket :: "nat \<Rightarrow> socket_fs \<Rightarrow> path_error option" where
  "validate_runtime_socket user f =
     (case sf_node f of
        None \<Rightarrow> None
      | Some n \<Rightarrow>
          if fn_kind n = LinkNode then Some SymbolicLink
          else if fn_kind n \<noteq> SocketNode then Some UnexpectedFileType
          else validate_owner_and_mode user SOCKET_MODE n)"

section \<open>One process\<close>

text \<open>Where \<open>bind\<close> is; the number of a bound listener is its identity.\<close>

datatype bind_state =
    FirstBind
  | FirstConnect
  | Validating
  | SecondConnect
  | Before
  | After nat
  | Removing
  | SecondBind
  | SetMode nat
  | ReadIdentity nat
  | Owned nat nat \<comment> \<open>the listener, and the identity \<open>Drop\<close> will compare\<close>
  | Refused "unit runtime_error"

record bind_env =
  be_path :: ustring
  be_user :: nat
  be_umask_mode :: nat

definition release :: "nat \<Rightarrow> socket_fs \<Rightarrow> socket_fs" where
  "release listener f = f\<lparr>sf_listening := sf_listening f - {listener}\<rparr>"

fun bind_step :: "bind_env \<Rightarrow> bind_state \<Rightarrow> socket_fs \<Rightarrow> bind_state \<times> socket_fs" where
  "bind_step env FirstBind f =
     (case fs_bind (be_user env) (be_umask_mode env) f of
        (Inr i, f') \<Rightarrow> (SetMode i, f')
      | (Inl k, f') \<Rightarrow> (if k = IoAddrInUse then FirstConnect else Refused (RuntimeIo (be_path env) k), f'))"
| "bind_step env FirstConnect f = (if fs_connect f then Refused AlreadyRunning else Validating, f)"
| "bind_step env Validating f =
     (case validate_runtime_socket (be_user env) f of None \<Rightarrow> SecondConnect | Some e \<Rightarrow> Refused (RuntimePath e), f)"
| "bind_step env SecondConnect f = (if fs_connect f then Refused AlreadyRunning else Before, f)"
| "bind_step env Before f =
     (case sf_node f of None \<Rightarrow> Refused (RuntimeIo (be_path env) IoNotFound) | Some n \<Rightarrow> After (fn_identity n), f)"
| "bind_step env (After i) f =
     (case sf_node f of
        None \<Rightarrow> Refused (RuntimeIo (be_path env) IoNotFound)
      | Some n \<Rightarrow> if fn_identity n \<noteq> i \<or> fn_kind n \<noteq> SocketNode then Refused SocketChanged else Removing, f)"
| "bind_step env Removing f =
     (case sf_node f of
        None \<Rightarrow> (Refused (RuntimeIo (be_path env) IoNotFound), f)
      | Some _ \<Rightarrow> (SecondBind, f\<lparr>sf_node := None\<rparr>))"
| "bind_step env SecondBind f =
     (case fs_bind (be_user env) (be_umask_mode env) f of
        (Inr i, f') \<Rightarrow> (SetMode i, f')
      | (Inl k, f') \<Rightarrow> (if k = IoAddrInUse then Refused AlreadyRunning else Refused (RuntimeIo (be_path env) k), f'))"
| "bind_step env (SetMode i) f =
     (case sf_node f of
        None \<Rightarrow> (Refused (RuntimeIo (be_path env) IoNotFound), release i f)
      | Some n \<Rightarrow> (ReadIdentity i, f\<lparr>sf_node := Some (n\<lparr>fn_mode := SOCKET_MODE\<rparr>)\<rparr>))"
| "bind_step env (ReadIdentity i) f =
     (case sf_node f of
        None \<Rightarrow> (Refused (RuntimeIo (be_path env) IoNotFound), release i f)
      | Some n \<Rightarrow> (Owned i (fn_identity n), f))"
| "bind_step env (Owned i j) f = (Owned i j, f)"
| "bind_step env (Refused e) f = (Refused e, f)"

text \<open>\<open>Drop\<close>: remove the node if it is still the socket that was bound, and stop listening.\<close>

definition drop_socket :: "nat \<Rightarrow> nat \<Rightarrow> socket_fs \<Rightarrow> socket_fs" where
  "drop_socket listener identity f =
     release listener
       (case sf_node f of
          None \<Rightarrow> f
        | Some n \<Rightarrow> if fn_kind n = SocketNode \<and> fn_identity n = identity then f\<lparr>sf_node := None\<rparr> else f)"

section \<open>Processes\<close>

text \<open>A schedule names the process that makes the next step.\<close>

fun run_schedule ::
  "(nat \<Rightarrow> bind_env) \<Rightarrow> nat list \<Rightarrow> (nat \<Rightarrow> bind_state) \<Rightarrow> socket_fs \<Rightarrow> (nat \<Rightarrow> bind_state) \<times> socket_fs" where
  "run_schedule env [] ps f = (ps, f)"
| "run_schedule env (p # schedule) ps f =
     (case bind_step (env p) (ps p) f of (s, f') \<Rightarrow> run_schedule env schedule (ps(p := s)) f')"

definition bind_alone :: "bind_env \<Rightarrow> socket_fs \<Rightarrow> bind_state \<times> socket_fs" where
  "bind_alone env f = (case run_schedule (\<lambda>_. env) (replicate 10 0) (\<lambda>_. FirstBind) f of (ps, f') \<Rightarrow> (ps 0, f'))"

definition wf_fs :: "socket_fs \<Rightarrow> bool" where
  "wf_fs f \<longleftrightarrow> (\<forall>i \<in> sf_listening f. i < sf_next f) \<and> (\<forall>n. sf_node f = Some n \<longrightarrow> fn_identity n < sf_next f)"

definition bound_node :: "bind_env \<Rightarrow> socket_fs \<Rightarrow> fs_node" where
  "bound_node env f = \<lparr>fn_kind = SocketNode, fn_identity = sf_next f, fn_owner = be_user env, fn_mode = SOCKET_MODE\<rparr>"

definition bound_fs :: "bind_env \<Rightarrow> socket_fs \<Rightarrow> socket_fs" where
  "bound_fs env f = f\<lparr>sf_node := Some (bound_node env f), sf_next := Suc (sf_next f),
     sf_listening := insert (sf_next f) (sf_listening f)\<rparr>"

lemma replicate_10: "replicate 10 (0 :: nat) = [0, 0, 0, 0, 0, 0, 0, 0, 0, 0]"
  by (simp add: numeral_eq_Suc)

lemmas bind_defs = bind_alone_def replicate_10 fs_bind_def fs_connect_def validate_runtime_socket_def
  validate_owner_and_mode_def bound_fs_def bound_node_def


definition demo_bind :: bind_env where
  "demo_bind = \<lparr>be_path = ustr ''s'', be_user = 7, be_umask_mode = 493\<rparr>"

definition stale_fs :: socket_fs where
  "stale_fs = \<lparr>sf_node = Some \<lparr>fn_kind = SocketNode, fn_identity = 1, fn_owner = 7, fn_mode = 384\<rparr>,
     sf_next = 2, sf_listening = {}\<rparr>"


text \<open>
  Two processes that both found the same stale socket: the checks before \<open>remove_file\<close> do not protect
  the removal itself. The second one removes the socket the first one has just bound, and both own it:
  two daemons run, and only the second one can be reached.
\<close>

lemma two_owners:
  "\<exists>f. run_schedule (\<lambda>_. demo_bind)
      [0, 0, 0, 0, 0, 0,  1, 1, 1, 1, 1, 1,  0, 0, 0, 0,  1, 1, 1, 1] (\<lambda>_. FirstBind) stale_fs
    = ((\<lambda>_. FirstBind)(0 := Owned 2 2, 1 := Owned 3 3), f)
    \<and> sf_listening f = {2, 3} \<and> (\<exists>n. sf_node f = Some n \<and> fn_identity n = 3)"
  by (auto simp: stale_fs_def demo_bind_def fs_connect_def fs_bind_def validate_runtime_socket_def
      validate_owner_and_mode_def SOCKET_MODE_def)

end
