(* ===== verification/History_Rows.thy ===== *)
theory History_Rows
  imports Wire Config
begin

text \<open>
  The rows of the Notification History of \<open>src/history.rs\<close>: the columns of the table, the names its
  enumerations are stored under, the row a Notification is written as (\<open>persist_in\<close>) and the entry a
  row is read as (\<open>read_entry\<close>). The lemmas show that a well-formed Notification is read back as it
  was written, and which rows can be read at all. UUIDs, timestamps and the JSON text of the metadata
  are those of the uuid, chrono and serde crates: parameters, collected in \<open>history_env\<close>.
\<close>

section \<open>Environment and errors\<close>

record metadata_row =
  mr_agent_event_kind :: "agent_event_kind option"
  mr_agent_name :: "ustring option"
  mr_tool_name :: "ustring option"

record 'j history_env =
  he_uuid :: uuid_ops
  he_id_text :: "notification_id \<Rightarrow> ustring"
  he_millis :: "wall_time \<Rightarrow> int"
  he_time :: "int \<Rightarrow> wall_time option"
  he_metadata_write :: "normalized_metadata \<Rightarrow> 'j + ustring"
  he_metadata_read :: "ustring \<Rightarrow> 'j + metadata_row"

text \<open>
  The errors of SQLite that the code tells apart, and the conversions that \<open>sql_conversion\<close> and
  \<open>ToSqlConversionFailure\<close> wrap.
\<close>

datatype 'j sql_error =
    DatabaseBusy | DatabaseLocked | SqliteFailure | InvalidQuery
  | ConversionIngress ingress_error
  | ConversionInvalid string ustring
  | ConversionMetadata 'j
  | ToSqlMetadata 'j

datatype 'j history_error =
    InvalidPath | QueueFull | WorkerStopped
  | NewerSchema int int
  | ServerMismatch
  | InvalidHistoryValue string ustring
  | HistorySqlite "'j sql_error"
  | HistoryIo
  | HistoryPath path_error

definition SCHEMA_VERSION :: int where "SCHEMA_VERSION = 1"
definition i64_max :: int where "i64_max = 9223372036854775807"

section \<open>Stored names\<close>

text \<open>
  The macro \<open>history_names!\<close> makes two matches of one table: from the variant to its name and back.
\<close>

type_synonym 'a names = "('a \<times> ustring) list"

definition history_name :: "'a names \<Rightarrow> 'a \<Rightarrow> ustring" where
  "history_name table v = (case map_of table v of Some s \<Rightarrow> s | None \<Rightarrow> [])"

fun from_history_name :: "'a names \<Rightarrow> ustring \<Rightarrow> 'a option" where
  "from_history_name [] s = None"
| "from_history_name ((v, name) # table) s = (if s = name then Some v else from_history_name table s)"

definition level_names :: "level names" where
  "level_names = [(Info, ustr ''info''), (Success, ustr ''success''), (Warning, ustr ''warning''),
     (Error, ustr ''error'')]"

definition priority_names :: "priority names" where
  "priority_names = [(Low, ustr ''low''), (priority.Normal, ustr ''normal''), (High, ustr ''high''),
     (Critical, ustr ''critical'')]"

definition presentation_names :: "presentation names" where
  "presentation_names = [(Toast, ustr ''toast''), (Attention, ustr ''attention'')]"

definition delivery_names :: "delivery_state names" where
  "delivery_names = [(Pending, ustr ''pending''), (Visible, ustr ''visible''), (Closed, ustr ''closed'')]"

definition close_reason_names :: "close_reason names" where
  "close_reason_names =
     [(TimedOut, ustr ''timed_out''), (Dismissed, ustr ''dismissed''), (Jumped, ustr ''jumped''),
      (RenderSuppressed, ustr ''render_suppressed''), (RenderFailed, ustr ''render_failed''),
      (DaemonInterrupted, ustr ''daemon_interrupted''), (DaemonStopped, ustr ''daemon_stopped''),
      (ServerEnded, ustr ''server_ended'')]"

definition provider_names :: "provider names" where
  "provider_names = [(Claude, ustr ''claude''), (Codex, ustr ''codex'')]"

lemmas name_tables = level_names_def priority_names_def presentation_names_def delivery_names_def
  close_reason_names_def provider_names_def

text \<open>What the readers of a table rely on: every variant has a name, and no two have the same.\<close>

locale stored_names =
  fixes table :: "'a names"
  assumes named: "v \<in> fst ` set table"
    and variants_distinct: "distinct (map fst table)"
    and names_distinct: "distinct (map snd table)"
begin

lemma entry: "(v, history_name table v) \<in> set table"
proof -
  obtain s where "(v, s) \<in> set table" using named [of v] by auto
  then show ?thesis using variants_distinct by (simp add: history_name_def)
qed

lemma from_entry: "distinct (map snd t) \<Longrightarrow> (v, s) \<in> set t \<Longrightarrow> from_history_name t s = Some v"
proof (induction t)
  case (Cons e t)
  obtain w name where "e = (w, name)" by (cases e)
  with Cons show ?case by (auto simp: rev_image_eqI)
qed simp

lemma read_name: "from_history_name table (history_name table v) = Some v"
  by (rule from_entry [OF names_distinct entry])

lemma name_inj: "history_name table v = history_name table w \<longleftrightarrow> v = w"
  by (metis option.inject read_name)

end

interpretation level_table: stored_names level_names
proof
  fix v show "v \<in> fst ` set level_names" by (cases v) (simp_all add: name_tables)
qed (simp_all add: name_tables)

interpretation priority_table: stored_names priority_names
proof
  fix v show "v \<in> fst ` set priority_names" by (cases v) (simp_all add: name_tables)
qed (simp_all add: name_tables)

interpretation presentation_table: stored_names presentation_names
proof
  fix v show "v \<in> fst ` set presentation_names" by (cases v) (simp_all add: name_tables)
qed (simp_all add: name_tables)

interpretation delivery_table: stored_names delivery_names
proof
  fix v show "v \<in> fst ` set delivery_names" by (cases v) (simp_all add: name_tables)
qed (simp_all add: name_tables)

interpretation close_reason_table: stored_names close_reason_names
proof
  fix v show "v \<in> fst ` set close_reason_names" by (cases v) (simp_all add: name_tables)
qed (simp_all add: name_tables)

interpretation provider_table: stored_names provider_names
proof
  fix v show "v \<in> fst ` set provider_names" by (cases v) (simp_all add: name_tables)
qed (simp_all add: name_tables)

lemmas read_names = level_table.read_name priority_table.read_name presentation_table.read_name
  delivery_table.read_name close_reason_table.read_name provider_table.read_name

section \<open>Rows\<close>

text \<open>The columns of the table \<open>notifications\<close>; a nullable column is an option.\<close>

record history_row =
  hr_id :: ustring
  hr_key :: "ustring option"
  hr_server :: ustring
  hr_created_at :: int
  hr_updated_at :: int
  hr_level :: ustring
  hr_priority :: ustring
  hr_presentation :: ustring
  hr_delivery :: ustring
  hr_close_reason :: "ustring option"
  hr_timeout_ms :: "int option"
  hr_title :: ustring
  hr_body :: ustring
  hr_provider :: "ustring option"
  hr_provider_session :: "ustring option"
  hr_session :: "ustring option"
  hr_window :: "ustring option"
  hr_pane :: "ustring option"
  hr_cwd :: "ustring option"
  hr_command :: "ustring option"
  hr_pane_title :: "ustring option"
  hr_hidden_at :: "int option"
  hr_jumped_at :: "int option"
  hr_metadata :: ustring

definition stored_timeout :: "timeout \<Rightarrow> int option" where
  "stored_timeout t = (case t of After d \<Rightarrow> Some (min (int (as_millis d)) i64_max) | Never \<Rightarrow> None)"

text \<open>The parameters of the insertion; a \<open>cwd\<close> of the model is text, which \<open>to_string_lossy\<close> keeps.\<close>

definition row_of :: "'j history_env \<Rightarrow> tmux_server_id \<Rightarrow> notification \<Rightarrow> 'j sql_error + history_row" where
  "row_of env server n =
     bind_sum (case he_metadata_write env (n_metadata n) of Inl e \<Rightarrow> Inl (ToSqlMetadata e) | Inr s \<Rightarrow> Inr s) (\<lambda>metadata.
       Inr \<lparr>hr_id = he_id_text env (n_id n), hr_key = map_option key_str (n_key n),
            hr_server = server_id_str server,
            hr_created_at = he_millis env (n_created_at n), hr_updated_at = he_millis env (n_updated_at n),
            hr_level = history_name level_names (n_level n),
            hr_priority = history_name priority_names (n_priority n),
            hr_presentation = history_name presentation_names (n_presentation n),
            hr_delivery = history_name delivery_names (n_delivery n),
            hr_close_reason = map_option (history_name close_reason_names) (n_close_reason n),
            hr_timeout_ms = stored_timeout (n_timeout n), hr_title = n_title n, hr_body = n_body n,
            hr_provider = map_option (history_name provider_names) (Option.bind (n_source n) src_provider),
            hr_provider_session = Option.bind (n_source n) src_provider_session_id,
            hr_session = map_option src_session_id (n_source n),
            hr_window = map_option src_window_id (n_source n),
            hr_pane = map_option src_pane_id (n_source n),
            hr_cwd = Option.bind (n_source n) src_cwd,
            hr_command = Option.bind (n_source n) src_command,
            hr_pane_title = Option.bind (n_source n) src_pane_title,
            hr_hidden_at = map_option (he_millis env) (n_hidden_at n),
            hr_jumped_at = map_option (he_millis env) (n_last_jumped_at n),
            hr_metadata = metadata\<rparr>)"

section \<open>Entries\<close>

record history_entry =
  en_id :: notification_id
  en_key :: "notification_key option"
  en_server :: tmux_server_id
  en_created_at :: wall_time
  en_updated_at :: wall_time
  en_level :: level
  en_priority :: priority
  en_presentation :: presentation
  en_delivery :: delivery_state
  en_close_reason :: "close_reason option"
  en_timeout :: timeout
  en_title :: ustring
  en_body :: ustring
  en_source :: "source_context option"
  en_hidden_at :: "wall_time option"
  en_last_jumped_at :: "wall_time option"
  en_metadata :: normalized_metadata

definition convert :: "ingress_error + 'a \<Rightarrow> 'j sql_error + 'a" where
  "convert r = (case r of Inl e \<Rightarrow> Inl (ConversionIngress e) | Inr x \<Rightarrow> Inr x)"

text \<open>A decimal number as \<open>i64::to_string\<close> writes it, for the errors that show the value.\<close>

definition print_int :: "int \<Rightarrow> ustring" where
  "print_int i = (if i < 0 then 0x2d # print_nat (nat (- i)) else print_nat (nat i))"

definition read_timestamp :: "'j history_env \<Rightarrow> int \<Rightarrow> string \<Rightarrow> 'j sql_error + wall_time" where
  "read_timestamp env value field =
     (case he_time env value of Some t \<Rightarrow> Inr t | None \<Rightarrow> Inl (ConversionInvalid field (print_int value)))"

definition parse_enum :: "'a names \<Rightarrow> string \<Rightarrow> ustring \<Rightarrow> 'j sql_error + 'a" where
  "parse_enum table field value =
     (case from_history_name table value of Some v \<Rightarrow> Inr v | None \<Rightarrow> Inl (ConversionInvalid field value))"

definition read_source :: "provider option \<Rightarrow> history_row \<Rightarrow> 'j sql_error + source_context option" where
  "read_source provider r =
     (case (hr_session r, hr_window r, hr_pane r) of
        (Some session, Some window, Some pane) \<Rightarrow>
          bind_sum (convert (tmux_server_id_new (hr_server r))) (\<lambda>server.
          bind_sum (convert (source_context_new server session window pane)) (\<lambda>c0.
          bind_sum (case (provider, hr_provider_session r) of
              (Some p, Some s) \<Rightarrow> convert (with_provider_session p s c0) | _ \<Rightarrow> Inr c0) (\<lambda>c1.
          bind_sum (convert (apply_opt (hr_cwd r) with_cwd c1)) (\<lambda>c2.
          bind_sum (convert (apply_opt (hr_command r) with_command c2)) (\<lambda>c3.
          bind_sum (convert (apply_opt (hr_pane_title r) with_pane_title c3)) (\<lambda>c4.
            Inr (Some c4)))))))
      | (None, None, None) \<Rightarrow> Inr None
      | _ \<Rightarrow> Inl (ConversionInvalid ''source_context'' (ustr ''partially populated'')))"

definition read_metadata :: "'j history_env \<Rightarrow> history_row \<Rightarrow> 'j sql_error + normalized_metadata" where
  "read_metadata env r =
     bind_sum (case he_metadata_read env (hr_metadata r) of Inl e \<Rightarrow> Inl (ConversionMetadata e) | Inr m \<Rightarrow> Inr m) (\<lambda>m.
     bind_sum (convert (apply_opt (mr_agent_name m) with_agent_name (metadata_new (mr_agent_event_kind m)))) (\<lambda>m1.
       convert (apply_opt (mr_tool_name m) with_tool_name m1)))"

definition read_timeout :: "int option \<Rightarrow> 'j sql_error + timeout" where
  "read_timeout ms =
     (case ms of
        Some v \<Rightarrow> if 0 \<le> v then Inr (After (from_millis (nat v)))
                  else Inl (ConversionInvalid ''timeout_ms'' (print_int v))
      | None \<Rightarrow> Inr Never)"

definition read_entry :: "'j history_env \<Rightarrow> history_row \<Rightarrow> 'j sql_error + history_entry" where
  "read_entry env r =
     bind_sum (transpose_opt (parse_enum provider_names ''provider'') (hr_provider r)) (\<lambda>provider.
     bind_sum (read_source provider r) (\<lambda>source.
     bind_sum (read_metadata env r) (\<lambda>metadata.
     bind_sum (read_timeout (hr_timeout_ms r)) (\<lambda>timeout.
     bind_sum (convert (notification_id_from_str (uuid_parse (he_uuid env)) (uuid_version (he_uuid env)) (hr_id r))) (\<lambda>i.
     bind_sum (transpose_opt (\<lambda>k. convert (notification_key_new k)) (hr_key r)) (\<lambda>key.
     bind_sum (convert (tmux_server_id_new (hr_server r))) (\<lambda>server.
     bind_sum (read_timestamp env (hr_created_at r) ''created_at'') (\<lambda>created.
     bind_sum (read_timestamp env (hr_updated_at r) ''updated_at'') (\<lambda>updated.
     bind_sum (parse_enum level_names ''level'' (hr_level r)) (\<lambda>level.
     bind_sum (parse_enum priority_names ''priority'' (hr_priority r)) (\<lambda>priority.
     bind_sum (parse_enum presentation_names ''presentation'' (hr_presentation r)) (\<lambda>presentation.
     bind_sum (parse_enum delivery_names ''delivery_state'' (hr_delivery r)) (\<lambda>delivery.
     bind_sum (transpose_opt (parse_enum close_reason_names ''close_reason'') (hr_close_reason r)) (\<lambda>reason.
     bind_sum (transpose_opt (\<lambda>v. read_timestamp env v ''hidden_at'') (hr_hidden_at r)) (\<lambda>hidden.
     bind_sum (transpose_opt (\<lambda>v. read_timestamp env v ''last_jumped_at'') (hr_jumped_at r)) (\<lambda>jumped.
       Inr \<lparr>en_id = i, en_key = key, en_server = server, en_created_at = created, en_updated_at = updated,
            en_level = level, en_priority = priority, en_presentation = presentation, en_delivery = delivery,
            en_close_reason = reason, en_timeout = timeout, en_title = hr_title r, en_body = hr_body r,
            en_source = source, en_hidden_at = hidden, en_last_jumped_at = jumped,
            en_metadata = metadata\<rparr>))))))))))))))))"

section \<open>What a read succeeds on\<close>

lemma convert_Inr [simp]: "convert r = Inr x \<longleftrightarrow> r = Inr x" "convert (Inr x) = Inr x"
  by (auto simp: convert_def split: sum.splits)

lemma parse_enum_Inr [simp]: "parse_enum table field s = Inr v \<longleftrightarrow> from_history_name table s = Some v"
  by (auto simp: parse_enum_def split: option.splits)

lemma read_timestamp_Inr [simp]: "read_timestamp env v field = Inr t \<longleftrightarrow> he_time env v = Some t"
  by (auto simp: read_timestamp_def split: option.splits)

lemma transpose_convert [simp]:
  "transpose_opt (\<lambda>x. convert (f x)) v = Inr y \<longleftrightarrow> transpose_opt f v = Inr y"
  by (auto simp: transpose_opt_Inr)

lemma read_entry_Inr:
  "read_entry env r = Inr e \<longleftrightarrow>
     (\<exists>p. transpose_opt (parse_enum provider_names ''provider'') (hr_provider r) = (Inr p :: 'j sql_error + _)
        \<and> read_source p r = (Inr (en_source e) :: 'j sql_error + _))
     \<and> read_metadata env r = (Inr (en_metadata e) :: 'j sql_error + _)
     \<and> read_timeout (hr_timeout_ms r) = (Inr (en_timeout e) :: 'j sql_error + _)
     \<and> notification_id_from_str (uuid_parse (he_uuid env)) (uuid_version (he_uuid env)) (hr_id r) = Inr (en_id e)
     \<and> transpose_opt notification_key_new (hr_key r) = Inr (en_key e)
     \<and> tmux_server_id_new (hr_server r) = Inr (en_server e)
     \<and> he_time env (hr_created_at r) = Some (en_created_at e)
     \<and> he_time env (hr_updated_at r) = Some (en_updated_at e)
     \<and> from_history_name level_names (hr_level r) = Some (en_level e)
     \<and> from_history_name priority_names (hr_priority r) = Some (en_priority e)
     \<and> from_history_name presentation_names (hr_presentation r) = Some (en_presentation e)
     \<and> from_history_name delivery_names (hr_delivery r) = Some (en_delivery e)
     \<and> transpose_opt (parse_enum close_reason_names ''close_reason'') (hr_close_reason r)
          = (Inr (en_close_reason e) :: 'j sql_error + _)
     \<and> transpose_opt (\<lambda>v. read_timestamp env v ''hidden_at'') (hr_hidden_at r) = Inr (en_hidden_at e)
     \<and> transpose_opt (\<lambda>v. read_timestamp env v ''last_jumped_at'') (hr_jumped_at r) = Inr (en_last_jumped_at e)
     \<and> en_title e = hr_title r \<and> en_body e = hr_body r"
  (is "?l \<longleftrightarrow> ?r")
proof
  show "?l \<Longrightarrow> ?r"
    unfolding read_entry_def bind_sum_Inr by clarsimp
  assume ?r
  then obtain p where "transpose_opt (parse_enum provider_names ''provider'') (hr_provider r) = (Inr p :: 'j sql_error + _)"
    "read_source p r = (Inr (en_source e) :: 'j sql_error + _)" by blast
  with \<open>?r\<close> show ?l unfolding read_entry_def bind_sum_Inr by (cases e) simp
qed

section \<open>A written row is read back\<close>

definition metadata_row_of :: "normalized_metadata \<Rightarrow> metadata_row" where
  "metadata_row_of m = \<lparr>mr_agent_event_kind = md_agent_event_kind m, mr_agent_name = md_agent_name m,
     mr_tool_name = md_tool_name m\<rparr>"

text \<open>
  What the code relies on: the text of a UUID is parsed as that UUID, the milliseconds of a
  timestamp are those of a timestamp, and the JSON text of the metadata is read as its fields.
\<close>

definition history_env_ok :: "'j history_env \<Rightarrow> bool" where
  "history_env_ok env \<longleftrightarrow>
     (\<forall>i. uuid_parse (he_uuid env) (he_id_text env i) = Some i)
     \<and> (\<forall>t. \<exists>t'. he_time env (he_millis env t) = Some t' \<and> he_millis env t' = he_millis env t)
     \<and> (\<forall>m. \<exists>s. he_metadata_write env m = Inr s \<and> he_metadata_read env s = Inr (metadata_row_of m))"

text \<open>A timestamp and a timeout as the table keeps them: cut to milliseconds.\<close>

definition stored_time :: "'j history_env \<Rightarrow> wall_time \<Rightarrow> wall_time" where
  "stored_time env t = the (he_time env (he_millis env t))"

definition rounded_timeout :: "timeout \<Rightarrow> timeout" where
  "rounded_timeout t =
     (case t of After d \<Rightarrow> After (from_millis (min (as_millis d) (nat i64_max))) | Never \<Rightarrow> Never)"

definition history_entry_of :: "'j history_env \<Rightarrow> tmux_server_id \<Rightarrow> notification \<Rightarrow> history_entry" where
  "history_entry_of env server n =
     \<lparr>en_id = n_id n, en_key = n_key n, en_server = server,
      en_created_at = stored_time env (n_created_at n), en_updated_at = stored_time env (n_updated_at n),
      en_level = n_level n, en_priority = n_priority n, en_presentation = n_presentation n,
      en_delivery = n_delivery n, en_close_reason = n_close_reason n,
      en_timeout = rounded_timeout (n_timeout n), en_title = n_title n, en_body = n_body n,
      en_source = n_source n, en_hidden_at = map_option (stored_time env) (n_hidden_at n),
      en_last_jumped_at = map_option (stored_time env) (n_last_jumped_at n), en_metadata = n_metadata n\<rparr>"

definition wf_server :: "tmux_server_id \<Rightarrow> bool" where
  "wf_server i \<longleftrightarrow> bounded_text MAX_SOURCE_ID_BYTES (server_id_str i) \<and> server_id_str i \<noteq> []"

lemma wf_server_new: "wf_server i \<Longrightarrow> tmux_server_id_new (server_id_str i) = Inr i"
  by (simp add: wf_server_def tmux_server_id_new_stored)

lemma read_timeout_stored: "read_timeout (stored_timeout t) = Inr (rounded_timeout t)"
proof (cases t)
  case (After d)
  have "0 \<le> i64_max" by (simp add: i64_max_def)
  then show ?thesis
    by (simp add: After read_timeout_def stored_timeout_def rounded_timeout_def min_def nat_le_eq_zle le_nat_iff)
qed (simp add: read_timeout_def stored_timeout_def rounded_timeout_def)

lemma stored_time_read:
  "history_env_ok env \<Longrightarrow> he_time env (he_millis env t) = Some (stored_time env t)"
  "history_env_ok env \<Longrightarrow> he_millis env (stored_time env t) = he_millis env t"
  unfolding history_env_ok_def stored_time_def by (metis option.sel)+

lemma stored_times_read:
  "history_env_ok env \<Longrightarrow>
     transpose_opt (\<lambda>v. read_timestamp env v f) (map_option (he_millis env) t)
       = Inr (map_option (stored_time env) t)"
  by (cases t) (simp_all add: transpose_opt_def read_timestamp_def stored_time_read)

lemma names_read:
  "transpose_opt (parse_enum provider_names f) (map_option (history_name provider_names) p) = Inr p"
  "transpose_opt (parse_enum close_reason_names f) (map_option (history_name close_reason_names) c) = Inr c"
  by (cases p; simp add: transpose_opt_def parse_enum_def read_names)
    (cases c; simp add: transpose_opt_def parse_enum_def read_names)

lemma key_read: "pred_option wf_key k \<Longrightarrow> transpose_opt notification_key_new (map_option key_str k) = Inr k"
  by (cases k) (simp_all add: transpose_opt_def notification_key_new_stored)

lemma metadata_read:
  assumes "he_metadata_read env (hr_metadata r) = Inr (metadata_row_of m)" "wf_metadata m"
  shows "read_metadata env r = Inr m"
  using assms
  by (cases m; cases "md_agent_name m"; cases "md_tool_name m")
    (simp_all add: read_metadata_def metadata_row_of_def apply_opt_def with_agent_name_def
      with_tool_name_def normalize_required_stored wf_metadata_def metadata_new_def)

lemma source_read:
  assumes wf: "wf_source c" and server: "hr_server r = server_id_str (src_tmux_server_id c)"
    and cols: "hr_session r = Some (src_session_id c)" "hr_window r = Some (src_window_id c)"
      "hr_pane r = Some (src_pane_id c)" "hr_provider_session r = src_provider_session_id c"
      "hr_cwd r = src_cwd c" "hr_command r = src_command c" "hr_pane_title r = src_pane_title c"
  shows "read_source (src_provider c) r = (Inr (Some c) :: 'j sql_error + source_context option)"
proof -
  have "wire_source_into (wire_source_from c) = (Inr c :: unit protocol_error + _)"
    by (rule wire_source_roundtrip [OF wf])
  moreover have "src_provider c = None \<longleftrightarrow> src_provider_session_id c = None"
    using wf by (simp add: wf_source_def)
  ultimately show ?thesis
    unfolding wire_source_into_def bind_sum_Inr from_ingress_Inr
    by (cases "src_provider c"; cases "src_provider_session_id c")
      (auto simp: wire_source_from_def wire_provider_into_def read_source_def server cols)
qed

lemma row_read:
  assumes env: "history_env_ok env" and wf: "wf_notification n" and server: "wf_server server"
    and version: "uuid_version (he_uuid env) (n_id n) = 7"
    and source: "pred_option (\<lambda>c. src_tmux_server_id c = server) (n_source n)"
  shows "\<exists>r. row_of env server n = Inr r \<and> read_entry env r = Inr (history_entry_of env server n)
    \<and> hr_id r = he_id_text env (n_id n)"
proof -
  obtain s where s: "he_metadata_write env (n_metadata n) = Inr s"
      "he_metadata_read env s = Inr (metadata_row_of (n_metadata n))"
    using env unfolding history_env_ok_def by blast
  obtain r where r: "row_of env server n = Inr r" by (simp add: row_of_def s)
  note cols = r [unfolded row_of_def s(1), simplified, symmetric]
  have md: "hr_metadata r = s" by (simp add: cols)
  have "read_metadata env r = Inr (n_metadata n)"
    by (rule metadata_read) (use wf s in \<open>simp_all add: md wf_notification_def\<close>)
  moreover have "read_source (Option.bind (n_source n) src_provider) r = (Inr (n_source n) :: 'a sql_error + _)"
  proof (cases "n_source n")
    case None
    then show ?thesis by (simp add: read_source_def cols)
  next
    case (Some c)
    then show ?thesis using wf source
      by (simp add: source_read cols wf_notification_def)
  qed
  moreover have "notification_id_from_str (uuid_parse (he_uuid env)) (uuid_version (he_uuid env)) (hr_id r) = Inr (n_id n)"
    using env version by (simp add: cols notification_id_from_str_def history_env_ok_def)
  moreover have "transpose_opt notification_key_new (hr_key r) = Inr (n_key n)"
    using wf by (simp add: cols key_read wf_notification_def)
  moreover have "transpose_opt (parse_enum provider_names ''provider'') (hr_provider r)
      = (Inr (Option.bind (n_source n) src_provider) :: 'a sql_error + _)"
    by (simp add: cols names_read)
  ultimately have "read_entry env r = Inr (history_entry_of env server n)"
    unfolding read_entry_Inr
    by (simp add: history_entry_of_def, simp add: cols names_read read_timeout_stored stored_times_read [OF env]
        stored_time_read(1) [OF env] read_names wf_server_new [OF server])
  then show ?thesis using r by (simp add: cols)
qed

section \<open>Well-formed rows\<close>

text \<open>
  A row is well formed when it is read as an entry of a well-formed Notification: bounded plain
  text, a Source Context of the row's server, and an Attention Gate with a source and no timeout.
\<close>

definition wf_history_entry :: "history_entry \<Rightarrow> bool" where
  "wf_history_entry e \<longleftrightarrow>
     gate_ok (en_presentation e) (en_source e) (en_timeout e)
     \<and> bounded_text MAX_TITLE_BYTES (en_title e) \<and> bounded_text MAX_BODY_BYTES (en_body e)
     \<and> pred_option wf_key (en_key e) \<and> wf_metadata (en_metadata e)
     \<and> pred_option (\<lambda>c. wf_source c \<and> src_tmux_server_id c = en_server e) (en_source e)
     \<and> (en_delivery e = Closed \<longleftrightarrow> en_close_reason e \<noteq> None)"

definition wf_row :: "'j history_env \<Rightarrow> history_row \<Rightarrow> bool" where
  "wf_row env r \<longleftrightarrow> (\<exists>e. read_entry env r = Inr e \<and> wf_history_entry e)"

lemma history_entry_of_wf:
  "wf_notification n \<Longrightarrow> pred_option (\<lambda>c. src_tmux_server_id c = server) (n_source n)
     \<Longrightarrow> wf_history_entry (history_entry_of env server n)"
  by (cases "n_source n") (auto simp: wf_history_entry_def history_entry_of_def wf_notification_def gate_ok_def rounded_timeout_def)

lemma server_of_entry: "read_entry env r = Inr e \<Longrightarrow> tmux_server_id_new (hr_server r) = Inr (en_server e)"
  by (simp add: read_entry_Inr)

lemma read_server_wf: "tmux_server_id_new s = Inr i \<Longrightarrow> wf_server i"
  using tmux_server_id_new_wf by (simp add: wf_server_def)

text \<open>Reading is by columns: the updates of the statements carry over to the entries.\<close>

lemma read_frame [simp]:
  "read_source p (r\<lparr>hr_hidden_at := h\<rparr>) = read_source p r"
  "read_source p (r\<lparr>hr_jumped_at := h\<rparr>) = read_source p r"
  "read_source p (r\<lparr>hr_created_at := v\<rparr>) = read_source p r"
  "read_source p (r\<lparr>hr_updated_at := v\<rparr>) = read_source p r"
  "read_source p (r\<lparr>hr_delivery := s\<rparr>) = read_source p r"
  "read_source p (r\<lparr>hr_close_reason := cr\<rparr>) = read_source p r"
  "read_metadata env (r\<lparr>hr_hidden_at := h\<rparr>) = read_metadata env r"
  "read_metadata env (r\<lparr>hr_jumped_at := h\<rparr>) = read_metadata env r"
  "read_metadata env (r\<lparr>hr_created_at := v\<rparr>) = read_metadata env r"
  "read_metadata env (r\<lparr>hr_updated_at := v\<rparr>) = read_metadata env r"
  "read_metadata env (r\<lparr>hr_delivery := s\<rparr>) = read_metadata env r"
  "read_metadata env (r\<lparr>hr_close_reason := cr\<rparr>) = read_metadata env r"
  "read_metadata env (r\<lparr>hr_server := s\<rparr>) = read_metadata env r"
  by (simp_all add: read_source_def read_metadata_def cong: option.case_cong sum.case_cong)

lemma read_hidden:
  "read_entry env r = Inr e \<Longrightarrow> transpose_opt (\<lambda>v. read_timestamp env v ''hidden_at'') h = (Inr t :: 'j sql_error + _)
     \<Longrightarrow> read_entry (env :: 'j history_env) (r\<lparr>hr_hidden_at := h\<rparr>) = Inr (e\<lparr>en_hidden_at := t\<rparr>)"
  unfolding read_entry_Inr by simp

lemma read_jumped:
  "read_entry env r = Inr e \<Longrightarrow> transpose_opt (\<lambda>v. read_timestamp env v ''last_jumped_at'') h = (Inr t :: 'j sql_error + _)
     \<Longrightarrow> read_entry (env :: 'j history_env) (r\<lparr>hr_jumped_at := h\<rparr>) = Inr (e\<lparr>en_last_jumped_at := t\<rparr>)"
  unfolding read_entry_Inr by simp

lemma read_created:
  "read_entry env r = Inr e \<Longrightarrow> he_time env v = Some t
     \<Longrightarrow> read_entry env (r\<lparr>hr_created_at := v\<rparr>) = Inr (e\<lparr>en_created_at := t\<rparr>)"
  unfolding read_entry_Inr by simp

lemma read_interrupted:
  "read_entry env r = Inr e \<Longrightarrow> he_time env v = Some t
     \<Longrightarrow> read_entry env (r\<lparr>hr_delivery := history_name delivery_names Closed,
           hr_close_reason := Some (history_name close_reason_names DaemonInterrupted), hr_updated_at := v\<rparr>)
       = Inr (e\<lparr>en_delivery := Closed, en_close_reason := Some DaemonInterrupted, en_updated_at := t\<rparr>)"
  unfolding read_entry_Inr
  by (simp add: read_names transpose_opt_def parse_enum_def)

definition at_server :: "tmux_server_id \<Rightarrow> source_context \<Rightarrow> source_context" where
  "at_server i c = c\<lparr>src_tmux_server_id := i\<rparr>"

lemma with_at_server:
  "source_context_new i s w p = Inr c \<Longrightarrow> source_context_new j s w p = Inr (at_server j c)"
  "with_provider_session pr v c = Inr d \<Longrightarrow> with_provider_session pr v (at_server j c) = Inr (at_server j d)"
  "apply_opt x with_cwd c = Inr d \<Longrightarrow> apply_opt x with_cwd (at_server j c) = Inr (at_server j d)"
  "apply_opt x with_command c = Inr d \<Longrightarrow> apply_opt x with_command (at_server j c) = Inr (at_server j d)"
  "apply_opt x with_pane_title c = Inr d \<Longrightarrow> apply_opt x with_pane_title (at_server j c) = Inr (at_server j d)"
  by (auto simp: at_server_def source_context_new_def with_provider_session_def with_cwd_def with_command_def
      with_pane_title_def apply_opt_def split: sum.splits option.splits)

lemma read_source_at_server:
  assumes "read_source p r = (Inr c :: 'j sql_error + _)" "tmux_server_id_new s = Inr j"
  shows "read_source p (r\<lparr>hr_server := s\<rparr>) = (Inr (map_option (at_server j) c) :: 'j sql_error + _)"
proof (cases "hr_session r = None \<or> hr_window r = None \<or> hr_pane r = None")
  case True
  then show ?thesis using assms(1) by (auto simp: read_source_def split: option.splits)
next
  case False
  then obtain session window pane where ids: "hr_session r = Some session" "hr_window r = Some window"
    "hr_pane r = Some pane" by auto
  obtain i c0 c1 c2 c3 c4 where c: "source_context_new i session window pane = Inr c0"
    "(case (p, hr_provider_session r) of (Some p, Some s) \<Rightarrow> convert (with_provider_session p s c0) | _ \<Rightarrow> Inr c0)
       = (Inr c1 :: 'j sql_error + _)"
    "apply_opt (hr_cwd r) with_cwd c1 = Inr c2" "apply_opt (hr_command r) with_command c2 = Inr c3"
    "apply_opt (hr_pane_title r) with_pane_title c3 = Inr c4" "c = Some c4"
    using assms(1) unfolding read_source_def ids prod.case option.case bind_sum_Inr convert_Inr by blast
  have c1: "(case (p, hr_provider_session r) of
      (Some p, Some s) \<Rightarrow> convert (with_provider_session p s (at_server j c0)) | _ \<Rightarrow> Inr (at_server j c0))
       = (Inr (at_server j c1) :: 'j sql_error + _)"
    using c(2) by (auto dest: with_at_server(2) split: option.splits)
  note steps = with_at_server(1) [OF c(1), of j] c1 with_at_server(3) [OF c(3), of j]
    with_at_server(4) [OF c(4), of j] with_at_server(5) [OF c(5), of j]
  show ?thesis
    unfolding read_source_def by (simp add: ids assms(2) c(6) steps(1,3,4,5) steps(2) [simplified])
qed

lemma read_server:
  assumes "read_entry env r = Inr e" "tmux_server_id_new s = Inr j"
  shows "read_entry env (r\<lparr>hr_server := s\<rparr>)
    = Inr (e\<lparr>en_server := j, en_source := map_option (at_server j) (en_source e)\<rparr>)"
  using assms read_source_at_server [OF _ assms(2), where r = r] unfolding read_entry_Inr
  by auto

text \<open>What is stored of an optional column stays: \<open>COALESCE(excluded.c, notifications.c)\<close>.\<close>

definition coalesce :: "'a option \<Rightarrow> 'a option \<Rightarrow> 'a option" where
  "coalesce a b = (case a of Some x \<Rightarrow> Some x | None \<Rightarrow> b)"

definition merge_row :: "history_row \<Rightarrow> history_row \<Rightarrow> history_row" where
  "merge_row new old =
     new\<lparr>hr_server := hr_server old, hr_created_at := hr_created_at old,
         hr_hidden_at := coalesce (hr_hidden_at new) (hr_hidden_at old),
         hr_jumped_at := coalesce (hr_jumped_at new) (hr_jumped_at old)\<rparr>"

definition merge_entry :: "history_entry \<Rightarrow> history_entry \<Rightarrow> history_entry" where
  "merge_entry new old =
     new\<lparr>en_server := en_server old, en_source := map_option (at_server (en_server old)) (en_source new),
         en_created_at := en_created_at old,
         en_hidden_at := coalesce (en_hidden_at new) (en_hidden_at old),
         en_last_jumped_at := coalesce (en_last_jumped_at new) (en_last_jumped_at old)\<rparr>"

lemma coalesce_read:
  "transpose_opt f a = Inr x \<Longrightarrow> transpose_opt f b = Inr y \<Longrightarrow> transpose_opt f (coalesce a b) = Inr (coalesce x y)"
  by (cases a) (auto simp: coalesce_def transpose_opt_Inr)

lemma read_merged:
  assumes new: "read_entry env new = Inr e" and old: "read_entry env old = Inr d"
  shows "read_entry (env :: 'j history_env) (merge_row new old) = Inr (merge_entry e d)"
proof -
  note n = new [unfolded read_entry_Inr] and o = old [unfolded read_entry_Inr]
  have h: "transpose_opt (\<lambda>v. read_timestamp env v ''hidden_at'') (coalesce (hr_hidden_at new) (hr_hidden_at old))
      = (Inr (coalesce (en_hidden_at e) (en_hidden_at d)) :: 'j sql_error + _)"
    and j: "transpose_opt (\<lambda>v. read_timestamp env v ''last_jumped_at'') (coalesce (hr_jumped_at new) (hr_jumped_at old))
      = (Inr (coalesce (en_last_jumped_at e) (en_last_jumped_at d)) :: 'j sql_error + _)"
    using n o by (simp_all add: coalesce_read)
  have "tmux_server_id_new (hr_server old) = Inr (en_server d)" "he_time env (hr_created_at old) = Some (en_created_at d)"
    using o by simp_all
  from read_jumped [OF read_hidden [OF read_created [OF read_server [OF new this(1)] this(2)] h] j]
  show ?thesis by (simp add: merge_row_def merge_entry_def)
qed

lemma merge_entry_wf:
  assumes "wf_history_entry e" "wf_server (en_server d)"
  shows "wf_history_entry (merge_entry e d)"
  using assms
  by (cases "en_source e")
    (auto simp: wf_history_entry_def merge_entry_def gate_ok_def at_server_def wf_source_def wf_server_def)

lemma merge_row_wf: "wf_row env new \<Longrightarrow> wf_row env old \<Longrightarrow> wf_row env (merge_row new old)"
  unfolding wf_row_def by (metis merge_entry_wf read_merged read_server_wf server_of_entry)

end
