(* ===== verification/History_Store.thy ===== *)
theory History_Store
  imports History_Rows Std_Text "HOL-Library.Product_Lexorder" "HOL-Library.List_Lexorder"
begin

text \<open>
  The History module of \<open>src/history.rs\<close>: the statements it runs on the shared SQLite table, the
  bounded retries when the database is busy, opening and migrating it, and the worker with its
  bounded queue. SQLite is modelled by what the statements of the source mean; the other processes
  that share the database, and the failures SQLite reports, are a script in the state.
\<close>

section \<open>The shared database\<close>

record history_table =
  ht_version :: int
  ht_rows :: "history_row list"

text \<open>
  Before each statement (or immediate transaction) other processes may have changed the table, and
  the statement may fail; then its transaction is rolled back. The script says when.
\<close>

record 'j database =
  db_table :: history_table
  db_script :: "((history_table \<Rightarrow> history_table) \<times> 'j sql_error option) list"

type_synonym ('j, 'a) statement = "'j database \<Rightarrow> ('j sql_error + 'a) \<times> 'j database"
type_synonym ('j, 'a) history_op = "('j database, 'j history_error, 'a) op"

definition run_statement ::
  "(history_table \<Rightarrow> 'j sql_error + 'a \<times> history_table) \<Rightarrow> ('j, 'a) statement" where
  "run_statement f db =
     (let (table, fault, script) =
        (case db_script db of
           [] \<Rightarrow> (db_table db, None, [])
         | (change, fault) # rest \<Rightarrow> (change (db_table db), fault, rest))
      in case fault of
        Some e \<Rightarrow> (Inl e, \<lparr>db_table = table, db_script = script\<rparr>)
      | None \<Rightarrow> (case f table of
          Inl e \<Rightarrow> (Inl e, \<lparr>db_table = table, db_script = script\<rparr>)
        | Inr (a, table') \<Rightarrow> (Inr a, \<lparr>db_table = table', db_script = script\<rparr>)))"

definition query :: "(history_table \<Rightarrow> 'j sql_error + 'a) \<Rightarrow> ('j, 'a) statement" where
  "query f = run_statement (\<lambda>t. bind_sum (f t) (\<lambda>a. Inr (a, t)))"

definition update_rows :: "(history_row list \<Rightarrow> history_row list) \<Rightarrow> ('j, unit) statement" where
  "update_rows f = run_statement (\<lambda>t. Inr ((), t\<lparr>ht_rows := f (ht_rows t)\<rparr>))"

section \<open>Retrying a busy database\<close>

definition SQLITE_BUSY_MAX_ATTEMPTS :: nat where "SQLITE_BUSY_MAX_ATTEMPTS = 8"
definition SQLITE_BUSY_INITIAL_BACKOFF :: duration where "SQLITE_BUSY_INITIAL_BACKOFF = from_millis 5"
definition SQLITE_BUSY_MAX_BACKOFF :: duration where "SQLITE_BUSY_MAX_BACKOFF = from_millis 40"

definition is_busy :: "'j sql_error \<Rightarrow> bool" where
  "is_busy e \<longleftrightarrow> e = DatabaseBusy \<or> e = DatabaseLocked"

text \<open>
  The loop over the attempts that are left; after the last one the code has \<open>unreachable!\<close>. The
  operation and the backoff share a state.
\<close>

fun busy_attempts ::
  "('s \<Rightarrow> ('j sql_error + 'a) \<times> 's) \<Rightarrow> (duration \<Rightarrow> 's \<Rightarrow> 's) \<Rightarrow> duration \<Rightarrow> nat list
     \<Rightarrow> ('s, 'j history_error, 'a) op" where
  "busy_attempts run backoff delay [] s = panic s"
| "busy_attempts run backoff delay (try # tries) s =
     (case run s of
        (Inl e, s') \<Rightarrow>
          if is_busy e \<and> try + 1 < SQLITE_BUSY_MAX_ATTEMPTS
          then busy_attempts run backoff (min (2 * delay) SQLITE_BUSY_MAX_BACKOFF) tries (backoff delay s')
          else raise (HistorySqlite e) s'
      | (Inr a, s') \<Rightarrow> ret a s')"

definition with_sqlite_busy_retry_and_backoff ::
  "('s \<Rightarrow> ('j sql_error + 'a) \<times> 's) \<Rightarrow> (duration \<Rightarrow> 's \<Rightarrow> 's) \<Rightarrow> ('s, 'j history_error, 'a) op" where
  "with_sqlite_busy_retry_and_backoff run backoff =
     busy_attempts run backoff SQLITE_BUSY_INITIAL_BACKOFF [0..<SQLITE_BUSY_MAX_ATTEMPTS]"

definition with_sqlite_busy_retry :: "('j, 'a) statement \<Rightarrow> ('j, 'a) history_op" where
  "with_sqlite_busy_retry run = with_sqlite_busy_retry_and_backoff run (\<lambda>_ db. db)"

section \<open>Writing\<close>

text \<open>\<open>INSERT .. ON CONFLICT(id) DO UPDATE\<close>.\<close>

definition upsert :: "history_row \<Rightarrow> history_row list \<Rightarrow> history_row list" where
  "upsert new rows =
     (if hr_id new \<in> hr_id ` set rows
      then map (\<lambda>r. if hr_id r = hr_id new then merge_row new r else r) rows
      else rows @ [new])"

text \<open>
  \<open>ORDER BY (hidden_at IS NULL), created_at, id\<close>: hidden rows first, then the oldest. Identifiers
  are ASCII text, which SQLite compares as Isabelle compares lists.
\<close>

definition retention_key :: "history_row \<Rightarrow> bool \<times> int \<times> ustring" where
  "retention_key r = (hr_hidden_at r = None, hr_created_at r, hr_id r)"

definition enforce_retention_in :: "nat \<Rightarrow> history_row list \<Rightarrow> history_row list" where
  "enforce_retention_in max_entries rows =
     (let victims = take (length rows - max_entries) (sort_key retention_key rows)
      in filter (\<lambda>r. hr_id r \<notin> hr_id ` set victims) rows)"

definition persist_in ::
  "'j history_env \<Rightarrow> tmux_server_id \<Rightarrow> notification \<Rightarrow> history_row list \<Rightarrow> 'j sql_error + history_row list" where
  "persist_in env server n rows = bind_sum (row_of env server n) (\<lambda>r. Inr (upsert r rows))"

definition persist ::
  "'j history_env \<Rightarrow> tmux_server_id \<Rightarrow> nat \<Rightarrow> notification \<Rightarrow> ('j, unit) history_op" where
  "persist env server max_entries n =
     (if pred_option (\<lambda>c. src_tmux_server_id c = server) (n_source n)
      then with_sqlite_busy_retry (run_statement (\<lambda>t.
        bind_sum (persist_in env server n (ht_rows t)) (\<lambda>rows.
          Inr ((), t\<lparr>ht_rows := enforce_retention_in max_entries rows\<rparr>))))
      else raise ServerMismatch)"

definition enforce_retention :: "nat \<Rightarrow> ('j, unit) history_op" where
  "enforce_retention max_entries = with_sqlite_busy_retry (update_rows (enforce_retention_in max_entries))"

definition update_where ::
  "(history_row \<Rightarrow> bool) \<Rightarrow> (history_row \<Rightarrow> history_row) \<Rightarrow> history_row list \<Rightarrow> history_row list" where
  "update_where P f = map (\<lambda>r. if P r then f r else r)"

definition set_hidden :: "'j history_env \<Rightarrow> notification_id \<Rightarrow> wall_time option \<Rightarrow> ('j, unit) history_op" where
  "set_hidden env i t =
     with_sqlite_busy_retry (update_rows (update_where (\<lambda>r. hr_id r = he_id_text env i)
       (\<lambda>r. r\<lparr>hr_hidden_at := map_option (he_millis env) t\<rparr>)))"

definition mark_jumped :: "'j history_env \<Rightarrow> notification_id \<Rightarrow> wall_time \<Rightarrow> ('j, unit) history_op" where
  "mark_jumped env i t =
     with_sqlite_busy_retry (update_rows (update_where (\<lambda>r. hr_id r = he_id_text env i)
       (\<lambda>r. r\<lparr>hr_jumped_at := Some (he_millis env t)\<rparr>)))"

definition recover_stale :: "'j history_env \<Rightarrow> tmux_server_id \<Rightarrow> wall_time \<Rightarrow> ('j, unit) history_op" where
  "recover_stale env server now =
     with_sqlite_busy_retry (update_rows (update_where
       (\<lambda>r. hr_server r = server_id_str server \<and> hr_delivery r \<in> {ustr ''pending'', ustr ''visible''})
       (\<lambda>r. r\<lparr>hr_delivery := ustr ''closed'', hr_close_reason := Some (ustr ''daemon_interrupted''),
             hr_updated_at := he_millis env now\<rparr>)))"

section \<open>Clearing\<close>

datatype row_filter = ClearHiddenRows | ClearBefore wall_time | ClearEverything

text \<open>The conditions of the six \<open>SELECT count(*)\<close> and of the six \<open>DELETE\<close> statements.\<close>

fun count_condition ::
  "'j history_env \<Rightarrow> tmux_server_id \<Rightarrow> row_filter \<Rightarrow> bool \<Rightarrow> history_row \<Rightarrow> bool" where
  "count_condition env server ClearHiddenRows True r \<longleftrightarrow> hr_hidden_at r \<noteq> None"
| "count_condition env server ClearHiddenRows False r \<longleftrightarrow> hr_hidden_at r \<noteq> None \<and> hr_server r = server_id_str server"
| "count_condition env server (ClearBefore before) True r \<longleftrightarrow> hr_updated_at r < he_millis env before"
| "count_condition env server (ClearBefore before) False r \<longleftrightarrow>
     hr_updated_at r < he_millis env before \<and> hr_server r = server_id_str server"
| "count_condition env server ClearEverything True r \<longleftrightarrow> True"
| "count_condition env server ClearEverything False r \<longleftrightarrow> hr_server r = server_id_str server"

fun delete_condition ::
  "'j history_env \<Rightarrow> tmux_server_id \<Rightarrow> row_filter \<Rightarrow> bool \<Rightarrow> history_row \<Rightarrow> bool" where
  "delete_condition env server ClearHiddenRows True r \<longleftrightarrow> hr_hidden_at r \<noteq> None"
| "delete_condition env server ClearHiddenRows False r \<longleftrightarrow> hr_hidden_at r \<noteq> None \<and> hr_server r = server_id_str server"
| "delete_condition env server (ClearBefore before) True r \<longleftrightarrow> hr_updated_at r < he_millis env before"
| "delete_condition env server (ClearBefore before) False r \<longleftrightarrow>
     hr_updated_at r < he_millis env before \<and> hr_server r = server_id_str server"
| "delete_condition env server ClearEverything True r \<longleftrightarrow> True"
| "delete_condition env server ClearEverything False r \<longleftrightarrow> hr_server r = server_id_str server"

text \<open>Counting is one query without retries; a failure is an SQLite error.\<close>

definition count_clear_entries ::
  "'j history_env \<Rightarrow> tmux_server_id \<Rightarrow> row_filter \<Rightarrow> bool \<Rightarrow> ('j, nat) history_op" where
  "count_clear_entries env server filter_by all_servers db =
     (case query (\<lambda>t. Inr (length (filter (count_condition env server filter_by all_servers) (ht_rows t)))) db of
        (Inl e, db') \<Rightarrow> raise (HistorySqlite e) db'
      | (Inr count, db') \<Rightarrow> ret count db')"

definition clear_entries ::
  "'j history_env \<Rightarrow> tmux_server_id \<Rightarrow> row_filter \<Rightarrow> bool \<Rightarrow> ('j, nat) history_op" where
  "clear_entries env server filter_by all_servers =
     with_sqlite_busy_retry (run_statement (\<lambda>t.
       Inr (length (filter (delete_condition env server filter_by all_servers) (ht_rows t)),
            t\<lparr>ht_rows := filter (Not \<circ> delete_condition env server filter_by all_servers) (ht_rows t)\<rparr>)))"

section \<open>Listing\<close>

record history_query =
  hq_include_hidden :: bool
  hq_all_servers :: bool
  hq_limit :: nat

definition history_query_default :: history_query where
  "history_query_default = \<lparr>hq_include_hidden = False, hq_all_servers = False, hq_limit = 10000\<rparr>"

definition selected_rows :: "tmux_server_id \<Rightarrow> history_query \<Rightarrow> history_row list \<Rightarrow> history_row list" where
  "selected_rows server q rows =
     take (min (hq_limit q) 100000)
       (rev (sort_key (\<lambda>r. (hr_updated_at r, hr_id r))
         (filter (\<lambda>r. (hq_include_hidden q \<or> hr_hidden_at r = None)
            \<and> (hq_all_servers q \<or> hr_server r = server_id_str server)) rows)))"

text \<open>\<open>collect::<Result<Vec<_>, _>>\<close>: the first row that cannot be read fails the query.\<close>

fun read_entries :: "'j history_env \<Rightarrow> history_row list \<Rightarrow> 'j sql_error + history_entry list" where
  "read_entries env [] = Inr []"
| "read_entries env (r # rs) =
     bind_sum (read_entry env r) (\<lambda>e. bind_sum (read_entries env rs) (\<lambda>es. Inr (e # es)))"

definition list_entries ::
  "'j history_env \<Rightarrow> tmux_server_id \<Rightarrow> history_query \<Rightarrow> ('j, history_entry list) history_op" where
  "list_entries env server q =
     with_sqlite_busy_retry (query (\<lambda>t. read_entries env (selected_rows server q (ht_rows t))))"

section \<open>Opening\<close>

text \<open>
  What opening meets: whether the path has a parent, what \<open>prepare_private_file_path\<close> and the
  permission change return, the journal mode SQLite answers, and whether the worker can be spawned.
\<close>

record open_world =
  ow_has_parent :: bool
  ow_prepared :: "path_error + unit"
  ow_permissions_ok :: bool
  ow_journal_mode :: ustring
  ow_spawn_ok :: bool

definition ascii_lower :: "nat \<Rightarrow> nat" where
  "ascii_lower c = (if 0x41 \<le> c \<and> c \<le> 0x5a then c + 0x20 else c)"

definition open_connection :: "open_world \<Rightarrow> ('j, unit) history_op" where
  "open_connection w =
     then_op (with_sqlite_busy_retry (query (\<lambda>_. Inr ())))
     (then_op (if ow_permissions_ok w then ret () else raise HistoryIo)
     (then_op (with_sqlite_busy_retry (query (\<lambda>_. Inr ())))
     (bind_op (with_sqlite_busy_retry (query (\<lambda>_. Inr (ow_journal_mode w)))) (\<lambda>mode.
        if map ascii_lower mode = ustr ''wal''
        then with_sqlite_busy_retry (query (\<lambda>_. Inr ()))
        else raise (InvalidHistoryValue ''journal_mode'' mode)))))"

text \<open>The migration of an empty database creates the table and its indices.\<close>

definition migrate_locked :: "history_table \<Rightarrow> 'j sql_error + unit \<times> history_table" where
  "migrate_locked t =
     (if ht_version t = 0 then Inr ((), \<lparr>ht_version = SCHEMA_VERSION, ht_rows = []\<rparr>)
      else if ht_version t > SCHEMA_VERSION then Inl InvalidQuery
      else Inr ((), t))"

definition migrate :: "('j, unit) history_op" where
  "migrate =
     bind_op (with_sqlite_busy_retry (query (\<lambda>t. Inr (ht_version t)))) (\<lambda>version.
       if version > SCHEMA_VERSION then raise (NewerSchema version SCHEMA_VERSION)
       else if version = 0 then with_sqlite_busy_retry (run_statement migrate_locked)
       else ret ())"

definition open_database ::
  "'j history_env \<Rightarrow> open_world \<Rightarrow> tmux_server_id \<Rightarrow> nat \<Rightarrow> wall_time option \<Rightarrow> ('j, unit) history_op" where
  "open_database env w server max_entries recovery_time =
     (if \<not> ow_has_parent w then raise InvalidPath
      else case ow_prepared w of
        Inl e \<Rightarrow> raise (HistoryPath e)
      | Inr _ \<Rightarrow>
          then_op (open_connection w)
          (then_op migrate
          (then_op (case recovery_time of Some now \<Rightarrow> recover_stale env server now | None \<Rightarrow> ret ())
          (then_op (enforce_retention max_entries)
            (if ow_spawn_ok w then ret () else raise HistoryIo)))))"

section \<open>The worker and its queue\<close>

datatype history_command =
    HistoryPersist notification
  | HistoryHide notification_id "wall_time option"
  | HistoryMarkJumped notification_id wall_time
  | HistoryList history_query
  | HistoryClear row_filter bool
  | HistoryCountClear row_filter bool
  | HistoryFlush

datatype history_answer =
    Persisted | HistoryDisabled | Entries "history_entry list" | RowCount nat | Flushed

definition worker_answered :: "'a \<Rightarrow> ('s, 'e, 'b) op \<Rightarrow> ('s, 'e, 'a) op" where
  "worker_answered a m = bind_op m (\<lambda>_. ret a)"

text \<open>One round of \<open>worker_loop\<close>: the command and what is sent as its reply.\<close>

fun worker_command ::
  "'j history_env \<Rightarrow> tmux_server_id \<Rightarrow> nat \<Rightarrow> history_command \<Rightarrow> ('j, history_answer) history_op" where
  "worker_command env server max_entries (HistoryPersist n) = worker_answered Persisted (persist env server max_entries n)"
| "worker_command env server max_entries (HistoryHide i t) = worker_answered Persisted (set_hidden env i t)"
| "worker_command env server max_entries (HistoryMarkJumped i t) = worker_answered Persisted (mark_jumped env i t)"
| "worker_command env server max_entries (HistoryList q) =
     bind_op (list_entries env server q) (\<lambda>es. ret (Entries es))"
| "worker_command env server max_entries (HistoryClear f all_servers) =
     bind_op (clear_entries env server f all_servers) (\<lambda>n. ret (RowCount n))"
| "worker_command env server max_entries (HistoryCountClear f all_servers) =
     bind_op (count_clear_entries env server f all_servers) (\<lambda>n. ret (RowCount n))"
| "worker_command env server max_entries HistoryFlush = ret Flushed"

text \<open>
  The handle with its channel. A submission gets a number; \<open>hst_replies\<close> lists the replies sent so far
  with the numbers of their tasks. A task whose worker has gone reads \<open>WorkerStopped\<close>.
\<close>

record 'j history_state =
  hst_enabled :: bool
  hst_server :: tmux_server_id
  hst_max_entries :: nat
  hst_capacity :: nat
  hst_alive :: bool
  hst_next :: nat
  hst_queue :: "(nat \<times> history_command) list"
  hst_replies :: "(nat \<times> ('j history_error + history_answer)) list"
  hst_database :: "'j database"

definition DEFAULT_QUEUE_CAPACITY :: nat where "DEFAULT_QUEUE_CAPACITY = 128"

definition history_opened ::
  "bool \<Rightarrow> tmux_server_id \<Rightarrow> nat \<Rightarrow> nat \<Rightarrow> 'j database \<Rightarrow> 'j history_state" where
  "history_opened enabled server max_entries capacity db =
     \<lparr>hst_enabled = enabled, hst_server = server, hst_max_entries = max_entries, hst_capacity = max capacity 1,
      hst_alive = True, hst_next = 0, hst_queue = [], hst_replies = [], hst_database = db\<rparr>"

text \<open>\<open>History::open_with_capacity\<close>: a disabled History touches nothing and has no worker.\<close>

definition open_with_capacity ::
  "'j history_env \<Rightarrow> open_world \<Rightarrow> tmux_server_id \<Rightarrow> history_config \<Rightarrow> wall_time option \<Rightarrow> nat \<Rightarrow> 'j database
     \<Rightarrow> ('j history_error fault + 'j history_state) \<times> 'j database" where
  "open_with_capacity env w server config recovery_time capacity db =
     (if \<not> hc_enabled config
      then (Inr (history_opened False server (hc_max_entries config) capacity db), db)
      else case open_database env w server (hc_max_entries config) recovery_time db of
        (Inl e, db') \<Rightarrow> (Inl e, db')
      | (Inr _, db') \<Rightarrow> (Inr (history_opened True server (hc_max_entries config) capacity db'), db'))"

fun disabled_answer :: "history_command \<Rightarrow> history_answer" where
  "disabled_answer (HistoryList q) = Entries []"
| "disabled_answer (HistoryClear f a) = RowCount 0"
| "disabled_answer (HistoryCountClear f a) = RowCount 0"
| "disabled_answer HistoryFlush = Flushed"
| "disabled_answer (HistoryPersist n) = HistoryDisabled"
| "disabled_answer (HistoryHide i t) = HistoryDisabled"
| "disabled_answer (HistoryMarkJumped i t) = HistoryDisabled"

definition history_submit :: "history_command \<Rightarrow> 'j history_state \<Rightarrow> ('j history_error + nat) \<times> 'j history_state" where
  "history_submit c s =
     (if \<not> hst_alive s then (Inl WorkerStopped, s)
      else if hst_capacity s \<le> length (hst_queue s) then (Inl QueueFull, s)
      else (Inr (hst_next s), s\<lparr>hst_next := hst_next s + 1, hst_queue := hst_queue s @ [(hst_next s, c)]\<rparr>))"

text \<open>The public methods: \<open>persist\<close>, \<open>hide\<close>, \<open>unhide\<close>, \<open>mark_jumped\<close>, \<open>list\<close>, \<open>clear\<close>, \<open>count_clear\<close>, \<open>flush\<close>.\<close>

definition history_call :: "history_command \<Rightarrow> 'j history_state \<Rightarrow> ('j history_error + nat) \<times> 'j history_state" where
  "history_call c s =
     (if \<not> hst_enabled s
      then (Inr (hst_next s), s\<lparr>hst_next := hst_next s + 1,
              hst_replies := hst_replies s @ [(hst_next s, Inr (disabled_answer c))]\<rparr>)
      else history_submit c s)"

text \<open>A panic would end the worker: the tasks still queued then read \<open>WorkerStopped\<close>.\<close>

definition worker_step :: "'j history_env \<Rightarrow> 'j history_state \<Rightarrow> 'j history_state" where
  "worker_step env s =
     (case hst_queue s of
        [] \<Rightarrow> s
      | (k, c) # queue \<Rightarrow>
          if \<not> hst_alive s then s
          else (case worker_command env (hst_server s) (hst_max_entries s) c (hst_database s) of
            (Inl Panic, db) \<Rightarrow> s\<lparr>hst_alive := False, hst_queue := [], hst_database := db,
               hst_replies := hst_replies s @ map (\<lambda>(k, _). (k, Inl WorkerStopped)) (hst_queue s)\<rparr>
          | (Inl (Fail e), db) \<Rightarrow> s\<lparr>hst_queue := queue, hst_database := db,
               hst_replies := hst_replies s @ [(k, Inl e)]\<rparr>
          | (Inr a, db) \<Rightarrow> s\<lparr>hst_queue := queue, hst_database := db,
               hst_replies := hst_replies s @ [(k, Inr a)]\<rparr>))"

datatype history_event = CallHistory history_command | WorkHistory

fun history_step :: "'j history_env \<Rightarrow> 'j history_state \<Rightarrow> history_event \<Rightarrow> 'j history_state" where
  "history_step env s (CallHistory c) = snd (history_call c s)"
| "history_step env s WorkHistory = worker_step env s"

section \<open>Output\<close>

text \<open>
  The width of a string and of a character are unicode-width's, the timestamp text is chrono's and
  the JSON text serde's; writing stops at the first error of the writer, which is not modelled.
\<close>

record output_metrics =
  om_width :: "ustring \<Rightarrow> nat"
  om_char_width :: "nat \<Rightarrow> nat option"
  om_rfc3339 :: "wall_time \<Rightarrow> ustring"

definition truncation_mark :: nat where "truncation_mark = 0x2026"

fun take_chars :: "(nat \<Rightarrow> nat option) \<Rightarrow> nat \<Rightarrow> nat \<Rightarrow> ustring \<Rightarrow> ustring" where
  "take_chars cw limit used [] = []"
| "take_chars cw limit used (c # cs) =
     (let w = (case cw c of Some w \<Rightarrow> w | None \<Rightarrow> 0)
      in if used + w > limit then [] else c # take_chars cw limit (used + w) cs)"

definition truncate_cells :: "output_metrics \<Rightarrow> ustring \<Rightarrow> nat \<Rightarrow> ustring" where
  "truncate_cells om value width =
     (if om_width om value \<le> width then value
      else if width = 0 then []
      else take_chars (om_char_width om) (width - 1) 0 value @ [truncation_mark])"

fun history_level :: "level \<Rightarrow> ustring" where
  "history_level Info = ustr ''info''"
| "history_level Success = ustr ''success''"
| "history_level Warning = ustr ''warning''"
| "history_level Error = ustr ''error''"

definition first_text_line :: "ustring \<Rightarrow> ustring" where
  "first_text_line body =
     (case filter (\<lambda>l. \<not> list_all is_whitespace l) (rust_lines body) of [] \<Rightarrow> [] | l # _ \<Rightarrow> l)"

text \<open>\<open>"{} {:<7} {}{}{}"\<close>: the level is padded to seven characters.\<close>

definition plain_row :: "output_metrics \<Rightarrow> history_entry \<Rightarrow> ustring" where
  "plain_row om e =
     (let level = history_level (en_level e) in
      om_rfc3339 om (en_updated_at e) @ [0x20] @ level @ replicate (7 - length level) 0x20 @ [0x20]
      @ en_title e @ (if en_title e = [] then [] else [0x20, 0x2014, 0x20]) @ first_text_line (en_body e))"

definition write_plain :: "output_metrics \<Rightarrow> history_entry list \<Rightarrow> nat \<Rightarrow> ustring" where
  "write_plain om entries width = concat (map (\<lambda>e. truncate_cells om (plain_row om e) width @ [0x0a]) entries)"

text \<open>\<open>to_writer\<close> of an entry, which has nothing that cannot be written as JSON.\<close>

definition write_ndjson :: "(history_entry \<Rightarrow> ustring) \<Rightarrow> history_entry list \<Rightarrow> ustring" where
  "write_ndjson to_json entries = concat (map (\<lambda>e. to_json e @ [0x0a]) entries)"

end
