(* ===== verification/History_Props.thy ===== *)
theory History_Props
  imports History_Store "HOL-Library.Multiset"
begin

text \<open>
  What the History promises: a busy database is retried a bounded number of times, the table keeps
  unique well-formed rows within its limit, a persisted Notification is read back as it was, a Clear
  deletes what was counted, opening closes what a dead daemon left live, and the worker answers in
  the order of submission.
\<close>

section \<open>Bounded retries\<close>

abbreviation counted :: "(nat \<Rightarrow> 'j sql_error + 'a) \<Rightarrow> nat \<times> duration list \<Rightarrow> ('j sql_error + 'a) \<times> nat \<times> duration list" where
  "counted outcomes \<equiv> \<lambda>(k, slept). (outcomes k, Suc k, slept)"

abbreviation sleeping :: "duration \<Rightarrow> nat \<times> duration list \<Rightarrow> nat \<times> duration list" where
  "sleeping \<equiv> \<lambda>d (k, slept). (k, slept @ [d])"

fun busy_result :: "'j sql_error + 'a \<Rightarrow> bool" where
  "busy_result (Inl e) = is_busy e"
| "busy_result (Inr a) = False"

definition busy_count :: "(nat \<Rightarrow> 'j sql_error + 'a) \<Rightarrow> nat" where
  "busy_count outcomes = length (takeWhile (\<lambda>k. busy_result (outcomes k)) [0..<7])"

definition backoffs :: "duration list" where
  "backoffs = map from_millis [5, 10, 20, 40, 40, 40, 40]"

definition from_sqlite :: "'j sql_error + 'a \<Rightarrow> 'j history_error fault + 'a" where
  "from_sqlite r = (case r of Inl e \<Rightarrow> Inl (Fail (HistorySqlite e)) | Inr a \<Rightarrow> Inr a)"

lemma busy_attempts_step:
  "busy_attempts (counted outcomes) sleeping d (k # ks) (n, slept) =
     (if busy_result (outcomes n) \<and> k + 1 < 8
      then busy_attempts (counted outcomes) sleeping (min (2 * d) (from_millis 40)) ks (Suc n, slept @ [d])
      else (from_sqlite (outcomes n), Suc n, slept))"
  by (cases "outcomes n") (auto simp: SQLITE_BUSY_MAX_ATTEMPTS_def SQLITE_BUSY_MAX_BACKOFF_def op_defs from_sqlite_def)

declare busy_attempts.simps [simp del]

primrec doubling :: "duration \<Rightarrow> nat \<Rightarrow> duration list" where
  "doubling d 0 = []"
| "doubling d (Suc k) = d # doubling (min (2 * d) (from_millis 40)) k"

lemma busy_attempts_run:
  assumes "n \<le> 7"
  shows "busy_attempts (counted outcomes) sleeping d [n..<8] (n, slept) =
    (let k = length (takeWhile (\<lambda>k. busy_result (outcomes k)) [n..<7])
     in (from_sqlite (outcomes (n + k)), Suc (n + k), slept @ doubling d k))"
  using assms
proof (induction n arbitrary: d slept rule: inc_induct)
  case base
  have "[7..<8] = [7::nat]" by (simp add: upt_rec)
  then show ?case by (simp add: busy_attempts_step)
next
  case (step n)
  have "[n..<8] = n # [Suc n..<8]" "[n..<7] = n # [Suc n..<7]"
    using step.hyps by (simp_all add: upt_rec)
  then show ?case using step.hyps step.IH by (simp add: busy_attempts_step Let_def)
qed

lemma busy_count_le: "busy_count outcomes \<le> 7"
  using length_takeWhile_le [of "\<lambda>k. busy_result (outcomes k)" "[0..<7]"] by (simp add: busy_count_def)

lemma doubling_numeral:
  "doubling d (numeral n) = d # doubling (min (2 * d) (from_millis 40)) (pred_numeral n)"
  by (simp add: numeral_eq_Suc)

lemma doubling_backoffs: "k \<le> 7 \<Longrightarrow> doubling (from_millis 5) k = take k backoffs"
proof -
  assume "k \<le> 7"
  then have "k \<in> {0, 1, 2, 3, 4, 5, 6, 7}" by auto
  moreover have "\<forall>k \<in> {0, 1, 2, 3, 4, 5, 6, 7}. doubling (from_millis 5) k = take k backoffs"
    by (simp add: doubling_numeral backoffs_def from_millis_def)
  ultimately show ?thesis by blast
qed

text \<open>
  Claim C31. For every sequence of outcomes the operation is run until it is not busy, at most eight
  times, with pauses of 5, 10, 20 and then 40 ms between the attempts; the outcome of the last
  attempt is the result, and the end of the loop is never reached.
\<close>

theorem busy_retry_bounded:
  fixes outcomes :: "nat \<Rightarrow> 'j sql_error + 'a"
  shows "with_sqlite_busy_retry_and_backoff (counted outcomes) sleeping (0, []) =
     (from_sqlite (outcomes (busy_count outcomes)), Suc (busy_count outcomes), take (busy_count outcomes) backoffs)"
  using busy_attempts_run [of 0 outcomes "from_millis 5" "[]"]
  by (simp add: with_sqlite_busy_retry_and_backoff_def SQLITE_BUSY_MAX_ATTEMPTS_def SQLITE_BUSY_INITIAL_BACKOFF_def
      Let_def doubling_backoffs [OF busy_count_le] flip: busy_count_def)

section \<open>Statements on the rows\<close>

lemma merge_row_id [simp]: "hr_id (merge_row new old) = hr_id new"
  by (simp add: merge_row_def)

lemma upsert_ids:
  "distinct (map hr_id rows) \<Longrightarrow> distinct (map hr_id (upsert new rows))"
  "hr_id ` set (upsert new rows) = insert (hr_id new) (hr_id ` set rows)"
proof -
  have eq: "map hr_id (map (\<lambda>r. if hr_id r = hr_id new then merge_row new r else r) rows) = map hr_id rows"
    by simp
  then show "distinct (map hr_id rows) \<Longrightarrow> distinct (map hr_id (upsert new rows))"
    by (cases "hr_id new \<in> hr_id ` set rows") (simp_all only: upsert_def if_True if_False, simp)
  show "hr_id ` set (upsert new rows) = insert (hr_id new) (hr_id ` set rows)"
    unfolding set_map [symmetric]
    by (cases "hr_id new \<in> hr_id ` set rows") (simp_all only: upsert_def if_True if_False eq, auto)
qed

lemma update_where_ids: "(\<And>r. hr_id (f r) = hr_id r) \<Longrightarrow> map hr_id (update_where P f rows) = map hr_id rows"
  by (simp add: update_where_def)

text \<open>Retention keeps the rows that come last in its order.\<close>

definition retained :: "nat \<Rightarrow> history_row list \<Rightarrow> history_row set" where
  "retained max_entries rows = set (drop (length rows - max_entries) (sort_key retention_key rows))"

lemma retention_rows:
  assumes "distinct (map hr_id rows)"
  shows "set (enforce_retention_in max_entries rows) = retained max_entries rows"
    and "distinct (map hr_id (enforce_retention_in max_entries rows))"
    and "length (enforce_retention_in max_entries rows) = min (length rows) max_entries"
proof -
  let ?sorted = "sort_key retention_key rows" and ?k = "length rows - max_entries"
  have ids: "distinct (map hr_id ?sorted)"
    using assms by (simp add: distinct_map)
  then have split: "distinct (map hr_id (take ?k ?sorted) @ map hr_id (drop ?k ?sorted))"
    by (simp add: append_take_drop_id flip: map_append)
  have "set rows = set (take ?k ?sorted) \<union> set (drop ?k ?sorted)"
    by (metis append_take_drop_id set_append set_sort)
  then show eq: "set (enforce_retention_in max_entries rows) = retained max_entries rows"
    using split by (auto simp: enforce_retention_in_def retained_def)
  show dist: "distinct (map hr_id (enforce_retention_in max_entries rows))"
    using assms by (simp add: enforce_retention_in_def distinct_map_filter)
  have "length (enforce_retention_in max_entries rows) = card (retained max_entries rows)"
    using dist eq by (metis distinct_card distinct_map)
  also have "\<dots> = length (drop ?k ?sorted)"
    unfolding retained_def using ids by (meson distinct_card distinct_drop distinct_map)
  finally show "length (enforce_retention_in max_entries rows) = min (length rows) max_entries"
    by auto
qed

lemma retention_order:
  assumes "distinct (map hr_id rows)" "d \<in> set rows" "d \<notin> retained max_entries rows" "r \<in> retained max_entries rows"
  shows "retention_key d \<le> retention_key r"
proof -
  let ?sorted = "sort_key retention_key rows" and ?k = "length rows - max_entries"
  have "d \<in> set (take ?k ?sorted)"
    using assms(2,3) unfolding retained_def by (metis Un_iff append_take_drop_id set_append set_sort)
  moreover have "sorted (map retention_key (take ?k ?sorted) @ map retention_key (drop ?k ?sorted))"
    by (simp flip: map_append)
  ultimately show ?thesis using assms(4) by (auto simp: sorted_append retained_def)
qed

section \<open>The table keeps unique well-formed rows\<close>

definition rows_ok :: "'j history_env \<Rightarrow> history_row list \<Rightarrow> bool" where
  "rows_ok env rows \<longleftrightarrow> distinct (map hr_id rows) \<and> (\<forall>r \<in> set rows. wf_row env r)"

text \<open>
  The other processes keep that too, and \<open>faults\<close> are the failures SQLite can report.
\<close>

definition db_ok :: "'j history_env \<Rightarrow> 'j sql_error set \<Rightarrow> 'j database \<Rightarrow> bool" where
  "db_ok env faults db \<longleftrightarrow> rows_ok env (ht_rows (db_table db))
     \<and> (\<forall>(change, fault) \<in> set (db_script db). set_option fault \<subseteq> faults
          \<and> (\<forall>t. rows_ok env (ht_rows t) \<longrightarrow> rows_ok env (ht_rows (change t))))"

definition sqlite_in :: "'j sql_error set \<Rightarrow> 'j history_error \<Rightarrow> bool" where
  "sqlite_in faults e \<longleftrightarrow> e \<in> HistorySqlite ` faults"

text \<open>A statement that keeps the rows and whose result has \<open>Q\<close>; it fails only as SQLite does.\<close>

definition good_statement ::
  "'j history_env \<Rightarrow> (history_table \<Rightarrow> 'j sql_error + 'a \<times> history_table) \<Rightarrow> ('a \<Rightarrow> history_table \<Rightarrow> bool) \<Rightarrow> bool" where
  "good_statement env f Q \<longleftrightarrow> (\<forall>t. rows_ok env (ht_rows t) \<longrightarrow>
     (\<exists>a t'. f t = Inr (a, t') \<and> rows_ok env (ht_rows t') \<and> Q a t'))"

lemma run_good_statement:
  assumes "good_statement env f Q" "db_ok env faults db"
  shows "case run_statement f db of
      (Inl e, db') \<Rightarrow> e \<in> faults \<and> db_ok env faults db'
    | (Inr a, db') \<Rightarrow> db_ok env faults db' \<and> Q a (db_table db')"
proof (cases "db_script db")
  case Nil
  have "rows_ok env (ht_rows (db_table db))" using assms(2) by (simp add: db_ok_def)
  with assms(1) obtain a t' where "f (db_table db) = Inr (a, t')" "rows_ok env (ht_rows t')" "Q a t'"
    unfolding good_statement_def by blast
  with Nil show ?thesis by (simp add: run_statement_def db_ok_def)
next
  case (Cons x rest)
  obtain change fault where x: "x = (change, fault)" by (cases x)
  have t: "rows_ok env (ht_rows (change (db_table db)))" and fault: "set_option fault \<subseteq> faults"
    and rest: "\<forall>(change, fault) \<in> set rest. set_option fault \<subseteq> faults
          \<and> (\<forall>t. rows_ok env (ht_rows t) \<longrightarrow> rows_ok env (ht_rows (change t)))"
    using assms(2) Cons x by (simp_all add: db_ok_def)
  from t assms(1) obtain a t' where "f (change (db_table db)) = Inr (a, t')" "rows_ok env (ht_rows t')" "Q a t'"
    unfolding good_statement_def by blast
  with Cons x t fault rest show ?thesis
    by (cases fault) (simp_all add: run_statement_def db_ok_def)
qed

lemma busy_attempts_good:
  assumes "good_statement env f Q" "tries \<noteq> []" "last tries + 1 = SQLITE_BUSY_MAX_ATTEMPTS"
  shows "triple (db_ok env faults) (busy_attempts (run_statement f) (\<lambda>_ db. db) d tries)
    (\<lambda>a db. db_ok env faults db \<and> Q a (db_table db)) (\<lambda>e db. db_ok env faults db \<and> sqlite_in faults e)"
  using assms(2,3)
proof (induction tries arbitrary: d)
  case (Cons k ks)
  show ?case unfolding triple_def
  proof (intro allI impI)
    fix db assume db: "db_ok env faults db"
    obtain r db' where run: "run_statement f db = (r, db')" by fastforce
    show "case busy_attempts (run_statement f) (\<lambda>_ db. db) d (k # ks) db of
        (Inl Panic, _) \<Rightarrow> False
      | (Inl (Fail e), s') \<Rightarrow> db_ok env faults s' \<and> sqlite_in faults e
      | (Inr a, s') \<Rightarrow> db_ok env faults s' \<and> Q a (db_table s')"
    proof (cases r)
      case (Inr a)
      then show ?thesis using run_good_statement [OF assms(1) db] run
        by (simp add: busy_attempts.simps op_defs)
    next
      case (Inl e)
      then have e: "e \<in> faults" "db_ok env faults db'" using run_good_statement [OF assms(1) db] run by auto
      show ?thesis
      proof (cases "is_busy e \<and> k + 1 < SQLITE_BUSY_MAX_ATTEMPTS")
        case True
        then have "ks \<noteq> []" using Cons.prems(2) by auto
        then have "triple (db_ok env faults) (busy_attempts (run_statement f) (\<lambda>_ db. db) (min (2 * d) SQLITE_BUSY_MAX_BACKOFF) ks)
          (\<lambda>a db. db_ok env faults db \<and> Q a (db_table db)) (\<lambda>e db. db_ok env faults db \<and> sqlite_in faults e)"
          using Cons.IH Cons.prems by simp
        from tripleD [OF this e(2)] show ?thesis using Inl run True by (simp add: busy_attempts.simps)
      next
        case False
        then show ?thesis using Inl run e by (auto simp: busy_attempts.simps op_defs sqlite_in_def)
      qed
    qed
  qed
qed simp

lemma retry_good:
  assumes "good_statement env f Q"
  shows "triple (db_ok env faults) (with_sqlite_busy_retry (run_statement f))
    (\<lambda>a db. db_ok env faults db \<and> Q a (db_table db)) (\<lambda>e db. db_ok env faults db \<and> sqlite_in faults e)"
  unfolding with_sqlite_busy_retry_def with_sqlite_busy_retry_and_backoff_def
  by (rule busy_attempts_good [OF assms]) (simp_all add: SQLITE_BUSY_MAX_ATTEMPTS_def)

lemma update_rows_good:
  "(\<And>rows. rows_ok env rows \<Longrightarrow> rows_ok env (f rows) \<and> Q (f rows))
     \<Longrightarrow> good_statement env (\<lambda>t. Inr ((), t\<lparr>ht_rows := f (ht_rows t)\<rparr>)) (\<lambda>_ t. Q (ht_rows t))"
  by (simp add: good_statement_def)

lemma query_good:
  "(\<And>t. rows_ok env (ht_rows t) \<Longrightarrow> \<exists>a. f t = Inr a \<and> Q a t)
     \<Longrightarrow> good_statement env (\<lambda>t. bind_sum (f t) (\<lambda>a. Inr (a, t))) Q"
  unfolding good_statement_def by (metis sum.case(2))

lemma update_where_ok:
  assumes "\<And>r. hr_id (f r) = hr_id r" "\<And>r. wf_row env r \<Longrightarrow> P r \<Longrightarrow> wf_row env (f r)" "rows_ok env rows"
  shows "rows_ok env (update_where P f rows)"
proof -
  have "\<forall>r \<in> set (update_where P f rows). wf_row env r"
    using assms(2,3) by (auto simp: update_where_def rows_ok_def)
  moreover have "distinct (map hr_id (update_where P f rows))"
    using assms(3) by (simp only: update_where_ids [OF assms(1)] rows_ok_def)
  ultimately show ?thesis by (simp add: rows_ok_def)
qed

lemma retention_ok: "rows_ok env rows \<Longrightarrow> rows_ok env (enforce_retention_in max_entries rows)"
  by (auto simp: rows_ok_def enforce_retention_in_def distinct_map_filter)

lemma upsert_ok:
  assumes "rows_ok env rows" "wf_row env new"
  shows "rows_ok env (upsert new rows)"
proof -
  have "\<forall>r \<in> set (upsert new rows). wf_row env r"
    using assms by (auto simp: upsert_def rows_ok_def merge_row_wf)
  then show ?thesis using assms(1) upsert_ids(1) by (simp add: rows_ok_def)
qed

lemma hidden_row_wf:
  assumes "history_env_ok env" "wf_row env r"
  shows "wf_row env (r\<lparr>hr_hidden_at := map_option (he_millis env) t\<rparr>)"
proof -
  obtain e where "read_entry env r = Inr e" "wf_history_entry e" using assms(2) by (auto simp: wf_row_def)
  then show ?thesis using read_hidden [OF _ stored_times_read [OF assms(1)]]
    by (fastforce simp: wf_row_def wf_history_entry_def)
qed

lemma jumped_row_wf:
  assumes "history_env_ok env" "wf_row env r"
  shows "wf_row env (r\<lparr>hr_jumped_at := Some (he_millis env t)\<rparr>)"
proof -
  obtain e where "read_entry env r = Inr e" "wf_history_entry e" using assms(2) by (auto simp: wf_row_def)
  then show ?thesis using read_jumped [OF _ stored_times_read [OF assms(1), of _ "Some t", simplified option.map]]
    by (fastforce simp: wf_row_def wf_history_entry_def)
qed

lemma interrupted_row_wf:
  assumes "history_env_ok env" "wf_row env r"
  shows "wf_row env (r\<lparr>hr_delivery := ustr ''closed'', hr_close_reason := Some (ustr ''daemon_interrupted''),
    hr_updated_at := he_millis env t\<rparr>)"
proof -
  have names: "history_name delivery_names Closed = ustr ''closed''"
    "history_name close_reason_names DaemonInterrupted = ustr ''daemon_interrupted''"
    by (simp_all add: history_name_def name_tables)
  obtain e where "read_entry env r = Inr e" "wf_history_entry e" using assms(2) by (auto simp: wf_row_def)
  then show ?thesis using read_interrupted [OF _ stored_time_read(1) [OF assms(1)], unfolded names]
    by (fastforce simp: wf_row_def wf_history_entry_def)
qed

lemma read_entries_ok:
  "\<forall>r \<in> set rs. wf_row env r \<Longrightarrow>
     \<exists>es. read_entries env rs = Inr es \<and> map (read_entry env) rs = map Inr es \<and> (\<forall>e \<in> set es. wf_history_entry e)"
proof (induction rs)
  case (Cons r rs)
  then obtain es e where "read_entries env rs = Inr es" "map (read_entry env) rs = map Inr es"
    "\<forall>e \<in> set es. wf_history_entry e" "read_entry env r = Inr e" "wf_history_entry e"
    by (auto simp: wf_row_def)
  then show ?case by (intro exI [of _ "e # es"]) simp
qed simp

section \<open>Every command keeps the table\<close>

definition storable :: "'j history_env \<Rightarrow> history_command \<Rightarrow> bool" where
  "storable env c \<longleftrightarrow> (case c of
     HistoryPersist n \<Rightarrow> wf_notification n \<and> uuid_version (he_uuid env) (n_id n) = 7 | _ \<Rightarrow> True)"

text \<open>What each answer says of the table it was given on.\<close>

fun history_answer_ok ::
  "'j history_env \<Rightarrow> tmux_server_id \<Rightarrow> nat \<Rightarrow> history_command \<Rightarrow> history_answer \<Rightarrow> history_row list \<Rightarrow> bool" where
  "history_answer_ok env server max_entries (HistoryPersist n) Persisted rows \<longleftrightarrow> length rows \<le> max_entries"
| "history_answer_ok env server max_entries (HistoryHide i t) Persisted rows \<longleftrightarrow>
     (\<forall>r \<in> set rows. hr_id r = he_id_text env i \<longrightarrow> hr_hidden_at r = map_option (he_millis env) t)"
| "history_answer_ok env server max_entries (HistoryMarkJumped i t) Persisted rows \<longleftrightarrow>
     (\<forall>r \<in> set rows. hr_id r = he_id_text env i \<longrightarrow> hr_jumped_at r = Some (he_millis env t))"
| "history_answer_ok env server max_entries (HistoryList q) (Entries es) rows \<longleftrightarrow>
     map Inr es = map (read_entry env) (selected_rows server q rows) \<and> (\<forall>e \<in> set es. wf_history_entry e)"
| "history_answer_ok env server max_entries (HistoryClear f a) (RowCount k) rows \<longleftrightarrow>
     filter (delete_condition env server f a) rows = []"
| "history_answer_ok env server max_entries (HistoryCountClear f a) (RowCount k) rows \<longleftrightarrow>
     k = length (filter (count_condition env server f a) rows)"
| "history_answer_ok env server max_entries HistoryFlush Flushed rows \<longleftrightarrow> True"
| "history_answer_ok env server max_entries c a rows \<longleftrightarrow> False"

lemma triple_worker_answered:
  assumes "triple P m (\<lambda>a. Q a) E"
  shows "triple P (bind_op m (\<lambda>a. ret (g a))) (\<lambda>b s. \<exists>a. b = g a \<and> Q a s) E"
  by (rule triple_bind [OF assms]) (auto intro: triple_ret)

lemma persist_good:
  assumes env: "history_env_ok env" and server: "wf_server server"
    and n: "wf_notification n" "uuid_version (he_uuid env) (n_id n) = 7"
    and source: "pred_option (\<lambda>c. src_tmux_server_id c = server) (n_source n)"
  shows "good_statement env (\<lambda>t. bind_sum (persist_in env server n (ht_rows t)) (\<lambda>rows.
          Inr ((), t\<lparr>ht_rows := enforce_retention_in max_entries rows\<rparr>)))
    (\<lambda>_ t. length (ht_rows t) \<le> max_entries)"
  unfolding good_statement_def
proof (intro allI impI)
  fix t assume t: "rows_ok env (ht_rows t)"
  obtain r where r: "row_of env server n = Inr r" "read_entry env r = Inr (history_entry_of env server n)"
    using row_read [OF env n(1) server n(2) source] by blast
  then have "wf_row env r" using history_entry_of_wf [OF n(1) source] by (auto simp: wf_row_def)
  from upsert_ok [OF t this] have ok: "rows_ok env (upsert r (ht_rows t))" .
  show "\<exists>a t'. bind_sum (persist_in env server n (ht_rows t)) (\<lambda>rows.
          Inr ((), t\<lparr>ht_rows := enforce_retention_in max_entries rows\<rparr>)) = Inr (a, t')
      \<and> rows_ok env (ht_rows t') \<and> length (ht_rows t') \<le> max_entries"
    using retention_ok [OF ok] retention_rows(3) [of "upsert r (ht_rows t)" max_entries] ok
    by (simp add: persist_in_def r rows_ok_def)
qed

lemma update_statement: "update_rows f = run_statement (\<lambda>t. Inr ((), t\<lparr>ht_rows := f (ht_rows t)\<rparr>))"
  by (simp add: update_rows_def)

lemma triple_result:
  "triple P m Q E \<Longrightarrow> P s \<Longrightarrow> m s = (r, s') \<Longrightarrow>
     (case r of Inl Panic \<Rightarrow> False | Inl (Fail e) \<Rightarrow> E e s' | Inr a \<Rightarrow> Q a s')"
  by (drule (1) tripleD) (auto split: sum.splits fault.splits)

text \<open>One command: its triple over a shared table.\<close>

abbreviation command_kept ::
  "'j history_env \<Rightarrow> 'j sql_error set \<Rightarrow> tmux_server_id \<Rightarrow> nat \<Rightarrow> history_command \<Rightarrow> bool" where
  "command_kept env faults server max_entries c \<equiv>
     triple (db_ok env faults) (worker_command env server max_entries c)
       (\<lambda>a db. db_ok env faults db \<and> history_answer_ok env server max_entries c a (ht_rows (db_table db)))
       (\<lambda>e db. db_ok env faults db \<and> (sqlite_in faults e \<or> e = ServerMismatch \<and>
          (\<exists>n. c = HistoryPersist n \<and> \<not> pred_option (\<lambda>s. src_tmux_server_id s = server) (n_source n))))"

lemma retry_kept:
  assumes "good_statement env f Q" "worker_command env server max_entries c =
      bind_op (with_sqlite_busy_retry (run_statement f)) (\<lambda>a. ret (g a))"
    "\<And>a t. Q a t \<Longrightarrow> history_answer_ok env server max_entries c (g a) (ht_rows t)"
  shows "command_kept env faults server max_entries c"
  unfolding assms(2)
  by (rule triple_conseq [OF triple_worker_answered [OF retry_good [OF assms(1)]]]) (use assms(3) in auto)

lemma worker_command_kept:
  assumes env: "history_env_ok env" and server: "wf_server server" and c: "storable env c"
  shows "command_kept env faults server max_entries c"
proof (cases c)
  case (HistoryPersist n)
  show ?thesis
  proof (cases "pred_option (\<lambda>s. src_tmux_server_id s = server) (n_source n)")
    case True
    show ?thesis
      by (rule retry_kept [where g = "\<lambda>_. Persisted", OF persist_good [OF env server _ _ True, where max_entries = max_entries]])
        (use c HistoryPersist True in \<open>simp_all add: storable_def worker_answered_def persist_def\<close>)
  next
    case False
    then show ?thesis
      by (simp add: HistoryPersist triple_def worker_answered_def persist_def bind_op_def op_defs)
  qed
next
  case (HistoryHide i t)
  show ?thesis
    by (rule retry_kept [where g = "\<lambda>_. Persisted", OF update_rows_good [where Q = "\<lambda>rows. history_answer_ok env server max_entries c Persisted rows"]])
      (use env in \<open>auto simp: HistoryHide worker_answered_def set_hidden_def update_rows_def
        intro!: update_where_ok hidden_row_wf, auto simp: update_where_def\<close>)
next
  case (HistoryMarkJumped i t)
  show ?thesis
    by (rule retry_kept [where g = "\<lambda>_. Persisted", OF update_rows_good [where Q = "\<lambda>rows. history_answer_ok env server max_entries c Persisted rows"]])
      (use env in \<open>auto simp: HistoryMarkJumped worker_answered_def mark_jumped_def update_rows_def
        intro!: update_where_ok jumped_row_wf, auto simp: update_where_def\<close>)
next
  case (HistoryList q)
  have "\<exists>es. read_entries env (selected_rows server q (ht_rows t)) = Inr es
      \<and> history_answer_ok env server max_entries c (Entries es) (ht_rows t)" if "rows_ok env (ht_rows t)" for t
  proof -
    have "\<forall>r \<in> set (selected_rows server q (ht_rows t)). wf_row env r"
      using that by (auto simp: selected_rows_def rows_ok_def dest: in_set_takeD)
    from read_entries_ok [OF this] show ?thesis by (metis HistoryList history_answer_ok.simps(4))
  qed
  from query_good [OF this] show ?thesis
    by (rule retry_kept [where g = Entries]) (simp_all add: HistoryList list_entries_def query_def)
next
  case (HistoryClear f a)
  have "good_statement env (\<lambda>t. Inr (length (filter (delete_condition env server f a) (ht_rows t)),
            t\<lparr>ht_rows := filter (Not \<circ> delete_condition env server f a) (ht_rows t)\<rparr>))
     (\<lambda>k t. history_answer_ok env server max_entries c (RowCount k) (ht_rows t))"
    by (auto simp: good_statement_def rows_ok_def distinct_map_filter HistoryClear)
  then show ?thesis
    by (rule retry_kept [where g = RowCount]) (simp_all add: HistoryClear clear_entries_def)
next
  case (HistoryCountClear f a)
  have good: "good_statement env (\<lambda>t. bind_sum (Inr (length (filter (count_condition env server f a) (ht_rows t)))) (\<lambda>n. Inr (n, t)))
     (\<lambda>k t. history_answer_ok env server max_entries c (RowCount k) (ht_rows t))"
    by (auto simp: good_statement_def HistoryCountClear)
  show ?thesis unfolding triple_def
  proof (intro allI impI)
    fix db assume "db_ok env faults db"
    from run_good_statement [OF good this]
    show "case worker_command env server max_entries c db of (Inl Panic, x) \<Rightarrow> False
      | (Inl (Fail e), s') \<Rightarrow> db_ok env faults s' \<and> (sqlite_in faults e \<or> e = ServerMismatch \<and>
          (\<exists>n. c = HistoryPersist n \<and> \<not> pred_option (\<lambda>s. src_tmux_server_id s = server) (n_source n)))
      | (Inr a, s') \<Rightarrow> db_ok env faults s' \<and> history_answer_ok env server max_entries c a (ht_rows (db_table s'))"
      by (auto simp: HistoryCountClear count_clear_entries_def query_def bind_op_def op_defs sqlite_in_def
          split: sum.splits prod.splits)
  qed
next
  case HistoryFlush
  then show ?thesis by (simp add: triple_def op_defs)
qed


section \<open>Answers come in the order of submission\<close>

definition answer_of :: "'e history_error fault + 'a \<Rightarrow> 'e history_error + 'a" where
  "answer_of r = (case r of Inl Panic \<Rightarrow> Inl WorkerStopped | Inl (Fail e) \<Rightarrow> Inl e | Inr a \<Rightarrow> Inr a)"

text \<open>The abstract worker: the commands are run one after the other.\<close>

fun run_serial ::
  "'j history_env \<Rightarrow> tmux_server_id \<Rightarrow> nat \<Rightarrow> history_command list \<Rightarrow> 'j database
     \<Rightarrow> ('j history_error + history_answer) list \<times> 'j database" where
  "run_serial env server max_entries [] db = ([], db)"
| "run_serial env server max_entries (c # cs) db =
     (case worker_command env server max_entries c db of
        (r, db1) \<Rightarrow> (case run_serial env server max_entries cs db1 of (rs, db2) \<Rightarrow> (answer_of r # rs, db2)))"

lemma run_serial_snoc:
  "run_serial env server max_entries cs db = (rs, db1) \<Longrightarrow> worker_command env server max_entries c db1 = (r, db2)
     \<Longrightarrow> run_serial env server max_entries (cs @ [c]) db = (rs @ [answer_of r], db2)"
  by (induction cs arbitrary: db rs) (auto split: prod.splits)

lemma busy_attempts_no_panic:
  "tries \<noteq> [] \<Longrightarrow> last tries + 1 = SQLITE_BUSY_MAX_ATTEMPTS \<Longrightarrow> fst (busy_attempts f b d tries s) \<noteq> Inl Panic"
proof (induction tries arbitrary: d s)
  case (Cons k ks)
  then show ?case
    by (cases "f s"; cases "fst (f s)"; cases ks) (auto simp: busy_attempts.simps op_defs)
qed simp

lemma retry_no_panic: "fst (with_sqlite_busy_retry f db) \<noteq> Inl Panic"
  unfolding with_sqlite_busy_retry_def with_sqlite_busy_retry_and_backoff_def
  by (rule busy_attempts_no_panic) (simp_all add: SQLITE_BUSY_MAX_ATTEMPTS_def)

lemma bind_no_panic: "fst (m s) \<noteq> Inl Panic \<Longrightarrow> fst (bind_op m (\<lambda>a. ret (g a)) s) \<noteq> Inl Panic"
  by (auto simp: bind_op_def op_defs split: prod.splits sum.splits)

lemma worker_no_panic: "fst (worker_command env server max_entries c db) \<noteq> Inl Panic"
proof (cases c)
  case (HistoryCountClear f a)
  show ?thesis unfolding HistoryCountClear worker_command.simps
    by (rule bind_no_panic) (auto simp: count_clear_entries_def op_defs split: sum.splits prod.splits)
next
  case (HistoryPersist n)
  show ?thesis unfolding HistoryPersist worker_command.simps worker_answered_def
    by (rule bind_no_panic) (auto simp: persist_def retry_no_panic raise_def)
qed (auto simp: worker_answered_def set_hidden_def mark_jumped_def list_entries_def clear_entries_def retry_no_panic ret_def
    intro!: bind_no_panic)

text \<open>The handle and its worker, with the commands accepted so far beside them.\<close>

fun traced_step ::
  "'j history_env \<Rightarrow> 'j history_state \<times> history_command list \<Rightarrow> history_event \<Rightarrow> 'j history_state \<times> history_command list" where
  "traced_step env (s, cs) (CallHistory c) =
     (history_step env s (CallHistory c), cs @ (case fst (history_call c s) of Inr _ \<Rightarrow> [c] | Inl _ \<Rightarrow> []))"
| "traced_step env (s, cs) WorkHistory = (history_step env s WorkHistory, cs)"

definition serial_inv ::
  "'j history_env \<Rightarrow> tmux_server_id \<Rightarrow> nat \<Rightarrow> nat \<Rightarrow> 'j database \<Rightarrow> 'j history_state \<times> history_command list \<Rightarrow> bool" where
  "serial_inv env server max_entries capacity db = (\<lambda>(s, cs).
     hst_enabled s \<and> hst_alive s \<and> hst_server s = server \<and> hst_max_entries s = max_entries
     \<and> hst_capacity s = max capacity 1 \<and> length (hst_queue s) \<le> max capacity 1
     \<and> hst_next s = length cs \<and> length (hst_replies s) \<le> length cs
     \<and> hst_queue s = zip [length (hst_replies s)..<length cs] (drop (length (hst_replies s)) cs)
     \<and> map fst (hst_replies s) = [0..<length (hst_replies s)]
     \<and> run_serial env server max_entries (take (length (hst_replies s)) cs) db
         = (map snd (hst_replies s), hst_database s))"

lemma serial_call:
  assumes "serial_inv env server max_entries capacity db (s, cs)"
  shows "serial_inv env server max_entries capacity db (traced_step env (s, cs) (CallHistory c))"
proof (cases "hst_capacity s \<le> length (hst_queue s)")
  case True
  then show ?thesis using assms by (auto simp: serial_inv_def history_call_def history_submit_def)
next
  case False
  have "zip [m..<Suc (length cs)] (drop m (cs @ [c])) = zip [m..<length cs] (drop m cs) @ [(length cs, c)]"
    if "m \<le> length cs" for m
    using that by simp
  moreover have "Suc (length (hst_queue s)) \<le> max capacity 1"
    using assms False unfolding serial_inv_def prod.case by (elim conjE) linarith
  ultimately show ?thesis using assms False
    by (simp add: serial_inv_def history_call_def history_submit_def)
qed

lemma serial_work:
  assumes "serial_inv env server max_entries capacity db (s, cs)"
  shows "serial_inv env server max_entries capacity db (traced_step env (s, cs) WorkHistory)"
proof (cases "hst_queue s")
  case Nil
  then show ?thesis using assms by (simp add: worker_step_def)
next
  case (Cons kc queue)
  let ?m = "length (hst_replies s)"
  have inv: "?m \<le> length cs" "hst_queue s = zip [?m..<length cs] (drop ?m cs)"
    and env: "hst_alive s" "hst_server s = server" "hst_max_entries s = max_entries"
    and ran: "run_serial env server max_entries (take ?m cs) db = (map snd (hst_replies s), hst_database s)"
    using assms by (simp_all add: serial_inv_def)
  have m: "?m < length cs" using inv Cons by (cases "?m = length cs") auto
  have upt: "[?m..<length cs] = ?m # [Suc ?m..<length cs]" using m by (simp add: upt_rec)
  have drop: "drop ?m cs = cs ! ?m # drop (Suc ?m) cs" using m by (simp add: Cons_nth_drop_Suc)
  have head: "kc = (?m, cs ! ?m)" and queue: "queue = zip [Suc ?m..<length cs] (drop (Suc ?m) cs)"
    using inv(2) Cons by (simp_all add: upt drop)
  obtain r db' where r: "worker_command env server max_entries (cs ! ?m) (hst_database s) = (r, db')" by fastforce
  have ran': "run_serial env server max_entries (take (Suc ?m) cs) db = (map snd (hst_replies s) @ [answer_of r], db')"
    using run_serial_snoc [OF ran r] m by (simp add: take_Suc_conv_app_nth)
  have "r \<noteq> Inl Panic" using worker_no_panic [of env server max_entries "cs ! ?m" "hst_database s"] r by simp
  then have "worker_step env s = s\<lparr>hst_queue := queue, hst_database := db',
      hst_replies := hst_replies s @ [(?m, answer_of r)]\<rparr>"
    using Cons head r env by (auto simp: worker_step_def answer_of_def split: sum.splits fault.splits)
  then show ?thesis using assms m Cons ran' queue by (simp add: serial_inv_def)
qed

interpretation history_machine: invariant_machine "traced_step env" "\<lambda>_ _. True"
  "serial_inv env server max_entries capacity db"
proof
  fix x i assume "serial_inv env server max_entries capacity db x"
  then show "serial_inv env server max_entries capacity db (traced_step env x i)"
    by (cases x; cases i) (auto simp only: serial_call serial_work)
qed

lemma worker_pops:
  assumes "hst_alive s" "hst_queue s = kc # queue"
  shows "hst_queue (worker_step env s) = queue" "hst_alive (worker_step env s)"
proof -
  obtain r db' where r: "worker_command env (hst_server s) (hst_max_entries s) (snd kc) (hst_database s) = (r, db')" by fastforce
  have "r \<noteq> Inl Panic" using worker_no_panic [of env "hst_server s" "hst_max_entries s" "snd kc" "hst_database s"] r by simp
  then show "hst_queue (worker_step env s) = queue" "hst_alive (worker_step env s)"
    using r assms by (auto simp: worker_step_def split: prod.splits sum.splits fault.splits)
qed

lemma worker_drains:
  "hst_alive s \<Longrightarrow> length (hst_queue s) = k \<Longrightarrow>
     \<exists>s'. run_machine (traced_step env) (s, cs) (replicate k WorkHistory) = (s', cs) \<and> hst_queue s' = []"
proof (induction k arbitrary: s)
  case (Suc k)
  then obtain kc queue where "hst_queue s = kc # queue" by (cases "hst_queue s") auto
  with worker_pops [OF Suc.prems(1) this, of env] Suc.prems(2)
  show ?case using Suc.IH [of "worker_step env s"] by simp
qed simp

text \<open>
  Claim C29. The answers sent are those of running the accepted commands one after the other in the
  order of their submission, each task getting its own; the waiting commands are the others, and
  never more than the queue holds. So when a flush is answered every earlier write is in the
  database; and once the worker has run as often as commands wait, all have been answered.
\<close>

theorem worker_serial:
  "let start = (history_opened True server max_entries capacity db, []);
       (s, cs) = run_machine (traced_step env) start events;
       served = length (hst_replies s);
       (s', cs') = run_machine (traced_step env) start (events @ replicate (length (hst_queue s)) WorkHistory)
   in hst_alive s \<and> length (hst_queue s) \<le> max capacity 1
      \<and> served \<le> length cs
      \<and> hst_queue s = zip [served..<length cs] (drop served cs)
      \<and> map fst (hst_replies s) = [0..<served]
      \<and> run_serial env server max_entries (take served cs) db = (map snd (hst_replies s), hst_database s)
      \<and> cs' = cs \<and> hst_queue s' = []
      \<and> run_serial env server max_entries cs db = (map snd (hst_replies s'), hst_database s')"
proof -
  let ?start = "(history_opened True server max_entries capacity db, [])"
  have start: "serial_inv env server max_entries capacity db ?start"
    by (simp add: serial_inv_def history_opened_def)
  note inv = history_machine.run_inv [OF start enabled_always]
  obtain s cs where run: "run_machine (traced_step env) ?start events = (s, cs)" by fastforce
  have now: "serial_inv env server max_entries capacity db (s, cs)" using inv [of events] run by simp
  then obtain s' where s': "run_machine (traced_step env) (s, cs) (replicate (length (hst_queue s)) WorkHistory) = (s', cs)"
    "hst_queue s' = []" using worker_drains unfolding serial_inv_def by blast
  have run': "run_machine (traced_step env) ?start (events @ replicate (length (hst_queue s)) WorkHistory) = (s', cs)"
    using run s' by (simp add: run_machine_append)
  have later: "serial_inv env server max_entries capacity db (s', cs)"
    using inv [of "events @ replicate (length (hst_queue s)) WorkHistory"] run' by simp
  moreover have "length (hst_queue s') = length cs - length (hst_replies s')"
    using later by (simp add: serial_inv_def)
  ultimately have "length (hst_replies s') = length cs"
    using s'(2) by (simp add: serial_inv_def)
  moreover have "length (hst_queue s) = length cs - length (hst_replies s)" "length (hst_queue s) \<le> max capacity 1"
    using now unfolding serial_inv_def prod.case by (elim conjE, simp)+
  ultimately show ?thesis using now later s' run run'
    by (simp add: serial_inv_def Let_def)
qed

section \<open>A quiet database\<close>

text \<open>Without other processes and failures a statement is just its effect.\<close>

definition quiet :: "'j database \<Rightarrow> bool" where
  "quiet db \<longleftrightarrow> db_script db = []"

lemma run_quiet:
  "quiet db \<Longrightarrow> f (db_table db) = Inr (a, t) \<Longrightarrow> run_statement f db = (Inr a, db\<lparr>db_table := t\<rparr>)"
  by (cases db) (simp add: quiet_def run_statement_def)

lemma retry_quiet:
  assumes "quiet db" "f (db_table db) = Inr (a, t)"
  shows "with_sqlite_busy_retry (run_statement f) db = (Inr a, db\<lparr>db_table := t\<rparr>)"
proof -
  have "[0..<SQLITE_BUSY_MAX_ATTEMPTS] = 0 # [1..<SQLITE_BUSY_MAX_ATTEMPTS]"
    by (simp add: SQLITE_BUSY_MAX_ATTEMPTS_def upt_rec)
  then show ?thesis
    by (simp add: with_sqlite_busy_retry_def with_sqlite_busy_retry_and_backoff_def busy_attempts.simps
        run_quiet [where f = f, OF assms] op_defs)
qed

lemma quiet_table [simp]: "quiet (db\<lparr>db_table := t\<rparr>) = quiet db"
  by (simp add: quiet_def)

lemma conditions_agree: "delete_condition env server f a r \<longleftrightarrow> count_condition env server f a r"
  by (cases f; cases a) simp_all

text \<open>
  On a quiet database a Clear deletes as many rows as counting said, exactly the rows that
  were counted, and keeps every other row as it was; a Clear of one server never touches another's.
\<close>

theorem clear_deletes_counted:
  assumes "quiet db"
  shows "\<exists>k kept. count_clear_entries env server f all_servers db = (Inr k, db)
    \<and> clear_entries env server f all_servers db = (Inr k, db\<lparr>db_table := (db_table db)\<lparr>ht_rows := kept\<rparr>\<rparr>)
    \<and> length (ht_rows (db_table db)) = k + length kept
    \<and> set kept = {r \<in> set (ht_rows (db_table db)). \<not> count_condition env server f all_servers r}
    \<and> (\<not> all_servers \<longrightarrow> (\<forall>r \<in> set (ht_rows (db_table db)). hr_server r \<noteq> server_id_str server \<longrightarrow> r \<in> set kept))"
proof -
  let ?rows = "ht_rows (db_table db)" and ?P = "count_condition env server f all_servers"
  have P: "delete_condition env server f all_servers = ?P" by (rule ext) (rule conditions_agree)
  have count: "count_clear_entries env server f all_servers db = (Inr (length (filter ?P ?rows)), db)"
    using assms by (simp add: count_clear_entries_def query_def run_quiet op_defs)
  have clear: "clear_entries env server f all_servers db
      = (Inr (length (filter ?P ?rows)), db\<lparr>db_table := (db_table db)\<lparr>ht_rows := filter (Not \<circ> ?P) ?rows\<rparr>\<rparr>)"
    unfolding clear_entries_def P by (rule retry_quiet [OF assms]) simp
  have sum: "length ?rows = length (filter ?P ?rows) + length (filter (Not \<circ> ?P) ?rows)"
    using sum_length_filter_compl [of ?P ?rows] by (simp add: comp_def)
  have other: "\<not> ?P r" if "\<not> all_servers" "hr_server r \<noteq> server_id_str server" for r
    using that by (cases f) simp_all
  show ?thesis
    by (rule exI [of _ "length (filter ?P ?rows)"], rule exI [of _ "filter (Not \<circ> ?P) ?rows"])
      (use count clear sum other in auto)
qed

definition demo_row :: history_row where
  "demo_row = \<lparr>hr_id = ustr ''a'', hr_key = None, hr_server = ustr ''s'', hr_created_at = 1, hr_updated_at = 2,
     hr_level = ustr ''info'', hr_priority = ustr ''low'', hr_presentation = ustr ''toast'',
     hr_delivery = ustr ''visible'', hr_close_reason = None, hr_timeout_ms = None, hr_title = ustr ''t'',
     hr_body = [], hr_provider = None, hr_provider_session = None, hr_session = None, hr_window = None,
     hr_pane = None, hr_cwd = None, hr_command = None, hr_pane_title = None, hr_hidden_at = Some 3,
     hr_jumped_at = None, hr_metadata = []\<rparr>"

definition demo_database :: "'j database" where
  "demo_database = \<lparr>db_table = \<lparr>ht_version = 1, ht_rows = [demo_row]\<rparr>, db_script = []\<rparr>"

text \<open>An environment with a toy encoding, which meets what the code relies on.\<close>

definition kind_code :: "agent_event_kind option names" where
  "kind_code = [(None, [0]), (Some agent_event_kind.NeedsAttention, [1]), (Some agent_event_kind.Completed, [2]), (Some agent_event_kind.Failed, [3]), (Some agent_event_kind.Started, [4]),
     (Some agent_event_kind.Interrupted, [5]), (Some agent_event_kind.SubagentCompleted, [6]), (Some agent_event_kind.ToolStarted, [7]), (Some agent_event_kind.ToolCompleted, [8])]"

definition text_code :: "ustring option \<Rightarrow> ustring" where
  "text_code x = (case x of None \<Rightarrow> [0] | Some s \<Rightarrow> Suc (length s) # s)"

definition text_decode :: "ustring \<Rightarrow> ustring option \<times> ustring" where
  "text_decode s = (case s of [] \<Rightarrow> (None, []) | c # cs \<Rightarrow>
     if c = 0 then (None, cs) else (Some (take (c - 1) cs), drop (c - 1) cs))"

lemma text_decode_code: "text_decode (text_code x @ rest) = (x, rest)"
  by (cases x) (simp_all add: text_code_def text_decode_def)

definition demo_history_env :: "unit history_env" where
  "demo_history_env =
     \<lparr>he_uuid = \<lparr>uuid_parse = (\<lambda>s. Some (of_nat (hd s))), uuid_version = (\<lambda>_. 7)\<rparr>, he_id_text = (\<lambda>i. [unat i]),
      he_millis = (\<lambda>t. t), he_time = Some,
      he_metadata_write = (\<lambda>m. Inr (history_name kind_code (md_agent_event_kind m)
         @ text_code (md_agent_name m) @ text_code (md_tool_name m))),
      he_metadata_read = (\<lambda>s. let (a, rest) = text_decode (tl s) in
         Inr \<lparr>mr_agent_event_kind = the (from_history_name kind_code [hd s]), mr_agent_name = a,
              mr_tool_name = fst (text_decode rest)\<rparr>)\<rparr>"

lemma kind_code_read:
  "\<exists>c. history_name kind_code k = [c] \<and> from_history_name kind_code [c] = Some k"
proof (cases k)
  case (Some a)
  then show ?thesis by (cases a) (simp_all add: history_name_def kind_code_def)
qed (simp add: history_name_def kind_code_def)

lemma demo_history_env_ok: "history_env_ok demo_history_env"
proof -
  have "\<exists>s. he_metadata_write demo_history_env m = Inr s \<and> he_metadata_read demo_history_env s = Inr (metadata_row_of m)" for m
  proof -
    obtain c where "history_name kind_code (md_agent_event_kind m) = [c]"
      "from_history_name kind_code [c] = Some (md_agent_event_kind m)" using kind_code_read by blast
    then show ?thesis
      using text_decode_code [of "md_tool_name m" "[]"]
      by (simp add: demo_history_env_def metadata_row_of_def text_decode_code)
  qed
  then show ?thesis by (simp add: history_env_ok_def) (simp add: demo_history_env_def)
qed

lemma clear_deletes_counted_witness:
  "\<exists>k kept. count_clear_entries demo_history_env (TmuxServerId (ustr ''s'')) ClearHiddenRows False demo_database
       = (Inr k, demo_database)
     \<and> length [demo_row] = k + length (kept :: history_row list)"
  using clear_deletes_counted [of demo_database demo_history_env "TmuxServerId (ustr ''s'')" ClearHiddenRows False]
  by (auto simp: quiet_def demo_database_def)

section \<open>A persisted Notification is read back\<close>

text \<open>The entry after a Persist: new, or merged into the one that had the identifier.\<close>

definition entry_after :: "'j history_env \<Rightarrow> history_row list \<Rightarrow> ustring \<Rightarrow> history_entry \<Rightarrow> history_entry \<Rightarrow> bool" where
  "entry_after env rows i new e \<longleftrightarrow>
     (case find (\<lambda>r. hr_id r = i) rows of
        None \<Rightarrow> e = new
      | Some old \<Rightarrow> \<exists>d. read_entry env old = Inr d \<and> e = merge_entry new d)"

lemma upsert_entry:
  assumes "rows_ok env rows" "read_entry env new = Inr e"
  shows "\<exists>r \<in> set (upsert new rows). hr_id r = hr_id new \<and> (\<exists>x. read_entry env r = Inr x \<and> entry_after env rows (hr_id new) e x)"
proof (cases "find (\<lambda>r. hr_id r = hr_id new) rows")
  case None
  then have "hr_id new \<notin> hr_id ` set rows" by (auto simp: find_None_iff)
  then show ?thesis using assms(2) None by (auto simp: upsert_def entry_after_def)
next
  case (Some old)
  then have old: "old \<in> set rows" "hr_id old = hr_id new"
    by (auto simp: find_Some_iff)
  then obtain d where d: "read_entry env old = Inr d" using assms(1) by (auto simp: rows_ok_def wf_row_def)
  have "hr_id new \<in> hr_id ` set rows" using old by (metis image_eqI)
  moreover have "merge_row new old \<in> (\<lambda>r. if hr_id r = hr_id new then merge_row new r else r) ` set rows"
    using old by (intro image_eqI [of _ _ old]) simp_all
  ultimately have "merge_row new old \<in> set (upsert new rows)" by (simp add: upsert_def)
  then show ?thesis using read_merged [OF assms(2) d] Some d
    by (intro bexI [of _ "merge_row new old"] conjI exI [of _ "merge_entry e d"]) (simp_all add: entry_after_def)
qed

lemma upsert_others:
  "hr_id r \<noteq> hr_id new \<Longrightarrow> r \<in> set (upsert new rows) \<longleftrightarrow> r \<in> set rows"
  by (auto simp: upsert_def image_iff)

text \<open>
  Claim C28. On a quiet table of well-formed rows a Persist of a well-formed Notification of the
  worker's server succeeds. Before retention the table has one row with its identifier, read back as
  the Notification was (timestamps and timeout cut to milliseconds); when there was such a row it
  keeps its server and creation time, and a time of hiding or jumping that the snapshot lacks; all
  other rows are as they were. Retention keeps as many of them as are allowed, and what it deletes
  comes before all it keeps: hidden rows first, then the oldest.
\<close>

theorem persist_correct:
  assumes "history_env_ok env" "wf_server server" "wf_notification n" "uuid_version (he_uuid env) (n_id n) = 7"
    and "pred_option (\<lambda>c. src_tmux_server_id c = server) (n_source n)"
    and "quiet db" "rows_ok env (ht_rows (db_table db))"
  shows "\<exists>stored rows. persist env server max_entries n db = (Inr (), db\<lparr>db_table := (db_table db)\<lparr>ht_rows := rows\<rparr>\<rparr>)
    \<and> distinct (map hr_id stored)
    \<and> (\<exists>r \<in> set stored. hr_id r = he_id_text env (n_id n) \<and> (\<exists>e. read_entry env r = Inr e
        \<and> entry_after env (ht_rows (db_table db)) (he_id_text env (n_id n)) (history_entry_of env server n) e))
    \<and> (\<forall>r. hr_id r \<noteq> he_id_text env (n_id n) \<longrightarrow> (r \<in> set stored \<longleftrightarrow> r \<in> set (ht_rows (db_table db))))
    \<and> set rows \<subseteq> set stored \<and> length rows = min (length stored) max_entries
    \<and> (\<forall>d \<in> set stored - set rows. \<forall>r \<in> set rows. retention_key d \<le> retention_key r)"
proof -
  let ?rows = "ht_rows (db_table db)"
  obtain r where r: "row_of env server n = Inr r" "read_entry env r = Inr (history_entry_of env server n)"
    "hr_id r = he_id_text env (n_id n)"
    using row_read [OF assms(1,3,2,4,5)] by blast
  let ?stored = "upsert r ?rows" and ?kept = "enforce_retention_in max_entries (upsert r ?rows)"
  have dist: "distinct (map hr_id ?stored)" using assms(7) upsert_ids(1) by (simp add: rows_ok_def)
  have run: "persist env server max_entries n db = (Inr (), db\<lparr>db_table := (db_table db)\<lparr>ht_rows := ?kept\<rparr>\<rparr>)"
    using assms(5) by (simp add: persist_def persist_in_def r(1) retry_quiet [OF assms(6)])
  note kept = retention_rows [OF dist, of max_entries]
  have sub: "set ?kept \<subseteq> set ?stored" by (auto simp: enforce_retention_in_def)
  have order: "\<forall>d \<in> set ?stored - set ?kept. \<forall>k \<in> set ?kept. retention_key d \<le> retention_key k"
    using retention_order [OF dist] by (auto simp: kept(1))
  show ?thesis
    by (intro exI [of _ ?stored] exI [of _ ?kept] conjI)
      (use run dist upsert_entry [OF assms(7) r(2)] upsert_others sub kept(3) order r(3) in auto)
qed

definition demo_notification :: notification where
  "demo_notification =
     \<lparr>n_id = 5, n_key = Some (NotificationKey (ustr ''k'')), n_created_at = 1, n_updated_at = 4, n_level = Warning,
      n_priority = High, n_presentation = Toast, n_title = ustr ''t'', n_body = [], n_timeout = After (from_millis 7),
      n_source = None, n_overrides = overrides_default, n_delivery = Visible, n_close_reason = None,
      n_hidden_at = None, n_last_jumped_at = None, n_metadata = metadata_new None\<rparr>"

lemma demo_notification_wf: "wf_notification demo_notification"
  by (simp add: demo_notification_def wf_notification_def gate_ok_def wf_key_def bounded_text_def limit_defs
      is_display_control_def is_control_def plain_text_def terminal_safe_def char_len_def)

definition empty_database :: "((history_table \<Rightarrow> history_table) \<times> 'j sql_error option) list \<Rightarrow> 'j database" where
  "empty_database script = \<lparr>db_table = \<lparr>ht_version = 1, ht_rows = []\<rparr>, db_script = script\<rparr>"

abbreviation demo_server :: tmux_server_id where "demo_server \<equiv> TmuxServerId (ustr ''s'')"

lemma demo_server_wf: "wf_server demo_server"
  by (simp add: wf_server_def bounded_text_def limit_defs plain_text_def terminal_safe_def char_len_def
      is_display_control_def is_control_def)

lemma demo_version: "uuid_version (he_uuid demo_history_env) i = 7"
  by (simp add: demo_history_env_def)

lemma persist_correct_witness:
  "\<exists>rows. persist demo_history_env demo_server 3 demo_notification (empty_database [])
      = (Inr (), (empty_database [])\<lparr>db_table := \<lparr>ht_version = 1, ht_rows = rows\<rparr>\<rparr>) \<and> length rows \<le> 3"
proof -
  have "pred_option (\<lambda>c. src_tmux_server_id c = demo_server) (n_source demo_notification)"
    by (simp add: demo_notification_def)
  moreover have "quiet (empty_database [] :: unit database)" "rows_ok demo_history_env (ht_rows (db_table (empty_database [])))"
    by (simp_all add: quiet_def empty_database_def rows_ok_def)
  ultimately show ?thesis
    using persist_correct [OF demo_history_env_ok demo_server_wf demo_notification_wf demo_version, of "empty_database []" 3]
    by (auto simp: empty_database_def)
qed


section \<open>Opening the database\<close>

definition opens :: "open_world \<Rightarrow> bool" where
  "opens w \<longleftrightarrow> ow_has_parent w \<and> ow_prepared w = Inr () \<and> ow_permissions_ok w
     \<and> map ascii_lower (ow_journal_mode w) = ustr ''wal'' \<and> ow_spawn_ok w"

definition live_row :: "tmux_server_id \<Rightarrow> history_row \<Rightarrow> bool" where
  "live_row server r \<longleftrightarrow> hr_server r = server_id_str server \<and> hr_delivery r \<in> {ustr ''pending'', ustr ''visible''}"

definition interrupted :: "'j history_env \<Rightarrow> wall_time \<Rightarrow> history_row \<Rightarrow> history_row" where
  "interrupted env now r = r\<lparr>hr_delivery := ustr ''closed'', hr_close_reason := Some (ustr ''daemon_interrupted''),
     hr_updated_at := he_millis env now\<rparr>"

lemma query_quiet: "quiet db \<Longrightarrow> f (db_table db) = Inr a \<Longrightarrow> with_sqlite_busy_retry (query f) db = (Inr a, db)"
  unfolding query_def by (subst retry_quiet) auto

lemma connection_quiet: "quiet db \<Longrightarrow> opens w \<Longrightarrow> open_connection w db = (Inr (), db)"
  by (simp add: open_connection_def opens_def then_op_def bind_op_def query_quiet op_defs)

lemma migrate_quiet:
  assumes "quiet db"
  shows "ht_version (db_table db) = 1 \<Longrightarrow> migrate db = (Inr (), db)"
    and "ht_version (db_table db) = 0 \<Longrightarrow> migrate db = (Inr (), db\<lparr>db_table := \<lparr>ht_version = 1, ht_rows = []\<rparr>\<rparr>)"
    and "ht_version (db_table db) > 1 \<Longrightarrow> migrate db = (Inl (Fail (NewerSchema (ht_version (db_table db)) 1)), db)"
  using assms
  by (simp_all add: migrate_def bind_op_def query_quiet SCHEMA_VERSION_def op_defs migrate_locked_def
      retry_quiet [where f = migrate_locked])

lemma update_quiet:
  "quiet db \<Longrightarrow> with_sqlite_busy_retry (update_rows f) db
     = (Inr (), db\<lparr>db_table := (db_table db)\<lparr>ht_rows := f (ht_rows (db_table db))\<rparr>\<rparr>)"
  unfolding update_rows_def by (subst retry_quiet) auto

text \<open>
  Claim C30. Opening a quiet database: a newer schema is refused and nothing is changed; an empty file
  is migrated; otherwise a reader only enforces retention, while a daemon first closes, as
  interrupted by the daemon's end, exactly the live rows of its own server, so that none of them is
  left live and every other row that retention keeps is as it was.
\<close>

theorem open_recovers:
  fixes db :: "'j database"
  assumes "quiet db" "opens w" "rows_ok env (ht_rows (db_table db))"
  shows "(ht_version (db_table db) > 1 \<longrightarrow> (\<forall>recovery. open_database env w server max_entries recovery db
        = (Inl (Fail (NewerSchema (ht_version (db_table db)) 1)), db)))
    \<and> (ht_version (db_table db) = 0 \<longrightarrow> (\<forall>recovery. open_database env w server max_entries recovery db
        = (Inr (), db\<lparr>db_table := \<lparr>ht_version = 1, ht_rows = []\<rparr>\<rparr>)))
    \<and> (ht_version (db_table db) = 1 \<longrightarrow> (\<exists>recovered kept.
        open_database env w server max_entries None db
          = (Inr (), db\<lparr>db_table := (db_table db)\<lparr>ht_rows := enforce_retention_in max_entries (ht_rows (db_table db))\<rparr>\<rparr>)
        \<and> open_database env w server max_entries (Some now) db
          = (Inr (), db\<lparr>db_table := (db_table db)\<lparr>ht_rows := kept\<rparr>\<rparr>)
        \<and> recovered = map (\<lambda>r. if live_row server r then interrupted env now r else r) (ht_rows (db_table db))
        \<and> set kept = retained max_entries recovered \<and> length kept \<le> max_entries
        \<and> (\<forall>r \<in> set kept. \<not> live_row server r)))"
proof -
  note quiet_simps = then_op_def bind_op_def op_defs connection_quiet [OF _ assms(2)] update_quiet
    enforce_retention_def recover_stale_def
  have w: "ow_has_parent w" "ow_prepared w = Inr ()" "ow_spawn_ok w" using assms(2) by (simp_all add: opens_def)
  have newer: "ht_version (db_table db) > 1 \<longrightarrow> (\<forall>recovery. open_database env w server max_entries recovery db
        = (Inl (Fail (NewerSchema (ht_version (db_table db)) 1)), db))"
    using assms(1) by (simp add: open_database_def w quiet_simps migrate_quiet(3))
  have empty: "ht_version (db_table db) = 0 \<longrightarrow> (\<forall>recovery. open_database env w server max_entries recovery db
        = (Inr (), db\<lparr>db_table := \<lparr>ht_version = 1, ht_rows = []\<rparr>\<rparr>))"
    using assms(1)
    by (auto simp: open_database_def w quiet_simps migrate_quiet(2) update_where_def enforce_retention_in_def
        split: option.splits)
  let ?recovered = "map (\<lambda>r. if live_row server r then interrupted env now r else r) (ht_rows (db_table db))"
  have recovered: "update_where (live_row server) (interrupted env now) (ht_rows (db_table db)) = ?recovered"
    by (simp add: update_where_def)
  have dist: "distinct (map hr_id ?recovered)"
  proof -
    have "map hr_id (update_where (live_row server) (interrupted env now) (ht_rows (db_table db))) = map hr_id (ht_rows (db_table db))"
      by (rule update_where_ids) (simp add: interrupted_def)
    then show ?thesis using assms(3) unfolding recovered by (simp only: rows_ok_def)
  qed
  note kept = retention_rows [OF dist, of max_entries]
  have dead: "\<forall>r \<in> set (enforce_retention_in max_entries ?recovered). \<not> live_row server r"
    by (auto simp: enforce_retention_in_def live_row_def interrupted_def)
  have run: "open_database env w server max_entries (Some now) db
      = (Inr (), db\<lparr>db_table := (db_table db)\<lparr>ht_rows := enforce_retention_in max_entries ?recovered\<rparr>\<rparr>)"
    if "ht_version (db_table db) = 1"
    using assms(1) that recovered unfolding live_row_def [abs_def] interrupted_def [abs_def]
    by (simp add: open_database_def w quiet_simps migrate_quiet(1))
  have run_reader: "open_database env w server max_entries None db
      = (Inr (), db\<lparr>db_table := (db_table db)\<lparr>ht_rows := enforce_retention_in max_entries (ht_rows (db_table db))\<rparr>\<rparr>)"
    if "ht_version (db_table db) = 1"
    using assms(1) that by (simp add: open_database_def w quiet_simps migrate_quiet(1))
  have current: "ht_version (db_table db) = 1 \<longrightarrow> (\<exists>recovered kept.
        open_database env w server max_entries None db
          = (Inr (), db\<lparr>db_table := (db_table db)\<lparr>ht_rows := enforce_retention_in max_entries (ht_rows (db_table db))\<rparr>\<rparr>)
        \<and> open_database env w server max_entries (Some now) db
          = (Inr (), db\<lparr>db_table := (db_table db)\<lparr>ht_rows := kept\<rparr>\<rparr>)
        \<and> recovered = ?recovered
        \<and> set kept = retained max_entries recovered \<and> length kept \<le> max_entries
        \<and> (\<forall>r \<in> set kept. \<not> live_row server r))"
  proof
    assume version: "ht_version (db_table db) = 1"
    have "length (enforce_retention_in max_entries ?recovered) \<le> max_entries" using kept(3) by simp
    then show "\<exists>recovered kept.
        open_database env w server max_entries None db
          = (Inr (), db\<lparr>db_table := (db_table db)\<lparr>ht_rows := enforce_retention_in max_entries (ht_rows (db_table db))\<rparr>\<rparr>)
        \<and> open_database env w server max_entries (Some now) db
          = (Inr (), db\<lparr>db_table := (db_table db)\<lparr>ht_rows := kept\<rparr>\<rparr>)
        \<and> recovered = ?recovered
        \<and> set kept = retained max_entries recovered \<and> length kept \<le> max_entries
        \<and> (\<forall>r \<in> set kept. \<not> live_row server r)"
      by (intro exI [of _ ?recovered] exI [of _ "enforce_retention_in max_entries ?recovered"] conjI
          run [OF version] run_reader [OF version] kept(1) dead refl)
  qed
  show ?thesis by (intro conjI newer empty current)
qed

definition demo_world :: open_world where
  "demo_world = \<lparr>ow_has_parent = True, ow_prepared = Inr (), ow_permissions_ok = True,
     ow_journal_mode = ustr ''WAL'', ow_spawn_ok = True\<rparr>"

lemma open_recovers_witness:
  "open_database demo_history_env demo_world demo_server 3 (Some 4)
      \<lparr>db_table = \<lparr>ht_version = 2, ht_rows = []\<rparr>, db_script = []\<rparr>
    = (Inl (Fail (NewerSchema 2 1)), \<lparr>db_table = \<lparr>ht_version = 2, ht_rows = []\<rparr>, db_script = []\<rparr>)"
  using open_recovers [of "\<lparr>db_table = \<lparr>ht_version = 2, ht_rows = []\<rparr>, db_script = []\<rparr>" demo_world demo_history_env]
  by (simp add: quiet_def opens_def demo_world_def rows_ok_def ascii_lower_def)

section \<open>Plain output\<close>

text \<open>A row that is cut fits: its characters and the mark take at most the width.\<close>

definition chars_width :: "(nat \<Rightarrow> nat option) \<Rightarrow> ustring \<Rightarrow> nat" where
  "chars_width cw s = sum_list (map (\<lambda>c. case cw c of Some w \<Rightarrow> w | None \<Rightarrow> 0) s)"

lemma take_chars_width: "used \<le> limit \<Longrightarrow> used + chars_width cw (take_chars cw limit used s) \<le> limit"
proof (induction s arbitrary: used)
  case (Cons c s)
  define w where "w = (case cw c of Some w \<Rightarrow> w | None \<Rightarrow> 0)"
  show ?case using Cons.IH [of "used + w"] Cons.prems
    by (cases "used + w > limit") (simp_all add: Let_def chars_width_def flip: w_def)
qed (simp add: chars_width_def)

lemma truncated_row_fits:
  assumes "\<not> om_width om s \<le> width" "0 < width" "om_char_width om truncation_mark = Some 1"
  shows "chars_width (om_char_width om) (truncate_cells om s width) \<le> width"
  using take_chars_width [of 0 "width - 1" "om_char_width om" s] assms
  by (simp add: truncate_cells_def chars_width_def)

text \<open>
  A title may have several lines (the ingress filter keeps line breaks), and the plain output, one
  row per Notification by its description, then shows more than one line for it.
\<close>

lemma plain_title_breaks_row:
  assumes "0x0a \<in> set (en_title e)" "om_width om (plain_row om e) \<le> width"
  shows "length (filter (\<lambda>c. c = 0x0a) (write_plain om [e] width)) \<ge> 2"
proof -
  have "filter (\<lambda>c. c = 0x0a) (en_title e) \<noteq> []" using assms(1) by (simp add: filter_empty_conv) 
  then have "1 \<le> length (filter (\<lambda>c. c = 0x0a) (en_title e))" by (cases "filter (\<lambda>c. c = 0x0a) (en_title e)") simp_all
  then show ?thesis using assms(2)
    by (simp add: write_plain_def truncate_cells_def) (simp add: plain_row_def Let_def)
qed

end
