(* ===== verification/Daemon_Application.thy ===== *)
theory Daemon_Application
  imports Config Daemon_Runtime Daemon_Service Reconciler Tmux_Backend History_Store
begin

text \<open>
  The application of one daemon, \<open>src/daemon/application.rs\<close>: the settings it derives from the
  configuration, their live reload, the display loop with its hand-over of closed Notifications to
  History, the clean-up at shutdown, the signals that begin one, the jump executor, and the client
  that the interactive History uses. What the tasks run on (tokio) shows as the order of their steps.
\<close>

section \<open>Settings\<close>

definition CONFIG_RELOAD_INTERVAL :: duration where "CONFIG_RELOAD_INTERVAL = from_secs 1"
definition MAX_IDLE_TICK :: duration where "MAX_IDLE_TICK = from_millis 50"

record daemon_settings =
  ds_scheduler_limits :: scheduler_limits
  ds_display_policy :: window_display_policy

text \<open>\<open>u16::try_from(v).unwrap_or(u16::MAX)\<close>.\<close>

definition u16_or_max :: "nat \<Rightarrow> nat" where
  "u16_or_max n = (if n \<le> u16_max then n else u16_max)"

definition settings_from_config :: "config \<Rightarrow> environment \<Rightarrow> scheduler_error + daemon_settings" where
  "settings_from_config c env =
     (let dumb = (env (ustr ''TERM'') = Some (ustr ''dumb''));
          unicode = (dsc_unicode (cfg_display c) \<noteq> FeatureNever \<and> \<not> dumb);
          color = (dsc_color (cfg_display c) \<noteq> FeatureNever \<and> \<not> dumb \<and> env (ustr ''NO_COLOR'') = None);
          toast = cfg_toast c; animation = tc_animation toast in
      bind_sum (scheduler_limits_new (qc_max_pending (cfg_queue c)) (tc_max_visible toast)) (\<lambda>limits.
        Inr \<lparr>ds_scheduler_limits = limits,
             ds_display_policy =
               \<lparr>wp_placement = tc_position toast, wp_toast_width = u16_or_max (tc_width toast),
                wp_toast_height = u16_or_max (tc_height toast), wp_toast_gap = u16_or_max (tc_gap toast),
                wp_max_visible_toasts = tc_max_visible toast, wp_stack_order = tc_stack_order toast,
                wp_body = tc_body toast, wp_unicode = unicode, wp_color = color,
                wp_animation = \<lparr>ap_enabled = (anc_enabled animation \<and> \<not> dumb), ap_fps = anc_fps animation,
                  ap_enter_duration = anc_enter_duration animation, ap_exit_duration = anc_exit_duration animation,
                  ap_enter_easing = anc_enter_easing animation, ap_exit_easing = anc_exit_easing animation\<rparr>\<rparr>\<rparr>))"

section \<open>Live reload\<close>

datatype 't live_reload_error =
    LiveConfig "'t config_error" | LiveRejected | LiveScheduler scheduler_error

text \<open>
  The manager behind its mutex, the watch channel of the settings (its value, and whether the loop
  has yet to see it), and the warnings logged.
\<close>

record live_config =
  lc_manager :: config_manager
  lc_settings :: daemon_settings
  lc_changed :: bool
  lc_warnings :: nat

text \<open>The part of \<open>perform\<close> under the lock: the outcome, and the settings to publish after it.\<close>

definition perform_locked ::
  "(ustring \<Rightarrow> 't + config) \<Rightarrow> environment \<Rightarrow> bool \<Rightarrow> probe \<Rightarrow> config_file \<Rightarrow> config_manager
     \<Rightarrow> ('t live_reload_error + reload_outcome \<times> daemon_settings option) \<times> config_manager" where
  "perform_locked toml env force p file m =
     (case (if force then reload_now toml p file m else reload_if_changed toml p file m) of
        (Inl e, m') \<Rightarrow> (Inl (LiveConfig e), m')
      | (Inr (Reloaded changes), m') \<Rightarrow>
          if cc_display_reconciliation changes \<or> cc_daemon_or_queue changes
          then (case settings_from_config (cm_active m') env of
                  Inl e \<Rightarrow> (Inl (LiveScheduler e), m')
                | Inr settings \<Rightarrow> (Inr (Reloaded changes, Some settings), m'))
          else (Inr (Reloaded changes, None), m')
      | (Inr ReloadRejected, m') \<Rightarrow> (Inl LiveRejected, m')
      | (Inr ReloadUnchanged, m') \<Rightarrow> (Inr (ReloadUnchanged, None), m'))"

text \<open>\<open>send_replace\<close>, after the lock is released.\<close>

definition publish :: "daemon_settings option \<Rightarrow> live_config \<Rightarrow> live_config" where
  "publish published l =
     (case published of Some settings \<Rightarrow> l\<lparr>lc_settings := settings, lc_changed := True\<rparr> | None \<Rightarrow> l)"

definition live_perform ::
  "(ustring \<Rightarrow> 't + config) \<Rightarrow> environment \<Rightarrow> bool \<Rightarrow> probe \<Rightarrow> config_file \<Rightarrow> live_config
     \<Rightarrow> ('t live_reload_error + bool) \<times> live_config" where
  "live_perform toml env force p file l =
     (case perform_locked toml env force p file (lc_manager l) of
        (Inl e, m) \<Rightarrow> (Inl e, l\<lparr>lc_manager := m\<rparr>)
      | (Inr (out, published), m) \<Rightarrow>
          (Inr (\<exists>changes. out = Reloaded changes), publish published (l\<lparr>lc_manager := m\<rparr>)))"

text \<open>Both callers log a warning when the reload failed.\<close>

definition warn_failure :: "('e + bool) \<times> live_config \<Rightarrow> ('e + bool) \<times> live_config" where
  "warn_failure r = (case r of (Inl e, l) \<Rightarrow> (Inl e, l\<lparr>lc_warnings := lc_warnings l + 1\<rparr>) | _ \<Rightarrow> r)"

definition live_reload_if_changed ::
  "(ustring \<Rightarrow> 't + config) \<Rightarrow> environment \<Rightarrow> probe \<Rightarrow> config_file \<Rightarrow> live_config \<Rightarrow> live_config" where
  "live_reload_if_changed toml env p file l = snd (warn_failure (live_perform toml env False p file l))"

definition live_reload_now ::
  "(ustring \<Rightarrow> 't + config) \<Rightarrow> environment \<Rightarrow> probe \<Rightarrow> config_file \<Rightarrow> live_config
     \<Rightarrow> ('t live_reload_error + bool) \<times> live_config" where
  "live_reload_now toml env p file l = warn_failure (live_perform toml env True p file l)"

section \<open>Handing Notifications to History\<close>

text \<open>\<open>enqueue_all\<close> drops the receipt, and with it the refusal of a full queue.\<close>

definition enqueue_all :: "notification list \<Rightarrow> 'j history_state \<Rightarrow> 'j history_state" where
  "enqueue_all ns h = fold (\<lambda>n h. snd (history_call (HistoryPersist n) h)) ns h"

text \<open>
  Waiting for a task: the worker runs until its reply is there, which is when everything that was
  waiting before it has been run; other callers do nothing meanwhile.
\<close>

definition await_reply ::
  "'j history_env \<Rightarrow> history_command \<Rightarrow> 'j history_state \<Rightarrow> ('j history_error + history_answer) \<times> 'j history_state" where
  "await_reply env c h =
     (case history_call c h of
        (Inl e, h1) \<Rightarrow> (Inl e, h1)
      | (Inr k, h1) \<Rightarrow>
          (let h2 = run_machine (history_step env) h1 (replicate (length (hst_queue h1)) WorkHistory)
           in (case map_of (hst_replies h2) k of Some r \<Rightarrow> r | None \<Rightarrow> Inl WorkerStopped, h2)))"

definition persist_all :: "'j history_env \<Rightarrow> notification list \<Rightarrow> 'j history_state \<Rightarrow> 'j history_state" where
  "persist_all env ns h = fold (\<lambda>n h. snd (await_reply env (HistoryPersist n) h)) ns h"

section \<open>The display loop\<close>

record ('b, 'j) display_runtime =
  dr_view :: "'b daemon_view"
  dr_live :: live_config
  dr_pending_limits :: "scheduler_limits option"
  dr_next_reload :: monotonic_time
  dr_history :: "'j history_state"

text \<open>What a round reads from outside: the clocks, and the file system when it reloads.\<close>

record loop_inputs =
  li_instant :: monotonic_time
  li_after_reload :: monotonic_time
  li_probe :: probe
  li_file :: config_file
  li_now :: monotonic_time
  li_wall :: wall_time

definition reload_due ::
  "(ustring \<Rightarrow> 't + config) \<Rightarrow> environment \<Rightarrow> loop_inputs \<Rightarrow> ('b, 'j) display_runtime \<Rightarrow> ('b, 'j) display_runtime" where
  "reload_due toml env i d =
     (if dr_next_reload d \<le> li_instant i
      then d\<lparr>dr_live := live_reload_if_changed toml env (li_probe i) (li_file i) (dr_live d),
             dr_next_reload := li_after_reload i + CONFIG_RELOAD_INTERVAL\<rparr>
      else d)"

definition take_settings :: "('b, 'j) display_runtime \<Rightarrow> ('b, 'j) display_runtime" where
  "take_settings d =
     (if lc_changed (dr_live d)
      then (let settings = lc_settings (dr_live d); v = dr_view d in
            d\<lparr>dr_live := (dr_live d)\<lparr>lc_changed := False\<rparr>,
              dr_view := v\<lparr>dv_reconciler := update_policy (ds_display_policy settings) (dv_reconciler v)\<rparr>,
              dr_pending_limits := Some (ds_scheduler_limits settings)\<rparr>)
      else d)"

text \<open>
  The part under the locks: the limits, a tick and the closed Notifications. Failures of the
  scheduler are ignored; a panic ends the task (\<open>None\<close>).
\<close>

definition loop_locked ::
  "'b reconcile_env \<Rightarrow> monotonic_time \<Rightarrow> wall_time \<Rightarrow> scheduler_limits option \<Rightarrow> 'b daemon_view
     \<Rightarrow> (notification list \<times> 'b daemon_view) option" where
  "loop_locked renv now wall new_limits v =
     (let (r, s) = (case new_limits of Some l \<Rightarrow> update_limits l now wall (dv_scheduler v) | None \<Rightarrow> (Inr (), dv_scheduler v)) in
      if (r :: scheduler_error fault + unit) = Inl Panic then None
      else (case reconciler_tick renv now wall (v\<lparr>dv_scheduler := s\<rparr>) of
        (Inl Panic, _) \<Rightarrow> None
      | (_, v') \<Rightarrow>
          (case drain_closed (dv_scheduler v') of
             (Inr ns, s') \<Rightarrow> Some (ns, v'\<lparr>dv_scheduler := s'\<rparr>)
           | (Inl _, _) \<Rightarrow> None)))"

definition loop_round ::
  "'b reconcile_env \<Rightarrow> (ustring \<Rightarrow> 't + config) \<Rightarrow> environment \<Rightarrow> loop_inputs \<Rightarrow> ('b, 'j) display_runtime
     \<Rightarrow> (duration \<times> ('b, 'j) display_runtime) option" where
  "loop_round renv toml env i d =
     (let d1 = take_settings (reload_due toml env i d) in
      case loop_locked renv (li_now i) (li_wall i) (dr_pending_limits d1) (dr_view d1) of
        None \<Rightarrow> None
      | Some (ns, v) \<Rightarrow>
          Some (min (frame_interval (wp_animation (wr_policy (dv_reconciler v)))) MAX_IDLE_TICK,
                d1\<lparr>dr_pending_limits := None, dr_view := v, dr_history := enqueue_all ns (dr_history d1)\<rparr>))"

section \<open>Shutdown\<close>

fun shutdown_reason_of :: "runtime_shutdown \<Rightarrow> shutdown_reason" where
  "shutdown_reason_of ShutdownSignal = ShutdownStopped"
| "shutdown_reason_of ServerGone = ShutdownServerEnded"

definition empty_plan :: tmux_display_plan where
  "empty_plan = []"

text \<open>The clean-up; the backend takes the empty plan, and what it answers is ignored.\<close>

definition cleanup ::
  "'j history_env \<Rightarrow> (scheduler \<Rightarrow> notification_id list) \<Rightarrow> (tmux_display_plan \<Rightarrow> 'b \<Rightarrow> 'r \<times> 'b) \<Rightarrow> runtime_shutdown
     \<Rightarrow> monotonic_time \<Rightarrow> wall_time \<Rightarrow> scheduler \<times> 'b \<times> 'j history_state \<Rightarrow> scheduler \<times> 'b \<times> 'j history_state" where
  "cleanup env order reconcile reason now wall = (\<lambda>(s, b, h).
     let s1 = snd (shutdown order (shutdown_reason_of reason) now wall s);
         ns = scheduler.closed s1;
         s2 = snd (drain_closed s1);
         h1 = persist_all env ns h;
         b1 = snd (reconcile empty_plan b);
         h2 = snd (await_reply env HistoryFlush h1)
     in (s2, b1, h2))"

section \<open>Signals\<close>

text \<open>
  The task of \<open>shutdown_signals\<close>: the two one-shot senders it still holds, how often it was
  interrupted, and whether it still runs. A timeout probes tmux only while no shutdown has begun.
\<close>

record signal_state =
  sg_graceful :: "runtime_shutdown option"
  sg_graceful_held :: bool
  sg_forced :: bool
  sg_interrupts :: nat
  sg_running :: bool

definition signals_new :: signal_state where
  "signals_new = \<lparr>sg_graceful = None, sg_graceful_held = True, sg_forced = False, sg_interrupts = 0, sg_running = True\<rparr>"

datatype signal_event = Interrupt bool | Terminate bool | ProbeTmux bool

definition send_graceful :: "runtime_shutdown \<Rightarrow> signal_state \<Rightarrow> signal_state" where
  "send_graceful r s =
     (if sg_graceful_held s then s\<lparr>sg_graceful := Some r, sg_graceful_held := False\<rparr> else s)"

text \<open>The loop ends: a graceful sender still held is dropped, which its receiver reads as a signal.\<close>

definition stop_signals :: "signal_state \<Rightarrow> signal_state" where
  "stop_signals s = (send_graceful ShutdownSignal s)\<lparr>sg_running := False\<rparr>"

fun signal_step :: "signal_state \<Rightarrow> signal_event \<Rightarrow> signal_state" where
  "signal_step s (Interrupt ok) =
     (if \<not> sg_running s then s
      else if \<not> ok then stop_signals s
      else (let s1 = s\<lparr>sg_interrupts := min (sg_interrupts s + 1) 255\<rparr> in
            if sg_interrupts s1 = 1 then send_graceful ShutdownSignal s1
            else stop_signals (s1\<lparr>sg_forced := True\<rparr>)))"
| "signal_step s (Terminate received) =
     (if \<not> sg_running s then s
      else if \<not> received then stop_signals s
      else send_graceful ShutdownSignal s)"
| "signal_step s (ProbeTmux unreachable) =
     (if sg_running s \<and> sg_graceful_held s \<and> unreachable then send_graceful ServerGone s else s)"

section \<open>Jumps\<close>

definition production_jump :: "('t, 'g) backend_env \<Rightarrow> source_context \<Rightarrow> ('t, 'g, unit) backend_op" where
  "production_jump env source =
     backend_jump env \<lparr>jt_pane_id = src_pane_id source, jt_likely_client = None\<rparr>"

definition production_jump_from_attention ::
  "('t, 'g) backend_env \<Rightarrow> source_context \<Rightarrow> window_id \<Rightarrow> ('t, 'g, unit) backend_op" where
  "production_jump_from_attention env source window =
     bind_op (backend_snapshot env) (\<lambda>topology.
       backend_jump env \<lparr>jt_pane_id = src_pane_id source,
         jt_likely_client = likely_client_for_window topology window\<rparr>)"

section \<open>The client of the interactive History\<close>

datatype 'j history_request_error =
    Unavailable io_kind | Transport "'j runtime_error" | RequestProtocol "'j protocol_error"
  | Remote ustring | RequestEncode 'j

text \<open>The exchange of one request and the reading of its answer.\<close>

definition history_daemon_request ::
  "('v, 'j) json_ops \<Rightarrow> uuid_ops \<Rightarrow> (client_request \<Rightarrow> 'j + byte list) \<Rightarrow> (byte list \<Rightarrow> 'j runtime_error + byte list)
     \<Rightarrow> notification_id \<Rightarrow> client_command \<Rightarrow> 'j history_request_error + 'v" where
  "history_daemon_request js uuid encode exchanged request_id command =
     (case encode (client_request_new request_id command) of
        Inl e \<Rightarrow> Inl (RequestEncode e)
      | Inr payload \<Rightarrow>
          (case exchanged payload of
             Inl (ConnectFailed k) \<Rightarrow>
               if k = IoNotFound \<or> k = IoConnectionRefused then Inl (Unavailable k) else Inl (Transport (ConnectFailed k))
           | Inl e \<Rightarrow> Inl (Transport e)
           | Inr frame \<Rightarrow>
               (case decode_client_response js uuid frame request_id of
                  Inl e \<Rightarrow> Inl (RequestProtocol e)
                | Inr (ResponseSuccess v) \<Rightarrow> Inr v
                | Inr (ResponseError message) \<Rightarrow> Inl (Remote message))))"

datatype 'j history_action_error =
    ActionPath path_error | ActionRequest "'j history_request_error" | ActionTmux tmux_error | TargetUnavailable io_kind

text \<open>
  \<open>socket\<close> is the path for a server, \<open>request\<close> an exchange over a socket, \<open>connect_jump\<close> connecting to
  the current tmux server and jumping there.
\<close>

definition ensure_open_allowed ::
  "(tmux_server_id \<Rightarrow> path_error + ustring) \<Rightarrow> (ustring \<Rightarrow> client_command \<Rightarrow> 'j history_request_error + 'v)
     \<Rightarrow> tmux_server_id option \<Rightarrow> 'j history_action_error + unit" where
  "ensure_open_allowed socket request current =
     (case current of
        None \<Rightarrow> Inr ()
      | Some server \<Rightarrow>
          (case socket server of
             Inl e \<Rightarrow> Inl (ActionPath e)
           | Inr path \<Rightarrow>
               (case request path HistoryGuardCmd of
                  Inr _ \<Rightarrow> Inr ()
                | Inl (Unavailable _) \<Rightarrow> Inr ()
                | Inl e \<Rightarrow> Inl (ActionRequest e))))"

definition history_action_jump ::
  "(tmux_server_id \<Rightarrow> path_error + ustring) \<Rightarrow> (ustring \<Rightarrow> client_command \<Rightarrow> 'j history_request_error + 'v)
     \<Rightarrow> (jump_target \<Rightarrow> tmux_error + unit) \<Rightarrow> tmux_server_id option \<Rightarrow> source_context \<Rightarrow> 'j history_action_error + unit" where
  "history_action_jump socket request connect_jump current source =
     (case socket (src_tmux_server_id source) of
        Inl e \<Rightarrow> Inl (ActionPath e)
      | Inr path \<Rightarrow>
          (case request path (HistoryJumpCmd (wire_source_from source)) of
             Inr _ \<Rightarrow> Inr ()
           | Inl (Unavailable k) \<Rightarrow>
               if current = Some (src_tmux_server_id source)
               then map_sum ActionTmux id (connect_jump \<lparr>jt_pane_id = src_pane_id source, jt_likely_client = None\<rparr>)
               else Inl (TargetUnavailable k)
           | Inl e \<Rightarrow> Inl (ActionRequest e)))"

end
