(* ===== verification/Daemon_Application_Props.thy ===== *)
theory Daemon_Application_Props
  imports Daemon_Application Reconciler_Props Reconciler_Plan History_Props
begin

text \<open>
  The application keeps its parts together: the published settings are those of the active
  configuration, the display loop never dies of them, a signal begins one shutdown and only a second
  interrupt forces it, and the clean-up hands every closed Notification to History before it ends.
\<close>

section \<open>Settings of a valid configuration\<close>

text \<open>What the scheduler and the placement of Toasts rely on.\<close>

definition settings_ok :: "daemon_settings \<Rightarrow> bool" where
  "settings_ok s \<longleftrightarrow>
     (let l = ds_scheduler_limits s; p = ds_display_policy s in
      max_pending l \<in> {1..10000} \<and> max_visible_toasts l \<in> {1..100}
      \<and> wp_max_visible_toasts p = max_visible_toasts l
      \<and> wp_toast_width p \<in> {24..500} \<and> wp_toast_height p \<in> {1..100} \<and> wp_toast_gap p \<le> 20
      \<and> wp_toast_height p + wp_toast_gap p \<le> u16_max
      \<and> ap_fps (wp_animation p) \<in> {1..120})"

lemma settings_of_valid:
  assumes "config_valid c"
  shows "\<exists>s. settings_from_config c env = Inr s \<and> settings_ok s"
  using assms
  by (auto simp: settings_from_config_def scheduler_limits_new_def settings_ok_def config_valid_def Let_def u16_or_max_def)

lemma settings_of_parts:
  "cfg_queue c = cfg_queue d \<Longrightarrow> cfg_toast c = cfg_toast d \<Longrightarrow> cfg_display c = cfg_display d
     \<Longrightarrow> settings_from_config c env = settings_from_config d env"
  by (simp add: settings_from_config_def)

definition tracked :: "environment \<Rightarrow> config_overrides \<Rightarrow> live_config \<Rightarrow> bool" where
  "tracked env cli l \<longleftrightarrow> manager_ok env cli (lc_manager l)
     \<and> settings_from_config (cm_active (lc_manager l)) env = Inr (lc_settings l)"

lemma tracked_settings: "tracked env cli l \<Longrightarrow> settings_ok (lc_settings l)"
  using settings_of_valid unfolding tracked_def manager_ok_def by (metis Inr_inject)

text \<open>One reload that reads the file: what it loaded, if it did.\<close>

definition loaded ::
  "(ustring \<Rightarrow> 't + config) \<Rightarrow> environment \<Rightarrow> config_overrides \<Rightarrow> bool \<Rightarrow> config_file \<Rightarrow> file_fingerprint option \<Rightarrow> config_manager
     \<Rightarrow> ('t live_reload_error + reload_outcome \<times> daemon_settings option) \<times> config_manager" where
  "loaded toml env cli force file observed m =
     (case config_load toml env cli file of
        Inl e \<Rightarrow> (Inl (if force then LiveConfig e else LiveRejected), m\<lparr>cm_observed := observed\<rparr>)
      | Inr c \<Rightarrow>
          (let changes = changes_between (cm_active m) c in
           (Inr (if c = cm_active m then (ReloadUnchanged, None)
                 else (Reloaded changes,
                       if cc_display_reconciliation changes \<or> cc_daemon_or_queue changes
                       then (case settings_from_config c env of Inr s \<Rightarrow> Some s | Inl _ \<Rightarrow> None) else None)),
            m\<lparr>cm_observed := observed, cm_active := c\<rparr>)))"

lemma perform_locked_cases:
  assumes "manager_ok env cli m"
  obtains "perform_locked toml env force p contents m = (Inl (LiveConfig ConfigIo), m)"
    | "perform_locked toml env force p contents m = (Inr (ReloadUnchanged, None), m)"
    | observed where "perform_locked toml env force p contents m = loaded toml env cli force contents observed m"
proof (cases p)
  case (Inl u)
  then show thesis
    by (intro that(1)) (cases force; simp add: perform_locked_def reload_now_cases reload_if_changed_cases)
next
  case (Inr observed)
  have m: "cm_environment m = env" "cm_cli m = cli" using assms by (simp_all add: manager_ok_def)
  have valid: "\<exists>s. settings_from_config c env = Inr s" if "config_load toml env cli contents = Inr c" for c
    using that settings_of_valid by (auto simp: config_load_iff)
  show thesis
  proof (cases "\<not> force \<and> observed = cm_observed m")
    case True
    then show thesis by (intro that(2)) (simp add: Inr perform_locked_def reload_if_changed_cases)
  next
    case False
    then show thesis using m valid
      by (intro that(3) [of observed])
        (auto simp: Inr loaded_def Let_def perform_locked_def reload_now_cases reload_if_changed_cases split: sum.splits)
  qed
qed

lemma live_perform_tracked:
  assumes "tracked env cli l" "live_perform toml env force p file l = (r, l')"
  shows "tracked env cli l'
    \<and> (case r of
         Inl e \<Rightarrow> cm_active (lc_manager l') = cm_active (lc_manager l) \<and> lc_settings l' = lc_settings l \<and> (\<forall>x. e \<noteq> LiveScheduler x)
       | Inr changed \<Rightarrow> changed = (cm_active (lc_manager l') \<noteq> cm_active (lc_manager l)))
    \<and> (lc_settings l' \<noteq> lc_settings l \<longrightarrow> lc_changed l')"
proof -
  let ?m = "lc_manager l"
  have ok: "manager_ok env cli ?m" and now: "settings_from_config (cm_active ?m) env = Inr (lc_settings l)"
    using assms(1) by (simp_all add: tracked_def)
  have observed: "manager_ok env cli (?m\<lparr>cm_observed := x\<rparr>)" for x using ok by (simp add: manager_ok_def)
  show ?thesis
  proof (cases rule: perform_locked_cases [OF ok, where toml = toml and force = force and p = p and contents = "file"])
    case 1
    then show ?thesis using assms by (auto simp: live_perform_def tracked_def)
  next
    case 2
    then show ?thesis using assms by (auto simp: live_perform_def tracked_def publish_def)
  next
    case (3 x)
    show ?thesis
    proof (cases "config_load toml env cli file")
      case (Inl e)
      then show ?thesis using assms 3 observed now by (auto simp: live_perform_def tracked_def loaded_def)
    next
      case load: (Inr c)
      obtain s where s: "settings_from_config c env = Inr s"
        using load settings_of_valid by (auto simp: config_load_iff)
      have ok': "manager_ok env cli (?m\<lparr>cm_observed := x, cm_active := c\<rparr>)"
        using ok load by (auto simp: manager_ok_def config_load_iff)
      have same: "settings_from_config c env = settings_from_config (cm_active ?m) env"
        if "\<not> cc_display_reconciliation (changes_between (cm_active ?m) c)" "\<not> cc_daemon_or_queue (changes_between (cm_active ?m) c)"
        using that by (intro settings_of_parts) (auto simp: changes_between_def)
      show ?thesis
        using assms(2) 3 load ok' s same now observed
        by (auto simp: live_perform_def tracked_def publish_def loaded_def Let_def split: if_splits)
    qed
  qed
qed

text \<open>Reloads one after the other, and the settings being taken by the loop.\<close>

datatype live_call = ReloadCall bool probe config_file | SettingsSeen

fun live_step :: "(ustring \<Rightarrow> 't + config) \<Rightarrow> environment \<Rightarrow> live_config \<Rightarrow> live_call \<Rightarrow> live_config" where
  "live_step toml env l (ReloadCall True p contents) = snd (live_reload_now toml env p contents l)"
| "live_step toml env l (ReloadCall False p contents) = live_reload_if_changed toml env p contents l"
| "live_step toml env l SettingsSeen = l\<lparr>lc_changed := False\<rparr>"

lemma warned_tracked: "tracked env cli (snd (warn_failure r)) = tracked env cli (snd r)"
  by (cases r; cases "fst r") (auto simp: warn_failure_def tracked_def)

lemma live_step_tracked: "tracked env cli l \<Longrightarrow> tracked env cli (live_step toml env l c)"
proof (cases c)
  case (ReloadCall force p contents)
  assume l: "tracked env cli l"
  obtain r l' where r: "live_perform toml env force p contents l = (r, l')" by fastforce
  from live_perform_tracked [OF l r] r show ?thesis
    by (cases force) (auto simp: ReloadCall live_reload_now_def live_reload_if_changed_def warned_tracked)
qed (simp add: tracked_def)

interpretation live_machine: invariant_machine "live_step toml env" "\<lambda>_ _. True" "tracked env cli"
  by unfold_locales (rule live_step_tracked)


text \<open>
  Two reloads at once, one of a request and one of the display loop: the settings are published
  after the lock is released, and when the later reload publishes first, the older settings stay.
\<close>

lemma stale_settings:
  assumes "settings_from_config c1 env = Inr s1" "settings_from_config c2 env = Inr s2" "s1 \<noteq> s2"
    and "perform_locked toml env f1 p1 contents1 m = (Inr (Reloaded ch1, Some s1), m\<lparr>cm_observed := x1, cm_active := c1\<rparr>)"
    and "perform_locked toml env f2 p2 contents2 (m\<lparr>cm_observed := x1, cm_active := c1\<rparr>)
      = (Inr (Reloaded ch2, Some s2), m\<lparr>cm_observed := x2, cm_active := c2\<rparr>)"
  shows "let first = perform_locked toml env f1 p1 contents1 (lc_manager (l\<lparr>lc_manager := m\<rparr>));
             second = perform_locked toml env f2 p2 contents2 (snd first);
             l' = publish (Some s1) (publish (Some s2) (l\<lparr>lc_manager := snd second\<rparr>))
    in settings_from_config (cm_active (lc_manager l')) env \<noteq> Inr (lc_settings l')"
  using assms by (simp add: publish_def)

section \<open>The display loop\<close>

lemma frame_interval_pos: "0 < frame_interval p"
  by (simp add: frame_interval_def frame_of_fps_pos MAX_ANIMATION_FPS_def)

definition runtime_ok :: "environment \<Rightarrow> config_overrides \<Rightarrow> ('b, 'j) display_runtime \<Rightarrow> bool" where
  "runtime_ok env cli d \<longleftrightarrow> reconciler_ok (dv_reconciler (dr_view d)) \<and> wf_sched (dv_scheduler (dr_view d))
     \<and> tracked env cli (dr_live d) \<and> dr_pending_limits d = None"

text \<open>The view a tick starts from: the new limits, if any, have been applied to its scheduler.\<close>

definition limited :: "monotonic_time \<Rightarrow> wall_time \<Rightarrow> scheduler_limits option \<Rightarrow> 'b daemon_view \<Rightarrow> 'b daemon_view" where
  "limited now wall new_limits v =
     (case new_limits of Some l \<Rightarrow> v\<lparr>dv_scheduler := snd (update_limits l now wall (dv_scheduler v))\<rparr> | None \<Rightarrow> v)"

lemma loop_locked_ok:
  assumes "reconciler_ok (dv_reconciler v)" "wf_sched (dv_scheduler v)"
    and "\<And>l. new_limits = Some l \<Longrightarrow> jumps_in_flight (dv_scheduler v) \<le> max_pending l"
  shows "\<exists>r v'. reconciler_tick renv now wall (limited now wall new_limits v) = (r, v')
    \<and> loop_locked renv now wall new_limits v
        = Some (scheduler.closed (dv_scheduler v'), v'\<lparr>dv_scheduler := (dv_scheduler v')\<lparr>closed := []\<rparr>\<rparr>)
    \<and> reconciler_ok (dv_reconciler v') \<and> wf_sched (dv_scheduler v')"
proof -
  obtain r s where run: "(case new_limits of Some l \<Rightarrow> update_limits l now wall (dv_scheduler v) | None \<Rightarrow> (Inr (), dv_scheduler v)) = (r, s)"
    by fastforce
  have lim: "limited now wall new_limits v = v\<lparr>dv_scheduler := s\<rparr>"
    using run by (auto simp: limited_def split: option.splits)
  have s: "r \<noteq> Inl Panic" "wf_sched s"
    using update_limits_safe [OF assms(2), where now = now and w = wall] assms(2,3) run
    by (auto split: option.splits) (metis fst_conv snd_conv)+
  have view: "view reconciler_ok wf_sched (v\<lparr>dv_scheduler := s\<rparr>)"
    using assms(1) s(2) by (simp add: view_def)
  obtain r' v' where tick: "reconciler_tick renv now wall (v\<lparr>dv_scheduler := s\<rparr>) = (r', v')" by fastforce
  have v': "r' \<noteq> Inl Panic" "reconciler_ok (dv_reconciler v')" "wf_sched (dv_scheduler v')"
    using tripleD [OF tick_triple [where env = renv and now = now and w = wall] view] tick
    by (auto simp: backwards_def view_def tick_done_def Let_def split: sum.splits fault.splits)
  show ?thesis
    using run s v' tick lim by (auto simp: loop_locked_def drain_closed_eq drain_closed_wf split: sum.splits fault.splits)
qed

text \<open>What \<open>enqueue_all\<close> hands over: as many as the queue has room for; the others are lost.\<close>

lemma enqueue_all_fits:
  assumes "hst_enabled h" "hst_alive h" "length (hst_queue h) \<le> hst_capacity h"
  shows "enqueue_all ns h =
    (let k = min (length ns) (hst_capacity h - length (hst_queue h)) in
     h\<lparr>hst_next := hst_next h + k,
       hst_queue := hst_queue h @ zip [hst_next h..<hst_next h + k] (map HistoryPersist (take k ns))\<rparr>)"
  using assms
proof (induction ns arbitrary: h)
  case (Cons n ns)
  show ?case
  proof (cases "hst_capacity h \<le> length (hst_queue h)")
    case True
    then have "snd (history_call (HistoryPersist n) h) = h"
      using Cons.prems by (simp add: history_call_def history_submit_def)
    then show ?thesis using Cons.IH [OF Cons.prems] True by (simp add: enqueue_all_def Let_def)
  next
    case False
    let ?h = "h\<lparr>hst_next := hst_next h + 1, hst_queue := hst_queue h @ [(hst_next h, HistoryPersist n)]\<rparr>"
    have step: "snd (history_call (HistoryPersist n) h) = ?h"
      using Cons.prems False by (simp add: history_call_def history_submit_def)
    obtain room where room: "hst_capacity h - length (hst_queue h) = Suc room"
      using False by (metis not_le zero_less_diff gr0_implies_Suc)
    have "[hst_next h..<Suc (hst_next h + k)] = hst_next h # [Suc (hst_next h)..<Suc (hst_next h + k)]" for k
      by (simp add: upt_rec)
    moreover have "hst_capacity h - Suc (length (hst_queue h)) = room" using room by simp
    ultimately show ?thesis
      using Cons.IH [of ?h] Cons.prems False step room by (simp add: enqueue_all_def Let_def)
  qed
qed (simp add: enqueue_all_def Let_def)

lemma enqueue_all_full:
  "hst_enabled h \<Longrightarrow> hst_alive h \<Longrightarrow> length (hst_queue h) = hst_capacity h \<Longrightarrow> enqueue_all ns h = h"
  by (simp add: enqueue_all_fits Let_def)

lemma reload_due_tracked: "tracked env cli (dr_live d) \<Longrightarrow> tracked env cli (dr_live (reload_due toml env i d))"
  using live_step_tracked [where c = "ReloadCall False (li_probe i) (li_file i)" and toml = toml and env = env]
  by (auto simp: reload_due_def)


text \<open>A daemon that has just started, with a configuration of its own and nothing to show.\<close>

definition demo_display_runtime :: "daemon_settings \<Rightarrow> (unit, unit) display_runtime" where
  "demo_display_runtime settings =
     \<lparr>dr_view = absent_view,
      dr_live = \<lparr>lc_manager = demo_manager, lc_settings = settings, lc_changed = True, lc_warnings = 0\<rparr>,
      dr_pending_limits = None, dr_next_reload = 9,
      dr_history = history_opened True demo_server 3 128 (empty_database [])\<rparr>"

definition demo_inputs :: loop_inputs where
  "demo_inputs = \<lparr>li_instant = 5, li_after_reload = 5, li_probe = Inr None, li_file = FileBytes 0 [], li_now = 5, li_wall = 0\<rparr>"

lemma demo_tracked:
  assumes "settings_from_config (cm_active demo_manager) Map.empty = Inr s"
  shows "runtime_ok Map.empty demo_overrides (demo_display_runtime s)"
  using manager_new_ok [OF demo_created] assms absent_view_ok
  by (simp add: runtime_ok_def demo_display_runtime_def tracked_def)



section \<open>Signals\<close>

text \<open>The events that begin a shutdown, and those that end the task.\<close>

fun begins_shutdown :: "signal_event \<Rightarrow> bool" where
  "begins_shutdown (ProbeTmux unreachable) = unreachable"
| "begins_shutdown e = True"

definition ends_signals :: "signal_event \<Rightarrow> bool" where
  "ends_signals e \<longleftrightarrow> e = Interrupt False \<or> e = Terminate False"

definition begun_by :: "signal_event list \<Rightarrow> runtime_shutdown option" where
  "begun_by events = map_option (\<lambda>e. if e = ProbeTmux True then ServerGone else ShutdownSignal) (find begins_shutdown events)"

definition interrupts_heard :: "signal_event list \<Rightarrow> nat" where
  "interrupts_heard events = length (filter (\<lambda>e. e = Interrupt True) (takeWhile (Not \<circ> ends_signals) events))"

definition signals_ok :: "signal_state \<Rightarrow> bool" where
  "signals_ok s \<longleftrightarrow> sg_running s \<and> \<not> sg_forced s \<and> sg_graceful_held s = (sg_graceful s = None)
     \<and> sg_interrupts s \<le> 1 \<and> (sg_interrupts s = 1 \<longrightarrow> \<not> sg_graceful_held s)"

lemma stopped_run: "\<not> sg_running s \<Longrightarrow> run_machine signal_step s events = s"
proof (induction events)
  case (Cons e events)
  then show ?case by (cases e) simp_all
qed simp

lemma signals_run:
  assumes "signals_ok s"
  shows "sg_graceful (run_machine signal_step s events)
      = (case sg_graceful s of Some r \<Rightarrow> Some r | None \<Rightarrow> begun_by events)
    \<and> sg_forced (run_machine signal_step s events) = (2 \<le> sg_interrupts s + interrupts_heard events)"
  using assms
proof (induction events arbitrary: s)
  case Nil
  then show ?case by (auto simp: signals_ok_def begun_by_def interrupts_heard_def split: option.splits)
next
  case (Cons e events)
  note ok = Cons.prems [unfolded signals_ok_def]
  show ?case
  proof (cases "ends_signals e")
    case True
    then have "signal_step s e = stop_signals s" using ok by (cases e) (auto simp: ends_signals_def)
    moreover have "\<not> sg_running (stop_signals s)" by (simp add: stop_signals_def)
    ultimately have "run_machine signal_step s (e # events) = stop_signals s" by (simp add: stopped_run)
    then show ?thesis using ok True
      by (auto simp: stop_signals_def send_graceful_def begun_by_def interrupts_heard_def ends_signals_def split: option.splits)
  next
    case False
    show ?thesis
    proof (cases "e = Interrupt True \<and> sg_interrupts s = 1")
      case True
      then have "signal_step s e = stop_signals (s\<lparr>sg_interrupts := Suc (Suc 0), sg_forced := True\<rparr>)" using ok by simp
      moreover have "\<not> sg_running (stop_signals (s\<lparr>sg_interrupts := Suc (Suc 0), sg_forced := True\<rparr>))" by (simp add: stop_signals_def)
      ultimately have "run_machine signal_step s (e # events) = stop_signals (s\<lparr>sg_interrupts := Suc (Suc 0), sg_forced := True\<rparr>)"
        by (simp add: stopped_run)
      then show ?thesis using ok True False
        by (auto simp: stop_signals_def send_graceful_def interrupts_heard_def split: option.splits)
    next
      case other: False
      then have "signals_ok (signal_step s e)"
        "sg_interrupts (signal_step s e) = sg_interrupts s + (if e = Interrupt True then 1 else 0)"
        "sg_graceful (signal_step s e) = (case sg_graceful s of Some r \<Rightarrow> Some r | None \<Rightarrow>
            if begins_shutdown e then Some (if e = ProbeTmux True then ServerGone else ShutdownSignal) else None)"
        using ok False
        by (cases e; auto simp: signals_ok_def send_graceful_def ends_signals_def Let_def split: option.splits)+
      with Cons.IH [OF this(1)] False show ?thesis
        by (auto simp: begun_by_def interrupts_heard_def split: option.splits if_splits)
    qed
  qed
qed

text \<open>
  Claim C34. For every sequence of signals and probes: the shutdown begins with the first interrupt,
  termination signal, lost handler or unreachable tmux server, and its reason is the server's end
  exactly when that was first; it is forced exactly when two interrupts arrive before a handler is
  lost, and never without having begun.
\<close>

theorem shutdown_signals_correct:
  "let s = run_machine signal_step signals_new events
   in sg_graceful s = begun_by events
      \<and> sg_forced s = (2 \<le> interrupts_heard events)
      \<and> (sg_forced s \<longrightarrow> sg_graceful s \<noteq> None)"
proof -
  have run: "sg_graceful (run_machine signal_step signals_new events) = begun_by events"
    "sg_forced (run_machine signal_step signals_new events) = (2 \<le> interrupts_heard events)"
    using signals_run [of signals_new events] by (simp_all add: signals_ok_def signals_new_def)
  have "begun_by events \<noteq> None" if "2 \<le> interrupts_heard events"
  proof
    assume "begun_by events = None"
    then have "Interrupt True \<notin> set events" by (auto simp: begun_by_def find_None_iff)
    then have "interrupts_heard events = 0"
      by (auto simp: interrupts_heard_def filter_empty_conv dest: set_takeWhileD)
    with that show False by simp
  qed
  then show ?thesis by (simp add: Let_def run)
qed

lemma shutdown_signals_correct_witness:
  "sg_forced (run_machine signal_step signals_new [ProbeTmux False, Terminate True, Interrupt True, Interrupt True])"
  using shutdown_signals_correct [of "[ProbeTmux False, Terminate True, Interrupt True, Interrupt True]"]
  by (simp add: Let_def interrupts_heard_def ends_signals_def)

section \<open>Clean-up\<close>

definition idle_history :: "'j history_state \<Rightarrow> bool" where
  "idle_history h \<longleftrightarrow> hst_enabled h \<and> hst_alive h \<and> hst_queue h = [] \<and> 0 < hst_capacity h"

lemma await_idle:
  assumes "idle_history h" "worker_command env (hst_server h) (hst_max_entries h) c (hst_database h) = (r, db)"
  shows "snd (await_reply env c h) = h\<lparr>hst_next := hst_next h + 1, hst_database := db,
      hst_replies := hst_replies h @ [(hst_next h, answer_of r)]\<rparr>"
proof -
  have "r \<noteq> Inl Panic"
    using worker_no_panic [of env "hst_server h" "hst_max_entries h" c "hst_database h"] assms(2) by simp
  then show ?thesis using assms
    by (auto simp: await_reply_def idle_history_def history_call_def history_submit_def worker_step_def Let_def
        answer_of_def split: sum.splits fault.splits)
qed

lemma run_serial_length: "run_serial env server max_entries cs db = (answers, db') \<Longrightarrow> length answers = length cs"
  by (induction cs arbitrary: db answers) (auto split: prod.splits)

text \<open>Awaiting commands one after the other is running them one after the other.\<close>

lemma await_all:
  assumes "idle_history h"
    and "run_serial env (hst_server h) (hst_max_entries h) cs (hst_database h) = (answers, db)"
  shows "fold (\<lambda>c h. snd (await_reply env c h)) cs h = h\<lparr>hst_next := hst_next h + length cs, hst_database := db,
      hst_replies := hst_replies h @ zip [hst_next h..<hst_next h + length cs] answers\<rparr>"
  using assms
proof (induction cs arbitrary: h answers)
  case (Cons c cs)
  obtain r db1 where c: "worker_command env (hst_server h) (hst_max_entries h) c (hst_database h) = (r, db1)" by fastforce
  obtain rest where rest: "run_serial env (hst_server h) (hst_max_entries h) cs db1 = (rest, db)" "answers = answer_of r # rest"
    using Cons.prems(2) c by (auto split: prod.splits)
  have "[hst_next h..<Suc (hst_next h + length cs)] = hst_next h # [Suc (hst_next h)..<Suc (hst_next h + length cs)]"
    by (simp add: upt_rec)
  then show ?case
    using Cons.IH [of "snd (await_reply env c h)" rest] Cons.prems(1) rest
    by (simp add: await_idle [OF Cons.prems(1) c] idle_history_def)
qed simp

text \<open>
  Claim C35. The clean-up, with History idle: afterwards nothing is live, queued or displayed, tmux
  was given the empty plan, every Notification closed by the shutdown (all that were live, when the
  log has room) or before it has been persisted in order and its answer awaited, and the flush after
  them is answered before the clean-up ends.
\<close>

theorem cleanup_correct:
  assumes "wf_sched s" "last_now s \<le> now" "p = snd (prepare_time now w s)" "distinct ids" "set ids = dom (entries p)"
    and "idle_history h"
    and "cleanup env (\<lambda>_. ids) reconcile reason now w (s, b, h) = (s', b', h')"
  shows "entries s' = Map.empty \<and> live_keys s' = Map.empty \<and> pending s' = [] \<and> active_toasts s' = []
      \<and> active_attention s' = None \<and> scheduler.closed s' = []
    \<and> b' = snd (reconcile [] b)
    \<and> (\<exists>ns answers. run_serial env (hst_server h) (hst_max_entries h) (map HistoryPersist ns @ [HistoryFlush]) (hst_database h)
          = (answers, hst_database h')
        \<and> hst_replies h' = hst_replies h @ zip [hst_next h..<hst_next h'] answers
        \<and> length answers = hst_next h' - hst_next h \<and> hst_queue h' = []
        \<and> (length (scheduler.closed p) + length ids \<le> closed_capacity p \<longrightarrow> ns = scheduler.closed p
            @ map (\<lambda>i. close_notification (shutdown_close_reason (shutdown_reason_of reason)) w (the (live_notification p i))) ids))"
proof -
  obtain t where t: "shutdown (\<lambda>_. ids) (shutdown_reason_of reason) now w s = (Inr (), t)"
    and empty: "entries t = Map.empty" "live_keys t = Map.empty" "pending t = []" "active_toasts t = []" "active_attention t = None"
    and log: "length (scheduler.closed p) + length ids \<le> closed_capacity p \<longrightarrow> scheduler.closed t = scheduler.closed p
        @ map (\<lambda>i. close_notification (shutdown_close_reason (shutdown_reason_of reason)) w (the (live_notification p i))) ids"
    using shutdown_correct [OF assms(1-5), of "shutdown_reason_of reason"] by blast
  let ?ns = "scheduler.closed t"
  let ?cs = "map HistoryPersist ?ns @ [HistoryFlush]"
  obtain answers db where run: "run_serial env (hst_server h) (hst_max_entries h) ?cs (hst_database h) = (answers, db)" by fastforce
  have folded: "snd (await_reply env HistoryFlush (persist_all env ?ns h)) = fold (\<lambda>c h. snd (await_reply env c h)) ?cs h"
    by (simp add: persist_all_def fold_map comp_def)
  have out: "s' = t\<lparr>closed := []\<rparr>" "b' = snd (reconcile [] b)"
    "h' = fold (\<lambda>c h. snd (await_reply env c h)) ?cs h"
    using assms(7) folded by (auto simp: cleanup_def t Let_def drain_closed_eq empty_plan_def)
  have len: "length answers = length ?cs"
    by (rule run_serial_length [OF run])
  show ?thesis
    using empty log run len assms(6) unfolding out await_all [OF assms(6) run]
    by (intro conjI exI [of _ ?ns] exI [of _ answers]) (simp_all add: idle_history_def)
qed

lemma cleanup_correct_witness:
  "\<exists>s' b' h'. cleanup demo_history_env (\<lambda>_. [1, 2, 3]) (\<lambda>plan b. ((), Suc b)) ShutdownSignal 2 2
      (run_machine sched_step demo_new demo_calls, 0, history_opened True demo_server 3 128 (empty_database [])) = (s', b', h')
    \<and> entries s' = Map.empty \<and> b' = Suc 0 \<and> hst_queue h' = []"
proof -
  let ?s = "run_machine sched_step demo_new demo_calls" and ?ids = "[1, 2, 3] :: notification_id list"
  let ?p = "snd (prepare_time 2 2 ?s)" and ?h = "history_opened True demo_server 3 128 (empty_database []) :: unit history_state"
  have now: "last_now ?s \<le> 2" and d: "distinct ?ids" and dom: "set ?ids = dom (entries ?p)"
    by (simp add: demo_calls_def run_defs, simp, auto simp: demo_calls_def run_defs sat_add_def)
  have idle: "idle_history ?h" by (simp add: idle_history_def history_opened_def)
  obtain s' b' h' where c: "cleanup demo_history_env (\<lambda>_. ?ids) (\<lambda>plan b. ((), Suc b)) ShutdownSignal 2 2 (?s, 0, ?h) = (s', b', h')"
    by (metis prod_cases3)
  from cleanup_correct [OF demo_wf now refl d dom idle c] have "entries s' = Map.empty \<and> b' = Suc 0 \<and> hst_queue h' = []"
    by auto
  with c show ?thesis by blast
qed

end
