(* ===== verification/Providers.thy ===== *)
theory Providers
  imports Notification Config
begin

text \<open>
  The provider adapters of \<open>src/providers\<close> and the hook receiver of \<open>src/hooks.rs\<close>: the policy that
  says which events of an agent are wanted, and the conversion of a provider's event into a
  normalized draft. The readers that serde derives for the input structs are parameters.
\<close>

section \<open>The policy\<close>

record hook_policy =
  po_preset :: hook_preset
  po_enable :: "agent_event_kind list"
  po_disable :: "agent_event_kind list"

definition hook_policy_new :: "hook_preset \<Rightarrow> hook_policy" where
  "hook_policy_new preset = \<lparr>po_preset = preset, po_enable = [], po_disable = []\<rparr>"

definition with_enabled :: "agent_event_kind list \<Rightarrow> hook_policy \<Rightarrow> hook_policy" where
  "with_enabled events p = p\<lparr>po_enable := po_enable p @ events\<rparr>"

definition with_disabled :: "agent_event_kind list \<Rightarrow> hook_policy \<Rightarrow> hook_policy" where
  "with_disabled events p = p\<lparr>po_disable := po_disable p @ events\<rparr>"

fun preset_events :: "hook_preset \<Rightarrow> agent_event_kind list" where
  "preset_events Minimal =
     [agent_event_kind.NeedsAttention, agent_event_kind.Completed, agent_event_kind.Failed]"
| "preset_events hook_preset.Normal =
     [agent_event_kind.NeedsAttention, agent_event_kind.Completed, agent_event_kind.Failed,
      agent_event_kind.SubagentCompleted, agent_event_kind.Interrupted]"
| "preset_events Verbose =
     [agent_event_kind.NeedsAttention, agent_event_kind.Completed, agent_event_kind.Failed,
      agent_event_kind.SubagentCompleted, agent_event_kind.Interrupted, agent_event_kind.Started,
      agent_event_kind.ToolStarted, agent_event_kind.ToolCompleted]"

definition is_enabled :: "hook_policy \<Rightarrow> agent_event_kind \<Rightarrow> bool" where
  "is_enabled p event =
     (if event \<in> set (po_disable p) then False
      else event \<in> set (po_enable p) \<or> event \<in> set (preset_events (po_preset p)))"

fun event_kind :: "hook_event \<Rightarrow> agent_event_kind" where
  "event_kind hook_event.NeedsAttention = agent_event_kind.NeedsAttention"
| "event_kind hook_event.Completed = agent_event_kind.Completed"
| "event_kind hook_event.Failed = agent_event_kind.Failed"
| "event_kind hook_event.Started = agent_event_kind.Started"
| "event_kind hook_event.Interrupted = agent_event_kind.Interrupted"
| "event_kind hook_event.SubagentCompleted = agent_event_kind.SubagentCompleted"
| "event_kind hook_event.ToolStarted = agent_event_kind.ToolStarted"
| "event_kind hook_event.ToolCompleted = agent_event_kind.ToolCompleted"

definition policy_from :: "hook_provider_config \<Rightarrow> hook_policy" where
  "policy_from c =
     with_disabled (map event_kind (hp_disable c))
       (with_enabled (map event_kind (hp_enable c)) (hook_policy_new (hp_preset c)))"

section \<open>Drafts\<close>

datatype 'j provider_error =
    ProviderInputTooLarge nat
  | ProviderJson 'j
  | ProviderInvalidInput
  | ProviderIngress ingress_error

definition MAX_PROVIDER_INPUT_BYTES :: nat where "MAX_PROVIDER_INPUT_BYTES = 64 * 1024"

record draft_parts =
  dp_provider :: provider
  dp_provider_name :: ustring
  dp_session_id :: ustring
  dp_kind :: agent_event_kind
  dp_purpose :: ustring
  dp_presentation :: presentation
  dp_level :: level
  dp_priority :: priority
  dp_title :: ustring
  dp_body :: ustring
  dp_tool_name :: "ustring option"

definition colon :: nat where "colon = 0x3a"

definition provider_ingress :: "ingress_error + 'a \<Rightarrow> 'j provider_error + 'a" where
  "provider_ingress r = map_sum ProviderIngress id r"

definition source_with_session ::
  "provider \<Rightarrow> ustring \<Rightarrow> source_context option \<Rightarrow> ingress_error + source_context option" where
  "source_with_session p session source =
     (case source of
        None \<Rightarrow> Inr None
      | Some c \<Rightarrow> map_sum id Some (with_provider_session p session c))"

definition make_draft :: "draft_parts \<Rightarrow> source_context option \<Rightarrow> 'j provider_error + notification_draft" where
  "make_draft parts source =
     bind_sum (provider_ingress (source_with_session (dp_provider parts) (dp_session_id parts) source)) (\<lambda>source'.
     bind_sum (provider_ingress (notification_key_new
         (dp_provider_name parts @ [colon] @ dp_session_id parts @ [colon] @ dp_purpose parts))) (\<lambda>key.
     bind_sum (provider_ingress (case dp_tool_name parts of
         Some tool \<Rightarrow> with_tool_name tool (metadata_new (Some (dp_kind parts)))
       | None \<Rightarrow> Inr (metadata_new (Some (dp_kind parts))))) (\<lambda>metadata.
     bind_sum (provider_ingress (notification_draft_new (dp_presentation parts) (dp_title parts) (dp_body parts) source')) (\<lambda>d.
       Inr (draft_with_metadata metadata (draft_with_priority (dp_priority parts)
         (draft_with_level (dp_level parts) (draft_with_key key d))))))))"

section \<open>Provider inputs\<close>

record common_input =
  ci_session_id :: ustring
  ci_hook_event_name :: ustring

record permission_input =
  pi_session_id :: ustring
  pi_tool_name :: ustring

record notification_input =
  ni_session_id :: ustring
  ni_notification_type :: ustring
  ni_message :: ustring
  ni_title :: "ustring option"

record stop_input =
  si_session_id :: ustring
  si_last_message :: "ustring option"

record failure_input =
  fi_session_id :: ustring
  fi_error :: ustring
  fi_last_message :: "ustring option"

record subagent_input =
  ui_session_id :: ustring
  ui_agent_type :: ustring
  ui_last_message :: "ustring option"

text \<open>The derived readers, over the bytes of the input.\<close>

record 'j provider_readers =
  read_common :: "8 word list \<Rightarrow> 'j + common_input"
  read_permission :: "8 word list \<Rightarrow> 'j + permission_input"
  read_notification :: "8 word list \<Rightarrow> 'j + notification_input"
  read_stop :: "8 word list \<Rightarrow> 'j + stop_input"
  read_failure :: "8 word list \<Rightarrow> 'j + failure_input"
  read_subagent :: "8 word list \<Rightarrow> 'j + subagent_input"
  read_tool :: "8 word list \<Rightarrow> 'j + permission_input"

definition provider_json :: "'j + 'a \<Rightarrow> 'j provider_error + 'a" where
  "provider_json r = map_sum ProviderJson id r"

type_synonym 'j draft_result = "'j provider_error + notification_draft option"

text \<open>The event is read first, then the policy decides: an unreadable event is an error either way.\<close>

definition when_enabled :: "hook_policy \<Rightarrow> agent_event_kind \<Rightarrow> 'j provider_error + notification_draft \<Rightarrow> 'j draft_result" where
  "when_enabled policy kind r = (if \<not> is_enabled policy kind then Inr None else map_sum id Some r)"

definition or_text :: "ustring option \<Rightarrow> ustring \<Rightarrow> ustring" where
  "or_text x fallback = (case x of Some s \<Rightarrow> s | None \<Rightarrow> fallback)"

section \<open>Claude\<close>

definition claude_parts ::
  "ustring \<Rightarrow> agent_event_kind \<Rightarrow> string \<Rightarrow> presentation \<Rightarrow> level \<Rightarrow> priority \<Rightarrow> ustring \<Rightarrow> ustring \<Rightarrow> ustring option \<Rightarrow> draft_parts" where
  "claude_parts session kind purpose presentation level priority title body tool =
     \<lparr>dp_provider = Claude, dp_provider_name = ustr ''claude'', dp_session_id = session, dp_kind = kind,
      dp_purpose = ustr purpose, dp_presentation = presentation, dp_level = level, dp_priority = priority,
      dp_title = title, dp_body = body, dp_tool_name = tool\<rparr>"

definition claude_permission ::
  "'j provider_readers \<Rightarrow> 8 word list \<Rightarrow> hook_policy \<Rightarrow> source_context option \<Rightarrow> 'j draft_result" where
  "claude_permission rd input policy source =
     bind_sum (provider_json (read_permission rd input)) (\<lambda>e.
       when_enabled policy agent_event_kind.NeedsAttention (make_draft
         (claude_parts (pi_session_id e) agent_event_kind.NeedsAttention ''attention'' Attention Warning High
           (ustr ''Claude Code needs attention'') (ustr ''Permission requested for '' @ pi_tool_name e)
           (Some (pi_tool_name e))) source))"

definition claude_notification ::
  "'j provider_readers \<Rightarrow> 8 word list \<Rightarrow> hook_policy \<Rightarrow> source_context option \<Rightarrow> 'j draft_result" where
  "claude_notification rd input policy source =
     bind_sum (provider_json (read_notification rd input)) (\<lambda>e.
       if ni_notification_type e \<noteq> ustr ''agent_needs_input'' then Inr None
       else when_enabled policy agent_event_kind.NeedsAttention (make_draft
         (claude_parts (ni_session_id e) agent_event_kind.NeedsAttention ''attention'' Attention Warning High
           (or_text (ni_title e) (ustr ''Claude Code needs input'')) (ni_message e) None) source))"

definition claude_stop ::
  "'j provider_readers \<Rightarrow> 8 word list \<Rightarrow> hook_policy \<Rightarrow> source_context option \<Rightarrow> 'j draft_result" where
  "claude_stop rd input policy source =
     bind_sum (provider_json (read_stop rd input)) (\<lambda>e.
       when_enabled policy agent_event_kind.Completed (make_draft
         (claude_parts (si_session_id e) agent_event_kind.Completed ''completed'' Toast Success priority.Normal
           (ustr ''Claude Code'') (or_text (si_last_message e) (ustr ''Completed'')) None) source))"

definition claude_failure ::
  "'j provider_readers \<Rightarrow> 8 word list \<Rightarrow> hook_policy \<Rightarrow> source_context option \<Rightarrow> 'j draft_result" where
  "claude_failure rd input policy source =
     bind_sum (provider_json (read_failure rd input)) (\<lambda>e.
       when_enabled policy agent_event_kind.Failed (make_draft
         (claude_parts (fi_session_id e) agent_event_kind.Failed ''failed'' Toast Error High
           (ustr ''Claude Code failed'') (or_text (fi_last_message e) (fi_error e)) None) source))"

definition claude_subagent ::
  "'j provider_readers \<Rightarrow> 8 word list \<Rightarrow> hook_policy \<Rightarrow> source_context option \<Rightarrow> 'j draft_result" where
  "claude_subagent rd input policy source =
     bind_sum (provider_json (read_subagent rd input)) (\<lambda>e.
       when_enabled policy agent_event_kind.SubagentCompleted (make_draft
         (claude_parts (ui_session_id e) agent_event_kind.SubagentCompleted ''subagent-completed'' Toast Success priority.Normal
           (ustr ''Claude '' @ ui_agent_type e) (or_text (ui_last_message e) (ustr ''Subagent completed'')) None) source))"

text \<open>What a tool event says; other kinds have none.\<close>

definition tool_texts :: "agent_event_kind \<Rightarrow> (string \<times> ustring) option" where
  "tool_texts kind =
     (case kind of
        agent_event_kind.ToolStarted \<Rightarrow> Some (''tool-started'', ustr ''Tool started'')
      | agent_event_kind.ToolCompleted \<Rightarrow> Some (''tool-completed'', ustr ''Tool completed'')
      | _ \<Rightarrow> None)"

definition claude_tool ::
  "'j provider_readers \<Rightarrow> 8 word list \<Rightarrow> hook_policy \<Rightarrow> source_context option \<Rightarrow> agent_event_kind \<Rightarrow> 'j draft_result" where
  "claude_tool rd input policy source kind =
     bind_sum (provider_json (read_tool rd input)) (\<lambda>e.
       when_enabled policy kind
         (case tool_texts kind of
            None \<Rightarrow> Inl ProviderInvalidInput
          | Some (purpose, body) \<Rightarrow> make_draft
              (claude_parts (pi_session_id e) kind purpose Toast Info Low (ustr ''Claude Code'') body
                (Some (pi_tool_name e))) source))"

definition claude_simple ::
  "ustring \<Rightarrow> agent_event_kind \<Rightarrow> string \<Rightarrow> ustring \<Rightarrow> hook_policy \<Rightarrow> source_context option \<Rightarrow> 'j draft_result" where
  "claude_simple session kind purpose body policy source =
     when_enabled policy kind (make_draft
       (claude_parts session kind purpose Toast Info Low (ustr ''Claude Code'') body None) source)"

definition claude_normalize ::
  "'j provider_readers \<Rightarrow> 8 word list \<Rightarrow> hook_policy \<Rightarrow> source_context option \<Rightarrow> 'j draft_result" where
  "claude_normalize rd input policy source =
     bind_sum (provider_json (read_common rd input)) (\<lambda>common.
       let name = ci_hook_event_name common in
       if name = ustr ''PermissionRequest'' then claude_permission rd input policy source
       else if name = ustr ''Notification'' then claude_notification rd input policy source
       else if name = ustr ''Stop'' then claude_stop rd input policy source
       else if name = ustr ''StopFailure'' then claude_failure rd input policy source
       else if name = ustr ''SubagentStop'' then claude_subagent rd input policy source
       else if name = ustr ''SessionStart'' then
         claude_simple (ci_session_id common) agent_event_kind.Started ''started'' (ustr ''Claude Code started'') policy source
       else if name = ustr ''PreToolUse'' then claude_tool rd input policy source agent_event_kind.ToolStarted
       else if name = ustr ''PostToolUse'' then claude_tool rd input policy source agent_event_kind.ToolCompleted
       else Inr None)"

section \<open>Codex\<close>

definition codex_parts ::
  "ustring \<Rightarrow> agent_event_kind \<Rightarrow> string \<Rightarrow> presentation \<Rightarrow> level \<Rightarrow> priority \<Rightarrow> ustring \<Rightarrow> ustring \<Rightarrow> ustring option \<Rightarrow> draft_parts" where
  "codex_parts session kind purpose presentation level priority title body tool =
     \<lparr>dp_provider = Codex, dp_provider_name = ustr ''codex'', dp_session_id = session, dp_kind = kind,
      dp_purpose = ustr purpose, dp_presentation = presentation, dp_level = level, dp_priority = priority,
      dp_title = title, dp_body = body, dp_tool_name = tool\<rparr>"

definition codex_permission ::
  "'j provider_readers \<Rightarrow> 8 word list \<Rightarrow> hook_policy \<Rightarrow> source_context option \<Rightarrow> 'j draft_result" where
  "codex_permission rd input policy source =
     bind_sum (provider_json (read_tool rd input)) (\<lambda>e.
       when_enabled policy agent_event_kind.NeedsAttention (make_draft
         (codex_parts (pi_session_id e) agent_event_kind.NeedsAttention ''attention'' Attention Warning High
           (ustr ''Codex needs attention'') (ustr ''Permission requested for '' @ pi_tool_name e)
           (Some (pi_tool_name e))) source))"

definition codex_stop ::
  "'j provider_readers \<Rightarrow> 8 word list \<Rightarrow> hook_policy \<Rightarrow> source_context option \<Rightarrow> 'j draft_result" where
  "codex_stop rd input policy source =
     bind_sum (provider_json (read_stop rd input)) (\<lambda>e.
       when_enabled policy agent_event_kind.Completed (make_draft
         (codex_parts (si_session_id e) agent_event_kind.Completed ''completed'' Toast Success priority.Normal
           (ustr ''Codex'') (or_text (si_last_message e) (ustr ''Completed'')) None) source))"

definition codex_subagent ::
  "'j provider_readers \<Rightarrow> 8 word list \<Rightarrow> hook_policy \<Rightarrow> source_context option \<Rightarrow> 'j draft_result" where
  "codex_subagent rd input policy source =
     bind_sum (provider_json (read_subagent rd input)) (\<lambda>e.
       when_enabled policy agent_event_kind.SubagentCompleted (make_draft
         (codex_parts (ui_session_id e) agent_event_kind.SubagentCompleted ''subagent-completed'' Toast Success priority.Normal
           (ustr ''Codex '' @ ui_agent_type e) (or_text (ui_last_message e) (ustr ''Subagent completed'')) None) source))"

definition codex_tool ::
  "'j provider_readers \<Rightarrow> 8 word list \<Rightarrow> hook_policy \<Rightarrow> source_context option \<Rightarrow> agent_event_kind \<Rightarrow> 'j draft_result" where
  "codex_tool rd input policy source kind =
     bind_sum (provider_json (read_tool rd input)) (\<lambda>e.
       when_enabled policy kind
         (case tool_texts kind of
            None \<Rightarrow> Inl ProviderInvalidInput
          | Some (purpose, body) \<Rightarrow> make_draft
              (codex_parts (pi_session_id e) kind purpose Toast Info Low (ustr ''Codex'') body
                (Some (pi_tool_name e))) source))"

definition codex_simple ::
  "ustring \<Rightarrow> agent_event_kind \<Rightarrow> string \<Rightarrow> ustring \<Rightarrow> hook_policy \<Rightarrow> source_context option \<Rightarrow> 'j draft_result" where
  "codex_simple session kind purpose body policy source =
     when_enabled policy kind (make_draft
       (codex_parts session kind purpose Toast Info Low (ustr ''Codex'') body None) source)"

definition codex_normalize ::
  "'j provider_readers \<Rightarrow> 8 word list \<Rightarrow> hook_policy \<Rightarrow> source_context option \<Rightarrow> 'j draft_result" where
  "codex_normalize rd input policy source =
     bind_sum (provider_json (read_common rd input)) (\<lambda>common.
       let name = ci_hook_event_name common in
       if name = ustr ''PermissionRequest'' then codex_permission rd input policy source
       else if name = ustr ''Stop'' then codex_stop rd input policy source
       else if name = ustr ''SubagentStop'' then codex_subagent rd input policy source
       else if name = ustr ''Interrupt'' then
         codex_simple (ci_session_id common) agent_event_kind.Interrupted ''interrupted''
           (ustr ''Codex was interrupted'') policy source
       else if name = ustr ''SessionStart'' then
         codex_simple (ci_session_id common) agent_event_kind.Started ''started'' (ustr ''Codex started'') policy source
       else if name = ustr ''PreToolUse'' then codex_tool rd input policy source agent_event_kind.ToolStarted
       else if name = ustr ''PostToolUse'' then codex_tool rd input policy source agent_event_kind.ToolCompleted
       else Inr None)"

section \<open>Normalization and the hook receiver\<close>

text \<open>The two adapters have readers of their own, since their structs differ.\<close>

definition provider_normalize ::
  "(provider \<Rightarrow> 'j provider_readers) \<Rightarrow> provider \<Rightarrow> 8 word list \<Rightarrow> hook_policy \<Rightarrow> source_context option \<Rightarrow> 'j draft_result" where
  "provider_normalize readers p input policy source =
     (if length input > MAX_PROVIDER_INPUT_BYTES then Inl (ProviderInputTooLarge MAX_PROVIDER_INPUT_BYTES)
      else case p of
        Claude \<Rightarrow> claude_normalize (readers Claude) input policy source
      | Codex \<Rightarrow> codex_normalize (readers Codex) input policy source)"

definition HOOK_ACK_TIMEOUT_MS :: nat where "HOOK_ACK_TIMEOUT_MS = 2000"

datatype hook_log_event = HookInputRejected | HookSubmissionFailed

text \<open>What the receiver does to the world, in order: a submission with its acknowledgement timeout, and
  a line of the private log.\<close>

datatype hook_effect = Submitted notification_draft nat | Logged hook_log_event

definition log_hook_failure :: "bool \<Rightarrow> hook_log_event \<Rightarrow> hook_effect list" where
  "log_hook_failure logger event = (if logger then [Logged event] else [])"

text \<open>The input is what the stream delivers before it ends, and whether it ends in a read error.\<close>

record hook_input =
  hi_bytes :: "8 word list"
  hi_fails :: bool

definition read_hook_input :: "hook_input \<Rightarrow> 8 word list option" where
  "read_hook_input i =
     (let bytes = take (MAX_PROVIDER_INPUT_BYTES + 1) (hi_bytes i) in
      if length bytes \<le> MAX_PROVIDER_INPUT_BYTES \<and> hi_fails i then None else Some bytes)"

definition receive_hook_event ::
  "(provider \<Rightarrow> 'j provider_readers) \<Rightarrow> provider \<Rightarrow> hook_input \<Rightarrow> hook_policy \<Rightarrow> source_context option
     \<Rightarrow> (notification_draft \<Rightarrow> nat \<Rightarrow> 'e + unit) \<Rightarrow> bool \<Rightarrow> hook_effect list" where
  "receive_hook_event readers p input policy source submit_and_wait logger =
     (case read_hook_input input of
        None \<Rightarrow> log_hook_failure logger HookInputRejected
      | Some bytes \<Rightarrow>
          if length bytes > MAX_PROVIDER_INPUT_BYTES then log_hook_failure logger HookInputRejected
          else (case provider_normalize readers p bytes policy source of
             Inr (Some d) \<Rightarrow>
               Submitted d HOOK_ACK_TIMEOUT_MS #
               (case submit_and_wait d HOOK_ACK_TIMEOUT_MS of
                  Inl _ \<Rightarrow> log_hook_failure logger HookSubmissionFailed
                | Inr _ \<Rightarrow> [])
           | Inr None \<Rightarrow> []
           | Inl _ \<Rightarrow> log_hook_failure logger HookInputRejected))"

section \<open>What a normalized event is\<close>

text \<open>The parts the adapters build: the policy allows the kind, only a request for attention is shown
  as one, and tool kinds carry a tool.\<close>

definition parts_ok :: "provider \<Rightarrow> hook_policy \<Rightarrow> draft_parts \<Rightarrow> bool" where
  "parts_ok p policy parts \<longleftrightarrow>
     dp_provider parts = p \<and> is_enabled policy (dp_kind parts)
     \<and> (dp_presentation parts = Attention \<longleftrightarrow> dp_kind parts = agent_event_kind.NeedsAttention)
     \<and> (dp_kind parts \<in> {agent_event_kind.ToolStarted, agent_event_kind.ToolCompleted} \<longrightarrow> dp_tool_name parts \<noteq> None)"

definition built_from :: "provider \<Rightarrow> hook_policy \<Rightarrow> source_context option \<Rightarrow> 'j draft_result \<Rightarrow> bool" where
  "built_from p policy source r \<longleftrightarrow>
     (\<forall>d. r = Inr (Some d) \<longrightarrow> (\<exists>parts. parts_ok p policy parts \<and> make_draft parts source = (Inr d :: 'j provider_error + _)))"

lemma map_sum_Inr: "map_sum f g r = Inr y \<longleftrightarrow> (\<exists>x. r = Inr x \<and> y = g x)"
  by (cases r) auto

lemma built_from_when_enabled:
  assumes "is_enabled policy kind \<Longrightarrow> parts_ok p policy parts"
  shows "built_from p policy source (when_enabled policy kind (make_draft parts source))"
  using assms by (auto simp: built_from_def when_enabled_def map_sum_Inr)

lemma built_from_None [simp]: "built_from p policy source (Inr None)"
  by (simp add: built_from_def)

lemma built_from_Inl [simp]: "built_from p policy source (Inl e)"
  by (simp add: built_from_def)

lemma built_from_bind:
  "(\<And>e. built_from p policy source (f e)) \<Longrightarrow> built_from p policy source (bind_sum (provider_json r) f)"
  by (cases r) (simp_all add: provider_json_def)

lemma claude_built:
  "built_from Claude policy source (claude_permission rd input policy source)"
  "built_from Claude policy source (claude_notification rd input policy source)"
  "built_from Claude policy source (claude_stop rd input policy source)"
  "built_from Claude policy source (claude_failure rd input policy source)"
  "built_from Claude policy source (claude_subagent rd input policy source)"
  unfolding claude_permission_def claude_notification_def claude_stop_def claude_failure_def claude_subagent_def
  by (auto intro!: built_from_bind built_from_when_enabled simp: parts_ok_def claude_parts_def)

lemma codex_built:
  "built_from Codex policy source (codex_permission rd input policy source)"
  "built_from Codex policy source (codex_stop rd input policy source)"
  "built_from Codex policy source (codex_subagent rd input policy source)"
  unfolding codex_permission_def codex_stop_def codex_subagent_def
  by (auto intro!: built_from_bind built_from_when_enabled simp: parts_ok_def codex_parts_def)

lemma tool_texts_none:
  "tool_texts kind = None \<longleftrightarrow> kind \<notin> {agent_event_kind.ToolStarted, agent_event_kind.ToolCompleted}"
  by (cases kind) (simp_all add: tool_texts_def)

lemma tool_built:
  assumes "kind \<in> {agent_event_kind.ToolStarted, agent_event_kind.ToolCompleted}"
  shows "built_from Claude policy source (claude_tool rd input policy source kind)"
    and "built_from Codex policy source (codex_tool rd input policy source kind)"
  unfolding claude_tool_def codex_tool_def using assms
  by (auto intro!: built_from_bind built_from_when_enabled simp: tool_texts_def parts_ok_def claude_parts_def codex_parts_def)

lemma simple_built:
  assumes "kind \<notin> {agent_event_kind.NeedsAttention, agent_event_kind.ToolStarted, agent_event_kind.ToolCompleted}"
  shows "built_from Claude policy source (claude_simple session kind purpose body policy source)"
    and "built_from Codex policy source (codex_simple session kind purpose body policy source)"
  unfolding claude_simple_def codex_simple_def using assms
  by (auto intro!: built_from_when_enabled simp: parts_ok_def claude_parts_def codex_parts_def)

lemma claude_normalize_built: "built_from Claude policy source (claude_normalize rd input policy source)"
  unfolding claude_normalize_def Let_def
  by (intro built_from_bind) (simp add: claude_built tool_built simple_built)

lemma codex_normalize_built: "built_from Codex policy source (codex_normalize rd input policy source)"
  unfolding codex_normalize_def Let_def
  by (intro built_from_bind) (simp add: codex_built tool_built simple_built)

lemma provider_normalize_built:
  assumes "provider_normalize readers p input policy source = (Inr (Some d) :: 'j draft_result)"
  shows "length input \<le> MAX_PROVIDER_INPUT_BYTES
    \<and> (\<exists>parts. parts_ok p policy parts \<and> make_draft parts source = (Inr d :: 'j provider_error + _))"
  using assms claude_normalize_built [of policy source "readers Claude" input]
    codex_normalize_built [of policy source "readers Codex" input]
  by (cases p) (auto simp: provider_normalize_def built_from_def split: if_splits)

lemma make_draft_Inr:
  assumes "make_draft parts source = (Inr d :: 'j provider_error + _)"
  shows "d_level d = dp_level parts" "d_priority d = dp_priority parts"
    "d_presentation d = dp_presentation parts" "d_overrides d = overrides_default"
    "md_agent_event_kind (d_metadata d) = Some (dp_kind parts)"
    "md_tool_name (d_metadata d) = None \<longleftrightarrow> dp_tool_name parts = None"
    "d_key d \<noteq> None"
    "d_source d = None \<longleftrightarrow> source = None"
    "\<forall>c. d_source d = Some c \<longrightarrow> src_provider c = Some (dp_provider parts)"
  using assms
  by (auto simp: make_draft_def provider_ingress_def source_with_session_def with_provider_session_def
      notification_draft_new_def draft_with_metadata_def draft_with_priority_def draft_with_level_def
      draft_with_key_def with_tool_name_def metadata_new_def split: sum.splits option.splits if_splits)

lemma make_draft_wf:
  assumes made: "make_draft parts source = (Inr d :: 'j provider_error + _)" and source: "pred_option wf_source source"
  shows "wf_draft d"
proof -
  obtain source' key md d0 where s: "source_with_session (dp_provider parts) (dp_session_id parts) source = Inr source'"
    and k: "notification_key_new (dp_provider_name parts @ [colon] @ dp_session_id parts @ [colon] @ dp_purpose parts) = Inr key"
    and m: "(case dp_tool_name parts of Some tool \<Rightarrow> with_tool_name tool (metadata_new (Some (dp_kind parts)))
       | None \<Rightarrow> Inr (metadata_new (Some (dp_kind parts)))) = Inr md"
    and d0: "notification_draft_new (dp_presentation parts) (dp_title parts) (dp_body parts) source' = Inr d0"
    and d: "d = draft_with_metadata md (draft_with_priority (dp_priority parts)
        (draft_with_level (dp_level parts) (draft_with_key key d0)))"
    using made unfolding make_draft_def provider_ingress_def by (auto simp: map_sum_Inr split: sum.splits)
  have "pred_option wf_source source'"
    using s source by (auto simp: source_with_session_def map_sum_Inr dest: with_provider_session_wf split: option.splits sum.splits)
  then have "wf_draft d0" by (rule notification_draft_new_wf [OF d0])
  moreover have "wf_metadata md" using m by (auto dest: with_tool_name_wf split: option.splits)
  moreover have "wf_key key" using k by (rule notification_key_new_wf)
  ultimately show ?thesis unfolding d by (intro draft_with_wf)
qed

section \<open>The policy and the receiver\<close>

text \<open>A preset includes every kind of the presets below it.\<close>

lemma presets_grow:
  "set (preset_events Minimal) \<subseteq> set (preset_events hook_preset.Normal)"
  "set (preset_events hook_preset.Normal) \<subseteq> set (preset_events Verbose)"
  by auto

lemma event_kind_inj: "inj event_kind"
proof (rule injI)
  fix x y show "event_kind x = event_kind y \<Longrightarrow> x = y" by (cases x; cases y) simp_all
qed

lemma is_enabled_policy_from:
  "is_enabled (policy_from c) (event_kind e)
     \<longleftrightarrow> e \<notin> set (hp_disable c) \<and> (e \<in> set (hp_enable c) \<or> event_kind e \<in> set (preset_events (hp_preset c)))"
  using event_kind_inj
  by (auto simp: is_enabled_def policy_from_def with_disabled_def with_enabled_def hook_policy_new_def inj_image_mem_iff)

definition submissions :: "hook_effect list \<Rightarrow> notification_draft list" where
  "submissions es = concat (map (\<lambda>x. case x of Submitted d t \<Rightarrow> [d] | Logged l \<Rightarrow> []) es)"

lemma submissions_log [simp]: "submissions (log_hook_failure logger event) = []"
  by (simp add: submissions_def log_hook_failure_def)

lemma submissions_Submitted [simp]: "submissions (Submitted d t # es) = d # submissions es"
  by (simp add: submissions_def)

lemma submissions_Nil [simp]: "submissions [] = []"
  by (simp add: submissions_def)

lemma receive_submits:
  "submissions (receive_hook_event readers p input policy source submit_and_wait logger) =
     (case read_hook_input input of
        None \<Rightarrow> []
      | Some bytes \<Rightarrow> (case provider_normalize readers p bytes policy source of Inr (Some d) \<Rightarrow> [d] | _ \<Rightarrow> []))"
  by (auto simp: receive_hook_event_def provider_normalize_def split: option.splits sum.splits)

lemma receive_member:
  "d \<in> set (submissions (receive_hook_event readers p input policy source submit_and_wait logger))
     \<longleftrightarrow> (\<exists>bytes. read_hook_input input = Some bytes
          \<and> provider_normalize readers p bytes policy source = Inr (Some d))"
proof (cases "read_hook_input input")
  case (Some bytes)
  then show ?thesis
    by (cases "provider_normalize readers p bytes policy source") (auto simp: receive_submits split: option.splits)
qed (simp add: receive_submits)

text \<open>A receiver says at most two things: its submission, and one line of the private log.\<close>

lemma receive_length: "length (receive_hook_event readers p input policy source submit_and_wait logger) \<le> 2"
  by (auto simp: receive_hook_event_def log_hook_failure_def split: option.splits sum.splits)


definition demo_readers :: "provider \<Rightarrow> unit provider_readers" where
  "demo_readers p =
     \<lparr>read_common = \<lambda>_. Inr \<lparr>ci_session_id = ustr ''s1'', ci_hook_event_name = ustr ''PreToolUse''\<rparr>,
      read_permission = \<lambda>_. Inl (), read_notification = \<lambda>_. Inl (), read_stop = \<lambda>_. Inl (),
      read_failure = \<lambda>_. Inl (), read_subagent = \<lambda>_. Inl (),
      read_tool = \<lambda>_. Inr \<lparr>pi_session_id = ustr ''s1'', pi_tool_name = ustr ''Bash''\<rparr>\<rparr>"

definition demo_hook_config :: hook_provider_config where
  "demo_hook_config = \<lparr>hp_preset = Minimal, hp_enable = [hook_event.ToolStarted], hp_disable = []\<rparr>"

definition demo_tool_draft :: notification_draft where
  "demo_tool_draft =
     \<lparr>d_key = Some (NotificationKey (ustr ''codex:s1:tool-started'')), d_level = Info, d_priority = Low,
      d_presentation = Toast, d_title = ustr ''Codex'', d_body = ustr ''Tool started'',
      d_timeout = After (from_secs 3), d_source = None, d_overrides = overrides_default,
      d_metadata = \<lparr>md_agent_event_kind = Some agent_event_kind.ToolStarted, md_agent_name = None,
        md_tool_name = Some (ustr ''Bash'')\<rparr>\<rparr>"

lemma read_hook_input_short: "length (hi_bytes i) \<le> 2 \<Longrightarrow> \<not> hi_fails i \<Longrightarrow> read_hook_input i = Some (hi_bytes i)"
  by (simp add: read_hook_input_def MAX_PROVIDER_INPUT_BYTES_def)

lemma demo_texts:
  "bounded_text MAX_KEY_BYTES (ustr ''codex:s1:tool-started'')" "bounded_text MAX_TITLE_BYTES (ustr ''Codex'')"
  "bounded_text MAX_BODY_BYTES (ustr ''Tool started'')" "bounded_text MAX_METADATA_VALUE_BYTES (ustr ''Bash'')"
  by (simp_all add: bounded_text_def limit_defs terminal_safe_def is_display_control_def is_control_def char_len_def)

lemma demo_draft:
  "make_draft (codex_parts (ustr ''s1'') agent_event_kind.ToolStarted ''tool-started'' Toast Info Low (ustr ''Codex'')
     (ustr ''Tool started'') (Some (ustr ''Bash''))) None = Inr demo_tool_draft"
proof -
  have "ustr ''codex'' @ [colon] @ ustr ''s1'' @ [colon] @ ustr ''tool-started'' = ustr ''codex:s1:tool-started''"
    by (simp add: colon_def)
  moreover have "ustr ''codex:s1:tool-started'' \<noteq> []" "ustr ''Bash'' \<noteq> []" by simp_all
  ultimately show ?thesis using demo_texts
    by (simp only: make_draft_def codex_parts_def draft_parts.select_convs source_with_session_def option.case
        notification_key_new_def normalize_required_stored with_tool_name_def notification_draft_new_def
        normalize_bounded_stored sum.case provider_ingress_def map_sum.simps id_apply simp_thms if_False presentation.distinct)
      (simp add: demo_tool_draft_def draft_with_metadata_def draft_with_priority_def draft_with_level_def
        draft_with_key_def metadata_new_def)
qed

lemma demo_normalize:
  "provider_normalize demo_readers Codex [0x7b, 0x7d] (policy_from demo_hook_config) None = Inr (Some demo_tool_draft)"
proof -
  have "is_enabled (policy_from demo_hook_config) agent_event_kind.ToolStarted"
    by (simp add: is_enabled_def policy_from_def demo_hook_config_def with_disabled_def with_enabled_def hook_policy_new_def)
  then show ?thesis
    by (simp add: provider_normalize_def MAX_PROVIDER_INPUT_BYTES_def codex_normalize_def demo_readers_def
        provider_json_def codex_tool_def tool_texts_def when_enabled_def demo_draft [simplified])
qed

lemma demo_submission:
  "submissions (receive_hook_event demo_readers Codex \<lparr>hi_bytes = [0x7b, 0x7d], hi_fails = False\<rparr>
     (policy_from demo_hook_config) None (\<lambda>_ _. Inr ()) True) = [demo_tool_draft]"
  unfolding receive_submits by (simp add: read_hook_input_short demo_normalize)


end
