(* ===== verification/Hook_Documents.thy ===== *)
theory Hook_Documents
  imports Providers Std_Text Ordered_Map
begin

text \<open>
  The provider configuration documents of \<open>src/hooks.rs\<close>: JSON values as serde_json keeps them (with
  \<open>preserve_order\<close>: an object is an insertion-ordered list of entries and removal moves the last entry into
  the gap), the recognition of the handlers tmnotify owns, their removal and their installation.
\<close>

section \<open>JSON values\<close>

datatype json =
    JNull
  | JBool bool
  | JNum ustring
  | JStr ustring
  | JArr "json list"
  | JObj "(ustring \<times> json) list"

type_synonym json_object = "(ustring \<times> json) list"

fun as_text :: "json \<Rightarrow> ustring option" where
  "as_text (JStr s) = Some s"
| "as_text _ = None"

fun as_array :: "json \<Rightarrow> json list option" where
  "as_array (JArr xs) = Some xs"
| "as_array _ = None"

fun as_object :: "json \<Rightarrow> json_object option" where
  "as_object (JObj o1) = Some o1"
| "as_object _ = None"

definition json_get :: "json \<Rightarrow> ustring \<Rightarrow> json option" where
  "json_get v key = Option.bind (as_object v) (\<lambda>entries. map_of entries key)"

fun obj_set :: "ustring \<Rightarrow> json \<Rightarrow> json_object \<Rightarrow> json_object" where
  "obj_set key v [] = [(key, v)]"
| "obj_set key v ((k, w) # entries) = (if k = key then (k, v) # entries else (k, w) # obj_set key v entries)"

text \<open>\<open>Map::remove\<close>: the last entry takes the place of the removed one.\<close>

fun obj_remove :: "ustring \<Rightarrow> json_object \<Rightarrow> json_object" where
  "obj_remove key [] = []"
| "obj_remove key ((k, w) # entries) =
     (if k = key then (if entries = [] then [] else last entries # butlast entries)
      else (k, w) # obj_remove key entries)"

section \<open>Paths\<close>

text \<open>A path is text, or bytes that are not UTF-8.\<close>

datatype os_path = TextPath ustring | RawPath "byte list"

fun path_units :: "os_path \<Rightarrow> nat list" where
  "path_units (TextPath s) = s"
| "path_units (RawPath bs) = map unat bs"

fun path_text :: "os_path \<Rightarrow> ustring option" where
  "path_text (TextPath s) = Some s"
| "path_text (RawPath bs) = None"

definition slash :: nat where "slash = 0x2f"

definition is_absolute :: "nat list \<Rightarrow> bool" where
  "is_absolute s = starts_with [slash] s"

text \<open>\<open>Path::components\<close>: the root, a leading \<open>.\<close> of a relative path, and the names, without the empty and
  the other \<open>.\<close> ones. A name has no slash, so the root is told from it.\<close>

definition path_components :: "nat list \<Rightarrow> nat list list" where
  "path_components s =
     (let parts = split_on slash s in
      (if is_absolute s then [[slash]] else if hd parts = ustr ''.'' then [ustr ''.''] else [])
      @ filter (\<lambda>c. c \<noteq> [] \<and> c \<noteq> ustr ''.'') parts)"

text \<open>\<open>Path::file_name\<close>: the last component, when it is a name.\<close>

definition last_name :: "nat list list \<Rightarrow> nat list option" where
  "last_name components =
     (if components = [] \<or> last components \<in> {[slash], ustr ''.'', ustr ''..''} then None else Some (last components))"

definition path_file_name :: "nat list \<Rightarrow> nat list option" where
  "path_file_name s = last_name (path_components s)"

fun path_eq :: "os_path \<Rightarrow> os_path \<Rightarrow> bool" where
  "path_eq (TextPath a) (TextPath b) = (path_components a = path_components b)"
| "path_eq (RawPath a) (RawPath b) = (path_components (map unat a) = path_components (map unat b))"
| "path_eq _ _ = False"

text \<open>What a path must be to name the program.\<close>

definition names_tmnotify :: "nat list \<Rightarrow> bool" where
  "names_tmnotify s \<longleftrightarrow> is_absolute s \<and> path_file_name s = Some (ustr ''tmnotify'')"

section \<open>Commands\<close>

definition quote_char :: nat where "quote_char = 0x27"

definition quote_escape :: ustring where "quote_escape = [0x27, 0x22, 0x27, 0x22, 0x27]"

definition shell_quote :: "ustring \<Rightarrow> ustring" where
  "shell_quote value =
     [quote_char] @ concat (map (\<lambda>c. if c = quote_char then quote_escape else [c]) value) @ [quote_char]"

text \<open>The first place of the escape, if any: the text before and after it.\<close>

fun find_escape :: "ustring \<Rightarrow> (ustring \<times> ustring) option" where
  "find_escape [] = None"
| "find_escape (c # s) =
     (case strip_prefix quote_escape (c # s) of
        Some rest \<Rightarrow> Some ([], rest)
      | None \<Rightarrow> map_option (\<lambda>(before, rest). (c # before, rest)) (find_escape s))"

lemma strip_prefix_length: "strip_prefix p s = Some rest \<Longrightarrow> length s = length p + length rest"
  by (simp add: strip_prefix_Some)

lemma find_escape_length: "find_escape s = Some (before, rest) \<Longrightarrow> length rest < length s"
  by (induction s arbitrary: before rest)
    (fastforce dest: strip_prefix_length simp: quote_escape_def split: option.splits)+

function decode_escapes :: "ustring \<Rightarrow> ustring option" where
  "decode_escapes remaining =
     (case find_escape remaining of
        Some (before, rest) \<Rightarrow> map_option (\<lambda>output. before @ [quote_char] @ output) (decode_escapes rest)
      | None \<Rightarrow> if quote_char \<in> set remaining then None else Some remaining)"
  by auto
termination by (relation "measure length") (auto dest: find_escape_length)

declare decode_escapes.simps [simp del]

text \<open>The outer \<open>None\<close> is the panic of the slice \<open>value[1..len - 1]\<close> for a word of one quote.\<close>

definition decode_single_quoted_word :: "ustring \<Rightarrow> ustring option option" where
  "decode_single_quoted_word value =
     (if \<not> starts_with [quote_char] value \<or> last value \<noteq> quote_char then Some None
      else if length value < 2 then None
      else Some (decode_escapes (butlast (tl value))))"

definition codex_suffix :: ustring where "codex_suffix = ustr '' __hook-event codex''"

definition plain_path_char :: "nat \<Rightarrow> bool" where
  "plain_path_char c \<longleftrightarrow> (0x30 \<le> c \<and> c \<le> 0x39) \<or> (0x41 \<le> c \<and> c \<le> 0x5a) \<or> (0x61 \<le> c \<and> c \<le> 0x7a)
     \<or> c \<in> {0x2f, 0x2e, 0x5f, 0x2d, 0x2b}"

definition parse_codex_command :: "ustring \<Rightarrow> ustring option option" where
  "parse_codex_command command =
     (case strip_suffix codex_suffix command of
        None \<Rightarrow> Some None
      | Some prefix \<Rightarrow>
          if starts_with [quote_char] prefix then decode_single_quoted_word prefix
          else if prefix \<noteq> [] \<and> list_all plain_path_char prefix then Some (Some prefix)
          else Some None)"

section \<open>Handlers\<close>

definition key_hooks :: ustring where "key_hooks = ustr ''hooks''"
definition key_matcher :: ustring where "key_matcher = ustr ''matcher''"
definition key_type :: ustring where "key_type = ustr ''type''"
definition key_command :: ustring where "key_command = ustr ''command''"
definition key_args :: ustring where "key_args = ustr ''args''"

definition hook_event_arg :: ustring where "hook_event_arg = ustr ''__hook-event''"

datatype hook_error =
    HomeUnavailable
  | InvalidExecutable os_path
  | NonUtf8Executable os_path
  | UnsupportedScope
  | MixedCodexHooks
  | InvalidHooksShape
  | InvalidPath
  | TooLarge
  | SymbolicLink
  | RootNotObject
  | InvalidUtf8
  | HookJson
  | HookToml
  | HookSerialize
  | HookIo

text \<open>The program a handler runs when tmnotify owns the handler. The outer \<open>None\<close> is the panic above.\<close>

definition owned_claude :: "json_object \<Rightarrow> ustring \<Rightarrow> ustring option" where
  "owned_claude entries command =
     (case Option.bind (map_of entries key_args) as_array of
        None \<Rightarrow> None
      | Some args \<Rightarrow>
          if length args \<noteq> 2 \<or> as_text (args ! 0) \<noteq> Some hook_event_arg \<or> as_text (args ! 1) \<noteq> Some (ustr ''claude'')
          then None else Some command)"

definition owned_codex :: "json_object \<Rightarrow> ustring \<Rightarrow> ustring option option" where
  "owned_codex entries command =
     (if map_of entries key_args \<noteq> None then Some None else parse_codex_command command)"

definition owned_executable :: "provider \<Rightarrow> json \<Rightarrow> ustring option option" where
  "owned_executable p handler =
     (case as_object handler of None \<Rightarrow> Some None
      | Some entries \<Rightarrow>
          if Option.bind (map_of entries key_type) as_text \<noteq> Some key_command then Some None
          else (case Option.bind (map_of entries key_command) as_text of None \<Rightarrow> Some None
            | Some command \<Rightarrow>
                map_option (\<lambda>found. case found of
                    None \<Rightarrow> None
                  | Some executable \<Rightarrow> if names_tmnotify executable then Some executable else None)
                  (case p of Claude \<Rightarrow> Some (owned_claude entries command) | Codex \<Rightarrow> owned_codex entries command)))"

definition handler_value :: "provider \<Rightarrow> os_path \<Rightarrow> hook_error + json" where
  "handler_value p executable =
     (case path_text executable of
        None \<Rightarrow> Inl (NonUtf8Executable executable)
      | Some program \<Rightarrow> Inr (case p of
            Claude \<Rightarrow> JObj [(key_type, JStr key_command), (key_command, JStr program),
                            (key_args, JArr [JStr hook_event_arg, JStr (ustr ''claude'')])]
          | Codex \<Rightarrow> JObj [(key_type, JStr key_command),
                           (key_command, JStr (shell_quote program @ codex_suffix))]))"

definition required_matcher :: "provider \<Rightarrow> ustring \<Rightarrow> ustring option" where
  "required_matcher p event =
     (if p = Claude \<and> event = ustr ''Notification'' then Some (ustr ''agent_needs_input'') else None)"

definition group_matcher :: "json \<Rightarrow> ustring option" where
  "group_matcher g = Option.bind (json_get g key_matcher) as_text"

definition group_handlers :: "json \<Rightarrow> json list option" where
  "group_handlers g = Option.bind (json_get g key_hooks) as_array"

definition document_hooks :: "json \<Rightarrow> json_object option" where
  "document_hooks root = Option.bind (json_get root key_hooks) as_object"

fun or_empty :: "'a list option \<Rightarrow> 'a list" where
  "or_empty None = []"
| "or_empty (Some xs) = xs"

section \<open>Visiting and removing\<close>

type_synonym handler_record = "ustring \<times> ustring option \<times> json"

definition group_records :: "ustring \<Rightarrow> json \<Rightarrow> handler_record list" where
  "group_records event g =
     map (\<lambda>handler. (event, group_matcher g, handler)) (or_empty (group_handlers g))"

definition event_records :: "ustring \<times> json \<Rightarrow> handler_record list" where
  "event_records entry = concat (map (group_records (fst entry)) (or_empty (as_array (snd entry))))"

definition visit_handler_records :: "json \<Rightarrow> handler_record list" where
  "visit_handler_records root = concat (map event_records (or_empty (document_hooks root)))"

text \<open>\<open>any\<close> stops at the first owned handler, and does not look at those after it.\<close>

fun any_owned :: "provider \<Rightarrow> handler_record list \<Rightarrow> bool option" where
  "any_owned p [] = Some False"
| "any_owned p ((event, matcher, handler) # records) =
     (case owned_executable p handler of
        None \<Rightarrow> None
      | Some (Some _) \<Rightarrow> Some True
      | Some None \<Rightarrow> any_owned p records)"

definition contains_owned_handler :: "provider \<Rightarrow> json \<Rightarrow> bool option" where
  "contains_owned_handler p root = any_owned p (visit_handler_records root)"

type_synonym owned_record = "ustring \<times> ustring option \<times> ustring"

fun collect_owned :: "provider \<Rightarrow> handler_record list \<Rightarrow> owned_record list option" where
  "collect_owned p [] = Some []"
| "collect_owned p ((event, matcher, handler) # records) =
     (case owned_executable p handler of
        None \<Rightarrow> None
      | Some None \<Rightarrow> collect_owned p records
      | Some (Some program) \<Rightarrow> map_option ((#) (event, matcher, program)) (collect_owned p records))"

definition installation_is_in_sync :: "provider \<Rightarrow> os_path \<Rightarrow> ustring list \<Rightarrow> json \<Rightarrow> bool option" where
  "installation_is_in_sync p executable desired root =
     map_option (\<lambda>owned. length owned = length desired
         \<and> list_all (\<lambda>(event, matcher, program). path_eq (TextPath program) executable \<and> event \<in> set desired
              \<and> matcher = required_matcher p event) owned)
       (collect_owned p (visit_handler_records root))"

fun retain_foreign :: "provider \<Rightarrow> json list \<Rightarrow> json list option" where
  "retain_foreign p [] = Some []"
| "retain_foreign p (handler # handlers) =
     (case owned_executable p handler of
        None \<Rightarrow> None
      | Some None \<Rightarrow> map_option ((#) handler) (retain_foreign p handlers)
      | Some (Some _) \<Rightarrow> retain_foreign p handlers)"

definition strip_group :: "provider \<Rightarrow> json \<Rightarrow> json option" where
  "strip_group p g =
     (case as_object g of
        None \<Rightarrow> Some g
      | Some entries \<Rightarrow> (case group_handlers g of
            None \<Rightarrow> Some g
          | Some handlers \<Rightarrow>
              map_option (\<lambda>kept. JObj (obj_set key_hooks (JArr kept) entries)) (retain_foreign p handlers)))"

definition group_kept :: "json \<Rightarrow> bool" where
  "group_kept g = (case group_handlers g of None \<Rightarrow> True | Some handlers \<Rightarrow> handlers \<noteq> [])"

definition remove_event :: "provider \<Rightarrow> ustring \<Rightarrow> json_object \<Rightarrow> json_object option" where
  "remove_event p event hooks =
     (case Option.bind (map_of hooks event) as_array of
        None \<Rightarrow> Some hooks
      | Some groups \<Rightarrow>
          map_option (\<lambda>stripped.
              let kept = filter group_kept stripped; hooks' = obj_set event (JArr kept) hooks in
              if kept = [] then obj_remove event hooks' else hooks')
            (those (map (strip_group p) groups)))"

fun remove_events :: "provider \<Rightarrow> ustring list \<Rightarrow> json_object \<Rightarrow> json_object option" where
  "remove_events p [] hooks = Some hooks"
| "remove_events p (event # events) hooks = Option.bind (remove_event p event hooks) (remove_events p events)"

definition remove_owned_handlers :: "provider \<Rightarrow> json \<Rightarrow> json option" where
  "remove_owned_handlers p root =
     (case (as_object root, document_hooks root) of
        (Some entries, Some hooks) \<Rightarrow>
          map_option (\<lambda>hooks'. JObj (obj_set key_hooks (JObj hooks') entries))
            (remove_events p (map fst hooks) hooks)
      | _ \<Rightarrow> Some root)"

section \<open>Installing\<close>

definition provider_event_names :: "provider \<Rightarrow> hook_event \<Rightarrow> ustring list" where
  "provider_event_names p event =
     map ustr (case p of
       Claude \<Rightarrow> (case event of
           hook_event.NeedsAttention \<Rightarrow> [''PermissionRequest'', ''Notification'']
         | hook_event.Completed \<Rightarrow> [''Stop'']
         | hook_event.Failed \<Rightarrow> [''StopFailure'']
         | hook_event.Started \<Rightarrow> [''SessionStart'']
         | hook_event.Interrupted \<Rightarrow> []
         | hook_event.SubagentCompleted \<Rightarrow> [''SubagentStop'']
         | hook_event.ToolStarted \<Rightarrow> [''PreToolUse'']
         | hook_event.ToolCompleted \<Rightarrow> [''PostToolUse''])
     | Codex \<Rightarrow> (case event of
           hook_event.NeedsAttention \<Rightarrow> [''PermissionRequest'']
         | hook_event.Completed \<Rightarrow> [''Stop'']
         | hook_event.Failed \<Rightarrow> []
         | hook_event.Started \<Rightarrow> [''SessionStart'']
         | hook_event.Interrupted \<Rightarrow> [''Interrupt'']
         | hook_event.SubagentCompleted \<Rightarrow> [''SubagentStop'']
         | hook_event.ToolStarted \<Rightarrow> [''PreToolUse'']
         | hook_event.ToolCompleted \<Rightarrow> [''PostToolUse'']))"

definition hook_events_all :: "hook_event list" where
  "hook_events_all = [hook_event.NeedsAttention, hook_event.Completed, hook_event.Failed, hook_event.Started,
     hook_event.Interrupted, hook_event.SubagentCompleted, hook_event.ToolStarted, hook_event.ToolCompleted]"

text \<open>The sorted set of the names of the events that the policy wants.\<close>

definition desired_events :: "provider \<Rightarrow> hook_provider_config \<Rightarrow> ustring list" where
  "desired_events p config =
     sort (remdups (concat (map (provider_event_names p)
       (filter (\<lambda>e. is_enabled (policy_from config) (event_kind e)) hook_events_all))))"

definition hooks_object :: "json \<Rightarrow> hook_error + json_object \<times> json_object" where
  "hooks_object root =
     (case as_object root of
        None \<Rightarrow> Inl InvalidHooksShape
      | Some entries \<Rightarrow>
          (case as_object (case map_of entries key_hooks of None \<Rightarrow> JObj [] | Some v \<Rightarrow> v) of
             None \<Rightarrow> Inl InvalidHooksShape
           | Some hooks \<Rightarrow> Inr (entries, hooks)))"

text \<open>The handler joins the first group with the wanted matcher; without one, a group is added.\<close>

definition matching_group :: "ustring option \<Rightarrow> json \<Rightarrow> bool" where
  "matching_group desired g \<longleftrightarrow> as_object g \<noteq> None \<and> group_matcher g = desired"

definition push_handler :: "json \<Rightarrow> json \<Rightarrow> hook_error + json" where
  "push_handler handler g =
     (case (as_object g, group_handlers g) of
        (Some entries, Some handlers) \<Rightarrow> Inr (JObj (obj_set key_hooks (JArr (handlers @ [handler])) entries))
      | _ \<Rightarrow> Inl InvalidHooksShape)"

definition new_group :: "ustring option \<Rightarrow> json \<Rightarrow> json" where
  "new_group desired handler =
     JObj ((case desired of Some m \<Rightarrow> [(key_matcher, JStr m)] | None \<Rightarrow> []) @ [(key_hooks, JArr [handler])])"

fun add_to_groups :: "ustring option \<Rightarrow> json \<Rightarrow> json list \<Rightarrow> hook_error + json list" where
  "add_to_groups desired handler [] = Inr [new_group desired handler]"
| "add_to_groups desired handler (g # groups) =
     (if matching_group desired g then map_sum id (\<lambda>g1. g1 # groups) (push_handler handler g)
      else map_sum id ((#) g) (add_to_groups desired handler groups))"

definition add_handler :: "provider \<Rightarrow> ustring \<Rightarrow> os_path \<Rightarrow> json \<Rightarrow> hook_error + json" where
  "add_handler p event executable root =
     bind_sum (hooks_object root) (\<lambda>(entries, hooks).
       case as_array (case map_of hooks event of None \<Rightarrow> JArr [] | Some v \<Rightarrow> v) of
         None \<Rightarrow> Inl InvalidHooksShape
       | Some groups \<Rightarrow>
           bind_sum (handler_value p executable) (\<lambda>handler.
           bind_sum (add_to_groups (required_matcher p event) handler groups) (\<lambda>groups'.
             Inr (JObj (obj_set key_hooks (JObj (obj_set event (JArr groups') hooks)) entries)))))"

fun add_handlers :: "provider \<Rightarrow> ustring list \<Rightarrow> os_path \<Rightarrow> json \<Rightarrow> hook_error + json" where
  "add_handlers p [] executable root = Inr root"
| "add_handlers p (event # events) executable root =
     bind_sum (add_handler p event executable root) (add_handlers p events executable)"

datatype reconcile_mode = Install | Sync | Remove

definition reconcile_value ::
  "provider \<Rightarrow> os_path \<Rightarrow> hook_provider_config \<Rightarrow> reconcile_mode \<Rightarrow> json \<Rightarrow> (hook_error + json) option" where
  "reconcile_value p executable config mode root =
     map_option (\<lambda>root'.
         if mode = Remove then Inr root'
         else add_handlers p (desired_events p config) executable root')
       (remove_owned_handlers p root)"

end
