(* ===== verification/Hook_Documents_Props.thy ===== *)
theory Hook_Documents_Props
  imports Hook_Documents
begin

text \<open>
  What installation and removal of hooks do to a provider's document: the quoting of the command, objects
  as maps, the handlers of one event before and after, and the claims.
\<close>

section \<open>Quoting\<close>

definition escape_text :: "ustring \<Rightarrow> ustring" where
  "escape_text value = concat (map (\<lambda>c. if c = quote_char then quote_escape else [c]) value)"

lemma escape_text_simps [simp]:
  "escape_text [] = []"
  "escape_text (c # s) = (if c = quote_char then quote_escape else [c]) @ escape_text s"
  by (simp_all add: escape_text_def)

lemma escape_text_plain: "quote_char \<notin> set s \<Longrightarrow> escape_text s = s"
  by (induction s) auto

lemma strip_prefix_self [simp]: "strip_prefix p (p @ s) = Some s"
  by (simp add: strip_prefix_Some)

lemma strip_escape_other: "c \<noteq> quote_char \<Longrightarrow> strip_prefix quote_escape (c # s) = None"
  by (simp add: strip_prefix_def quote_escape_def quote_char_def)

lemma find_escape_here: "find_escape (quote_escape @ s) = Some ([], s)"
proof -
  have "quote_escape @ s = quote_char # (tl quote_escape @ s)" by (simp add: quote_escape_def quote_char_def)
  then show ?thesis by (metis find_escape.simps(2) option.simps(5) strip_prefix_self)
qed

lemma find_escape_plain: "quote_char \<notin> set s \<Longrightarrow> find_escape s = None"
  by (induction s) (auto simp: strip_escape_other)

lemma find_escape_after:
  "quote_char \<notin> set a \<Longrightarrow> find_escape (a @ quote_escape @ s) = Some (a, s)"
  by (induction a) (auto simp: strip_escape_other find_escape_here)

lemma decode_escape_text: "decode_escapes (escape_text s) = Some s"
proof (induction s rule: length_induct)
  case (1 s)
  show ?case
  proof (cases "quote_char \<in> set s")
    case False
    then show ?thesis by (subst decode_escapes.simps) (simp add: escape_text_plain find_escape_plain)
  next
    case True
    then obtain a b where s: "s = a @ quote_char # b" and a: "quote_char \<notin> set a" by (metis split_list_first)
    have "escape_text s = a @ quote_escape @ escape_text b"
      using escape_text_plain [OF a] by (simp add: s escape_text_def)
    moreover have "decode_escapes (escape_text b) = Some b" using 1 by (simp add: s)
    ultimately show ?thesis by (subst decode_escapes.simps) (simp add: find_escape_after [OF a] s)
  qed
qed

lemma shell_quote_alt: "shell_quote s = quote_char # escape_text s @ [quote_char]"
  by (simp add: shell_quote_def escape_text_def)

lemma parse_shell_quote: "parse_codex_command (shell_quote s @ codex_suffix) = Some (Some s)"
proof -
  have "strip_suffix codex_suffix (shell_quote s @ codex_suffix) = Some (shell_quote s)" by (simp add: strip_suffix_Some)
  moreover have "decode_single_quoted_word (shell_quote s) = Some (Some s)"
    by (simp add: decode_single_quoted_word_def shell_quote_alt decode_escape_text butlast_append)
  ultimately show ?thesis by (simp add: parse_codex_command_def shell_quote_alt)
qed

section \<open>Objects\<close>

lemma map_of_obj_set [simp]: "map_of (obj_set k v m) = (map_of m)(k \<mapsto> v)"
  by (induction k v m rule: obj_set.induct) auto

lemma keys_obj_set: "map fst (obj_set k v m) = (if k \<in> set (map fst m) then map fst m else map fst m @ [k])"
  by (induction k v m rule: obj_set.induct) auto

lemma distinct_obj_set [simp]: "distinct (map fst m) \<Longrightarrow> distinct (map fst (obj_set k v m))"
  by (simp add: keys_obj_set)

lemma last_first:
  assumes "m \<noteq> []"
  shows "set (last m # butlast m) = set m" and "distinct (map fst m) \<Longrightarrow> distinct (map fst (last m # butlast m))"
proof -
  obtain a x where m: "m = a @ [x]" using assms by (metis append_butlast_last_id)
  show "set (last m # butlast m) = set m" by (auto simp: m)
  show "distinct (map fst m) \<Longrightarrow> distinct (map fst (last m # butlast m))" by (simp add: m)
qed

lemma obj_remove_ok:
  assumes "distinct (map fst m)"
  shows "set (obj_remove k m) = {e \<in> set m. fst e \<noteq> k} \<and> distinct (map fst (obj_remove k m))"
  using assms
proof (induction k m rule: obj_remove.induct)
  case (2 key k w entries)
  show ?case
  proof (cases "k = key")
    case True
    have "{e \<in> set entries. fst e \<noteq> key} = set entries" using 2(2) True by (auto simp: image_iff)
    moreover have "distinct (map fst entries)" using 2(2) by simp
    ultimately show ?thesis using True last_first [of entries] by (cases "entries = []") auto
  next
    case False
    then show ?thesis using 2 by (auto simp: image_iff)
  qed
qed simp

lemma distinct_obj_remove: "distinct (map fst m) \<Longrightarrow> distinct (map fst (obj_remove k m))"
  by (simp add: obj_remove_ok)

lemma map_of_obj_remove:
  assumes "distinct (map fst m)"
  shows "map_of (obj_remove k m) = (map_of m)(k := None)"
proof -
  have d: "distinct (map fst (filter (\<lambda>e. fst e \<noteq> k) m))" using assms by (rule distinct_map_filter)
  have "map_of (obj_remove k m) = map_of (filter (\<lambda>e. fst e \<noteq> k) m)"
    by (rule iffD2 [OF map_of_inject_set [OF _ d]]) (simp_all add: obj_remove_ok [OF assms])
  also have "\<dots> = (map_of m)(k := None)" by (induction m) auto
  finally show ?thesis .
qed

section \<open>Handlers of one event\<close>

definition foreign :: "provider \<Rightarrow> json \<Rightarrow> bool" where
  "foreign p handler \<longleftrightarrow> owned_executable p handler = Some None"

definition records_of :: "json_object \<Rightarrow> ustring \<Rightarrow> handler_record list" where
  "records_of hooks event = (case map_of hooks event of None \<Rightarrow> [] | Some v \<Rightarrow> event_records (event, v))"

definition foreign_records :: "provider \<Rightarrow> handler_record list \<Rightarrow> handler_record list" where
  "foreign_records p records = filter (\<lambda>r. foreign p (snd (snd r))) records"

lemma foreign_records_append [simp]:
  "foreign_records p (a @ b) = foreign_records p a @ foreign_records p b" "foreign_records p [] = []"
  by (simp_all add: foreign_records_def)

lemma retain_foreign_Some: "retain_foreign p hs = Some kept \<Longrightarrow> kept = filter (foreign p) hs"
  by (induction hs arbitrary: kept) (auto simp: foreign_def split: option.splits)

lemma retain_foreign_panics: "retain_foreign p hs = None \<longleftrightarrow> (\<exists>h \<in> set hs. owned_executable p h = None)"
  by (induction hs) (auto split: option.splits)

lemma event_records_simp [simp]: "event_records (e, JArr gs) = concat (map (group_records e) gs)"
  by (simp add: event_records_def)

lemma group_records_set:
  "as_object g = Some entries \<Longrightarrow>
     group_records e (JObj (obj_set key_hooks (JArr hs) entries)) = map (\<lambda>h. (e, group_matcher g, h)) hs"
  by (cases g) (auto simp: group_records_def group_matcher_def group_handlers_def json_get_def key_hooks_def key_matcher_def)

lemma strip_group_records:
  assumes "strip_group p g = Some g'"
  shows "group_records e g' = foreign_records p (group_records e g)"
proof (cases "as_object g")
  case None
  then show ?thesis using assms
    by (auto simp: strip_group_def group_records_def group_handlers_def json_get_def foreign_records_def)
next
  case (Some entries)
  show ?thesis
  proof (cases "group_handlers g")
    case None
    then show ?thesis using assms Some by (auto simp: strip_group_def group_records_def foreign_records_def)
  next
    case h: (Some hs)
    then obtain kept where k: "retain_foreign p hs = Some kept" and g': "g' = JObj (obj_set key_hooks (JArr kept) entries)"
      using assms Some by (auto simp: strip_group_def)
    show ?thesis
      unfolding g' group_records_set [OF Some] retain_foreign_Some [OF k]
      by (simp add: group_records_def h foreign_records_def filter_map o_def)
  qed
qed

lemma strip_groups_records:
  "those (map (strip_group p) gs) = Some gs' \<Longrightarrow>
     concat (map (group_records e) gs') = foreign_records p (concat (map (group_records e) gs))"
proof (induction gs arbitrary: gs')
  case (Cons g gs)
  then obtain g1 gs1 where "strip_group p g = Some g1" "those (map (strip_group p) gs) = Some gs1" "gs' = g1 # gs1"
    by (auto split: option.splits)
  then show ?case using Cons.IH [of gs1] strip_group_records [of p g g1 e] by simp
qed simp

lemma kept_groups_records:
  "concat (map (group_records e) (filter group_kept gs)) = concat (map (group_records e) gs)"
  by (induction gs) (auto simp: group_kept_def group_records_def split: option.splits)

lemma as_array_Some [simp]: "as_array v = Some xs \<longleftrightarrow> v = JArr xs"
  by (cases v) auto

lemma as_object_Some [simp]: "as_object v = Some xs \<longleftrightarrow> v = JObj xs"
  by (cases v) auto

lemma as_array_None: "as_array v = None \<Longrightarrow> event_records (e, v) = []"
  by (simp add: event_records_def)

lemma bind_eq_Some: "Option.bind x f = Some y \<longleftrightarrow> (\<exists>a. x = Some a \<and> f a = Some y)"
  by (cases x) auto

lemma remove_event_step:
  assumes "remove_event p event hooks = Some hooks'" and "distinct (map fst hooks)"
  shows "distinct (map fst hooks')"
    and "records_of hooks' e = (if e = event then foreign_records p (records_of hooks e) else records_of hooks e)"
    and "e \<noteq> event \<or> Option.bind (map_of hooks e) as_array = None \<Longrightarrow> map_of hooks' e = map_of hooks e"
proof -
  have "distinct (map fst hooks')
    \<and> records_of hooks' e = (if e = event then foreign_records p (records_of hooks e) else records_of hooks e)
    \<and> (e \<noteq> event \<or> Option.bind (map_of hooks e) as_array = None \<longrightarrow> map_of hooks' e = map_of hooks e)"
  proof (cases "Option.bind (map_of hooks event) as_array")
    case None
    then have "hooks' = hooks" using assms(1) by (simp add: remove_event_def)
    moreover have "records_of hooks event = []"
      using None by (cases "map_of hooks event") (simp_all add: records_of_def as_array_None)
    ultimately show ?thesis using assms(2) by simp
  next
    case (Some gs)
    then have m: "map_of hooks event = Some (JArr gs)" by (auto simp: bind_eq_Some)
    obtain stripped where st: "those (map (strip_group p) gs) = Some stripped"
      using assms(1) Some by (cases "those (map (strip_group p) gs)") (simp_all add: remove_event_def)
    define kept where "kept = filter group_kept stripped"
    have h': "hooks' = (if kept = [] then obj_remove event (obj_set event (JArr kept) hooks) else obj_set event (JArr kept) hooks)"
      using assms(1) by (auto simp: remove_event_def Some st Let_def kept_def)
    have "concat (map (group_records event) kept) = foreign_records p (records_of hooks event)"
      by (simp add: kept_def kept_groups_records strip_groups_records [OF st] records_of_def m)
    then show ?thesis
      using h' m assms(2) by (cases "kept = []") (auto simp: records_of_def map_of_obj_remove distinct_obj_remove)
  qed
  then show "distinct (map fst hooks')"
    and "records_of hooks' e = (if e = event then foreign_records p (records_of hooks e) else records_of hooks e)"
    and "e \<noteq> event \<or> Option.bind (map_of hooks e) as_array = None \<Longrightarrow> map_of hooks' e = map_of hooks e"
    by blast+
qed

lemma foreign_records_twice [simp]: "foreign_records p (foreign_records p rs) = foreign_records p rs"
  by (simp add: foreign_records_def)

lemma remove_events_records:
  assumes "remove_events p events hooks = Some hooks'" and "distinct (map fst hooks)"
  shows "distinct (map fst hooks')
    \<and> records_of hooks' e = (if e \<in> set events then foreign_records p (records_of hooks e) else records_of hooks e)"
  using assms
proof (induction events arbitrary: hooks)
  case (Cons event events)
  then obtain h1 where h1: "remove_event p event hooks = Some h1" "remove_events p events h1 = Some hooks'"
    by (auto simp: bind_eq_Some)
  note step = remove_event_step [OF h1(1) Cons.prems(2)]
  show ?case using Cons.IH [OF h1(2) step(1)] step(2) [of e] by auto
qed simp

section \<open>Adding a handler\<close>

lemma push_handler_records:
  assumes "push_handler handler g = Inr g'"
  shows "group_records e g' = group_records e g @ [(e, group_matcher g, handler)]"
proof -
  obtain entries hs where g: "as_object g = Some entries" "group_handlers g = Some hs"
    and g': "g' = JObj (obj_set key_hooks (JArr (hs @ [handler])) entries)"
    using assms unfolding push_handler_def by (cases "as_object g"; cases "group_handlers g") auto
  show ?thesis unfolding g' group_records_set [OF g(1)] by (simp add: group_records_def g(2))
qed

lemma new_group_records: "group_records e (new_group desired handler) = [(e, desired, handler)]"
  by (cases desired)
    (simp_all add: new_group_def group_records_def group_matcher_def group_handlers_def json_get_def
      key_hooks_def key_matcher_def)

lemma add_to_groups_records:
  assumes "add_to_groups desired handler gs = Inr gs'"
  shows "\<exists>xs ys. concat (map (group_records e) gs) = xs @ ys
    \<and> concat (map (group_records e) gs') = xs @ (e, desired, handler) # ys"
  using assms
proof (induction gs arbitrary: gs')
  case Nil
  then show ?case by (auto simp: new_group_records)
next
  case (Cons g gs)
  show ?case
  proof (cases "matching_group desired g")
    case True
    then obtain g1 where g1: "push_handler handler g = Inr g1" "gs' = g1 # gs"
      using Cons.prems by (auto simp: map_sum_Inr)
    have "group_records e g1 = group_records e g @ [(e, desired, handler)]"
      using push_handler_records [OF g1(1)] True by (simp add: matching_group_def)
    then show ?thesis
      by (intro exI [where x = "group_records e g"] exI [where x = "concat (map (group_records e) gs)"]) (simp add: g1(2))
  next
    case False
    then obtain gs1 where gs1: "add_to_groups desired handler gs = Inr gs1" "gs' = g # gs1"
      using Cons.prems by (auto simp: map_sum_Inr)
    from Cons.IH [OF gs1(1)] obtain xs ys where "concat (map (group_records e) gs) = xs @ ys"
      "concat (map (group_records e) gs1) = xs @ (e, desired, handler) # ys" by blast
    then show ?thesis
      by (intro exI [where x = "group_records e g @ xs"] exI [where x = ys]) (simp add: gs1(2))
  qed
qed

text \<open>The hooks of a document, with none for a document that has no such entry.\<close>

definition hooks_of :: "json \<Rightarrow> json_object" where
  "hooks_of root = (case document_hooks root of None \<Rightarrow> [] | Some hooks \<Rightarrow> hooks)"

lemma visit_hooks_of: "visit_handler_records root = concat (map event_records (hooks_of root))"
  by (cases "document_hooks root") (simp_all add: visit_handler_records_def hooks_of_def)

lemma document_hooks_JObj [simp]: "document_hooks (JObj (obj_set key_hooks (JObj hooks) entries)) = Some hooks"
  by (simp add: document_hooks_def json_get_def)

lemma hooks_object_Inr:
  assumes "hooks_object root = Inr (entries, hooks)"
  shows "root = JObj entries" and "hooks = hooks_of root"
  using assms
  by (auto simp: hooks_object_def hooks_of_def document_hooks_def json_get_def split: option.splits)

text \<open>What an operation on a document leaves alone: its other entries.\<close>

definition same_elsewhere :: "json \<Rightarrow> json \<Rightarrow> bool" where
  "same_elsewhere root root' \<longleftrightarrow> (\<forall>key. key \<noteq> key_hooks \<longrightarrow> json_get root' key = json_get root key)"

lemma same_elsewhere_trans: "same_elsewhere a b \<Longrightarrow> same_elsewhere b c \<Longrightarrow> same_elsewhere a c"
  by (simp add: same_elsewhere_def)

lemma same_elsewhere_set: "same_elsewhere (JObj entries) (JObj (obj_set key_hooks v entries))"
  by (simp add: same_elsewhere_def json_get_def)

text \<open>Objects have distinct keys: what the parser and the operations of the map guarantee.\<close>

definition hooks_distinct :: "json \<Rightarrow> bool" where
  "hooks_distinct root \<longleftrightarrow> distinct (map fst (hooks_of root))"

lemma add_handler_step:
  assumes "add_handler p event executable root = Inr root'" and "hooks_distinct root"
  obtains handler xs ys where "handler_value p executable = Inr handler" "hooks_distinct root'" "same_elsewhere root root'"
    "records_of (hooks_of root) event = xs @ ys"
    "records_of (hooks_of root') event = xs @ (event, required_matcher p event, handler) # ys"
    "\<And>e. e \<noteq> event \<Longrightarrow> records_of (hooks_of root') e = records_of (hooks_of root) e"
    "event \<in> fst ` set (hooks_of root')"
proof -
  obtain entries hooks where o: "hooks_object root = Inr (entries, hooks)"
    using assms(1) by (cases "hooks_object root") (auto simp: add_handler_def)
  note root = hooks_object_Inr [OF o]
  obtain gs where gs: "as_array (case map_of hooks event of None \<Rightarrow> JArr [] | Some v \<Rightarrow> v) = Some gs"
    using assms(1) o by (cases "as_array (case map_of hooks event of None \<Rightarrow> JArr [] | Some v \<Rightarrow> v)")
      (simp_all add: add_handler_def)
  obtain handler where h: "handler_value p executable = Inr handler"
    using assms(1) o gs by (cases "handler_value p executable") (simp_all add: add_handler_def)
  obtain gs' where gs': "add_to_groups (required_matcher p event) handler gs = Inr gs'"
    and root': "root' = JObj (obj_set key_hooks (JObj (obj_set event (JArr gs') hooks)) entries)"
    using assms(1) o gs h
    by (cases "add_to_groups (required_matcher p event) handler gs") (simp_all add: add_handler_def)
  have hooks': "hooks_of root' = obj_set event (JArr gs') hooks" by (simp add: hooks_of_def root')
  have rec: "records_of hooks event = concat (map (group_records event) gs)"
    using gs by (auto simp: records_of_def split: option.splits)
  from add_to_groups_records [OF gs', of event] obtain xs ys
    where "concat (map (group_records event) gs) = xs @ ys"
      "concat (map (group_records event) gs') = xs @ (event, required_matcher p event, handler) # ys" by blast
  note xy = this
  show thesis
  proof (rule that [OF h])
    show "hooks_distinct root'" using assms(2) by (simp add: hooks_distinct_def hooks' root(2))
    show "same_elsewhere root root'" by (simp add: root(1) root' same_elsewhere_set)
    show "records_of (hooks_of root) event = xs @ ys" using rec xy(1) root(2) by simp
    show "records_of (hooks_of root') event = xs @ (event, required_matcher p event, handler) # ys"
      by (simp add: hooks' records_of_def xy(2))
    show "event \<in> fst ` set (hooks_of root')"
      by (metis hooks' domIff dom_map_of_conv_image_fst map_of_obj_set fun_upd_same option.distinct(1))
    show "\<And>e. e \<noteq> event \<Longrightarrow> records_of (hooks_of root') e = records_of (hooks_of root) e"
      by (simp add: hooks' records_of_def root(2))
  qed
qed

lemma handler_value_owned:
  assumes "handler_value p executable = Inr handler" and "names_tmnotify (path_units executable)"
  obtains program where "executable = TextPath program" "owned_executable p handler = Some (Some program)"
proof (cases executable)
  case (TextPath program)
  have "owned_executable p handler = Some (Some program)"
    using assms parse_shell_quote [of program]
    by (cases p) (auto simp: TextPath handler_value_def owned_executable_def owned_claude_def owned_codex_def
        key_type_def key_command_def key_args_def hook_event_arg_def)
  then show ?thesis using that TextPath by blast
next
  case (RawPath bs)
  then show ?thesis using assms(1) by (simp add: handler_value_def)
qed

section \<open>Whole documents\<close>

definition panic_free :: "provider \<Rightarrow> handler_record list \<Rightarrow> bool" where
  "panic_free p records \<longleftrightarrow> (\<forall>r \<in> set records. owned_executable p (snd (snd r)) \<noteq> None)"

definition owned_list :: "provider \<Rightarrow> handler_record list \<Rightarrow> owned_record list" where
  "owned_list p records = concat (map (\<lambda>(event, matcher, handler).
     case owned_executable p handler of Some (Some program) \<Rightarrow> [(event, matcher, program)] | _ \<Rightarrow> []) records)"

lemma owned_list_simps [simp]:
  "owned_list p [] = []"
  "owned_list p (a @ b) = owned_list p a @ owned_list p b"
  "owned_list p ((e, m, h) # records) =
     (case owned_executable p h of Some (Some program) \<Rightarrow> [(e, m, program)] | _ \<Rightarrow> []) @ owned_list p records"
  by (simp_all add: owned_list_def)

lemma panic_free_simps [simp]:
  "panic_free p []" "panic_free p (a @ b) \<longleftrightarrow> panic_free p a \<and> panic_free p b"
  "panic_free p ((e, m, h) # records) \<longleftrightarrow> owned_executable p h \<noteq> None \<and> panic_free p records"
  by (auto simp: panic_free_def)

lemma collect_owned_list: "collect_owned p records = (if panic_free p records then Some (owned_list p records) else None)"
  by (induction p records rule: collect_owned.induct) (auto split: option.splits)

lemma any_owned_none: "panic_free p records \<Longrightarrow> owned_list p records = [] \<Longrightarrow> any_owned p records = Some False"
  by (induction p records rule: any_owned.induct) (auto split: option.splits)

lemma foreign_records_owned:
  "owned_list p (foreign_records p records) = []" "panic_free p (foreign_records p records)"
  by (induction records) (auto simp: foreign_records_def foreign_def)

lemma owned_list_concat: "owned_list p (concat rss) = concat (map (owned_list p) rss)"
  by (induction rss) simp_all

lemma panic_free_concat: "panic_free p (concat rss) \<longleftrightarrow> (\<forall>rs \<in> set rss. panic_free p rs)"
  by (induction rss) simp_all

lemma visit_by_event:
  assumes "hooks_distinct root"
  shows "visit_handler_records root = concat (map (records_of (hooks_of root)) (map fst (hooks_of root)))"
proof -
  have "event_records entry = records_of (hooks_of root) (fst entry)" if "entry \<in> set (hooks_of root)" for entry
  proof -
    have "map_of (hooks_of root) (fst entry) = Some (snd entry)"
      by (rule map_of_is_SomeI) (use that assms in \<open>simp_all add: hooks_distinct_def\<close>)
    then show ?thesis by (simp add: records_of_def)
  qed
  then have "map event_records (hooks_of root) = map (records_of (hooks_of root)) (map fst (hooks_of root))" by simp
  then show ?thesis by (simp only: visit_hooks_of)
qed

text \<open>What a document holds for one event: the foreign handlers with their matchers, and the owned ones.\<close>

abbreviation event_foreign :: "provider \<Rightarrow> json \<Rightarrow> ustring \<Rightarrow> handler_record list" where
  "event_foreign p root event \<equiv> foreign_records p (records_of (hooks_of root) event)"

abbreviation event_owned :: "provider \<Rightarrow> json \<Rightarrow> ustring \<Rightarrow> owned_record list" where
  "event_owned p root event \<equiv> owned_list p (records_of (hooks_of root) event)"

definition document_sound :: "provider \<Rightarrow> json \<Rightarrow> bool" where
  "document_sound p root \<longleftrightarrow> hooks_distinct root \<and> (\<forall>e. panic_free p (records_of (hooks_of root) e))"

lemma removed_document:
  assumes "remove_owned_handlers p root = Some root'" and "hooks_distinct root"
  shows "document_sound p root'" and "same_elsewhere root root'"
    and "event_owned p root' e = []" and "event_foreign p root' e = event_foreign p root e"
proof -
  have rec: "hooks_distinct root' \<and> same_elsewhere root root'
      \<and> (\<forall>e. records_of (hooks_of root') e = event_foreign p root e)"
  proof (cases "document_hooks root")
    case None
    then show ?thesis using assms
      by (cases "as_object root") (auto simp: remove_owned_handlers_def same_elsewhere_def hooks_of_def records_of_def)
  next
    case (Some hooks)
    then obtain entries where root: "root = JObj entries"
      by (cases root) (auto simp: document_hooks_def json_get_def)
    obtain hooks' where h': "remove_events p (map fst hooks) hooks = Some hooks'"
      and root': "root' = JObj (obj_set key_hooks (JObj hooks') entries)"
      using assms(1) Some by (auto simp: remove_owned_handlers_def root)
    have d: "distinct (map fst hooks)" using assms(2) by (simp add: hooks_distinct_def hooks_of_def Some)
    have "records_of hooks' e = foreign_records p (records_of hooks e)" for e
    proof (cases "e \<in> set (map fst hooks)")
      case False
      then have "records_of hooks e = []" by (simp add: records_of_def map_of_eq_None_iff [THEN iffD2] image_iff)
      then show ?thesis using remove_events_records [OF h' d, of e] False by simp
    qed (use remove_events_records [OF h' d, of e] in simp)
    moreover have "distinct (map fst hooks')" using remove_events_records [OF h' d] by simp
    moreover have "hooks_of root' = hooks'" by (simp add: hooks_of_def root')
    moreover have "same_elsewhere root root'" unfolding root root' by (rule same_elsewhere_set)
    ultimately show ?thesis by (simp add: hooks_distinct_def hooks_of_def Some)
  qed
  then show "document_sound p root'" "same_elsewhere root root'" "event_owned p root' e = []"
    "event_foreign p root' e = event_foreign p root e"
    by (simp_all add: document_sound_def foreign_records_owned)
qed

lemma added_handlers:
  assumes "add_handlers p events executable root = Inr root'" and "document_sound p root"
    and "executable = TextPath program" and "names_tmnotify program"
    and "distinct events" and "\<And>e. e \<in> set events \<Longrightarrow> event_owned p root e = []"
  shows "document_sound p root' \<and> same_elsewhere root root'
    \<and> (\<forall>e. event_owned p root' e =
          (if e \<in> set events then [(e, required_matcher p e, program)] else event_owned p root e))
    \<and> (\<forall>e. event_foreign p root' e = event_foreign p root e)"
  using assms(1,2,5,6)
proof (induction events arbitrary: root)
  case Nil
  then show ?case by (simp add: same_elsewhere_def)
next
  case (Cons event events)
  obtain root1 where r1: "add_handler p event executable root = Inr root1"
    and rest: "add_handlers p events executable root1 = Inr root'"
    using Cons.prems(1) by (cases "add_handler p event executable root") simp_all
  have d: "hooks_distinct root" using Cons.prems(2) by (simp add: document_sound_def)
  obtain handler xs ys where step: "handler_value p executable = Inr handler" "hooks_distinct root1" "same_elsewhere root root1"
    "records_of (hooks_of root) event = xs @ ys"
    "records_of (hooks_of root1) event = xs @ (event, required_matcher p event, handler) # ys"
    and other: "\<And>e. e \<noteq> event \<Longrightarrow> records_of (hooks_of root1) e = records_of (hooks_of root) e"
    by (rule add_handler_step [OF r1 d]) blast
  have own: "owned_executable p handler = Some (Some program)"
    using handler_value_owned [OF step(1)] assms(3,4) by auto
  have view: "event_owned p root1 e = (if e = event then [(event, required_matcher p event, program)] else event_owned p root e)"
    "event_foreign p root1 e = event_foreign p root e" "panic_free p (records_of (hooks_of root1) e)" for e
  proof -
    have "event_owned p root event = []" using Cons.prems(4) by simp
    then have "owned_list p xs = []" "owned_list p ys = []" by (simp_all add: step(4))
    then show "event_owned p root1 e = (if e = event then [(event, required_matcher p event, program)] else event_owned p root e)"
      by (simp add: step(5) other own)
    show "event_foreign p root1 e = event_foreign p root e"
      by (cases "e = event") (simp_all add: step(4,5) other foreign_records_def foreign_def own)
    have "panic_free p (records_of (hooks_of root) e)" using Cons.prems(2) by (simp add: document_sound_def)
    then show "panic_free p (records_of (hooks_of root1) e)"
      by (cases "e = event") (simp_all add: step(4,5) other own)
  qed
  have "document_sound p root1" using step(2) view(3) by (simp add: document_sound_def)
  moreover have "event_owned p root1 e = []" if "e \<in> set events" for e
    using Cons.prems(3,4) that view(1) by auto
  ultimately have "document_sound p root' \<and> same_elsewhere root1 root'
    \<and> (\<forall>e. event_owned p root' e = (if e \<in> set events then [(e, required_matcher p e, program)] else event_owned p root1 e))
    \<and> (\<forall>e. event_foreign p root' e = event_foreign p root1 e)"
    using Cons.IH [OF rest] Cons.prems(3) by simp
  then show ?case using view(1,2) same_elsewhere_trans [OF step(3)] by auto
qed

lemma desired_events_distinct: "distinct (desired_events p config)"
  by (simp add: desired_events_def)

section \<open>Installation and removal\<close>

lemma filter_concat_singletons:
  "length (concat (map (\<lambda>e. if P e then [f e] else []) es)) = length (filter P es)"
  by (induction es) simp_all

lemma installed_in_sync:
  assumes sound: "document_sound p root" and d: "distinct desired" and exe: "executable = TextPath program"
    and owned: "\<And>e. event_owned p root e = (if e \<in> set desired then [(e, required_matcher p e, program)] else [])"
  shows "installation_is_in_sync p executable desired root = Some True"
proof -
  let ?keys = "map fst (hooks_of root)"
  let ?owned = "concat (map (\<lambda>e. if e \<in> set desired then [(e, required_matcher p e, program)] else []) ?keys)"
  note visit = visit_by_event [OF sound [unfolded document_sound_def, THEN conjunct1]]
  have "panic_free p (visit_handler_records root)"
    using sound by (simp add: visit panic_free_concat document_sound_def)
  moreover have "owned_list p (visit_handler_records root) = ?owned"
    by (simp only: visit owned_list_concat map_map o_def owned)
  ultimately have collect: "collect_owned p (visit_handler_records root) = Some ?owned"
    by (simp add: collect_owned_list)
  have "e \<in> set ?keys" if "e \<in> set desired" for e
    using owned [of e] that map_of_eq_None_iff [of "hooks_of root" e] by (auto simp: records_of_def)
  then have "set desired = set (filter (\<lambda>e. e \<in> set desired) ?keys)" by auto
  moreover have "distinct (filter (\<lambda>e. e \<in> set desired) ?keys)"
    using sound by (simp add: document_sound_def hooks_distinct_def)
  ultimately have "length (filter (\<lambda>e. e \<in> set desired) ?keys) = length desired"
    using d by (metis distinct_card)
  then have "length ?owned = length desired" by (simp only: filter_concat_singletons)
  moreover have "list_all (\<lambda>(event, matcher, program). path_eq (TextPath program) executable \<and> event \<in> set desired
      \<and> matcher = required_matcher p event) ?owned"
    by (auto simp: list_all_iff exe split: if_splits)
  ultimately show ?thesis by (simp add: installation_is_in_sync_def collect)
qed

lemma installed_document:
  assumes "reconcile_value p (TextPath program) config mode root = Some (Inr root')" and "mode \<noteq> Remove"
    and "hooks_distinct root" and "names_tmnotify program"
  shows "(\<forall>e. event_owned p root' e =
          (if e \<in> set (desired_events p config) then [(e, required_matcher p e, program)] else []))
    \<and> (\<forall>e. event_foreign p root' e = event_foreign p root e)
    \<and> same_elsewhere root root' \<and> hooks_distinct root'
    \<and> installation_is_in_sync p (TextPath program) (desired_events p config) root' = Some True"
proof -
  obtain root1 where r1: "remove_owned_handlers p root = Some root1"
    and add: "add_handlers p (desired_events p config) (TextPath program) root1 = Inr root'"
    using assms(1,2) by (auto simp: reconcile_value_def)
  note removed = removed_document [OF r1 assms(3)]
  note added = added_handlers [OF add removed(1) refl assms(4) desired_events_distinct removed(3)]
  have owned: "event_owned p root' e =
      (if e \<in> set (desired_events p config) then [(e, required_matcher p e, program)] else [])" for e
    using added removed(3) by simp
  have "same_elsewhere root root'" using added same_elsewhere_trans [OF removed(2)] by blast
  moreover have "event_foreign p root' e = event_foreign p root e" for e using added removed(4) by simp
  moreover have "hooks_distinct root'" using added by (simp add: document_sound_def)
  moreover have "installation_is_in_sync p (TextPath program) (desired_events p config) root' = Some True"
    by (rule installed_in_sync [OF _ desired_events_distinct refl owned]) (use added in blast)
  ultimately show ?thesis using owned by blast
qed

lemma install_correct_sync:
  assumes "reconcile_value p (TextPath program) config mode root = Some (Inr root')" and "mode \<noteq> Remove"
    and "hooks_distinct root" and "names_tmnotify program"
  shows "installation_is_in_sync p (TextPath program) (desired_events p config) root' = Some True"
  using installed_document [OF assms] by blast

text \<open>Claim C37. Installing (or synchronising) hooks into a document leaves, for each wanted event, exactly one
  owned handler, which runs the program under the matcher the event needs, and none for any other event;
  every foreign handler of every event keeps its matcher and its order; the other entries of the document
  are untouched; and the document then counts as in sync, so a second installation changes nothing.\<close>

theorem install_correct:
  assumes "reconcile_value p (TextPath program) config mode root = Some (Inr root')" and "mode \<noteq> Remove"
    and "hooks_distinct root" and "names_tmnotify program"
  shows "(\<forall>e. event_owned p root' e =
          (if e \<in> set (desired_events p config) then [(e, required_matcher p e, program)] else []))
    \<and> (\<forall>e. event_foreign p root' e = event_foreign p root e)
    \<and> same_elsewhere root root' \<and> hooks_distinct root'
    \<and> installation_is_in_sync p (TextPath program) (desired_events p config) root' = Some True"
  using installed_document [OF assms] .

definition demo_program :: ustring where "demo_program = ustr ''/a'' @ [slash] @ ustr ''tmnotify''"

definition demo_document :: json where
  "demo_document = JObj [(ustr ''model'', JStr (ustr ''m'')),
     (key_hooks, JObj [(ustr ''Stop'', JArr [JObj [(key_hooks, JArr [JObj [(key_command, JStr (ustr ''lint''))]])]])])]"

definition demo_installed :: json where
  "demo_installed =
     (case reconcile_value Codex (TextPath demo_program) hook_provider_config_default Install demo_document of
        Some (Inr root) \<Rightarrow> root | _ \<Rightarrow> JNull)"

lemma demo_install:
  "reconcile_value Codex (TextPath demo_program) hook_provider_config_default Install demo_document = Some (Inr demo_installed)"
  by code_simp

lemma demo_names: "names_tmnotify demo_program" and demo_distinct: "hooks_distinct demo_document"
  by code_simp+

theorem install_correct_witness:
  "event_owned Codex demo_installed (ustr ''Stop'') = [(ustr ''Stop'', None, demo_program)]"
proof -
  have "ustr ''Stop'' \<in> set (desired_events Codex hook_provider_config_default)" by code_simp
  moreover have "required_matcher Codex (ustr ''Stop'') = None" by (simp add: required_matcher_def)
  ultimately show ?thesis
    using install_correct [OF demo_install _ demo_distinct demo_names] by simp
qed


definition demo_removed :: json where
  "demo_removed = (case remove_owned_handlers Codex demo_installed of Some root \<Rightarrow> root | None \<Rightarrow> JNull)"

lemma demo_remove:
  "reconcile_value Codex (TextPath demo_program) hook_provider_config_default Remove demo_installed = Some (Inr demo_removed)"
  and demo_installed_distinct: "hooks_distinct demo_installed"
  by code_simp+


text \<open>The command written for Codex is the quoted program and the event argument, and reading it back
  gives the program, whatever characters the path has.\<close>

lemma codex_command_round_trip: "parse_codex_command (shell_quote program @ codex_suffix) = Some (Some program)"
  by (rule parse_shell_quote)

section \<open>Documents the code does not expect\<close>

text \<open>A command of one quote and the event argument makes the reader slice \<open>1..0\<close>: a panic.\<close>

lemma lone_quote_panics: "parse_codex_command (quote_char # codex_suffix) = None"
proof -
  have "strip_suffix codex_suffix (quote_char # codex_suffix) = Some [quote_char]" by (simp add: strip_suffix_Some)
  then show ?thesis by (simp add: parse_codex_command_def decode_single_quoted_word_def)
qed

text \<open>Two handlers for one wanted event and none for another count as in sync.\<close>

definition demo_handler :: json where
  "demo_handler = JObj [(key_type, JStr key_command), (key_command, JStr (shell_quote demo_program @ codex_suffix))]"

definition demo_doubled :: json where
  "demo_doubled = JObj [(key_hooks, JObj [(ustr ''Stop'', JArr [JObj [(key_hooks, JArr [demo_handler, demo_handler])]])])]"

lemma doubled_counts_as_in_sync:
  "desired_events Codex hook_provider_config_default = [ustr ''PermissionRequest'', ustr ''Stop'']"
  "installation_is_in_sync Codex (TextPath demo_program) (desired_events Codex hook_provider_config_default) demo_doubled
     = Some True"
  "event_owned Codex demo_doubled (ustr ''PermissionRequest'') = []"
  by code_simp+

end
