(* ===== verification/Hook_Files.thy ===== *)
theory Hook_Files
  imports Hook_Documents_Props
begin

text \<open>
  The file side of \<open>src/hooks.rs\<close>: reading a provider's configuration, rendering it in its own style, and
  replacing it atomically with a private backup; and the operations of \<open>HookManager\<close> on top. JSON and TOML
  reading and JSON printing are parameters; every file operation may fail.
\<close>

section \<open>Files\<close>

text \<open>A path is the list of its components.\<close>

type_synonym hook_path = "nat list list"

datatype node = Regular "byte list" nat | SymlinkNode | DirectoryNode

type_synonym hook_fs = "hook_path \<Rightarrow> node option"

datatype fs_op =
    OpenRead hook_path | ReadMetadata hook_path | ReadAll hook_path
  | MakeDirs hook_path | OpenTemp hook_path | WriteAll hook_path | FlushFile hook_path | SyncFile hook_path
  | SetMode hook_path | RenameTo hook_path | OpenDir hook_path | SyncDir hook_path | RemoveTemp hook_path

datatype toml_value = TomlArray "toml_value list" | TomlTable "(ustring \<times> toml_value) list" | TomlScalar

record hook_env =
  he_parse :: "byte list \<Rightarrow> json option"
  he_pretty :: "byte list \<Rightarrow> json \<Rightarrow> byte list option"
  he_toml :: "ustring \<Rightarrow> toml_value option"
  he_fails :: "fs_op \<Rightarrow> bool"
  he_written :: nat
  he_created_mode :: nat
  he_pid :: nat

definition MAX_PROVIDER_CONFIG_BYTES :: nat where "MAX_PROVIDER_CONFIG_BYTES = 1024 * 1024"

definition PRIVATE_FILE_MODE :: nat where "PRIVATE_FILE_MODE = 0x180"

text \<open>The read stops one byte after the limit, as a file may grow after its length was read.\<close>

definition read_bounded_file :: "hook_env \<Rightarrow> hook_fs \<Rightarrow> hook_path \<Rightarrow> hook_error + byte list option" where
  "read_bounded_file env fs path =
     (case fs path of
        None \<Rightarrow> if he_fails env (OpenRead path) then Inl HookIo else Inr None
      | Some SymlinkNode \<Rightarrow> Inl SymbolicLink
      | Some DirectoryNode \<Rightarrow>
          if he_fails env (OpenRead path) \<or> he_fails env (ReadMetadata path) then Inl HookIo else Inl InvalidPath
      | Some (Regular bytes mode) \<Rightarrow>
          if he_fails env (OpenRead path) \<or> he_fails env (ReadMetadata path) then Inl HookIo
          else if length bytes > MAX_PROVIDER_CONFIG_BYTES then Inl TooLarge
          else if he_fails env (ReadAll path) then Inl HookIo
          else Inr (Some bytes))"

section \<open>Documents\<close>

record document =
  doc_value :: json
  doc_original :: "byte list option"
  doc_indent :: "byte list"
  doc_crlf :: bool
  doc_final_newline :: bool

definition two_spaces :: "byte list" where "two_spaces = [0x20, 0x20]"

definition document_empty :: document where
  "document_empty = \<lparr>doc_value = JObj [], doc_original = None, doc_indent = two_spaces, doc_crlf = False,
     doc_final_newline = True\<rparr>"

definition newline_bytes :: "bool \<Rightarrow> byte list" where
  "newline_bytes crlf = (if crlf then [0x0d, 0x0a] else [0x0a])"

fun has_crlf :: "byte list \<Rightarrow> bool" where
  "has_crlf (a # b # bs) = (a = 0x0d \<and> b = 0x0a \<or> has_crlf (b # bs))"
| "has_crlf _ = False"

definition indent_char :: "nat \<Rightarrow> bool" where "indent_char c \<longleftrightarrow> c = 0x20 \<or> c = 0x09"

definition detect_indent :: "byte list \<Rightarrow> byte list option" where
  "detect_indent bytes =
     Option.bind (utf8_decode bytes) (\<lambda>s.
       map_option (\<lambda>line. map of_nat (takeWhile indent_char line))
         (List.find (\<lambda>line. takeWhile indent_char line \<noteq> []) (drop 1 (rust_lines s))))"

definition render :: "hook_env \<Rightarrow> document \<Rightarrow> hook_error + byte list" where
  "render env d =
     (case he_pretty env (doc_indent d) (doc_value d) of
        None \<Rightarrow> Inl HookSerialize
      | Some output \<Rightarrow>
          let output' = (if doc_crlf d then concat (map (\<lambda>b. if b = 0x0a then [0x0d, 0x0a] else [b]) output) else output)
          in Inr (if doc_final_newline d then output' @ newline_bytes (doc_crlf d) else output'))"

definition read_document :: "hook_env \<Rightarrow> hook_fs \<Rightarrow> hook_path \<Rightarrow> hook_error + document option" where
  "read_document env fs path =
     bind_sum (read_bounded_file env fs path) (\<lambda>r.
       case r of None \<Rightarrow> Inr None
       | Some bytes \<Rightarrow> (case he_parse env bytes of
            None \<Rightarrow> Inl HookJson
          | Some value \<Rightarrow>
              if as_object value = None then Inl RootNotObject
              else let crlf = has_crlf bytes in
                Inr (Some \<lparr>doc_value = value, doc_original = Some bytes,
                  doc_indent = (case detect_indent bytes of Some i \<Rightarrow> i | None \<Rightarrow> two_spaces),
                  doc_crlf = crlf, doc_final_newline = strip_suffix (newline_bytes crlf) bytes \<noteq> None\<rparr>)))"

section \<open>Atomic replacement\<close>

text \<open>Each operation gives the states the file system goes through, and its result.\<close>

type_synonym fs_run = "hook_fs list \<times> (hook_error + unit)"

definition last_state :: "hook_fs \<Rightarrow> hook_fs list \<Rightarrow> hook_fs" where
  "last_state fs trace = last (fs # trace)"

definition after_run :: "hook_fs \<Rightarrow> fs_run \<Rightarrow> (hook_fs \<Rightarrow> fs_run) \<Rightarrow> fs_run" where
  "after_run fs run next_run =
     (case run of (trace, Inl e) \<Rightarrow> (trace, Inl e)
      | (trace, Inr _) \<Rightarrow> (case next_run (last_state fs trace) of (trace', r) \<Rightarrow> (trace @ trace', r)))"

definition remove_temporary :: "hook_env \<Rightarrow> hook_path \<Rightarrow> hook_fs \<Rightarrow> hook_fs list" where
  "remove_temporary env temporary fs = (if he_fails env (RemoveTemp temporary) then [] else [fs(temporary := None)])"

text \<open>The work on an opened temporary file: write, flush, sync, set the mode, rename over the path, and sync the
  directory. A failure before the rename leaves the path alone; one after it does not undo the rename.\<close>

definition fill_and_rename :: "hook_env \<Rightarrow> hook_path \<Rightarrow> hook_path \<Rightarrow> byte list \<Rightarrow> hook_fs \<Rightarrow> fs_run" where
  "fill_and_rename env temporary path contents fs =
     (let opened = fs(temporary \<mapsto> Regular [] (he_created_mode env));
          partial = fs(temporary \<mapsto> Regular (take (he_written env) contents) (he_created_mode env));
          full = fs(temporary \<mapsto> Regular contents (he_created_mode env));
          closed_mode = fs(temporary \<mapsto> Regular contents PRIVATE_FILE_MODE);
          renamed = fs(temporary := None, path \<mapsto> Regular contents PRIVATE_FILE_MODE)
      in if he_fails env (WriteAll temporary) then ([opened, partial] @ remove_temporary env temporary partial, Inl HookIo)
         else if he_fails env (FlushFile temporary) \<or> he_fails env (SyncFile temporary) \<or> he_fails env (SetMode temporary)
           then ([opened, full] @ remove_temporary env temporary full, Inl HookIo)
         else if he_fails env (RenameTo path) \<or> fs path = Some DirectoryNode
           then ([opened, full, closed_mode] @ remove_temporary env temporary closed_mode, Inl HookIo)
         else if he_fails env (OpenDir path) \<or> he_fails env (SyncDir path)
           then ([opened, full, closed_mode, renamed] @ remove_temporary env temporary renamed, Inl HookIo)
         else ([opened, full, closed_mode, renamed], Inr ()))"

definition dot_tmnotify :: ustring where "dot_tmnotify = ustr ''.tmnotify.''"

definition temporary_name :: "nat \<Rightarrow> nat list \<Rightarrow> nat \<Rightarrow> nat list" where
  "temporary_name pid name n =
     ustr ''.'' @ name @ dot_tmnotify @ print_nat pid @ ustr ''.'' @ print_nat n @ ustr ''.tmp''"

definition temporary_path :: "nat \<Rightarrow> hook_path \<Rightarrow> nat \<Rightarrow> hook_path" where
  "temporary_path pid path n = butlast path @ [temporary_name pid (last path) n]"

text \<open>A name that is taken moves the attempt on; any other failure to open ends it.\<close>

fun write_attempts :: "hook_env \<Rightarrow> nat list \<Rightarrow> hook_path \<Rightarrow> byte list \<Rightarrow> hook_fs \<Rightarrow> fs_run" where
  "write_attempts env [] path contents fs = ([], Inl HookIo)"
| "write_attempts env (n # ns) path contents fs =
     (let temporary = temporary_path (he_pid env) path n in
      if fs temporary \<noteq> None then write_attempts env ns path contents fs
      else if he_fails env (OpenTemp temporary) then ([], Inl HookIo)
      else fill_and_rename env temporary path contents fs)"

definition write_atomic :: "hook_env \<Rightarrow> hook_path \<Rightarrow> byte list \<Rightarrow> hook_fs \<Rightarrow> fs_run" where
  "write_atomic env path contents fs =
     (if last_name path = None then ([], Inl InvalidPath)
      else write_attempts env [0..<32] path contents fs)"

text \<open>\<open>Path::parent\<close> is absent for the root and the empty path.\<close>

definition has_parent :: "hook_path \<Rightarrow> bool" where
  "has_parent path \<longleftrightarrow> path \<noteq> [] \<and> last path \<noteq> [slash]"

definition backup_path :: "hook_path \<Rightarrow> hook_path" where
  "backup_path path = butlast path @ [last path @ ustr ''.tmnotify.bak'']"

definition set_private_mode :: "hook_env \<Rightarrow> hook_path \<Rightarrow> hook_fs \<Rightarrow> fs_run" where
  "set_private_mode env path fs =
     (if he_fails env (SetMode path) then ([], Inl HookIo)
      else (case fs path of
          Some (Regular bytes mode) \<Rightarrow> ([fs(path \<mapsto> Regular bytes PRIVATE_FILE_MODE)], Inr ())
        | _ \<Rightarrow> ([], Inl HookIo)))"

definition atomic_replace :: "hook_env \<Rightarrow> hook_path \<Rightarrow> byte list \<Rightarrow> byte list option \<Rightarrow> hook_fs \<Rightarrow> fs_run" where
  "atomic_replace env path contents prior fs =
     (if \<not> has_parent path then ([], Inl InvalidPath)
      else if he_fails env (MakeDirs (butlast path)) then ([], Inl HookIo)
      else after_run fs
        (case prior of
           None \<Rightarrow> ([], Inr ())
         | Some bytes \<Rightarrow>
             after_run fs (write_atomic env (backup_path path) bytes fs) (set_private_mode env (backup_path path)))
        (write_atomic env path contents))"

section \<open>The manager\<close>

datatype hook_scope = UserScope | ProjectScope | LocalScope

datatype mutation = Changed | Unchanged

record hook_manager =
  hm_executable :: os_path
  hm_home :: "hook_path option"
  hm_project :: hook_path
  hm_claude_directory :: "hook_path option"

definition nonempty_path :: "ustring option \<Rightarrow> hook_path option" where
  "nonempty_path value =
     (case value of None \<Rightarrow> None | Some s \<Rightarrow> if s = [] then None else Some (path_components s))"

definition hook_manager_new ::
  "os_path \<Rightarrow> hook_path \<Rightarrow> (ustring \<Rightarrow> ustring option) \<Rightarrow> hook_error + hook_manager" where
  "hook_manager_new executable project environment =
     (if \<not> is_absolute (path_units executable) \<or> path_file_name (path_units executable) \<noteq> Some (ustr ''tmnotify'')
      then Inl (InvalidExecutable executable)
      else Inr \<lparr>hm_executable = executable, hm_home = nonempty_path (environment (ustr ''HOME'')),
        hm_project = project, hm_claude_directory = nonempty_path (environment (ustr ''CLAUDE_CONFIG_DIR''))\<rparr>)"

fun supported_scopes :: "provider \<Rightarrow> hook_scope list" where
  "supported_scopes Claude = [UserScope, ProjectScope, LocalScope]"
| "supported_scopes Codex = [UserScope, ProjectScope]"

definition or_home :: "'a option \<Rightarrow> hook_error + 'a" where
  "or_home x = (case x of Some v \<Rightarrow> Inr v | None \<Rightarrow> Inl HomeUnavailable)"

fun manager_path :: "hook_manager \<Rightarrow> provider \<Rightarrow> hook_scope \<Rightarrow> hook_error + hook_path" where
  "manager_path m Claude UserScope =
     map_sum id (\<lambda>d. d @ [ustr ''settings.json''])
       (or_home (case hm_claude_directory m of
          Some d \<Rightarrow> Some d | None \<Rightarrow> map_option (\<lambda>h. h @ [ustr ''.claude'']) (hm_home m)))"
| "manager_path m Claude ProjectScope = Inr (hm_project m @ [ustr ''.claude'', ustr ''settings.json''])"
| "manager_path m Claude LocalScope = Inr (hm_project m @ [ustr ''.claude'', ustr ''settings.local.json''])"
| "manager_path m Codex UserScope =
     map_sum id (\<lambda>h. h @ [ustr ''.codex'', ustr ''hooks.json'']) (or_home (hm_home m))"
| "manager_path m Codex ProjectScope = Inr (hm_project m @ [ustr ''.codex'', ustr ''hooks.json''])"
| "manager_path m Codex LocalScope = Inl UnsupportedScope"

text \<open>Hooks that Codex reads from its own configuration: an installation beside them is refused.\<close>

fun toml_value_is_nonempty :: "toml_value \<Rightarrow> bool" where
  "toml_value_is_nonempty (TomlArray values) = (values \<noteq> [])"
| "toml_value_is_nonempty (TomlTable values) = (values \<noteq> [])"
| "toml_value_is_nonempty TomlScalar = True"

fun toml_get :: "toml_value \<Rightarrow> ustring \<Rightarrow> toml_value option" where
  "toml_get (TomlTable values) key = map_of values key"
| "toml_get _ key = None"

definition codex_config_path :: "hook_manager \<Rightarrow> hook_scope \<Rightarrow> hook_error + hook_path option" where
  "codex_config_path m scope =
     (case scope of
        UserScope \<Rightarrow> map_sum id (\<lambda>h. Some (h @ [ustr ''.codex'', ustr ''config.toml''])) (or_home (hm_home m))
      | ProjectScope \<Rightarrow> Inr (Some (hm_project m @ [ustr ''.codex'', ustr ''config.toml'']))
      | LocalScope \<Rightarrow> Inr None)"

definition reject_inline_codex ::
  "hook_env \<Rightarrow> hook_manager \<Rightarrow> provider \<Rightarrow> hook_scope \<Rightarrow> bool \<Rightarrow> hook_fs \<Rightarrow> hook_error + unit" where
  "reject_inline_codex env m p scope allow_mixed fs =
     (if p \<noteq> Codex \<or> allow_mixed then Inr ()
      else bind_sum (codex_config_path m scope) (\<lambda>config.
        case config of None \<Rightarrow> Inr ()
        | Some path \<Rightarrow>
            bind_sum (read_bounded_file env fs path) (\<lambda>r.
              case r of None \<Rightarrow> Inr ()
              | Some bytes \<Rightarrow> (case utf8_decode bytes of
                  None \<Rightarrow> Inl InvalidUtf8
                | Some contents \<Rightarrow> (case he_toml env contents of
                    None \<Rightarrow> Inl HookToml
                  | Some value \<Rightarrow> (case toml_get value key_hooks of
                      None \<Rightarrow> Inr ()
                    | Some v \<Rightarrow> if toml_value_is_nonempty v then Inl MixedCodexHooks else Inr ()))))))"

text \<open>The result of an operation is \<open>None\<close> when it panics; the states come with it.\<close>

type_synonym 'a hook_result = "(hook_error + 'a) option"

type_synonym 'a hook_run = "hook_fs list \<times> 'a hook_result"

definition already_reconciled ::
  "hook_manager \<Rightarrow> provider \<Rightarrow> hook_provider_config \<Rightarrow> reconcile_mode \<Rightarrow> json \<Rightarrow> bool option" where
  "already_reconciled m p config mode value =
     (if mode = Remove then map_option Not (contains_owned_handler p value)
      else installation_is_in_sync p (hm_executable m) (desired_events p config) value)"

definition reconcile_document ::
  "hook_env \<Rightarrow> hook_manager \<Rightarrow> hook_path \<Rightarrow> provider \<Rightarrow> hook_provider_config \<Rightarrow> reconcile_mode \<Rightarrow> document \<Rightarrow> hook_fs
     \<Rightarrow> mutation hook_run" where
  "reconcile_document env m path p config mode d fs =
     (case already_reconciled m p config mode (doc_value d) of
        None \<Rightarrow> ([], None)
      | Some True \<Rightarrow> ([], Some (Inr Unchanged))
      | Some False \<Rightarrow>
          (case reconcile_value p (hm_executable m) config mode (doc_value d) of
             None \<Rightarrow> ([], None)
           | Some (Inl e) \<Rightarrow> ([], Some (Inl e))
           | Some (Inr value) \<Rightarrow>
               (case render env (d\<lparr>doc_value := value\<rparr>) of
                  Inl e \<Rightarrow> ([], Some (Inl e))
                | Inr rendered \<Rightarrow>
                    if doc_original d = Some rendered then ([], Some (Inr Unchanged))
                    else (case atomic_replace env path rendered (doc_original d) fs of
                        (trace, r) \<Rightarrow> (trace, Some (map_sum id (\<lambda>_. Changed) r))))))"

definition reconcile_file ::
  "hook_env \<Rightarrow> hook_manager \<Rightarrow> hook_path \<Rightarrow> provider \<Rightarrow> hook_provider_config \<Rightarrow> reconcile_mode \<Rightarrow> hook_fs
     \<Rightarrow> mutation hook_run" where
  "reconcile_file env m path p config mode fs =
     (case read_document env fs path of
        Inl e \<Rightarrow> ([], Some (Inl e))
      | Inr found \<Rightarrow>
          let d = (case found of None \<Rightarrow> document_empty | Some d \<Rightarrow> d) in
          if mode = Remove \<and> doc_original d = None then ([], Some (Inr Unchanged))
          else reconcile_document env m path p config mode d fs)"

definition hook_install ::
  "hook_env \<Rightarrow> hook_manager \<Rightarrow> provider \<Rightarrow> hook_scope \<Rightarrow> hook_provider_config \<Rightarrow> bool \<Rightarrow> hook_fs \<Rightarrow> mutation hook_run" where
  "hook_install env m p scope config allow_mixed fs =
     (case manager_path m p scope of
        Inl e \<Rightarrow> ([], Some (Inl e))
      | Inr path \<Rightarrow> (case reject_inline_codex env m p scope allow_mixed fs of
            Inl e \<Rightarrow> ([], Some (Inl e))
          | Inr _ \<Rightarrow> reconcile_file env m path p config Install fs))"

definition hook_remove ::
  "hook_env \<Rightarrow> hook_manager \<Rightarrow> provider \<Rightarrow> hook_scope \<Rightarrow> hook_fs \<Rightarrow> mutation hook_run" where
  "hook_remove env m p scope fs =
     (case manager_path m p scope of
        Inl e \<Rightarrow> ([], Some (Inl e))
      | Inr path \<Rightarrow> reconcile_file env m path p hook_provider_config_default Remove fs)"

text \<open>The scopes are taken in order. An error ends the work, and what earlier scopes changed stays.\<close>

definition sync_scope ::
  "hook_env \<Rightarrow> hook_manager \<Rightarrow> provider \<Rightarrow> hook_provider_config \<Rightarrow> bool \<Rightarrow> hook_scope \<Rightarrow> hook_fs
     \<Rightarrow> mutation option hook_run" where
  "sync_scope env m p config allow_mixed scope fs =
     (case bind_sum (manager_path m p scope) (\<lambda>path. map_sum id (\<lambda>d. (path, d)) (read_document env fs path)) of
        Inl e \<Rightarrow> ([], Some (Inl e))
      | Inr (path, None) \<Rightarrow> ([], Some (Inr None))
      | Inr (path, Some d) \<Rightarrow>
          (case contains_owned_handler p (doc_value d) of
             None \<Rightarrow> ([], None)
           | Some False \<Rightarrow> ([], Some (Inr None))
           | Some True \<Rightarrow>
               (case reject_inline_codex env m p scope allow_mixed fs of
                  Inl e \<Rightarrow> ([], Some (Inl e))
                | Inr _ \<Rightarrow>
                    (case reconcile_document env m path p config Sync d fs of
                       (trace, r) \<Rightarrow> (trace, map_option (map_sum id Some) r)))))"

fun sync_scopes ::
  "hook_env \<Rightarrow> hook_manager \<Rightarrow> provider \<Rightarrow> hook_provider_config \<Rightarrow> bool \<Rightarrow> hook_scope list \<Rightarrow> hook_fs
     \<Rightarrow> (hook_scope \<times> mutation) list hook_run" where
  "sync_scopes env m p config allow_mixed [] fs = ([], Some (Inr []))"
| "sync_scopes env m p config allow_mixed (scope # scopes) fs =
     (case sync_scope env m p config allow_mixed scope fs of
        (trace, None) \<Rightarrow> (trace, None)
      | (trace, Some (Inl e)) \<Rightarrow> (trace, Some (Inl e))
      | (trace, Some (Inr done_here)) \<Rightarrow>
          (case sync_scopes env m p config allow_mixed scopes (last_state fs trace) of
             (trace', r) \<Rightarrow>
               (trace @ trace', map_option (map_sum id (\<lambda>outcomes.
                  (case done_here of None \<Rightarrow> [] | Some x \<Rightarrow> [(scope, x)]) @ outcomes)) r)))"

definition hook_sync ::
  "hook_env \<Rightarrow> hook_manager \<Rightarrow> provider \<Rightarrow> hook_provider_config \<Rightarrow> bool \<Rightarrow> hook_fs
     \<Rightarrow> (hook_scope \<times> mutation) list hook_run" where
  "hook_sync env m p config allow_mixed fs =
     sync_scopes env m p config allow_mixed (supported_scopes p) fs"

record scope_status =
  st_provider :: provider
  st_scope :: hook_scope
  st_path :: hook_path
  st_installed :: bool
  st_in_sync :: bool

text \<open>\<open>installed \<and> in_sync\<close>, where the second is only looked at when the first holds.\<close>

definition and_then_sync :: "bool \<Rightarrow> bool option \<Rightarrow> bool option" where
  "and_then_sync installed check = (if installed then check else Some False)"

definition status_of_scope ::
  "hook_env \<Rightarrow> hook_manager \<Rightarrow> provider \<Rightarrow> ustring list \<Rightarrow> hook_fs \<Rightarrow> hook_scope \<Rightarrow> scope_status hook_result" where
  "status_of_scope env m p desired fs scope =
     (case bind_sum (manager_path m p scope) (\<lambda>path. map_sum id (\<lambda>d. (path, d)) (read_document env fs path)) of
        Inl e \<Rightarrow> Some (Inl e)
      | Inr (path, None) \<Rightarrow>
          Some (Inr \<lparr>st_provider = p, st_scope = scope, st_path = path, st_installed = False, st_in_sync = False\<rparr>)
      | Inr (path, Some d) \<Rightarrow>
          Option.bind (contains_owned_handler p (doc_value d)) (\<lambda>installed.
          Option.bind (and_then_sync installed
              (installation_is_in_sync p (hm_executable m) desired (doc_value d))) (\<lambda>in_sync.
            Some (Inr \<lparr>st_provider = p, st_scope = scope, st_path = path, st_installed = installed,
              st_in_sync = in_sync\<rparr>))))"

text \<open>\<open>collect\<close> into a result: the first error ends it.\<close>

fun collect_statuses :: "('a \<Rightarrow> 'b hook_result) \<Rightarrow> 'a list \<Rightarrow> 'b list hook_result" where
  "collect_statuses f [] = Some (Inr [])"
| "collect_statuses f (x # xs) =
     (case f x of
        None \<Rightarrow> None
      | Some (Inl e) \<Rightarrow> Some (Inl e)
      | Some (Inr y) \<Rightarrow> map_option (map_sum id ((#) y)) (collect_statuses f xs))"

definition hook_status :: "hook_env \<Rightarrow> hook_manager \<Rightarrow> provider \<Rightarrow> hook_fs \<Rightarrow> scope_status list hook_result" where
  "hook_status env m p fs =
     collect_statuses (status_of_scope env m p (desired_events p hook_provider_config_default) fs) (supported_scopes p)"

definition recheck_status ::
  "hook_env \<Rightarrow> hook_manager \<Rightarrow> provider \<Rightarrow> ustring list \<Rightarrow> hook_fs \<Rightarrow> scope_status \<Rightarrow> scope_status hook_result" where
  "recheck_status env m p desired fs st =
     (case read_document env fs (st_path st) of
        Inl e \<Rightarrow> Some (Inl e)
      | Inr None \<Rightarrow> Some (Inr st)
      | Inr (Some d) \<Rightarrow>
          map_option (\<lambda>in_sync. Inr (st\<lparr>st_in_sync := in_sync\<rparr>))
            (and_then_sync (st_installed st) (installation_is_in_sync p (hm_executable m) desired (doc_value d))))"

definition status_with_config ::
  "hook_env \<Rightarrow> hook_manager \<Rightarrow> provider \<Rightarrow> hook_provider_config \<Rightarrow> hook_fs \<Rightarrow> scope_status list hook_result" where
  "status_with_config env m p config fs =
     (case hook_status env m p fs of
        None \<Rightarrow> None
      | Some (Inl e) \<Rightarrow> Some (Inl e)
      | Some (Inr statuses) \<Rightarrow> collect_statuses (recheck_status env m p (desired_events p config) fs) statuses)"

end
