(* ===== verification/Hook_Files_Props.thy ===== *)
theory Hook_Files_Props
  imports Hook_Files
begin

text \<open>
  The replacement of a provider's file seen at every intermediate state, and what an installation leaves for
  the operations after it.
\<close>

section \<open>Names of the files written\<close>

definition temporaries :: "nat \<Rightarrow> hook_path \<Rightarrow> hook_path set" where
  "temporaries pid path = range (temporary_path pid path)"

lemma last_temporary: "q \<in> temporaries pid path \<Longrightarrow> \<exists>n. last q = temporary_name pid (last path) n"
  by (auto simp: temporaries_def temporary_path_def)

lemma temporary_name_end: "last (temporary_name pid name n) = 0x70"
  by (simp add: temporary_name_def)

lemma temporary_name_longer: "length name < length (temporary_name pid name n)"
  by (simp add: temporary_name_def)

lemma last_backup [simp]: "last (backup_path path) = last path @ ustr ''.tmnotify.bak''"
  by (simp add: backup_path_def)

lemma own_temporary: "path \<notin> temporaries pid path"
  by (metis last_temporary less_irrefl temporary_name_longer)

lemma names_apart:
  "backup_path path \<noteq> path" "backup_path path \<notin> temporaries pid path" "path \<notin> temporaries pid (backup_path path)"
proof -
  have longer: "length (last path) < length (last (backup_path path))" by simp
  then show "backup_path path \<noteq> path" by (metis less_irrefl)
  have "last (last (backup_path path)) \<noteq> 0x70" by simp
  then show "backup_path path \<notin> temporaries pid path" by (metis last_temporary temporary_name_end)
  show "path \<notin> temporaries pid (backup_path path)"
    by (metis last_temporary temporary_name_longer longer less_trans less_irrefl)
qed

section \<open>One replacement\<close>

text \<open>What a run that replaces one file guarantees: at every state the file is the old or the whole new one, other
  files than its temporaries are as before, and success means the new one with nothing left over.\<close>

definition keeps_others :: "hook_fs \<Rightarrow> hook_path \<Rightarrow> byte list \<Rightarrow> hook_path set \<Rightarrow> hook_fs \<Rightarrow> bool" where
  "keeps_others fs path contents temps s \<longleftrightarrow>
     s path \<in> {fs path, Some (Regular contents PRIVATE_FILE_MODE)} \<and> (\<forall>q. q \<noteq> path \<and> q \<notin> temps \<longrightarrow> s q = fs q)"

definition replaces :: "hook_fs \<Rightarrow> hook_path \<Rightarrow> byte list \<Rightarrow> hook_path set \<Rightarrow> fs_run \<Rightarrow> bool" where
  "replaces fs path contents temps run \<longleftrightarrow>
     list_all (keeps_others fs path contents temps) (fst run)
     \<and> (snd run = Inr () \<longrightarrow> last_state fs (fst run) = fs(path \<mapsto> Regular contents PRIVATE_FILE_MODE))"

lemma replaces_failed [simp]: "replaces fs path contents temps ([], Inl e)"
  by (simp add: replaces_def)

lemma fill_and_rename_replaces:
  assumes "temporary \<in> temps" "path \<notin> temps" "fs temporary = None"
  shows "replaces fs path contents temps (fill_and_rename env temporary path contents fs)"
proof -
  let ?K = "keeps_others fs path contents temps"
  have ne: "temporary \<noteq> path" using assms(1,2) by blast
  have temp: "?K (fs(temporary \<mapsto> x))" for x using assms ne by (auto simp: keeps_others_def)
  let ?renamed = "fs(temporary := None, path \<mapsto> Regular contents PRIVATE_FILE_MODE)"
  have renamed: "?K ?renamed" using assms ne by (auto simp: keeps_others_def)
  have "?K (s(temporary := None))" if "?K s" for s using that assms ne by (auto simp: keeps_others_def)
  then have up: "list_all ?K (remove_temporary env temporary s)" if "?K s" for s using that by (simp add: remove_temporary_def)
  have "?renamed = fs(path \<mapsto> Regular contents PRIVATE_FILE_MODE)" using assms(3) ne by (auto simp: fun_eq_iff)
  then have "last_state fs [a, b, c, ?renamed] = fs(path \<mapsto> Regular contents PRIVATE_FILE_MODE)" for a b c
    by (simp add: last_state_def)
  then show ?thesis
    unfolding replaces_def fill_and_rename_def Let_def using temp renamed up by simp
qed

lemma write_attempts_replaces:
  "replaces fs path contents (temporaries (he_pid env) path) (write_attempts env ns path contents fs)"
proof (induction ns)
  case (Cons n ns)
  have "temporary_path (he_pid env) path n \<in> temporaries (he_pid env) path" by (simp add: temporaries_def)
  then show ?case
    using Cons own_temporary by (simp add: Let_def fill_and_rename_replaces)
qed simp

lemma write_atomic_replaces: "replaces fs path contents (temporaries (he_pid env) path) (write_atomic env path contents fs)"
  by (simp add: write_atomic_def write_attempts_replaces)

lemma last_state_mem: "last_state fs trace = fs \<or> last_state fs trace \<in> set trace"
  by (auto simp: last_state_def)

lemma last_state_append: "last_state fs (a @ b) = last_state (last_state fs a) b"
  by (cases b rule: rev_cases) (auto simp: last_state_def)

text \<open>The backup comes first, so a changed file has its backup.\<close>

definition backup_made :: "hook_env \<Rightarrow> hook_path \<Rightarrow> byte list option \<Rightarrow> hook_fs \<Rightarrow> fs_run" where
  "backup_made env path prior fs =
     (case prior of
        None \<Rightarrow> ([], Inr ())
      | Some bytes \<Rightarrow>
          after_run fs (write_atomic env (backup_path path) bytes fs) (set_private_mode env (backup_path path)))"

lemma backup_made_ok:
  assumes "backup_made env path prior fs = (trace, r)"
  shows "\<forall>s \<in> set trace. \<forall>q. q \<noteq> backup_path path \<and> q \<notin> temporaries (he_pid env) (backup_path path) \<longrightarrow> s q = fs q"
    and "r = Inr () \<Longrightarrow> last_state fs trace =
      (case prior of None \<Rightarrow> fs | Some bytes \<Rightarrow> fs(backup_path path \<mapsto> Regular bytes PRIVATE_FILE_MODE))"
proof -
  have "(\<forall>s \<in> set trace. \<forall>q. q \<noteq> backup_path path \<and> q \<notin> temporaries (he_pid env) (backup_path path) \<longrightarrow> s q = fs q)
    \<and> (r = Inr () \<longrightarrow> last_state fs trace =
        (case prior of None \<Rightarrow> fs | Some bytes \<Rightarrow> fs(backup_path path \<mapsto> Regular bytes PRIVATE_FILE_MODE)))"
  proof (cases prior)
    case None
    then show ?thesis using assms by (auto simp: backup_made_def last_state_def)
  next
    case (Some bytes)
    obtain t1 r1 where w: "write_atomic env (backup_path path) bytes fs = (t1, r1)" by fastforce
    have rep: "replaces fs (backup_path path) bytes (temporaries (he_pid env) (backup_path path)) (t1, r1)"
      using write_atomic_replaces [of fs "backup_path path" bytes env] by (simp add: w)
    show ?thesis
    proof (cases r1)
      case (Inl e)
      then show ?thesis using assms rep by (auto simp: backup_made_def Some w after_run_def replaces_def keeps_others_def list_all_iff)
    next
      case (Inr u)
      then have last: "last_state fs t1 = fs(backup_path path \<mapsto> Regular bytes PRIVATE_FILE_MODE)"
        using rep by (simp add: replaces_def)
      show ?thesis using assms rep
        by (auto simp: backup_made_def Some w after_run_def replaces_def keeps_others_def list_all_iff Inr set_private_mode_def last last_state_append
            last_state_def [of _ "[_]"] last_state_def [of _ "[]"] split: if_splits)
    qed
  qed
  then show "\<forall>s \<in> set trace. \<forall>q. q \<noteq> backup_path path \<and> q \<notin> temporaries (he_pid env) (backup_path path) \<longrightarrow> s q = fs q"
    and "r = Inr () \<Longrightarrow> last_state fs trace =
      (case prior of None \<Rightarrow> fs | Some bytes \<Rightarrow> fs(backup_path path \<mapsto> Regular bytes PRIVATE_FILE_MODE))"
    by blast+
qed

lemma atomic_replace_alt:
  "atomic_replace env path contents prior fs =
     (if \<not> has_parent path then ([], Inl InvalidPath)
      else if he_fails env (MakeDirs (butlast path)) then ([], Inl HookIo)
      else after_run fs (backup_made env path prior fs) (write_atomic env path contents))"
  by (simp add: atomic_replace_def backup_made_def)

lemma atomic_replace_final:
  assumes "atomic_replace env path contents prior fs = (trace, Inr ())"
  shows "last_state fs trace =
    (case prior of None \<Rightarrow> fs | Some bytes \<Rightarrow> fs(backup_path path \<mapsto> Regular bytes PRIVATE_FILE_MODE))
      (path \<mapsto> Regular contents PRIVATE_FILE_MODE)"
proof -
  obtain t1 r1 where b: "backup_made env path prior fs = (t1, r1)" by fastforce
  obtain t2 r2 where w: "write_atomic env path contents (last_state fs t1) = (t2, r2)" by fastforce
  have ok: "trace = t1 @ t2 \<and> r2 = Inr () \<and> r1 = Inr ()"
    using assms unfolding atomic_replace_alt by (cases r1) (auto simp: b w after_run_def split: if_splits)
  have "last_state (last_state fs t1) t2 = (last_state fs t1)(path \<mapsto> Regular contents PRIVATE_FILE_MODE)"
    using write_atomic_replaces [of "last_state fs t1" path contents env] ok by (simp add: w replaces_def)
  then show ?thesis using ok backup_made_ok(2) [OF b] by (simp add: last_state_append)
qed


definition demo_fs :: hook_fs where
  "demo_fs = [[[slash], ustr ''a''] \<mapsto> Regular [1] 0x1a4]"

definition demo_faults :: hook_env where
  "demo_faults = \<lparr>he_parse = \<lambda>_. None, he_pretty = \<lambda>_ _. None, he_toml = \<lambda>_. None,
     he_fails = (\<lambda>operation. operation = RenameTo [[slash], ustr ''a'']), he_written = 0, he_created_mode = 0x180, he_pid = 7\<rparr>"


section \<open>After an installation\<close>

definition reads_ok :: "hook_env \<Rightarrow> bool" where
  "reads_ok env \<longleftrightarrow>
     (\<forall>q. \<not> he_fails env (OpenRead q) \<and> \<not> he_fails env (ReadMetadata q) \<and> \<not> he_fails env (ReadAll q))"

text \<open>What serde_json documents: a printed value reads back as itself, and an object that was read has distinct
  keys.\<close>

definition json_faithful :: "hook_env \<Rightarrow> bool" where
  "json_faithful env \<longleftrightarrow>
     (\<forall>d bytes. render env d = Inr bytes \<longrightarrow> he_parse env bytes = Some (doc_value d))
     \<and> (\<forall>bytes v. he_parse env bytes = Some v \<longrightarrow> hooks_distinct v)"

lemma read_document_Some:
  assumes "read_document env fs path = Inr (Some d)"
  shows "\<exists>bytes. doc_original d = Some bytes \<and> he_parse env bytes = Some (doc_value d) \<and> as_object (doc_value d) \<noteq> None"
proof -
  obtain found where r: "read_bounded_file env fs path = Inr found"
    using assms by (cases "read_bounded_file env fs path") (simp_all add: read_document_def)
  then show ?thesis using assms
    by (auto simp: read_document_def Let_def split: option.splits if_splits)
qed

lemma read_document_regular:
  assumes "reads_ok env" "fs path = Some (Regular bytes mode)" "length bytes \<le> MAX_PROVIDER_CONFIG_BYTES"
    "he_parse env bytes = Some value" "as_object value \<noteq> None"
  shows "\<exists>d. read_document env fs path = Inr (Some d) \<and> doc_value d = value"
proof -
  have "read_bounded_file env fs path = Inr (Some bytes)" using assms(1,2,3) by (simp add: read_bounded_file_def reads_ok_def)
  then show ?thesis using assms(4,5) by (simp add: read_document_def Let_def)
qed

lemma add_handlers_object: "add_handlers p events exe root = Inr root' \<Longrightarrow> as_object root \<noteq> None \<Longrightarrow> as_object root' \<noteq> None"
proof (induction events arbitrary: root)
  case (Cons event events)
  obtain r1 where r1: "add_handler p event exe root = Inr r1" "add_handlers p events exe r1 = Inr root'"
    using Cons.prems(1) by (cases "add_handler p event exe root") simp_all
  have "\<exists>entries. r1 = JObj entries"
    using r1(1) by (auto simp: add_handler_def split: sum.splits option.splits)
  then show ?case using Cons.IH [OF r1(2)] by auto
qed simp

lemma reconcile_value_object:
  assumes "reconcile_value p exe config mode root = Some (Inr root')" and "as_object root \<noteq> None"
  shows "as_object root' \<noteq> None"
proof -
  obtain r1 where r1: "remove_owned_handlers p root = Some r1"
    "mode = Remove \<and> root' = r1 \<or> add_handlers p (desired_events p config) exe r1 = Inr root'"
    using assms(1) by (auto simp: reconcile_value_def split: if_splits)
  have "as_object r1 \<noteq> None"
    using r1(1) assms(2) by (auto simp: remove_owned_handlers_def split: option.splits)
  then show ?thesis using r1(2) add_handlers_object by blast
qed

text \<open>A document that is in sync: what a second run and a status make of it.\<close>

lemma in_sync_installed:
  assumes "installation_is_in_sync p exe desired value = Some True" and "desired \<noteq> []"
  shows "contains_owned_handler p value = Some True"
proof -
  obtain owned where c: "collect_owned p (visit_handler_records value) = Some owned" "length owned = length desired"
    using assms(1) by (auto simp: installation_is_in_sync_def)
  have "any_owned p records = Some True" if "collect_owned p records = Some owned'" "owned' \<noteq> []" for records owned'
    using that by (induction p records arbitrary: owned' rule: any_owned.induct) (auto split: option.splits)
  moreover have "owned \<noteq> []" using c(2) assms(2) by auto
  ultimately show ?thesis using c(1) by (simp add: contains_owned_handler_def)
qed

lemma reconcile_file_settled:
  assumes "read_document env fs path = Inr (Some d)"
    and "installation_is_in_sync p (hm_executable m) (desired_events p config) (doc_value d) = Some True"
  shows "reconcile_file env m path p config Install fs = ([], Some (Inr Unchanged))"
  using assms by (simp add: reconcile_file_def reconcile_document_def already_reconciled_def)

text \<open>An installation that succeeds leaves a document in sync, or there was nothing to install.\<close>

lemma reconcile_file_install:
  assumes run: "reconcile_file env m path p config Install fs = (trace, Some (Inr result))"
    and exe: "hm_executable m = TextPath program" "names_tmnotify program"
    and json: "json_faithful env" and reads: "reads_ok env"
    and fits: "\<And>bytes mode. last_state fs trace path = Some (Regular bytes mode) \<Longrightarrow> length bytes \<le> MAX_PROVIDER_CONFIG_BYTES"
  shows "(trace = [] \<and> desired_events p config = [] \<and> result = Unchanged) \<or>
    (\<exists>d. read_document env (last_state fs trace) path = Inr (Some d)
       \<and> installation_is_in_sync p (hm_executable m) (desired_events p config) (doc_value d) = Some True)"
    and "\<And>q. q \<noteq> path \<Longrightarrow> q \<noteq> backup_path path \<Longrightarrow> last_state fs trace q = fs q"
proof -
  obtain found where found: "read_document env fs path = Inr found"
    using run by (cases "read_document env fs path") (simp_all add: reconcile_file_def)
  define d where "d = (case found of None \<Rightarrow> document_empty | Some d \<Rightarrow> d)"
  have rec: "reconcile_document env m path p config Install d fs = (trace, Some (Inr result))"
    using run by (simp add: reconcile_file_def found Let_def d_def)
  have object: "as_object (doc_value d) \<noteq> None" and distinct: "hooks_distinct (doc_value d)"
    and original: "doc_original d = Some bytes \<Longrightarrow> he_parse env bytes = Some (doc_value d)" for bytes
  proof -
    show "as_object (doc_value d) \<noteq> None" "hooks_distinct (doc_value d)"
      "doc_original d = Some bytes \<Longrightarrow> he_parse env bytes = Some (doc_value d)" for bytes
      using found read_document_Some [of env fs path] json
      by (cases found; force simp: d_def document_empty_def hooks_distinct_def hooks_of_def document_hooks_def
          json_get_def json_faithful_def)+
  qed
  let ?sync = "\<lambda>v. installation_is_in_sync p (hm_executable m) (desired_events p config) v"
  obtain sync where sync: "?sync (doc_value d) = Some sync"
    using rec by (cases "?sync (doc_value d)") (simp_all add: reconcile_document_def already_reconciled_def)
  have "((trace = [] \<and> desired_events p config = [] \<and> result = Unchanged) \<or>
    (\<exists>d. read_document env (last_state fs trace) path = Inr (Some d) \<and> ?sync (doc_value d) = Some True))
    \<and> (\<forall>q. q \<noteq> path \<and> q \<noteq> backup_path path \<longrightarrow> last_state fs trace q = fs q)"
  proof (cases sync)
    case True
    then have same: "trace = []" "result = Unchanged" using rec sync by (simp_all add: reconcile_document_def already_reconciled_def)
    show ?thesis
    proof (cases found)
      case None
      then have "?sync (JObj []) = Some True" using sync True by (simp add: d_def document_empty_def)
      then have "desired_events p config = []"
        by (simp add: installation_is_in_sync_def visit_handler_records_def document_hooks_def json_get_def)
      then show ?thesis using same by (simp add: last_state_def)
    qed (use sync True found same d_def in \<open>auto simp: last_state_def\<close>)
  next
    case False
    obtain "value" rendered where recv: "reconcile_value p (TextPath program) config Install (doc_value d) = Some (Inr value)"
      and rendered: "render env (d\<lparr>doc_value := value\<rparr>) = Inr rendered"
      and out: "if doc_original d = Some rendered then trace = []
        else fst (atomic_replace env path rendered (doc_original d) fs) = trace
          \<and> snd (atomic_replace env path rendered (doc_original d) fs) = Inr ()"
      using rec sync False exe(1)
      by (auto simp: reconcile_document_def already_reconciled_def map_sum_Inr
          split: option.splits sum.splits if_splits prod.splits)
    have parsed: "he_parse env rendered = Some value" using json rendered by (auto simp: json_faithful_def)
    have insync: "?sync value = Some True"
      using install_correct_sync [OF recv _ distinct exe(2)] exe(1) by simp
    have changed: "doc_original d \<noteq> Some rendered" using original parsed insync sync False by fastforce
    then obtain r where "atomic_replace env path rendered (doc_original d) fs = (trace, Inr ())"
      using out by (metis prod.collapse)
    note final = atomic_replace_final [OF this]
    then have at_path: "last_state fs trace path = Some (Regular rendered PRIVATE_FILE_MODE)" by simp
    have "\<exists>d'. read_document env (last_state fs trace) path = Inr (Some d') \<and> doc_value d' = value"
      by (rule read_document_regular [where fs = "last_state fs trace" and path = path, OF reads at_path fits [OF at_path] parsed reconcile_value_object [OF recv object]])
    then show ?thesis using insync final by (auto split: option.splits)
  qed
  then show "(trace = [] \<and> desired_events p config = [] \<and> result = Unchanged) \<or>
    (\<exists>d. read_document env (last_state fs trace) path = Inr (Some d) \<and> ?sync (doc_value d) = Some True)"
    and "\<And>q. q \<noteq> path \<Longrightarrow> q \<noteq> backup_path path \<Longrightarrow> last_state fs trace q = fs q"
    by blast+
qed

lemma manager_path_name:
  assumes "manager_path m p scope = Inr path"
  shows "last path \<in> {ustr ''settings.json'', ustr ''settings.local.json'', ustr ''hooks.json''}"
  using assms by (cases p; cases scope) (auto simp: map_sum_Inr)

text \<open>The Codex configuration is not among the files an installation writes.\<close>

lemma reject_unchanged:
  assumes path: "manager_path m p scope = Inr path"
    and same: "\<And>q. q \<noteq> path \<Longrightarrow> q \<noteq> backup_path path \<Longrightarrow> fs' q = fs q"
  shows "reject_inline_codex env m p scope allow_mixed fs' = reject_inline_codex env m p scope allow_mixed fs"
proof -
  have "fs' (d @ [ustr ''.codex'', ustr ''config.toml'']) = fs (d @ [ustr ''.codex'', ustr ''config.toml''])" for d
  proof (rule same)
    show "d @ [ustr ''.codex'', ustr ''config.toml''] \<noteq> path" using manager_path_name [OF path] by auto
    have "last (d @ [ustr ''.codex'', ustr ''config.toml'']) \<noteq> last (backup_path path)"
      using manager_path_name [OF path] by auto
    then show "d @ [ustr ''.codex'', ustr ''config.toml''] \<noteq> backup_path path" by metis
  qed
  then have "read_bounded_file env fs' q = read_bounded_file env fs q" if "codex_config_path m scope = Inr (Some q)" for q
    using that by (auto simp: codex_config_path_def read_bounded_file_def map_sum_Inr split: hook_scope.splits)
  then show ?thesis
    by (cases "codex_config_path m scope") (auto simp: reject_inline_codex_def split: option.splits)
qed


text \<open>A printer and a reader of one document, enough to run an installation.\<close>

definition demo_fresh :: json where
  "demo_fresh =
     (case reconcile_value Codex (TextPath demo_program) hook_provider_config_default Install (JObj []) of
        Some (Inr root) \<Rightarrow> root | _ \<Rightarrow> JNull)"

definition demo_printer :: hook_env where
  "demo_printer =
     \<lparr>he_parse = (\<lambda>bytes. case bytes of [] \<Rightarrow> None | b # bs \<Rightarrow> if b = 0x31 then Some demo_fresh else None),
      he_pretty = (\<lambda>indent v. if v = demo_fresh then Some [0x31] else None),
      he_toml = \<lambda>_. None, he_fails = \<lambda>_. False, he_written = 0, he_created_mode = 0x180, he_pid = 7\<rparr>"

definition demo_hook_manager :: hook_manager where
  "demo_hook_manager = \<lparr>hm_executable = TextPath demo_program, hm_home = None, hm_project = [[slash], ustr ''p''],
     hm_claude_directory = None\<rparr>"

definition demo_trace :: "hook_fs list" where
  "demo_trace = fst (hook_install demo_printer demo_hook_manager Codex ProjectScope hook_provider_config_default True (\<lambda>_. None))"

definition demo_hooks_path :: hook_path where
  "demo_hooks_path = [[slash], ustr ''p'', ustr ''.codex'', ustr ''hooks.json'']"

lemma demo_result:
  "snd (hook_install demo_printer demo_hook_manager Codex ProjectScope hook_provider_config_default True (\<lambda>_. None))
     = Some (Inr Changed)"
  by code_simp

lemma demo_final: "last_state (\<lambda>_. None) demo_trace demo_hooks_path = Some (Regular [0x31, 0x0a] PRIVATE_FILE_MODE)"
  by code_simp

lemma demo_fresh_distinct: "hooks_distinct demo_fresh"
  by code_simp

lemma demo_faithful: "json_faithful demo_printer"
  by (auto simp: json_faithful_def render_def demo_printer_def Let_def newline_bytes_def demo_fresh_distinct split: if_splits list.splits)


end
