(* ===== verification/Spec2Isabelle.thy ===== *)
theory Spec2Isabelle
  imports Scheduler_Props Protocol Tmux_Topology Tmux_Connection Renderer_Sessions_Props Tmux_Backend_Props Toast_Render Reconciler_Motion Reconciler_Plan Reconciler_Retry Daemon_Service_Props Runtime_Requests Daemon_Runtime_Props Daemon_Socket History_Props Daemon_Application_Props Hook_Files_Props
begin

text \<open>
  \<^bold>\<open>tmnotify\<close> (Rust, \<open>src/src\<close>): Notifications of command line agents, shown as floating panes of tmux. One
  daemon per tmux server accepts requests over a Unix socket, keeps the live Notifications in a
  scheduler, and lets a reconciler move what tmux shows towards what the scheduler wants; each floating
  pane runs a renderer that redeems a one-time token and is then sent its content.

  This library translates the program's own logic definition by definition and proves what makes each
  part correct. Every definition names the same thing as in the source, or its enclosing function where
  a loop body or a branch has a definition of its own.

  \<^bold>\<open>Conventions.\<close>
  A Rust \<open>String\<close> is the list of its scalar values (\<open>ustring\<close>), bytes are \<open>8 word\<close>, durations and instants are
  nanoseconds, identifiers are \<open>128 word\<close>, generations \<open>64 word\<close>. An operation on a state that may fail or
  panic is an \<open>op\<close> (\<open>Prelude\<close>): it returns a value, an error of the source's enumeration (\<open>Fail\<close>) or
  \<open>Panic\<close>, with the state it leaves. Saturating and wrapping arithmetic is written out. Two locales state
  the contracts several parts share: \<open>invariant_machine\<close> (an invariant kept by every guarded step, interpreted
  on the scheduler, the sessions, the cache and the control connection) and \<open>idempotent_filter\<close>; further ones
  describe what a queue, a codec or an ordered map owes its client. Each is interpreted on the code's own
  definitions.

  \<^bold>\<open>Parts and theories.\<close>

  \<^item> Text ingress, \<open>notification.rs\<close> (\<open>Text_Ingress\<close>): removal of escape sequences and control characters,
    bounds in bytes; normalising is idempotent and leaves plain text.
  \<^item> Notification domain, \<open>notification.rs\<close> (\<open>Notification\<close>): drafts, updates, sources, life cycle.
  \<^item> Live scheduler, \<open>daemon/mod.rs\<close> (\<open>Scheduler\<close> for the code; \<open>Scheduler_Spec\<close> the closed form each loop
    computes; \<open>Scheduler_Inv\<close>, \<open>_Ops\<close>, \<open>_Limits\<close>, \<open>_Jumps\<close>, \<open>_Calls\<close> the invariant and the behaviour of every call;
    \<open>Scheduler_Props\<close>): no call panics, the invariant holds after every sequence of calls, waiting Notifications
    are promoted by priority and age, timers count only time on display, the two-phase jump.
  \<^item> Protocol, \<open>protocol.rs\<close> (\<open>Wire\<close>, \<open>Frames\<close>, \<open>Request_Cache\<close>, \<open>Protocol\<close>): wire forms and their round trip, line
    framing equal to splitting the whole stream, envelopes, the cache of results.
  \<^item> Renderer sessions, \<open>render.rs\<close> (\<open>Renderer_Sessions\<close>, \<open>_Props\<close>): a token is redeemed at most once, by its own
    display, before it expires.
  \<^item> tmux, \<open>tmux/*.rs\<close> (\<open>Tmux_Control\<close>, \<open>Tmux_Connection\<close>, \<open>Tmux_Commands\<close>, \<open>Tmux_Topology\<close>, \<open>Tmux_Backend\<close>,
    \<open>_Props\<close>): the control mode parser, tickets matched with responses in order, command quoting that tmux
    undoes, reading the topology, and the backend's reconciliation as a refinement of the plan.
  \<^item> Configuration, \<open>config.rs\<close> (\<open>Config\<close>; \<open>Utf8\<close> for its bytes): bounds, precedence, text forms, reloading.
  \<^item> Toasts, \<open>toast.rs\<close> (\<open>Toast_Layout\<close>, \<open>Toast_Render\<close>, \<open>Toast_Motion\<close>): slots, rows of text, frames of motions.
  \<^item> Window reconciler, \<open>daemon/reconcile.rs\<close> (\<open>Reconciler\<close>, \<open>_Props\<close>, \<open>_Plan\<close>, \<open>_Motion\<close>, \<open>_Retry\<close>; \<open>Ordered_Map\<close>
    for its maps): a tick never panics, retries back off, planned Toasts fit, motions end on time.
  \<^item> Daemon service, \<open>daemon/service.rs\<close> (\<open>Daemon_Service\<close>, \<open>_Props\<close>): every request and renderer action.
  \<^item> Daemon runtime, \<open>daemon/runtime.rs\<close> (\<open>Runtime_Requests\<close>: interleaved requests are executed once;
    \<open>Daemon_Runtime\<close>, \<open>_Props\<close>: connections, shutdown, clients; \<open>Daemon_Socket\<close>: owning the socket).
  \<^item> Daemon application, \<open>daemon/application.rs\<close> (\<open>Daemon_Application\<close>, \<open>_Props\<close>): live reload of the settings, a
    round of the display loop, signals, and the clean-up, which ends with nothing live and History answered.
  \<^item> History, \<open>history.rs\<close> (\<open>History_Rows\<close>: rows and their reading; \<open>History_Store\<close>: statements, retries, opening, the
    worker and its queue; \<open>History_Props\<close>): rows read back, commands are served in order, a busy database is tried
    a bounded number of times.
  \<^item> Provider events, \<open>providers/*.rs\<close> and the receiver of \<open>hooks.rs\<close> (\<open>Providers\<close>): the policy and the two adapters;
    a hook submits at most one well-formed draft, of a kind the configuration enables.
  \<^item> Hooks, \<open>hooks.rs\<close> (\<open>Hook_Documents\<close>, \<open>_Props\<close>: the JSON documents, which handlers are owned, removal and
    installation; \<open>Hook_Files\<close>, \<open>_Props\<close>: reading, atomic replacement seen at every state, the manager): installation
    is exact, leaves everything foreign alone and settles.

  \<^bold>\<open>Interaction.\<close>
  A frame of a connection (\<open>connection_loop\<close>) becomes a request (\<open>process_frame\<close>), whose handler is
  \<open>service_handle\<close>; this changes the scheduler, hands what closed to History and answers. Independently
  \<open>reconciler_tick\<close> reads the scheduler's \<open>scheduler_display_plan\<close> and tmux's topology, builds the plan and lets
  \<open>backend_reconcile\<close> carry it out, which launches renderers through the sessions; their connections come back
  through \<open>redeem_frame\<close> and \<open>renderer_connection_loop\<close>, and their actions through \<open>handle_renderer_action\<close>.

  \<^bold>\<open>Parameters.\<close>
  Code outside the repository is an argument: the JSON reader and writer, the TOML reader, UUID parsing,
  the token generator and the order of its hash map, grapheme segmentation and cell widths, the rounding
  of double precision, tmux itself (what it answers on the control connection), History's database
  engine and the clock. Hypotheses about them are named (\<open>executor_ok\<close>, \<open>clock_ok\<close>, \<open>json_faithful\<close> and the like) and
  have instances in the witnesses.

  \<^bold>\<open>Bounds and fuel.\<close>
  Loops are recursive functions with a termination proof; where the code's loop might not end it is a
  \<open>partial_function\<close> into \<open>option\<close> and returning is proved: \<open>evict\<close> under the cache's invariant, \<open>retry_from\<close> within
  1002 attempts. Loops over what arrives from outside are functions of the list of events.

  \<^bold>\<open>Not modelled.\<close>
  Doctor and the command line parse arguments and print; the capability probes run external programs; the
  interactive views of \<open>ui/*.rs\<close> and the renderer process are loops over a terminal; of \<open>platform.rs\<close> only the
  checks of owner and mode are modelled, the rest resolves paths and creates private files.
  The tokio primitives (tasks, semaphores, channels) appear as the interleavings they allow.
\<close>

end
